(* ===== verification/JsPrelude.thy ===== *)
theory JsPrelude
  imports Main "HOL-Library.AList" "HOL-Library.Sublist"
begin

text \<open>
  Shared vocabulary of the development: the JavaScript values, dictionaries and string
  operations that the modelled TypeScript uses, and the contracts (locales) that several
  components share.

  Conventions.
  \<^item> A JavaScript string is a \<open>string\<close> with one \<open>char\<close> for each UTF-16 code unit, so
    \<open>length\<close> is the source's \<open>.length\<close>. Text is taken to be Latin-1. The few literals of
    the source outside Latin-1 (the ellipsis, the bullet, the two tick marks) stand as one
    reserved \<open>char\<close> each.
  \<^item> \<open>undefined\<close> is \<open>None\<close>; an optional field is an \<open>option\<close>.
  \<^item> A JavaScript number is an \<open>int\<close> where the source only handles integers (every
    integer below $2^{53}$ is exact in a double), and \<open>int option\<close>, with \<open>None\<close> for
    \<open>NaN\<close>, where \<open>NaN\<close> can arise.
  \<^item> An object used as a dictionary, and a \<open>Map\<close>, is an association list in insertion
    order: assigning an existing key keeps its place, a new key goes to the end. Names
    inherited from \<open>Object.prototype\<close> and the special order of integer-like keys are not
    modelled: no key of the components is of that shape.
  \<^item> A \<open>Set\<close> is a distinct list in insertion order.
\<close>

named_theorems js_defs \<open>definitions of the JavaScript vocabulary\<close>
named_theorems state_defs \<open>definitions of the operations on a component's state\<close>
named_theorems inv_defs \<open>definitions of invariants\<close>

section \<open>Numbers\<close>

text \<open>\<open>x <= y\<close> and \<open>x < y\<close> on numbers that may be \<open>NaN\<close>: every comparison with \<open>NaN\<close>
  is false.\<close>

type_synonym js_num = "int option"

definition num_le :: "js_num \<Rightarrow> js_num \<Rightarrow> bool" where
  [js_defs]: "num_le a b = (case (a, b) of (Some x, Some y) \<Rightarrow> x \<le> y | _ \<Rightarrow> False)"

definition num_less :: "js_num \<Rightarrow> js_num \<Rightarrow> bool" where
  [js_defs]: "num_less a b = (case (a, b) of (Some x, Some y) \<Rightarrow> x < y | _ \<Rightarrow> False)"

definition num_sub :: "js_num \<Rightarrow> js_num \<Rightarrow> js_num" where
  [js_defs]: "num_sub a b = (case (a, b) of (Some x, Some y) \<Rightarrow> Some (x - y) | _ \<Rightarrow> None)"

lemma num_le_Some [simp]: "num_le (Some x) (Some y) \<longleftrightarrow> x \<le> y"
  by (simp add: num_le_def)

lemma num_le_NaN [simp]: "\<not> num_le None b" "\<not> num_le a None"
  by (simp_all add: num_le_def split: option.split)

lemma num_less_Some [simp]: "num_less (Some x) (Some y) \<longleftrightarrow> x < y"
  by (simp add: num_less_def)

lemma num_less_NaN [simp]: "\<not> num_less None b" "\<not> num_less a None"
  by (simp_all add: num_less_def split: option.split)

section \<open>Characters and strings\<close>

definition code_unit :: "char \<Rightarrow> nat" where
  [js_defs]: "code_unit c = of_char c"

definition is_digit :: "char \<Rightarrow> bool" where
  [js_defs]: "is_digit c = (48 \<le> code_unit c \<and> code_unit c \<le> 57)"

definition is_lower :: "char \<Rightarrow> bool" where
  [js_defs]: "is_lower c = (97 \<le> code_unit c \<and> code_unit c \<le> 122)"

definition is_upper :: "char \<Rightarrow> bool" where
  [js_defs]: "is_upper c = (65 \<le> code_unit c \<and> code_unit c \<le> 90)"

text \<open>The class \<open>\w\<close> of a regular expression.\<close>

definition is_word_char :: "char \<Rightarrow> bool" where
  [js_defs]: "is_word_char c = (is_digit c \<or> is_lower c \<or> is_upper c \<or> c = CHR ''_'')"

text \<open>The class \<open>\s\<close> of a regular expression, which is also what \<open>trim\<close> removes:
  tab, line feed, vertical tab, form feed, carriage return, space, no-break space.\<close>

definition is_space :: "char \<Rightarrow> bool" where
  [js_defs]: "is_space c = (code_unit c \<in> {9, 10, 11, 12, 13, 32, 160})"

definition lower_char :: "char \<Rightarrow> char" where
  [js_defs]: "lower_char c = (if is_upper c then char_of (code_unit c + 32) else c)"

definition to_lower :: "string \<Rightarrow> string" where
  [js_defs]: "to_lower s = map lower_char s"

definition trim_start :: "string \<Rightarrow> string" where
  [js_defs]: "trim_start s = dropWhile is_space s"

definition trim_end :: "string \<Rightarrow> string" where
  [js_defs]: "trim_end s = rev (dropWhile is_space (rev s))"

definition js_trim :: "string \<Rightarrow> string" where
  [js_defs]: "js_trim s = trim_end (trim_start s)"

lemma dropWhile_idle: "xs = [] \<or> \<not> P (hd xs) \<Longrightarrow> dropWhile P xs = xs"
  by (cases xs) auto

text \<open>\<open>s.startsWith(t)\<close>, \<open>s.endsWith(t)\<close> and \<open>s.includes(t)\<close>.\<close>

definition starts_with :: "string \<Rightarrow> string \<Rightarrow> bool" where
  [js_defs]: "starts_with s t = prefix t s"

definition ends_with :: "string \<Rightarrow> string \<Rightarrow> bool" where
  [js_defs]: "ends_with s t = suffix t s"

fun str_includes :: "string \<Rightarrow> string \<Rightarrow> bool" where
  "str_includes [] t = (t = [])"
| "str_includes (c # s) t = (prefix t (c # s) \<or> str_includes s t)"

lemma str_includes_sublist: "str_includes s t \<longleftrightarrow> sublist t s"
proof (induction s)
  case Nil
  show ?case by simp
next
  case (Cons c s)
  then show ?case
    by (auto simp: sublist_Cons_right)
qed

lemma str_includes_Nil [simp]: "str_includes s []"
  by (simp add: str_includes_sublist)

section \<open>Truthiness\<close>

text \<open>An absent string and the empty string are falsy.\<close>

definition truthy :: "string option \<Rightarrow> bool" where
  [js_defs]: "truthy s = (case s of None \<Rightarrow> False | Some t \<Rightarrow> t \<noteq> [])"

text \<open>\<open>a || d\<close> with a default string \<open>d\<close>.\<close>

definition or_else :: "string option \<Rightarrow> string \<Rightarrow> string" where
  [js_defs]: "or_else s d = (case s of None \<Rightarrow> d | Some t \<Rightarrow> if t = [] then d else t)"

lemma truthy_simps [simp]: "\<not> truthy None" "truthy (Some t) \<longleftrightarrow> t \<noteq> []"
  by (simp_all add: truthy_def)

lemma or_else_simps [simp]: "or_else None d = d" "or_else (Some []) d = d"
  "t \<noteq> [] \<Longrightarrow> or_else (Some t) d = t"
  by (simp_all add: or_else_def)

lemma or_else_Nil: "or_else s [] = (case s of None \<Rightarrow> [] | Some t \<Rightarrow> t)"
  by (simp add: or_else_def split: option.split)

section \<open>Numbers as text\<close>

fun digits_of :: "nat \<Rightarrow> string" where
  "digits_of n = (if n < 10 then [char_of (48 + n)] else digits_of (n div 10) @ [char_of (48 + n mod 10)])"

declare digits_of.simps [simp del]

text \<open>A number inside a template literal.\<close>

definition int_str :: "int \<Rightarrow> string" where
  [js_defs]: "int_str i = (if i < 0 then CHR ''-'' # digits_of (nat (- i)) else digits_of (nat i))"

definition digit_val :: "char \<Rightarrow> nat" where
  [js_defs]: "digit_val c = code_unit c - 48"

definition hex_val :: "char \<Rightarrow> nat option" where
  [js_defs]: "hex_val c =
    (if is_digit c then Some (digit_val c)
     else if 97 \<le> code_unit c \<and> code_unit c \<le> 102 then Some (code_unit c - 87)
     else if 65 \<le> code_unit c \<and> code_unit c \<le> 70 then Some (code_unit c - 55)
     else None)"

definition dec_val :: "string \<Rightarrow> nat" where
  [js_defs]: "dec_val ds = foldl (\<lambda>a c. 10 * a + digit_val c) 0 ds"

definition hex_num :: "string \<Rightarrow> nat" where
  [js_defs]: "hex_num ds = foldl (\<lambda>a c. 16 * a + (case hex_val c of Some v \<Rightarrow> v | None \<Rightarrow> 0)) 0 ds"

text \<open>
  \<open>parseInt(s, 10)\<close>: skip white space, an optional sign, the longest run of digits;
  \<open>NaN\<close> when there is no digit. \<open>parseInt(s)\<close> without a radix also reads a \<open>0x\<close>
  prefix as base 16.
\<close>

definition split_sign :: "string \<Rightarrow> int \<times> string" where
  [js_defs]: "split_sign s = (case s of [] \<Rightarrow> (1, [])
     | c # r \<Rightarrow> if c = CHR ''-'' then (-1, r) else if c = CHR ''+'' then (1, r) else (1, s))"

definition parse_int10 :: "string \<Rightarrow> js_num" where
  [js_defs]: "parse_int10 s =
    (let (sg, r) = split_sign (trim_start s); ds = takeWhile is_digit r
     in if ds = [] then None else Some (sg * int (dec_val ds)))"

definition parse_int :: "string \<Rightarrow> js_num" where
  [js_defs]: "parse_int s =
    (let (sg, r) = split_sign (trim_start s)
     in if prefix ''0x'' r \<or> prefix ''0X'' r
        then (let ds = takeWhile (\<lambda>c. hex_val c \<noteq> None) (drop 2 r)
              in if ds = [] then None else Some (sg * int (hex_num ds)))
        else (let ds = takeWhile is_digit r
              in if ds = [] then None else Some (sg * int (dec_val ds))))"

lemma code_unit_char_of [simp]: "n < 256 \<Longrightarrow> code_unit (char_of n) = n"
  by (simp add: code_unit_def)

lemma is_digit_digits_of: "c \<in> set (digits_of n) \<Longrightarrow> is_digit c"
proof (induction n rule: digits_of.induct)
  case (1 n)
  show ?case
  proof (cases "n < 10")
    case True
    with "1.prems" show ?thesis by (simp add: digits_of.simps [of n] is_digit_def)
  next
    case False
    with "1.prems" have "c \<in> set (digits_of (n div 10)) \<or> c = char_of (48 + n mod 10)"
      by (auto simp: digits_of.simps [of n])
    moreover have "is_digit (char_of (48 + n mod 10))"
      by (simp add: is_digit_def)
    ultimately show ?thesis using False "1.IH" by blast
  qed
qed

lemma digits_of_nonempty [simp]: "digits_of n \<noteq> []"
  by (simp add: digits_of.simps [of n])

lemma dec_val_snoc: "dec_val (ds @ [c]) = 10 * dec_val ds + digit_val c"
  by (simp add: dec_val_def)

lemma dec_val_digits_of [simp]: "dec_val (digits_of n) = n"
proof (induction n rule: digits_of.induct)
  case (1 n)
  show ?case
  proof (cases "n < 10")
    case True
    then show ?thesis
      by (simp add: digits_of.simps [of n] dec_val_def digit_val_def)
  next
    case False
    with "1.IH" show ?thesis
      by (simp add: digits_of.simps [of n] dec_val_snoc digit_val_def)
  qed
qed

section \<open>Splitting and joining strings\<close>

text \<open>The first occurrence of a separator: the text before and after it.\<close>

fun split_first :: "string \<Rightarrow> string \<Rightarrow> (string \<times> string) option" where
  "split_first sep [] = (if sep = [] then Some ([], []) else None)"
| "split_first sep (c # s) =
     (if prefix sep (c # s) then Some ([], drop (length sep) (c # s))
      else map_option (\<lambda>(a, b). (c # a, b)) (split_first sep s))"

lemma split_first_Some: "split_first sep s = Some (a, b) \<Longrightarrow> s = a @ sep @ b"
proof (induction sep s arbitrary: a rule: split_first.induct)
  case (1 sep)
  then show ?case by (simp split: if_splits)
next
  case (2 sep c s)
  show ?case
  proof (cases "prefix sep (c # s)")
    case True
    then obtain r where r: "c # s = sep @ r" by (auto elim: prefixE)
    from "2.prems" True have "a = []" "b = drop (length sep) (c # s)" by auto
    with r show ?thesis by (simp del: drop_Cons')
  next
    case False
    with "2" show ?thesis by auto
  qed
qed

lemma split_first_None: "split_first sep s = None \<longleftrightarrow> \<not> sublist sep s"
  by (induction sep s rule: split_first.induct) (auto simp: sublist_Cons_right)

text \<open>\<open>s.split(sep)\<close> with a non-empty separator, and \<open>xs.join(sep)\<close>.\<close>

function js_split :: "string \<Rightarrow> string \<Rightarrow> string list" where
  "js_split sep s =
     (if sep = [] then map (\<lambda>c. [c]) s
      else case split_first sep s of None \<Rightarrow> [s] | Some (a, b) \<Rightarrow> a # js_split sep b)"
  by pat_completeness auto
termination
  by (relation "measure (\<lambda>(sep, s). length s)") (auto dest!: split_first_Some)

declare js_split.simps [simp del]

fun js_join :: "string \<Rightarrow> string list \<Rightarrow> string" where
  "js_join sep [] = []"
| "js_join sep [x] = x"
| "js_join sep (x # y # zs) = x @ sep @ js_join sep (y # zs)"

lemma js_join_Cons: "xs \<noteq> [] \<Longrightarrow> js_join sep (x # xs) = x @ sep @ js_join sep xs"
  by (cases xs) simp_all

lemma js_split_nonempty: "sep \<noteq> [] \<Longrightarrow> js_split sep s \<noteq> []"
  by (simp add: js_split.simps [of sep s] split: option.split)

lemma js_join_split: "sep \<noteq> [] \<Longrightarrow> js_join sep (js_split sep s) = s"
proof (induction sep s rule: js_split.induct)
  case (1 sep s)
  show ?case
  proof (cases "split_first sep s")
    case None
    with "1.prems" show ?thesis by (simp add: js_split.simps [of sep s])
  next
    case (Some ab)
    obtain a b where ab: "ab = (a, b)" by (cases ab)
    have "js_join sep (js_split sep b) = b"
      using "1.IH" "1.prems" Some ab by simp
    moreover have "js_split sep s = a # js_split sep b"
      using "1.prems" Some ab by (simp add: js_split.simps [of sep s])
    moreover have "s = a @ sep @ b"
      using Some ab by (simp add: split_first_Some)
    ultimately show ?thesis using "1.prems"
      by (simp add: js_join_Cons js_split_nonempty)
  qed
qed

lemma js_split_no_sep: "sep \<noteq> [] \<Longrightarrow> \<not> sublist sep s \<Longrightarrow> js_split sep s = [s]"
  by (simp add: js_split.simps [of sep s] split_first_None [symmetric])

lemma split_first_char:
  "c \<notin> set x \<Longrightarrow> split_first [c] (x @ c # y) = Some (x, y)"
  by (induction x) auto

lemma split_first_char_None: "c \<notin> set x \<Longrightarrow> split_first [c] x = None"
  by (simp add: split_first_None sublist_def) (metis in_set_conv_decomp)

lemma js_split_join:
  "xs \<noteq> [] \<Longrightarrow> \<forall>x \<in> set xs. c \<notin> set x \<Longrightarrow> js_split [c] (js_join [c] xs) = xs"
proof (induction "[c]" xs rule: js_join.induct)
  case (2 x)
  then show ?case by (simp add: js_split.simps split_first_char_None)
next
  case (3 x y zs)
  then show ?case by (simp add: js_split.simps [of _ "x @ _"] split_first_char)
qed simp

section \<open>Dictionaries\<close>

type_synonym ('k, 'v) dict = "('k \<times> 'v) list"

definition dict_get :: "('k, 'v) dict \<Rightarrow> 'k \<Rightarrow> 'v option" where
  [js_defs]: "dict_get d k = map_of d k"

definition dict_set :: "'k \<Rightarrow> 'v \<Rightarrow> ('k, 'v) dict \<Rightarrow> ('k, 'v) dict" where
  [js_defs]: "dict_set k v d = AList.update k v d"

definition dict_delete :: "'k \<Rightarrow> ('k, 'v) dict \<Rightarrow> ('k, 'v) dict" where
  [js_defs]: "dict_delete k d = AList.delete k d"

definition dict_has :: "('k, 'v) dict \<Rightarrow> 'k \<Rightarrow> bool" where
  [js_defs]: "dict_has d k = (dict_get d k \<noteq> None)"

definition dict_keys :: "('k, 'v) dict \<Rightarrow> 'k list" where
  [js_defs]: "dict_keys d = map fst d"

definition dict_values :: "('k, 'v) dict \<Rightarrow> 'v list" where
  [js_defs]: "dict_values d = map snd d"

definition dict_wf :: "('k, 'v) dict \<Rightarrow> bool" where
  [js_defs]: "dict_wf d = distinct (map fst d)"

text \<open>
  The contract of a JavaScript dictionary, as the components rely on it: what a lookup
  returns after an assignment and after a \<open>delete\<close>, and that both keep the keys distinct.
\<close>

locale js_map =
  fixes mget :: "'m \<Rightarrow> 'k \<Rightarrow> 'v option"
    and mset :: "'k \<Rightarrow> 'v \<Rightarrow> 'm \<Rightarrow> 'm"
    and mdel :: "'k \<Rightarrow> 'm \<Rightarrow> 'm"
    and mempty :: "'m"
    and mwf :: "'m \<Rightarrow> bool"
  assumes get_empty: "mget mempty k = None"
    and get_set: "mget (mset k v m) j = (if j = k then Some v else mget m j)"
    and get_del: "mwf m \<Longrightarrow> mget (mdel k m) j = (if j = k then None else mget m j)"
    and wf_empty: "mwf mempty"
    and wf_set: "mwf m \<Longrightarrow> mwf (mset k v m)"
    and wf_del: "mwf m \<Longrightarrow> mwf (mdel k m)"
begin

lemma get_set_same: "mget (mset k v m) k = Some v"
  by (simp add: get_set)

lemma get_set_other: "j \<noteq> k \<Longrightarrow> mget (mset k v m) j = mget m j"
  by (simp add: get_set)

lemma set_twice: "mget (mset k v (mset k w m)) j = mget (mset k v m) j"
  by (simp add: get_set)

lemma wf_foldr_set: "mwf m \<Longrightarrow> mwf (fold (\<lambda>x. mset (f x) (g x)) xs m)"
  by (induction xs arbitrary: m) (simp_all add: wf_set)

lemma get_fold_set_notin:
  "j \<notin> f ` set xs \<Longrightarrow> mget (fold (\<lambda>x. mset (f x) (g x)) xs m) j = mget m j"
  by (induction xs arbitrary: m) (auto simp: get_set)

lemma get_fold_set_in:
  "distinct (map f xs) \<Longrightarrow> x \<in> set xs \<Longrightarrow> mget (fold (\<lambda>x. mset (f x) (g x)) xs m) (f x) = Some (g x)"
proof (induction xs arbitrary: m)
  case Nil
  then show ?case by simp
next
  case (Cons y ys)
  show ?case
  proof (cases "x = y")
    case True
    with Cons.prems have "f x \<notin> f ` set ys" by auto
    with True show ?thesis by (simp add: get_fold_set_notin get_set)
  next
    case False
    with Cons show ?thesis by auto
  qed
qed

end

interpretation dict: js_map dict_get dict_set dict_delete "[]" dict_wf
proof unfold_locales
  fix m :: "('k, 'v) dict" and k j :: 'k and v :: 'v
  show "dict_get [] k = None" by (simp add: dict_get_def)
  show "dict_get (dict_set k v m) j = (if j = k then Some v else dict_get m j)"
    by (simp add: dict_get_def dict_set_def update_conv')
  show "dict_get (dict_delete k m) j = (if j = k then None else dict_get m j)"
    by (simp add: dict_get_def dict_delete_def delete_conv')
  show "dict_wf []" by (simp add: dict_wf_def)
  assume "dict_wf m"
  then show "dict_wf (dict_set k v m)" "dict_wf (dict_delete k m)"
    by (simp_all add: dict_wf_def dict_set_def dict_delete_def distinct_update distinct_delete)
qed

lemmas dict_simps [simp] =
  dict.get_empty dict.get_set dict.wf_empty dict.wf_set dict.wf_del

lemma dict_get_delete [simp]:
  "dict_get (dict_delete k d) j = (if j = k then None else dict_get d j)"
  by (simp add: dict_get_def dict_delete_def delete_conv')

lemma dict_has_simps [simp]:
  "dict_has (dict_set k v d) j \<longleftrightarrow> j = k \<or> dict_has d j"
  "dict_has (dict_delete k d) j \<longleftrightarrow> j \<noteq> k \<and> dict_has d j"
  "\<not> dict_has [] j"
  by (auto simp: dict_has_def)

lemma dict_keys_set [simp]:
  "dict_keys (dict_set k v d) = (if k \<in> set (dict_keys d) then dict_keys d else dict_keys d @ [k])"
  by (simp add: dict_keys_def dict_set_def update_keys)

lemma dict_keys_delete [simp]: "dict_keys (dict_delete k d) = filter (\<lambda>j. j \<noteq> k) (dict_keys d)"
  unfolding dict_keys_def dict_delete_def delete_keys
  by (simp add: removeAll_filter_not_eq) (metis (no_types))

lemma dict_has_keys: "dict_has d k \<longleftrightarrow> k \<in> set (dict_keys d)"
  by (simp add: dict_has_def dict_get_def dict_keys_def map_of_eq_None_iff)

lemma dict_get_in_values: "dict_get d k = Some v \<Longrightarrow> v \<in> set (dict_values d)"
  by (auto simp: dict_get_def dict_values_def dest: map_of_SomeD intro: rev_image_eqI)

lemma dict_get_iff: "dict_wf d \<Longrightarrow> dict_get d k = Some v \<longleftrightarrow> (k, v) \<in> set d"
  by (simp add: dict_get_def dict_wf_def)

lemma dict_in_values_iff: "dict_wf d \<Longrightarrow> v \<in> set (dict_values d) \<longleftrightarrow> (\<exists>k. dict_get d k = Some v)"
  by (force simp: dict_get_iff dict_values_def)

section \<open>Sets in insertion order\<close>

definition set_add :: "'a \<Rightarrow> 'a list \<Rightarrow> 'a list" where
  [js_defs]: "set_add x xs = (if x \<in> set xs then xs else xs @ [x])"

definition set_remove :: "'a \<Rightarrow> 'a list \<Rightarrow> 'a list" where
  [js_defs]: "set_remove x xs = filter (\<lambda>y. y \<noteq> x) xs"

text \<open>\<open>new Set(xs)\<close>: the first occurrences, in order.\<close>

definition set_of :: "'a list \<Rightarrow> 'a list" where
  [js_defs]: "set_of xs = rev (remdups (rev xs))"

lemma set_set_add [simp]: "set (set_add x xs) = insert x (set xs)"
  by (auto simp: set_add_def)

lemma set_set_remove [simp]: "set (set_remove x xs) = set xs - {x}"
  by (auto simp: set_remove_def)

lemma distinct_set_add [simp]: "distinct xs \<Longrightarrow> distinct (set_add x xs)"
  by (simp add: set_add_def)

lemma distinct_set_remove [simp]: "distinct xs \<Longrightarrow> distinct (set_remove x xs)"
  by (simp add: set_remove_def)

lemma set_add_nonempty [simp]: "set_add x xs \<noteq> []"
  by (auto simp: set_add_def)

lemma set_set_of [simp]: "set (set_of xs) = set xs"
  by (simp add: set_of_def)

lemma distinct_set_of [simp]: "distinct (set_of xs)"
  by (simp add: set_of_def)

section \<open>JSON values\<close>

text \<open>
  What \<open>JSON.parse\<close> produces. A property read on \<open>null\<close> throws (\<open>Inl\<close>); on anything
  else that is not an object it is \<open>undefined\<close>.
\<close>

datatype json = JNull | JBool bool | JNum int | JStr string | JArr "json list"
  | JObj "(string \<times> json) list"

datatype js_error = TypeError | SyntaxError

definition jprop :: "json \<Rightarrow> string \<Rightarrow> js_error + json option" where
  [js_defs]: "jprop j k = (case j of JNull \<Rightarrow> Inl TypeError
     | JObj fs \<Rightarrow> Inr (map_of fs k) | _ \<Rightarrow> Inr None)"

definition jtruthy :: "json option \<Rightarrow> bool" where
  [js_defs]: "jtruthy v = (case v of None \<Rightarrow> False | Some JNull \<Rightarrow> False | Some (JBool b) \<Rightarrow> b
     | Some (JNum n) \<Rightarrow> n \<noteq> 0 | Some (JStr s) \<Rightarrow> s \<noteq> [] | Some _ \<Rightarrow> True)"

definition jor :: "json option \<Rightarrow> json \<Rightarrow> json" where
  [js_defs]: "jor v d = (if jtruthy v then the v else d)"

text \<open>\<open>String(v)\<close>, as template literals apply it.\<close>

fun json_str :: "json \<Rightarrow> string" where
  "json_str JNull = ''null''"
| "json_str (JBool b) = (if b then ''true'' else ''false'')"
| "json_str (JNum n) = int_str n"
| "json_str (JStr s) = s"
| "json_str (JArr xs) = js_join '','' (map (\<lambda>x. if x = JNull then [] else json_str x) xs)"
| "json_str (JObj fs) = ''[object Object]''"

text \<open>\<open>typeof v === 'object'\<close>\<close>

definition is_object_type :: "json \<Rightarrow> bool" where
  [js_defs]: "is_object_type j = (case j of JNull \<Rightarrow> True | JArr _ \<Rightarrow> True | JObj _ \<Rightarrow> True | _ \<Rightarrow> False)"

text \<open>\<open>typeof v\<close> and \<open>Array.isArray(v)\<close>\<close>

definition js_typeof :: "json \<Rightarrow> string" where
  "js_typeof j = (case j of JNull \<Rightarrow> ''object'' | JBool _ \<Rightarrow> ''boolean'' | JNum _ \<Rightarrow> ''number''
     | JStr _ \<Rightarrow> ''string'' | JArr _ \<Rightarrow> ''object'' | JObj _ \<Rightarrow> ''object'')"

definition is_array :: "json \<Rightarrow> bool" where
  "is_array j = (case j of JArr _ \<Rightarrow> True | _ \<Rightarrow> False)"

lemma typeof_simps:
  "js_typeof v = ''string'' \<longleftrightarrow> (\<exists>s. v = JStr s)" "js_typeof v = ''number'' \<longleftrightarrow> (\<exists>n. v = JNum n)"
  "js_typeof v = ''boolean'' \<longleftrightarrow> (\<exists>b. v = JBool b)" "is_array v \<longleftrightarrow> (\<exists>xs. v = JArr xs)"
  "(js_typeof v \<noteq> ''object'' \<or> is_array v \<or> v = JNull) \<longleftrightarrow> \<not> (\<exists>fs. v = JObj fs)"
  by (cases v; simp add: js_typeof_def is_array_def)+

section \<open>Sorting\<close>

text \<open>
  \<open>xs.sort(cmp)\<close> is stable and reads a \<open>NaN\<close> result of the comparator as 0. For a
  comparator that is a consistent order the result is determined, and this insertion sort
  computes it. (When some keys are \<open>NaN\<close> the comparator is not an order and ECMAScript
  leaves the order open; the model then gives one of the allowed orders.)
\<close>

definition cmp_keeps :: "js_num \<Rightarrow> bool" where
  [js_defs]: "cmp_keeps r = (case r of None \<Rightarrow> True | Some d \<Rightarrow> d \<le> 0)"

fun js_insert :: "('a \<Rightarrow> 'a \<Rightarrow> js_num) \<Rightarrow> 'a \<Rightarrow> 'a list \<Rightarrow> 'a list" where
  "js_insert cmp x [] = [x]"
| "js_insert cmp x (y # ys) =
     (if cmp_keeps (cmp x y) then x # y # ys else y # js_insert cmp x ys)"

definition js_sort :: "('a \<Rightarrow> 'a \<Rightarrow> js_num) \<Rightarrow> 'a list \<Rightarrow> 'a list" where
  [js_defs]: "js_sort cmp xs = foldr (js_insert cmp) xs []"

lemma set_js_insert [simp]: "set (js_insert cmp x xs) = insert x (set xs)"
  by (induction xs) auto

lemma length_js_insert [simp]: "length (js_insert cmp x xs) = Suc (length xs)"
  by (induction xs) auto

lemma distinct_map_js_insert:
  "distinct (map f (js_insert cmp x xs)) \<longleftrightarrow> f x \<notin> f ` set xs \<and> distinct (map f xs)"
  by (induction xs) auto

lemma set_js_sort [simp]: "set (js_sort cmp xs) = set xs"
  by (induction xs) (auto simp: js_sort_def)

lemma length_js_sort [simp]: "length (js_sort cmp xs) = length xs"
  by (induction xs) (auto simp: js_sort_def)

lemma distinct_map_js_sort [simp]: "distinct (map f (js_sort cmp xs)) \<longleftrightarrow> distinct (map f xs)"
proof (induction xs)
  case Nil
  show ?case by (simp add: js_sort_def)
next
  case (Cons x xs)
  have "js_sort cmp (x # xs) = js_insert cmp x (js_sort cmp xs)" by (simp add: js_sort_def)
  with Cons show ?case by (simp add: distinct_map_js_insert)
qed

text \<open>With a comparator that subtracts proper numbers, the result is the stable sort by
  that key.\<close>

lemma js_insert_key:
  assumes "\<forall>y \<in> set (x # ys). \<forall>z \<in> set (x # ys). cmp y z = Some (k y - k z)"
  shows "js_insert cmp x ys = insort_key (k :: 'a \<Rightarrow> int) x ys"
  using assms by (induction ys) (auto simp: cmp_keeps_def)

lemma js_sort_key:
  assumes "\<forall>y \<in> set xs. \<forall>z \<in> set xs. cmp y z = Some (k y - k z)"
  shows "js_sort cmp xs = sort_key (k :: 'a \<Rightarrow> int) xs"
  using assms
proof (induction xs)
  case Nil
  show ?case by (simp add: js_sort_def)
next
  case (Cons x xs)
  then have IH: "js_sort cmp xs = sort_key k xs" by simp
  have "js_insert cmp x (sort_key k xs) = insort_key k x (sort_key k xs)"
    by (rule js_insert_key) (use Cons.prems in auto)
  then show ?case using IH by (simp add: js_sort_def)
qed

text \<open>One entry of the object spread \<open>{...a, ...b}\<close>: the entries of \<open>b\<close>, else those of \<open>a\<close>.\<close>

definition pick :: "'a option \<Rightarrow> 'a option \<Rightarrow> 'a option" where
  [js_defs]: "pick a b = (case b of Some _ \<Rightarrow> b | None \<Rightarrow> a)"

section \<open>State machines\<close>

text \<open>
  A reducer is a total function from a state and an event to a state. Whatever every event
  keeps holds after any sequence of events.
\<close>

locale reducer =
  fixes step :: "'s \<Rightarrow> 'e \<Rightarrow> 's"
    and inv :: "'s \<Rightarrow> bool"
  assumes step_inv: "inv s \<Longrightarrow> inv (step s e)"
begin

lemma run_inv: "inv s \<Longrightarrow> inv (foldl step s es)"
  by (induction es arbitrary: s) (simp_all add: step_inv)

end

text \<open>
  A machine whose environment may only offer some events in some states (a socket that is
  open cannot open again): an invariant holds in every state that the guarded steps reach.
\<close>

locale machine =
  fixes init :: "'s \<Rightarrow> bool"
    and mstep :: "'s \<Rightarrow> 's \<Rightarrow> bool"
    and minv :: "'s \<Rightarrow> bool"
  assumes init_inv: "init s \<Longrightarrow> minv s"
    and mstep_inv: "minv s \<Longrightarrow> mstep s t \<Longrightarrow> minv t"
begin

lemma steps_inv: "mstep\<^sup>*\<^sup>* s t \<Longrightarrow> minv s \<Longrightarrow> minv t"
  by (induction rule: rtranclp_induct) (auto intro: mstep_inv)

lemma reachable_inv: "init s \<Longrightarrow> mstep\<^sup>*\<^sup>* s t \<Longrightarrow> minv t"
  by (blast intro: steps_inv init_inv)

end

end
