(* ===== verification/Multiplexer.thy ===== *)
theory Multiplexer
  imports JsPrelude
begin

text \<open>
  The websocket multiplexer, \<^verbatim>\<open>frontend/src/lib/k8s/api/v2/multiplexer.ts\<close>: the object
  \<open>WebSocketManager\<close>, its fields as a record, its methods and its socket, timer and promise
  callbacks as functions on that record extended with the runtime they act on (the sockets
  it created, its armed timers, the \<open>subscribe\<close> calls suspended at an \<open>await\<close>, what was
  sent and which callbacks were called).

  A callback is an identity (\<open>nat\<close>); calling one appends to a log. A callback that throws
  is caught by the source right at the call, so it cannot change what the manager does.
  \<open>JSON.parse\<close> and the user id in the local storage are parameters.
\<close>

section \<open>State\<close>

type_synonym callback = nat

record subscription =
  clusterId :: string
  path :: string
  query :: string

datatype message_type = REQUEST | CLOSE | COMPLETE

record WebSocketMessage = subscription +
  userId :: string
  msg_type :: message_type

text \<open>The fields of \<open>WebSocketManager\<close>. A socket is the index of its construction.\<close>

record ws_manager =
  socketMultiplexer :: "nat option"
  connecting :: bool
  isReconnecting :: bool
  listeners :: "(string, callback list) dict"
  errorListeners :: "(string, callback list) dict"
  completedPaths :: "string list"
  activeSubscriptions :: "(string, subscription) dict"
  pendingUnsubscribes :: "(string, nat) dict"

text \<open>\<open>readyState\<close> of a \<open>WebSocket\<close>.\<close>

datatype ready_state = Connecting | Open | Closing | Closed

text \<open>A suspended \<open>subscribe\<close>: it waits for the socket it created itself, or it polls
  the manager every 100 ms.\<close>

datatype awaiting = OwnSocket nat | Polling

record waiter =
  w_sub :: subscription
  w_listener :: callback
  w_on :: awaiting

text \<open>A delayed unsubscription: what the closure given to \<open>setTimeout\<close> captured.\<close>

record close_timer =
  t_id :: nat
  t_key :: string
  t_sub :: subscription

record ws_world = ws_manager +
  sockets :: "ready_state list"
  timers :: "close_timer list"
  next_timer :: nat
  waiters :: "waiter list"
  sent :: "(nat \<times> WebSocketMessage) list"
  calls :: "(callback \<times> json) list"
  errorCalls :: "(callback \<times> string) list"
  settled :: "(string \<times> callback \<times> bool) list"

definition initial_world :: ws_world where
  [state_defs]: "initial_world =
    \<lparr>socketMultiplexer = None, connecting = False, isReconnecting = False, listeners = [],
     errorListeners = [], completedPaths = [], activeSubscriptions = [],
     pendingUnsubscribes = [], sockets = [], timers = [], next_timer = 1, waiters = [],
     sent = [], calls = [], errorCalls = [], settled = []\<rparr>"

section \<open>Operations\<close>

definition createKey :: "string \<Rightarrow> string \<Rightarrow> string \<Rightarrow> string" where
  "createKey cid p q = cid @ '':'' @ p @ '':'' @ q"

definition sub_key :: "('a) subscription_scheme \<Rightarrow> string" where
  [state_defs]: "sub_key s = createKey (clusterId s) (path s) (query s)"

definition ready :: "ws_world \<Rightarrow> nat \<Rightarrow> ready_state" where
  [state_defs]: "ready w i = (if i < length (sockets w) then sockets w ! i else Closed)"

text \<open>\<open>this.socketMultiplexer?.readyState === WebSocket.OPEN\<close>\<close>

definition mux_open :: "ws_world \<Rightarrow> bool" where
  [state_defs]: "mux_open w = (case socketMultiplexer w of None \<Rightarrow> False | Some i \<Rightarrow> ready w i = Open)"

text \<open>\<open>socket.send\<close>: a socket that is closing or closed drops the message silently. (A
  connecting socket would throw; every call site below sends on an open one.)\<close>

definition ws_send :: "nat \<Rightarrow> WebSocketMessage \<Rightarrow> ws_world \<Rightarrow> ws_world" where
  [state_defs]: "ws_send i m w = (if ready w i = Open then w\<lparr>sent := sent w @ [(i, m)]\<rparr> else w)"

definition make_msg :: "string option \<Rightarrow> message_type \<Rightarrow> subscription \<Rightarrow> WebSocketMessage" where
  [state_defs]: "make_msg uid ty s = \<lparr>clusterId = clusterId s, path = path s, query = query s,
     userId = or_else uid [], msg_type = ty\<rparr>"

datatype connect_result = Ready nat | PendingSocket nat | PendingPoll | Rejected

text \<open>\<open>connect()\<close> up to the promise it returns; \<open>ctor_ok\<close> says whether
  \<open>new WebSocket(wsUrl)\<close> succeeds or throws.\<close>

definition connect :: "bool \<Rightarrow> ws_world \<Rightarrow> connect_result \<times> ws_world" where
  [state_defs]: "connect ctor_ok w =
    (if mux_open w then (Ready (the (socketMultiplexer w)), w)
     else if connecting w then (PendingPoll, w)
     else let w' = w\<lparr>connecting := True\<rparr>
          in if \<not> ctor_ok then (Rejected, w'\<lparr>connecting := False\<rparr>)
             else (PendingSocket (length (sockets w')), w'\<lparr>sockets := sockets w' @ [Connecting]\<rparr>))"

definition listeners_of :: "(string, callback list) dict \<Rightarrow> string \<Rightarrow> callback list" where
  [state_defs]: "listeners_of d k = (case dict_get d k of None \<Rightarrow> [] | Some cs \<Rightarrow> cs)"

text \<open>The part of \<open>subscribe\<close> before its \<open>await\<close>: the registration.\<close>

definition register :: "subscription \<Rightarrow> callback \<Rightarrow> callback option \<Rightarrow> ws_world \<Rightarrow> ws_world" where
  [state_defs]: "register s onMessage onError w =
    (let key = sub_key s;
         w1 = w\<lparr>activeSubscriptions := dict_set key s (activeSubscriptions w)\<rparr>;
         w2 = w1\<lparr>listeners := dict_set key (set_add onMessage (listeners_of (listeners w1) key)) (listeners w1)\<rparr>
     in case onError of
          None \<Rightarrow> w2
        | Some e \<Rightarrow> w2\<lparr>errorListeners :=
            dict_set key (set_add e (listeners_of (errorListeners w2) key)) (errorListeners w2)\<rparr>)"

text \<open>What \<open>subscribe\<close> does when the awaited promise resolves with a socket, and when it
  is rejected: then the call itself rejects, and nothing is taken back.\<close>

definition subscribe_resolved :: "string option \<Rightarrow> nat \<Rightarrow> subscription \<Rightarrow> callback \<Rightarrow> ws_world \<Rightarrow> ws_world" where
  [state_defs]: "subscribe_resolved uid i s cb w =
    (let w' = ws_send i (make_msg uid REQUEST s) w
     in w'\<lparr>settled := settled w' @ [(sub_key s, cb, True)]\<rparr>)"

definition subscribe_rejected :: "subscription \<Rightarrow> callback \<Rightarrow> ws_world \<Rightarrow> ws_world" where
  [state_defs]: "subscribe_rejected s cb w = w\<lparr>settled := settled w @ [(sub_key s, cb, False)]\<rparr>"

definition subscribe ::
  "string option \<Rightarrow> bool \<Rightarrow> subscription \<Rightarrow> callback \<Rightarrow> callback option \<Rightarrow> ws_world \<Rightarrow> ws_world" where
  [state_defs]: "subscribe uid ctor_ok s onMessage onError w =
    (case connect ctor_ok (register s onMessage onError w) of
       (Ready i, w') \<Rightarrow> subscribe_resolved uid i s onMessage w'
     | (PendingSocket i, w') \<Rightarrow>
         w'\<lparr>waiters := waiters w' @ [\<lparr>w_sub = s, w_listener = onMessage, w_on = OwnSocket i\<rparr>]\<rparr>
     | (PendingPoll, w') \<Rightarrow>
         w'\<lparr>waiters := waiters w' @ [\<lparr>w_sub = s, w_listener = onMessage, w_on = Polling\<rparr>]\<rparr>
     | (Rejected, w') \<Rightarrow> subscribe_rejected s onMessage w')"

text \<open>\<open>unsubscribe\<close>\<close>

definition clear_pending :: "string \<Rightarrow> ws_world \<Rightarrow> ws_world" where
  [state_defs]: "clear_pending key w =
    (case dict_get (pendingUnsubscribes w) key of
       None \<Rightarrow> w
     | Some t \<Rightarrow> w\<lparr>timers := filter (\<lambda>c. t_id c \<noteq> t) (timers w),
                  pendingUnsubscribes := dict_delete key (pendingUnsubscribes w)\<rparr>)"

definition arm_close :: "string \<Rightarrow> subscription \<Rightarrow> ws_world \<Rightarrow> ws_world" where
  [state_defs]: "arm_close key s w =
    w\<lparr>timers := timers w @ [\<lparr>t_id = next_timer w, t_key = key, t_sub = s\<rparr>],
      next_timer := next_timer w + 1,
      pendingUnsubscribes := dict_set key (next_timer w) (pendingUnsubscribes w)\<rparr>"

definition drop_listener :: "string \<Rightarrow> subscription \<Rightarrow> callback \<Rightarrow> ws_world \<Rightarrow> ws_world" where
  [state_defs]: "drop_listener key s cb w =
    (case dict_get (listeners w) key of
       None \<Rightarrow> w
     | Some cs \<Rightarrow>
         if set_remove cb cs = []
         then arm_close key s (w\<lparr>listeners := dict_delete key (listeners w)\<rparr>)
         else w\<lparr>listeners := dict_set key (set_remove cb cs) (listeners w)\<rparr>)"

definition drop_error_listener :: "string \<Rightarrow> callback option \<Rightarrow> ws_world \<Rightarrow> ws_world" where
  [state_defs]: "drop_error_listener key onError w =
    (case onError of None \<Rightarrow> w
     | Some e \<Rightarrow> (case dict_get (errorListeners w) key of
          None \<Rightarrow> w
        | Some es \<Rightarrow>
            if set_remove e es = [] then w\<lparr>errorListeners := dict_delete key (errorListeners w)\<rparr>
            else w\<lparr>errorListeners := dict_set key (set_remove e es) (errorListeners w)\<rparr>))"

definition unsubscribe ::
  "string \<Rightarrow> subscription \<Rightarrow> callback \<Rightarrow> callback option \<Rightarrow> ws_world \<Rightarrow> ws_world" where
  [state_defs]: "unsubscribe key s onMessage onError w =
    drop_error_listener key onError (drop_listener key s onMessage (clear_pending key w))"

text \<open>The callback given to \<open>setTimeout\<close> by \<open>unsubscribe\<close>.\<close>

definition close_timeout :: "string option \<Rightarrow> close_timer \<Rightarrow> ws_world \<Rightarrow> ws_world" where
  [state_defs]: "close_timeout uid t w0 =
    (let w = w0\<lparr>timers := filter (\<lambda>c. t_id c \<noteq> t_id t) (timers w0)\<rparr>;
         key = t_key t;
         w1 = (if dict_has (listeners w) key then w
               else let w2 = w\<lparr>activeSubscriptions := dict_delete key (activeSubscriptions w),
                               completedPaths := set_remove key (completedPaths w)\<rparr>
                    in if mux_open w2
                       then ws_send (the (socketMultiplexer w2)) (make_msg uid CLOSE (t_sub t)) w2
                       else w2)
     in w1\<lparr>pendingUnsubscribes := dict_delete key (pendingUnsubscribes w1)\<rparr>)"

definition resubscribeAll :: "string option \<Rightarrow> nat \<Rightarrow> ws_world \<Rightarrow> ws_world" where
  [state_defs]: "resubscribeAll uid i w =
    fold (\<lambda>s. ws_send i (make_msg uid REQUEST s)) (dict_values (activeSubscriptions w)) w"

text \<open>Settling the promise of the \<open>connect()\<close> that created socket \<open>i\<close>: every
  \<open>subscribe\<close> suspended on it goes on.\<close>

definition waits_for :: "nat \<Rightarrow> waiter \<Rightarrow> bool" where
  [state_defs]: "waits_for i x = (w_on x = OwnSocket i)"

definition resolve_own :: "string option \<Rightarrow> nat \<Rightarrow> ws_world \<Rightarrow> ws_world" where
  [state_defs]: "resolve_own uid i w =
    fold (\<lambda>x. subscribe_resolved uid i (w_sub x) (w_listener x)) (filter (waits_for i) (waiters w))
      (w\<lparr>waiters := filter (\<lambda>x. \<not> waits_for i x) (waiters w)\<rparr>)"

definition reject_own :: "nat \<Rightarrow> ws_world \<Rightarrow> ws_world" where
  [state_defs]: "reject_own i w =
    fold (\<lambda>x. subscribe_rejected (w_sub x) (w_listener x)) (filter (waits_for i) (waiters w))
      (w\<lparr>waiters := filter (\<lambda>x. \<not> waits_for i x) (waiters w)\<rparr>)"

definition set_ready :: "nat \<Rightarrow> ready_state \<Rightarrow> ws_world \<Rightarrow> ws_world" where
  [state_defs]: "set_ready i r w = w\<lparr>sockets := (sockets w)[i := r]\<rparr>"

definition socket_onopen :: "string option \<Rightarrow> nat \<Rightarrow> ws_world \<Rightarrow> ws_world" where
  [state_defs]: "socket_onopen uid i w =
    (let w1 = w\<lparr>socketMultiplexer := Some i, connecting := False\<rparr>;
         w2 = (if isReconnecting w1 then resubscribeAll uid i w1 else w1);
         w3 = w2\<lparr>isReconnecting := False\<rparr>
     in resolve_own uid i w3)"

definition socket_onerror :: "nat \<Rightarrow> ws_world \<Rightarrow> ws_world" where
  [state_defs]: "socket_onerror i w = reject_own i (w\<lparr>connecting := False\<rparr>)"

definition handleWebSocketClose :: "ws_world \<Rightarrow> ws_world" where
  [state_defs]: "handleWebSocketClose w =
    w\<lparr>socketMultiplexer := None, connecting := False, completedPaths := [],
      isReconnecting := (activeSubscriptions w \<noteq> [])\<rparr>"

text \<open>One round of the \<open>setInterval\<close> poll of a suspended \<open>subscribe\<close>.\<close>

definition poll :: "string option \<Rightarrow> nat \<Rightarrow> ws_world \<Rightarrow> ws_world" where
  [state_defs]: "poll uid n w =
    (let x = waiters w ! n; w' = w\<lparr>waiters := take n (waiters w) @ drop (Suc n) (waiters w)\<rparr>
     in if mux_open w then subscribe_resolved uid (the (socketMultiplexer w)) (w_sub x) (w_listener x) w'
        else if \<not> connecting w then subscribe_rejected (w_sub x) (w_listener x) w'
        else w)"

section \<open>Incoming messages\<close>

definition call_all :: "callback list \<Rightarrow> json \<Rightarrow> ws_world \<Rightarrow> ws_world" where
  [state_defs]: "call_all cs j w = w\<lparr>calls := calls w @ map (\<lambda>c. (c, j)) cs\<rparr>"

text \<open>The text of an error message: the \<open>error\<close> field of the parsed \<open>data\<close>, or \<open>data\<close>
  itself when it does not parse (or parses to \<open>null\<close>, whose field read throws).\<close>

definition error_message :: "(string \<Rightarrow> json option) \<Rightarrow> json option \<Rightarrow> json" where
  "error_message parse dat =
    (let unknown = JStr ''Unknown error'';
         parsed = (if jtruthy dat then parse (json_str (the dat)) else Some (JObj []))
     in case parsed of
          None \<Rightarrow> jor dat unknown
        | Some p \<Rightarrow> (case jprop p ''error'' of Inl _ \<Rightarrow> jor dat unknown | Inr e \<Rightarrow> jor e unknown))"

definition error_update :: "string \<Rightarrow> json \<Rightarrow> json" where
  "error_update key m =
    JObj [(''type'', JStr ''ERROR''),
          (''object'', JObj [(''kind'', JStr ''Status''), (''status'', JStr ''Failure''),
             (''message'', m),
             (''metadata'', JObj [(''uid'', JStr (key @ '':ERROR:'' @ json_str m)),
                                  (''resourceVersion'', JStr ''0'')])])]"

definition handle_error :: "(string \<Rightarrow> json option) \<Rightarrow> string \<Rightarrow> json option \<Rightarrow> ws_world \<Rightarrow> ws_world" where
  [state_defs]: "handle_error parse key dat w =
    (let m = error_message parse dat; es = listeners_of (errorListeners w) key
     in if es \<noteq> [] then w\<lparr>errorCalls := errorCalls w @ map (\<lambda>e. (e, json_str m)) es\<rparr>
        else call_all (listeners_of (listeners w) key) (error_update key m) w)"

definition handle_update :: "(string \<Rightarrow> json option) \<Rightarrow> string \<Rightarrow> json \<Rightarrow> json option \<Rightarrow> ws_world \<Rightarrow> ws_world" where
  [state_defs]: "handle_update parse key msg dat w =
    (case (if jtruthy dat then parse (json_str (the dat)) else Some msg) of
       None \<Rightarrow> w
     | Some u \<Rightarrow> if jtruthy (Some u) \<and> is_object_type u
                 then call_all (listeners_of (listeners w) key) u w else w)"

definition handleWebSocketMessage :: "(string \<Rightarrow> json option) \<Rightarrow> string \<Rightarrow> ws_world \<Rightarrow> ws_world" where
  [state_defs]: "handleWebSocketMessage parse raw w =
    (case parse raw of
       None \<Rightarrow> w
     | Some JNull \<Rightarrow> w
     | Some msg \<Rightarrow>
         let field = (\<lambda>k. case jprop msg k of Inl _ \<Rightarrow> None | Inr v \<Rightarrow> v)
         in if \<not> jtruthy (field ''clusterId'') \<or> \<not> jtruthy (field ''path'') then w
            else let key = createKey (json_str (the (field ''clusterId''))) (json_str (the (field ''path'')))
                             (json_str (jor (field ''query'') (JStr [])))
                 in if field ''type'' = Some (JStr ''COMPLETE'')
                    then w\<lparr>completedPaths := set_add key (completedPaths w)\<rparr>
                    else if field ''type'' = Some (JStr ''ERROR'')
                    then handle_error parse key (field ''data'') w
                    else handle_update parse key msg (field ''data'') w)"

section \<open>The machine\<close>

text \<open>
  The events that run one of the callbacks above. \<open>EvClosing\<close> is a socket that starts its
  closing handshake: only its \<open>readyState\<close> changes, the \<open>close\<close> event comes later.
\<close>

datatype ws_event =
    EvSubscribe bool subscription callback "callback option"
  | EvUnsubscribe string subscription callback "callback option"
  | EvOpen nat
  | EvError nat
  | EvClosing nat
  | EvClose nat
  | EvPoll nat
  | EvTimer close_timer
  | EvMessage string

fun ws_step :: "(string \<Rightarrow> json option) \<Rightarrow> string option \<Rightarrow> ws_world \<Rightarrow> ws_event \<Rightarrow> ws_world" where
  "ws_step parse uid w (EvSubscribe ok s m e) = subscribe uid ok s m e w"
| "ws_step parse uid w (EvUnsubscribe key s m e) = unsubscribe key s m e w"
| "ws_step parse uid w (EvOpen i) = socket_onopen uid i (set_ready i Open w)"
| "ws_step parse uid w (EvError i) = socket_onerror i (set_ready i Closed w)"
| "ws_step parse uid w (EvClosing i) = set_ready i Closing w"
| "ws_step parse uid w (EvClose i) = handleWebSocketClose (set_ready i Closed w)"
| "ws_step parse uid w (EvPoll n) = poll uid n w"
| "ws_step parse uid w (EvTimer t) = close_timeout uid t w"
| "ws_step parse uid w (EvMessage raw) = handleWebSocketMessage parse raw w"

text \<open>
  When the environment can offer an event. A socket opens only while it is connecting, a
  timer fires only while it is armed. An \<open>unsubscribe\<close> is a clean-up that some
  registration returned, or the one of the hook's error path, so its key is the
  subscription's. Nothing stops it from running when its listener is gone already: a
  clean-up may run twice, and two registrations may have shared one callback.
\<close>

fun ws_enabled :: "ws_world \<Rightarrow> ws_event \<Rightarrow> bool" where
  "ws_enabled w (EvSubscribe ok s m e) = True"
| "ws_enabled w (EvUnsubscribe key s m e) = (key = sub_key s)"
| "ws_enabled w (EvOpen i) = (i < length (sockets w) \<and> ready w i = Connecting)"
| "ws_enabled w (EvError i) = (i < length (sockets w) \<and> ready w i \<noteq> Closed)"
| "ws_enabled w (EvClosing i) = (i < length (sockets w) \<and> ready w i = Open)"
| "ws_enabled w (EvClose i) = (i < length (sockets w))"
| "ws_enabled w (EvPoll n) = (n < length (waiters w) \<and> w_on (waiters w ! n) = Polling)"
| "ws_enabled w (EvTimer t) = (t \<in> set (timers w))"
| "ws_enabled w (EvMessage raw) = True"

inductive ws_trans :: "(string \<Rightarrow> json option) \<Rightarrow> string option \<Rightarrow> ws_world \<Rightarrow> ws_world \<Rightarrow> bool"
  for parse uid where
  ws_transI: "ws_enabled w e \<Longrightarrow> ws_trans parse uid w (ws_step parse uid w e)"

inductive_cases ws_transE: "ws_trans parse uid w w'"
inductive_simps ws_trans_iff: "ws_trans parse uid w w'"

section \<open>Invariants\<close>

text \<open>
  Registrations: a key with listeners is an active subscription stored under its own key;
  each key has at most one armed timer, the one \<open>pendingUnsubscribes\<close> names.
\<close>

definition reg_inv :: "ws_world \<Rightarrow> bool" where
  [inv_defs]: "reg_inv w \<longleftrightarrow>
     (\<forall>k cs. dict_get (listeners w) k = Some cs \<longrightarrow> cs \<noteq> [] \<and> distinct cs \<and> dict_has (activeSubscriptions w) k) \<and>
     (\<forall>k s. dict_get (activeSubscriptions w) k = Some s \<longrightarrow> sub_key s = k)"

definition timer_inv :: "ws_world \<Rightarrow> bool" where
  [inv_defs]: "timer_inv w \<longleftrightarrow>
     distinct (map t_id (timers w)) \<and>
     (\<forall>t \<in> set (timers w). t_id t < next_timer w \<and> t_key t = sub_key (t_sub t) \<and>
        dict_get (pendingUnsubscribes w) (t_key t) = Some (t_id t)) \<and>
     (\<forall>k i. dict_get (pendingUnsubscribes w) k = Some i \<longrightarrow> (\<exists>t \<in> set (timers w). t_key t = k \<and> t_id t = i))"

text \<open>Sockets: the manager's socket has been open, and while \<open>connecting\<close> is set some
  socket really is connecting, so a polling caller waits for something.\<close>

definition socket_inv :: "ws_world \<Rightarrow> bool" where
  [inv_defs]: "socket_inv w \<longleftrightarrow>
     (\<forall>i. socketMultiplexer w = Some i \<longrightarrow> i < length (sockets w) \<and> ready w i \<noteq> Connecting) \<and>
     (connecting w \<longrightarrow> (\<exists>i < length (sockets w). ready w i = Connecting))"

definition ws_inv :: "ws_world \<Rightarrow> bool" where
  [inv_defs]: "ws_inv w \<longleftrightarrow> reg_inv w \<and> timer_inv w \<and> socket_inv w"

subsection \<open>Frames\<close>

text \<open>What the invariants read. Sending, calling back and settling promises changes none
  of it.\<close>

definition reg_view where
  "reg_view w = (listeners w, activeSubscriptions w, pendingUnsubscribes w, timers w, next_timer w)"

definition socket_view where
  "socket_view w = (socketMultiplexer w, connecting w, sockets w)"

lemma reg_view_cong:
  "reg_view w' = reg_view w \<Longrightarrow> reg_inv w' = reg_inv w"
  "reg_view w' = reg_view w \<Longrightarrow> timer_inv w' = timer_inv w"
  by (simp_all add: reg_view_def reg_inv_def timer_inv_def)

lemma socket_view_cong: "socket_view w' = socket_view w \<Longrightarrow> socket_inv w' = socket_inv w"
  by (simp add: socket_view_def socket_inv_def ready_def)

lemma ws_inv_cong:
  "reg_view w' = reg_view w \<Longrightarrow> socket_view w' = socket_view w \<Longrightarrow> ws_inv w' = ws_inv w"
  using reg_view_cong [of w' w] socket_view_cong [of w' w] by (simp add: ws_inv_def)

lemma waiters_view [simp]:
  "reg_view (w\<lparr>waiters := xs\<rparr>) = reg_view w" "socket_view (w\<lparr>waiters := xs\<rparr>) = socket_view w"
  by (simp_all add: reg_view_def socket_view_def)

lemma isReconnecting_view [simp]:
  "reg_view (w\<lparr>isReconnecting := b\<rparr>) = reg_view w"
  "socket_view (w\<lparr>isReconnecting := b\<rparr>) = socket_view w"
  by (simp_all add: reg_view_def socket_view_def)

lemma timer_inv_cong:
  "timers w' = timers w \<Longrightarrow> next_timer w' = next_timer w \<Longrightarrow>
   pendingUnsubscribes w' = pendingUnsubscribes w \<Longrightarrow> timer_inv w' = timer_inv w"
  by (simp add: timer_inv_def)

lemma fold_view: "(\<And>x w. v (f x w) = v w) \<Longrightarrow> v (fold f xs w) = v w"
  by (induction xs arbitrary: w) auto

lemma ws_send_frame [simp]:
  "reg_view (ws_send i m w) = reg_view w" "socket_view (ws_send i m w) = socket_view w"
  "waiters (ws_send i m w) = waiters w" "sockets (ws_send i m w) = sockets w"
  "settled (ws_send i m w) = settled w" "activeSubscriptions (ws_send i m w) = activeSubscriptions w"
  "listeners (ws_send i m w) = listeners w" "isReconnecting (ws_send i m w) = isReconnecting w"
  "pendingUnsubscribes (ws_send i m w) = pendingUnsubscribes w" "timers (ws_send i m w) = timers w"
  "next_timer (ws_send i m w) = next_timer w" "ready (ws_send i m w) = ready w"
  "completedPaths (ws_send i m w) = completedPaths w"
  "socketMultiplexer (ws_send i m w) = socketMultiplexer w" "connecting (ws_send i m w) = connecting w"
  by (simp_all add: ws_send_def reg_view_def socket_view_def ready_def fun_eq_iff)

lemma settle_frame [simp]:
  "reg_view (subscribe_resolved uid i s cb w) = reg_view w"
  "socket_view (subscribe_resolved uid i s cb w) = socket_view w"
  "reg_view (subscribe_rejected s cb w) = reg_view w"
  "socket_view (subscribe_rejected s cb w) = socket_view w"
  by (simp_all add: subscribe_resolved_def subscribe_rejected_def reg_view_def socket_view_def Let_def)

lemma resolve_own_frame [simp]:
  "reg_view (resolve_own uid i w) = reg_view w" "socket_view (resolve_own uid i w) = socket_view w"
  "reg_view (reject_own i w) = reg_view w" "socket_view (reject_own i w) = socket_view w"
  unfolding resolve_own_def reject_own_def
  by (simp_all add: fold_view [where v = reg_view] fold_view [where v = socket_view])

lemma resubscribeAll_frame [simp]:
  "reg_view (resubscribeAll uid i w) = reg_view w" "socket_view (resubscribeAll uid i w) = socket_view w"
  unfolding resubscribeAll_def
  by (simp_all add: fold_view [where v = reg_view] fold_view [where v = socket_view])

lemma set_ready_frame [simp]:
  "reg_view (set_ready i r w) = reg_view w" "length (sockets (set_ready i r w)) = length (sockets w)"
  "socketMultiplexer (set_ready i r w) = socketMultiplexer w"
  "connecting (set_ready i r w) = connecting w"
  by (simp_all add: set_ready_def reg_view_def)

lemma ready_set_ready: "i < length (sockets w) \<Longrightarrow> ready (set_ready i r w) j = (if j = i then r else ready w j)"
  by (simp add: ready_def set_ready_def)

lemma connect_frame:
  "connect ok w = (r, w') \<Longrightarrow> reg_view w' = reg_view w \<and> waiters w' = waiters w"
  by (auto simp: connect_def Let_def reg_view_def split: if_splits)

lemma connect_socket_inv: "socket_inv w \<Longrightarrow> connect ok w = (r, w') \<Longrightarrow> socket_inv w'"
  by (auto simp: connect_def Let_def socket_inv_def ready_def nth_append split: if_splits)

subsection \<open>Registration\<close>

lemma register_view:
  "socket_view (register s m e w) = socket_view w"
  "timers (register s m e w) = timers w" "next_timer (register s m e w) = next_timer w"
  "pendingUnsubscribes (register s m e w) = pendingUnsubscribes w"
  "activeSubscriptions (register s m e w) = dict_set (sub_key s) s (activeSubscriptions w)"
  "listeners (register s m e w) =
     dict_set (sub_key s) (set_add m (listeners_of (listeners w) (sub_key s))) (listeners w)"
  by (simp_all add: register_def Let_def socket_view_def split: option.split)

lemma distinct_listeners_of: "reg_inv w \<Longrightarrow> distinct (listeners_of (listeners w) k)"
  by (auto simp: reg_inv_def listeners_of_def split: option.split)

lemma register_reg_inv: "reg_inv w \<Longrightarrow> reg_inv (register s m e w)"
  using distinct_listeners_of [of w "sub_key s"]
  unfolding reg_inv_def register_view by (auto split: if_splits)

lemma register_timer_inv: "timer_inv w \<Longrightarrow> timer_inv (register s m e w)"
  unfolding timer_inv_def register_view .

lemma subscribe_inv: "ws_inv w \<Longrightarrow> ws_inv (subscribe uid ok s m e w)"
proof -
  assume inv: "ws_inv w"
  let ?w = "register s m e w"
  obtain r w' where c: "connect ok ?w = (r, w')" by fastforce
  have "ws_inv ?w"
    using inv socket_view_cong [OF register_view(1), of s m e w]
    by (simp add: ws_inv_def register_reg_inv register_timer_inv)
  then have inv': "ws_inv w'"
    using connect_frame [OF c] connect_socket_inv [OF _ c] reg_view_cong [of w' ?w]
    by (simp add: ws_inv_def)
  have "reg_view (subscribe uid ok s m e w) = reg_view w'"
    "socket_view (subscribe uid ok s m e w) = socket_view w'"
    using c by (cases r; simp add: subscribe_def)+
  from ws_inv_cong [OF this] inv' show ?thesis by (rule iffD2)
qed

subsection \<open>The other operations\<close>

lemma timer_key_unique:
  "timer_inv w \<Longrightarrow> t \<in> set (timers w) \<Longrightarrow> u \<in> set (timers w) \<Longrightarrow> t_key t = t_key u \<Longrightarrow> t = u"
  unfolding timer_inv_def by (metis distinct_map inj_onD option.inject)

lemma timer_id_unique:
  "timer_inv w \<Longrightarrow> t \<in> set (timers w) \<Longrightarrow> u \<in> set (timers w) \<Longrightarrow> t_id t = t_id u \<Longrightarrow> t = u"
  unfolding timer_inv_def by (metis distinct_map inj_onD)

text \<open>Disarming the timer of a key, together with its entry, keeps the timers coherent.\<close>

lemma disarm_timer_inv:
  assumes inv: "timer_inv w" and t: "t \<in> set (timers w)"
    and w': "timers w' = filter (\<lambda>c. t_id c \<noteq> t_id t) (timers w)"
      "next_timer w' = next_timer w"
      "pendingUnsubscribes w' = dict_delete (t_key t) (pendingUnsubscribes w)"
  shows "timer_inv w'"
proof -
  have other: "t_key u \<noteq> t_key t" if "u \<in> set (timers w)" "t_id u \<noteq> t_id t" for u
    using timer_key_unique [OF inv _ t] that by blast
  show ?thesis
    using inv other timer_id_unique [OF inv _ t] unfolding timer_inv_def w'
    by (auto simp: distinct_map_filter) metis
qed

lemma clear_pending_inv: "timer_inv w \<Longrightarrow> timer_inv (clear_pending key w)"
proof (cases "dict_get (pendingUnsubscribes w) key")
  case None
  assume "timer_inv w"
  with None show ?thesis by (simp add: clear_pending_def)
next
  case (Some i)
  assume inv: "timer_inv w"
  with Some obtain t where t: "t \<in> set (timers w)" "t_key t = key" "t_id t = i"
    unfolding timer_inv_def by blast
  show ?thesis
    by (rule disarm_timer_inv [OF inv t(1)]) (use Some t in \<open>simp_all add: clear_pending_def\<close>)
qed

lemma clear_pending_simps [simp]:
  "listeners (clear_pending key w) = listeners w"
  "activeSubscriptions (clear_pending key w) = activeSubscriptions w"
  "errorListeners (clear_pending key w) = errorListeners w"
  "socket_view (clear_pending key w) = socket_view w"
  "next_timer (clear_pending key w) = next_timer w"
  "dict_get (pendingUnsubscribes (clear_pending key w)) k =
     (if k = key then None else dict_get (pendingUnsubscribes w) k)"
  by (simp_all add: clear_pending_def socket_view_def split: option.split)

lemma arm_close_inv:
  assumes "timer_inv w" and "key = sub_key s" and "dict_get (pendingUnsubscribes w) key = None"
  shows "timer_inv (arm_close key s w)"
proof -
  have "t_id t < next_timer w" if "t \<in> set (timers w)" for t
    using assms(1) that by (auto simp: timer_inv_def)
  then have "next_timer w \<notin> t_id ` set (timers w)" by fastforce
  with assms show ?thesis
    by (auto simp: timer_inv_def arm_close_def split: if_splits)
qed

lemma drop_error_listener_frame [simp]:
  "reg_view (drop_error_listener key e w) = reg_view w"
  "socket_view (drop_error_listener key e w) = socket_view w"
  by (simp_all add: drop_error_listener_def reg_view_def socket_view_def split: option.split)

lemma drop_listener_cases:
  "drop_listener key s m w = w \<and> dict_get (listeners w) key = None \<or>
   (\<exists>cs. dict_get (listeners w) key = Some cs \<and> set_remove m cs = [] \<and>
      drop_listener key s m w = arm_close key s (w\<lparr>listeners := dict_delete key (listeners w)\<rparr>)) \<or>
   (\<exists>cs. dict_get (listeners w) key = Some cs \<and> set_remove m cs \<noteq> [] \<and>
      drop_listener key s m w = w\<lparr>listeners := dict_set key (set_remove m cs) (listeners w)\<rparr>)"
  by (simp add: drop_listener_def split: option.split)

lemma drop_listener_timer_inv:
  assumes "timer_inv w" and "key = sub_key s" and "dict_get (pendingUnsubscribes w) key = None"
  shows "timer_inv (drop_listener key s m w)"
proof -
  let ?l = "w\<lparr>listeners := dict_delete key (listeners w)\<rparr>"
  have "timer_inv ?l" using assms(1) timer_inv_cong [of ?l w] by simp
  then have "timer_inv (arm_close key s ?l)"
    by (rule arm_close_inv) (use assms in simp_all)
  then show ?thesis
    using drop_listener_cases [of key s m w] assms(1)
      timer_inv_cong [of "drop_listener key s m w" w] by auto
qed

lemma drop_listener_reg_inv: "reg_inv w \<Longrightarrow> reg_inv (drop_listener key s m w)"
  unfolding reg_inv_def
  by (auto simp: drop_listener_def arm_close_def dict_has_def split: if_splits option.splits)

lemma drop_listener_socket_view: "socket_view (drop_listener key s m w) = socket_view w"
  by (simp add: drop_listener_def arm_close_def socket_view_def split: option.split)

lemma unsubscribe_inv:
  assumes inv: "ws_inv w" and key: "key = sub_key s"
  shows "ws_inv (unsubscribe key s m e w)"
proof -
  let ?c = "clear_pending key w" and ?d = "drop_listener key s m (clear_pending key w)"
  have "timer_inv ?d"
    using inv key by (intro drop_listener_timer_inv) (simp_all add: ws_inv_def clear_pending_inv)
  moreover have "reg_inv ?c" using inv by (simp add: ws_inv_def reg_inv_def)
  then have "reg_inv ?d" by (rule drop_listener_reg_inv)
  moreover have "socket_inv ?d"
    using inv socket_view_cong [of ?d w] by (simp add: ws_inv_def drop_listener_socket_view)
  ultimately have "ws_inv ?d" by (simp add: ws_inv_def)
  then show ?thesis
    unfolding unsubscribe_def
    by (rule iffD2 [OF ws_inv_cong [OF drop_error_listener_frame]])
qed

lemma close_timeout_inv:
  assumes inv: "ws_inv w" and t: "t \<in> set (timers w)"
  shows "ws_inv (close_timeout uid t w)"
proof -
  let ?w' = "close_timeout uid t w"
  have f: "timers ?w' = filter (\<lambda>c. t_id c \<noteq> t_id t) (timers w)"
    "next_timer ?w' = next_timer w"
    "pendingUnsubscribes ?w' = dict_delete (t_key t) (pendingUnsubscribes w)"
    "listeners ?w' = listeners w" "socket_view ?w' = socket_view w"
    "activeSubscriptions ?w' = (if dict_has (listeners w) (t_key t) then activeSubscriptions w
       else dict_delete (t_key t) (activeSubscriptions w))"
    by (simp_all add: close_timeout_def Let_def socket_view_def)
  have "timer_inv ?w'"
    by (rule disarm_timer_inv [OF _ t]) (use inv f in \<open>simp_all add: ws_inv_def\<close>)
  moreover have "reg_inv ?w'"
    using inv unfolding ws_inv_def reg_inv_def f by (auto simp: dict_has_def split: if_splits)
  moreover have "socket_inv ?w'"
    using inv socket_view_cong [OF f(5)] by (simp add: ws_inv_def)
  ultimately show ?thesis by (simp add: ws_inv_def)
qed

lemma socket_onopen_inv:
  assumes inv: "ws_inv w" and i: "i < length (sockets w)"
  shows "ws_inv (socket_onopen uid i (set_ready i Open w))"
proof -
  let ?w1 = "(set_ready i Open w)\<lparr>socketMultiplexer := Some i, connecting := False\<rparr>"
  have "reg_view (socket_onopen uid i (set_ready i Open w)) = reg_view ?w1"
    "socket_view (socket_onopen uid i (set_ready i Open w)) = socket_view ?w1"
    by (simp_all add: socket_onopen_def Let_def)
  moreover have "reg_view ?w1 = reg_view w" by (simp add: reg_view_def set_ready_def)
  moreover have "socket_inv ?w1"
    using i by (simp add: socket_inv_def ready_def set_ready_def)
  ultimately show ?thesis
    using inv reg_view_cong [of "socket_onopen uid i (set_ready i Open w)" w]
      socket_view_cong [of "socket_onopen uid i (set_ready i Open w)" ?w1]
    by (simp add: ws_inv_def)
qed

lemma quiet_inv:
  assumes "ws_inv w" and "reg_view w' = reg_view w" and "socket_inv w'"
  shows "ws_inv w'"
  using assms reg_view_cong [of w' w] by (simp add: ws_inv_def)

lemma socket_onerror_inv:
  assumes inv: "ws_inv w" and i: "i < length (sockets w)"
  shows "ws_inv (socket_onerror i (set_ready i Closed w))"
proof (rule quiet_inv [OF inv])
  let ?w1 = "(set_ready i Closed w)\<lparr>connecting := False\<rparr>"
  show "reg_view (socket_onerror i (set_ready i Closed w)) = reg_view w"
    by (simp add: socket_onerror_def) (simp add: reg_view_def set_ready_def)
  have "socket_inv ?w1"
    using inv i unfolding ws_inv_def socket_inv_def
    by (auto simp: set_ready_def ready_def nth_list_update)
  then show "socket_inv (socket_onerror i (set_ready i Closed w))"
    using socket_view_cong [of "socket_onerror i (set_ready i Closed w)" ?w1]
    by (simp add: socket_onerror_def)
qed

lemma close_inv:
  assumes inv: "ws_inv w"
  shows "ws_inv (handleWebSocketClose (set_ready i Closed w))"
  by (rule quiet_inv [OF inv])
     (simp_all add: handleWebSocketClose_def set_ready_def reg_view_def socket_inv_def)

lemma closing_inv:
  assumes inv: "ws_inv w" and i: "ready w i = Open" "i < length (sockets w)"
  shows "ws_inv (set_ready i Closing w)"
proof (rule quiet_inv [OF inv])
  have "ready w j \<noteq> Connecting \<Longrightarrow> ready (set_ready i Closing w) j \<noteq> Connecting" for j
    using i by (simp add: ready_set_ready)
  moreover have "j \<noteq> i" if "ready w j = Connecting" for j
    using i that by auto
  ultimately show "socket_inv (set_ready i Closing w)"
    using inv i unfolding ws_inv_def socket_inv_def by (auto simp: ready_set_ready)
qed simp

lemma poll_inv: "ws_inv w \<Longrightarrow> ws_inv (poll uid n w)"
  by (rule iffD2 [OF ws_inv_cong [of _ w]]) (simp_all add: poll_def Let_def)

lemma message_frame:
  "reg_view (handleWebSocketMessage parse raw w) = reg_view w"
  "socket_view (handleWebSocketMessage parse raw w) = socket_view w"
  by (simp_all add: handleWebSocketMessage_def handle_error_def handle_update_def call_all_def
      reg_view_def socket_view_def Let_def split: option.split json.split)

lemma ws_step_inv: "ws_inv w \<Longrightarrow> ws_enabled w e \<Longrightarrow> ws_inv (ws_step parse uid w e)"
proof (cases e)
  case (EvMessage raw)
  assume "ws_inv w"
  then show ?thesis
    unfolding EvMessage ws_step.simps by (rule iffD2 [OF ws_inv_cong [OF message_frame]])
qed (auto intro: subscribe_inv unsubscribe_inv socket_onopen_inv socket_onerror_inv closing_inv
      close_inv poll_inv close_timeout_inv)

lemma initial_inv: "ws_inv initial_world"
  by (simp add: ws_inv_def reg_inv_def timer_inv_def socket_inv_def initial_world_def)

interpretation mux: machine "\<lambda>w. w = initial_world" "ws_trans parse uid" ws_inv
  by unfold_locales (auto simp: initial_inv elim!: ws_transE intro: ws_step_inv)

text \<open>A run of offered events, for concrete executions.\<close>

fun ws_run :: "(string \<Rightarrow> json option) \<Rightarrow> string option \<Rightarrow> ws_world \<Rightarrow> ws_event list \<Rightarrow> ws_world option" where
  "ws_run parse uid w [] = Some w"
| "ws_run parse uid w (e # es) =
     (if ws_enabled w e then ws_run parse uid (ws_step parse uid w e) es else None)"

lemma ws_run_reachable: "ws_run parse uid w es = Some w' \<Longrightarrow> (ws_trans parse uid)\<^sup>*\<^sup>* w w'"
proof (induction es arbitrary: w)
  case Nil
  then show ?case by simp
next
  case (Cons e es)
  then have "ws_trans parse uid w (ws_step parse uid w e)"
    and "(ws_trans parse uid)\<^sup>*\<^sup>* (ws_step parse uid w e) w'"
    by (auto intro: ws_transI split: if_splits)
  then show ?case by (rule converse_rtranclp_into_rtranclp)
qed

section \<open>Properties\<close>

lemma ws_run_append:
  "ws_run parse uid w (es @ fs) =
     (case ws_run parse uid w es of None \<Rightarrow> None | Some v \<Rightarrow> ws_run parse uid v fs)"
  by (induction es arbitrary: w) simp_all

lemma ws_run_snoc:
  assumes "ws_run parse uid w (es @ [e]) = Some w'"
  obtains v where "ws_run parse uid w es = Some v" and "ws_enabled v e" and "w' = ws_step parse uid v e"
  using assms that by (auto simp: ws_run_append split: option.splits if_splits)

lemma ws_run_inv: "ws_run parse uid initial_world es = Some w \<Longrightarrow> ws_inv w"
  by (rule mux.reachable_inv [OF refl ws_run_reachable])

text \<open>What a state says of one key: whether anybody listens, whether its subscription is
  active, and whether a close timer is pending for it.\<close>

definition key_view :: "string \<Rightarrow> ws_world \<Rightarrow> bool \<times> bool \<times> bool" where
  "key_view k w = (dict_has (listeners w) k, dict_has (activeSubscriptions w) k,
                   dict_has (pendingUnsubscribes w) k)"

lemma key_view_cong: "reg_view v = reg_view w \<Longrightarrow> key_view k v = key_view k w"
  by (simp add: key_view_def reg_view_def)

text \<open>The events that act on a key: those of its subscribers and its timers.\<close>

fun acts_on :: "string \<Rightarrow> ws_event \<Rightarrow> bool" where
  "acts_on k (EvSubscribe ok s m e) = (sub_key s = k)"
| "acts_on k (EvUnsubscribe key s m e) = (key = k)"
| "acts_on k (EvTimer t) = (t_key t = k)"
| "acts_on k _ = False"

lemma subscribe_regs:
  "listeners (subscribe uid ok s m e w) = listeners (register s m e w)"
  "activeSubscriptions (subscribe uid ok s m e w) = dict_set (sub_key s) s (activeSubscriptions w)"
  "pendingUnsubscribes (subscribe uid ok s m e w) = pendingUnsubscribes w"
proof -
  obtain r w' where c: "connect ok (register s m e w) = (r, w')" by fastforce
  have "reg_view (subscribe uid ok s m e w) = reg_view w'"
    using c by (cases r) (simp_all add: subscribe_def)
  with connect_frame [OF c] show
    "listeners (subscribe uid ok s m e w) = listeners (register s m e w)"
    "activeSubscriptions (subscribe uid ok s m e w) = dict_set (sub_key s) s (activeSubscriptions w)"
    "pendingUnsubscribes (subscribe uid ok s m e w) = pendingUnsubscribes w"
    by (simp_all add: reg_view_def register_view)
qed

lemma unsubscribe_key_view:
  "key_view k (unsubscribe key s m e w) = key_view k (drop_listener key s m (clear_pending key w))"
  unfolding unsubscribe_def by (rule key_view_cong) simp

lemma runtime_event_reg_view:
  "reg_view (socket_onopen uid i (set_ready i Open w)) = reg_view w"
  "reg_view (socket_onerror i (set_ready i Closed w)) = reg_view w"
  "reg_view (handleWebSocketClose (set_ready i Closed w)) = reg_view w"
  "reg_view (poll uid n w) = reg_view w"
proof -
  show "reg_view (socket_onopen uid i (set_ready i Open w)) = reg_view w"
    by (simp add: socket_onopen_def Let_def) (simp add: reg_view_def set_ready_def)
  show "reg_view (socket_onerror i (set_ready i Closed w)) = reg_view w"
    by (simp add: socket_onerror_def) (simp add: reg_view_def set_ready_def)
  show "reg_view (handleWebSocketClose (set_ready i Closed w)) = reg_view w"
    by (simp add: handleWebSocketClose_def reg_view_def set_ready_def)
  show "reg_view (poll uid n w) = reg_view w" by (simp add: poll_def Let_def)
qed

lemma other_event_key_view:
  assumes "\<not> acts_on k e"
  shows "key_view k (ws_step parse uid w e) = key_view k w"
proof (cases e)
  case (EvSubscribe ok s m er)
  with assms show ?thesis
    by (simp add: key_view_def subscribe_regs register_view dict_has_def)
next
  case (EvUnsubscribe key s m er)
  with assms show ?thesis
    unfolding EvUnsubscribe ws_step.simps unsubscribe_key_view
    by (auto simp: key_view_def drop_listener_def arm_close_def dict_has_def split: option.split)
next
  case (EvTimer t)
  with assms show ?thesis
    by (auto simp: key_view_def close_timeout_def Let_def dict_has_def)
qed (simp_all only: ws_step.simps runtime_event_reg_view message_frame set_ready_frame
    key_view_cong [OF runtime_event_reg_view(1)] key_view_cong [OF runtime_event_reg_view(2)]
    key_view_cong [OF runtime_event_reg_view(3)] key_view_cong [OF runtime_event_reg_view(4)]
    key_view_cong [OF message_frame(1)] key_view_cong [OF set_ready_frame(1)])

text \<open>The ways a key can become an active subscription that neither a listener nor a
  timer holds: it was one before and nothing acted on it, or a clean-up ran for it.\<close>

lemma unheld_before:
  assumes "key_view k (ws_step parse uid w e) = (False, True, False)"
  shows "(key_view k w = (False, True, False) \<and> \<not> acts_on k e) \<or>
         (\<exists>s m er. e = EvUnsubscribe k s m er \<and> \<not> dict_has (listeners w) k \<and>
            dict_has (activeSubscriptions w) k)"
proof (cases "acts_on k e")
  case False
  with assms other_event_key_view [OF False, of parse uid w] show ?thesis by simp
next
  case True
  with assms show ?thesis
  proof (cases e)
    case (EvSubscribe ok s m er)
    with True assms show ?thesis
      by (simp add: key_view_def subscribe_regs register_view dict_has_def)
  next
    case (EvUnsubscribe key s m er)
    with True assms have "key_view k (drop_listener k s m (clear_pending k w)) = (False, True, False)"
      by (simp add: unsubscribe_key_view)
    then have "\<not> dict_has (listeners w) k \<and> dict_has (activeSubscriptions w) k"
      by (auto simp: key_view_def drop_listener_def arm_close_def dict_has_def
          split: option.splits if_splits)
    with EvUnsubscribe True show ?thesis by simp
  next
    case (EvTimer t)
    with True assms show ?thesis
      by (auto simp: key_view_def close_timeout_def Let_def dict_has_def split: if_splits)
  qed simp_all
qed

text \<open>The last clean-up of a key ran when nobody listened any more, and nothing acted on
  the key since.\<close>

definition cleaned_up_again ::
  "(string \<Rightarrow> json option) \<Rightarrow> string option \<Rightarrow> string \<Rightarrow> ws_event list \<Rightarrow> bool" where
  "cleaned_up_again parse uid k es \<longleftrightarrow>
     (\<exists>before s m e after v. es = before @ EvUnsubscribe k s m e # after \<and>
        ws_run parse uid initial_world before = Some v \<and>
        \<not> dict_has (listeners v) k \<and> dict_has (activeSubscriptions v) k \<and>
        (\<forall>x \<in> set after. \<not> acts_on k x))"

lemma unheld_subscription_was_cleaned_up_again:
  assumes "ws_run parse uid initial_world es = Some w" and "key_view k w = (False, True, False)"
  shows "cleaned_up_again parse uid k es"
  using assms
proof (induction es arbitrary: w rule: rev_induct)
  case Nil
  then have "w = initial_world" by simp
  with Nil show ?case by (simp add: key_view_def initial_world_def dict_has_def)
next
  case (snoc e es)
  from snoc.prems(1) obtain v where run: "ws_run parse uid initial_world es = Some v"
    and w: "w = ws_step parse uid v e" by (rule ws_run_snoc)
  from unheld_before [of k parse uid v e] snoc.prems(2)
  consider "key_view k v = (False, True, False)" "\<not> acts_on k e"
    | s m er where "e = EvUnsubscribe k s m er" "\<not> dict_has (listeners v) k"
        "dict_has (activeSubscriptions v) k"
    unfolding w by blast
  then show ?case
  proof cases
    case 1
    from snoc.IH [OF run 1(1)] obtain before s m er after u where
      "es = before @ EvUnsubscribe k s m er # after" "ws_run parse uid initial_world before = Some u"
      "\<not> dict_has (listeners u) k" "dict_has (activeSubscriptions u) k" "\<forall>x \<in> set after. \<not> acts_on k x"
      unfolding cleaned_up_again_def by blast
    with 1(2) have "es @ [e] = before @ EvUnsubscribe k s m er # (after @ [e]) \<and>
      ws_run parse uid initial_world before = Some u \<and> \<not> dict_has (listeners u) k \<and>
      dict_has (activeSubscriptions u) k \<and> (\<forall>x \<in> set (after @ [e]). \<not> acts_on k x)" by simp
    then show ?thesis unfolding cleaned_up_again_def by blast
  next
    case 2
    with run have "es @ [e] = es @ EvUnsubscribe k s m er # [] \<and>
      ws_run parse uid initial_world es = Some v \<and> \<not> dict_has (listeners v) k \<and>
      dict_has (activeSubscriptions v) k \<and> (\<forall>x \<in> set []. \<not> acts_on k x)" by simp
    then show ?thesis unfolding cleaned_up_again_def by blast
  qed
qed

text \<open>The clean-up of a key without listeners disarms its timer and arms none; after that
  nothing but a subscriber or a clean-up of the same key acts on it.\<close>

lemma second_cleanup_unheld:
  assumes "\<not> dict_has (listeners w) k" and "dict_has (activeSubscriptions w) k"
  shows "key_view k (ws_step parse uid w (EvUnsubscribe k s m e)) = (False, True, False)"
  using assms by (simp add: unsubscribe_key_view)
    (simp add: key_view_def drop_listener_def dict_has_def split: option.split)

lemma unheld_stays:
  assumes "key_view k w = (False, True, False)" and "\<forall>x \<in> set es. \<not> acts_on k x"
    and "ws_run parse uid w es = Some w'"
  shows "key_view k w' = (False, True, False)"
  using assms
proof (induction es arbitrary: w)
  case (Cons e es)
  then show ?case
    using other_event_key_view [of k e parse uid w] by (auto split: if_splits)
qed simp

lemma no_pending_no_timer:
  assumes "timer_inv w" and "\<not> dict_has (pendingUnsubscribes w) k" and "t \<in> set (timers w)"
  shows "t_key t \<noteq> k"
  using assms unfolding timer_inv_def dict_has_def by auto

lemma pending_one_timer:
  assumes inv: "timer_inv w" and "dict_has (pendingUnsubscribes w) k"
  shows "\<exists>!t. t \<in> set (timers w) \<and> t_key t = k"
proof -
  from assms obtain t where "t \<in> set (timers w)" "t_key t = k"
    unfolding timer_inv_def dict_has_def by blast
  with inv timer_key_unique show ?thesis by blast
qed

text \<open>C1: after every run of the manager, a key that has listeners has a non-empty,
  duplicate-free set of them and is an active subscription; an active subscription that
  nobody listens to has exactly one close timer armed, or it has none and the last thing
  that happened to it was a clean-up that ran although nobody listened any more; and
  while \<open>connecting\<close> is set some socket really is connecting.\<close>

theorem reachable_subscriptions_accounted:
  assumes "ws_run parse uid initial_world es = Some w"
  shows "(\<forall>k cs. dict_get (listeners w) k = Some cs \<longrightarrow>
            cs \<noteq> [] \<and> distinct cs \<and> dict_has (activeSubscriptions w) k) \<and>
         (\<forall>k. dict_has (activeSubscriptions w) k \<longrightarrow> \<not> dict_has (listeners w) k \<longrightarrow>
            (\<exists>!t. t \<in> set (timers w) \<and> t_key t = k) \<or>
            ((\<forall>t \<in> set (timers w). t_key t \<noteq> k) \<and> cleaned_up_again parse uid k es)) \<and>
         (connecting w \<longrightarrow> (\<exists>i < length (sockets w). ready w i = Connecting))"
proof -
  from assms have inv: "ws_inv w" by (rule ws_run_inv)
  have "(\<exists>!t. t \<in> set (timers w) \<and> t_key t = k) \<or>
      ((\<forall>t \<in> set (timers w). t_key t \<noteq> k) \<and> cleaned_up_again parse uid k es)"
    if "dict_has (activeSubscriptions w) k" "\<not> dict_has (listeners w) k" for k
  proof (cases "dict_has (pendingUnsubscribes w) k")
    case True
    with inv show ?thesis by (simp add: ws_inv_def pending_one_timer)
  next
    case False
    with that have "key_view k w = (False, True, False)" by (simp add: key_view_def)
    with assms have "cleaned_up_again parse uid k es"
      by (rule unheld_subscription_was_cleaned_up_again)
    with False inv no_pending_no_timer show ?thesis by (auto simp: ws_inv_def)
  qed
  with inv show ?thesis by (simp add: ws_inv_def reg_inv_def socket_inv_def)
qed

definition pods_sub :: subscription where
  "pods_sub = \<lparr>clusterId = ''prod'', path = ''/api/v1/pods'', query = ''watch=1''\<rparr>"

text \<open>A subscriber came, the socket opened, the subscriber left: the timer is armed.\<close>

definition sample_events :: "ws_event list" where
  "sample_events =
     [EvSubscribe True pods_sub 7 None, EvOpen 0, EvUnsubscribe (sub_key pods_sub) pods_sub 7 None]"

definition sample_world :: ws_world where
  "sample_world =
  \<lparr>socketMultiplexer = Some 0, connecting = False, isReconnecting = False, listeners = [],
   errorListeners = [], completedPaths = [],
   activeSubscriptions = [(''prod:/api/v1/pods:watch=1'', pods_sub)],
   pendingUnsubscribes = [(''prod:/api/v1/pods:watch=1'', 1)], sockets = [Open],
   timers = [\<lparr>t_id = 1, t_key = ''prod:/api/v1/pods:watch=1'', t_sub = pods_sub\<rparr>],
   next_timer = 2, waiters = [],
   sent = [(0, make_msg None REQUEST pods_sub)], calls = [], errorCalls = [],
   settled = [(''prod:/api/v1/pods:watch=1'', 7, True)]\<rparr>"

theorem reachable_subscriptions_accounted_witness:
  "dict_has (activeSubscriptions sample_world) (sub_key pods_sub) \<and>
   (\<exists>!t. t \<in> set (timers sample_world) \<and> t_key t = sub_key pods_sub)"
proof -
  have run: "ws_run (\<lambda>_. None) None initial_world sample_events = Some sample_world"
    and act: "dict_has (activeSubscriptions sample_world) (sub_key pods_sub)"
    and lst: "\<not> dict_has (listeners sample_world) (sub_key pods_sub)"
    by code_simp+
  have tm: "\<not> (\<forall>t \<in> set (timers sample_world). t_key t \<noteq> sub_key pods_sub)"
    by code_simp
  from reachable_subscriptions_accounted [OF run] act lst tm
  have "\<exists>!t. t \<in> set (timers sample_world) \<and> t_key t = sub_key pods_sub" by blast
  with act show ?thesis by (rule conjI)
qed

text \<open>A clean-up that runs again before the close timer has fired disarms it and arms no
  other: the subscription stays active, without listener and timer, through everything
  that happens until somebody subscribes to the same key or cleans it up once more. No
  CLOSE is sent for it.\<close>

theorem second_cleanup_leaks_the_subscription:
  assumes "ws_run parse uid initial_world es = Some w"
    and "dict_has (activeSubscriptions w) (sub_key s)"
    and "\<not> dict_has (listeners w) (sub_key s)"
    and "ws_run parse uid w (EvUnsubscribe (sub_key s) s m e # later) = Some w'"
    and "\<forall>x \<in> set later. \<not> acts_on (sub_key s) x"
  shows "dict_has (activeSubscriptions w') (sub_key s) \<and>
         \<not> dict_has (listeners w') (sub_key s) \<and> (\<forall>t \<in> set (timers w'). t_key t \<noteq> sub_key s)"
proof -
  have "key_view (sub_key s) w' = (False, True, False)"
    using assms(4) by (intro unheld_stays [OF second_cleanup_unheld [OF assms(3,2)] assms(5)])
      (simp split: if_splits)
  moreover have "ws_run parse uid initial_world (es @ EvUnsubscribe (sub_key s) s m e # later) = Some w'"
    using assms(1,4) by (simp add: ws_run_append)
  then have "timer_inv w'" using ws_run_inv by (auto simp: ws_inv_def)
  ultimately show ?thesis using no_pending_no_timer by (auto simp: key_view_def)
qed

theorem second_cleanup_leaks_the_subscription_witness:
  "let w' = the (ws_run (\<lambda>_. None) None sample_world
       [EvUnsubscribe (sub_key pods_sub) pods_sub 7 None, EvClosing 0, EvClose 0])
   in dict_has (activeSubscriptions w') (sub_key pods_sub) \<and>
      \<not> dict_has (listeners w') (sub_key pods_sub) \<and> (\<forall>t \<in> set (timers w'). t_key t \<noteq> sub_key pods_sub)"
proof -
  let ?es = "[EvClosing 0, EvClose 0]"
  have run: "ws_run (\<lambda>_. None) None initial_world sample_events = Some sample_world"
    and act: "dict_has (activeSubscriptions sample_world) (sub_key pods_sub)"
    and lst: "\<not> dict_has (listeners sample_world) (sub_key pods_sub)"
    by code_simp+
  have "ws_run (\<lambda>_. None) None sample_world (EvUnsubscribe (sub_key pods_sub) pods_sub 7 None # ?es) \<noteq> None"
    by code_simp
  then have "ws_run (\<lambda>_. None) None sample_world (EvUnsubscribe (sub_key pods_sub) pods_sub 7 None # ?es) =
      Some (the (ws_run (\<lambda>_. None) None sample_world (EvUnsubscribe (sub_key pods_sub) pods_sub 7 None # ?es)))"
    by simp
  from second_cleanup_leaks_the_subscription [OF run act lst this]
  show ?thesis unfolding Let_def by simp
qed

text \<open>C13: a subscriber that comes back before the close timer of its key fires keeps the
  subscription: when the timer fires it changes nothing but its own bookkeeping, in
  particular no CLOSE is sent.\<close>

theorem resubscribe_within_debounce:
  assumes "t_key t = sub_key s"
  shows "let w1 = subscribe uid ok s m e w; w2 = close_timeout uid t w1
         in dict_get (activeSubscriptions w2) (sub_key s) = Some s \<and>
            m \<in> set (listeners_of (listeners w2) (sub_key s)) \<and>
            sent w2 = sent w1 \<and> completedPaths w2 = completedPaths w1"
proof -
  let ?r = "register s m e w"
  obtain r w' where c: "connect ok ?r = (r, w')" by fastforce
  have v: "reg_view (subscribe uid ok s m e w) = reg_view w'"
    using c by (cases r) (simp_all add: subscribe_def)
  then have "listeners (subscribe uid ok s m e w) = listeners ?r"
    "activeSubscriptions (subscribe uid ok s m e w) = activeSubscriptions ?r"
    using connect_frame [OF c] by (simp_all add: reg_view_def)
  with assms show ?thesis
    by (simp add: close_timeout_def Let_def register_view dict_has_def listeners_of_def)
qed

theorem resubscribe_within_debounce_witness:
  "let w1 = subscribe None True pods_sub 8 None sample_world;
       w2 = close_timeout None \<lparr>t_id = 1, t_key = sub_key pods_sub, t_sub = pods_sub\<rparr> w1
   in dict_get (activeSubscriptions w2) (sub_key pods_sub) = Some pods_sub \<and> sent w2 = sent w1"
  using resubscribe_within_debounce
    [of "\<lparr>t_id = 1, t_key = sub_key pods_sub, t_sub = pods_sub\<rparr>" pods_sub None True 8 None sample_world]
  by (simp add: Let_def)

text \<open>When the last listener of a key leaves and nobody comes back, the fired timer
  forgets the subscription and tells the server with exactly one CLOSE on the open
  socket.\<close>

theorem abandoned_subscription_closed:
  assumes "dict_get (listeners w) (sub_key s) = Some [m]"
    and "socketMultiplexer w = Some i" and "ready w i = Open"
  shows "let w1 = unsubscribe (sub_key s) s m e w;
             w2 = close_timeout uid (last (timers w1)) w1
         in \<not> dict_has (activeSubscriptions w2) (sub_key s) \<and>
            \<not> dict_has (pendingUnsubscribes w2) (sub_key s) \<and>
            sent w2 = sent w @ [(i, make_msg uid CLOSE s)]"
proof -
  let ?w1 = "unsubscribe (sub_key s) s m e w"
  have frame: "timers (drop_error_listener k e v) = timers v" "sent (drop_error_listener k e v) = sent v"
    "listeners (drop_error_listener k e v) = listeners v" "sockets (drop_error_listener k e v) = sockets v"
    "socketMultiplexer (drop_error_listener k e v) = socketMultiplexer v" for k v
    by (simp_all add: drop_error_listener_def split: option.split)
  have clear: "sent (clear_pending k v) = sent v" "sockets (clear_pending k v) = sockets v"
    "socketMultiplexer (clear_pending k v) = socketMultiplexer v" for k v
    by (simp_all add: clear_pending_def split: option.split)
  have "t_key (last (timers ?w1)) = sub_key s" "t_sub (last (timers ?w1)) = s"
    "\<not> dict_has (listeners ?w1) (sub_key s)" "sent ?w1 = sent w" "mux_open ?w1"
    "socketMultiplexer ?w1 = Some i" "sockets ?w1 = sockets w"
    using assms
    by (simp_all add: unsubscribe_def drop_listener_def arm_close_def set_remove_def frame clear
        mux_open_def ready_def split: if_splits)
  with assms show ?thesis
    by (simp add: close_timeout_def Let_def ws_send_def mux_open_def ready_def split: if_splits)
qed

theorem abandoned_subscription_closed_witness:
  "let w = the (ws_run (\<lambda>_. None) None initial_world (take 2 sample_events));
       w1 = unsubscribe (sub_key pods_sub) pods_sub 7 None w
   in sent (close_timeout None (last (timers w1)) w1) = sent w @ [(0, make_msg None CLOSE pods_sub)]"
proof -
  let ?w = "the (ws_run (\<lambda>_. None) None initial_world (take 2 sample_events))"
  have "dict_get (listeners ?w) (sub_key pods_sub) = Some [7]"
    and "socketMultiplexer ?w = Some 0" and "ready ?w 0 = Open"
    by code_simp+
  from abandoned_subscription_closed [OF this, of None None] show ?thesis by (simp add: Let_def)
qed

text \<open>A data message reaches every listener of its own key exactly once and in order,
  and changes nothing else.\<close>

theorem update_reaches_its_listeners:
  assumes "parse raw = Some (JObj fs)"
    and "map_of fs ''clusterId'' = Some (JStr c)" and "c \<noteq> []"
    and "map_of fs ''path'' = Some (JStr p)" and "p \<noteq> []"
    and "map_of fs ''query'' = Some (JStr q)"
    and "map_of fs ''type'' \<notin> {Some (JStr ''COMPLETE''), Some (JStr ''ERROR'')}"
    and "map_of fs ''data'' = Some (JStr d)" and "d \<noteq> []"
    and "parse d = Some (JObj u)"
  shows "handleWebSocketMessage parse raw w =
           w\<lparr>calls := calls w @ map (\<lambda>cb. (cb, JObj u)) (listeners_of (listeners w) (createKey c p q))\<rparr>"
  using assms
  by (simp add: handleWebSocketMessage_def jprop_def jtruthy_def jor_def handle_update_def
      is_object_type_def call_all_def Let_def)

theorem update_reaches_its_listeners_witness:
  "let parse = (\<lambda>s. if s = ''m'' then Some (JObj [(''clusterId'', JStr ''prod''), (''path'', JStr ''/api/v1/pods''),
                 (''query'', JStr ''watch=1''), (''type'', JStr ''DATA''), (''data'', JStr ''d'')])
                 else Some (JObj [(''type'', JStr ''ADDED'')]));
       w = the (ws_run parse None initial_world (take 2 sample_events))
   in calls (handleWebSocketMessage parse ''m'' w) = [(7, JObj [(''type'', JStr ''ADDED'')])]"
proof -
  let ?parse = "\<lambda>s. if s = ''m'' then Some (JObj [(''clusterId'', JStr ''prod''), (''path'', JStr ''/api/v1/pods''),
                 (''query'', JStr ''watch=1''), (''type'', JStr ''DATA''), (''data'', JStr ''d'')])
                 else Some (JObj [(''type'', JStr ''ADDED'')])"
  let ?w = "the (ws_run ?parse None initial_world (take 2 sample_events))"
  have "calls ?w = []" and "listeners_of (listeners ?w) (createKey ''prod'' ''/api/v1/pods'' ''watch=1'') = [7]"
    by code_simp+
  with update_reaches_its_listeners [of ?parse "''m''" _ "''prod''" "''/api/v1/pods''" "''watch=1''" "''d''" _ ?w]
  show ?thesis by (simp add: Let_def)
qed

lemma ws_send_open: "ready w i = Open \<Longrightarrow> sent (ws_send i m w) = sent w @ [(i, m)]"
  by (simp add: ws_send_def)

lemma sent_fold_send:
  "ready w i = Open \<Longrightarrow> sent (fold (\<lambda>s. ws_send i (f s)) xs w) = sent w @ map (\<lambda>s. (i, f s)) xs"
  by (induction xs arbitrary: w) (simp_all add: ws_send_open)

text \<open>While no socket opens or closes the manager stays in its reconnecting mode.\<close>

fun opens_or_closes :: "ws_event \<Rightarrow> bool" where
  "opens_or_closes (EvOpen i) = True"
| "opens_or_closes (EvClose i) = True"
| "opens_or_closes _ = False"

lemma isReconnecting_frames [simp]:
  "isReconnecting (subscribe_resolved uid i s m w) = isReconnecting w"
  "isReconnecting (subscribe_rejected s m w) = isReconnecting w"
  "isReconnecting (clear_pending key w) = isReconnecting w"
  "isReconnecting (drop_listener key s m w) = isReconnecting w"
  "isReconnecting (drop_error_listener key e w) = isReconnecting w"
  "isReconnecting (register s m e w) = isReconnecting w"
  "isReconnecting (set_ready i r w) = isReconnecting w"
  by (simp_all add: subscribe_resolved_def subscribe_rejected_def clear_pending_def drop_listener_def
      drop_error_listener_def arm_close_def register_def set_ready_def Let_def split: option.split)

lemma isReconnecting_connect: "connect ok w = (r, w') \<Longrightarrow> isReconnecting w' = isReconnecting w"
  by (auto simp: connect_def Let_def split: if_splits)

lemma isReconnecting_subscribe: "isReconnecting (subscribe uid ok s m e w) = isReconnecting w"
proof -
  obtain r w' where c: "connect ok (register s m e w) = (r, w')" by fastforce
  then show ?thesis
    using isReconnecting_connect [OF c] by (cases r) (simp_all add: subscribe_def)
qed

lemma isReconnecting_step:
  assumes "\<not> opens_or_closes e"
  shows "isReconnecting (ws_step parse uid w e) = isReconnecting w"
proof (cases e)
  case (EvMessage raw)
  then show ?thesis
    by (simp add: handleWebSocketMessage_def handle_error_def handle_update_def call_all_def Let_def
        split: option.split json.split)
qed (use assms in \<open>simp_all add: isReconnecting_subscribe unsubscribe_def close_timeout_def poll_def
      socket_onerror_def reject_own_def fold_view [where v = isReconnecting] Let_def\<close>)

lemma isReconnecting_run:
  assumes "\<forall>e \<in> set es. \<not> opens_or_closes e" and "ws_run parse uid w es = Some w'"
  shows "isReconnecting w' = isReconnecting w"
  using assms
  by (induction es arbitrary: w) (auto simp: isReconnecting_step split: if_splits)

lemma resolve_own_sent_more: "\<exists>rest. sent (resolve_own uid i w) = sent w @ rest"
proof -
  have "\<exists>rest. sent (fold (\<lambda>x. subscribe_resolved uid i (w_sub x) (w_listener x)) xs v) = sent v @ rest" for xs v
  proof (induction xs arbitrary: v)
    case (Cons x xs)
    have "\<exists>r. sent (subscribe_resolved uid i (w_sub x) (w_listener x) v) = sent v @ r"
      by (simp add: subscribe_resolved_def ws_send_def Let_def)
    with Cons [of "subscribe_resolved uid i (w_sub x) (w_listener x) v"] show ?case by auto
  qed simp
  from this [of "filter (waits_for i) (waiters w)" "w\<lparr>waiters := filter (\<lambda>x. \<not> waits_for i x) (waiters w)\<rparr>"]
  show ?thesis by (simp add: resolve_own_def)
qed

text \<open>C20: a connection is lost while subscriptions are active; then anything may happen,
  short of a socket opening or closing: subscribers come and go, \<open>connect()\<close> builds new
  sockets, connections fail. The next socket that opens is at once sent a REQUEST for
  every subscription that is active by then, in their order, before anything else.\<close>

theorem reconnect_requests_all:
  assumes "activeSubscriptions w \<noteq> []"
    and "ws_run parse uid w (EvClose j # es) = Some v"
    and "\<forall>e \<in> set es. \<not> opens_or_closes e"
    and "ws_enabled v (EvOpen i)"
  shows "\<exists>rest. sent (ws_step parse uid v (EvOpen i)) =
     sent v @ map (\<lambda>s. (i, \<lparr>clusterId = clusterId s, path = path s, query = query s,
                          userId = (case uid of Some u \<Rightarrow> u | None \<Rightarrow> []), msg_type = REQUEST\<rparr>))
                (map snd (activeSubscriptions v)) @ rest"
proof -
  have "isReconnecting (handleWebSocketClose (set_ready j Closed w))"
    using assms(1) by (simp add: handleWebSocketClose_def set_ready_def)
  with assms(2,3) have rec: "isReconnecting v"
    using isReconnecting_run [OF assms(3)] by (auto split: if_splits)
  let ?v = "(set_ready i Open v)\<lparr>socketMultiplexer := Some i, connecting := False\<rparr>"
  have rdy: "ready ?v i = Open"
    using assms(4) by (simp add: set_ready_def ready_def)
  have act: "activeSubscriptions ?v = activeSubscriptions v" "sent ?v = sent v" "isReconnecting ?v"
    using rec by (simp_all add: set_ready_def)
  have msg: "make_msg uid REQUEST s = \<lparr>clusterId = clusterId s, path = path s, query = query s,
      userId = (case uid of Some u \<Rightarrow> u | None \<Rightarrow> []), msg_type = REQUEST\<rparr>" for s :: subscription
    by (simp add: make_msg_def or_else_def split: option.split)
  have "sent (resubscribeAll uid i ?v) = sent v @ map (\<lambda>s. (i, make_msg uid REQUEST s))
      (map snd (activeSubscriptions v))"
    unfolding resubscribeAll_def act sent_fold_send [OF rdy] by (simp add: dict_values_def)
  then show ?thesis
    using act(3) resolve_own_sent_more [of uid i "(resubscribeAll uid i ?v)\<lparr>isReconnecting := False\<rparr>"]
    unfolding msg by (simp add: socket_onopen_def Let_def)
qed

definition nodes_sub :: subscription where
  "nodes_sub = \<lparr>clusterId = ''prod'', path = ''/api/v1/nodes'', query = []\<rparr>"

text \<open>The connection of a list is lost; another list subscribes, which builds the second
  socket, and it opens.\<close>

theorem reconnect_requests_all_witness:
  "let w = the (ws_run (\<lambda>_. None) None initial_world [EvSubscribe True pods_sub 7 None, EvOpen 0]);
       v = the (ws_run (\<lambda>_. None) None w [EvClose 0, EvSubscribe True nodes_sub 8 None])
   in \<exists>rest. sent (ws_step (\<lambda>_. None) None v (EvOpen 1)) = sent v @
        [(1, \<lparr>clusterId = ''prod'', path = ''/api/v1/pods'', query = ''watch=1'', userId = [], msg_type = REQUEST\<rparr>),
         (1, \<lparr>clusterId = ''prod'', path = ''/api/v1/nodes'', query = [], userId = [], msg_type = REQUEST\<rparr>)] @ rest"
proof -
  let ?w = "the (ws_run (\<lambda>_. None) None initial_world [EvSubscribe True pods_sub 7 None, EvOpen 0])"
  let ?es = "[EvSubscribe True nodes_sub 8 None]"
  let ?v = "the (ws_run (\<lambda>_. None) None ?w (EvClose 0 # ?es))"
  have "ws_run (\<lambda>_. None) None ?w (EvClose 0 # ?es) \<noteq> None" by code_simp
  then have run: "ws_run (\<lambda>_. None) None ?w (EvClose 0 # ?es) = Some ?v" by simp
  have act: "activeSubscriptions ?w \<noteq> []" and en: "ws_enabled ?v (EvOpen 1)"
    and quiet: "\<forall>e \<in> set ?es. \<not> opens_or_closes e"
    and subs: "map snd (activeSubscriptions ?v) = [pods_sub, nodes_sub]"
    by code_simp+
  from reconnect_requests_all [OF act run quiet en] show ?thesis
    unfolding Let_def subs
    by (simp only: list.map pods_sub_def nodes_sub_def subscription.simps option.case)
qed

text \<open>The close handler does not look at which socket closed. When an old socket
  finishes closing after its replacement has opened, the manager lets go of the open
  replacement: the next \<open>connect()\<close> builds a third socket although one is open.\<close>

theorem stale_close_detaches_open_socket:
  assumes "socketMultiplexer w = Some j" and "ready w j = Open" and "i \<noteq> j"
  shows "let w' = ws_step parse uid w (EvClose i)
         in ready w' j = Open \<and> socketMultiplexer w' = None \<and>
            fst (connect True w') = PendingSocket (length (sockets w))"
  using assms
  by (simp add: handleWebSocketClose_def set_ready_def ready_def connect_def mux_open_def Let_def
      split: if_splits)

definition replaced_world :: ws_world where
  "replaced_world = the (ws_run (\<lambda>_. None) None initial_world
     [EvSubscribe True pods_sub 7 None, EvOpen 0, EvClosing 0, EvSubscribe True pods_sub 8 None, EvOpen 1])"

theorem stale_close_detaches_open_socket_witness:
  "ws_enabled replaced_world (EvClose 0) \<and>
   (let w' = ws_step (\<lambda>_. None) None replaced_world (EvClose 0)
    in ready w' 1 = Open \<and> socketMultiplexer w' = None \<and>
       fst (connect True w') = PendingSocket (length (sockets replaced_world)))"
proof -
  have en: "ws_enabled replaced_world (EvClose 0)" by code_simp
  have "socketMultiplexer replaced_world = Some 1" and "ready replaced_world 1 = Open"
    by code_simp+
  from stale_close_detaches_open_socket [OF this zero_neq_one, of "\<lambda>_. None" None] en
  show ?thesis by simp
qed

text \<open>A \<open>subscribe\<close> that is rejected takes nothing back: its listener stays registered
  and its subscription stays active, so a caller that only logs the rejection leaks it.\<close>

theorem rejected_subscribe_stays_registered:
  assumes "\<not> mux_open w" and "\<not> connecting w"
  shows "let w' = subscribe uid False s m e w
         in settled w' = settled w @ [(sub_key s, m, False)] \<and>
            m \<in> set (listeners_of (listeners w') (sub_key s)) \<and>
            dict_get (activeSubscriptions w') (sub_key s) = Some s"
proof -
  have r: "sockets (register s m e w) = sockets w" "socketMultiplexer (register s m e w) = socketMultiplexer w"
    "connecting (register s m e w) = connecting w" "settled (register s m e w) = settled w"
    by (simp_all add: register_def Let_def split: option.split)
  then have "ready (register s m e w) = ready w"
    by (simp add: ready_def fun_eq_iff)
  with r have "mux_open (register s m e w) = mux_open w"
    by (simp add: mux_open_def split: option.split)
  with r assms have "connect False (register s m e w) =
      (Rejected, (register s m e w)\<lparr>connecting := False\<rparr>)"
    by (simp add: connect_def Let_def)
  then show ?thesis
    by (simp add: subscribe_def subscribe_rejected_def Let_def r register_view listeners_of_def)
qed

theorem rejected_subscribe_stays_registered_witness:
  "settled (subscribe None False pods_sub 7 None initial_world) = [(sub_key pods_sub, 7, False)]"
proof -
  have "\<not> mux_open initial_world" and "\<not> connecting initial_world" by code_simp+
  from rejected_subscribe_stays_registered [OF this, of None pods_sub 7 None]
  show ?thesis by (simp add: Let_def initial_world_def)
qed

end
