(* ===== verification/WatchStore.thy ===== *)
theory WatchStore
  imports JsPrelude
begin

text \<open>
  The interface of a store of watched objects: an event touches the entry of its own key
  only, and replaces it by some effect of the event on the entry. \<open>KubeList.applyUpdate\<close>
  and the \<open>update\<close> of the older streaming API both provide it; what follows for whole
  event sequences is proved here once.
\<close>

datatype update_type = ADDED | MODIFIED | DELETED | ERROR | Unknown string

locale watch_store =
  fixes entry :: "'s \<Rightarrow> 'k \<Rightarrow> 'v option"
    and apply_event :: "'s \<Rightarrow> 'e \<Rightarrow> 's"
    and good :: "'s \<Rightarrow> bool"
    and event_key :: "'e \<Rightarrow> 'k"
    and effect :: "'s \<Rightarrow> 'e \<Rightarrow> 'v option \<Rightarrow> 'v option"
  assumes apply_good: "good s \<Longrightarrow> good (apply_event s e)"
    and apply_entry: "good s \<Longrightarrow>
      entry (apply_event s e) k = (if k = event_key e then effect s e (entry s k) else entry s k)"
begin

lemma run_good: "good s \<Longrightarrow> good (foldl apply_event s es)"
  by (induction es arbitrary: s) (simp_all add: apply_good)

lemma run_other:
  "good s \<Longrightarrow> k \<notin> event_key ` set es \<Longrightarrow> entry (foldl apply_event s es) k = entry s k"
  by (induction es arbitrary: s) (auto simp: apply_good apply_entry)

lemma run_dom:
  "good s \<Longrightarrow> dom (entry (foldl apply_event s es)) \<subseteq> dom (entry s) \<union> event_key ` set es"
  using run_other by fastforce

text \<open>Events of different keys can be swapped when their effects do not look at the rest of
  the store.\<close>

lemma apply_swap_entry:
  assumes "good s" and "event_key e \<noteq> event_key f"
    and "effect (apply_event s f) e = effect s e" and "effect (apply_event s e) f = effect s f"
  shows "entry (apply_event (apply_event s e) f) k = entry (apply_event (apply_event s f) e) k"
  using assms by (auto simp: apply_entry apply_good)

end

text \<open>A store whose effects look at the event and at the entry only: then the entry of a key
  is determined by the events of that key alone, in their order.\<close>

locale local_store = watch_store +
  fixes eff :: "'e \<Rightarrow> 'v option \<Rightarrow> 'v option"
  assumes effect_local: "effect s e = eff e"
begin

lemma run_entry:
  "good s \<Longrightarrow> entry (foldl apply_event s es) k = fold eff (filter (\<lambda>e. event_key e = k) es) (entry s k)"
  by (induction es arbitrary: s) (auto simp: apply_good apply_entry effect_local)

lemma swap_entry:
  "good s \<Longrightarrow> event_key e \<noteq> event_key f \<Longrightarrow>
   entry (apply_event (apply_event s e) f) k = entry (apply_event (apply_event s f) e) k"
  by (rule apply_swap_entry) (simp_all add: effect_local)

end

end
