(* ===== verification/KubeLists.thy ===== *)
theory KubeLists
  imports WatchStore
begin

text \<open>
  Live lists of Kubernetes objects: \<open>KubeList.applyUpdate\<close>
  (\<^verbatim>\<open>frontend/src/lib/k8s/api/v2/KubeList.ts\<close>), the endpoint URL
  (\<^verbatim>\<open>KubeObjectEndpoint.ts\<close>), the retry rule (\<^verbatim>\<open>retry.ts\<close>) and the logic of
  the list hook (\<^verbatim>\<open>useKubeObjectList.ts\<close>): which requests are made, how results are
  combined, which lists are watched and how a watch update reaches the query cache.

  An object is its \<open>uid\<close>, its \<open>resourceVersion\<close> and the rest of its content, whose type
  is a parameter. React, the query library and \<open>fetch\<close> are not modelled: a query result is
  a record of the fields the hook reads.
\<close>

section \<open>Objects, lists and updates\<close>

record 'a kube_object =
  uid :: "string option"
  resourceVersion :: "string option"
  content :: 'a

text \<open>An instance of a \<open>KubeObject\<close> class: the JSON it was built from and its cluster.\<close>

record 'a kube_item =
  jsonData :: "'a kube_object"
  item_cluster :: string

record 'a kube_list =
  kind :: string
  apiVersion :: string
  items :: "'a kube_item list"
  list_version :: "string option"

record 'a list_update =
  upd_type :: update_type
  upd_object :: "'a kube_object"

definition item_uid :: "'a kube_item \<Rightarrow> string option" where
  [js_defs]: "item_uid i = uid (jsonData i)"

lemma item_uid_new [simp]: "item_uid \<lparr>jsonData = j, item_cluster = c\<rparr> = uid j"
  by (simp add: item_uid_def)

text \<open>\<open>findIndex\<close>, with \<open>None\<close> for -1.\<close>

fun find_index :: "('a \<Rightarrow> bool) \<Rightarrow> 'a list \<Rightarrow> nat option" where
  "find_index P [] = None"
| "find_index P (x # xs) = (if P x then Some 0 else map_option Suc (find_index P xs))"

text \<open>The guard at the top of \<open>applyUpdate\<close>: both versions are there and the update is not
  newer. \<open>parseInt\<close> of something else is \<open>NaN\<close>, which compares false.\<close>

definition stale :: "string option \<Rightarrow> string option \<Rightarrow> bool" where
  "stale have new = (truthy have \<and> truthy new \<and> num_le (parse_int (the new)) (parse_int (the have)))"

definition update_items :: "'a kube_item list \<Rightarrow> 'a list_update \<Rightarrow> string \<Rightarrow> 'a kube_item list" where
  "update_items xs u cluster =
    (let index = find_index (\<lambda>i. item_uid i = uid (upd_object u)) xs;
         new_item = \<lparr>jsonData = upd_object u, item_cluster = cluster\<rparr>
     in case upd_type u of
          ADDED \<Rightarrow> (case index of Some n \<Rightarrow> xs[n := new_item] | None \<Rightarrow> xs @ [new_item])
        | MODIFIED \<Rightarrow> (case index of Some n \<Rightarrow> xs[n := new_item] | None \<Rightarrow> xs @ [new_item])
        | DELETED \<Rightarrow> (case index of Some n \<Rightarrow> take n xs @ drop (Suc n) xs | None \<Rightarrow> xs)
        | ERROR \<Rightarrow> xs
        | Unknown _ \<Rightarrow> xs)"

definition applyUpdate :: "'a kube_list \<Rightarrow> 'a list_update \<Rightarrow> string \<Rightarrow> 'a kube_list" where
  "applyUpdate l u cluster =
    (if stale (list_version l) (resourceVersion (upd_object u)) then l
     else l\<lparr>list_version := resourceVersion (upd_object u),
            items := update_items (items l) u cluster\<rparr>)"

section \<open>The list as a store of objects\<close>

text \<open>The abstraction: the object stored under each uid.\<close>

definition store :: "'a kube_item list \<Rightarrow> string option \<Rightarrow> 'a kube_item option" where
  "store xs k = map_of (map (\<lambda>i. (item_uid i, i)) xs) k"

definition uids_distinct :: "'a kube_item list \<Rightarrow> bool" where
  "uids_distinct xs = distinct (map item_uid xs)"

text \<open>
  What a watch event means for a store of objects, independently of how it is kept. Two
  components keep one: the list of \<open>KubeList\<close> and the \<open>results\<close> record of the older
  streaming API.
\<close>

definition store_event ::
  "update_type \<Rightarrow> 'k \<Rightarrow> 'v \<Rightarrow> ('k \<Rightarrow> 'v option) \<Rightarrow> ('k \<Rightarrow> 'v option)" where
  "store_event ty k v m =
    (case ty of ADDED \<Rightarrow> m(k \<mapsto> v) | MODIFIED \<Rightarrow> m(k \<mapsto> v) | DELETED \<Rightarrow> m(k := None)
     | ERROR \<Rightarrow> m | Unknown _ \<Rightarrow> m)"

lemma find_index_None: "find_index P xs = None \<longleftrightarrow> (\<forall>x \<in> set xs. \<not> P x)"
  by (induction xs) auto

lemma find_index_Some:
  "find_index P xs = Some n \<Longrightarrow> n < length xs \<and> P (xs ! n) \<and> (\<forall>j < n. \<not> P (xs ! j))"
proof (induction xs arbitrary: n)
  case Nil
  then show ?case by simp
next
  case (Cons x xs)
  then show ?case
    by (cases n) (auto simp: less_Suc_eq_0_disj split: if_splits)
qed

lemma store_Nil [simp]: "store [] k = None"
  by (simp add: store_def)

lemma store_Cons [simp]: "store (x # xs) k = (if k = item_uid x then Some x else store xs k)"
  by (simp add: store_def)

lemma store_append: "store (xs @ ys) k = (case store xs k of None \<Rightarrow> store ys k | Some i \<Rightarrow> Some i)"
  by (induction xs) simp_all

lemma store_None: "store xs k = None \<longleftrightarrow> k \<notin> item_uid ` set xs"
  by (induction xs) auto

lemma store_update:
  assumes "find_index (\<lambda>i. item_uid i = k) xs = Some n" and "item_uid v = k"
  shows "store (xs[n := v]) = (store xs)(k \<mapsto> v)"
  using assms
proof (induction xs arbitrary: n)
  case Nil
  then show ?case by simp
next
  case (Cons x xs)
  show ?case
  proof (cases "item_uid x = k")
    case True
    with Cons.prems show ?thesis by (auto simp: fun_eq_iff)
  next
    case False
    with Cons.prems obtain m where m: "n = Suc m" "find_index (\<lambda>i. item_uid i = k) xs = Some m"
      by auto
    show ?thesis
      using Cons.IH [OF m(2) Cons.prems(2)] False m(1) by (auto simp: fun_eq_iff)
  qed
qed

lemma store_delete:
  assumes "find_index (\<lambda>i. item_uid i = k) xs = Some n" and "uids_distinct xs"
  shows "store (take n xs @ drop (Suc n) xs) = (store xs)(k := None)"
  using assms
proof (induction xs arbitrary: n)
  case Nil
  then show ?case by simp
next
  case (Cons x xs)
  show ?case
  proof (cases "item_uid x = k")
    case True
    with Cons.prems have "store xs k = None"
      by (auto simp: store_None uids_distinct_def)
    with True Cons.prems show ?thesis by (auto simp: fun_eq_iff)
  next
    case False
    with Cons.prems obtain m where m: "n = Suc m" "find_index (\<lambda>i. item_uid i = k) xs = Some m"
      by auto
    have "uids_distinct xs" using Cons.prems by (simp add: uids_distinct_def)
    from Cons.IH [OF m(2) this] False m(1) show ?thesis by (auto simp: fun_eq_iff)
  qed
qed

lemma update_items_store:
  assumes "uids_distinct xs"
  shows "store (update_items xs u cluster) =
    store_event (upd_type u) (uid (upd_object u))
      \<lparr>jsonData = upd_object u, item_cluster = cluster\<rparr> (store xs)"
proof (cases "find_index (\<lambda>i. item_uid i = uid (upd_object u)) xs")
  case None
  then have "store xs (uid (upd_object u)) = None"
    by (auto simp: find_index_None store_None)
  with None show ?thesis
    by (auto simp: update_items_def store_event_def store_append Let_def fun_eq_iff
        split: update_type.split option.split)
next
  case (Some n)
  show ?thesis
    using store_update [OF Some] store_delete [OF Some assms] Some
    by (auto simp: update_items_def store_event_def Let_def split: update_type.split)
qed

lemma uids_update:
  "find_index (\<lambda>i. item_uid i = k) xs = Some n \<Longrightarrow> item_uid v = k \<Longrightarrow>
   map item_uid (xs[n := v]) = map item_uid xs"
  by (auto simp: map_update list_update_same_conv dest!: find_index_Some)

lemma update_items_distinct:
  assumes "uids_distinct xs"
  shows "uids_distinct (update_items xs u cluster)"
proof (cases "find_index (\<lambda>i. item_uid i = uid (upd_object u)) xs")
  case None
  then have "uid (upd_object u) \<notin> item_uid ` set xs"
    by (auto simp: find_index_None)
  with None assms show ?thesis
    by (auto simp: update_items_def uids_distinct_def Let_def split: update_type.split)
next
  case (Some n)
  have "distinct (map item_uid (take n xs @ drop (Suc n) xs))"
  proof -
    have "map item_uid xs = map item_uid (take n xs) @ item_uid (xs ! n) # map item_uid (drop (Suc n) xs)"
      using find_index_Some [OF Some] by (metis append_take_drop_id Cons_nth_drop_Suc list.map(2) map_append)
    with assms show ?thesis by (simp add: uids_distinct_def)
  qed
  with assms Some uids_update [OF Some, of "\<lparr>jsonData = upd_object u, item_cluster = cluster\<rparr>"]
  show ?thesis by (auto simp: update_items_def uids_distinct_def Let_def split: update_type.split)
qed

text \<open>\<open>KubeList\<close> provides the interface of a watched store.\<close>

definition list_effect ::
  "string \<Rightarrow> 'a kube_list \<Rightarrow> 'a list_update \<Rightarrow> 'a kube_item option \<Rightarrow> 'a kube_item option" where
  "list_effect cluster l u old =
    (if stale (list_version l) (resourceVersion (upd_object u)) then old
     else case upd_type u of
       ADDED \<Rightarrow> Some \<lparr>jsonData = upd_object u, item_cluster = cluster\<rparr>
     | MODIFIED \<Rightarrow> Some \<lparr>jsonData = upd_object u, item_cluster = cluster\<rparr>
     | DELETED \<Rightarrow> None | ERROR \<Rightarrow> old | Unknown _ \<Rightarrow> old)"

interpretation klist: watch_store "\<lambda>l. store (items l)" "\<lambda>l u. applyUpdate l u cluster"
  "\<lambda>l. uids_distinct (items l)" "\<lambda>u. uid (upd_object u)" "list_effect cluster"
proof unfold_locales
  fix l :: "'a kube_list" and u k
  assume d: "uids_distinct (items l)"
  show "uids_distinct (items (applyUpdate l u cluster))"
    using d by (simp add: applyUpdate_def update_items_distinct)
  show "store (items (applyUpdate l u cluster)) k =
    (if k = uid (upd_object u) then list_effect cluster l u (store (items l) k) else store (items l) k)"
    using update_items_store [OF d, of u cluster]
    by (auto simp: applyUpdate_def list_effect_def store_event_def split: update_type.split)
qed

section \<open>Versions\<close>

definition version :: "string option \<Rightarrow> js_num" where
  "version v = (case v of None \<Rightarrow> None | Some s \<Rightarrow> parse_int s)"

lemma parse_int_Nil [simp]: "parse_int [] = None"
  by code_simp

lemma stale_version:
  "stale a b \<longleftrightarrow> (case (version b, version a) of (Some n, Some v) \<Rightarrow> n \<le> v | _ \<Rightarrow> False)"
proof (cases a; cases b)
  fix s t
  assume "a = Some s" "b = Some t"
  then show ?thesis
    by (cases "s = []"; cases "t = []")
       (auto simp: stale_def version_def num_le_def split: option.split)
qed (simp_all add: stale_def version_def split: option.split)

text \<open>Updates with strictly growing versions, the first above \<open>v\<close>.\<close>

fun increasing :: "int \<Rightarrow> 'a list_update list \<Rightarrow> bool" where
  "increasing v [] = True"
| "increasing v (u # us) =
     (case version (resourceVersion (upd_object u)) of None \<Rightarrow> False
      | Some n \<Rightarrow> v < n \<and> increasing n us)"


section \<open>Endpoints and retries\<close>

record endpoint =
  ep_group :: "string option"
  ep_version :: string
  ep_resource :: string

definition toUrl :: "endpoint \<Rightarrow> string option \<Rightarrow> string" where
  "toUrl e namespace =
    js_join ''/''
      ((if truthy (ep_group e) then [''apis'', the (ep_group e)] else [''api'']) @
       [ep_version e] @
       (if truthy namespace then [''namespaces'', the namespace] else []) @
       [ep_resource e])"

text \<open>The status of an \<open>ApiError\<close>; any other error is \<open>None\<close>.\<close>

definition shouldRetryKubeRequest :: "int \<Rightarrow> int option \<Rightarrow> bool" where
  "shouldRetryKubeRequest failureCount err =
    (if err = Some 401 \<or> err = Some 403 then False else failureCount < 3)"

section \<open>Which lists are requested\<close>

record list_request =
  req_cluster :: string
  req_namespaces :: "string list option"

definition makeListRequests ::
  "string list \<Rightarrow> (string \<Rightarrow> string list) \<Rightarrow> bool \<Rightarrow> string list \<Rightarrow> list_request list" where
  "makeListRequests clusters getAllowedNamespaces isResourceNamespaced requestedNamespaces =
    map (\<lambda>cluster.
      let allowed = getAllowedNamespaces cluster;
          namespaces = (if requestedNamespaces \<noteq> [] then requestedNamespaces else allowed);
          namespaces' = (if allowed \<noteq> [] then filter (\<lambda>ns. ns \<in> set allowed) namespaces else namespaces)
      in \<lparr>req_cluster = cluster,
          req_namespaces = (if isResourceNamespaced then Some namespaces' else None)\<rparr>) clusters"

text \<open>The queries of the hook, as the cluster and the namespace each asks for; the empty
  string, the default of \<open>kubeObjectListQuery\<close>, asks for the whole cluster.\<close>

definition list_queries :: "bool \<Rightarrow> list_request list \<Rightarrow> (string \<times> string) list" where
  "list_queries has_endpoint requests =
    (if has_endpoint
     then concat (map (\<lambda>r. case req_namespaces r of
            Some (n # ns) \<Rightarrow> map (\<lambda>namespace. (req_cluster r, namespace)) (n # ns)
          | _ \<Rightarrow> [(req_cluster r, [])]) requests)
     else [])"

section \<open>Combining the results\<close>

record 'a list_response =
  resp_list :: "'a kube_list"
  resp_cluster :: string
  resp_namespace :: "string option"

datatype 'a query_data = Undefined | Null | Response "'a list_response"

record 'a query_result =
  data :: "'a query_data"
  error :: "int option"
  isError :: bool
  isLoading :: bool
  isFetching :: bool
  isSuccess :: bool

record 'a combined =
  c_items :: "'a kube_item list option"
  c_errors :: "int list"
  c_isError :: bool
  c_isLoading :: bool
  c_isFetching :: bool
  c_isSuccess :: bool
  clusterResults :: "(string, 'a query_result) dict"

definition response_items :: "'a query_data \<Rightarrow> 'a kube_item list" where
  "response_items d = (case d of Response r \<Rightarrow> items (resp_list r) | _ \<Rightarrow> [])"

definition add_cluster_result ::
  "'a query_result \<Rightarrow> (string, 'a query_result) dict \<Rightarrow> (string, 'a query_result) dict" where
  "add_cluster_result r acc =
    (case data r of
       Response x \<Rightarrow> if resp_cluster x \<noteq> [] then dict_set (resp_cluster x) r acc else acc
     | _ \<Rightarrow> acc)"

definition combine :: "'a query_result list \<Rightarrow> 'a combined" where
  "combine results =
    \<lparr>c_items = (if list_all (\<lambda>r. data r = Null) results then None
                else Some (concat (map (\<lambda>r. response_items (data r)) results))),
     c_errors = List.map_filter error results,
     c_isError = list_ex isError results,
     c_isLoading = list_ex isLoading results,
     c_isFetching = list_ex isFetching results,
     c_isSuccess = list_all isSuccess results,
     clusterResults = fold add_cluster_result results []\<rparr>"

section \<open>Which lists are watched\<close>

record watched_list =
  w_cluster :: string
  w_namespace :: "string option"
  w_version :: "string option"

definition responses :: "'a query_data list \<Rightarrow> 'a list_response list" where
  "responses ds = List.map_filter (\<lambda>d. case d of Response r \<Rightarrow> Some r | _ \<Rightarrow> None) ds"

definition to_watched :: "'a list_response \<Rightarrow> watched_list" where
  "to_watched r = \<lparr>w_cluster = resp_cluster r, w_namespace = resp_namespace r,
     w_version = list_version (resp_list r)\<rparr>"

definition watches :: "watched_list list \<Rightarrow> string \<Rightarrow> string option \<Rightarrow> bool" where
  "watches ws c n = list_ex (\<lambda>w. w_cluster w = c \<and> w_namespace w = n) ws"

definition listsNotYetWatched :: "'a query_data list \<Rightarrow> watched_list list \<Rightarrow> watched_list list" where
  "listsNotYetWatched ds ws =
    map to_watched (filter (\<lambda>r. \<not> watches ws (resp_cluster r) (resp_namespace r)) (responses ds))"

definition request_needs :: "watched_list \<Rightarrow> list_request \<Rightarrow> bool" where
  "request_needs w r =
    (if req_cluster r \<noteq> w_cluster w then False
     else case req_namespaces r of
       Some (n # ns) \<Rightarrow> (case w_namespace w of None \<Rightarrow> False | Some m \<Rightarrow> m \<in> set (n # ns))
     | _ \<Rightarrow> w_namespace w = None \<or> w_namespace w = Some [])"

definition needed :: "list_request list \<Rightarrow> watched_list \<Rightarrow> bool" where
  "needed requests w = list_ex (request_needs w) requests"

text \<open>
  One render. Both \<open>setListsToWatch\<close> calls start from the same old value, so when both run
  the later one, which stops watching, wins.
\<close>

definition render_lists ::
  "list_request list \<Rightarrow> 'a query_data list \<Rightarrow> watched_list list \<Rightarrow> watched_list list" where
  "render_lists requests ds ws =
    (let new = listsNotYetWatched ds ws; old = filter (\<lambda>w. \<not> needed requests w) ws
     in if old \<noteq> [] then filter (\<lambda>w. needed requests w) ws
        else if new \<noteq> [] then ws @ new else ws)"

text \<open>Watching goes through the multiplexer or through one socket for each list; the hook
  of the other kind gets nothing to watch. Nothing is watched while loading, when watching
  is off or when the list is refetched on an interval.\<close>

definition lists_for_hooks ::
  "bool \<Rightarrow> bool \<Rightarrow> int option \<Rightarrow> bool \<Rightarrow> watched_list list \<Rightarrow> watched_list list \<times> watched_list list" where
  "lists_for_hooks multiplexer watch refetchInterval loading ws =
    (let should = watch \<and> (case refetchInterval of None \<Rightarrow> True | Some n \<Rightarrow> n = 0) \<and> \<not> loading;
         ls = (if should then ws else [])
     in (if multiplexer then ls else [], if multiplexer then [] else ls))"

section \<open>A watch update reaches the query cache\<close>

text \<open>The queries of one hook differ in cluster and namespace only, so these are the cache
  key; \<open>latest\<close> is \<open>latestResourceVersions\<close>.\<close>

record 'a watch_hook =
  latest :: "(string, string) dict"
  cache :: "(string \<times> string, 'a list_response) dict"

definition latest_key :: "string \<Rightarrow> string option \<Rightarrow> string" where
  "latest_key cluster namespace = cluster @ '':'' @ or_else namespace []"

definition setQueryData ::
  "string \<times> string \<Rightarrow> ('a list_response \<Rightarrow> 'a list_response) \<Rightarrow> 'a watch_hook \<Rightarrow> 'a watch_hook" where
  "setQueryData key f h =
    (case dict_get (cache h) key of None \<Rightarrow> h | Some old \<Rightarrow> h\<lparr>cache := dict_set key (f old) (cache h)\<rparr>)"

definition handleUpdate ::
  "bool \<Rightarrow> 'a list_update option \<Rightarrow> string \<Rightarrow> string option \<Rightarrow> 'a watch_hook \<Rightarrow> 'a watch_hook" where
  "handleUpdate has_endpoint update cluster namespace h =
    (case update of
       None \<Rightarrow> h
     | Some u \<Rightarrow>
         if \<not> has_endpoint then h
         else let v = resourceVersion (upd_object u);
                  h1 = (if truthy v then h\<lparr>latest := dict_set (latest_key cluster namespace) (the v) (latest h)\<rparr> else h)
              in setQueryData (cluster, or_else namespace [])
                   (\<lambda>old. old\<lparr>resp_list := applyUpdate (resp_list old) u cluster\<rparr>) h1)"

section \<open>Properties\<close>

text \<open>C2: replaying watch events with growing versions over a listed state gives exactly the
  store that the events describe: added and modified objects are there with their newest
  content, deleted ones are gone, everything else is untouched.\<close>

theorem replay_gives_described_store:
  assumes "uids_distinct (items l)" and "version (list_version l) = Some v" and "increasing v us"
  shows "store (items (foldl (\<lambda>l u. applyUpdate l u cluster) l us)) =
    foldl (\<lambda>m u. store_event (upd_type u) (uid (upd_object u))
             \<lparr>jsonData = upd_object u, item_cluster = cluster\<rparr> m) (store (items l)) us"
  using assms
proof (induction us arbitrary: l v)
  case Nil
  then show ?case by simp
next
  case (Cons u us)
  from Cons.prems(3) obtain n where n: "version (resourceVersion (upd_object u)) = Some n"
    and "v < n" and inc: "increasing n us"
    by (auto split: option.splits)
  with Cons.prems(2) have fresh: "\<not> stale (list_version l) (resourceVersion (upd_object u))"
    by (simp add: stale_version)
  let ?l = "applyUpdate l u cluster"
  have "uids_distinct (items ?l)" by (rule klist.apply_good [OF Cons.prems(1)])
  moreover have "version (list_version ?l) = Some n" using fresh n by (simp add: applyUpdate_def)
  ultimately have "store (items (foldl (\<lambda>l u. applyUpdate l u cluster) ?l us)) =
    foldl (\<lambda>m u. store_event (upd_type u) (uid (upd_object u))
             \<lparr>jsonData = upd_object u, item_cluster = cluster\<rparr> m) (store (items ?l)) us"
    using inc by (rule Cons.IH)
  moreover have "store (items ?l) = store_event (upd_type u) (uid (upd_object u))
      \<lparr>jsonData = upd_object u, item_cluster = cluster\<rparr> (store (items l))"
    using fresh update_items_store [OF Cons.prems(1)] by (simp add: applyUpdate_def)
  ultimately show ?case by simp
qed

definition pod :: "string \<Rightarrow> string \<Rightarrow> nat kube_object" where
  "pod u v = \<lparr>uid = Some u, resourceVersion = Some v, content = 0\<rparr>"

definition pod_list :: "nat kube_list" where
  "pod_list = \<lparr>kind = ''PodList'', apiVersion = ''v1'',
     items = [\<lparr>jsonData = pod ''a'' ''5'', item_cluster = ''c''\<rparr>, \<lparr>jsonData = pod ''b'' ''7'', item_cluster = ''c''\<rparr>],
     list_version = Some ''10''\<rparr>"

definition pod_updates :: "nat list_update list" where
  "pod_updates = [\<lparr>upd_type = MODIFIED, upd_object = pod ''a'' ''11''\<rparr>,
     \<lparr>upd_type = DELETED, upd_object = pod ''b'' ''12''\<rparr>, \<lparr>upd_type = ADDED, upd_object = pod ''d'' ''13''\<rparr>]"

theorem replay_gives_described_store_witness:
  "uids_distinct (items pod_list) \<and> version (list_version pod_list) = Some 10 \<and> increasing 10 pod_updates \<and>
   store (items (foldl (\<lambda>l u. applyUpdate l u ''c'') pod_list pod_updates)) =
     foldl (\<lambda>m u. store_event (upd_type u) (uid (upd_object u))
             \<lparr>jsonData = upd_object u, item_cluster = ''c''\<rparr> m) (store (items pod_list)) pod_updates"
proof -
  have h: "uids_distinct (items pod_list)" "version (list_version pod_list) = Some 10" "increasing 10 pod_updates"
    by code_simp+
  from replay_gives_described_store [OF h, of "''c''"] h show ?thesis by simp
qed

lemma version_applyUpdate:
  assumes "version (list_version l) = Some v" and "version (resourceVersion (upd_object u)) = Some n"
  shows "version (list_version (applyUpdate l u cluster)) = Some (max v n)"
  using assms by (auto simp: applyUpdate_def stale_version max_def)

lemma version_run:
  assumes "version (list_version l) = Some v"
    and "\<forall>u \<in> set us. version (resourceVersion (upd_object u)) \<noteq> None"
  shows "\<exists>v'. version (list_version (foldl (\<lambda>l u. applyUpdate l u cluster) l us)) = Some v' \<and> v \<le> v'"
  using assms
proof (induction us arbitrary: l v)
  case Nil
  then show ?case by simp
next
  case (Cons u us)
  then obtain n where "version (resourceVersion (upd_object u)) = Some n" by auto
  from version_applyUpdate [OF Cons.prems(1) this, of cluster] Cons show ?case
    by fastforce
qed

text \<open>The version of a list never goes down while the updates carry numeric versions,
  and an update that is sent again changes nothing.\<close>

theorem versions_grow_and_resends_are_ignored:
  assumes "version (list_version l) = Some v"
    and "\<forall>u \<in> set us. version (resourceVersion (upd_object u)) \<noteq> None"
  shows "(\<exists>v'. version (list_version (foldl (\<lambda>l u. applyUpdate l u cluster) l us)) = Some v' \<and> v \<le> v') \<and>
         (\<forall>u \<in> set us. applyUpdate (applyUpdate l u cluster) u cluster = applyUpdate l u cluster)"
proof (intro conjI ballI)
  show "\<exists>v'. version (list_version (foldl (\<lambda>l u. applyUpdate l u cluster) l us)) = Some v' \<and> v \<le> v'"
    using assms by (rule version_run)
  fix u assume "u \<in> set us"
  with assms(2) obtain n where n: "version (resourceVersion (upd_object u)) = Some n" by auto
  have "stale (list_version (applyUpdate l u cluster)) (resourceVersion (upd_object u))"
    using version_applyUpdate [OF assms(1) n] n by (simp add: stale_version)
  then show "applyUpdate (applyUpdate l u cluster) u cluster = applyUpdate l u cluster"
    by (simp add: applyUpdate_def [of "applyUpdate l u cluster"])
qed

theorem versions_grow_and_resends_are_ignored_witness:
  "\<exists>v'. version (list_version (foldl (\<lambda>l u. applyUpdate l u ''c'') pod_list pod_updates)) = Some v' \<and> 10 \<le> v'"
proof -
  have "version (list_version pod_list) = Some 10"
    and "\<forall>u \<in> set pod_updates. version (resourceVersion (upd_object u)) \<noteq> None"
    by code_simp+
  from versions_grow_and_resends_are_ignored [OF this] show ?thesis by blast
qed

lemma filter_out_nth:
  "distinct (map f xs) \<Longrightarrow> n < length xs \<Longrightarrow> f (xs ! n) = k \<Longrightarrow>
   filter (\<lambda>y. y \<noteq> k) (map f xs) = map f (take n xs @ drop (Suc n) xs)"
proof (induction xs arbitrary: n)
  case Nil
  then show ?case by simp
next
  case (Cons x xs)
  show ?case
  proof (cases n)
    case 0
    with Cons.prems have "k \<notin> set (map f xs)" by simp
    then have "\<forall>y \<in> set (map f xs). y \<noteq> k" by metis
    with 0 Cons.prems show ?thesis by (simp del: set_map)
  next
    case (Suc m)
    with Cons.prems have "f x \<noteq> k" by auto
    with Suc Cons.IH [of m] Cons.prems show ?thesis by simp
  qed
qed

text \<open>An update keeps the order of the list: a known object keeps its place, a new one
  goes to the end, a deleted one leaves the others in order; uids stay distinct.\<close>

theorem update_keeps_order:
  assumes "uids_distinct (items l)" and "\<not> stale (list_version l) (resourceVersion (upd_object u))"
  shows "map item_uid (items (applyUpdate l u cluster)) =
     (let us = map item_uid (items l); k = uid (upd_object u)
      in case upd_type u of
           ADDED \<Rightarrow> set_add k us | MODIFIED \<Rightarrow> set_add k us | DELETED \<Rightarrow> set_remove k us
         | ERROR \<Rightarrow> us | Unknown _ \<Rightarrow> us)
   \<and> uids_distinct (items (applyUpdate l u cluster))"
proof
  show "uids_distinct (items (applyUpdate l u cluster))"
    by (rule klist.apply_good [OF assms(1)])
  let ?xs = "items l" and ?k = "uid (upd_object u)"
  show "map item_uid (items (applyUpdate l u cluster)) =
     (let us = map item_uid ?xs; k = ?k
      in case upd_type u of
           ADDED \<Rightarrow> set_add k us | MODIFIED \<Rightarrow> set_add k us | DELETED \<Rightarrow> set_remove k us
         | ERROR \<Rightarrow> us | Unknown _ \<Rightarrow> us)"
  proof (cases "find_index (\<lambda>i. item_uid i = ?k) ?xs")
    case None
    then have k: "?k \<notin> set (map item_uid ?xs)" by (auto simp: find_index_None)
    then have "filter (\<lambda>y. y \<noteq> ?k) (map item_uid ?xs) = map item_uid ?xs"
      unfolding filter_id_conv by metis
    with None k assms(2) show ?thesis
      by (simp add: applyUpdate_def update_items_def set_add_def set_remove_def Let_def split: update_type.split)
  next
    case (Some n)
    note fi = find_index_Some [OF Some]
    let ?us = "map item_uid ?xs"
    have mem: "?k \<in> set ?us" using fi by (metis length_map nth_map nth_mem)
    have del: "filter (\<lambda>y. y \<noteq> ?k) ?us = map item_uid (take n ?xs @ drop (Suc n) ?xs)"
      by (rule filter_out_nth) (use assms(1) fi in \<open>simp_all add: uids_distinct_def\<close>)
    show ?thesis
      using Some assms(2) mem del uids_update [OF Some, of "\<lparr>jsonData = upd_object u, item_cluster = cluster\<rparr>"]
      by (simp add: applyUpdate_def update_items_def set_add_def set_remove_def Let_def split: update_type.split)
  qed
qed

theorem update_keeps_order_witness:
  "map item_uid (items (applyUpdate pod_list (hd pod_updates) ''c'')) = [Some ''a'', Some ''b'']"
proof -
  have "uids_distinct (items pod_list)"
    and "\<not> stale (list_version pod_list) (resourceVersion (upd_object (hd pod_updates)))"
    by code_simp+
  from update_keeps_order [OF this, of "''c''"]
  have "map item_uid (items (applyUpdate pod_list (hd pod_updates) ''c'')) =
     set_add (Some ''a'') [Some ''a'', Some ''b'']"
    by (simp add: pod_list_def pod_updates_def pod_def item_uid_def Let_def)
  then show ?thesis by (simp add: set_add_def)
qed


text \<open>An ERROR event whose object has no version (an expired watch sends one) erases the
  version of the list. An update older than the list, which is ignored before that event,
  is then applied and replaces the newer object.\<close>

theorem error_event_drops_version_guard:
  assumes "uids_distinct (items l)"
    and "upd_type e = ERROR" and "resourceVersion (upd_object e) = None"
    and "upd_type u = MODIFIED" and "stale (list_version l) (resourceVersion (upd_object u))"
  shows "applyUpdate l u cluster = l \<and>
    store (items (applyUpdate (applyUpdate l e cluster) u cluster)) (uid (upd_object u)) =
      Some \<lparr>jsonData = upd_object u, item_cluster = cluster\<rparr>"
proof
  show "applyUpdate l u cluster = l" using assms(5) by (simp add: applyUpdate_def)
  have e: "applyUpdate l e cluster = l\<lparr>list_version := None\<rparr>"
    using assms(2,3) by (simp add: applyUpdate_def update_items_def stale_def Let_def)
  from assms(1,4) show "store (items (applyUpdate (applyUpdate l e cluster) u cluster)) (uid (upd_object u)) =
      Some \<lparr>jsonData = upd_object u, item_cluster = cluster\<rparr>"
    by (simp add: e klist.apply_entry list_effect_def stale_def)
qed

theorem error_event_drops_version_guard_witness:
  "applyUpdate pod_list \<lparr>upd_type = MODIFIED, upd_object = pod ''a'' ''3''\<rparr> ''c'' = pod_list \<and>
   store (items (applyUpdate (applyUpdate pod_list
       \<lparr>upd_type = ERROR, upd_object = \<lparr>uid = None, resourceVersion = None, content = 0\<rparr>\<rparr> ''c'')
       \<lparr>upd_type = MODIFIED, upd_object = pod ''a'' ''3''\<rparr> ''c'')) (Some ''a'') =
     Some \<lparr>jsonData = pod ''a'' ''3'', item_cluster = ''c''\<rparr>"
proof -
  let ?u = "\<lparr>upd_type = MODIFIED, upd_object = pod ''a'' ''3''\<rparr>"
  have "uids_distinct (items pod_list)" "stale (list_version pod_list) (resourceVersion (upd_object ?u))"
    by code_simp+
  from error_event_drops_version_guard [OF this(1) _ _ _ this(2),
      of "\<lparr>upd_type = ERROR, upd_object = \<lparr>uid = None, resourceVersion = None, content = 0\<rparr>\<rparr>" "''c''"]
  show ?thesis by (simp add: pod_def)
qed

lemma responses_simps [simp]:
  "responses [] = []" "responses (Response r # ds) = r # responses ds"
  "responses (Undefined # ds) = responses ds" "responses (Null # ds) = responses ds"
  by (simp_all add: responses_def List.map_filter_simps)

lemma watches_iff: "watches ws c n \<longleftrightarrow> (\<exists>w \<in> set ws. w_cluster w = c \<and> w_namespace w = n)"
  by (simp add: watches_def list_ex_iff)

lemma all_needed_render:
  assumes "\<forall>w \<in> set ws. needed requests w"
  shows "render_lists requests ds ws = ws @ listsNotYetWatched ds ws"
  using assms by (simp add: render_lists_def Let_def)

lemma not_yet_after_append: "listsNotYetWatched ds (ws @ listsNotYetWatched ds ws) = []"
proof -
  have "watches (ws @ listsNotYetWatched ds ws) (resp_cluster r) (resp_namespace r)"
    if "r \<in> set (responses ds)" for r
  proof (cases "watches ws (resp_cluster r) (resp_namespace r)")
    case True
    then show ?thesis by (auto simp: watches_iff)
  next
    case False
    with that have "to_watched r \<in> set (listsNotYetWatched ds ws)"
      by (auto simp: listsNotYetWatched_def)
    then show ?thesis by (auto simp: watches_iff to_watched_def intro!: bexI [of _ "to_watched r"])
  qed
  then show ?thesis
    by (simp add: listsNotYetWatched_def [of ds "ws @ listsNotYetWatched ds ws"] filter_empty_conv)
qed

text \<open>C34: updating the watched lists while rendering comes to rest. When every response
  belongs to one of the requests, two renders are enough: then exactly the needed lists are
  watched, every response among them, and a further render changes nothing.\<close>

theorem watched_lists_come_to_rest:
  assumes "\<forall>r \<in> set (responses ds). needed requests (to_watched r)"
  shows "let step = render_lists requests ds; rest = step (step ws)
         in step rest = rest \<and> (\<forall>w \<in> set rest. needed requests w) \<and>
            (\<forall>r \<in> set (responses ds). watches rest (resp_cluster r) (resp_namespace r))"
proof -
  have new: "\<forall>w \<in> set (listsNotYetWatched ds vs). needed requests w" for vs
    using assms by (auto simp: listsNotYetWatched_def)
  define ws1 where "ws1 = render_lists requests ds ws"
  have n1: "\<forall>w \<in> set ws1. needed requests w"
  proof (cases "\<forall>w \<in> set ws. needed requests w")
    case True
    then show ?thesis using new [of ws] by (auto simp: ws1_def all_needed_render)
  next
    case False
    then have "filter (\<lambda>w. \<not> needed requests w) ws \<noteq> []" by (auto simp: filter_empty_conv)
    then show ?thesis by (auto simp: ws1_def render_lists_def Let_def)
  qed
  let ?ws2 = "ws1 @ listsNotYetWatched ds ws1"
  have r1: "render_lists requests ds ws1 = ?ws2" by (rule all_needed_render [OF n1])
  have n2: "\<forall>w \<in> set ?ws2. needed requests w" using n1 new [of ws1] by auto
  have "render_lists requests ds ?ws2 = ?ws2"
    using all_needed_render [OF n2, of ds] not_yet_after_append [of ds ws1] by simp
  moreover have "watches ?ws2 (resp_cluster r) (resp_namespace r)" if "r \<in> set (responses ds)" for r
  proof (cases "watches ws1 (resp_cluster r) (resp_namespace r)")
    case True
    then show ?thesis by (auto simp: watches_iff)
  next
    case False
    with that have "to_watched r \<in> set (listsNotYetWatched ds ws1)" by (auto simp: listsNotYetWatched_def)
    then show ?thesis by (auto simp: watches_iff to_watched_def intro!: bexI [of _ "to_watched r"])
  qed
  ultimately show ?thesis using n2 by (simp add: ws1_def [symmetric] r1 Let_def)
qed

theorem watched_lists_come_to_rest_witness:
  "let rq = [\<lparr>req_cluster = ''c'', req_namespaces = None\<rparr>];
       ds = [Response \<lparr>resp_list = pod_list, resp_cluster = ''c'', resp_namespace = Some []\<rparr>];
       step = render_lists rq ds;
       rest = step (step [\<lparr>w_cluster = ''old'', w_namespace = None, w_version = None\<rparr>])
   in step rest = rest \<and> watches rest ''c'' (Some [])"
proof -
  let ?rq = "[\<lparr>req_cluster = ''c'', req_namespaces = None\<rparr>]"
  let ?ds = "[Response \<lparr>resp_list = pod_list, resp_cluster = ''c'', resp_namespace = Some []\<rparr>]"
  have "\<forall>r \<in> set (responses ?ds). needed ?rq (to_watched r)"
    by (simp add: needed_def request_needs_def to_watched_def)
  from watched_lists_come_to_rest [OF this, of "[\<lparr>w_cluster = ''old'', w_namespace = None, w_version = None\<rparr>]"]
  show ?thesis by (simp add: Let_def)
qed

text \<open>With allowed namespaces configured for a cluster and only namespaces outside them
  requested, the intersection is empty, and the empty list makes the hook query the whole
  cluster instead of nothing.\<close>

theorem disallowed_namespaces_query_whole_cluster:
  assumes "allowed c \<noteq> []" and "requested \<noteq> []" and "set requested \<inter> set (allowed c) = {}"
  shows "list_queries True (makeListRequests [c] allowed True requested) = [(c, [])]"
proof -
  have "filter (\<lambda>ns. ns \<in> set (allowed c)) requested = []"
    using assms(3) by (auto simp: filter_empty_conv)
  with assms(1,2) show ?thesis by (simp add: list_queries_def makeListRequests_def Let_def)
qed

theorem disallowed_namespaces_query_whole_cluster_witness:
  "list_queries True (makeListRequests [''c''] (\<lambda>_. [''team-a'']) True [''kube-system'']) = [(''c'', [])]"
  by (rule disallowed_namespaces_query_whole_cluster) simp_all

lemma list_queries_namespaced:
  "(cl, ns) \<in> set (list_queries ep rs) \<Longrightarrow> ns \<noteq> [] \<Longrightarrow>
   \<exists>r \<in> set rs. req_cluster r = cl \<and> (\<exists>nss. req_namespaces r = Some nss \<and> ns \<in> set nss)"
proof -
  assume "(cl, ns) \<in> set (list_queries ep rs)" and ns: "ns \<noteq> []"
  then obtain r where r: "r \<in> set rs"
    "(cl, ns) \<in> set (case req_namespaces r of Some (n # ns) \<Rightarrow> map (\<lambda>namespace. (req_cluster r, namespace)) (n # ns)
          | _ \<Rightarrow> [(req_cluster r, [])])"
    by (auto simp: list_queries_def simp del: list.map split: if_splits)
  with ns show ?thesis
    by (cases "req_namespaces r"; cases "the (req_namespaces r)") auto
qed

text \<open>Otherwise a namespaced request never leaves the allowed namespaces.\<close>

theorem list_queries_stay_allowed:
  assumes "(cl, ns) \<in> set (list_queries ep (makeListRequests clusters allowed True requested))"
    and "allowed cl \<noteq> []" and "ns \<noteq> []"
  shows "ns \<in> set (allowed cl) \<and> cl \<in> set clusters \<and> (requested \<noteq> [] \<longrightarrow> ns \<in> set requested)"
  using list_queries_namespaced [OF assms(1,3)] assms(2)
  by (auto simp: makeListRequests_def Let_def split: if_splits)

theorem list_queries_stay_allowed_witness:
  "''team-a'' \<in> set [''team-a''] \<and> (''c'', ''team-a'') \<in>
     set (list_queries True (makeListRequests [''c''] (\<lambda>_. [''team-a'']) True [''kube-system'', ''team-a'']))"
proof -
  have h: "(''c'', ''team-a'') \<in>
     set (list_queries True (makeListRequests [''c''] (\<lambda>_. [''team-a'']) True [''kube-system'', ''team-a'']))"
    by code_simp
  from list_queries_stay_allowed [OF h] h show ?thesis by simp
qed

end
