(* ===== verification/Urls.thy ===== *)
theory Urls
  imports JsPrelude
begin

text \<open>
  URLs of API requests: \<^verbatim>\<open>frontend/src/lib/k8s/api/v1/formatUrl.ts\<close> and
  \<^verbatim>\<open>frontend/src/lib/k8s/api/v2/makeUrl.ts\<close>, with what they use of the standard
  library: \<open>URLSearchParams\<close> and its form encoding.
\<close>

section \<open>Form encoding\<close>

text \<open>The bytes of a character in UTF-8. A character is one code unit below 256, so there
  are at most two.\<close>

definition utf8 :: "char \<Rightarrow> nat list" where
  "utf8 c = (let n = code_unit c in if n < 128 then [n] else [192 + n div 64, 128 + n mod 64])"

definition hex_digit :: "nat \<Rightarrow> char" where
  "hex_digit n = char_of (if n < 10 then 48 + n else 55 + n)"

definition percent :: "nat \<Rightarrow> string" where
  "percent b = [CHR ''%'', hex_digit (b div 16), hex_digit (b mod 16)]"

definition form_safe :: "char \<Rightarrow> bool" where
  "form_safe c = (is_digit c \<or> is_lower c \<or> is_upper c \<or> c \<in> set ''*-._'')"

definition form_encode :: "string \<Rightarrow> string" where
  "form_encode s = concat (map (\<lambda>c. if form_safe c then [c] else if c = CHR '' '' then ''+''
     else concat (map percent (utf8 c))) s)"

definition search_params :: "(string, string) dict \<Rightarrow> string" where
  "search_params d = js_join ''&'' (map (\<lambda>(k, v). form_encode k @ ''='' @ form_encode v) d)"

section \<open>formatUrl.ts\<close>

text \<open>\<open>QueryParameters\<close>: every parameter but \<open>limit\<close> is a string.\<close>

datatype param = PStr string | PNum int

type_synonym query_parameters = "(string, param) dict"

definition param_text :: "param \<Rightarrow> string" where
  "param_text p = (case p of PStr s \<Rightarrow> s | PNum n \<Rightarrow> int_str n)"

definition asQuery :: "query_parameters option \<Rightarrow> string" where
  "asQuery qp =
    (case qp of None \<Rightarrow> []
     | Some q \<Rightarrow>
         let newQueryParams = map (\<lambda>(k, v). (k, param_text v)) q
         in if newQueryParams \<noteq> [] then ''?'' @ search_params newQueryParams else [])"

definition combinePath :: "string \<Rightarrow> string \<Rightarrow> string" where
  "combinePath base path =
    (let base' = (if ends_with base ''/'' then butlast base else base);
         path' = (if starts_with path ''/'' then tl path else path)
     in base' @ ''/'' @ path')"

definition getApiRoot :: "string \<Rightarrow> string \<Rightarrow> string" where
  "getApiRoot grp version =
    (if grp \<noteq> [] then ''/apis/'' @ grp @ ''/'' @ version else ''api/'' @ version)"

definition buildUrl :: "string + string list \<Rightarrow> query_parameters option \<Rightarrow> string" where
  "buildUrl urlOrParts qp =
    (let url = (case urlOrParts of Inl s \<Rightarrow> s | Inr parts \<Rightarrow> js_join ''/'' (filter (\<lambda>p. p \<noteq> []) parts))
     in url @ asQuery qp)"

section \<open>makeUrl.ts\<close>

text \<open>\<^verbatim>\<open>s.replace(/([^:]\/)\/+/g, '$1')\<close>: scanning from the left, a slash that follows any
  character but a colon swallows the slashes after it.\<close>

function squeeze :: "string \<Rightarrow> string" where
  "squeeze (c # d # e # s) =
     (if c \<noteq> CHR '':'' \<and> d = CHR ''/'' \<and> e = CHR ''/''
      then c # d # squeeze (dropWhile (\<lambda>x. x = CHR ''/'') s)
      else c # squeeze (d # e # s))"
| "squeeze [c, d] = [c, d]"
| "squeeze [c] = [c]"
| "squeeze [] = []"
  by pat_completeness auto
termination
  by (relation "measure length") (auto simp: less_Suc_eq_le le_SucI length_dropWhile_le)

definition makeUrl :: "string + string list \<Rightarrow> (string, string) dict \<Rightarrow> string" where
  "makeUrl urlParts query =
    (let url = (case urlParts of Inl s \<Rightarrow> s | Inr parts \<Rightarrow> js_join ''/'' (filter (\<lambda>p. p \<noteq> []) parts));
         queryString = search_params query;
         fullUrl = (if queryString \<noteq> [] then url @ ''?'' @ queryString else url)
     in squeeze fullUrl)"

section \<open>Decoding\<close>

text \<open>The parser that the server applies to a query string: it undoes the form encoding.\<close>

definition utf8_head :: "nat \<Rightarrow> nat \<Rightarrow> char" where
  "utf8_head a b = char_of ((a - 192) * 64 + (b - 128))"

definition unhex :: "char \<Rightarrow> char \<Rightarrow> nat" where
  "unhex a b = (case (hex_val a, hex_val b) of (Some x, Some y) \<Rightarrow> 16 * x + y | _ \<Rightarrow> 0)"

fun form_decode :: "string \<Rightarrow> string" where
  "form_decode [] = []"
| "form_decode (c # s) =
     (if c = CHR ''+'' then CHR '' '' # form_decode s
      else if c = CHR ''%'' then
        (case s of
           x # y # r \<Rightarrow>
             if unhex x y < 128 then char_of (unhex x y) # form_decode r
             else (case r of p # u # v # t \<Rightarrow> utf8_head (unhex x y) (unhex u v) # form_decode t | _ \<Rightarrow> [])
         | _ \<Rightarrow> [])
      else c # form_decode s)"

lemma hex_val_digit: "n < 16 \<Longrightarrow> hex_val (hex_digit n) = Some n"
  by (simp add: hex_val_def hex_digit_def is_digit_def digit_val_def code_unit_def)

lemma unhex_percent: "b < 256 \<Longrightarrow> unhex (hex_digit (b div 16)) (hex_digit (b mod 16)) = b"
  by (simp add: unhex_def hex_val_digit)

lemma code_unit_less [simp]: "code_unit c < 256"
  by (simp add: code_unit_def)

lemma char_of_code_unit [simp]: "char_of (code_unit c) = c"
  by (simp add: code_unit_def)

lemma form_decode_char:
  "form_decode ((if form_safe c then [c] else if c = CHR '' '' then ''+''
     else concat (map percent (utf8 c))) @ s) = c # form_decode s"
proof (cases "form_safe c \<or> c = CHR '' ''")
  case True
  have "\<not> form_safe CHR ''+''" "\<not> form_safe CHR ''%''" by code_simp+
  with True show ?thesis by auto
next
  case False
  show ?thesis
  proof (cases "code_unit c < 128")
    case True
    with False show ?thesis by (simp add: utf8_def percent_def unhex_percent)
  next
    case big: False
    have "code_unit c div 64 < 4" using code_unit_less [of c] by (simp add: less_mult_imp_div_less)
    then have "utf8_head (192 + code_unit c div 64) (128 + code_unit c mod 64) = c"
      by (simp add: utf8_head_def)
    moreover have "192 + code_unit c div 64 < 256" "128 + code_unit c mod 64 < 256"
      using \<open>code_unit c div 64 < 4\<close> by simp_all
    ultimately show ?thesis using False big
      by (simp add: utf8_def Let_def percent_def unhex_percent)
  qed
qed

lemma form_encode_Cons:
  "form_encode (c # s) = (if form_safe c then [c] else if c = CHR '' '' then ''+''
     else concat (map percent (utf8 c))) @ form_encode s"
  by (simp add: form_encode_def)

lemma form_decode_encode: "form_decode (form_encode s) = s"
proof (induction s)
  case (Cons c s)
  with form_decode_char [of c "form_encode s"] show ?case by (simp only: form_encode_Cons)
qed (simp add: form_encode_def)

definition form_char :: "char \<Rightarrow> bool" where
  "form_char c = (c \<noteq> CHR ''&'' \<and> c \<noteq> CHR ''='')"

lemma hex_digit_form_char: "form_char (hex_digit (n mod 16))"
proof -
  have "n mod 16 \<in> set [0..<16]" by simp
  moreover have "list_all (\<lambda>n. form_char (hex_digit n)) [0..<16]" by code_simp
  ultimately show ?thesis by (metis list_all_iff)
qed

lemma percent_form_chars: "b < 256 \<Longrightarrow> list_all form_char (percent b)"
  using hex_digit_form_char [of "b div 16"] hex_digit_form_char [of b]
  by (simp add: percent_def form_char_def)

lemma utf8_less: "b \<in> set (utf8 c) \<Longrightarrow> b < 256"
proof -
  have "code_unit c div 64 < 4" by (simp add: less_mult_imp_div_less)
  then show "b \<in> set (utf8 c) \<Longrightarrow> b < 256"
    using mod_less_divisor [of 64 "code_unit c"] by (auto simp: utf8_def Let_def split: if_splits)
qed

lemma form_encode_chars: "list_all form_char (form_encode s)"
proof (induction s)
  case (Cons c s)
  have "\<not> form_safe CHR ''&''" "\<not> form_safe CHR ''=''" by code_simp+
  then have "form_safe c \<Longrightarrow> form_char c" by (auto simp: form_char_def)
  moreover have "list_all form_char (concat (map percent (utf8 c)))"
    using percent_form_chars utf8_less by (fastforce simp: list_all_iff)
  moreover have "form_char CHR ''+''" by (simp add: form_char_def)
  ultimately show ?case using Cons by (simp add: form_encode_Cons)
qed (simp add: form_encode_def)

text \<open>How a server reads a query string: pairs separated by \<open>&\<close>, each split at its first
  \<open>=\<close>, both sides decoded.\<close>

definition parse_pair :: "string \<Rightarrow> string \<times> string" where
  "parse_pair p = (case split_first ''='' p of
     None \<Rightarrow> (form_decode p, []) | Some (k, v) \<Rightarrow> (form_decode k, form_decode v))"

definition parse_query :: "string \<Rightarrow> (string \<times> string) list" where
  "parse_query s = map parse_pair (filter (\<lambda>p. p \<noteq> []) (js_split ''&'' s))"

lemma parse_pair_encoded: "parse_pair (form_encode k @ ''='' @ form_encode v) = (k, v)"
proof -
  have "CHR ''='' \<notin> set (form_encode k)"
    using form_encode_chars [of k] by (auto simp: list_all_iff form_char_def)
  then show ?thesis by (simp add: parse_pair_def split_first_char form_decode_encode)
qed

lemma parse_search_params: "d \<noteq> [] \<Longrightarrow> parse_query (search_params d) = d"
proof -
  assume d: "d \<noteq> []"
  let ?pair = "\<lambda>(k, v). form_encode k @ ''='' @ form_encode v"
  have "\<forall>x \<in> set (map ?pair d). CHR ''&'' \<notin> set x"
    using form_encode_chars by (fastforce simp: list_all_iff form_char_def)
  then have "js_split ''&'' (search_params d) = map ?pair d"
    using d by (simp only: search_params_def js_split_join map_is_Nil_conv not_False_eq_True)
  moreover have "filter (\<lambda>p. p \<noteq> []) (map ?pair d) = map ?pair d"
    by (auto simp: filter_id_conv)
  moreover have "map parse_pair (map ?pair d) = d"
    by (induction d) (auto simp: parse_pair_encoded [simplified])
  ultimately show ?thesis by (simp add: parse_query_def)
qed

text \<open>The query string of a request carries its parameters: a server that reads it gets
  the same names in the same order with the same values, whatever characters they have (and
  nothing when there are none).\<close>

theorem asQuery_roundtrip:
  "parse_query (drop 1 (asQuery (Some q))) = map (\<lambda>(k, v). (k, param_text v)) q"
proof (cases "q = []")
  case True
  have "parse_query [] = []" by code_simp
  with True show ?thesis by (simp add: asQuery_def)
next
  case False
  then show ?thesis by (simp add: asQuery_def parse_search_params Let_def)
qed

text \<open>\<open>combinePath\<close> puts exactly one slash at the joint, whether or not the two sides
  have one there already.\<close>

theorem combinePath_one_slash:
  assumes "base = [] \<or> last base \<noteq> CHR ''/''" and "path = [] \<or> hd path \<noteq> CHR ''/''"
    and "b \<in> {base, base @ ''/''}" and "p \<in> {path, CHR ''/'' # path}"
  shows "combinePath b p = base @ ''/'' @ path"
proof -
  have "ends_with b ''/'' \<longleftrightarrow> b = base @ ''/''"
    using assms(1,3) by (auto simp: ends_with_def suffix_def)
  moreover have "starts_with p ''/'' \<longleftrightarrow> p = CHR ''/'' # path"
    using assms(2,4) by (auto simp: starts_with_def prefix_def)
  ultimately show ?thesis using assms(3,4) by (auto simp: combinePath_def)
qed

theorem combinePath_one_slash_witness:
  "combinePath ''/clusters/c/'' ''/api/v1/pods'' = ''/clusters/c/api/v1/pods''"
  using combinePath_one_slash [of "''/clusters/c''" "''api/v1/pods''" "''/clusters/c/''" "''/api/v1/pods''"]
  by simp

lemma squeeze_hd: "\<exists>t. squeeze (c # s) = c # t"
  by (cases s; cases "tl s") auto

lemma squeeze_hd2: "\<exists>t. squeeze (c # d # s) = c # d # t"
  using squeeze_hd [of d] by (cases s) auto

lemma no_slash_hd: "dropWhile (\<lambda>x. x = CHR ''/'') s = e # t \<Longrightarrow> e \<noteq> CHR ''/''"
  by (metis (mono_tags, lifting) hd_dropWhile list.sel(1) list.distinct(1))

lemma sublist3_Cons: "sublist [a, b, c] (x # xs) \<longleftrightarrow> (\<exists>t. x # xs = a # b # c # t) \<or> sublist [a, b, c] xs"
  by (simp add: sublist_Cons_right prefix_def)

lemma squeeze_no_triple:
  "x \<noteq> CHR '':'' \<Longrightarrow> \<not> sublist [x, CHR ''/'', CHR ''/''] (squeeze s)"
proof (induction s arbitrary: x rule: squeeze.induct)
  case (1 c d e s)
  show ?case
  proof (cases "c \<noteq> CHR '':'' \<and> d = CHR ''/'' \<and> e = CHR ''/''")
    case True
    let ?r = "dropWhile (\<lambda>x. x = CHR ''/'') s"
    have r: "\<not> sublist [x, CHR ''/'', CHR ''/''] (squeeze ?r)"
      using 1 True by blast
    have sq: "squeeze (c # d # e # s) = c # CHR ''/'' # squeeze ?r" using True by simp
    show ?thesis
    proof (cases ?r)
      case Nil
      then show ?thesis unfolding sq Nil by (simp add: sublist3_Cons)
    next
      case (Cons f t)
      then obtain u where u: "squeeze ?r = f # u" using squeeze_hd by metis
      show ?thesis using r no_slash_hd [OF Cons] unfolding sq u by (simp add: sublist3_Cons)
    qed
  next
    case False
    obtain t where t: "squeeze (d # e # s) = d # e # t" using squeeze_hd2 by metis
    have n: "\<not> sublist [x, CHR ''/'', CHR ''/''] (d # e # t)"
      using 1 False t by metis
    have "squeeze (c # d # e # s) = c # d # e # t"
      unfolding squeeze.simps(1) [of c] t [symmetric] using False by (simp only: if_False)
    with False 1(3) n show ?thesis by (simp only: sublist3_Cons) auto
  qed
qed (simp_all add: sublist3_Cons)

text \<open>The URL that \<open>makeUrl\<close> returns has no doubled slash behind any character but a
  colon, so joining parts that bring their own slashes leaves the path clean and the
  \<open>://\<close> of the protocol as it is.\<close>

theorem makeUrl_no_doubled_slash:
  "\<not> (\<exists>c. c \<noteq> CHR '':'' \<and> sublist [c, CHR ''/'', CHR ''/''] (makeUrl parts query))"
  using squeeze_no_triple by (simp add: makeUrl_def Let_def) blast

end
