(* ===== verification/JsDate.thy ===== *)
theory JsDate
  imports JsPrelude
begin

text \<open>
  What the program uses of \<open>Date\<close>: reading a timestamp text into milliseconds since 1970.

  The texts are those of ECMAScript's date time format, which covers what the Kubernetes API
  sends: a date, or a date and a time of day with minutes, optional seconds and fraction, and
  a zone (\<open>Z\<close> or an offset). Anything else is \<open>NaN\<close>: other spellings are left to the
  implementation by the standard, and a time of day without a zone is local time, which no
  server sends. The day of the month is only checked to be at most 31, and a day past the end
  of its month runs into the next one.
\<close>

text \<open>Days since 1970 of the first of March of a year is a closed form; January and February
  belong to the year before.\<close>

definition days_from_civil :: "int \<Rightarrow> int \<Rightarrow> int \<Rightarrow> int" where
  "days_from_civil y m d =
    (let y' = (if m \<le> 2 then y - 1 else y); mp = (m + 9) mod 12
     in 365 * y' + y' div 4 - y' div 100 + y' div 400 + (153 * mp + 2) div 5 + (d - 1) - 719468)"

definition digits_n :: "nat \<Rightarrow> string \<Rightarrow> (int \<times> string) option" where
  "digits_n n s = (if length (take n s) = n \<and> list_all is_digit (take n s)
     then Some (int (dec_val (take n s)), drop n s) else None)"

definition expect :: "char \<Rightarrow> string \<Rightarrow> string option" where
  "expect c s = (case s of [] \<Rightarrow> None | x # r \<Rightarrow> if x = c then Some r else None)"

text \<open>A separator and two digits.\<close>

definition field2 :: "char \<Rightarrow> string \<Rightarrow> (int \<times> string) option" where
  "field2 c s = Option.bind (expect c s) (digits_n 2)"

text \<open>Milliseconds of the digits after the decimal point: the first three count.\<close>

definition frac_ms :: "string \<Rightarrow> int" where
  "frac_ms ds = int (dec_val (take 3 (ds @ ''00'')))"

definition parse_frac :: "string \<Rightarrow> (int \<times> string) option" where
  "parse_frac s = (case expect CHR ''.'' s of
       None \<Rightarrow> Some (0, s)
     | Some r \<Rightarrow> let ds = takeWhile is_digit r
                 in if ds = [] then None else Some (frac_ms ds, dropWhile is_digit r))"

text \<open>The offset of the zone in minutes; it ends the text.\<close>

definition parse_zone :: "string \<Rightarrow> int option" where
  "parse_zone s = (case s of [] \<Rightarrow> None
     | c # r \<Rightarrow>
         if c = CHR ''Z'' then (if r = [] then Some 0 else None)
         else if c = CHR ''+'' \<or> c = CHR ''-''
         then Option.bind (digits_n 2 r) (\<lambda>(h, r1). Option.bind (field2 CHR '':'' r1) (\<lambda>(m, r2).
           if r2 = [] \<and> h \<le> 23 \<and> m \<le> 59
           then Some ((if c = CHR ''-'' then -1 else 1) * (60 * h + m)) else None))
         else None)"

text \<open>The time of day in milliseconds, less the offset of the zone.\<close>

definition parse_time :: "string \<Rightarrow> js_num" where
  "parse_time s =
    Option.bind (digits_n 2 s) (\<lambda>(hh, r1).
    Option.bind (field2 CHR '':'' r1) (\<lambda>(mi, r2).
    Option.bind (case expect CHR '':'' r2 of
                   None \<Rightarrow> Some (0, 0, r2)
                 | Some r3 \<Rightarrow> Option.bind (digits_n 2 r3) (\<lambda>(ss, r4).
                     map_option (\<lambda>(ms, r5). (ss, ms, r5)) (parse_frac r4))) (\<lambda>(ss, ms, r6).
    Option.bind (parse_zone r6) (\<lambda>off.
      if (hh < 24 \<and> mi \<le> 59 \<and> ss \<le> 59) \<or> (hh = 24 \<and> mi = 0 \<and> ss = 0 \<and> ms = 0)
      then Some (((hh * 60 + mi - off) * 60 + ss) * 1000 + ms) else None))))"

definition date_parse :: "string \<Rightarrow> js_num" where
  "date_parse s =
    Option.bind (digits_n 4 s) (\<lambda>(y, r1).
    Option.bind (field2 CHR ''-'' r1) (\<lambda>(mo, r2).
    Option.bind (field2 CHR ''-'' r2) (\<lambda>(d, r3).
      if 1 \<le> mo \<and> mo \<le> 12 \<and> 1 \<le> d \<and> d \<le> 31
      then let day = 86400000 * days_from_civil y mo d
           in if r3 = [] then Some day
              else map_option (\<lambda>t. day + t) (Option.bind (expect CHR ''T'' r3) parse_time)
      else None)))"

text \<open>\<open>new Date(v).getTime()\<close> for a value of JSON, or \<open>undefined\<close>.\<close>

definition date_ms :: "json option \<Rightarrow> js_num" where
  "date_ms v = (case v of None \<Rightarrow> None | Some JNull \<Rightarrow> Some 0
     | Some (JBool b) \<Rightarrow> Some (if b then 1 else 0) | Some (JNum n) \<Rightarrow> Some n
     | Some (JStr s) \<Rightarrow> date_parse s | Some j \<Rightarrow> date_parse (json_str j))"

lemma date_parse_epoch: "date_parse ''1970-01-01T00:00:00Z'' = Some 0"
  by code_simp

lemma date_parse_example: "date_parse ''2024-02-29T12:30:15.250+01:00'' = Some 1709206215250"
  by code_simp

lemma days_next_month: "days_from_civil 2023 2 29 = days_from_civil 2023 3 1"
  by code_simp

end
