(* ===== verification/StreamResults.thy ===== *)
theory StreamResults
  imports WatchStore Urls JsDate "HOL-Library.Multiset"
begin

text \<open>
  The older streaming API, \<^verbatim>\<open>frontend/src/lib/k8s/api/v1/streamingApi.ts\<close>.

  \<open>stream\<close> and \<open>connectStreamWithParams\<close> are a machine: the closure variables of
  \<open>stream\<close>, the connections it made (each with the \<open>isClosing\<close> flag and the
  \<open>WebSocket\<close> of its own closure), the \<open>connectStream\<close> calls still awaited and the
  reconnect timers armed. \<open>streamResultsForCluster\<close> runs on top of it: its \<open>results\<close>
  record, the updates that come through the socket, and what it pushes to its callback.

  The callbacks of the caller are logs. Logging to the console is left out. The request
  itself, \<open>findKubeconfigByClusterName\<close> and the parser of the messages are outside.
\<close>

section \<open>One stream and its reconnects\<close>

record stream_args =
  isJson :: bool
  additionalProtocols :: "string list"
  has_failCb :: bool
  reconnect_arg :: "bool option"
  arg_cluster :: string

text \<open>A default applies when the argument is \<open>undefined\<close>.\<close>

definition reconnectOnFailure :: "stream_args \<Rightarrow> bool" where
  "reconnectOnFailure a = (case reconnect_arg a of None \<Rightarrow> \<not> has_failCb a | Some b \<Rightarrow> b)"

text \<open>A \<open>StreamConnection\<close>: the flag of its closure, and whether \<open>new WebSocket\<close> made a
  socket.\<close>

record connection =
  isClosing :: bool
  has_socket :: bool

record stream_world =
  connection :: "nat option"
  isCancelled :: bool
  conns :: "connection list"
  awaited :: nat
  retry_timers :: nat
  failCalls :: nat
  connectCalls :: nat

text \<open>\<open>connect\<close> up to its \<open>await\<close>, and the call of \<open>stream\<close>, which runs it.\<close>

definition stream_connect :: "stream_world \<Rightarrow> stream_world" where
  [state_defs]: "stream_connect w = w\<lparr>connectCalls := connectCalls w + 1, awaited := awaited w + 1\<rparr>"

definition stream_start :: stream_world where
  [state_defs]: "stream_start = stream_connect
    \<lparr>connection = None, isCancelled = False, conns = [], awaited = 0, retry_timers = 0,
     failCalls = 0, connectCalls = 0\<rparr>"

text \<open>\<open>retryOnFail\<close> and \<open>onFail\<close>.\<close>

definition retryOnFail :: "stream_args \<Rightarrow> stream_world \<Rightarrow> stream_world" where
  [state_defs]: "retryOnFail a w =
    (if isCancelled w then w
     else if reconnectOnFailure a then w\<lparr>retry_timers := retry_timers w + 1\<rparr> else w)"

definition onFail :: "stream_args \<Rightarrow> stream_world \<Rightarrow> stream_world" where
  [state_defs]: "onFail a w =
    (let w' = (if has_failCb a then w\<lparr>failCalls := failCalls w + 1\<rparr> else w)
     in if reconnectOnFailure a then retryOnFail a w' else w')"

definition conn_close :: "nat \<Rightarrow> stream_world \<Rightarrow> stream_world" where
  [state_defs]: "conn_close i w = w\<lparr>conns := (conns w)[i := (conns w ! i)\<lparr>isClosing := True\<rparr>]\<rparr>"

definition stream_cancel :: "stream_world \<Rightarrow> stream_world" where
  [state_defs]: "stream_cancel w =
    (case connection w of None \<Rightarrow> w | Some i \<Rightarrow> conn_close i w)\<lparr>isCancelled := True\<rparr>"

text \<open>The rest of an awaited \<open>connectStream\<close>, and the assignment of its result: the
  WebSocket constructor succeeds or throws, and either way a connection is returned. What
  follows the \<open>await\<close>s runs without another task in between.\<close>

definition stream_connected :: "bool \<Rightarrow> stream_world \<Rightarrow> stream_world" where
  [state_defs]: "stream_connected ctor_ok w =
    w\<lparr>awaited := awaited w - 1,
      conns := conns w @ [\<lparr>isClosing = False, has_socket = ctor_ok\<rparr>],
      connection := Some (length (conns w))\<rparr>"

text \<open>The protocols and the address given to the constructor. The lookup of the kubeconfig
  fails, finds nothing or finds one; without a cluster the address stays empty.\<close>

definition stream_protocols :: "stream_args \<Rightarrow> string \<Rightarrow> (js_error + bool) \<Rightarrow> string list" where
  "stream_protocols a userID found =
    [''base64.binary.k8s.io''] @ additionalProtocols a @
    (if arg_cluster a \<noteq> [] \<and> found = Inr True
     then [''base64url.headlamp.authorization.k8s.io.'' @ userID] else [])"

definition stream_url :: "string \<Rightarrow> stream_args \<Rightarrow> string \<Rightarrow> string" where
  "stream_url baseWsUrl a pth =
    (if arg_cluster a \<noteq> []
     then combinePath baseWsUrl (combinePath (''/clusters/'' @ arg_cluster a) pth) else [])"

text \<open>\<open>onMessage\<close>: what is passed to the callback, if anything. A message that does not
  parse throws.\<close>

definition conn_message ::
  "(string \<Rightarrow> json option) \<Rightarrow> stream_args \<Rightarrow> nat \<Rightarrow> string \<Rightarrow> stream_world \<Rightarrow> json option" where
  [state_defs]: "conn_message parse a i raw w =
    (if isClosing (conns w ! i) then None else if isJson a then parse raw else Some (JStr raw))"

text \<open>\<open>onClose\<close>\<close>

definition conn_onclose :: "stream_args \<Rightarrow> nat \<Rightarrow> stream_world \<Rightarrow> stream_world" where
  [state_defs]: "conn_onclose a i w =
    (if isClosing (conns w ! i) then w
     else let w' = w\<lparr>conns := (conns w)[i := (conns w ! i)\<lparr>isClosing := True\<rparr>]\<rparr>
          in if \<not> has_socket (conns w ! i) then w' else onFail a w')"

datatype stream_event = SConnected bool | SMessage nat string | SClosed nat | STimer | SCancel

text \<open>An event is possible only when there is something behind it: an awaited call, a
  connection with a socket, an armed timer.\<close>

fun stream_enabled :: "stream_world \<Rightarrow> stream_event \<Rightarrow> bool" where
  "stream_enabled w (SConnected ok) = (0 < awaited w)"
| "stream_enabled w (SMessage i raw) = (i < length (conns w) \<and> has_socket (conns w ! i))"
| "stream_enabled w (SClosed i) = (i < length (conns w) \<and> has_socket (conns w ! i))"
| "stream_enabled w STimer = (0 < retry_timers w)"
| "stream_enabled w SCancel = True"

fun stream_handle :: "stream_args \<Rightarrow> stream_world \<Rightarrow> stream_event \<Rightarrow> stream_world" where
  "stream_handle a w (SConnected ok) = stream_connected ok w"
| "stream_handle a w (SMessage i raw) = w"
| "stream_handle a w (SClosed i) = conn_onclose a i w"
| "stream_handle a w STimer = stream_connect (w\<lparr>retry_timers := retry_timers w - 1\<rparr>)"
| "stream_handle a w SCancel = stream_cancel w"

definition stream_step :: "stream_args \<Rightarrow> stream_world \<Rightarrow> stream_event \<Rightarrow> stream_world" where
  [state_defs]: "stream_step a w e = (if stream_enabled w e then stream_handle a w e else w)"

text \<open>What the callback is given on an event.\<close>

definition stream_output ::
  "(string \<Rightarrow> json option) \<Rightarrow> stream_args \<Rightarrow> stream_world \<Rightarrow> stream_event \<Rightarrow> json option" where
  [state_defs]: "stream_output parse a w e =
    (case e of SMessage i raw \<Rightarrow> if stream_enabled w e then conn_message parse a i raw w else None
     | _ \<Rightarrow> None)"

section \<open>The results of a watched collection\<close>

text \<open>An object is its own properties; assigning one is \<open>dict_set\<close>.\<close>

type_synonym kobj = "(string, json) dict"

text \<open>\<open>object.metadata.k\<close>: reading it throws when there is no metadata.\<close>

definition meta_prop :: "kobj \<Rightarrow> string \<Rightarrow> js_error + json option" where
  "meta_prop ob k = (case dict_get ob ''metadata'' of None \<Rightarrow> Inl TypeError | Some m \<Rightarrow> jprop m k)"

text \<open>A value used as a property name.\<close>

definition prop_name :: "json option \<Rightarrow> string" where
  "prop_name v = (case v of None \<Rightarrow> ''undefined'' | Some j \<Rightarrow> json_str j)"

definition obj_key :: "kobj \<Rightarrow> js_error + string" where
  "obj_key ob = (case meta_prop ob ''uid'' of Inl e \<Rightarrow> Inl e | Inr v \<Rightarrow> Inr (prop_name v))"

record stream_results =
  results :: "(string, kobj) dict"
  pushed :: "kobj list list"

text \<open>\<open>maxResources\<close>: \<open>limit\<close> as a number, or its text read by \<open>parseInt\<close>; \<open>-1\<close> without one.\<close>

definition max_resources :: "query_parameters option \<Rightarrow> js_num" where
  "max_resources qp =
    (case Option.bind qp (\<lambda>q. dict_get q ''limit'') of
       None \<Rightarrow> Some (-1) | Some (PNum n) \<Rightarrow> Some n | Some (PStr s) \<Rightarrow> parse_int s)"

text \<open>The time by which \<open>push\<close> sorts. (Every object that is stored has a metadata, since its
  uid was read there; the \<open>Inl\<close> branch is never taken.)\<close>

definition obj_time :: "kobj \<Rightarrow> js_num" where
  "obj_time ob =
    (if jtruthy (dict_get ob ''lastTimestamp'') then date_ms (dict_get ob ''lastTimestamp'')
     else case meta_prop ob ''creationTimestamp'' of Inl e \<Rightarrow> None | Inr v \<Rightarrow> date_ms v)"

definition push_values :: "js_num \<Rightarrow> kobj list \<Rightarrow> kobj list" where
  "push_values maxResources values =
    (if num_less (Some 0) maxResources \<and> num_less maxResources (Some (int (length values)))
     then drop (nat (int (length values) - the maxResources))
            (js_sort (\<lambda>a b. num_sub (Some 0) (num_sub (obj_time a) (obj_time b))) values)
     else values)"

definition push :: "js_num \<Rightarrow> stream_results \<Rightarrow> stream_results" where
  [state_defs]: "push maxResources s =
    s\<lparr>pushed := pushed s @ [push_values maxResources (dict_values (results s))]\<rparr>"

text \<open>\<open>add\<close>: the items of the list answer, each given the kind of the list without its last
  four letters. An item without metadata throws out of the loop.\<close>

fun add_items :: "string \<Rightarrow> kobj list \<Rightarrow> (string, kobj) dict \<Rightarrow> js_error option \<times> (string, kobj) dict" where
  "add_items fixedKind [] rs = (None, rs)"
| "add_items fixedKind (item # its) rs =
     (let item' = dict_set ''kind'' (JStr fixedKind) item
      in case obj_key item' of Inl e \<Rightarrow> (Some e, rs)
         | Inr k \<Rightarrow> add_items fixedKind its (dict_set k item' rs))"

definition add :: "js_num \<Rightarrow> kobj list \<Rightarrow> string \<Rightarrow> stream_results \<Rightarrow> js_error option \<times> stream_results" where
  [state_defs]: "add maxResources its kind s =
    (case add_items (take (length kind - 4) kind) its (results s) of
       (Some e, rs) \<Rightarrow> (Some e, s\<lparr>results := rs\<rparr>)
     | (None, rs) \<Rightarrow> (None, push maxResources (s\<lparr>results := rs\<rparr>)))"

text \<open>The \<open>MODIFIED\<close> branch for an object that is known: only a newer version is merged in,
  property by property (\<open>Object.assign\<close>).\<close>

definition merge_object :: "kobj \<Rightarrow> kobj \<Rightarrow> kobj" where
  "merge_object existing ob = fold (\<lambda>(k, v). dict_set k v) ob existing"

definition resource_version :: "kobj \<Rightarrow> js_num" where
  "resource_version ob =
    (case meta_prop ob ''resourceVersion'' of
       Inl e \<Rightarrow> None
     | Inr v \<Rightarrow> if jtruthy v then parse_int10 (json_str (the v)) else None)"

definition modify_object :: "kobj \<Rightarrow> kobj \<Rightarrow> kobj" where
  "modify_object existing ob =
    (if num_less (resource_version existing) (resource_version ob)
     then merge_object existing ob else existing)"

definition type_name :: "update_type \<Rightarrow> string" where
  "type_name t = (case t of ADDED \<Rightarrow> ''ADDED'' | MODIFIED \<Rightarrow> ''MODIFIED'' | DELETED \<Rightarrow> ''DELETED''
     | ERROR \<Rightarrow> ''ERROR'' | Unknown s \<Rightarrow> s)"

text \<open>The \<open>switch\<close> of \<open>update\<close>: the new \<open>results\<close>, or the exception.\<close>

definition apply_type :: "update_type \<Rightarrow> kobj \<Rightarrow> (string, kobj) dict \<Rightarrow> js_error + (string, kobj) dict" where
  [state_defs]: "apply_type ty ob rs =
    (case ty of
       ADDED \<Rightarrow> (case obj_key ob of Inl e \<Rightarrow> Inl e | Inr k \<Rightarrow> Inr (dict_set k ob rs))
     | MODIFIED \<Rightarrow> (case obj_key ob of Inl e \<Rightarrow> Inl e
         | Inr k \<Rightarrow> (case dict_get rs k of
              Some existing \<Rightarrow> Inr (dict_set k (modify_object existing ob) rs)
            | None \<Rightarrow> Inr (dict_set k ob rs)))
     | DELETED \<Rightarrow> (case obj_key ob of Inl e \<Rightarrow> Inl e | Inr k \<Rightarrow> Inr (dict_delete k rs))
     | ERROR \<Rightarrow> Inr rs
     | Unknown _ \<Rightarrow> Inr rs)"

definition update :: "js_num \<Rightarrow> update_type \<times> kobj \<Rightarrow> stream_results \<Rightarrow> stream_results" where
  [state_defs]: "update maxResources u s =
    (let ob = dict_set ''actionType'' (JStr (type_name (fst u))) (snd u)
     in case apply_type (fst u) ob (results s) of
          Inl e \<Rightarrow> s
        | Inr rs \<Rightarrow> push maxResources (s\<lparr>results := rs\<rparr>))"

section \<open>Watching a collection and an object\<close>

record list_answer =
  ans_kind :: string
  ans_items :: "kobj list"
  ans_version :: "json option"

text \<open>The closure of \<open>streamResultsForCluster\<close>. \<open>running\<close>: \<open>run\<close> still awaits the answer.\<close>

record watch_world = stream_results +
  w_cancelled :: bool
  running :: bool
  w_socket :: "(string \<times> stream_world) option"
  errCalls :: nat

definition watch_start :: watch_world where
  [state_defs]: "watch_start = \<lparr>results = [], pushed = [], w_cancelled = False, running = True,
     w_socket = None, errCalls = 0\<rparr>"

definition watch_url :: "string \<Rightarrow> query_parameters option \<Rightarrow> json option \<Rightarrow> string" where
  "watch_url url qp v =
    url @ asQuery (Some (dict_set ''resourceVersion'' (PStr (prop_name v))
      (dict_set ''watch'' (PStr ''1'') (case qp of None \<Rightarrow> [] | Some q \<Rightarrow> q))))"

definition watch_args :: "string \<Rightarrow> stream_args" where
  "watch_args cluster = \<lparr>isJson = True, additionalProtocols = [], has_failCb = False,
     reconnect_arg = None, arg_cluster = cluster\<rparr>"

text \<open>The fields of \<open>stream_results\<close> inside the bigger record.\<close>

definition on_results :: "(stream_results \<Rightarrow> stream_results) \<Rightarrow> watch_world \<Rightarrow> watch_world" where
  [state_defs]: "on_results f w =
    (let r = f \<lparr>results = results w, pushed = pushed w\<rparr>
     in w\<lparr>results := results r, pushed := pushed r\<rparr>)"

definition watch_answer ::
  "string \<Rightarrow> query_parameters option \<Rightarrow> (js_error + list_answer) \<Rightarrow> watch_world \<Rightarrow> watch_world" where
  [state_defs]: "watch_answer url qp ans w0 =
    (let w = w0\<lparr>running := False\<rparr>; m = max_resources qp
     in case ans of
          Inl e \<Rightarrow> w\<lparr>errCalls := errCalls w + 1\<rparr>
        | Inr r \<Rightarrow>
            if w_cancelled w then w
            else let added = add m (ans_items r) (ans_kind r) \<lparr>results = results w, pushed = pushed w\<rparr>;
                     w' = on_results (\<lambda>_. snd added) w
                 in case fst added of
                      Some e \<Rightarrow> w'\<lparr>errCalls := errCalls w' + 1\<rparr>
                    | None \<Rightarrow> w'\<lparr>w_socket := Some (watch_url url qp (ans_version r), stream_start)\<rparr>)"

definition watch_cancel :: "watch_world \<Rightarrow> watch_world" where
  [state_defs]: "watch_cancel w =
    (if w_cancelled w then w
     else let w' = w\<lparr>w_cancelled := True\<rparr>
          in case w_socket w' of None \<Rightarrow> w'
             | Some (u, st) \<Rightarrow> w'\<lparr>w_socket := Some (u, stream_cancel st)\<rparr>)"

text \<open>An update as the socket delivers it: the type and the properties of the object.
  Anything of another shape makes \<open>update\<close> throw or do nothing to the results.\<close>

definition read_type :: "json option \<Rightarrow> update_type" where
  "read_type v = (case v of Some (JStr s) \<Rightarrow>
       if s = ''ADDED'' then ADDED else if s = ''MODIFIED'' then MODIFIED
       else if s = ''DELETED'' then DELETED else if s = ''ERROR'' then ERROR else Unknown s
     | _ \<Rightarrow> Unknown (prop_name v))"

definition read_update :: "json \<Rightarrow> (update_type \<times> kobj) option" where
  "read_update j = (case j of
       JObj fs \<Rightarrow> (case map_of fs ''object'' of
           Some (JObj ob) \<Rightarrow> Some (read_type (map_of fs ''type''), ob) | _ \<Rightarrow> None)
     | _ \<Rightarrow> None)"

definition watch_stream_event ::
  "(string \<Rightarrow> json option) \<Rightarrow> string \<Rightarrow> js_num \<Rightarrow> stream_event \<Rightarrow> watch_world \<Rightarrow> watch_world" where
  [state_defs]: "watch_stream_event parse cluster m e w =
    (case w_socket w of
       None \<Rightarrow> w
     | Some (u, st) \<Rightarrow>
         let a = watch_args cluster; w' = w\<lparr>w_socket := Some (u, stream_step a st e)\<rparr>
         in case Option.bind (stream_output parse a st e) read_update of
              None \<Rightarrow> w'
            | Some up \<Rightarrow> on_results (update m up) w')"

datatype watch_event = WAnswer "js_error + list_answer" | WCancel | WStream stream_event

fun watch_step ::
  "(string \<Rightarrow> json option) \<Rightarrow> string \<Rightarrow> string \<Rightarrow> query_parameters option \<Rightarrow> watch_world \<Rightarrow> watch_event \<Rightarrow> watch_world" where
  "watch_step parse url cluster qp w (WAnswer ans) = (if running w then watch_answer url qp ans w else w)"
| "watch_step parse url cluster qp w WCancel = watch_cancel w"
| "watch_step parse url cluster qp w (WStream e) =
     (if e = SCancel then w else watch_stream_event parse cluster (max_resources qp) e w)"

section \<open>Streams: at most one live connection\<close>

text \<open>A connection can still deliver or reconnect as long as it has a socket and is not
  closing.\<close>

definition live :: "connection \<Rightarrow> bool" where
  "live c = (has_socket c \<and> \<not> isClosing c)"

definition lives :: "connection list \<Rightarrow> nat" where
  "lives cs = length (filter live cs)"

definition chances :: "stream_world \<Rightarrow> nat" where
  "chances w = lives (conns w) + awaited w + retry_timers w"

definition in_range :: "nat option \<Rightarrow> nat \<Rightarrow> bool" where
  "in_range c n = (case c of None \<Rightarrow> True | Some i \<Rightarrow> i < n)"

lemma in_range_simps [simp]: "in_range None n" "in_range (Some i) n \<longleftrightarrow> i < n"
  by (simp_all add: in_range_def)

definition stream_inv :: "stream_world \<Rightarrow> bool" where
  [inv_defs]: "stream_inv w \<longleftrightarrow> chances w \<le> 1 \<and>
     in_range (connection w) (length (conns w)) \<and>
     (\<forall>i < length (conns w). live (conns w ! i) \<longrightarrow> connection w = Some i)"

lemma live_closed [simp]: "\<not> live (c\<lparr>isClosing := True\<rparr>)"
  by (simp add: live_def)

lemma live_new [simp]: "live \<lparr>isClosing = False, has_socket = b\<rparr> = b"
  by (simp add: live_def)

lemma lives_simps [simp]:
  "lives [] = 0" "lives (cs @ ds) = lives cs + lives ds"
  "lives (c # cs) = (if live c then 1 else 0) + lives cs"
  by (simp_all add: lives_def)

lemma lives_pos: "i < length cs \<Longrightarrow> live (cs ! i) \<Longrightarrow> 0 < lives cs"
  unfolding lives_def by (metis filter_empty_conv length_greater_0_conv nth_mem)

lemma lives_0: "lives cs = 0 \<Longrightarrow> i < length cs \<Longrightarrow> \<not> live (cs ! i)"
  using lives_pos by fastforce

lemma lives_close:
  "i < length cs \<Longrightarrow> lives (cs[i := (cs ! i)\<lparr>isClosing := True\<rparr>]) + (if live (cs ! i) then 1 else 0) = lives cs"
proof (induction cs arbitrary: i)
  case (Cons c cs)
  then show ?case by (cases i) force+
qed simp

lemma nth_update_if: "j < length xs \<Longrightarrow> xs[i := x] ! j = (if i = j then x else xs ! j)"
  by (simp add: nth_list_update)

lemma conn_closed_inv:
  assumes "stream_inv w" and "i < length (conns w)"
  shows "stream_inv (w\<lparr>conns := (conns w)[i := (conns w ! i)\<lparr>isClosing := True\<rparr>]\<rparr>)"
  using assms lives_close [OF assms(2)]
  by (simp add: stream_inv_def chances_def nth_update_if)

lemma onFail_inv:
  assumes "stream_inv w" and "chances w = 0"
  shows "stream_inv (onFail a w)"
  using assms by (simp add: stream_inv_def chances_def onFail_def retryOnFail_def Let_def)

lemma conn_onclose_inv:
  assumes inv: "stream_inv w" and i: "i < length (conns w)"
  shows "stream_inv (conn_onclose a i w)"
proof -
  let ?w = "w\<lparr>conns := (conns w)[i := (conns w ! i)\<lparr>isClosing := True\<rparr>]\<rparr>"
  have inv': "stream_inv ?w" by (rule conn_closed_inv [OF inv i])
  have "chances ?w = 0" if "live (conns w ! i)"
    using inv lives_close [OF i] that by (simp add: stream_inv_def chances_def)
  then have "stream_inv (onFail a ?w)" if "live (conns w ! i)"
    using onFail_inv [OF inv'] that by blast
  with inv inv' show ?thesis by (simp add: conn_onclose_def Let_def live_def)
qed

lemma stream_cancel_inv:
  assumes "stream_inv w"
  shows "stream_inv (stream_cancel w)"
proof -
  have "stream_inv (case connection w of None \<Rightarrow> w | Some i \<Rightarrow> conn_close i w)"
  proof (cases "connection w")
    case None
    with assms show ?thesis by simp
  next
    case (Some i)
    with assms have "i < length (conns w)" by (simp add: stream_inv_def)
    with Some conn_closed_inv [OF assms] show ?thesis by (simp add: conn_close_def)
  qed
  then show ?thesis by (simp add: stream_cancel_def stream_inv_def chances_def)
qed

lemma stream_connected_inv:
  assumes "stream_inv w" and "0 < awaited w"
  shows "stream_inv (stream_connected ok w)"
proof -
  from assms have z: "lives (conns w) = 0" by (simp add: stream_inv_def chances_def)
  with assms lives_0 [OF z] show ?thesis
    by (simp add: stream_connected_def stream_inv_def chances_def nth_append less_Suc_eq)
qed

lemma stream_step_inv:
  assumes "stream_inv w"
  shows "stream_inv (stream_step a w e)"
proof (cases "stream_enabled w e")
  case False
  with assms show ?thesis by (simp add: stream_step_def)
next
  case True
  with assms show ?thesis
  proof (cases e)
    case STimer
    with True assms show ?thesis
      by (simp add: stream_step_def stream_connect_def stream_inv_def chances_def)
  qed (simp_all add: stream_step_def conn_onclose_inv stream_cancel_inv stream_connected_inv)
qed

interpretation streams: reducer "stream_step a" stream_inv
  by unfold_locales (rule stream_step_inv)

lemma stream_start_inv: "stream_inv stream_start"
  by (simp add: stream_start_def stream_connect_def stream_inv_def chances_def)

text \<open>C21: a stream never has more than one connection that can deliver. Through any
  sequence of connects, failures, retries and cancels, at most one of these exists at a time:
  a live connection, an awaited connect, an armed reconnect timer; and a live connection is
  the one that \<open>cancel\<close> and \<open>getSocket\<close> refer to.\<close>

theorem one_live_connection:
  "let w = foldl (stream_step a) stream_start es
   in lives (conns w) + awaited w + retry_timers w \<le> 1 \<and>
      (\<forall>i < length (conns w). live (conns w ! i) \<longrightarrow> connection w = Some i)"
  using streams.run_inv [OF stream_start_inv, of a es]
  by (simp add: Let_def stream_inv_def chances_def)

theorem one_live_connection_witness:
  "let a = \<lparr>isJson = True, additionalProtocols = [], has_failCb = False, reconnect_arg = None, arg_cluster = []\<rparr>;
       w = foldl (stream_step a) stream_start [SConnected True, SClosed 0, STimer, SConnected True]
   in length (conns w) = 2 \<and> lives (conns w) + awaited w + retry_timers w \<le> 1"
proof -
  let ?a = "\<lparr>isJson = True, additionalProtocols = [], has_failCb = False, reconnect_arg = None, arg_cluster = []\<rparr>"
  let ?es = "[SConnected True, SClosed 0, STimer, SConnected True]"
  have "length (conns (foldl (stream_step ?a) stream_start ?es)) = 2" by code_simp
  with one_live_connection [of ?a ?es] show ?thesis by (simp add: Let_def)
qed

text \<open>A stream that can do nothing any more.\<close>

definition quiet :: "stream_world \<Rightarrow> bool" where
  [inv_defs]: "quiet w \<longleftrightarrow> isCancelled w \<and> awaited w = 0 \<and> retry_timers w = 0 \<and>
     (\<forall>i < length (conns w). \<not> live (conns w ! i))"

lemma quiet_step: "quiet w \<Longrightarrow> quiet (stream_step a w e)"
  by (cases e) (auto simp: quiet_def stream_step_def stream_cancel_def conn_close_def conn_onclose_def
      live_def nth_update_if Let_def split: option.splits)

lemma quiet_output: "quiet w \<Longrightarrow> stream_output parse a w e = None"
  by (cases e) (auto simp: quiet_def stream_output_def conn_message_def live_def)

interpretation quiet_streams: reducer "stream_step a" quiet
  by unfold_locales (rule quiet_step)

text \<open>Cancelling a stream while its connection is up is final: whatever happens
  afterwards, the callback gets nothing and no new connection is made.\<close>

theorem cancel_connected_stream_is_final:
  assumes "connection w = Some i" and "i < length (conns w)" and "live (conns w ! i)" and "stream_inv w"
  shows "let v = foldl (stream_step a) (stream_step a w SCancel) es
         in stream_output parse a v e = None \<and> awaited v = 0 \<and> retry_timers v = 0"
proof -
  have "0 < lives (conns w)" using assms lives_pos by blast
  with assms(4) have z: "awaited w = 0" "retry_timers w = 0"
    by (simp_all add: stream_inv_def chances_def)
  have "\<not> live (conns w ! j)" if "j < length (conns w)" "j \<noteq> i" for j
    using assms(1,4) that by (auto simp: stream_inv_def)
  with assms(1) z have "quiet (stream_step a w SCancel)"
    by (simp add: quiet_def stream_step_def stream_cancel_def conn_close_def nth_update_if)
  from quiet_streams.run_inv [OF this, of a es] quiet_output show ?thesis
    by (simp add: Let_def quiet_def)
qed

theorem cancel_connected_stream_is_final_witness:
  "let a = watch_args ''c''; w = stream_step a stream_start (SConnected True);
       v = foldl (stream_step a) (stream_step a w SCancel) [SClosed 0]
   in stream_output (\<lambda>_. Some JNull) a v (SMessage 0 ''x'') = None \<and> retry_timers v = 0"
proof -
  let ?a = "watch_args ''c''"
  let ?w = "stream_step ?a stream_start (SConnected True)"
  have "connection ?w = Some 0" "0 < length (conns ?w)" "live (conns ?w ! 0)" by code_simp+
  from cancel_connected_stream_is_final [OF this, of ?a "[SClosed 0]"] stream_step_inv [OF stream_start_inv]
  show ?thesis by (simp add: Let_def)
qed

text \<open>But cancelling it while a connect is awaited, or while the reconnect timer runs,
  stops nothing: the connection is still made, and its messages still reach the callback of
  the cancelled stream.\<close>

theorem cancel_while_connecting_leaks:
  assumes "connection w = None \<or> the (connection w) < length (conns w)"
  shows "let c = stream_step a w SCancel in (0 < awaited w \<longrightarrow>
      stream_output parse a (stream_step a c (SConnected True)) (SMessage (length (conns w)) raw) =
        (if isJson a then parse raw else Some (JStr raw))) \<and>
    (0 < retry_timers w \<longrightarrow>
      stream_output parse a (stream_step a (stream_step a c STimer) (SConnected True)) (SMessage (length (conns w)) raw) =
        (if isJson a then parse raw else Some (JStr raw)))"
  using assms
  by (auto simp: Let_def stream_step_def stream_output_def stream_cancel_def conn_close_def
      stream_connected_def stream_connect_def conn_message_def nth_append split: option.splits)

theorem cancel_while_connecting_leaks_witness:
  "stream_output (\<lambda>s. Some (JStr s)) (watch_args ''c'')
     (stream_step (watch_args ''c'') (stream_step (watch_args ''c'') stream_start SCancel) (SConnected True))
     (SMessage 0 ''update'') = Some (JStr ''update'')"
  using cancel_while_connecting_leaks [of stream_start "watch_args ''c''" "\<lambda>s. Some (JStr s)" "''update''"]
  by (simp add: Let_def stream_start_def stream_connect_def watch_args_def)

section \<open>Results: each object follows its own events\<close>

definition upd_object :: "update_type \<times> kobj \<Rightarrow> kobj" where
  [state_defs]: "upd_object u = dict_set ''actionType'' (JStr (type_name (fst u))) (snd u)"

definition upd_key :: "update_type \<times> kobj \<Rightarrow> string" where
  "upd_key u = (case obj_key (upd_object u) of Inl e \<Rightarrow> ''undefined'' | Inr k \<Rightarrow> k)"

text \<open>What an update does to the stored object of its uid.\<close>

definition upd_effect :: "update_type \<times> kobj \<Rightarrow> kobj option \<Rightarrow> kobj option" where
  "upd_effect u old =
    (case obj_key (upd_object u) of Inl e \<Rightarrow> old
     | Inr k \<Rightarrow> (case fst u of
         ADDED \<Rightarrow> Some (upd_object u)
       | MODIFIED \<Rightarrow> Some (case old of None \<Rightarrow> upd_object u | Some ex \<Rightarrow> modify_object ex (upd_object u))
       | DELETED \<Rightarrow> None
       | ERROR \<Rightarrow> old
       | Unknown _ \<Rightarrow> old))"

lemma results_push [simp]: "results (push m s) = results s"
  by (simp add: push_def)

lemma update_entry:
  "dict_get (results (update m u s)) k =
    (if k = upd_key u then upd_effect u (dict_get (results s) k) else dict_get (results s) k)"
  by (cases "obj_key (upd_object u)"; cases "fst u")
     (auto simp: update_def apply_type_def upd_key_def upd_effect_def upd_object_def Let_def
       split: option.split)

lemma update_wf: "dict_wf (results s) \<Longrightarrow> dict_wf (results (update m u s))"
  by (cases "obj_key (upd_object u)"; cases "fst u")
     (auto simp: update_def apply_type_def upd_object_def Let_def split: option.split)

interpretation sresults: local_store "\<lambda>s. dict_get (results s)" "\<lambda>s u. update m u s"
  "\<lambda>s. dict_wf (results s)" upd_key "\<lambda>s. upd_effect" upd_effect
  by unfold_locales (simp_all add: update_wf update_entry)

text \<open>Whatever the order in which the watch sends its updates, the stored object of a uid
  is what the updates of that very object make of it, one after the other; updates of other
  objects never touch it.\<close>

theorem stored_object_follows_its_updates:
  assumes "dict_wf (results s)"
  shows "dict_get (results (foldl (\<lambda>s u. update m u s) s us)) k =
    fold upd_effect (filter (\<lambda>u. upd_key u = k) us) (dict_get (results s) k)"
  using assms by (rule sresults.run_entry)

text \<open>Two objects and some updates, for the examples.\<close>

definition kobj_at :: "string \<Rightarrow> string \<Rightarrow> string \<Rightarrow> kobj" where
  "kobj_at u v t = [(''metadata'', JObj [(''uid'', JStr u), (''resourceVersion'', JStr v),
     (''creationTimestamp'', JStr t)])]"

theorem stored_object_follows_its_updates_witness:
  "dict_get (results (foldl (\<lambda>s u. update None u s) \<lparr>results = [], pushed = []\<rparr>
     [(ADDED, kobj_at ''a'' ''1'' ''t''), (ADDED, kobj_at ''b'' ''2'' ''t''), (DELETED, kobj_at ''a'' ''3'' ''t'')])) ''a'' = None"
proof -
  let ?us = "[(ADDED, kobj_at ''a'' ''1'' ''t''), (ADDED, kobj_at ''b'' ''2'' ''t''), (DELETED, kobj_at ''a'' ''3'' ''t'')]"
  have "fold upd_effect (filter (\<lambda>u. upd_key u = ''a'') ?us) None = None" by code_simp
  with stored_object_follows_its_updates [of "\<lparr>results = [], pushed = []\<rparr>" None ?us "''a''"]
  show ?thesis by simp
qed

lemma merge_get:
  "dict_wf ob \<Longrightarrow> dict_get (merge_object ex ob) k = (case dict_get ob k of None \<Rightarrow> dict_get ex k | Some v \<Rightarrow> Some v)"
proof (induction ob arbitrary: ex)
  case Nil
  then show ?case by (simp add: merge_object_def)
next
  case (Cons p ob)
  obtain j v where p: "p = (j, v)" by (cases p)
  have wf: "dict_wf ob" and j: "dict_get ob j = None"
    using Cons.prems p by (auto simp: dict_wf_def dict_get_def map_of_eq_None_iff)
  have "merge_object ex (p # ob) = merge_object (dict_set j v ex) ob"
    by (simp add: merge_object_def p)
  with Cons.IH [OF wf] j show ?case
    by (auto simp: p dict_get_def dict_set_def update_conv' split: option.split)
qed

lemma resource_version_merge:
  "dict_wf ob \<Longrightarrow> dict_has ob ''metadata'' \<Longrightarrow> resource_version (merge_object ex ob) = resource_version ob"
  by (auto simp: resource_version_def meta_prop_def merge_get dict_has_def split: option.split)

lemma dict_wf_upd_object: "dict_wf (snd u) \<Longrightarrow> dict_wf (upd_object u)"
  by (simp add: upd_object_def)

text \<open>A \<open>MODIFIED\<close> update of a known object is taken only when its version is the newer
  one. Then every property it brings is stored and the others stay; otherwise the stored
  object is left alone. Either way the stored version does not go back.\<close>

theorem modified_never_goes_back:
  assumes "dict_get (results s) k = Some old" and "obj_key (upd_object (MODIFIED, ob)) = Inr k"
    and "dict_wf ob"
  shows "\<exists>now. dict_get (results (update m (MODIFIED, ob) s)) k = Some now \<and>
    (if num_less (resource_version old) (resource_version (upd_object (MODIFIED, ob)))
     then resource_version now = resource_version (upd_object (MODIFIED, ob)) \<and>
          (\<forall>p. dict_get now p = (case dict_get (upd_object (MODIFIED, ob)) p of
                 None \<Rightarrow> dict_get old p | Some v \<Rightarrow> Some v))
     else now = old)"
proof -
  let ?ob = "upd_object (MODIFIED, ob)"
  have wf: "dict_wf ?ob" using assms(3) by (simp add: dict_wf_upd_object)
  have "dict_has ?ob ''metadata''"
    using assms(2) by (auto simp: obj_key_def meta_prop_def dict_has_def split: option.splits)
  then show ?thesis
    using assms wf by (simp add: update_entry upd_key_def upd_effect_def modify_object_def
        resource_version_merge merge_get)
qed

theorem modified_never_goes_back_witness:
  "dict_get (results (update None (MODIFIED, kobj_at ''a'' ''4'' ''t'')
     \<lparr>results = [(''a'', kobj_at ''a'' ''7'' ''t'')], pushed = []\<rparr>)) ''a'' = Some (kobj_at ''a'' ''7'' ''t'')"
proof -
  let ?s = "\<lparr>results = [(''a'', kobj_at ''a'' ''7'' ''t'')], pushed = []\<rparr>"
  have h: "dict_get (results ?s) ''a'' = Some (kobj_at ''a'' ''7'' ''t'')"
    "obj_key (upd_object (MODIFIED, kobj_at ''a'' ''4'' ''t'')) = Inr ''a''"
    "dict_wf (kobj_at ''a'' ''4'' ''t'')" by code_simp+
  have "\<not> num_less (resource_version (kobj_at ''a'' ''7'' ''t''))
      (resource_version (upd_object (MODIFIED, kobj_at ''a'' ''4'' ''t'')))" by code_simp
  with modified_never_goes_back [OF h, of None] show ?thesis by auto
qed

section \<open>The limit\<close>

lemma drop_sorted_le:
  "sorted (map f xs) \<Longrightarrow> a \<in> set (take n xs) \<Longrightarrow> b \<in> set (drop n xs) \<Longrightarrow> f a \<le> f b"
  using sorted_append [of "map f (take n xs)" "map f (drop n xs)"]
  by (simp flip: map_append)

text \<open>With more objects than the limit allows, \<open>push\<close> sorts them with the most recent
  first and then cuts off the beginning. So what it hands to the callback has the right
  length, but it is the oldest objects: each one kept is at most as recent as each one
  dropped.\<close>

theorem push_keeps_the_oldest:
  assumes "0 < n" and "n < int (length values)" and "\<forall>v \<in> set values. obj_time v \<noteq> None"
  shows "let kept = push_values (Some n) values
         in int (length kept) = n \<and> set kept \<subseteq> set values \<and>
            (\<exists>dropped. mset (dropped @ kept) = mset values \<and>
               (\<forall>d \<in> set dropped. \<forall>v \<in> set kept. the (obj_time v) \<le> the (obj_time d)))"
proof -
  define key where "key = (\<lambda>v. - the (obj_time v))"
  let ?sorted = "sort_key key values"
  have "js_sort (\<lambda>a b. num_sub (Some 0) (num_sub (obj_time a) (obj_time b))) values = ?sorted"
  proof (rule js_sort_key, intro ballI)
    fix y z
    assume "y \<in> set values" "z \<in> set values"
    with assms(3) obtain a b where "obj_time y = Some a" "obj_time z = Some b" by blast
    then show "num_sub (Some 0) (num_sub (obj_time y) (obj_time z)) = Some (key y - key z)"
      by (simp add: num_sub_def key_def)
  qed
  then have kept: "push_values (Some n) values = drop (nat (int (length values) - n)) ?sorted"
    using assms(1,2) by (simp add: push_values_def)
  have le: "the (obj_time v) \<le> the (obj_time d)"
    if "d \<in> set (take (nat (int (length values) - n)) ?sorted)" "v \<in> set (drop (nat (int (length values) - n)) ?sorted)" for d v
    using drop_sorted_le [of key ?sorted] that by (fastforce simp: key_def)
  let ?d = "take (nat (int (length values) - n)) ?sorted"
  let ?k = "drop (nat (int (length values) - n)) ?sorted"
  have "mset (?d @ ?k) = mset values"
    by (simp only: append_take_drop_id mset_sort)
  with le have "\<exists>dropped. mset (dropped @ ?k) = mset values \<and>
      (\<forall>d \<in> set dropped. \<forall>v \<in> set ?k. the (obj_time v) \<le> the (obj_time d))"
    by blast
  moreover have "set ?k \<subseteq> set values"
    by (metis set_drop_subset set_sort)
  moreover have "int (length ?k) = n" using assms(1,2) by simp
  ultimately show ?thesis unfolding Let_def kept by blast
qed

theorem push_keeps_the_oldest_witness:
  "push_values (Some 1) [kobj_at ''old'' ''1'' ''2020-01-01T00:00:00Z'', kobj_at ''new'' ''2'' ''2024-01-01T00:00:00Z''] =
     [kobj_at ''old'' ''1'' ''2020-01-01T00:00:00Z''] \<and>
   length (push_values (Some 1) [kobj_at ''old'' ''1'' ''2020-01-01T00:00:00Z'', kobj_at ''new'' ''2'' ''2024-01-01T00:00:00Z'']) = 1"
proof -
  let ?vs = "[kobj_at ''old'' ''1'' ''2020-01-01T00:00:00Z'', kobj_at ''new'' ''2'' ''2024-01-01T00:00:00Z'']"
  have t: "\<forall>v \<in> set ?vs. obj_time v \<noteq> None" by code_simp
  have "push_values (Some 1) ?vs = [kobj_at ''old'' ''1'' ''2020-01-01T00:00:00Z'']" by code_simp
  with push_keeps_the_oldest [of 1 ?vs] t show ?thesis by (simp add: Let_def)
qed

section \<open>Cancelling a watched collection\<close>

definition dead_watch :: "watch_world \<Rightarrow> bool" where
  [inv_defs]: "dead_watch w \<longleftrightarrow> w_cancelled w \<and> w_socket w = None \<and> results w = [] \<and> pushed w = []"

lemma dead_watch_step: "dead_watch w \<Longrightarrow> dead_watch (watch_step parse url cluster qp w e)"
  by (cases e) (auto simp: dead_watch_def watch_answer_def watch_cancel_def watch_stream_event_def Let_def
      split: sum.split)

interpretation dead_watches: reducer "watch_step parse url cluster qp" dead_watch
  by unfold_locales (rule dead_watch_step)

text \<open>A collection that is cancelled before the answer of its request never reaches its
  callback: no list is pushed and no socket is opened, whatever the answer is.\<close>

theorem cancel_before_answer_pushes_nothing:
  "let w = foldl (watch_step parse url cluster qp) watch_start (WCancel # es)
   in pushed w = [] \<and> w_socket w = None"
proof -
  have "dead_watch (watch_step parse url cluster qp watch_start WCancel)"
    by (simp add: dead_watch_def watch_start_def watch_cancel_def)
  from dead_watches.run_inv [OF this, of parse url cluster qp es] show ?thesis
    by (simp add: Let_def dead_watch_def)
qed

section \<open>Watching one object\<close>

text \<open>The closure of \<open>streamResult\<close>: what its callback got, and its socket. The callback of
  the socket reads \<open>x.object\<close>, which throws for \<open>null\<close>.\<close>

record single_world =
  got :: "json option list"
  g_cancelled :: bool
  g_running :: bool
  g_socket :: "(string \<times> stream_world) option"
  g_errors :: nat

definition single_start :: single_world where
  [state_defs]: "single_start = \<lparr>got = [], g_cancelled = False, g_running = True, g_socket = None, g_errors = 0\<rparr>"

definition single_watch_url :: "string \<Rightarrow> string \<Rightarrow> query_parameters option \<Rightarrow> string" where
  "single_watch_url url name qp =
    url @ asQuery (Some (dict_set ''fieldSelector'' (PStr (''metadata.name='' @ name))
      (dict_set ''watch'' (PStr ''1'') (case qp of None \<Rightarrow> [] | Some q \<Rightarrow> q))))"

definition single_answer ::
  "string \<Rightarrow> string \<Rightarrow> query_parameters option \<Rightarrow> (js_error + json) \<Rightarrow> single_world \<Rightarrow> single_world" where
  [state_defs]: "single_answer url name qp ans w0 =
    (let w = w0\<lparr>g_running := False\<rparr>
     in case ans of
          Inl e \<Rightarrow> w\<lparr>g_errors := g_errors w + 1\<rparr>
        | Inr item \<Rightarrow>
            if g_cancelled w then w
            else w\<lparr>got := got w @ [Some item], g_socket := Some (single_watch_url url name qp, stream_start)\<rparr>)"

definition single_cancel :: "single_world \<Rightarrow> single_world" where
  [state_defs]: "single_cancel w =
    (if g_cancelled w then w
     else w\<lparr>g_cancelled := True,
            g_socket := map_option (\<lambda>(u, st). (u, stream_cancel st)) (g_socket w)\<rparr>)"

definition single_stream_event ::
  "(string \<Rightarrow> json option) \<Rightarrow> string \<Rightarrow> stream_event \<Rightarrow> single_world \<Rightarrow> single_world" where
  [state_defs]: "single_stream_event parse cluster e w =
    (case g_socket w of
       None \<Rightarrow> w
     | Some (u, st) \<Rightarrow>
         let a = watch_args cluster; w' = w\<lparr>g_socket := Some (u, stream_step a st e)\<rparr>
         in case stream_output parse a st e of
              None \<Rightarrow> w'
            | Some x \<Rightarrow> (case jprop x ''object'' of Inl err \<Rightarrow> w' | Inr v \<Rightarrow> w'\<lparr>got := got w' @ [v]\<rparr>))"

fun single_step ::
  "(string \<Rightarrow> json option) \<Rightarrow> string \<Rightarrow> string \<Rightarrow> string \<Rightarrow> query_parameters option \<Rightarrow>
   single_world \<Rightarrow> (js_error + json) + (unit + stream_event) \<Rightarrow> single_world" where
  "single_step parse url name cluster qp w (Inl ans) = (if g_running w then single_answer url name qp ans w else w)"
| "single_step parse url name cluster qp w (Inr (Inl u)) = single_cancel w"
| "single_step parse url name cluster qp w (Inr (Inr e)) =
     (if e = SCancel then w else single_stream_event parse cluster e w)"

text \<open>Once it is cancelled with its socket up, nothing reaches the callback any more.\<close>

definition silent_single :: "json option list \<Rightarrow> single_world \<Rightarrow> bool" where
  [inv_defs]: "silent_single old w \<longleftrightarrow> got w = old \<and> g_cancelled w \<and> \<not> g_running w \<and>
     (case g_socket w of None \<Rightarrow> True | Some (u, st) \<Rightarrow> quiet st)"

lemma silent_single_step:
  "silent_single old w \<Longrightarrow> silent_single old (single_step parse url name cluster qp w e)"
  by (cases "(parse, url, name, cluster, qp, w, e)" rule: single_step.cases)
     (auto simp: silent_single_def single_cancel_def single_stream_event_def quiet_output quiet_step Let_def
       split: option.splits)

interpretation silent_singles: reducer "single_step parse url name cluster qp" "silent_single old"
  by unfold_locales (rule silent_single_step)

end
