(* ===== verification/PodStatus.thy ===== *)
theory PodStatus
  imports StreamResults
begin

text \<open>
  The pod class, \<^verbatim>\<open>frontend/src/lib/k8s/pod.ts\<close>: the status text, restart and readiness
  counts of the pod list (\<open>getDetailedStatus\<close>), the health category of the overview
  (\<open>getHealth\<close>), the log stream (\<open>getLogs\<close>), and the requests of \<open>attach\<close>, \<open>exec\<close>,
  \<open>evict\<close> and \<open>addEphemeralContainer\<close>.

  The status of a pod is what the API server sends: a field it omits is \<open>None\<close>. Numbers of
  exits and restarts are always there.
\<close>

section \<open>Pods\<close>

record terminated_state =
  exitCode :: int
  signal :: "int option"
  t_reason :: "string option"
  t_message :: "string option"
  finishedAt :: "string option"

record waiting_state =
  wait_reason :: "string option"
  wait_message :: "string option"

record container_state =
  terminated :: "terminated_state option"
  waiting :: "waiting_state option"
  running :: bool

record container_status =
  cs_name :: string
  cs_ready :: bool
  started :: "bool option"
  restartCount :: int
  last_terminated :: "terminated_state option"
  cstate :: container_state

record pod_container =
  c_name :: string
  restartPolicy :: "string option"

record condition =
  cond_type :: string
  cond_status :: string

record pod_spec =
  containers :: "pod_container list"
  initContainers :: "pod_container list option"

record pod_state =
  conditions :: "condition list option"
  containerStatuses :: "container_status list option"
  initContainerStatuses :: "container_status list option"
  phase :: "string option"
  p_reason :: "string option"

record pod =
  p_name :: string
  p_namespace :: string
  p_version :: "string option"
  deletionTimestamp :: "string option"
  spec :: "pod_spec option"
  status :: "pod_state option"

text \<open>\<open>xs ?? []\<close> and \<open>xs || []\<close>\<close>

definition or_nil :: "'a list option \<Rightarrow> 'a list" where
  [js_defs]: "or_nil xs = (case xs of None \<Rightarrow> [] | Some ys \<Rightarrow> ys)"

lemma or_nil_simps [simp]: "or_nil None = []" "or_nil (Some xs) = xs"
  by (simp_all add: or_nil_def)

definition pod_containers :: "pod \<Rightarrow> pod_container list" where
  "pod_containers p = (case spec p of None \<Rightarrow> [] | Some s \<Rightarrow> containers s)"

definition pod_init_containers :: "pod \<Rightarrow> pod_container list" where
  "pod_init_containers p = (case spec p of None \<Rightarrow> [] | Some s \<Rightarrow> or_nil (initContainers s))"

definition pod_conditions :: "pod \<Rightarrow> condition list" where
  "pod_conditions p = (case status p of None \<Rightarrow> [] | Some s \<Rightarrow> or_nil (conditions s))"

definition container_statuses :: "pod \<Rightarrow> container_status list" where
  "container_statuses p = (case status p of None \<Rightarrow> [] | Some s \<Rightarrow> or_nil (containerStatuses s))"

definition init_statuses :: "pod \<Rightarrow> container_status list" where
  "init_statuses p = (case status p of None \<Rightarrow> [] | Some s \<Rightarrow> or_nil (initContainerStatuses s))"

definition status_reason :: "pod \<Rightarrow> string option" where
  "status_reason p = Option.bind (status p) p_reason"

definition status_phase :: "pod \<Rightarrow> string option" where
  "status_phase p = Option.bind (status p) phase"

section \<open>The detailed status\<close>

record pod_details =
  restarts :: int
  reason :: string
  message :: string
  totalContainers :: nat
  readyContainers :: nat
  lastRestartDate :: int

definition later :: "int \<Rightarrow> string option \<Rightarrow> int" where
  "later old t = (case date_ms (map_option JStr t) of None \<Rightarrow> old | Some d \<Rightarrow> if old < d then d else old)"

definition getLastRestartDate :: "container_status \<Rightarrow> int \<Rightarrow> int" where
  "getLastRestartDate c old =
    (case last_terminated c of None \<Rightarrow> old | Some t \<Rightarrow> later old (finishedAt t))"

text \<open>The longer way the loop over the init containers does the same: an absent or empty
  \<open>finishedAt\<close> gives no date.\<close>

definition later_if_set :: "container_status \<Rightarrow> int \<Rightarrow> int" where
  "later_if_set c old =
    (case last_terminated c of None \<Rightarrow> old
     | Some t \<Rightarrow> if truthy (finishedAt t) then later old (finishedAt t) else old)"

definition isRestartableInitContainer :: "pod_container option \<Rightarrow> bool" where
  "isRestartableInitContainer c = (case c of None \<Rightarrow> False | Some c \<Rightarrow> restartPolicy c = Some ''Always'')"

definition has_condition :: "string \<Rightarrow> condition list \<Rightarrow> bool" where
  "has_condition ty cs = list_ex (\<lambda>c. cond_type c = ty \<and> cond_status c = ''True'') cs"

definition isPodInitializedConditionTrue :: "pod \<Rightarrow> bool" where
  "isPodInitializedConditionTrue p = has_condition ''Initialized'' (pod_conditions p)"

definition hasPodReadyCondition :: "pod \<Rightarrow> bool" where
  "hasPodReadyCondition p = has_condition ''Ready'' (pod_conditions p)"

text \<open>A number in a template literal; an absent one prints as \<open>undefined\<close>.\<close>

definition num_text :: "int option \<Rightarrow> string" where
  "num_text n = (case n of None \<Rightarrow> ''undefined'' | Some i \<Rightarrow> int_str i)"

text \<open>The variables of \<open>getDetailedStatus\<close>.\<close>

record details_vars =
  v_restarts :: int
  v_restartable :: int
  v_ready :: nat
  v_message :: string
  v_reason :: string
  v_last :: int
  v_restartable_last :: int
  v_initializing :: bool

definition init_dict :: "pod_container list \<Rightarrow> (string, pod_container) dict" where
  "init_dict ics = fold (\<lambda>ic. dict_set (c_name ic) ic) ics []"

definition total_containers :: "pod \<Rightarrow> nat" where
  "total_containers p = length (pod_containers p) +
     length (filter (\<lambda>ic. isRestartableInitContainer (Some ic)) (pod_init_containers p))"

text \<open>The counters an init container adds to, before the \<open>switch\<close>.\<close>

definition count_init :: "bool \<Rightarrow> container_status \<Rightarrow> details_vars \<Rightarrow> details_vars" where
  "count_init restartable c v =
    (let v1 = v\<lparr>v_restarts := v_restarts v + restartCount c,
                v_last := later_if_set c (getLastRestartDate c (v_last v))\<rparr>
     in if restartable
        then v1\<lparr>v_restartable := v_restartable v1 + restartCount c,
                v_restartable_last := later_if_set c (v_restartable_last v1)\<rparr>
        else v1)"

text \<open>The \<open>switch (true)\<close>: \<open>Inl\<close> is \<open>continue\<close>, \<open>Inr\<close> leaves the loop.\<close>

definition init_terminated_reason :: "terminated_state \<Rightarrow> string" where
  "init_terminated_reason t =
    (if \<not> truthy (t_reason t)
     then (if signal t \<noteq> Some 0 then ''Init:Signal:'' @ num_text (signal t)
           else ''Init:ExitCode:'' @ int_str (exitCode t))
     else ''Init:'' @ the (t_reason t))"

definition init_switch ::
  "nat \<Rightarrow> nat \<Rightarrow> bool \<Rightarrow> container_status \<Rightarrow> details_vars \<Rightarrow> details_vars + details_vars" where
  "init_switch i ninit restartable c v =
    (let term = terminated (cstate c); wait = waiting (cstate c)
     in if (case term of None \<Rightarrow> False | Some t \<Rightarrow> exitCode t = 0) then Inl v
        else if started c = Some True \<and> restartable
        then Inl (if cs_ready c then v\<lparr>v_ready := v_ready v + 1\<rparr> else v)
        else (case term of
          Some t \<Rightarrow> Inr (v\<lparr>v_reason := init_terminated_reason t,
                         v_message := or_else (t_message t) [], v_initializing := True\<rparr>)
        | None \<Rightarrow>
            if (case wait of None \<Rightarrow> False | Some w \<Rightarrow> truthy (wait_reason w) \<and> wait_reason w \<noteq> Some ''PodInitializing'')
            then Inr (v\<lparr>v_reason := ''Init:'' @ the (wait_reason (the wait)), v_initializing := True,
                        v_message := or_else (wait_message (the wait)) []\<rparr>)
            else Inr (v\<lparr>v_reason := ''Init:'' @ int_str (int i) @ ''/'' @ int_str (int ninit),
                        v_initializing := True\<rparr>)))"

fun init_loop ::
  "(string, pod_container) dict \<Rightarrow> nat \<Rightarrow> nat \<Rightarrow> container_status list \<Rightarrow> details_vars \<Rightarrow> details_vars" where
  "init_loop d ninit i [] v = v"
| "init_loop d ninit i (c # cs) v =
     (let r = isRestartableInitContainer (dict_get d (cs_name c))
      in case init_switch i ninit r c (count_init r c v) of
           Inl v' \<Rightarrow> init_loop d ninit (Suc i) cs v'
         | Inr v' \<Rightarrow> v')"

text \<open>One round of the loop over the containers; it runs from the last one to the first.
  The flag is \<open>hasRunning\<close>.\<close>

definition container_round :: "container_status \<Rightarrow> details_vars \<times> bool \<Rightarrow> details_vars \<times> bool" where
  "container_round c vb =
    (let v = (fst vb)\<lparr>v_restarts := v_restarts (fst vb) + restartCount c,
                      v_last := getLastRestartDate c (v_last (fst vb))\<rparr>;
         wait_r = Option.bind (waiting (cstate c)) wait_reason;
         term = terminated (cstate c); term_r = Option.bind term t_reason
     in if truthy wait_r
        then (v\<lparr>v_reason := the wait_r, v_message := or_else (wait_message (the (waiting (cstate c)))) []\<rparr>, snd vb)
        else if truthy term_r
        then (v\<lparr>v_reason := the term_r, v_message := or_else (t_message (the term)) []\<rparr>, snd vb)
        else if term_r = Some []
        then (v\<lparr>v_reason := (if signal (the term) \<noteq> None \<and> signal (the term) \<noteq> Some 0
                              then ''Signal:'' @ num_text (signal (the term))
                              else ''ExitCode:'' @ int_str (exitCode (the term))),
               v_message := or_else (t_message (the term)) []\<rparr>, snd vb)
        else if cs_ready c \<and> running (cstate c)
        then (v\<lparr>v_ready := v_ready v + 1\<rparr>, True)
        else (v, snd vb))"

definition container_part :: "pod \<Rightarrow> details_vars \<Rightarrow> details_vars" where
  "container_part p v0 =
    (let v1 = v0\<lparr>v_restarts := v_restartable v0, v_last := v_restartable_last v0\<rparr>;
         (v2, hasRunning) = fold container_round (rev (container_statuses p)) (v1, False)
     in if v_reason v2 = ''Completed'' \<and> hasRunning
        then v2\<lparr>v_reason := (if hasPodReadyCondition p then ''Running'' else ''NotReady'')\<rparr>
        else v2)"

definition start_vars :: "pod \<Rightarrow> details_vars" where
  "start_vars p = \<lparr>v_restarts = 0, v_restartable = 0, v_ready = 0, v_message = [],
     v_reason = or_else (status_reason p) (or_else (status_phase p) ''Unknown''),
     v_last = 0, v_restartable_last = 0, v_initializing = False\<rparr>"

definition init_part :: "pod \<Rightarrow> details_vars" where
  "init_part p = init_loop (init_dict (pod_init_containers p)) (length (pod_init_containers p)) 0
     (init_statuses p) (start_vars p)"

definition deleted_reason :: "pod \<Rightarrow> string \<Rightarrow> string" where
  "deleted_reason p r =
    (if truthy (deletionTimestamp p) \<and> status_reason p = Some ''NodeLost'' then ''Unknown''
     else if truthy (deletionTimestamp p) then ''Terminating'' else r)"

definition compute_details :: "pod \<Rightarrow> pod_details" where
  "compute_details p =
    (let v1 = init_part p;
         v2 = (if \<not> v_initializing v1 \<or> isPodInitializedConditionTrue p then container_part p v1 else v1)
     in \<lparr>restarts = v_restarts v2, reason = deleted_reason p (v_reason v2), message = v_message v2,
         totalContainers = total_containers p, readyContainers = v_ready v2, lastRestartDate = v_last v2\<rparr>)"

text \<open>\<open>getDetailedStatus\<close> with its cache: the version it was computed for and the result.\<close>

type_synonym details_cache = "(string option \<times> pod_details) option"

definition getDetailedStatus :: "pod \<Rightarrow> details_cache \<Rightarrow> pod_details \<times> details_cache" where
  [state_defs]: "getDetailedStatus p cache =
    (case cache of
       Some (v, d) \<Rightarrow> if v = p_version p then (d, cache)
                     else (compute_details p, Some (p_version p, compute_details p))
     | None \<Rightarrow> (compute_details p, Some (p_version p, compute_details p)))"

section \<open>Health\<close>

datatype health = Healthy | Degraded | Transitional | Failed

definition pod_failed_container_reasons :: "string list" where
  "pod_failed_container_reasons =
    [''CrashLoopBackOff'', ''ImagePullBackOff'', ''ErrImagePull'', ''ErrImageNeverPull'',
     ''InvalidImageName'', ''CreateContainerError'', ''CreateContainerConfigError'',
     ''RunContainerError'', ''OOMKilled'', ''Error'', ''ContainerCannotRun'', ''DeadlineExceeded'']"

definition failing_container :: "container_status \<Rightarrow> bool" where
  "failing_container c =
    (let term = terminated (cstate c);
         wait_r = Option.bind (waiting (cstate c)) wait_reason;
         r = (if truthy wait_r then wait_r else Option.bind term t_reason)
     in (case term of None \<Rightarrow> False
         | Some t \<Rightarrow> exitCode t \<noteq> 0 \<or> (signal t \<noteq> None \<and> signal t \<noteq> Some 0)) \<or>
        (truthy r \<and> the r \<in> set pod_failed_container_reasons))"

definition getHealth :: "pod \<Rightarrow> health" where
  "getHealth p =
    (if truthy (deletionTimestamp p)
     then (if status_reason p = Some ''NodeLost'' then Failed else Transitional)
     else if status_phase p = Some ''Succeeded'' then Healthy
     else if status_phase p = Some ''Failed'' \<or>
             list_ex failing_container (container_statuses p @ init_statuses p) then Failed
     else if status_phase p = Some ''Pending'' then Transitional
     else if status_phase p = Some ''Running''
     then (if has_condition ''Ready'' (pod_conditions p) then Healthy else Degraded)
     else Failed)"

section \<open>Requests\<close>

definition uri_safe :: "char \<Rightarrow> bool" where
  "uri_safe c = (is_digit c \<or> is_lower c \<or> is_upper c \<or> c \<in> set ''-_.!~*'' \<or> c \<in> {CHR 0x27, CHR ''('', CHR '')''})"

definition encode_uri_component :: "string \<Rightarrow> string" where
  "encode_uri_component s = concat (map (\<lambda>c. if uri_safe c then [c] else concat (map percent (utf8 c))) s)"

definition pod_url :: "pod \<Rightarrow> string \<Rightarrow> string" where
  "pod_url p rest = ''/api/v1/namespaces/'' @ p_namespace p @ ''/pods/'' @ p_name p @ rest"

definition evict_request :: "pod \<Rightarrow> string \<times> json" where
  "evict_request p = (pod_url p ''/eviction'',
     JObj [(''metadata'', JObj [(''name'', JStr (p_name p)), (''namespace'', JStr (p_namespace p))])])"

text \<open>The arguments of \<open>stream\<close> for \<open>attach\<close>: \<open>options\<close> overrides what it sets.\<close>

definition channel_protocols :: "string list" where
  "channel_protocols = [''v4.channel.k8s.io'', ''v3.channel.k8s.io'', ''v2.channel.k8s.io'', ''channel.k8s.io'']"

definition attach_url :: "pod \<Rightarrow> string \<Rightarrow> string" where
  "attach_url p container = pod_url p (''/attach?container='' @ container @ ''&stdin=true&stderr=true&stdout=true&tty=true'')"

record exec_options =
  command :: "string list option"
  x_tty :: "bool option"
  x_stdin :: "bool option"
  x_stdout :: "bool option"
  x_stderr :: "bool option"

definition flag :: "bool option \<Rightarrow> string" where
  "flag b = (if b = Some False then ''0'' else ''1'')"

definition exec_url :: "pod \<Rightarrow> string \<Rightarrow> exec_options \<Rightarrow> string" where
  "exec_url p container opts =
    (let cmd = (case command opts of None \<Rightarrow> [''sh''] | Some c \<Rightarrow> c);
         commandStr = js_join [] (map (\<lambda>item. ''&command='' @ encode_uri_component item) cmd)
     in pod_url p (''/exec?container='' @ container @ commandStr @ ''&stdin='' @ flag (x_stdin opts) @
          ''&stderr='' @ flag (x_stderr opts) @ ''&stdout='' @ flag (x_stdout opts) @ ''&tty='' @ flag (x_tty opts)))"

definition ephemeral_container :: "string \<Rightarrow> string \<Rightarrow> string list option \<Rightarrow> json" where
  "ephemeral_container name img cmd =
    JObj [(''name'', JStr name), (''image'', JStr img), (''tty'', JBool True), (''stdin'', JBool True),
          (''stdinOnce'', JBool True),
          (''command'', JArr (map JStr (case cmd of None \<Rightarrow> [''sh''] | Some c \<Rightarrow> c))),
          (''imagePullPolicy'', JStr ''IfNotPresent'')]"

text \<open>\<open>addEphemeralContainer\<close>: the address and the body of its patch. The containers there
  already are is the pod's JSON.\<close>

definition addEphemeralContainer ::
  "pod \<Rightarrow> json list option \<Rightarrow> string \<Rightarrow> string \<Rightarrow> string list option \<Rightarrow> string \<times> json" where
  "addEphemeralContainer p current name img cmd =
    (pod_url p ''/ephemeralcontainers'',
     JObj [(''spec'', JObj [(''ephemeralContainers'',
        JArr (or_nil current @ [ephemeral_container name img cmd]))])])"

section \<open>Logs\<close>

record log_options =
  tailLines :: "int option"
  showPrevious :: "bool option"
  showTimestamps :: "bool option"
  follow :: "bool option"
  prettifyLogs :: "bool option"
  formatJsonValues :: "bool option"
  has_onReconnectStop :: bool

definition bool_text :: "bool \<Rightarrow> string" where
  "bool_text b = (if b then ''true'' else ''false'')"

definition opt_bool :: "bool option \<Rightarrow> bool \<Rightarrow> bool" where
  "opt_bool b d = (case b of None \<Rightarrow> d | Some x \<Rightarrow> x)"

definition log_url :: "pod \<Rightarrow> string \<Rightarrow> log_options \<Rightarrow> string" where
  "log_url p container o' =
    (let tl = (case tailLines o' of None \<Rightarrow> 100 | Some n \<Rightarrow> n);
         url = pod_url p (''/log?container='' @ container @
           ''&previous='' @ bool_text (opt_bool (showPrevious o') False) @
           ''&timestamps='' @ bool_text (opt_bool (showTimestamps o') False) @
           ''&follow='' @ bool_text (opt_bool (follow o') True))
     in if tl \<noteq> -1 then url @ ''&tailLines='' @ int_str tl else url)"

text \<open>\<open>s.replace(/from/g, to)\<close> for a literal \<open>from\<close>.\<close>

definition replace_all :: "string \<Rightarrow> string \<Rightarrow> string \<Rightarrow> string" where
  "replace_all from to s = js_join to (js_split from s)"

abbreviation bs :: char where "bs \<equiv> CHR 0x5C"
abbreviation lf :: char where "lf \<equiv> CHR 0x0A"
abbreviation cr :: char where "cr \<equiv> CHR 0x0D"

definition unescapeStringLiterals :: "string \<Rightarrow> string" where
  "unescapeStringLiterals s =
    replace_all [bs, bs] [bs]
     (replace_all [bs, CHR 0x27] [CHR 0x27]
      (replace_all [bs, CHR 0x22] [CHR 0x22]
       (replace_all [bs, CHR ''t''] [CHR 0x09]
        (replace_all [bs, CHR ''n''] [lf]
         (replace_all [bs, CHR ''r'', bs, CHR ''n''] [cr, lf] s)))))"

text \<open>\<^verbatim>\<open>match(/(\{.*\})/)\<close>: from the first brace that is closed on its line to the last closing
  brace of that line; what precedes the match, and the match.\<close>

definition brace_match :: "string \<Rightarrow> string option" where
  "brace_match s =
    (let line = takeWhile (\<lambda>c. c \<noteq> lf \<and> c \<noteq> cr) s
     in if CHR ''}'' \<in> set line then Some (rev (dropWhile (\<lambda>c. c \<noteq> CHR ''}'') (rev line))) else None)"

fun json_match :: "string \<Rightarrow> (string \<times> string) option" where
  "json_match [] = None"
| "json_match (c # s) =
     (case (if c = CHR ''{'' then brace_match (c # s) else None) of
        Some m \<Rightarrow> Some ([], m)
      | None \<Rightarrow> map_option (\<lambda>(a, m). (c # a, m)) (json_match s))"

text \<open>\<open>JSON.stringify(v, replacer, 2)\<close>, where the replacer maps the strings that are
  values.\<close>

fun map_strings :: "(string \<Rightarrow> string) \<Rightarrow> json \<Rightarrow> json" where
  "map_strings f (JStr s) = JStr (f s)"
| "map_strings f (JArr xs) = JArr (map (map_strings f) xs)"
| "map_strings f (JObj fs) = JObj (map (\<lambda>(k, v). (k, map_strings f v)) fs)"
| "map_strings f j = j"

definition json_char :: "char \<Rightarrow> string" where
  "json_char c =
    (if c = CHR 0x22 \<or> c = bs then [bs, c]
     else if c = CHR 0x08 then [bs, CHR ''b''] else if c = CHR 0x0C then [bs, CHR ''f'']
     else if c = lf then [bs, CHR ''n''] else if c = cr then [bs, CHR ''r'']
     else if c = CHR 0x09 then [bs, CHR ''t'']
     else if code_unit c < 32 then [bs, CHR ''u'', CHR ''0'', CHR ''0''] @ map lower_char (tl (percent (code_unit c)))
     else [c])"

definition json_quote :: "string \<Rightarrow> string" where
  "json_quote s = [CHR 0x22] @ concat (map json_char s) @ [CHR 0x22]"

fun json_pretty :: "string \<Rightarrow> json \<Rightarrow> string" where
  "json_pretty ind (JStr s) = json_quote s"
| "json_pretty ind (JArr xs) =
     (if xs = [] then ''[]''
      else ''['' @ [lf] @ js_join ('','' @ [lf]) (map (\<lambda>x. ind @ ''  '' @ json_pretty (ind @ ''  '') x) xs) @ [lf] @ ind @ '']'')"
| "json_pretty ind (JObj fs) =
     (if fs = [] then ''{}''
      else ''{'' @ [lf] @ js_join ('','' @ [lf])
        (map (\<lambda>(k, v). ind @ ''  '' @ json_quote k @ '': '' @ json_pretty (ind @ ''  '') v) fs) @ [lf] @ ind @ ''}'')"
| "json_pretty ind j = json_str j"

definition prettifyLogLine :: "(string \<Rightarrow> json option) \<Rightarrow> log_options \<Rightarrow> string \<Rightarrow> string" where
  "prettifyLogLine parse o' logLine =
    (case json_match logLine of
       None \<Rightarrow> logLine
     | Some (before, jsonStr) \<Rightarrow> (case parse jsonStr of
         None \<Rightarrow> logLine
       | Some jsonObj \<Rightarrow>
           let fmt = opt_bool (formatJsonValues o') False;
               prettyJson = json_pretty [] (if fmt then map_strings unescapeStringLiterals jsonObj else jsonObj);
               terminalReadyJson = (if fmt then unescapeStringLiterals prettyJson else prettyJson);
               timestamp = js_trim before
           in if opt_bool (showTimestamps o') False
              then (if timestamp \<noteq> [] then timestamp @ [lf] @ terminalReadyJson @ [lf] else terminalReadyJson @ [lf])
              else terminalReadyJson @ [lf]))"

text \<open>The variables of \<open>getLogs\<close>, the calls of its two callbacks, and its stream.\<close>

record log_world =
  logs :: "string list"
  hasJsonLogs :: bool
  isReconnecting :: bool
  onLogs_calls :: "(string list \<times> bool) list"
  reconnectStops :: nat
  log_stream :: stream_world

definition onResults ::
  "(string \<Rightarrow> json option) \<Rightarrow> (string \<Rightarrow> string) \<Rightarrow> log_options \<Rightarrow> string \<Rightarrow> log_world \<Rightarrow> log_world" where
  [state_defs]: "onResults parse decode o' item w =
    (if item = [] then w
     else let decodedLog = decode item
          in if decodedLog = [] \<or> js_trim decodedLog = [] then w
             else let hj = (hasJsonLogs w \<or> json_match (js_trim decodedLog) \<noteq> None);
                      processedLog = (if hj \<and> opt_bool (prettifyLogs o') False
                                      then prettifyLogLine parse o' decodedLog else decodedLog);
                      ls = logs w @ [processedLog]
                  in w\<lparr>hasJsonLogs := hj, logs := ls, onLogs_calls := onLogs_calls w @ [(ls, hj)]\<rparr>)"

definition log_connectCb :: "log_world \<Rightarrow> log_world" where
  [state_defs]: "log_connectCb w = w\<lparr>logs := [], hasJsonLogs := False\<rparr>"

definition log_failCb :: "log_options \<Rightarrow> log_world \<Rightarrow> log_world" where
  [state_defs]: "log_failCb o' w =
    (if opt_bool (follow o') True \<and> isReconnecting w
     then w\<lparr>isReconnecting := False,
            reconnectStops := reconnectStops w + (if has_onReconnectStop o' then 1 else 0)\<rparr>
     else w)"

definition log_args :: "string \<Rightarrow> stream_args" where
  "log_args cluster = \<lparr>isJson = False, additionalProtocols = [], has_failCb = True,
     reconnect_arg = None, arg_cluster = cluster\<rparr>"

definition log_start :: log_world where
  [state_defs]: "log_start = log_connectCb \<lparr>logs = [], hasJsonLogs = False, isReconnecting = True,
     onLogs_calls = [], reconnectStops = 0, log_stream = stream_start\<rparr>"

text \<open>An event of the stream, with the callbacks it makes: a message, a failure, a connect.\<close>

definition log_step ::
  "(string \<Rightarrow> json option) \<Rightarrow> (string \<Rightarrow> string) \<Rightarrow> log_options \<Rightarrow> string \<Rightarrow> log_world \<Rightarrow> stream_event \<Rightarrow> log_world" where
  [state_defs]: "log_step parse decode o' cluster w e =
    (let a = log_args cluster; st = log_stream w; st' = stream_step a st e;
         w1 = w\<lparr>log_stream := st'\<rparr>;
         w2 = (case stream_output parse a st e of Some (JStr item) \<Rightarrow> onResults parse decode o' item w1 | _ \<Rightarrow> w1);
         w3 = (if failCalls st < failCalls st' then log_failCb o' w2 else w2)
     in if connectCalls st < connectCalls st' then log_connectCb w3 else w3)"

section \<open>Properties\<close>

subsection \<open>The cache\<close>

text \<open>The results of a series of calls, on the data the pod has at each of them.\<close>

fun status_calls :: "details_cache \<Rightarrow> pod list \<Rightarrow> pod_details list" where
  "status_calls cache [] = []"
| "status_calls cache (p # ps) =
     (let (d, cache') = getDetailedStatus p cache in d # status_calls cache' ps)"

definition cache_for :: "pod list \<Rightarrow> details_cache \<Rightarrow> bool" where
  "cache_for ps c = (case c of None \<Rightarrow> True
     | Some (v, d) \<Rightarrow> \<forall>p \<in> set ps. p_version p = v \<longrightarrow> compute_details p = d)"

lemma status_calls_ok:
  "\<forall>p \<in> set ps. \<forall>q \<in> set ps. p_version p = p_version q \<longrightarrow> p = q \<Longrightarrow> cache_for ps cache \<Longrightarrow>
   status_calls cache ps = map compute_details ps"
proof (induction ps arbitrary: cache)
  case (Cons p ps)
  have "cache_for ps (snd (getDetailedStatus p cache))"
    using Cons.prems by (auto simp: getDetailedStatus_def cache_for_def split: option.splits)
  moreover have "fst (getDetailedStatus p cache) = compute_details p"
    using Cons.prems by (auto simp: getDetailedStatus_def cache_for_def split: option.splits)
  ultimately show ?case
    using Cons.IH [of "snd (getDetailedStatus p cache)"] Cons.prems by (simp add: split_beta Let_def)
qed simp

text \<open>The cache of \<open>getDetailedStatus\<close> is invisible: as long as a version stands for one
  state of the pod, a series of calls returns what computing each of them afresh would.\<close>

theorem status_cache_is_invisible:
  assumes "\<forall>p \<in> set ps. \<forall>q \<in> set ps. p_version p = p_version q \<longrightarrow> p = q"
  shows "status_calls None ps = map compute_details ps"
  using assms by (rule status_calls_ok) (simp add: cache_for_def)

text \<open>Pods for the examples.\<close>

definition a_status :: "string \<Rightarrow> container_state \<Rightarrow> container_status" where
  "a_status n st = \<lparr>cs_name = n, cs_ready = False, started = None, restartCount = 2,
     last_terminated = None, cstate = st\<rparr>"

definition exited :: "int \<Rightarrow> string option \<Rightarrow> container_state" where
  "exited code r = \<lparr>terminated = Some \<lparr>exitCode = code, signal = None, t_reason = r, t_message = None,
     finishedAt = Some ''2024-01-01T00:00:00Z''\<rparr>, waiting = None, running = False\<rparr>"

definition a_pod :: "container_status list \<Rightarrow> container_status list \<Rightarrow> string \<Rightarrow> pod" where
  "a_pod inits cs ver = \<lparr>p_name = ''p'', p_namespace = ''ns'', p_version = Some ver, deletionTimestamp = None,
     spec = Some \<lparr>containers = map (\<lambda>c. \<lparr>c_name = cs_name c, restartPolicy = None\<rparr>) cs,
       initContainers = Some (map (\<lambda>c. \<lparr>c_name = cs_name c, restartPolicy = None\<rparr>) inits)\<rparr>,
     status = Some \<lparr>conditions = None, containerStatuses = Some cs, initContainerStatuses = Some inits,
       phase = Some ''Running'', p_reason = None\<rparr>\<rparr>"

theorem status_cache_is_invisible_witness:
  "status_calls None [a_pod [] [] ''1'', a_pod [] [a_status ''c'' (exited 1 (Some ''Error''))] ''2'', a_pod [] [] ''1''] =
    map compute_details [a_pod [] [] ''1'', a_pod [] [a_status ''c'' (exited 1 (Some ''Error''))] ''2'', a_pod [] [] ''1'']"
  by (rule status_cache_is_invisible) (simp add: a_pod_def)

subsection \<open>Deleted pods\<close>

text \<open>For a pod that is being deleted, the list and the overview agree whatever its
  containers do: Terminating and transitional, or Unknown and failed on a lost node.\<close>

theorem deleted_pod_status:
  assumes "truthy (deletionTimestamp p)"
  shows "(reason (compute_details p), getHealth p) =
    (if status_reason p = Some ''NodeLost'' then (''Unknown'', Failed) else (''Terminating'', Transitional))"
  using assms by (simp add: compute_details_def getHealth_def deleted_reason_def Let_def)

theorem deleted_pod_status_witness:
  "(reason (compute_details (a_pod [] [] ''1''\<lparr>deletionTimestamp := Some ''2024-01-01T00:00:00Z''\<rparr>)),
    getHealth (a_pod [] [] ''1''\<lparr>deletionTimestamp := Some ''2024-01-01T00:00:00Z''\<rparr>)) = (''Terminating'', Transitional)"
  using deleted_pod_status [of "a_pod [] [] ''1''\<lparr>deletionTimestamp := Some ''2024-01-01T00:00:00Z''\<rparr>"]
  by (simp add: a_pod_def status_reason_def)

subsection \<open>What the loops compute\<close>

lemma round_simps [simp]:
  "v_restarts (fst (container_round c vb)) = v_restarts (fst vb) + restartCount c"
  "v_last (fst (container_round c vb)) = getLastRestartDate c (v_last (fst vb))"
  by (simp_all add: container_round_def Let_def)

lemma rounds_restarts:
  "v_restarts (fst (fold container_round cs vb)) = v_restarts (fst vb) + sum_list (map restartCount cs)"
  by (induction cs arbitrary: vb) simp_all

lemma rounds_last:
  "v_last (fst (fold container_round cs vb)) = fold getLastRestartDate cs (v_last (fst vb))"
  by (induction cs arbitrary: vb) simp_all

lemma init_switch_counters:
  "init_switch i n r c v = Inl v' \<Longrightarrow> v_restarts v' = v_restarts v \<and> v_restartable v' = v_restartable v \<and>
     v_initializing v' = v_initializing v \<and> v_reason v' = v_reason v"
  "init_switch i n r c v = Inr v' \<Longrightarrow> v_initializing v'"
  by (auto simp: init_switch_def Let_def split: if_splits option.splits)

lemma count_init_simps [simp]:
  "v_restarts (count_init r c v) = v_restarts v + restartCount c"
  "v_restartable (count_init r c v) = v_restartable v + (if r then restartCount c else 0)"
  "v_initializing (count_init r c v) = v_initializing v"
  "v_reason (count_init r c v) = v_reason v"
  "v_ready (count_init r c v) = v_ready v"
  by (simp_all add: count_init_def Let_def)

definition restartable_status :: "pod \<Rightarrow> container_status \<Rightarrow> bool" where
  "restartable_status p c = isRestartableInitContainer (dict_get (init_dict (pod_init_containers p)) (cs_name c))"

lemma init_loop_restartable:
  "\<not> v_initializing (init_loop d n i cs v) \<Longrightarrow>
   v_restartable (init_loop d n i cs v) =
     v_restartable v + sum_list (map restartCount (filter (\<lambda>c. isRestartableInitContainer (dict_get d (cs_name c))) cs))"
proof (induction cs arbitrary: i v)
  case (Cons c cs)
  let ?r = "isRestartableInitContainer (dict_get d (cs_name c))"
  show ?case
  proof (cases "init_switch i n ?r c (count_init ?r c v)")
    case (Inl v')
    with Cons.IH [of "Suc i" v'] Cons.prems init_switch_counters(1) [OF Inl] show ?thesis by simp
  next
    case (Inr v')
    with Cons.prems init_switch_counters(2) [OF Inr] show ?thesis by simp
  qed
qed simp

text \<open>Once no init container holds the pod back, its restart count is that of its
  containers and of its restartable init containers together.\<close>

theorem restarts_of_initialized_pod:
  assumes "\<not> v_initializing (init_part p)"
  shows "restarts (compute_details p) =
    sum_list (map restartCount (filter (restartable_status p) (init_statuses p))) +
    sum_list (map restartCount (container_statuses p))"
proof -
  have "v_restartable (init_part p) = sum_list (map restartCount (filter (restartable_status p) (init_statuses p)))"
    using init_loop_restartable [OF assms [unfolded init_part_def]]
    by (simp add: init_part_def restartable_status_def [abs_def] start_vars_def)
  with assms show ?thesis
    by (simp add: compute_details_def container_part_def Let_def split_beta rounds_restarts rev_map [symmetric])
qed

theorem restarts_of_initialized_pod_witness:
  "restarts (compute_details (a_pod [a_status ''i'' (exited 0 None)]
     [a_status ''a'' (exited 1 None), a_status ''b'' (exited 0 None)] ''1'')) = 4"
proof -
  let ?p = "a_pod [a_status ''i'' (exited 0 None)] [a_status ''a'' (exited 1 None), a_status ''b'' (exited 0 None)] ''1''"
  have "\<not> v_initializing (init_part ?p)" by code_simp
  moreover have "sum_list (map restartCount (filter (restartable_status ?p) (init_statuses ?p))) +
    sum_list (map restartCount (container_statuses ?p)) = 4" by code_simp
  ultimately show ?thesis using restarts_of_initialized_pod [of ?p] by simp
qed

subsection \<open>The last restart\<close>

definition restart_dates :: "container_status list \<Rightarrow> int set" where
  "restart_dates cs = {d. \<exists>c \<in> set cs. \<exists>t. last_terminated c = Some t \<and> date_ms (map_option JStr (finishedAt t)) = Some d}"

lemma restart_dates_Cons:
  "restart_dates (c # cs) = restart_dates [c] \<union> restart_dates cs"
  by (auto simp: restart_dates_def)

lemma getLast_max: "getLastRestartDate c old \<in> insert old (restart_dates [c]) \<and> old \<le> getLastRestartDate c old \<and>
   (\<forall>d \<in> restart_dates [c]. d \<le> getLastRestartDate c old)"
  by (auto simp: getLastRestartDate_def later_def restart_dates_def split: option.splits)

lemma fold_getLast:
  "fold getLastRestartDate cs old \<in> insert old (restart_dates cs) \<and> old \<le> fold getLastRestartDate cs old \<and>
   (\<forall>d \<in> restart_dates cs. d \<le> fold getLastRestartDate cs old)"
proof (induction cs arbitrary: old)
  case Nil
  show ?case by (simp add: restart_dates_def)
next
  case (Cons c cs)
  show ?case
    using Cons [of "getLastRestartDate c old"] getLast_max [of c old] restart_dates_Cons [of c cs]
    by (auto intro: order_trans)
qed

text \<open>For a pod without init containers, the date shown is the latest end of a previous
  run among its containers that is a proper date, and the epoch when there is none.\<close>

theorem last_restart_is_the_latest:
  assumes "init_statuses p = []"
  shows "(\<forall>d \<in> restart_dates (container_statuses p). d \<le> lastRestartDate (compute_details p)) \<and>
    0 \<le> lastRestartDate (compute_details p) \<and>
    lastRestartDate (compute_details p) \<in> insert 0 (restart_dates (container_statuses p))"
proof -
  have "lastRestartDate (compute_details p) = fold getLastRestartDate (rev (container_statuses p)) 0"
    using assms by (simp add: compute_details_def init_part_def start_vars_def container_part_def
        Let_def split_beta rounds_last)
  moreover have "restart_dates (rev (container_statuses p)) = restart_dates (container_statuses p)"
    by (simp add: restart_dates_def)
  ultimately show ?thesis using fold_getLast [of "rev (container_statuses p)" 0] by simp
qed

theorem last_restart_is_the_latest_witness:
  "0 \<le> lastRestartDate (compute_details (a_pod [] [a_status ''a'' (exited 1 None)] ''1''))"
  using last_restart_is_the_latest [of "a_pod [] [a_status ''a'' (exited 1 None)] ''1''"]
  by (simp add: a_pod_def init_statuses_def)

subsection \<open>Readiness\<close>

lemma round_ready: "v_ready (fst (container_round c vb)) \<le> Suc (v_ready (fst vb))"
  by (simp add: container_round_def Let_def)

lemma rounds_ready: "v_ready (fst (fold container_round cs vb)) \<le> v_ready (fst vb) + length cs"
proof (induction cs arbitrary: vb)
  case (Cons c cs)
  show ?case using Cons [of "container_round c vb"] round_ready [of c vb] by simp
qed simp

lemma init_switch_ready:
  "init_switch i n r c v = Inl v' \<Longrightarrow> v_ready v' \<le> v_ready v + (if r then 1 else 0)"
  "init_switch i n r c v = Inr v' \<Longrightarrow> v_ready v' = v_ready v"
  by (auto simp: init_switch_def Let_def split: if_splits option.splits)

lemma init_loop_ready:
  "v_ready (init_loop d n i cs v) \<le>
     v_ready v + length (filter (\<lambda>c. isRestartableInitContainer (dict_get d (cs_name c))) cs)"
proof (induction cs arbitrary: i v)
  case (Cons c cs)
  let ?r = "isRestartableInitContainer (dict_get d (cs_name c))"
  show ?case
  proof (cases "init_switch i n ?r c (count_init ?r c v)")
    case (Inl v')
    have "v_ready v' \<le> v_ready v + (if ?r then 1 else 0)"
      using init_switch_ready(1) [OF Inl] by simp
    with Inl Cons [of "Suc i" v'] show ?thesis by (simp split: if_splits)
  next
    case (Inr v')
    with init_switch_ready(2) [OF Inr] show ?thesis by simp
  qed
qed simp

lemma init_dict_get:
  "dict_get (fold (\<lambda>ic. dict_set (c_name ic) ic) ics d) k = Some ic \<Longrightarrow>
   dict_get d k = Some ic \<or> (ic \<in> set ics \<and> c_name ic = k)"
proof (induction ics arbitrary: d)
  case (Cons a ics)
  from Cons.IH [of "dict_set (c_name a) a d"] Cons.prems show ?case by (auto split: if_splits)
qed simp

lemma restartable_inits:
  assumes "distinct (map cs_name cs)"
  shows "length (filter (\<lambda>c. isRestartableInitContainer (dict_get (init_dict ics) (cs_name c))) cs)
    \<le> length (filter (\<lambda>ic. isRestartableInitContainer (Some ic)) ics)"
proof -
  let ?P = "\<lambda>c. isRestartableInitContainer (dict_get (init_dict ics) (cs_name c))"
  let ?Q = "\<lambda>ic. isRestartableInitContainer (Some ic)"
  have "set (map cs_name (filter ?P cs)) \<subseteq> set (map c_name (filter ?Q ics))"
  proof
    fix k
    assume "k \<in> set (map cs_name (filter ?P cs))"
    then have k: "isRestartableInitContainer (dict_get (init_dict ics) k)" by auto
    then obtain ic where ic: "dict_get (init_dict ics) k = Some ic"
      by (auto simp: isRestartableInitContainer_def split: option.splits)
    then have "ic \<in> set ics \<and> c_name ic = k"
      using init_dict_get [of ics "[]" k ic] by (simp add: init_dict_def)
    with k ic show "k \<in> set (map c_name (filter ?Q ics))" by force
  qed
  then have "card (set (map cs_name (filter ?P cs))) \<le> card (set (map c_name (filter ?Q ics)))"
    by (rule card_mono [OF finite_set])
  moreover have "distinct (map cs_name (filter ?P cs))" using assms by (simp add: distinct_map_filter)
  ultimately show ?thesis
    using distinct_card [of "map cs_name (filter ?P cs)"] card_length [of "map c_name (filter ?Q ics)"]
    by simp
qed

text \<open>The ready count never exceeds the total beside it: with at most one status for each
  container and distinct names among the init statuses, as the API server sends them,
  \<open>readyContainers \<le> totalContainers\<close> on every path through the loops.\<close>

theorem ready_at_most_total:
  assumes "length (container_statuses p) \<le> length (pod_containers p)"
    and "distinct (map cs_name (init_statuses p))"
  shows "readyContainers (compute_details p) \<le> totalContainers (compute_details p)"
proof -
  have i: "v_ready (init_part p) \<le> length (filter (\<lambda>ic. isRestartableInitContainer (Some ic)) (pod_init_containers p))"
    using init_loop_ready [of "init_dict (pod_init_containers p)" "length (pod_init_containers p)" 0 "init_statuses p" "start_vars p"]
      restartable_inits [OF assms(2), of "pod_init_containers p"]
    by (simp add: init_part_def start_vars_def)
  have "v_ready (container_part p v) \<le> v_ready v + length (pod_containers p)" for v
    using rounds_ready [of "rev (container_statuses p)"
        "(v\<lparr>v_restarts := v_restartable v, v_last := v_restartable_last v\<rparr>, False)"] assms(1)
    by (simp add: container_part_def Let_def split_beta)
  from this [of "init_part p"] i show ?thesis
    by (simp add: compute_details_def total_containers_def Let_def)
qed

theorem ready_at_most_total_witness:
  "readyContainers (compute_details (a_pod [a_status ''i'' (exited 0 None)]
     [(a_status ''a'' \<lparr>terminated = None, waiting = None, running = True\<rparr>)\<lparr>cs_ready := True\<rparr>] ''1'')) \<le> 1"
proof -
  let ?p = "a_pod [a_status ''i'' (exited 0 None)]
     [(a_status ''a'' \<lparr>terminated = None, waiting = None, running = True\<rparr>)\<lparr>cs_ready := True\<rparr>] ''1''"
  have "length (container_statuses ?p) \<le> length (pod_containers ?p)" "distinct (map cs_name (init_statuses ?p))"
    "totalContainers (compute_details ?p) = 1" by code_simp+
  with ready_at_most_total [of ?p] show ?thesis by simp
qed

subsection \<open>The list and the overview\<close>

definition failure_shown :: "container_status list \<Rightarrow> string \<Rightarrow> bool" where
  "failure_shown cs r \<longleftrightarrow> (r \<in> set pod_failed_container_reasons \<longrightarrow> list_ex failing_container cs)"

lemma not_failure_prefix: "''Init:'' @ r \<notin> set pod_failed_container_reasons"
  "''Signal:'' @ r \<notin> set pod_failed_container_reasons"
  "''ExitCode:'' @ r \<notin> set pod_failed_container_reasons"
  by (simp_all add: pod_failed_container_reasons_def)

lemma init_reasons: "init_terminated_reason t \<notin> set pod_failed_container_reasons"
  using not_failure_prefix(1)
  by (simp add: init_terminated_reason_def pod_failed_container_reasons_def)

lemma init_switch_reason:
  "init_switch i n r c v = Inr v' \<Longrightarrow> v_reason v' \<notin> set pod_failed_container_reasons"
  using init_reasons not_failure_prefix(1)
  by (auto simp: init_switch_def Let_def split: if_splits option.splits simp del: append.simps)

lemma init_loop_reason:
  "v_reason v \<notin> set pod_failed_container_reasons \<Longrightarrow>
   v_reason (init_loop d n i cs v) \<notin> set pod_failed_container_reasons"
proof (induction cs arbitrary: i v)
  case (Cons c cs)
  let ?r = "isRestartableInitContainer (dict_get d (cs_name c))"
  show ?case
  proof (cases "init_switch i n ?r c (count_init ?r c v)")
    case (Inl v')
    with Cons.IH [of v' "Suc i"] Cons.prems init_switch_counters(1) [OF Inl] show ?thesis by simp
  next
    case (Inr v')
    with init_switch_reason [OF Inr] show ?thesis by simp
  qed
qed simp

lemma round_reason:
  "v_reason (fst (container_round c vb)) \<in> set pod_failed_container_reasons \<Longrightarrow>
   v_reason (fst vb) \<in> set pod_failed_container_reasons \<or> failing_container c"
  using not_failure_prefix(2,3)
  by (auto simp: container_round_def failing_container_def Let_def split: if_splits option.splits simp del: append.simps)

lemma rounds_reason:
  "v_reason (fst (fold container_round cs vb)) \<in> set pod_failed_container_reasons \<Longrightarrow>
   v_reason (fst vb) \<in> set pod_failed_container_reasons \<or> list_ex failing_container cs"
proof (induction cs arbitrary: vb)
  case (Cons c cs)
  then show ?case using round_reason [of c vb] by fastforce
qed simp

lemma container_part_reason:
  assumes "v_reason (container_part p v) \<in> set pod_failed_container_reasons"
  shows "v_reason v \<in> set pod_failed_container_reasons \<or> list_ex failing_container (container_statuses p)"
proof -
  have "''Running'' \<notin> set pod_failed_container_reasons" "''NotReady'' \<notin> set pod_failed_container_reasons"
    by code_simp+
  then have "v_reason (fst (fold container_round (rev (container_statuses p))
     (v\<lparr>v_restarts := v_restartable v, v_last := v_restartable_last v\<rparr>, False))) \<in> set pod_failed_container_reasons"
    using assms by (auto simp: container_part_def Let_def split_beta split: if_splits)
  from rounds_reason [OF this] show ?thesis by (simp add: list_ex_iff)
qed

text \<open>When the list shows one of the container failures as the status of a pod that is
  neither deleted nor finished, the overview counts the pod as failed. (The reason of the pod
  itself is taken not to be such a text; a container's is what the list shows then.)\<close>

theorem failure_in_list_is_failure_in_overview:
  assumes "reason (compute_details p) \<in> set pod_failed_container_reasons"
    and "\<not> truthy (deletionTimestamp p)" and "status_phase p \<noteq> Some ''Succeeded''"
    and "or_else (status_reason p) (or_else (status_phase p) ''Unknown'') \<notin> set pod_failed_container_reasons"
  shows "getHealth p = Failed"
proof -
  have i: "v_reason (init_part p) \<notin> set pod_failed_container_reasons"
    unfolding init_part_def by (rule init_loop_reason) (use assms(4) in \<open>simp add: start_vars_def\<close>)
  have "list_ex failing_container (container_statuses p)"
    using assms(1,2) i container_part_reason [of p "init_part p"]
    by (auto simp: compute_details_def deleted_reason_def Let_def split: if_splits)
  with assms(2,3) show ?thesis by (simp add: getHealth_def)
qed

theorem failure_in_list_is_failure_in_overview_witness:
  "getHealth (a_pod [] [a_status ''a'' (exited 1 (Some ''OOMKilled''))] ''1'') = Failed"
  by (rule failure_in_list_is_failure_in_overview) code_simp+

lemma rounds_no_reason:
  assumes "\<forall>c \<in> set cs. waiting (cstate c) = None \<and> Option.bind (terminated (cstate c)) t_reason = None"
  shows "v_reason (fst (fold container_round cs vb)) = v_reason (fst vb)"
  using assms
proof (induction cs arbitrary: vb)
  case (Cons c cs)
  then have "v_reason (fst (container_round c vb)) = v_reason (fst vb)"
    by (simp add: container_round_def Let_def)
  with Cons show ?case by simp
qed simp

text \<open>The API server leaves empty fields out, so a container that ended without a reason
  has none rather than an empty one. Then its exit code is not looked at: if no container
  waits and none ended with a reason, a running pod is listed by its phase, although the
  overview counts it as failed as soon as one exit code is not 0.\<close>

theorem exit_code_without_reason_is_not_listed:
  assumes "status_phase p = Some ''Running''" and "status_reason p = None"
    and "\<not> truthy (deletionTimestamp p)" and "init_statuses p = []"
    and "\<forall>c \<in> set (container_statuses p).
      waiting (cstate c) = None \<and> Option.bind (terminated (cstate c)) t_reason = None"
    and "c \<in> set (container_statuses p)" and "terminated (cstate c) = Some t" and "exitCode t \<noteq> 0"
  shows "reason (compute_details p) = ''Running'' \<and> getHealth p = Failed"
proof
  have "v_reason (fst (fold container_round (rev (container_statuses p)) (v, False))) = v_reason v" for v
    using rounds_no_reason [of "rev (container_statuses p)"] assms(5) by simp
  then show "reason (compute_details p) = ''Running''"
    using assms(1-4) by (simp add: compute_details_def init_part_def start_vars_def container_part_def
        deleted_reason_def Let_def split_beta)
  have "failing_container c" using assms(7,8) by (simp add: failing_container_def Let_def)
  with assms(6) have "list_ex failing_container (container_statuses p)" by (auto simp: list_ex_iff)
  then show "getHealth p = Failed" using assms(1,3) by (simp add: getHealth_def)
qed

theorem exit_code_without_reason_is_not_listed_witness:
  "reason (compute_details (a_pod [] [a_status ''a'' (exited 3 None)] ''1'')) = ''Running'' \<and>
   getHealth (a_pod [] [a_status ''a'' (exited 3 None)] ''1'') = Failed"
  by (rule exit_code_without_reason_is_not_listed [of _ "a_status ''a'' (exited 3 None)"
        "the (terminated (exited 3 None))"]) code_simp+

lemma init_loop_finished:
  assumes "\<forall>c \<in> set pre. \<exists>t. terminated (cstate c) = Some t \<and> exitCode t = 0"
  shows "\<exists>v'. v_reason v' = v_reason v \<and> init_loop d n i (pre @ cs) v = init_loop d n (i + length pre) cs v'"
  using assms
proof (induction pre arbitrary: i v)
  case Nil
  then show ?case by auto
next
  case (Cons c pre)
  let ?r = "isRestartableInitContainer (dict_get d (cs_name c))"
  have "init_switch i n ?r c (count_init ?r c v) = Inl (count_init ?r c v)"
    using Cons.prems by (auto simp: init_switch_def Let_def)
  moreover obtain v' where "v_reason v' = v_reason (count_init ?r c v)"
    "init_loop d n (Suc i) (pre @ cs) (count_init ?r c v) = init_loop d n (Suc i + length pre) cs v'"
    using Cons.IH [of "count_init ?r c v" "Suc i"] Cons.prems by auto
  ultimately show ?case by (intro exI [of _ v']) simp
qed

text \<open>An init container that ends with an error and has neither reason nor signal in the
  answer of the server (again because empty fields are left out) is listed as
  \<open>Init:Signal:undefined\<close>, not by its exit code.\<close>

theorem init_error_without_signal_is_undefined:
  assumes "init_statuses p = pre @ c # post"
    and "\<forall>c \<in> set pre. \<exists>t. terminated (cstate c) = Some t \<and> exitCode t = 0"
    and "terminated (cstate c) = Some t" and "exitCode t \<noteq> 0" and "t_reason t = None" and "signal t = None"
    and "started c \<noteq> Some True"
    and "\<not> truthy (deletionTimestamp p)" and "\<not> isPodInitializedConditionTrue p"
  shows "reason (compute_details p) = ''Init:Signal:undefined''"
proof -
  obtain v where v: "init_part p = init_loop (init_dict (pod_init_containers p)) (length (pod_init_containers p)) (length pre) (c # post) v"
    using init_loop_finished [OF assms(2), of "start_vars p" "init_dict (pod_init_containers p)"
        "length (pod_init_containers p)" 0 "c # post"] assms(1)
    by (auto simp: init_part_def)
  let ?r = "isRestartableInitContainer (dict_get (init_dict (pod_init_containers p)) (cs_name c))"
  let ?v = "count_init ?r c v"
  have "init_switch (length pre) (length (pod_init_containers p)) ?r c ?v =
      Inr (?v\<lparr>v_reason := ''Init:Signal:undefined'', v_message := or_else (t_message t) [], v_initializing := True\<rparr>)"
    using assms(3-7) by (simp add: init_switch_def init_terminated_reason_def num_text_def Let_def)
  with assms(8,9) v show ?thesis by (simp add: compute_details_def deleted_reason_def Let_def)
qed

theorem init_error_without_signal_is_undefined_witness:
  "reason (compute_details (a_pod [a_status ''i'' (exited 0 None), a_status ''j'' (exited 7 None)] [] ''1'')) =
    ''Init:Signal:undefined''"
  by (rule init_error_without_signal_is_undefined [of _ "[a_status ''i'' (exited 0 None)]"
        "a_status ''j'' (exited 7 None)" "[]" "the (terminated (exited 7 None))"])
     (simp_all add: a_pod_def a_status_def exited_def init_statuses_def isPodInitializedConditionTrue_def
        pod_conditions_def has_condition_def)

subsection \<open>Log streams\<close>

definition log_inv :: "log_world \<Rightarrow> bool" where
  [inv_defs]: "log_inv w \<longleftrightarrow> retry_timers (log_stream w) = 0 \<and> connectCalls (log_stream w) = 1 \<and>
     reconnectStops w + (if isReconnecting w then 1 else 0) \<le> 1 \<and>
     (onLogs_calls w = [] \<and> logs w = [] \<or> (\<exists>h cs. onLogs_calls w = cs @ [(logs w, h)])) \<and>
     map (length \<circ> fst) (onLogs_calls w) = [1..<Suc (length (onLogs_calls w))]"

lemma log_args_no_retry: "\<not> reconnectOnFailure (log_args c)"
  by (simp add: reconnectOnFailure_def log_args_def)

lemma log_stream_step:
  assumes "retry_timers st = 0" and "connectCalls st = 1"
  shows "retry_timers (stream_step (log_args c) st e) = 0" "connectCalls (stream_step (log_args c) st e) = 1"
  using assms log_args_no_retry [of c]
  by (cases e; simp add: stream_step_def stream_connected_def conn_onclose_def onFail_def Let_def
      stream_cancel_def conn_close_def split: option.split)+

lemma onResults_inv: "log_inv w \<Longrightarrow> log_inv (onResults parse decode o' item w)"
  by (auto simp: log_inv_def onResults_def Let_def)

lemma log_failCb_inv: "log_inv w \<Longrightarrow> log_inv (log_failCb o' w)"
  by (auto simp: log_inv_def log_failCb_def)

lemma log_stream_upd_inv:
  "log_inv w \<Longrightarrow> log_inv (w\<lparr>log_stream := stream_step (log_args c) (log_stream w) e\<rparr>)"
  using log_stream_step [of "log_stream w" c e] by (simp add: log_inv_def)

lemma log_step_inv: "log_inv w \<Longrightarrow> log_inv (log_step parse decode o' c w e)"
proof -
  assume w: "log_inv w"
  let ?st = "log_stream w" and ?st' = "stream_step (log_args c) (log_stream w) e"
  have n: "\<not> connectCalls ?st < connectCalls ?st'"
    using w log_stream_step(2) [of ?st c e] by (simp add: log_inv_def)
  note w1 = log_stream_upd_inv [OF w, of c e]
  show ?thesis
    using n w1 by (auto simp: log_step_def Let_def intro!: log_failCb_inv onResults_inv split: option.split json.split)
qed

interpretation log_streams: reducer "log_step parse decode o' c" log_inv
  by unfold_locales (rule log_step_inv)

text \<open>A log stream connects once and never again, whatever fails; it reports the end of
  its attempts at most once; and every call of \<open>onLogs\<close> has one entry more than the call
  before, so no line is lost or repeated.\<close>

theorem log_stream_runs_once:
  "let w = foldl (log_step parse decode o' c) log_start es
   in connectCalls (log_stream w) = 1 \<and> retry_timers (log_stream w) = 0 \<and> reconnectStops w \<le> 1 \<and>
      map (length \<circ> fst) (onLogs_calls w) = [1..<Suc (length (onLogs_calls w))]"
proof -
  have "log_inv log_start"
    by (simp add: log_inv_def log_start_def log_connectCb_def stream_start_def stream_connect_def)
  from log_streams.run_inv [OF this, of parse decode o' c es]
  show ?thesis by (simp add: log_inv_def Let_def)
qed

text \<open>Unescaping undoes one escape at a time and the backslash last, so an escaped
  backslash before a letter is read wrongly: the three characters of an escaped
  backslash followed by \<open>n\<close> become a backslash and a line feed.\<close>

theorem unescape_reads_escaped_backslash_wrongly:
  "unescapeStringLiterals [bs, bs, CHR ''n''] = [bs, lf] \<and>
   unescapeStringLiterals [bs, bs, CHR ''t''] = [bs, CHR 0x09]"
  by code_simp

end
