(* ===== verification/ClusterAction.thy ===== *)
theory ClusterAction
  imports JsPrelude
begin

text \<open>
  Actions on a cluster that can be cancelled for five seconds,
  \<^verbatim>\<open>frontend/src/redux/clusterActionSlice.ts\<close>: the slice with its two reducers, the
  asynchronous \<open>executeClusterAction\<close> as a machine over its phases, and the text of an error
  (\<open>splitK8sValidationErrors\<close> and the two regular expressions of \<open>dispatchError\<close>).

  An action in the store is a JavaScript object: an own property may be there with the value
  \<open>undefined\<close>, so it is a dictionary of optional values. The key of an action (time plus
  random number) and the translated label of the button are given from outside. The bullet
  of an error list stands for its character.
\<close>

section \<open>The text of an error\<close>

text \<open>\<^verbatim>\<open>/^[a-z][\w./[\]-]*:/\<close>\<close>

definition field_char :: "char \<Rightarrow> bool" where
  "field_char c = (is_word_char c \<or> c \<in> set ''./[]-'')"

definition field_path :: "string \<Rightarrow> bool" where
  "field_path s = (case s of [] \<Rightarrow> False
     | c # r \<Rightarrow> is_lower c \<and> starts_with (dropWhile field_char r) '':'')"

text \<open>The loop of \<open>splitK8sValidationErrors\<close>: the character before, the depth, the flag, the
  part being read (backwards), and the rest of the text. The space of a separator leaves the
  variables alone, so it is skipped together with the comma.\<close>

definition dquote :: char where "dquote = CHR 0x22"
definition backslash :: char where "backslash = CHR 0x5C"

fun split_loop :: "char option \<Rightarrow> nat \<Rightarrow> bool \<Rightarrow> string \<Rightarrow> string \<Rightarrow> string list" where
  "split_loop prev depth inString part [] = [rev part]"
| "split_loop prev depth inString part (ch # s) =
     (if ch = dquote \<and> prev \<noteq> Some backslash
      then split_loop (Some ch) depth (\<not> inString) (ch # part) s
      else if inString then split_loop (Some ch) depth inString (ch # part) s
      else if ch = CHR ''{'' \<or> ch = CHR ''['' then split_loop (Some ch) (depth + 1) inString (ch # part) s
      else if ch = CHR ''}'' \<or> ch = CHR '']'' then split_loop (Some ch) (depth - 1) inString (ch # part) s
      else if depth = 0 \<and> ch = CHR '','' \<and> starts_with s '' '' \<and> field_path (drop 1 s)
      then rev part # (case s of [] \<Rightarrow> [[]] | sp # r \<Rightarrow> split_loop (Some sp) depth inString [] r)
      else split_loop (Some ch) depth inString (ch # part) s)"

definition splitK8sValidationErrors :: "string \<Rightarrow> string list" where
  "splitK8sValidationErrors inner = split_loop None 0 False [] inner"

text \<open>\<^verbatim>\<open>/,?\s*regex used for validation is '[^']*'/g\<close> replaced by nothing.\<close>

definition squote :: char where "squote = CHR 0x27"

definition regex_note :: "string \<Rightarrow> string option" where
  "regex_note s =
    (let s1 = (if starts_with s '','' then tl s else s);
         s2 = dropWhile is_space s1;
         lit = ''regex used for validation is '' @ [squote]
     in if starts_with s2 lit
        then (case dropWhile (\<lambda>c. c \<noteq> squote) (drop (length lit) s2) of [] \<Rightarrow> None | q # r \<Rightarrow> Some r)
        else None)"

lemma dropWhile_shorter: "length (dropWhile P xs) \<le> length xs"
  by (rule length_dropWhile_le)

lemma regex_note_shorter: "regex_note s = Some r \<Longrightarrow> length r < length s"
proof -
  assume a: "regex_note s = Some r"
  define s1 where "s1 = (if starts_with s '','' then tl s else s)"
  define l where "l = ''regex used for validation is '' @ [squote]"
  obtain q where q: "dropWhile (\<lambda>c. c \<noteq> squote) (drop (length l) (dropWhile is_space s1)) = q # r"
    using a by (auto simp: regex_note_def Let_def s1_def l_def split: list.splits if_splits)
  have "length (q # r) \<le> length (drop (length l) (dropWhile is_space s1))"
    unfolding q [symmetric] by (rule length_dropWhile_le)
  also have "\<dots> \<le> length (dropWhile is_space s1)" by simp
  also have "\<dots> \<le> length s1" by (rule length_dropWhile_le)
  also have "\<dots> \<le> length s" by (simp add: s1_def)
  finally show ?thesis by simp
qed

function strip_regex_notes :: "string \<Rightarrow> string" where
  "strip_regex_notes s =
     (case regex_note s of
        Some r \<Rightarrow> strip_regex_notes r
      | None \<Rightarrow> (case s of [] \<Rightarrow> [] | c # t \<Rightarrow> c # strip_regex_notes t))"
  by pat_completeness auto
termination
  by (relation "measure length") (auto dest: regex_note_shorter)

declare strip_regex_notes.simps [simp del]

text \<open>\<^verbatim>\<open>/^(.*?is invalid:)\s*\[(.+)\]\s*$/s\<close>: the first place where it matches; the prefix and
  the inner text.\<close>

definition bracket_body :: "string \<Rightarrow> string option" where
  "bracket_body s =
    (let t = trim_end (dropWhile is_space s)
     in if starts_with t ''['' \<and> ends_with t '']'' \<and> 3 \<le> length t then Some (butlast (tl t)) else None)"

fun match_invalid :: "string \<Rightarrow> (string \<times> string) option" where
  "match_invalid [] = None"
| "match_invalid (c # s) =
     (case (if starts_with (c # s) ''is invalid:'' then bracket_body (drop 11 (c # s)) else None) of
        Some inner \<Rightarrow> Some (''is invalid:'', inner)
      | None \<Rightarrow> map_option (\<lambda>(a, inner). (c # a, inner)) (match_invalid s))"

definition bullet :: char where "bullet = CHR 0xB7"

definition original_message :: "string \<Rightarrow> string" where
  "original_message raw =
    (let cleaned = strip_regex_notes raw
     in case match_invalid cleaned of
          Some (pre, inner) \<Rightarrow>
            js_trim (pre @ [CHR 0x0A] @
              js_join [CHR 0x0A] (map (\<lambda>s. [bullet] @ '' '' @ js_trim s) (splitK8sValidationErrors inner)))
        | None \<Rightarrow> js_trim cleaned)"

text \<open>The message of \<open>dispatchError\<close>; no error is \<open>None\<close>.\<close>

definition error_text :: "string option \<Rightarrow> string option \<Rightarrow> string" where
  "error_text errorMessage err =
    (let message = or_else errorMessage []
     in case err of
          None \<Rightarrow> message
        | Some raw \<Rightarrow>
            let original = (if raw \<noteq> [] then original_message raw else raw)
            in if original \<noteq> []
               then let separator = (if message \<noteq> [] then (if ends_with message ''.'' then '' '' else ''. '') else [])
                    in message @ separator @ original
               else message)"

section \<open>The store\<close>

type_synonym action_object = "(string, json option) dict"

type_synonym cluster_state = "(string, action_object) dict"

definition assign :: "action_object \<Rightarrow> action_object \<Rightarrow> action_object" where
  "assign base ob = fold (\<lambda>(k, v). dict_set k v) ob base"

definition own_prop :: "action_object \<Rightarrow> string \<Rightarrow> json option" where
  "own_prop ob k = (case dict_get ob k of None \<Rightarrow> None | Some v \<Rightarrow> v)"

definition updateClusterAction :: "string \<Rightarrow> action_object \<Rightarrow> cluster_state \<Rightarrow> cluster_state" where
  [state_defs]: "updateClusterAction id' actionOptions state =
    (if actionOptions = [] then dict_delete id' state
     else let old = (case dict_get state id' of None \<Rightarrow> [] | Some a \<Rightarrow> a);
              new = dict_set ''id'' (Some (JStr id')) (assign old (dict_delete ''snackbarProps'' actionOptions))
          in dict_set id' (dict_set ''snackbarProps'' (own_prop actionOptions ''snackbarProps'') new) state)"

section \<open>Executing an action\<close>

record callback_options =
  startUrl :: "string option"
  cancelUrl :: "string option"
  errorUrl :: "string option"
  successUrl :: "string option"
  startMessage :: "string option"
  cancelledMessage :: "string option"
  errorMessage :: "string option"
  successMessage :: "string option"
  startOptions :: "json option"
  cancelledOptions :: "json option"
  successOptions :: "json option"
  errorOptions :: "json option"
  has_cancelCallback :: bool

datatype run_phase = Grace | Calling | Finished | Gone

record run =
  r_options :: callback_options
  r_phase :: run_phase
  r_aborted :: bool

text \<open>The store, the controllers by key, the executions that were started, and the calls of
  the callbacks and of the cancel callbacks (by key).\<close>

record ca_world =
  actions :: cluster_state
  controllers :: "string list"
  runs :: "(string, run) dict"
  callbackCalls :: "string list"
  cancelCalls :: "string list"

definition or_json :: "json option \<Rightarrow> json \<Rightarrow> json" where
  "or_json v d = (case v of None \<Rightarrow> d | Some j \<Rightarrow> j)"

definition variant :: "string \<Rightarrow> json" where
  "variant s = JObj [(''variant'', JStr s)]"

definition put :: "string \<Rightarrow> action_object \<Rightarrow> ca_world \<Rightarrow> ca_world" where
  [state_defs]: "put key ob w = w\<lparr>actions := updateClusterAction key ob (actions w)\<rparr>"

definition cancel_type :: "string \<Rightarrow> string" where
  "cancel_type key = ''clusterAction/cancel/'' @ key"

definition dispatchStart :: "string \<Rightarrow> string \<Rightarrow> callback_options \<Rightarrow> ca_world \<Rightarrow> ca_world" where
  [state_defs]: "dispatchStart label key o' =
    put key [(''key'', Some (JStr key)), (''message'', map_option JStr (startMessage o')),
      (''state'', Some (JStr ''start'')), (''url'', map_option JStr (startUrl o')),
      (''buttons'', Some (JArr [JObj [(''label'', JStr label), (''actionToDispatch'', JStr (cancel_type key))]])),
      (''snackbarProps'', Some (or_json (startOptions o') (JObj [])))]"

definition dispatchSuccess :: "string \<Rightarrow> callback_options \<Rightarrow> ca_world \<Rightarrow> ca_world" where
  [state_defs]: "dispatchSuccess key o' =
    put key [(''buttons'', None), (''dismissSnackbar'', Some (JStr key)),
      (''message'', map_option JStr (successMessage o')), (''state'', Some (JStr ''complete'')),
      (''snackbarProps'', Some (or_json (successOptions o') (variant ''success''))),
      (''url'', map_option JStr (successUrl o'))]"

definition dispatchCancelled :: "string \<Rightarrow> callback_options \<Rightarrow> ca_world \<Rightarrow> ca_world" where
  [state_defs]: "dispatchCancelled key o' =
    put key [(''buttons'', None), (''message'', map_option JStr (cancelledMessage o')),
      (''state'', Some (JStr ''complete'')), (''dismissSnackbar'', Some (JStr key)),
      (''url'', map_option JStr (cancelUrl o')),
      (''snackbarProps'', Some (or_json (cancelledOptions o') (JObj []))),
      (''autoHideDuration'', Some (JNum 3000))]"

definition dispatchError :: "string \<Rightarrow> callback_options \<Rightarrow> string option \<Rightarrow> ca_world \<Rightarrow> ca_world" where
  [state_defs]: "dispatchError key o' err =
    put key [(''buttons'', None), (''dismissSnackbar'', Some (JStr key)),
      (''message'', Some (JStr (error_text (errorMessage o') err))), (''state'', Some (JStr ''error'')),
      (''snackbarProps'', Some (or_json (errorOptions o') (variant ''error''))),
      (''url'', map_option JStr (errorUrl o'))]"

definition dispatchClose :: "string \<Rightarrow> ca_world \<Rightarrow> ca_world" where
  [state_defs]: "dispatchClose key = put key []"

definition set_run :: "string \<Rightarrow> run \<Rightarrow> ca_world \<Rightarrow> ca_world" where
  [state_defs]: "set_run key r w = w\<lparr>runs := dict_set key r (runs w)\<rparr>"

text \<open>The start of \<open>executeClusterAction\<close>, up to the wait for the grace period.\<close>

definition execute :: "string \<Rightarrow> string \<Rightarrow> callback_options \<Rightarrow> ca_world \<Rightarrow> ca_world" where
  [state_defs]: "execute label key o' w =
    set_run key \<lparr>r_options = o', r_phase = Grace, r_aborted = False\<rparr>
      (dispatchStart label key o' (w\<lparr>controllers := set_add key (controllers w)\<rparr>))"

text \<open>The \<open>finally\<close> block: the controller goes, the close timer is armed.\<close>

definition finish :: "string \<Rightarrow> run \<Rightarrow> ca_world \<Rightarrow> ca_world" where
  [state_defs]: "finish key r w =
    set_run key (r\<lparr>r_phase := Finished\<rparr>) (w\<lparr>controllers := set_remove key (controllers w)\<rparr>)"

text \<open>The \<open>catch\<close> block for an error with the given message.\<close>

definition caught :: "string \<Rightarrow> run \<Rightarrow> string \<Rightarrow> ca_world \<Rightarrow> ca_world" where
  [state_defs]: "caught key r msg w =
    (if msg = ''Action cancelled'' \<or> r_aborted r
     then let w' = dispatchCancelled key (r_options r) w
          in if has_cancelCallback (r_options r) then w'\<lparr>cancelCalls := cancelCalls w' @ [key]\<rparr> else w'
     else dispatchError key (r_options r) (Some msg) w)"

text \<open>\<open>cancelClusterAction\<close>. Aborting during the grace period rejects the promise that is
  awaited there; the code after it runs right after the reducer. Later there is nothing to
  reject.\<close>

definition cancelClusterAction :: "string \<Rightarrow> ca_world \<Rightarrow> ca_world" where
  [state_defs]: "cancelClusterAction key w =
    (if key \<in> set (controllers w)
     then let w1 = w\<lparr>controllers := set_remove key (controllers w),
                    actions := dict_delete key (actions w)\<rparr>
          in case dict_get (runs w) key of
               None \<Rightarrow> w1
             | Some r \<Rightarrow>
                 let r' = r\<lparr>r_aborted := True\<rparr>
                 in if r_phase r = Grace then finish key r' (caught key r' ''Action cancelled'' w1)
                    else set_run key r' w1
     else w\<lparr>actions := dict_delete key (actions w)\<rparr>)"

text \<open>The matcher of the slice for the actions of the cancel buttons.\<close>

definition cancel_matcher :: "string \<Rightarrow> ca_world \<Rightarrow> ca_world" where
  [state_defs]: "cancel_matcher ty w =
    (if starts_with ty ''clusterAction/cancel/''
     then (case js_split ''clusterAction/cancel/'' ty of
             _ # actionKey # _ \<Rightarrow> cancelClusterAction actionKey w | _ \<Rightarrow> w)
     else w)"

definition grace_over :: "string \<Rightarrow> ca_world \<Rightarrow> ca_world" where
  [state_defs]: "grace_over key w =
    (case dict_get (runs w) key of
       Some r \<Rightarrow> if r_phase r = Grace
                then (set_run key (r\<lparr>r_phase := Calling\<rparr>) w)\<lparr>callbackCalls := callbackCalls w @ [key]\<rparr>
                else w
     | None \<Rightarrow> w)"

text \<open>The callback's promise settles: \<open>None\<close> is success, \<open>Some\<close> the message of its error.\<close>

definition callback_settled :: "string \<Rightarrow> string option \<Rightarrow> ca_world \<Rightarrow> ca_world" where
  [state_defs]: "callback_settled key err w =
    (case dict_get (runs w) key of
       Some r \<Rightarrow> if r_phase r = Calling
                then finish key r (case err of None \<Rightarrow> dispatchSuccess key (r_options r) w
                                   | Some msg \<Rightarrow> caught key r msg w)
                else w
     | None \<Rightarrow> w)"

definition close_due :: "string \<Rightarrow> ca_world \<Rightarrow> ca_world" where
  [state_defs]: "close_due key w =
    (case dict_get (runs w) key of
       Some r \<Rightarrow> if r_phase r = Finished then set_run key (r\<lparr>r_phase := Gone\<rparr>) (dispatchClose key w) else w
     | None \<Rightarrow> w)"

datatype ca_event =
    CaExecute string callback_options
  | CaGrace string
  | CaSettled string "string option"
  | CaClose string
  | CaDispatch string

text \<open>A key is used once: an execution under a key that was used before does not happen.\<close>

fun ca_step :: "string \<Rightarrow> ca_world \<Rightarrow> ca_event \<Rightarrow> ca_world" where
  "ca_step label w (CaExecute key o') = (if dict_has (runs w) key then w else execute label key o' w)"
| "ca_step label w (CaGrace key) = grace_over key w"
| "ca_step label w (CaSettled key err) = callback_settled key err w"
| "ca_step label w (CaClose key) = close_due key w"
| "ca_step label w (CaDispatch ty) = cancel_matcher ty w"

definition ca_start :: ca_world where
  [state_defs]: "ca_start = \<lparr>actions = [], controllers = [], runs = [], callbackCalls = [], cancelCalls = []\<rparr>"

section \<open>Properties\<close>

subsection \<open>Splitting error lists\<close>

lemma split_loop_nonempty: "split_loop prev d b part s \<noteq> []"
  by (induction prev d b part s rule: split_loop.induct) (simp_all split: list.split)

lemma split_loop_join: "js_join '', '' (split_loop prev d b part s) = rev part @ s"
proof (induction prev d b part s rule: split_loop.induct)
  case (2 prev d b part ch s)
  show ?case
  proof (cases "(ch = dquote \<and> prev \<noteq> Some backslash) \<or> b \<or> ch = CHR ''{'' \<or> ch = CHR ''['' \<or>
      ch = CHR ''}'' \<or> ch = CHR '']'' \<or> \<not> (d = 0 \<and> ch = CHR '','' \<and> starts_with s '' '' \<and> field_path (drop 1 s))")
    case True
    with 2 show ?thesis by auto
  next
    case False
    then obtain sp r where s: "s = sp # r" "sp = CHR '' ''" "ch = CHR '',''"
      by (cases s) (auto simp: starts_with_def)
    have IH: "js_join '', '' (split_loop (Some sp) d b [] r) = r"
      using 2(5) False s(1) by simp
    have "split_loop prev d b part (ch # s) = rev part # split_loop (Some sp) d b [] r"
      using False s(1) by (simp add: s dquote_def)
    then show ?thesis
      using IH s by (simp add: js_join_Cons split_loop_nonempty)
  qed
qed simp

text \<open>Splitting the errors of the API server loses nothing: the parts joined with a comma
  and a space are the text again, and there is at least one part.\<close>

theorem split_errors_loses_nothing:
  "js_join '', '' (splitK8sValidationErrors inner) = inner \<and> splitK8sValidationErrors inner \<noteq> []"
  by (simp add: splitK8sValidationErrors_def split_loop_join split_loop_nonempty)

text \<open>The text of an error that is a list.\<close>

lemma error_text_example:
  "error_text (Some ''Failed.'') (Some ''Pod is invalid: [spec.a: Invalid value: \"x, b: c\", spec.b: Required]'') =
   ''Failed. Pod is invalid:'' @ [CHR 0x0A, bullet] @ '' spec.a: Invalid value: \"x, b: c\"'' @
     [CHR 0x0A, bullet] @ '' spec.b: Required''"
  by code_simp

subsection \<open>One action at a time\<close>

text \<open>What holds of the action under a key, by the phase of its execution.\<close>

definition phase_ok :: "run option \<Rightarrow> bool \<Rightarrow> bool \<Rightarrow> nat \<Rightarrow> bool" where
  "phase_ok r controlled shown calls =
    (case r of None \<Rightarrow> \<not> controlled \<and> \<not> shown \<and> calls = 0
     | Some r \<Rightarrow> (case r_phase r of
         Grace \<Rightarrow> controlled \<and> \<not> r_aborted r \<and> calls = 0
       | Calling \<Rightarrow> controlled = (\<not> r_aborted r) \<and> calls = 1
       | Finished \<Rightarrow> \<not> controlled \<and> calls \<le> 1
       | Gone \<Rightarrow> \<not> controlled \<and> \<not> shown \<and> calls \<le> 1))"

definition key_ok :: "ca_world \<Rightarrow> string \<Rightarrow> bool" where
  [inv_defs]: "key_ok w k = phase_ok (dict_get (runs w) k) (k \<in> set (controllers w))
     (dict_has (actions w) k) (count_list (callbackCalls w) k)"

definition ca_inv :: "ca_world \<Rightarrow> bool" where
  [inv_defs]: "ca_inv w = (\<forall>k. key_ok w k)"

lemma has_update [simp]:
  "dict_has (updateClusterAction id' ob st) k \<longleftrightarrow>
     (if k = id' then ob \<noteq> [] else dict_has st k)"
  by (auto simp: updateClusterAction_def Let_def)

lemma put_simps [simp]:
  "actions (put key ob w) = updateClusterAction key ob (actions w)"
  "controllers (put key ob w) = controllers w" "runs (put key ob w) = runs w"
  "callbackCalls (put key ob w) = callbackCalls w" "cancelCalls (put key ob w) = cancelCalls w"
  by (simp_all add: put_def)

lemma set_run_simps [simp]:
  "actions (set_run key r w) = actions w" "controllers (set_run key r w) = controllers w"
  "runs (set_run key r w) = dict_set key r (runs w)" "callbackCalls (set_run key r w) = callbackCalls w"
  "cancelCalls (set_run key r w) = cancelCalls w"
  by (simp_all add: set_run_def)

lemma caught_simps [simp]:
  "controllers (caught key r msg w) = controllers w" "runs (caught key r msg w) = runs w"
  "callbackCalls (caught key r msg w) = callbackCalls w"
  "dict_has (actions (caught key r msg w)) k \<longleftrightarrow> k = key \<or> dict_has (actions w) k"
  by (auto simp: caught_def Let_def dispatchCancelled_def dispatchError_def)

lemma success_simps [simp]:
  "controllers (dispatchSuccess key o' w) = controllers w" "runs (dispatchSuccess key o' w) = runs w"
  "callbackCalls (dispatchSuccess key o' w) = callbackCalls w"
  "dict_has (actions (dispatchSuccess key o' w)) k \<longleftrightarrow> k = key \<or> dict_has (actions w) k"
  by (auto simp: dispatchSuccess_def)

lemma finish_simps [simp]:
  "actions (finish key r w) = actions w" "controllers (finish key r w) = set_remove key (controllers w)"
  "runs (finish key r w) = dict_set key (r\<lparr>r_phase := Finished\<rparr>) (runs w)"
  "callbackCalls (finish key r w) = callbackCalls w" "cancelCalls (finish key r w) = cancelCalls w"
  by (simp_all add: finish_def)

definition view :: "ca_world \<Rightarrow> string \<Rightarrow> run option \<times> bool \<times> bool \<times> nat" where
  "view w k = (dict_get (runs w) k, k \<in> set (controllers w), dict_has (actions w) k, count_list (callbackCalls w) k)"

lemma key_ok_view: "key_ok w k \<longleftrightarrow> (case view w k of (r, c, s, n) \<Rightarrow> phase_ok r c s n)"
  by (simp add: key_ok_def view_def)

lemma view_upd_calls: "k \<noteq> key \<Longrightarrow> view (w\<lparr>callbackCalls := callbackCalls w @ [key]\<rparr>) k = view w k"
  by (simp add: view_def)

text \<open>An operation on one key leaves the view of the others alone.\<close>

lemma view_other:
  assumes "k \<noteq> key"
  shows "view (execute label key o' w) k = view w k" "view (grace_over key w) k = view w k"
    "view (callback_settled key err w) k = view w k" "view (close_due key w) k = view w k"
    "view (cancelClusterAction key w) k = view w k"
  using assms
  by (simp_all add: view_def execute_def dispatchStart_def grace_over_def callback_settled_def
      close_due_def dispatchClose_def cancelClusterAction_def Let_def split: option.split)

lemma execute_inv: "key_ok w k \<Longrightarrow> \<not> dict_has (runs w) key \<Longrightarrow> key_ok (execute label key o' w) k"
proof (cases "k = key")
  case True
  assume "key_ok w k" "\<not> dict_has (runs w) key"
  with True show ?thesis
    by (simp add: key_ok_def phase_ok_def execute_def dispatchStart_def dict_has_def [of "runs w"])
qed (simp add: key_ok_view view_other)

lemma grace_inv: "key_ok w k \<Longrightarrow> key_ok (grace_over key w) k"
proof (cases "k = key")
  case True
  assume "key_ok w k"
  with True show ?thesis
    by (cases "dict_get (runs w) key") (auto simp: key_ok_def phase_ok_def grace_over_def split: run_phase.splits)
qed (simp add: key_ok_view view_other)

lemma settled_inv: "key_ok w k \<Longrightarrow> key_ok (callback_settled key err w) k"
proof (cases "k = key")
  case True
  assume "key_ok w k"
  with True show ?thesis
    by (cases "dict_get (runs w) key"; cases err) (auto simp: key_ok_def phase_ok_def callback_settled_def split: run_phase.splits)
qed (simp add: key_ok_view view_other)

lemma close_due_inv: "key_ok w k \<Longrightarrow> key_ok (close_due key w) k"
proof (cases "k = key")
  case True
  assume "key_ok w k"
  with True show ?thesis
    by (cases "dict_get (runs w) key") (auto simp: key_ok_def phase_ok_def close_due_def dispatchClose_def split: run_phase.splits)
qed (simp add: key_ok_view view_other)

lemma cancel_inv: "key_ok w k \<Longrightarrow> key_ok (cancelClusterAction key w) k"
proof (cases "k = key")
  case True
  assume ok: "key_ok w k"
  show ?thesis
  proof (cases "dict_get (runs w) key")
    case None
    with ok True show ?thesis
      by (simp add: key_ok_def phase_ok_def cancelClusterAction_def)
  next
    case (Some r)
    with ok True show ?thesis
      by (cases "r_phase r") (simp_all add: key_ok_def phase_ok_def cancelClusterAction_def Let_def)
  qed
qed (simp add: key_ok_view view_other)

lemma matcher_cases: "cancel_matcher ty w = w \<or> (\<exists>key. cancel_matcher ty w = cancelClusterAction key w)"
  by (auto simp: cancel_matcher_def split: list.split)

lemma ca_step_inv:
  assumes "ca_inv w"
  shows "ca_inv (ca_step label w e)"
proof (cases e)
  case (CaDispatch ty)
  have "key_ok (cancel_matcher ty w) k" for k
    using matcher_cases [of ty w] cancel_inv [of w k] assms by (auto simp: ca_inv_def)
  with CaDispatch show ?thesis by (simp add: ca_inv_def)
qed (use assms in \<open>simp_all add: ca_inv_def execute_inv grace_inv settled_inv close_due_inv\<close>)

interpretation cluster_actions: reducer "ca_step label" ca_inv
  by unfold_locales (rule ca_step_inv)

lemma ca_start_inv: "ca_inv ca_start"
  by (simp add: ca_inv_def ca_start_def key_ok_def phase_ok_def)

lemma ca_reachable_ok: "key_ok (foldl (ca_step label) ca_start es) k"
  using cluster_actions.run_inv [OF ca_start_inv, of label es] by (simp add: ca_inv_def)

text \<open>Through any order of executions, timers, answers and cancels, the callback of an
  action is called at most once, and the store shows an action only while its execution is
  not closed: nothing is left behind.\<close>

theorem callbacks_once_and_entries_cleared:
  "let w = foldl (ca_step label) ca_start es
   in count_list (callbackCalls w) k \<le> 1 \<and>
      (dict_has (actions w) k \<longrightarrow> (\<exists>r. dict_get (runs w) k = Some r \<and> r_phase r \<noteq> Gone))"
  using ca_reachable_ok [of label es k]
  by (auto simp: Let_def key_ok_def phase_ok_def split: option.splits run_phase.splits)

theorem callbacks_once_and_entries_cleared_witness:
  "let o' = \<lparr>startUrl = None, cancelUrl = None, errorUrl = None, successUrl = None, startMessage = None,
       cancelledMessage = None, errorMessage = None, successMessage = None, startOptions = None,
       cancelledOptions = None, successOptions = None, errorOptions = None, has_cancelCallback = False\<rparr>;
       w = foldl (ca_step ''Cancel'') ca_start [CaExecute ''1'' o', CaGrace ''1'']
   in dict_has (actions w) ''1'' \<and> (\<exists>r. dict_get (runs w) ''1'' = Some r \<and> r_phase r \<noteq> Gone)"
proof -
  let ?o = "\<lparr>startUrl = None, cancelUrl = None, errorUrl = None, successUrl = None, startMessage = None,
       cancelledMessage = None, errorMessage = None, successMessage = None, startOptions = None,
       cancelledOptions = None, successOptions = None, errorOptions = None, has_cancelCallback = False\<rparr>"
  have "dict_has (actions (foldl (ca_step ''Cancel'') ca_start [CaExecute ''1'' ?o, CaGrace ''1''])) ''1''"
    by code_simp
  with callbacks_once_and_entries_cleared [of "''Cancel''" "[CaExecute ''1'' ?o, CaGrace ''1'']" "''1''"]
  show ?thesis by (simp add: Let_def)
qed

subsection \<open>Cancelling\<close>

lemma split_first_self: "sep \<noteq> [] \<Longrightarrow> split_first sep (sep @ s) = Some ([], s)"
  by (cases sep) simp_all

lemma js_split_self: "sep \<noteq> [] \<Longrightarrow> js_split sep (sep @ s) = [] # js_split sep s"
  by (simp add: js_split.simps [of sep "sep @ s"] split_first_self)

lemma matcher_key:
  assumes "\<not> sublist ''clusterAction/cancel/'' key"
  shows "cancel_matcher (cancel_type key) w = cancelClusterAction key w"
proof -
  have "js_split ''clusterAction/cancel/'' (cancel_type key) = [] # js_split ''clusterAction/cancel/'' key"
    unfolding cancel_type_def by (rule js_split_self) simp
  with assms show ?thesis
    by (simp add: cancel_matcher_def js_split_no_sep starts_with_def cancel_type_def)
qed

definition never_called :: "string \<Rightarrow> ca_world \<Rightarrow> bool" where
  [inv_defs]: "never_called key w \<longleftrightarrow>
     (case view w key of (r, c, s, n) \<Rightarrow> \<not> c \<and> n = 0 \<and> (\<exists>x. r = Some x \<and> r_phase x \<in> {Finished, Gone}))"

lemma never_called_cancel: "never_called key w \<Longrightarrow> never_called key (cancelClusterAction k w)"
  by (cases "k = key") (auto simp: never_called_def view_other, auto simp: view_def cancelClusterAction_def)

lemma never_called_step: "never_called key w \<Longrightarrow> never_called key (ca_step label w e)"
proof (cases e)
  case (CaExecute k o')
  assume "never_called key w"
  with CaExecute show ?thesis
    by (cases "k = key") (auto simp: never_called_def view_other, auto simp: view_def dict_has_def)
next
  case (CaGrace k)
  assume "never_called key w"
  with CaGrace show ?thesis
    by (cases "k = key") (auto simp: never_called_def view_other, auto simp: view_def grace_over_def)
next
  case (CaSettled k err)
  assume "never_called key w"
  with CaSettled show ?thesis
    by (cases "k = key") (auto simp: never_called_def view_other, auto simp: view_def callback_settled_def)
next
  case (CaClose k)
  assume "never_called key w"
  with CaClose show ?thesis
    by (cases "k = key")
       (auto simp: never_called_def view_other, auto simp: view_def close_due_def dispatchClose_def)
next
  case (CaDispatch ty)
  assume "never_called key w"
  with CaDispatch matcher_cases [of ty w] never_called_cancel show ?thesis by auto
qed

interpretation cancelled_actions: reducer "ca_step label" "never_called key"
  by unfold_locales (rule never_called_step)

text \<open>C10: pressing Cancel within the grace period is honoured: whatever happens afterwards,
  the callback of that action is never called.\<close>

theorem cancel_in_grace_prevents_call:
  assumes "w = foldl (ca_step label) ca_start es"
    and "dict_get (runs w) key = Some r" and "r_phase r = Grace"
    and "\<not> sublist ''clusterAction/cancel/'' key"
  shows "key \<notin> set (callbackCalls (foldl (ca_step label) w (CaDispatch (cancel_type key) # es')))"
proof -
  have "key_ok w key" unfolding assms(1) by (rule ca_reachable_ok)
  with assms(2,3) have "never_called key (ca_step label w (CaDispatch (cancel_type key)))"
    by (simp add: matcher_key [OF assms(4)] cancelClusterAction_def never_called_def view_def key_ok_def
        phase_ok_def Let_def)
  from cancelled_actions.run_inv [OF this, of label es'] show ?thesis
    by (simp add: never_called_def view_def count_list_0_iff)
qed

definition plain_options :: callback_options where
  "plain_options = \<lparr>startUrl = None, cancelUrl = None, errorUrl = None, successUrl = None,
     startMessage = Some ''Deleting'', cancelledMessage = Some ''Cancelled'', errorMessage = Some ''Failed'',
     successMessage = Some ''Deleted'', startOptions = None, cancelledOptions = None, successOptions = None,
     errorOptions = None, has_cancelCallback = True\<rparr>"

theorem cancel_in_grace_prevents_call_witness:
  "''7'' \<notin> set (callbackCalls (foldl (ca_step ''Cancel'')
     (foldl (ca_step ''Cancel'') ca_start [CaExecute ''7'' plain_options])
     (CaDispatch (cancel_type ''7'') # [CaGrace ''7'', CaSettled ''7'' None])))"
proof (rule cancel_in_grace_prevents_call [OF refl])
  show "dict_get (runs (foldl (ca_step ''Cancel'') ca_start [CaExecute ''7'' plain_options])) ''7'' =
    Some \<lparr>r_options = plain_options, r_phase = Grace, r_aborted = False\<rparr>"
    by (simp add: execute_def ca_start_def)
qed (simp_all add: sublist_code)

text \<open>The Cancel button stays after the grace period, but then it only takes the entry
  away: the callback has been called and goes on. If it succeeds, the action is reported as
  successful in spite of the cancel; if it fails, the failure is reported as a cancel.\<close>

theorem cancel_after_grace_is_too_late:
  assumes "w = foldl (ca_step label) ca_start es"
    and "dict_get (runs w) key = Some r" and "r_phase r = Calling"
    and "\<not> sublist ''clusterAction/cancel/'' key"
  shows "let c = ca_step label w (CaDispatch (cancel_type key));
             shown = (\<lambda>err. own_prop (the (dict_get (actions (ca_step label c (CaSettled key err))) key)) ''message'')
         in key \<in> set (callbackCalls w) \<and> \<not> dict_has (actions c) key \<and>
            (\<not> r_aborted r \<longrightarrow> shown None = map_option JStr (successMessage (r_options r)) \<and>
              shown (Some m) = map_option JStr (cancelledMessage (r_options r)))"
proof -
  have k: "key_ok w key" unfolding assms(1) by (rule ca_reachable_ok)
  then have "key \<in> set (callbackCalls w)"
    using assms(2,3) by (simp add: key_ok_def phase_ok_def) (metis count_list_0_iff nat.distinct(1))
  moreover have "\<not> dict_has (actions (cancelClusterAction key w)) key"
    using assms(2,3) by (simp add: cancelClusterAction_def Let_def)
  moreover have "own_prop (the (dict_get (actions (callback_settled key err (cancelClusterAction key w))) key)) ''message'' =
      map_option JStr ((case err of None \<Rightarrow> successMessage | Some _ \<Rightarrow> cancelledMessage) (r_options r))"
    if "\<not> r_aborted r" for err
    using assms(2,3) k that
    by (cases err) (simp_all add: cancelClusterAction_def Let_def key_ok_def phase_ok_def callback_settled_def
        dispatchSuccess_def caught_def dispatchCancelled_def updateClusterAction_def own_prop_def assign_def
        dict_delete_def AList.delete_eq)
  ultimately show ?thesis by (simp add: matcher_key [OF assms(4)] Let_def)
qed

theorem cancel_after_grace_is_too_late_witness:
  "let w = foldl (ca_step ''Cancel'') ca_start [CaExecute ''7'' plain_options, CaGrace ''7''];
       c = ca_step ''Cancel'' w (CaDispatch (cancel_type ''7''))
   in own_prop (the (dict_get (actions (ca_step ''Cancel'' c (CaSettled ''7'' None))) ''7'')) ''message'' =
        Some (JStr ''Deleted'')"
proof -
  let ?es = "[CaExecute ''7'' plain_options, CaGrace ''7'']"
  have r: "dict_get (runs (foldl (ca_step ''Cancel'') ca_start ?es)) ''7'' =
    Some \<lparr>r_options = plain_options, r_phase = Calling, r_aborted = False\<rparr>"
    by (simp add: execute_def ca_start_def grace_over_def)
  from cancel_after_grace_is_too_late [OF refl r] show ?thesis
    by (simp add: Let_def sublist_code plain_options_def)
qed

text \<open>Every action that was started is closed in the end: when its grace period, its
  callback and its close timer come due, in this order, its entry is gone, wherever it was
  before.\<close>

theorem every_action_closes:
  assumes "w = foldl (ca_step label) ca_start es" and "dict_has (runs w) key"
  shows "let v = foldl (ca_step label) w [CaGrace key, CaSettled key err, CaClose key]
         in \<not> dict_has (actions v) key \<and> key \<notin> set (controllers v) \<and>
            map_option r_phase (dict_get (runs v) key) = Some Gone"
proof -
  obtain r where r: "dict_get (runs w) key = Some r" using assms(2) by (auto simp: dict_has_def)
  have k: "key_ok w key" unfolding assms(1) by (rule ca_reachable_ok)
  let ?v = "foldl (ca_step label) w [CaGrace key, CaSettled key err, CaClose key]"
  have "map_option r_phase (dict_get (runs ?v) key) = Some Gone"
    using r by (cases "r_phase r"; cases err) (simp_all add: grace_over_def callback_settled_def close_due_def dispatchClose_def)
  moreover have "key_ok ?v key"
    using k by (simp add: grace_inv settled_inv close_due_inv)
  ultimately show ?thesis
    unfolding Let_def key_ok_def phase_ok_def by (auto split: option.splits)
qed

theorem every_action_closes_witness:
  "\<not> dict_has (actions (foldl (ca_step ''Cancel'')
     (foldl (ca_step ''Cancel'') ca_start [CaExecute ''7'' plain_options])
     [CaGrace ''7'', CaSettled ''7'' (Some ''denied''), CaClose ''7''])) ''7''"
proof -
  have "dict_has (runs (foldl (ca_step ''Cancel'') ca_start [CaExecute ''7'' plain_options])) ''7''"
    by (simp add: execute_def ca_start_def)
  from every_action_closes [OF refl this, of "Some ''denied''"] show ?thesis by (simp add: Let_def)
qed

end
