(* ===== verification/Notifications.thy ===== *)
theory Notifications
  imports JsDate "HOL-Library.Multiset"
begin

text \<open>
  Notifications, \<^verbatim>\<open>frontend/src/components/App/Notifications/notificationsSlice.ts\<close>: the
  class, the merge of old and new notifications, the two reducers and what they write to the
  local storage. The clock, the current cluster and the base 64 encoding are given from
  outside. A \<open>Date\<close> is its number of milliseconds. The ellipsis stands for its character.
\<close>

section \<open>Notifications\<close>

type_synonym ndate = "int + string"

record notification =
  cluster :: "string option"
  date :: ndate
  deleted :: bool
  nid :: string
  message :: string
  seen :: bool
  url :: "string option"

record notification_options =
  o_message :: "string option"
  o_date :: "ndate option"
  o_cluster :: "string option"

text \<open>What the constructor reads from its surroundings.\<close>

record environment =
  now :: int
  current_cluster :: "string option"
  base64 :: "string \<Rightarrow> string"

definition defaultMaxNotificationsStored :: nat where
  "defaultMaxNotificationsStored = 200"

definition ellipsis :: char where "ellipsis = CHR 0x85"

definition prepareMessage :: "string \<Rightarrow> string" where
  "prepareMessage m = (if m \<noteq> [] \<and> 250 < length m then take 249 m @ [ellipsis] else m)"

definition date_truthy :: "ndate option \<Rightarrow> bool" where
  "date_truthy d = (case d of None \<Rightarrow> False | Some (Inl n) \<Rightarrow> n \<noteq> 0 | Some (Inr s) \<Rightarrow> s \<noteq> [])"

definition date_text :: "ndate \<Rightarrow> string" where
  "date_text d = (case d of Inl n \<Rightarrow> int_str n | Inr s \<Rightarrow> s)"

definition new_notification ::
  "environment \<Rightarrow> (string \<times> ndate option) + notification_options option \<Rightarrow> notification" where
  "new_notification env arg =
    (let n0 = \<lparr>cluster = current_cluster env, date = Inl (now env), deleted = False, nid = [],
               message = [], seen = False, url = None\<rparr>;
         n1 = (case arg of
            Inl (m, d) \<Rightarrow>
              let a = (if m \<noteq> [] then n0\<lparr>message := prepareMessage m\<rparr> else n0)
              in if date_truthy d then a\<lparr>date := the d\<rparr> else a
          | Inr None \<Rightarrow> n0
          | Inr (Some o') \<Rightarrow>
              let a = (if truthy (o_message o') then n0\<lparr>message := prepareMessage (the (o_message o'))\<rparr> else n0);
                  b = (if date_truthy (o_date o') then a\<lparr>date := the (o_date o')\<rparr> else a)
              in if truthy (o_cluster o') then b\<lparr>cluster := o_cluster o'\<rparr> else b)
     in n1\<lparr>nid := base64 env (date_text (date n1) @ '','' @ message n1 @ '','' @
          (case cluster n1 of None \<Rightarrow> ''null'' | Some c \<Rightarrow> c))\<rparr>)"

definition fromJSON :: "environment \<Rightarrow> notification \<Rightarrow> notification" where
  "fromJSON env j =
    (new_notification env (Inr (Some \<lparr>o_message = Some (message j), o_date = Some (date j), o_cluster = cluster j\<rparr>)))
      \<lparr>nid := nid j, seen := seen j, url := url j, deleted := deleted j\<rparr>"

text \<open>\<open>toJSON\<close> copies the seven fields; a plain notification is stored as it is.\<close>

definition toJSON :: "notification \<Rightarrow> notification" where
  "toJSON n = \<lparr>cluster = cluster n, date = date n, deleted = deleted n, nid = nid n,
     message = message n, seen = seen n, url = url n\<rparr>"

section \<open>Merging and storing\<close>

text \<open>\<open>_.uniqBy(xs, 'id')\<close> keeps the first of each id.\<close>

fun uniq_by :: "('a \<Rightarrow> 'b) \<Rightarrow> 'a list \<Rightarrow> 'a list" where
  "uniq_by f [] = []"
| "uniq_by f (x # xs) = x # uniq_by f (filter (\<lambda>y. f y \<noteq> f x) xs)"

definition date_val :: "ndate \<Rightarrow> js_num" where
  "date_val d = (case d of Inl n \<Rightarrow> Some n | Inr s \<Rightarrow> date_parse s)"

definition sort_recent :: "notification list \<Rightarrow> notification list" where
  "sort_recent ns = js_sort (\<lambda>n1 n2. num_sub (date_val (date n2)) (date_val (date n1))) ns"

definition mergeNotifications :: "notification list \<Rightarrow> notification list \<Rightarrow> notification list" where
  "mergeNotifications oldNs newNs =
    take defaultMaxNotificationsStored (sort_recent (uniq_by nid (newNs @ oldNs)))"

text \<open>The state of the slice and what the local storage holds.\<close>

record notifications_state =
  notifications :: "notification list"
  local_storage :: "notification list option"

definition storeNotifications :: "nat option \<Rightarrow> notification list \<Rightarrow> notifications_state \<Rightarrow> notifications_state" where
  [state_defs]: "storeNotifications mx ns st =
    (let js = map toJSON (take (case mx of None \<Rightarrow> defaultMaxNotificationsStored | Some m \<Rightarrow> m) ns)
     in st\<lparr>notifications := js, local_storage := Some js\<rparr>)"

text \<open>\<open>loadNotifications\<close>; anything in the storage that is not an array gives no notifications.\<close>

definition loadNotifications :: "environment \<Rightarrow> notification list option \<Rightarrow> notification list" where
  "loadNotifications env stored =
    (case stored of None \<Rightarrow> [] | Some ns \<Rightarrow> map (\<lambda>n. toJSON (fromJSON env n)) ns)"

section \<open>Reducers\<close>

definition setNotifications :: "notification list \<Rightarrow> notifications_state \<Rightarrow> notifications_state" where
  [state_defs]: "setNotifications payload st =
    (if payload = [] then storeNotifications None [] st
     else let ns = mergeNotifications (notifications st) payload
          in if ns = notifications st then st else storeNotifications None ns st)"

definition update_one :: "environment \<Rightarrow> notification list \<Rightarrow> notification \<Rightarrow> notification" where
  "update_one env dispatched n =
    (case find (\<lambda>m. nid m = nid n) dispatched of
       Some u \<Rightarrow> fromJSON env (u\<lparr>seen := True\<rparr>) | None \<Rightarrow> n)"

definition updateNotifications ::
  "environment \<Rightarrow> notification list \<Rightarrow> notifications_state \<Rightarrow> notifications_state" where
  [state_defs]: "updateNotifications env dispatched st =
    (let updated = map (update_one env dispatched) (notifications st);
         newNs = filter (\<lambda>n. \<not> list_ex (\<lambda>s. nid s = nid n) updated) dispatched
     in storeNotifications None (mergeNotifications updated newNs) st)"

datatype notifications_action = SetNotifications "notification list" | UpdateNotifications "notification list"

fun notifications_step ::
  "environment \<Rightarrow> notifications_state \<Rightarrow> notifications_action \<Rightarrow> notifications_state" where
  "notifications_step env st (SetNotifications ns) = setNotifications ns st"
| "notifications_step env st (UpdateNotifications ns) = updateNotifications env ns st"

section \<open>Lemmas\<close>

lemma toJSON_id [simp]: "toJSON n = n"
  by (simp add: toJSON_def)

lemma set_uniq_by: "set (uniq_by f xs) \<subseteq> set xs"
  by (induction f xs rule: uniq_by.induct) auto

lemma image_uniq_by: "f ` set (uniq_by f xs) = f ` set xs"
  by (induction f xs rule: uniq_by.induct) auto

lemma distinct_uniq_by: "distinct (map f (uniq_by f xs))"
proof (induction f xs rule: uniq_by.induct)
  case (2 f x xs)
  have "f x \<notin> f ` set (uniq_by f (filter (\<lambda>y. f y \<noteq> f x) xs))"
    by (auto simp: image_uniq_by)
  with 2 show ?case by simp
qed simp

lemma distinct_map_take: "distinct (map f xs) \<Longrightarrow> distinct (map f (take n xs))"
  by (simp add: take_map [symmetric])

definition notes_inv :: "notification list \<Rightarrow> bool" where
  [inv_defs]: "notes_inv ns \<longleftrightarrow> length ns \<le> 200 \<and> distinct (map nid ns)"

lemma merge_inv: "notes_inv (mergeNotifications a b)"
  by (simp add: notes_inv_def mergeNotifications_def sort_recent_def defaultMaxNotificationsStored_def
      distinct_map_take distinct_uniq_by)

lemma store_merge:
  "notifications (storeNotifications None (mergeNotifications a b) st) = mergeNotifications a b"
  by (simp add: storeNotifications_def mergeNotifications_def Let_def toJSON_id [abs_def])

lemma set_notifications_simp:
  "payload \<noteq> [] \<Longrightarrow> notifications (setNotifications payload st) = mergeNotifications (notifications st) payload"
  by (simp add: setNotifications_def Let_def store_merge)

lemma update_notifications_simp:
  "notifications (updateNotifications env ds st) =
    (let updated = map (update_one env ds) (notifications st)
     in mergeNotifications updated (filter (\<lambda>n. \<not> list_ex (\<lambda>s. nid s = nid n) updated) ds))"
  by (simp add: updateNotifications_def Let_def store_merge)

lemma merge_subset: "set (mergeNotifications a b) \<subseteq> set b \<union> set a"
proof -
  have "set (mergeNotifications a b) \<subseteq> set (uniq_by nid (b @ a))"
    unfolding mergeNotifications_def sort_recent_def by (metis set_js_sort set_take_subset)
  also have "\<dots> \<subseteq> set b \<union> set a" using set_uniq_by [of nid "b @ a"] by simp
  finally show ?thesis .
qed

lemma step_inv: "notes_inv (notifications (notifications_step env st a))"
proof (cases a)
  case (SetNotifications ns)
  show ?thesis
  proof (cases "ns = []")
    case True
    with SetNotifications show ?thesis
      by (simp add: setNotifications_def storeNotifications_def notes_inv_def Let_def)
  next
    case False
    with SetNotifications show ?thesis by (simp add: set_notifications_simp merge_inv)
  qed
next
  case (UpdateNotifications ns)
  then show ?thesis by (simp add: updateNotifications_def Let_def store_merge merge_inv)
qed

interpretation notification_slice: reducer "notifications_step env" "\<lambda>st. notes_inv (notifications st)"
  by unfold_locales (rule step_inv)

section \<open>Properties\<close>

text \<open>After the first action, and whatever the local storage held before it, there are at
  most 200 notifications and no two have the same id.\<close>

theorem notifications_bounded_and_distinct:
  "let ns = notifications (foldl (notifications_step env) st (a # es))
   in length ns \<le> 200 \<and> distinct (map nid ns)"
  using notification_slice.run_inv [OF step_inv [of env st a], of env es] by (simp add: notes_inv_def Let_def)

text \<open>A stored message has at most 250 characters, and preparing it again changes nothing,
  so the id computed from it is stable when it is read back.\<close>

theorem prepareMessage_bounded:
  "length (prepareMessage m) \<le> 250 \<and> prepareMessage (prepareMessage m) = prepareMessage m"
  by (simp add: prepareMessage_def)

lemma sort_recent_key:
  assumes "\<forall>n \<in> set ns. date_val (date n) \<noteq> None"
  shows "sort_recent ns = sort_key (\<lambda>n. - the (date_val (date n))) ns"
  unfolding sort_recent_def
proof (rule js_sort_key, intro ballI)
  fix y z
  assume "y \<in> set ns" "z \<in> set ns"
  with assms obtain a b where "date_val (date y) = Some a" "date_val (date z) = Some b" by blast
  then show "num_sub (date_val (date z)) (date_val (date y)) =
      Some (- the (date_val (date y)) - - the (date_val (date z)))"
    by (simp add: num_sub_def)
qed

lemma sorted_take_drop:
  "sorted (map f xs) \<Longrightarrow> a \<in> set (take n xs) \<Longrightarrow> b \<in> set (drop n xs) \<Longrightarrow> f a \<le> f b"
  using sorted_append [of "map f (take n xs)" "map f (drop n xs)"]
  by (simp flip: map_append)

text \<open>Merging keeps the most recent: with proper dates, the result runs from the latest to
  the earliest, and a notification that is left out (because of the limit) is not later than
  any that is kept.\<close>

theorem merge_keeps_the_most_recent:
  assumes "\<forall>n \<in> set newNs \<union> set oldNs. date_val (date n) \<noteq> None"
  shows "let all = uniq_by nid (newNs @ oldNs); kept = mergeNotifications oldNs newNs;
             time = (\<lambda>n. the (date_val (date n)))
         in sorted (rev (map time kept)) \<and> set kept \<subseteq> set all \<and>
            (\<forall>n \<in> set all - set kept. \<forall>k \<in> set kept. time n \<le> time k)"
proof -
  define all where "all = uniq_by nid (newNs @ oldNs)"
  define key where "key = (\<lambda>n :: notification. - the (date_val (date n)))"
  have "\<forall>n \<in> set all. date_val (date n) \<noteq> None"
    using assms set_uniq_by [of nid "newNs @ oldNs"] by (auto simp: all_def)
  then have kept: "mergeNotifications oldNs newNs = take 200 (sort_key key all)"
    by (simp add: mergeNotifications_def defaultMaxNotificationsStored_def all_def [symmetric]
        sort_recent_key key_def)
  have "sorted (map key (take 200 (sort_key key all)))"
    by (metis sorted_sort_key sorted_wrt_take take_map)
  then have "sorted (rev (map (\<lambda>n. the (date_val (date n))) (take 200 (sort_key key all))))"
    by (auto simp: key_def sorted_wrt_rev sorted_map sorted_wrt_map elim: sorted_wrt_mono_rel [rotated])
  moreover have "set (take 200 (sort_key key all)) \<subseteq> set all"
    by (metis set_sort set_take_subset)
  moreover have "the (date_val (date n)) \<le> the (date_val (date k))"
    if "n \<in> set all - set (take 200 (sort_key key all))" "k \<in> set (take 200 (sort_key key all))" for n k
  proof -
    have "n \<in> set (drop 200 (sort_key key all))"
      using that(1) by (metis Diff_iff Un_iff append_take_drop_id set_append set_sort)
    with sorted_take_drop [of key "sort_key key all" k 200 n] that(2) show ?thesis by (simp add: key_def)
  qed
  ultimately show ?thesis unfolding Let_def kept all_def [symmetric] by blast
qed

definition a_note :: "string \<Rightarrow> int \<Rightarrow> notification" where
  "a_note i d = \<lparr>cluster = None, date = Inl d, deleted = False, nid = i, message = i, seen = False, url = None\<rparr>"

theorem merge_keeps_the_most_recent_witness:
  "sorted (rev (map (\<lambda>n. the (date_val (date n))) (mergeNotifications [a_note ''a'' 3, a_note ''b'' 9] [a_note ''c'' 5])))"
  using merge_keeps_the_most_recent [of "[a_note ''c'' 5]" "[a_note ''a'' 3, a_note ''b'' 9]"]
  by (simp add: a_note_def date_val_def Let_def)

text \<open>\<open>setNotifications\<close> does not overwrite what is there, as its comment says: a
  notification of the state whose id is not among the new ones stays, as long as the limit is
  not reached.\<close>

theorem set_notifications_keeps_the_old:
  assumes "payload \<noteq> []" and "distinct (map nid (notifications st))"
    and "length (notifications st) + length payload \<le> 200"
    and "n \<in> set (notifications st)" and "nid n \<notin> nid ` set payload"
  shows "n \<in> set (notifications (setNotifications payload st))"
proof -
  let ?all = "uniq_by nid (payload @ notifications st)"
  have len: "length (uniq_by f xs) \<le> length xs" for f :: "notification \<Rightarrow> string" and xs
    by (induction f xs rule: uniq_by.induct) (auto intro: le_trans [OF _ length_filter_le])
  have "length (sort_recent ?all) \<le> 200"
    using len [of nid "payload @ notifications st"] assms(3) by (simp add: sort_recent_def)
  moreover have "n \<in> set ?all"
  proof -
    have "nid n \<in> nid ` set ?all" using assms(4) by (simp add: image_uniq_by)
    then obtain m where m: "m \<in> set ?all" "nid m = nid n" by force
    then have "m \<in> set (notifications st)"
      using set_uniq_by [of nid "payload @ notifications st"] assms(5)
      by (metis UnE imageI set_append subsetD)
    with m assms(2,4) show ?thesis by (metis distinct_map inj_onD)
  qed
  ultimately show ?thesis
    using assms(1) by (simp add: set_notifications_simp mergeNotifications_def
        defaultMaxNotificationsStored_def sort_recent_def)
qed

theorem set_notifications_keeps_the_old_witness:
  "a_note ''a'' 3 \<in> set (notifications (setNotifications [a_note ''b'' 5] \<lparr>notifications = [a_note ''a'' 3], local_storage = None\<rparr>))"
  by (rule set_notifications_keeps_the_old) (simp_all add: a_note_def)

lemma nid_fromJSON [simp]: "nid (fromJSON env j) = nid j" "seen (fromJSON env j) = seen j"
  by (simp_all add: fromJSON_def)

lemma nid_update_one [simp]: "nid (update_one env ds n) = nid n"
  by (auto simp: update_one_def find_Some_iff split: option.split)

text \<open>\<open>updateNotifications\<close> marks as seen every notification it updates, whatever the
  update says: in the result, an entry whose id was both in the state and in the update is
  seen.\<close>

theorem updated_notifications_are_seen:
  assumes "n \<in> set (notifications (updateNotifications env dispatched st))"
    and "nid n \<in> nid ` set dispatched" and "nid n \<in> nid ` set (notifications st)"
  shows "seen n"
proof -
  let ?updated = "map (update_one env dispatched) (notifications st)"
  let ?new = "filter (\<lambda>n. \<not> list_ex (\<lambda>s. nid s = nid n) ?updated) dispatched"
  have "n \<in> set ?new \<union> set ?updated"
    using assms(1) merge_subset [of ?updated ?new] unfolding update_notifications_simp Let_def by blast
  moreover have "n \<notin> set ?new"
    using assms(3) by (auto simp: list_ex_iff)
  ultimately obtain m where m: "m \<in> set (notifications st)" "n = update_one env dispatched m" by auto
  then have "\<exists>u \<in> set dispatched. nid u = nid m" using assms(2) by force
  then obtain u where "find (\<lambda>k. nid k = nid m) dispatched = Some u"
    by (metis (mono_tags, lifting) find_None_iff option.exhaust)
  with m(2) show ?thesis by (simp add: update_one_def)
qed

theorem updated_notifications_are_seen_witness:
  "let env = \<lparr>now = 0, current_cluster = None, base64 = id\<rparr>;
       st = \<lparr>notifications = [a_note ''a'' 3], local_storage = None\<rparr>
   in \<forall>n \<in> set (notifications (updateNotifications env [a_note ''a'' 4] st)). seen n"
proof -
  let ?env = "\<lparr>now = 0, current_cluster = None, base64 = id\<rparr>"
  let ?st = "\<lparr>notifications = [a_note ''a'' 3], local_storage = None\<rparr>"
  have "\<forall>n \<in> set (notifications (updateNotifications ?env [a_note ''a'' 4] ?st)). nid n = ''a''"
    by code_simp
  with updated_notifications_are_seen [of _ ?env "[a_note ''a'' 4]" ?st] show ?thesis
    by (simp add: a_note_def Let_def)
qed

end
