(* ===== verification/NodeUpgrade.thy ===== *)
theory NodeUpgrade
  imports WatchStore JsDate
begin

text \<open>
  Node upgrades read from events, \<^verbatim>\<open>frontend/src/components/node/upgradeState.ts\<close> and
  \<^verbatim>\<open>upgradeDetection.ts\<close>: the states of the nodes as a dictionary by name, the fold over
  the sorted events, and the two detectors. The hook that lists the events is left out.
\<close>

section \<open>Events and states\<close>

definition EVENT_UPGRADE :: string where "EVENT_UPGRADE = ''Upgrade''"
definition EVENT_SURGE :: string where "EVENT_SURGE = ''Surge''"
definition EVENT_CORDON :: string where "EVENT_CORDON = ''Cordon''"
definition EVENT_DRAIN :: string where "EVENT_DRAIN = ''Drain''"

definition MSG_UPGRADE_STARTED :: string where "MSG_UPGRADE_STARTED = ''Upgrade started for agent pool''"
definition MSG_SURGE_CREATED :: string where "MSG_SURGE_CREATED = ''Created a surge node''"
definition MSG_CORDONING :: string where "MSG_CORDONING = ''Cordoning node''"
definition MSG_DRAINING :: string where "MSG_DRAINING = ''Draining node''"
definition MSG_DELETING_NODE :: string where "MSG_DELETING_NODE = ''Deleting node''"
definition MSG_DELETING_FROM_API :: string where "MSG_DELETING_FROM_API = ''from API server''"
definition MSG_REIMAGING :: string where "MSG_REIMAGING = ''Reimaging node''"
definition MSG_SUCCESSFULLY_REIMAGED :: string where "MSG_SUCCESSFULLY_REIMAGED = ''Successfully reimaged node''"
definition MSG_SUCCESSFULLY_UPGRADED :: string where "MSG_SUCCESSFULLY_UPGRADED = ''Successfully upgraded node''"
definition MSG_DRAINING_ERROR :: string where "MSG_DRAINING_ERROR = ''Error draining node''"
definition MSG_UNABLE_TO_DELETE :: string where "MSG_UNABLE_TO_DELETE = ''Unable to delete node''"
definition MSG_FAILED_TO_REIMAGE :: string where "MSG_FAILED_TO_REIMAGE = ''Failed to reimage node''"

record node_event =
  involvedKind :: "string option"
  involvedName :: "string option"
  ev_reason :: "string option"
  ev_message :: "string option"
  ev_type :: "string option"
  firstOccurrence :: "string option"
  ev_created :: "string option"

record aks_node =
  node_name :: string
  providerID :: "string option"
  node_labels :: "(string, string) dict option"

datatype stage = Cordon | Drain | DeleteNode | Reimage | Completed

text \<open>The stages in the order of \<open>UPGRADE_STAGES\<close>.\<close>

fun stage_index :: "stage \<Rightarrow> nat" where
  "stage_index Cordon = 0" | "stage_index Drain = 1" | "stage_index DeleteNode = 2"
| "stage_index Reimage = 3" | "stage_index Completed = 4"

lemma stage_index_inj: "stage_index a = stage_index b \<Longrightarrow> a = b"
  by (cases a; cases b) simp_all

instantiation stage :: linorder
begin

definition less_eq_stage :: "stage \<Rightarrow> stage \<Rightarrow> bool" where
  "less_eq_stage a b = (stage_index a \<le> stage_index b)"

definition less_stage :: "stage \<Rightarrow> stage \<Rightarrow> bool" where
  "less_stage a b = (stage_index a < stage_index b)"

instance
proof
  fix a b c :: stage
  show "a < b \<longleftrightarrow> a \<le> b \<and> \<not> b \<le> a" unfolding less_stage_def less_eq_stage_def by linarith
  show "a \<le> a" unfolding less_eq_stage_def by (rule order_refl)
  show "a \<le> b \<Longrightarrow> b \<le> c \<Longrightarrow> a \<le> c" unfolding less_eq_stage_def by linarith
  show "a \<le> b \<Longrightarrow> b \<le> a \<Longrightarrow> a = b"
    unfolding less_eq_stage_def by (rule stage_index_inj) linarith
  show "a \<le> b \<or> b \<le> a" unfolding less_eq_stage_def by linarith
qed

end

lemma less_Completed: "f \<noteq> Completed \<Longrightarrow> f < Completed"
  by (cases f) (simp_all add: less_stage_def)

record node_upgrade_state =
  nodeName :: string
  isSurge :: bool
  isUpgrading :: bool
  currentStage :: "stage option"
  failedStage :: "stage option"
  failureMessage :: "string option"
  stageTimestamps :: "(stage, string) dict"

definition fresh_state :: "string \<Rightarrow> node_upgrade_state" where
  "fresh_state n = \<lparr>nodeName = n, isSurge = False, isUpgrading = False, currentStage = None,
     failedStage = None, failureMessage = None, stageTimestamps = []\<rparr>"

section \<open>Building the states\<close>

definition event_time :: "node_event \<Rightarrow> string" where
  "event_time e = or_else (firstOccurrence e) (or_else (ev_created e) [])"

definition sort_time :: "node_event \<Rightarrow> js_num" where
  "sort_time e = (if event_time e = [] then Some 0 else date_parse (event_time e))"

definition sorted_events :: "node_event list \<Rightarrow> node_event list" where
  "sorted_events es = js_sort (\<lambda>a b. num_sub (sort_time a) (sort_time b))
     (filter (\<lambda>e. involvedKind e = Some ''Node'') es)"

text \<open>Entering a stage: the first event of a stage sets its timestamp.\<close>

definition enter_stage :: "stage \<Rightarrow> string \<Rightarrow> node_upgrade_state \<Rightarrow> node_upgrade_state" where
  [state_defs]: "enter_stage sg t s =
    (let s1 = s\<lparr>isUpgrading := True, currentStage := Some sg\<rparr>
     in if \<not> truthy (dict_get (stageTimestamps s1) sg) \<and> t \<noteq> []
        then s1\<lparr>stageTimestamps := dict_set sg t (stageTimestamps s1)\<rparr> else s1)"

definition fail_stage :: "stage \<Rightarrow> string \<Rightarrow> node_upgrade_state \<Rightarrow> node_upgrade_state" where
  [state_defs]: "fail_stage sg m s =
    s\<lparr>isUpgrading := True,
      currentStage := (case currentStage s of None \<Rightarrow> Some sg | Some c \<Rightarrow> Some c),
      failedStage := Some sg, failureMessage := Some m\<rparr>"

text \<open>The body of the loop, for the state of the node.\<close>

definition apply_event :: "node_event \<Rightarrow> node_upgrade_state \<Rightarrow> node_upgrade_state" where
  [state_defs]: "apply_event e s =
    (let r = or_else (ev_reason e) []; m = or_else (ev_message e) [];
         ty = or_else (ev_type e) ''Normal''; t = event_time e
     in if currentStage s = Some Completed then s
        else if r = EVENT_SURGE \<and> str_includes m MSG_SURGE_CREATED then s\<lparr>isSurge := True\<rparr>
        else if r = EVENT_CORDON \<and> str_includes m MSG_CORDONING then enter_stage Cordon t s
        else if r = EVENT_DRAIN \<and> str_includes m MSG_DRAINING then enter_stage Drain t s
        else if r = EVENT_UPGRADE \<and> str_includes m MSG_DELETING_NODE \<and> str_includes m MSG_DELETING_FROM_API
        then enter_stage DeleteNode t s
        else if r = EVENT_UPGRADE \<and> str_includes m MSG_REIMAGING then enter_stage Reimage t s
        else if r = EVENT_UPGRADE \<and> str_includes m MSG_SUCCESSFULLY_UPGRADED then enter_stage Completed t s
        else if ty = ''Warning'' then
          (if r = EVENT_CORDON \<and> str_includes (to_lower m) ''failed'' then fail_stage Cordon m s
           else if r = EVENT_DRAIN \<and> str_includes m MSG_DRAINING_ERROR then fail_stage Drain m s
           else if r = EVENT_UPGRADE \<and> str_includes m MSG_UNABLE_TO_DELETE then fail_stage DeleteNode m s
           else if r = EVENT_UPGRADE \<and> str_includes m MSG_FAILED_TO_REIMAGE then fail_stage Reimage m s
           else s)
        else s)"

type_synonym state_map = "(string, node_upgrade_state) dict"

definition init_states :: "aks_node list \<Rightarrow> state_map" where
  [state_defs]: "init_states nodes =
    fold (\<lambda>n. dict_set (node_name n) (fresh_state (node_name n))) (filter (\<lambda>n. node_name n \<noteq> []) nodes) []"

definition process_event :: "state_map \<Rightarrow> node_event \<Rightarrow> state_map" where
  [state_defs]: "process_event sm e =
    (if \<not> truthy (involvedName e) then sm
     else let n = the (involvedName e);
              sm' = (if dict_has sm n then sm else dict_set n (fresh_state n) sm)
          in dict_set n (apply_event e (the (dict_get sm' n))) sm')"

definition buildNodeUpgradeStates :: "aks_node list \<Rightarrow> node_event list \<Rightarrow> state_map" where
  "buildNodeUpgradeStates nodes events = foldl process_event (init_states nodes) (sorted_events events)"

section \<open>Detection\<close>

definition hasAKSManagedNodes :: "aks_node list \<Rightarrow> bool" where
  "hasAKSManagedNodes nodes = list_ex (\<lambda>n.
     starts_with (or_else (providerID n) []) ''azure://'' \<or>
     dict_has (case node_labels n of None \<Rightarrow> [] | Some l \<Rightarrow> l) ''kubernetes.azure.com/cluster'') nodes"

definition isUpgradeDetected :: "node_event list \<Rightarrow> bool" where
  "isUpgradeDetected events = list_ex (\<lambda>e.
     let m = or_else (ev_message e) [] in
     (ev_reason e = Some EVENT_UPGRADE \<and> str_includes m MSG_UPGRADE_STARTED) \<or>
     (ev_reason e = Some EVENT_SURGE \<and> str_includes m MSG_SURGE_CREATED) \<or>
     (ev_reason e = Some EVENT_UPGRADE \<and> str_includes m MSG_SUCCESSFULLY_REIMAGED)) events"

section \<open>Each node follows its own events\<close>

definition ev_key :: "node_event \<Rightarrow> string" where
  "ev_key e = or_else (involvedName e) []"

definition ev_effect :: "node_event \<Rightarrow> node_upgrade_state option \<Rightarrow> node_upgrade_state option" where
  "ev_effect e old =
    (if ev_key e = [] then old
     else Some (apply_event e (case old of None \<Rightarrow> fresh_state (ev_key e) | Some s \<Rightarrow> s)))"

lemma process_entry:
  "dict_get (process_event sm e) k =
    (if k = ev_key e then ev_effect e (dict_get sm k) else dict_get sm k)"
  by (cases "involvedName e")
     (auto simp: process_event_def ev_effect_def ev_key_def or_else_def dict_has_def Let_def split: option.split)

lemma process_wf: "dict_wf sm \<Longrightarrow> dict_wf (process_event sm e)"
  by (auto simp: process_event_def Let_def)

interpretation upgrades: local_store dict_get process_event dict_wf ev_key "\<lambda>s. ev_effect" ev_effect
  by unfold_locales (simp_all add: process_wf process_entry)

lemma init_wf: "dict_wf (init_states nodes)"
  unfolding init_states_def by (rule dict.wf_foldr_set) simp

text \<open>The state of a node is made of the events of that node alone, in the order of their
  times; events of other nodes, of other objects and without a name have no part in it.\<close>

theorem node_state_from_own_events:
  "dict_get (buildNodeUpgradeStates nodes events) k =
    fold ev_effect (filter (\<lambda>e. ev_key e = k) (sorted_events events)) (dict_get (init_states nodes) k)"
  unfolding buildNodeUpgradeStates_def by (rule upgrades.run_entry [OF init_wf])

section \<open>Stages\<close>

lemma enter_simps [simp]:
  "currentStage (enter_stage sg t s) = Some sg" "failedStage (enter_stage sg t s) = failedStage s"
  "isUpgrading (enter_stage sg t s)" "isSurge (enter_stage sg t s) = isSurge s"
  by (simp_all add: enter_stage_def Let_def)

lemma enter_timestamps:
  "truthy (dict_get (stageTimestamps s) x) \<Longrightarrow>
   dict_get (stageTimestamps (enter_stage sg t s)) x = dict_get (stageTimestamps s) x"
  by (auto simp: enter_stage_def Let_def)

lemma apply_completed [simp]: "currentStage s = Some Completed \<Longrightarrow> apply_event e s = s"
  by (simp add: apply_event_def)

lemma apply_timestamps:
  "truthy (dict_get (stageTimestamps s) x) \<Longrightarrow>
   dict_get (stageTimestamps (apply_event e s)) x = dict_get (stageTimestamps s) x"
  by (simp add: apply_event_def Let_def fail_stage_def enter_timestamps)

lemma apply_flags:
  "isUpgrading s \<Longrightarrow> isUpgrading (apply_event e s)" "isSurge s \<Longrightarrow> isSurge (apply_event e s)"
  "failedStage s \<noteq> None \<Longrightarrow> failedStage (apply_event e s) \<noteq> None"
  by (simp_all add: apply_event_def Let_def fail_stage_def)

text \<open>Where a node is upgrading exactly when it has a stage.\<close>

definition stage_ok :: "node_upgrade_state \<Rightarrow> bool" where
  [inv_defs]: "stage_ok s \<longleftrightarrow> (isUpgrading s \<longleftrightarrow> currentStage s \<noteq> None) \<and>
     (failedStage s \<noteq> None \<longleftrightarrow> failureMessage s \<noteq> None) \<and> (failedStage s \<noteq> None \<longrightarrow> isUpgrading s) \<and>
     (\<forall>x. dict_has (stageTimestamps s) x \<longrightarrow> truthy (dict_get (stageTimestamps s) x) \<and> isUpgrading s) \<and>
     failedStage s \<noteq> Some Completed"

lemma enter_ok: "stage_ok s \<Longrightarrow> stage_ok (enter_stage sg t s)"
  by (auto simp: stage_ok_def enter_stage_def Let_def)

lemma fail_ok: "stage_ok s \<Longrightarrow> sg \<noteq> Completed \<Longrightarrow> stage_ok (fail_stage sg m s)"
  by (auto simp: stage_ok_def fail_stage_def split: option.split)

lemma surge_ok: "stage_ok s \<Longrightarrow> stage_ok (s\<lparr>isSurge := True\<rparr>)"
  unfolding stage_ok_def by simp blast

lemma apply_ok: "stage_ok s \<Longrightarrow> stage_ok (apply_event e s)"
  unfolding apply_event_def Let_def by (simp add: enter_ok fail_ok surge_ok)

lemma fresh_ok: "stage_ok (fresh_state n)"
  by (simp add: stage_ok_def fresh_state_def)

definition states_ok :: "state_map \<Rightarrow> bool" where
  [inv_defs]: "states_ok sm \<longleftrightarrow> dict_wf sm \<and> (\<forall>k s. dict_get sm k = Some s \<longrightarrow> stage_ok s)"

lemma process_ok: "states_ok sm \<Longrightarrow> states_ok (process_event sm e)"
  by (auto simp: states_ok_def process_wf process_entry ev_effect_def apply_ok fresh_ok
      split: if_splits option.splits)

interpretation upgrade_states: reducer process_event states_ok
  by unfold_locales (rule process_ok)

lemma init_states_get:
  "dict_get (fold (\<lambda>n. dict_set (node_name n) (fresh_state (node_name n))) ns sm) k = Some s \<Longrightarrow>
   dict_get sm k = Some s \<or> s = fresh_state k"
proof (induction ns arbitrary: sm)
  case (Cons n ns)
  from Cons.IH [of "dict_set (node_name n) (fresh_state (node_name n)) sm"] Cons.prems show ?case
    by (auto split: if_splits)
qed simp

lemma init_ok: "states_ok (init_states nodes)"
proof -
  have "stage_ok s" if "dict_get (init_states nodes) k = Some s" for k s
    using init_states_get [of _ "[]" k s] that fresh_ok unfolding init_states_def by fastforce
  then show ?thesis using init_wf by (simp add: states_ok_def)
qed

text \<open>The states are consistent: a node is upgrading exactly when it has a stage, a failure
  has its stage and its message together and only on a node that is upgrading, and only the
  first four stages can fail.\<close>

theorem upgrade_states_consistent:
  assumes "dict_get (buildNodeUpgradeStates nodes events) n = Some s"
  shows "(isUpgrading s \<longleftrightarrow> currentStage s \<noteq> None) \<and>
    (failedStage s \<noteq> None \<longleftrightarrow> failureMessage s \<noteq> None) \<and>
    (\<forall>f. failedStage s = Some f \<longrightarrow> isUpgrading s \<and> f < Completed)"
proof -
  have "stage_ok s"
    using upgrade_states.run_inv [OF init_ok, of nodes "sorted_events events"] assms
    unfolding buildNodeUpgradeStates_def states_ok_def by blast
  then have ok: "isUpgrading s \<longleftrightarrow> currentStage s \<noteq> None"
    "failedStage s \<noteq> None \<longleftrightarrow> failureMessage s \<noteq> None"
    "failedStage s \<noteq> None \<longrightarrow> isUpgrading s" "failedStage s \<noteq> Some Completed"
    unfolding stage_ok_def by blast+
  have "isUpgrading s \<and> f < Completed" if "failedStage s = Some f" for f
    using ok(3,4) that less_Completed [of f] by simp
  with ok(1,2) show ?thesis by simp
qed

definition an_event :: "string \<Rightarrow> string \<Rightarrow> string \<Rightarrow> string \<Rightarrow> node_event" where
  "an_event r m ty t = \<lparr>involvedKind = Some ''Node'', involvedName = Some ''n1'', ev_reason = Some r,
     ev_message = Some m, ev_type = Some ty, firstOccurrence = Some t, ev_created = None\<rparr>"

definition some_events :: "node_event list" where
  "some_events =
    [an_event ''Drain'' ''Draining node n1'' ''Normal'' ''2024-01-01T00:05:00Z'',
     an_event ''Cordon'' ''Cordoning node n1'' ''Normal'' ''2024-01-01T00:01:00Z'',
     an_event ''Drain'' ''Error draining node n1'' ''Warning'' ''2024-01-01T00:06:00Z'']"

theorem upgrade_states_consistent_witness:
  "\<exists>s. dict_get (buildNodeUpgradeStates [] some_events) ''n1'' = Some s \<and>
     failedStage s = Some Drain \<and> isUpgrading s \<and> failureMessage s \<noteq> None"
proof -
  have "map_option failedStage (dict_get (buildNodeUpgradeStates [] some_events) ''n1'') = Some (Some Drain)"
    by code_simp
  then obtain s where "dict_get (buildNodeUpgradeStates [] some_events) ''n1'' = Some s" "failedStage s = Some Drain"
    by auto
  with upgrade_states_consistent [OF this(1)] show ?thesis by auto
qed

text \<open>Completed is final, and the first time of a stage is kept: events that are processed
  later change neither the state of a node that is completed nor a timestamp once it is set.\<close>

theorem completed_is_final:
  assumes "dict_wf sm" and "dict_get sm n = Some s"
  shows "\<exists>s'. dict_get (foldl process_event sm es) n = Some s' \<and>
    (currentStage s = Some Completed \<longrightarrow> s' = s) \<and>
    (\<forall>x. truthy (dict_get (stageTimestamps s) x) \<longrightarrow>
       dict_get (stageTimestamps s') x = dict_get (stageTimestamps s) x) \<and>
    (failedStage s \<noteq> None \<longrightarrow> failedStage s' \<noteq> None)"
  using assms
proof (induction es arbitrary: sm s)
  case (Cons e es)
  have "\<exists>s1. dict_get (process_event sm e) n = Some s1 \<and>
    (currentStage s = Some Completed \<longrightarrow> s1 = s) \<and>
    (\<forall>x. truthy (dict_get (stageTimestamps s) x) \<longrightarrow>
       dict_get (stageTimestamps s1) x = dict_get (stageTimestamps s) x) \<and>
    (failedStage s \<noteq> None \<longrightarrow> failedStage s1 \<noteq> None)"
    using Cons.prems apply_timestamps apply_flags(3) by (auto simp: process_entry ev_effect_def)
  then obtain s1 where s1: "dict_get (process_event sm e) n = Some s1"
    "currentStage s = Some Completed \<longrightarrow> s1 = s"
    "\<forall>x. truthy (dict_get (stageTimestamps s) x) \<longrightarrow>
       dict_get (stageTimestamps s1) x = dict_get (stageTimestamps s) x"
    "failedStage s \<noteq> None \<longrightarrow> failedStage s1 \<noteq> None" by blast
  from Cons.IH [OF process_wf [OF Cons.prems(1)] s1(1)] s1 show ?case by fastforce
qed simp

theorem completed_is_final_witness:
  "\<exists>s'. dict_get (foldl process_event
      [(''n1'', (fresh_state ''n1'')\<lparr>isUpgrading := True, currentStage := Some Completed\<rparr>)] some_events) ''n1'' = Some s' \<and>
     s' = (fresh_state ''n1'')\<lparr>isUpgrading := True, currentStage := Some Completed\<rparr>"
  using completed_is_final [of "[(''n1'', (fresh_state ''n1'')\<lparr>isUpgrading := True, currentStage := Some Completed\<rparr>)]"
      "''n1''" _ some_events]
  by (simp add: dict_wf_def dict_get_def)

text \<open>Whatever its type, a Cordon event that says that the node is being cordoned counts as
  progress. So a warning that repeats those words never marks the stage as failed, since the
  failures are looked at only afterwards.\<close>

theorem cordon_warning_counts_as_progress:
  assumes "ev_reason e = Some ''Cordon''" and "ev_message e = Some m" and "str_includes m ''Cordoning node''"
    and "currentStage s \<noteq> Some Completed"
  shows "currentStage (apply_event e s) = Some Cordon \<and> failedStage (apply_event e s) = failedStage s"
proof -
  have "m \<noteq> []" using assms(3) by auto
  with assms show ?thesis
    by (simp add: apply_event_def EVENT_CORDON_def EVENT_SURGE_def MSG_CORDONING_def Let_def)
qed

theorem cordon_warning_counts_as_progress_witness:
  "failedStage (apply_event (an_event ''Cordon'' ''Cordoning node n1 failed: timeout'' ''Warning'' [])
     (fresh_state ''n1'')) = None"
proof -
  have "str_includes ''Cordoning node n1 failed: timeout'' ''Cordoning node''" by code_simp
  with cordon_warning_counts_as_progress [of "an_event ''Cordon'' ''Cordoning node n1 failed: timeout'' ''Warning'' []"
      "''Cordoning node n1 failed: timeout''" "fresh_state ''n1''"]
  show ?thesis by (simp add: an_event_def fresh_state_def)
qed

end
