(* ===== verification/Graph.thy ===== *)
theory Graph
  imports JsPrelude
begin

text \<open>
  The resource map, under \<^verbatim>\<open>frontend/src/components/resourceMap/\<close>: the lookup of a graph
  (\<^verbatim>\<open>graph/graphLookup.ts\<close>), the filter with its search for related nodes
  (\<^verbatim>\<open>graph/graphFiltering.ts\<close>), the status of a node (\<^verbatim>\<open>nodes/KubeObjectStatus.tsx\<close>),
  node weights and deduplication (\<^verbatim>\<open>graph/graphModel.tsx\<close>) and the grouping into connected
  components (\<^verbatim>\<open>graph/graphGrouping.tsx\<close>).

  The two depth first searches are written with fuel, which bounds the depth of the
  recursion. One more than the number of nodes is always enough, since every nested call
  marks a new node: that is what the lemmas on \<open>unseen\<close> show.
\<close>

section \<open>Nodes and edges\<close>

text \<open>What the map reads of a Kubernetes object. \<open>k_core\<close>: its class belongs to the core
  API group, as the class of pods does.\<close>

record kube_ref =
  k_kind :: string
  k_core :: bool
  k_namespace :: "string option"
  k_phase :: "string option"
  k_conditions :: "(string \<times> string) list"
  k_readyReplicas :: "int option"
  k_numberReady :: "int option"
  k_replicas :: "int option"
  k_currentNumberScheduled :: "int option"
  k_desiredNumberScheduled :: "int option"

record edge =
  e_id :: string
  source :: string
  target :: string

datatype graph_status = StError | StSuccess | StWarning

datatype graph_node = GNode (gid: string) (glabel: "string option") (gstatus: "graph_status option")
  (gkube: "kube_ref option") (gweight: "int option") (gnodes: "graph_node list option")
  (gedges: "edge list option")

section \<open>Status and weight\<close>

text \<open>\<open>a || b || 0\<close> on numbers\<close>

fun first_nonzero :: "int option list \<Rightarrow> int" where
  "first_nonzero [] = 0"
| "first_nonzero (x # xs) = (case x of Some n \<Rightarrow> if n \<noteq> 0 then n else first_nonzero xs | None \<Rightarrow> first_nonzero xs)"

definition getReadyReplicas :: "kube_ref \<Rightarrow> int" where
  "getReadyReplicas k = first_nonzero [k_readyReplicas k, k_numberReady k]"

definition getTotalReplicas :: "kube_ref \<Rightarrow> int" where
  "getTotalReplicas k = first_nonzero [k_replicas k, k_currentNumberScheduled k, k_desiredNumberScheduled k]"

definition getPodStatus :: "kube_ref \<Rightarrow> graph_status" where
  "getPodStatus k =
    (let ph = k_phase k
     in if ph = Some ''Failed'' then StError
        else if ph = Some ''Succeeded'' \<or> ph = Some ''Running''
        then (if map_option snd (find (\<lambda>c. fst c = ''Ready'') (k_conditions k)) = Some ''True'' \<or> ph = Some ''Succeeded''
              then StSuccess else StWarning)
        else if ph = Some ''Pending'' then StWarning else StSuccess)"

definition getStatus :: "kube_ref \<Rightarrow> graph_status" where
  "getStatus k =
    (if k_core k \<and> k_kind k = ''Pod'' then getPodStatus k
     else if k_kind k \<in> set [''DaemonSet'', ''ReplicaSet'', ''StatefulSet'', ''Deployment'']
     then (if getReadyReplicas k < getTotalReplicas k then StWarning else StSuccess)
     else StSuccess)"

definition getGraphNodeStatus :: "graph_node \<Rightarrow> graph_status" where
  "getGraphNodeStatus n = (case gstatus n of Some s \<Rightarrow> s
     | None \<Rightarrow> (case gkube n of Some k \<Rightarrow> getStatus k | None \<Rightarrow> StSuccess))"

definition default_node_weights :: "(string, int) dict" where
  "default_node_weights =
    [(''HorizontalPodAutoscaler'', 1000), (''Deployment'', 980), (''StatefulSet'', 960), (''DaemonSet'', 960),
     (''CronJob'', 960), (''JobSet'', 960), (''Job'', 920), (''ReplicaSet'', 960), (''Pod'', 800),
     (''ServiceAccount'', 960), (''Role'', 790), (''ClusterRole'', 790), (''Service'', 790),
     (''NetworkPolicy'', 790), (''PersistentVolumeClaim'', 790), (''ConfigMap'', 790), (''Secret'', 790),
     (''Endpoints'', 780), (''EndpointSlice'', 780), (''MutatingWebhookConfiguration'', 780),
     (''ValidatingWebhookConfiguration'', 780), (''IngressClass'', 780), (''Ingress'', 780),
     (''RoleBinding'', 800), (''ClusterRoleBinding'', 800), (''StorageClass'', 770), (''CSIDriver'', 760),
     (''PersistentVolume'', 750), (''CustomResourceDefinition'', 600), (''default'', 500)]"

definition getNodeWeight :: "graph_node \<Rightarrow> int" where
  "getNodeWeight n =
    (case gweight n of Some w \<Rightarrow> w
     | None \<Rightarrow> (case gkube n of
         Some k \<Rightarrow> if k_kind k \<noteq> [] \<and> dict_has default_node_weights (k_kind k)
                   then the (dict_get default_node_weights (k_kind k)) else 500
       | None \<Rightarrow> 500))"

section \<open>Walking and deduplicating\<close>

text \<open>\<open>forEachNode\<close>: the nodes in the order of the calls.\<close>

fun forEachNode :: "graph_node \<Rightarrow> graph_node list" where
  "forEachNode (GNode i l s k w ns es) =
     GNode i l s k w ns es # (case ns of None \<Rightarrow> [] | Some xs \<Rightarrow> concat (map forEachNode xs))"

definition getGraphSize :: "graph_node \<Rightarrow> nat" where
  "getGraphSize g = fold (\<lambda>_ size. size + 1) (forEachNode g) 0"

text \<open>A \<open>Map\<close> filled with the first element of each id.\<close>

definition dedup_by :: "('a \<Rightarrow> string) \<Rightarrow> 'a list \<Rightarrow> 'a list" where
  "dedup_by f xs = dict_values (fold (\<lambda>x m. if dict_has m (f x) then m else dict_set (f x) x m) xs [])"

definition deduplicateGraphElements ::
  "graph_node list \<Rightarrow> edge list \<Rightarrow> graph_node list \<times> edge list" where
  "deduplicateGraphElements nodes edges = (dedup_by gid nodes, dedup_by e_id edges)"

section \<open>Lookup\<close>

record graph_lookup =
  nodeMap :: "(string, graph_node) dict"
  outgoingEdges :: "(string, edge list) dict"
  incomingEdges :: "(string, edge list) dict"

definition edge_list :: "(string, edge list) dict \<Rightarrow> string \<Rightarrow> edge list" where
  "edge_list m k = (case dict_get m k of None \<Rightarrow> [] | Some es \<Rightarrow> es)"

definition push_edge :: "string \<Rightarrow> edge \<Rightarrow> (string, edge list) dict \<Rightarrow> (string, edge list) dict" where
  "push_edge k e m = dict_set k (edge_list m k @ [e]) m"

definition makeGraphLookup :: "graph_node list \<Rightarrow> edge list \<Rightarrow> graph_lookup" where
  "makeGraphLookup nodes edges =
    \<lparr>nodeMap = fold (\<lambda>n. dict_set (gid n) n) nodes [],
     outgoingEdges = fold (\<lambda>e. push_edge (source e) e) edges [],
     incomingEdges = fold (\<lambda>e. push_edge (target e) e) edges []\<rparr>"

text \<open>\<open>undefined\<close> edges and no edges are the same to the callers.\<close>

definition getOutgoingEdges :: "graph_lookup \<Rightarrow> string \<Rightarrow> edge list" where
  "getOutgoingEdges G i = edge_list (outgoingEdges G) i"

definition getIncomingEdges :: "graph_lookup \<Rightarrow> string \<Rightarrow> edge list" where
  "getIncomingEdges G i = edge_list (incomingEdges G) i"

definition getNode :: "graph_lookup \<Rightarrow> string \<Rightarrow> graph_node option" where
  "getNode G i = dict_get (nodeMap G) i"

section \<open>Filtering\<close>

datatype graph_filter = HasErrors | InNamespaces "string list"

definition nodeMatchesFilters :: "graph_filter list \<Rightarrow> graph_node \<Rightarrow> bool" where
  "nodeMatchesFilters fs n = list_all (\<lambda>f. case f of
       HasErrors \<Rightarrow> getGraphNodeStatus n \<noteq> StSuccess
     | InNamespaces nss \<Rightarrow>
         nss = [] \<or> (let ns = Option.bind (gkube n) k_namespace in truthy ns \<and> the ns \<in> set nss)) fs"

fun addRelatedNode :: "nat \<Rightarrow> graph_lookup \<Rightarrow> string \<Rightarrow> string list \<Rightarrow> string list" where
  "addRelatedNode 0 G i visible = visible"
| "addRelatedNode (Suc fuel) G i visible =
     (if i \<in> set visible then visible
      else let v1 = set_add i visible;
               v2 = fold (\<lambda>e v. case getNode G (target e) of
                      Some t \<Rightarrow> addRelatedNode fuel G (gid t) v | None \<Rightarrow> v) (getOutgoingEdges G i) v1
           in fold (\<lambda>e v. case getNode G (source e) of
                      Some s \<Rightarrow> addRelatedNode fuel G (gid s) v | None \<Rightarrow> v) (getIncomingEdges G i) v2)"

definition visible_ids :: "graph_node list \<Rightarrow> edge list \<Rightarrow> graph_filter list \<Rightarrow> string list" where
  "visible_ids nodes edges fs =
    (let G = makeGraphLookup nodes edges; fuel = Suc (length nodes)
     in fold (\<lambda>n v. if nodeMatchesFilters fs n then addRelatedNode fuel G (gid n) v else v) nodes [])"

definition filterGraph ::
  "graph_node list \<Rightarrow> edge list \<Rightarrow> graph_filter list \<Rightarrow> graph_node list \<times> edge list" where
  "filterGraph nodes edges fs =
    (if fs = [] then (nodes, edges)
     else let v = visible_ids nodes edges fs
          in (filter (\<lambda>n. gid n \<in> set v) nodes,
              filter (\<lambda>e. source e \<in> set v \<and> target e \<in> set v) edges))"

section \<open>Connected components\<close>

definition getMainNode :: "graph_node list \<Rightarrow> graph_node option" where
  "getMainNode ns = (case ns of [] \<Rightarrow> None
     | n # rest \<Rightarrow> Some (fst (foldl (\<lambda>(m, w) x. if w < getNodeWeight x then (x, getNodeWeight x) else (m, w))
         (n, getNodeWeight n) rest)))"

text \<open>The variables of the search: visited nodes and edges, and the nodes and the edges of the
  component.\<close>

record search =
  visitedNodes :: "string list"
  visitedEdges :: "string list"
  componentNodes :: "graph_node list"
  componentEdges :: "edge list"

definition collect_edge :: "edge \<Rightarrow> search \<Rightarrow> search" where
  "collect_edge e s =
    (if e_id e \<in> set (visitedEdges s) then s
     else s\<lparr>visitedEdges := set_add (e_id e) (visitedEdges s), componentEdges := componentEdges s @ [e]\<rparr>)"

fun findConnectedComponent :: "nat \<Rightarrow> graph_lookup \<Rightarrow> graph_node \<Rightarrow> search \<Rightarrow> search" where
  "findConnectedComponent 0 G n s = s"
| "findConnectedComponent (Suc fuel) G n s =
     (let s1 = s\<lparr>visitedNodes := set_add (gid n) (visitedNodes s), componentNodes := componentNodes s @ [n]\<rparr>;
          s2 = fold (\<lambda>e s. let s' = collect_edge e s
                 in if target e \<in> set (visitedNodes s') then s'
                    else case getNode G (target e) of
                      Some t \<Rightarrow> findConnectedComponent fuel G t s' | None \<Rightarrow> s') (getOutgoingEdges G (gid n)) s1
      in fold (\<lambda>e s. let s' = collect_edge e s
                 in if source e \<in> set (visitedNodes s') then s'
                    else case getNode G (source e) of
                      Some t \<Rightarrow> findConnectedComponent fuel G t s' | None \<Rightarrow> s') (getIncomingEdges G (gid n)) s2)"

definition group_node :: "graph_node list \<Rightarrow> edge list \<Rightarrow> graph_node" where
  "group_node ns es =
    GNode (''group-'' @ (case getMainNode ns of Some m \<Rightarrow> gid m | None \<Rightarrow> ''unknown'')) None None None None
      (Some ns) (Some es)"

definition component_step ::
  "nat \<Rightarrow> graph_lookup \<Rightarrow> graph_node \<Rightarrow> (graph_node list \<times> edge list) list \<times> search \<Rightarrow>
   (graph_node list \<times> edge list) list \<times> search" where
  "component_step fuel G n cs =
    (if gid n \<in> set (visitedNodes (snd cs)) then cs
     else let s = findConnectedComponent fuel G n ((snd cs)\<lparr>componentNodes := [], componentEdges := []\<rparr>)
          in (fst cs @ [(componentNodes s, componentEdges s)], s))"

definition raw_components :: "graph_node list \<Rightarrow> edge list \<Rightarrow> (graph_node list \<times> edge list) list" where
  "raw_components nodes edges =
    fst (fold (component_step (Suc (length nodes)) (makeGraphLookup nodes edges)) nodes
      ([], \<lparr>visitedNodes = [], visitedEdges = [], componentNodes = [], componentEdges = []\<rparr>))"

definition getConnectedComponents :: "graph_node list \<Rightarrow> edge list \<Rightarrow> graph_node list" where
  "getConnectedComponents nodes edges =
    map (\<lambda>(ns, es). if length ns = 1 then ns ! 0 else group_node ns es) (raw_components nodes edges)"

section \<open>The lookup\<close>

lemma edge_list_fold:
  "edge_list (fold (\<lambda>e. push_edge (f e) e) es m) k = edge_list m k @ filter (\<lambda>e. f e = k) es"
  by (induction es arbitrary: m) (auto simp: push_edge_def edge_list_def)

lemma outgoing_edges: "getOutgoingEdges (makeGraphLookup nodes edges) i = filter (\<lambda>e. source e = i) edges"
  using edge_list_fold [of source edges "[]" i]
  by (simp add: getOutgoingEdges_def makeGraphLookup_def edge_list_def)

lemma incoming_edges: "getIncomingEdges (makeGraphLookup nodes edges) i = filter (\<lambda>e. target e = i) edges"
  using edge_list_fold [of target edges "[]" i]
  by (simp add: getIncomingEdges_def makeGraphLookup_def edge_list_def)

lemma node_map_in:
  "dict_get (fold (\<lambda>n. dict_set (gid n) n) nodes m) i = Some n \<Longrightarrow>
   dict_get m i = Some n \<or> (n \<in> set nodes \<and> gid n = i)"
proof (induction nodes arbitrary: m)
  case (Cons x nodes)
  from Cons.IH [of "dict_set (gid x) x m"] Cons.prems show ?case by (auto split: if_splits)
qed simp

lemma node_map_dom:
  "dict_has (fold (\<lambda>n. dict_set (gid n) n) nodes m) i \<longleftrightarrow> dict_has m i \<or> i \<in> gid ` set nodes"
  by (induction nodes arbitrary: m) auto

lemma get_node_Some: "getNode (makeGraphLookup nodes edges) i = Some n \<Longrightarrow> n \<in> set nodes \<and> gid n = i"
  using node_map_in [of nodes "[]" i n] by (simp add: getNode_def makeGraphLookup_def)

lemma get_node_None: "getNode (makeGraphLookup nodes edges) i = None \<longleftrightarrow> i \<notin> gid ` set nodes"
  using node_map_dom [of nodes "[]" i] unfolding getNode_def makeGraphLookup_def
  by (auto simp: dict_has_def)

section \<open>The depth first search\<close>

text \<open>The ids that a node leads to, in the order in which the search follows them.\<close>

definition nbrs :: "graph_lookup \<Rightarrow> string \<Rightarrow> string list" where
  "nbrs G i = List.map_filter (\<lambda>e. map_option gid (getNode G (target e))) (getOutgoingEdges G i) @
     List.map_filter (\<lambda>e. map_option gid (getNode G (source e))) (getIncomingEdges G i)"

lemma fold_map_filter:
  "fold (\<lambda>e v. case g e of Some t \<Rightarrow> h (k t) v | None \<Rightarrow> v) es v =
   fold h (List.map_filter (\<lambda>e. map_option k (g e)) es) v"
  by (induction es arbitrary: v) (simp_all add: List.map_filter_simps split: option.split)

lemma addRelatedNode_nbrs:
  "addRelatedNode (Suc fuel) G i v =
    (if i \<in> set v then v else fold (addRelatedNode fuel G) (nbrs G i) (v @ [i]))"
  by (simp add: nbrs_def Let_def fold_map_filter [where h = "addRelatedNode fuel G" and k = gid] set_add_def)

text \<open>Two ids are linked when an edge joins them, in either direction, and the second is the
  id of a node.\<close>

definition linked :: "graph_node list \<Rightarrow> edge list \<Rightarrow> string \<Rightarrow> string \<Rightarrow> bool" where
  "linked nodes edges x y \<longleftrightarrow> y \<in> gid ` set nodes \<and>
     (\<exists>e \<in> set edges. (source e = x \<and> target e = y) \<or> (target e = x \<and> source e = y))"

lemma set_map_filter: "set (List.map_filter f xs) = {y. \<exists>x \<in> set xs. f x = Some y}"
  by (induction xs) (auto simp: List.map_filter_simps split: option.split)

lemma nbrs_linked: "set (nbrs (makeGraphLookup nodes edges) i) = {y. linked nodes edges i y}"
proof -
  let ?G = "makeGraphLookup nodes edges"
  have g: "map_option gid (getNode ?G j) = Some y \<longleftrightarrow> j = y \<and> y \<in> gid ` set nodes" for j y
    using get_node_Some [of nodes edges j] get_node_None [of nodes edges j]
    by (cases "getNode ?G j") auto
  show ?thesis
    unfolding nbrs_def set_append set_map_filter g outgoing_edges incoming_edges linked_def by auto
qed

text \<open>What one call, and a series of calls, does to the visited ids: it appends new ones, all of
  them reachable, and all their neighbours are visited at the end.\<close>

definition search_ok :: "graph_lookup \<Rightarrow> string list \<Rightarrow> string list \<Rightarrow> string list \<Rightarrow> bool" where
  "search_ok G is v r \<longleftrightarrow>
     (\<exists>new. r = v @ new \<and> distinct new \<and> set new \<inter> set v = {} \<and>
        (\<forall>x \<in> set new. \<exists>i \<in> set is. (\<lambda>x y. y \<in> set (nbrs G x))\<^sup>*\<^sup>* i x) \<and>
        (\<forall>x \<in> set new. set (nbrs G x) \<subseteq> set r)) \<and> set is \<subseteq> set r"

lemma search_ok_Nil: "search_ok G [] v v"
  by (simp add: search_ok_def)

lemma search_ok_Cons:
  assumes "search_ok G [i] v r1" and "search_ok G is r1 r"
  shows "search_ok G (i # is) v r"
proof -
  from assms obtain n1 n2 where "r1 = v @ n1" "distinct n1" "set n1 \<inter> set v = {}"
    "r = r1 @ n2" "distinct n2" "set n2 \<inter> set r1 = {}"
    "\<forall>x \<in> set n1. (\<lambda>x y. y \<in> set (nbrs G x))\<^sup>*\<^sup>* i x" "\<forall>x \<in> set n1. set (nbrs G x) \<subseteq> set r1"
    "\<forall>x \<in> set n2. \<exists>i \<in> set is. (\<lambda>x y. y \<in> set (nbrs G x))\<^sup>*\<^sup>* i x" "\<forall>x \<in> set n2. set (nbrs G x) \<subseteq> set r"
    "i \<in> set r1" "set is \<subseteq> set r"
    by (auto simp: search_ok_def)
  then show ?thesis
    unfolding search_ok_def by (intro conjI exI [of _ "n1 @ n2"]) auto
qed

lemma search_ok_visit:
  assumes "i \<notin> set v" and "search_ok G (nbrs G i) (v @ [i]) r"
  shows "search_ok G [i] v r"
proof -
  from assms(2) obtain new where new: "r = (v @ [i]) @ new" "distinct new" "set new \<inter> set (v @ [i]) = {}"
    "\<forall>x \<in> set new. \<exists>j \<in> set (nbrs G i). (\<lambda>x y. y \<in> set (nbrs G x))\<^sup>*\<^sup>* j x"
    "\<forall>x \<in> set new. set (nbrs G x) \<subseteq> set r" "set (nbrs G i) \<subseteq> set r"
    by (auto simp: search_ok_def)
  have "\<forall>x \<in> set (i # new). (\<lambda>x y. y \<in> set (nbrs G x))\<^sup>*\<^sup>* i x"
    using new(4) by (auto intro: converse_rtranclp_into_rtranclp)
  with assms(1) new show ?thesis
    unfolding search_ok_def by (intro conjI exI [of _ "i # new"]) auto
qed

definition unseen :: "graph_node list \<Rightarrow> string list \<Rightarrow> nat" where
  "unseen nodes v = card (gid ` set nodes - set v)"

lemma unseen_mono: "set v \<subseteq> set r \<Longrightarrow> unseen nodes r \<le> unseen nodes v"
  unfolding unseen_def by (rule card_mono) auto

lemma unseen_visit: "i \<in> gid ` set nodes \<Longrightarrow> i \<notin> set v \<Longrightarrow> unseen nodes (v @ [i]) < unseen nodes v"
  unfolding unseen_def by (rule psubset_card_mono) auto

lemma unseen_0: "unseen nodes v = 0 \<Longrightarrow> i \<in> gid ` set nodes \<Longrightarrow> i \<in> set v"
  by (auto simp: unseen_def)

lemma unseen_le: "unseen nodes v \<le> length nodes"
proof -
  have "unseen nodes v \<le> card (gid ` set nodes)" unfolding unseen_def by (rule card_mono) auto
  also have "\<dots> \<le> length nodes" using card_length [of "map gid nodes"] by simp
  finally show ?thesis .
qed

lemma search_ok_seen: "i \<in> set v \<Longrightarrow> search_ok G [i] v v"
  by (simp add: search_ok_def)

lemma search_ok_subset: "search_ok G is v r \<Longrightarrow> set v \<subseteq> set r"
  by (auto simp: search_ok_def)

lemma search_ok_fold:
  assumes "\<And>i v. i \<in> gid ` set nodes \<Longrightarrow> unseen nodes v \<le> fuel \<Longrightarrow> search_ok G [i] v (f i v)"
    and "set is \<subseteq> gid ` set nodes" and "unseen nodes v \<le> fuel"
  shows "search_ok G is v (fold f is v)"
  using assms(2,3)
proof (induction "is" arbitrary: v)
  case Nil
  then show ?case by (simp add: search_ok_Nil)
next
  case (Cons i "is")
  have i: "search_ok G [i] v (f i v)" using assms(1) Cons.prems by simp
  have "unseen nodes (f i v) \<le> fuel"
    using unseen_mono [OF search_ok_subset [OF i], of nodes] Cons.prems(2) by simp
  with Cons have "search_ok G is (f i v) (fold f is (f i v))" by simp
  from search_ok_Cons [OF i this] show ?case by simp
qed

lemma nbrs_nodes: "set (nbrs (makeGraphLookup nodes edges) i) \<subseteq> gid ` set nodes"
  by (auto simp: nbrs_linked linked_def)

lemma addRelatedNode_ok:
  fixes nodes edges
  defines "G \<equiv> makeGraphLookup nodes edges"
  assumes "i \<in> gid ` set nodes" and "unseen nodes v \<le> fuel"
  shows "search_ok G [i] v (addRelatedNode fuel G i v)"
  using assms(2,3)
proof (induction fuel arbitrary: i v)
  case 0
  then show ?case using unseen_0 by (simp add: search_ok_seen)
next
  case (Suc fuel)
  show ?case
  proof (cases "i \<in> set v")
    case True
    then show ?thesis by (simp add: search_ok_seen)
  next
    case False
    have "unseen nodes (v @ [i]) \<le> fuel" using unseen_visit [OF Suc.prems(1) False] Suc.prems(2) by simp
    then have "search_ok G (nbrs G i) (v @ [i]) (fold (addRelatedNode fuel G) (nbrs G i) (v @ [i]))"
      using search_ok_fold [of nodes fuel G "addRelatedNode fuel G"] Suc.IH nbrs_nodes
      unfolding G_def by blast
    with False search_ok_visit show ?thesis by (simp add: addRelatedNode_nbrs del: addRelatedNode.simps)
  qed
qed

section \<open>What the filter shows\<close>

abbreviation connected :: "graph_node list \<Rightarrow> edge list \<Rightarrow> string \<Rightarrow> string \<Rightarrow> bool" where
  "connected nodes edges \<equiv> (linked nodes edges)\<^sup>*\<^sup>*"

lemma nbrs_rel: "(\<lambda>x y. y \<in> set (nbrs (makeGraphLookup nodes edges) x)) = linked nodes edges"
  by (simp add: nbrs_linked fun_eq_iff)

lemma fold_if_filter: "fold (\<lambda>x v. if P x then f x v else v) xs v = fold f (filter P xs) v"
  by (induction xs arbitrary: v) simp_all

lemma visible_ids_ok:
  "search_ok (makeGraphLookup nodes edges) (map gid (filter (nodeMatchesFilters fs) nodes)) []
     (visible_ids nodes edges fs)"
proof -
  let ?G = "makeGraphLookup nodes edges"
  let ?ms = "filter (nodeMatchesFilters fs) nodes"
  have "visible_ids nodes edges fs = fold (addRelatedNode (Suc (length nodes)) ?G) (map gid ?ms) []"
    by (simp add: visible_ids_def Let_def fold_if_filter fold_map comp_def)
  moreover have "search_ok ?G (map gid ?ms) [] (fold (addRelatedNode (Suc (length nodes)) ?G) (map gid ?ms) [])"
    by (rule search_ok_fold [of nodes "Suc (length nodes)"])
       (auto intro: addRelatedNode_ok simp: unseen_le le_SucI simp del: addRelatedNode.simps)
  ultimately show ?thesis by simp
qed

lemma closed_connected:
  assumes "connected nodes edges x y" and "x \<in> V" and "\<forall>z \<in> V. {y. linked nodes edges z y} \<subseteq> V"
  shows "y \<in> V"
  using assms by (induction rule: rtranclp_induct) auto

lemma set_visible_ids:
  "set (visible_ids nodes edges fs) =
     {y. \<exists>n \<in> set nodes. nodeMatchesFilters fs n \<and> connected nodes edges (gid n) y}"
proof -
  let ?V = "set (visible_ids nodes edges fs)"
  have ok: "\<forall>x \<in> ?V. \<exists>n \<in> set nodes. nodeMatchesFilters fs n \<and> connected nodes edges (gid n) x"
    "\<forall>x \<in> ?V. {y. linked nodes edges x y} \<subseteq> ?V"
    "gid ` {n \<in> set nodes. nodeMatchesFilters fs n} \<subseteq> ?V"
    using visible_ids_ok [of nodes edges fs] unfolding search_ok_def nbrs_rel nbrs_linked by auto
  show ?thesis
  proof (intro equalityI subsetI)
    fix y
    assume "y \<in> {y. \<exists>n \<in> set nodes. nodeMatchesFilters fs n \<and> connected nodes edges (gid n) y}"
    then obtain n where "gid n \<in> ?V" "connected nodes edges (gid n) y" using ok(3) by blast
    with closed_connected [OF _ _ ok(2)] show "y \<in> ?V" by blast
  qed (use ok(1) in blast)
qed

text \<open>C14: the search for related nodes always ends, and the filtered map shows exactly the nodes
  that some chain of edges, in either direction, joins to a node that matches all the
  filters, and every edge of the map between two nodes it shows.\<close>

theorem filterGraph_shows_related:
  assumes "fs \<noteq> []"
  shows "set (fst (filterGraph nodes edges fs)) =
      {n \<in> set nodes. \<exists>m \<in> set nodes. nodeMatchesFilters fs m \<and> connected nodes edges (gid m) (gid n)} \<and>
    set (snd (filterGraph nodes edges fs)) =
      {e \<in> set edges. {source e, target e} \<subseteq>
        {y. \<exists>m \<in> set nodes. nodeMatchesFilters fs m \<and> connected nodes edges (gid m) y}}"
  using assms by (auto simp: filterGraph_def Let_def set_visible_ids)

definition plain_node :: "string \<Rightarrow> graph_status \<Rightarrow> graph_node" where
  "plain_node i st = GNode i None (Some st) None None None None"

definition small_graph :: "graph_node list \<times> edge list" where
  "small_graph = ([plain_node ''a'' StError, plain_node ''b'' StSuccess, plain_node ''c'' StSuccess],
     [\<lparr>e_id = ''e'', source = ''b'', target = ''a''\<rparr>])"

theorem filterGraph_shows_related_witness:
  "plain_node ''b'' StSuccess \<in> set (fst (filterGraph (fst small_graph) (snd small_graph) [HasErrors]))"
proof -
  have "linked (fst small_graph) (snd small_graph) ''a'' ''b''"
    by (simp add: linked_def small_graph_def plain_node_def)
  then have "connected (fst small_graph) (snd small_graph) (gid (plain_node ''a'' StError)) ''b''"
    by (simp add: plain_node_def)
  moreover have "nodeMatchesFilters [HasErrors] (plain_node ''a'' StError)" by code_simp
  ultimately show ?thesis
    using filterGraph_shows_related [of "[HasErrors]" "fst small_graph" "snd small_graph"]
    by (auto simp: small_graph_def plain_node_def)
qed

section \<open>Connected components\<close>

text \<open>What the search for a component adds: nodes of the graph, whose ids it marks.\<close>

definition grows :: "graph_node list \<Rightarrow> search \<Rightarrow> search \<Rightarrow> bool" where
  "grows nodes s t \<longleftrightarrow> (\<exists>ns. componentNodes t = componentNodes s @ ns \<and>
     visitedNodes t = visitedNodes s @ map gid ns \<and> set ns \<subseteq> set nodes)"

lemma grows_refl: "visitedNodes t = visitedNodes s \<Longrightarrow> componentNodes t = componentNodes s \<Longrightarrow> grows nodes s t"
  by (simp add: grows_def)

lemma grows_trans: "grows nodes s t \<Longrightarrow> grows nodes t u \<Longrightarrow> grows nodes s u"
proof -
  assume "grows nodes s t" "grows nodes t u"
  then obtain a b where "componentNodes t = componentNodes s @ a" "visitedNodes t = visitedNodes s @ map gid a"
    "set a \<subseteq> set nodes" "componentNodes u = componentNodes t @ b" "visitedNodes u = visitedNodes t @ map gid b"
    "set b \<subseteq> set nodes" by (auto simp: grows_def)
  then show ?thesis unfolding grows_def by (intro exI [of _ "a @ b"]) simp
qed

lemma collect_edge_simps [simp]:
  "visitedNodes (collect_edge e s) = visitedNodes s" "componentNodes (collect_edge e s) = componentNodes s"
  by (simp_all add: collect_edge_def)

definition component_edge ::
  "nat \<Rightarrow> graph_lookup \<Rightarrow> (edge \<Rightarrow> string) \<Rightarrow> edge \<Rightarrow> search \<Rightarrow> search" where
  "component_edge fuel G f e s =
    (let s' = collect_edge e s
     in if f e \<in> set (visitedNodes s') then s'
        else case getNode G (f e) of Some t \<Rightarrow> findConnectedComponent fuel G t s' | None \<Rightarrow> s')"

lemma find_component_edges:
  "findConnectedComponent (Suc fuel) G n s =
    fold (component_edge fuel G source) (getIncomingEdges G (gid n))
     (fold (component_edge fuel G target) (getOutgoingEdges G (gid n))
      (s\<lparr>visitedNodes := set_add (gid n) (visitedNodes s), componentNodes := componentNodes s @ [n]\<rparr>))"
  by (simp add: component_edge_def [abs_def] Let_def)

lemma addRelatedNode_seen: "i \<in> set v \<Longrightarrow> addRelatedNode fuel G i v = v"
  by (cases fuel) simp_all

text \<open>The search marks the nodes that \<open>addRelatedNode\<close> marks, in the same order.\<close>

lemma component_edges_visit:
  assumes "\<And>n s. n \<in> set nodes \<Longrightarrow> gid n \<notin> set (visitedNodes s) \<Longrightarrow>
      visitedNodes (findConnectedComponent fuel G n s) = addRelatedNode fuel G (gid n) (visitedNodes s) \<and>
      grows nodes s (findConnectedComponent fuel G n s)"
    and "G = makeGraphLookup nodes edges"
  shows "visitedNodes (fold (component_edge fuel G f) es s) =
      fold (\<lambda>e v. case getNode G (f e) of Some t \<Rightarrow> addRelatedNode fuel G (gid t) v | None \<Rightarrow> v) es (visitedNodes s) \<and>
    grows nodes s (fold (component_edge fuel G f) es s)"
proof (induction es arbitrary: s)
  case Nil
  show ?case by (simp add: grows_refl)
next
  case (Cons e es)
  have step: "visitedNodes (component_edge fuel G f e s) =
      (case getNode G (f e) of Some t \<Rightarrow> addRelatedNode fuel G (gid t) (visitedNodes s) | None \<Rightarrow> visitedNodes s) \<and>
    grows nodes s (component_edge fuel G f e s)"
  proof (cases "getNode G (f e)")
    case None
    then show ?thesis by (simp add: component_edge_def Let_def grows_refl)
  next
    case (Some t)
    then have t: "t \<in> set nodes" "gid t = f e" using get_node_Some assms(2) by auto
    show ?thesis
    proof (cases "f e \<in> set (visitedNodes s)")
      case True
      with Some t show ?thesis by (simp add: component_edge_def Let_def grows_refl addRelatedNode_seen)
    next
      case False
      let ?s = "collect_edge e s"
      have r: "component_edge fuel G f e s = findConnectedComponent fuel G t ?s"
        using False Some by (simp add: component_edge_def Let_def)
      have "grows nodes s ?s" by (simp add: grows_refl)
      moreover from assms(1) [OF t(1), of ?s] False t(2)
      have "visitedNodes (findConnectedComponent fuel G t ?s) = addRelatedNode fuel G (gid t) (visitedNodes s)"
        "grows nodes ?s (findConnectedComponent fuel G t ?s)" by simp_all
      ultimately show ?thesis using grows_trans Some unfolding r by simp
    qed
  qed
  from Cons.IH [of "component_edge fuel G f e s"] step
  have "grows nodes s (fold (component_edge fuel G f) (e # es) s)" using grows_trans by simp blast
  with Cons.IH [of "component_edge fuel G f e s"] step show ?case by simp
qed

lemma find_component_visits:
  assumes "G = makeGraphLookup nodes edges" and "n \<in> set nodes" and "gid n \<notin> set (visitedNodes s)"
  shows "visitedNodes (findConnectedComponent fuel G n s) = addRelatedNode fuel G (gid n) (visitedNodes s) \<and>
    grows nodes s (findConnectedComponent fuel G n s)"
  using assms(2,3)
proof (induction fuel arbitrary: n s)
  case 0
  then show ?case by (simp add: grows_refl)
next
  case (Suc fuel)
  let ?s1 = "s\<lparr>visitedNodes := set_add (gid n) (visitedNodes s), componentNodes := componentNodes s @ [n]\<rparr>"
  let ?s2 = "fold (component_edge fuel G target) (getOutgoingEdges G (gid n)) ?s1"
  let ?s3 = "fold (component_edge fuel G source) (getIncomingEdges G (gid n)) ?s2"
  have g1: "grows nodes s ?s1"
    unfolding grows_def using Suc.prems by (intro exI [of _ "[n]"]) (simp add: set_add_def)
  note v = component_edges_visit [OF Suc.IH assms(1)]
  have "grows nodes s ?s3"
    using g1 v [of target "getOutgoingEdges G (gid n)" ?s1] v [of source "getIncomingEdges G (gid n)" ?s2]
      grows_trans by blast
  moreover have "visitedNodes ?s3 = addRelatedNode (Suc fuel) G (gid n) (visitedNodes s)"
    using v [of target "getOutgoingEdges G (gid n)" ?s1] v [of source "getIncomingEdges G (gid n)" ?s2] Suc.prems
    by (simp add: Let_def)
  ultimately show ?case by (simp only: find_component_edges)
qed

lemma linked_sym: "x \<in> gid ` set nodes \<Longrightarrow> linked nodes edges x y \<Longrightarrow> linked nodes edges y x"
  by (auto simp: linked_def)

lemma connected_node: "connected nodes edges x y \<Longrightarrow> x \<in> gid ` set nodes \<Longrightarrow> y \<in> gid ` set nodes"
  by (induction rule: rtranclp_induct) (auto simp: linked_def)

lemma connected_sym:
  "connected nodes edges x y \<Longrightarrow> x \<in> gid ` set nodes \<Longrightarrow> connected nodes edges y x"
proof (induction rule: rtranclp_induct)
  case (step y z)
  then have "linked nodes edges z y" using connected_node linked_sym by blast
  with step show ?case by (metis converse_rtranclp_into_rtranclp)
qed simp

text \<open>A search from a new node, when everything visited so far is closed, visits exactly the
  ids connected to it.\<close>

lemma search_from_closed:
  assumes "search_ok (makeGraphLookup nodes edges) [i] v r" and "i \<in> gid ` set nodes" and "i \<notin> set v"
    and "\<forall>z \<in> set v. {y. linked nodes edges z y} \<subseteq> set v"
  shows "\<exists>new. r = v @ new \<and> distinct new \<and> set new \<inter> set v = {} \<and> set new = {y. connected nodes edges i y} \<and>
    (\<forall>z \<in> set r. {y. linked nodes edges z y} \<subseteq> set r)"
proof -
  obtain new where new: "r = v @ new" "distinct new" "set new \<inter> set v = {}"
    "\<forall>x \<in> set new. connected nodes edges i x" "\<forall>x \<in> set new. {y. linked nodes edges x y} \<subseteq> set r" "i \<in> set r"
    using assms(1) unfolding search_ok_def nbrs_rel nbrs_linked by auto
  have closed: "\<forall>z \<in> set r. {y. linked nodes edges z y} \<subseteq> set r"
    using new assms(4) by auto
  have "y \<in> set new" if "connected nodes edges i y" for y
  proof -
    have "y \<in> set r" using closed_connected [OF that new(6) closed] .
    moreover have "y \<notin> set v"
      using closed_connected [OF connected_sym [OF that assms(2)] _ assms(4)] assms(3) by blast
    ultimately show ?thesis using new(1) by simp
  qed
  with new closed show ?thesis by auto
qed

text \<open>The state between two nodes of the outer loop.\<close>

definition parts_ok ::
  "graph_node list \<Rightarrow> edge list \<Rightarrow> (graph_node list \<times> edge list) list \<times> search \<Rightarrow> bool" where
  [inv_defs]: "parts_ok nodes edges cs \<longleftrightarrow>
     visitedNodes (snd cs) = map gid (concat (map fst (fst cs))) \<and>
     distinct (visitedNodes (snd cs)) \<and> set (concat (map fst (fst cs))) \<subseteq> set nodes \<and>
     (\<forall>z \<in> set (visitedNodes (snd cs)). {y. linked nodes edges z y} \<subseteq> set (visitedNodes (snd cs))) \<and>
     (\<forall>c \<in> set (fst cs). \<exists>n \<in> set nodes. gid ` set (fst c) = {y. connected nodes edges (gid n) y})"

lemma component_step_ok:
  assumes "parts_ok nodes edges cs" and "n \<in> set nodes"
  defines "t \<equiv> component_step (Suc (length nodes)) (makeGraphLookup nodes edges) n cs"
  shows "parts_ok nodes edges t" "set (visitedNodes (snd cs)) \<subseteq> set (visitedNodes (snd t))"
    "gid n \<in> set (visitedNodes (snd t))"
proof -
  let ?G = "makeGraphLookup nodes edges"
  let ?v = "visitedNodes (snd cs)"
  let ?init = "(snd cs)\<lparr>componentNodes := [], componentEdges := []\<rparr>"
  define sf where "sf = findConnectedComponent (Suc (length nodes)) ?G n ?init"
  have "parts_ok nodes edges t \<and> set ?v \<subseteq> set (visitedNodes (snd t)) \<and> gid n \<in> set (visitedNodes (snd t))"
  proof (cases "gid n \<in> set ?v")
    case True
    with assms show ?thesis by (simp add: component_step_def)
  next
    case False
    have "visitedNodes sf = addRelatedNode (Suc (length nodes)) ?G (gid n) ?v \<and> grows nodes ?init sf"
      unfolding sf_def
      using find_component_visits [OF refl assms(2), where s = ?init and edges = edges and fuel = "Suc (length nodes)"]
        False by simp
    note fc = this
    have vis: "visitedNodes sf = addRelatedNode (Suc (length nodes)) ?G (gid n) ?v"
      using fc by blast
    obtain ns where ns: "componentNodes sf = ns" "visitedNodes sf = ?v @ map gid ns" "set ns \<subseteq> set nodes"
      using fc by (auto simp: grows_def)
    have sok: "search_ok ?G [gid n] ?v (visitedNodes sf)"
      unfolding vis by (rule addRelatedNode_ok) (use assms(2) unseen_le in \<open>auto intro: le_SucI\<close>)
    have closed: "\<forall>z \<in> set ?v. {y. linked nodes edges z y} \<subseteq> set ?v"
      using assms(1) unfolding parts_ok_def by blast
    obtain new where new: "visitedNodes sf = ?v @ new" "distinct new" "set new \<inter> set ?v = {}"
      "set new = {y. connected nodes edges (gid n) y}"
      "\<forall>z \<in> set (visitedNodes sf). {y. linked nodes edges z y} \<subseteq> set (visitedNodes sf)"
      using search_from_closed [OF sok _ False closed] assms(2) by blast
    have "new = map gid ns" using new(1) ns(2) by simp
    moreover have "t = (fst cs @ [(ns, componentEdges sf)], sf)"
      using False ns(1) by (simp add: t_def component_step_def Let_def sf_def [symmetric] del: findConnectedComponent.simps)
    moreover have "gid n \<in> set new" using new(4) by simp
    ultimately show ?thesis
      using assms(1,2) ns new by (auto simp: parts_ok_def simp del: findConnectedComponent.simps)
  qed
  then show "parts_ok nodes edges t" "set ?v \<subseteq> set (visitedNodes (snd t))"
    "gid n \<in> set (visitedNodes (snd t))" by simp_all
qed

lemma component_fold_ok:
  assumes "parts_ok nodes edges cs" and "set ns \<subseteq> set nodes"
  shows "parts_ok nodes edges (fold (component_step (Suc (length nodes)) (makeGraphLookup nodes edges)) ns cs) \<and>
    set (visitedNodes (snd cs)) \<union> gid ` set ns \<subseteq>
      set (visitedNodes (snd (fold (component_step (Suc (length nodes)) (makeGraphLookup nodes edges)) ns cs)))"
  using assms
proof (induction ns arbitrary: cs)
  case (Cons n ns)
  then have n: "n \<in> set nodes" by simp
  note st = component_step_ok [OF Cons.prems(1) n]
  from Cons.IH [OF st(1)] Cons.prems(2) st(2,3) show ?case by auto
qed simp

text \<open>With distinct ids, the components partition the graph: every node is in exactly one of
  them, and the nodes of a component are exactly those that chains of edges join to one
  another.\<close>

theorem components_partition_the_graph:
  assumes "distinct (map gid nodes)"
  shows "distinct (concat (map fst (raw_components nodes edges))) \<and>
    set (concat (map fst (raw_components nodes edges))) = set nodes \<and>
    (\<forall>c \<in> set (raw_components nodes edges). \<forall>x \<in> set (fst c). \<forall>y \<in> set nodes.
       y \<in> set (fst c) \<longleftrightarrow> connected nodes edges (gid x) (gid y))"
proof -
  let ?start = "([], \<lparr>visitedNodes = [], visitedEdges = [], componentNodes = [], componentEdges = []\<rparr>)
    :: (graph_node list \<times> edge list) list \<times> search"
  define t where "t = fold (component_step (Suc (length nodes)) (makeGraphLookup nodes edges)) nodes ?start"
  define all where "all = concat (map fst (raw_components nodes edges))"
  have "parts_ok nodes edges ?start" by (simp add: parts_ok_def)
  from component_fold_ok [OF this, of nodes] have ok: "parts_ok nodes edges t"
    and cover: "gid ` set nodes \<subseteq> set (visitedNodes (snd t))" by (simp_all add: t_def)
  have raw: "raw_components nodes edges = fst t" by (simp add: raw_components_def t_def)
  have v12: "visitedNodes (snd t) = map gid all" "set all \<subseteq> set nodes"
    using ok by (simp_all add: parts_ok_def all_def raw)
  moreover have "distinct (visitedNodes (snd t))" using ok unfolding parts_ok_def by blast
  ultimately have v: "visitedNodes (snd t) = map gid all" "set all \<subseteq> set nodes" "distinct (map gid all)"
    by simp_all
  have inj: "inj_on gid (set nodes)" using assms by (simp add: distinct_map)
  have sub: "set nodes \<subseteq> set all"
  proof
    fix n
    assume n: "n \<in> set nodes"
    then have "gid n \<in> gid ` set all" using cover v(1) by auto
    then obtain m where m: "m \<in> set all" "gid n = gid m" by blast
    then have "n = m" using inj_onD [OF inj m(2) n] v(2) by blast
    with m(1) show "n \<in> set all" by simp
  qed
  have mem: "y \<in> set (fst c) \<longleftrightarrow> connected nodes edges (gid x) (gid y)"
    if c: "c \<in> set (raw_components nodes edges)" and x: "x \<in> set (fst c)" and y: "y \<in> set nodes" for c x y
  proof -
    obtain n where n: "n \<in> set nodes" "gid ` set (fst c) = {y. connected nodes edges (gid n) y}"
      using ok c unfolding raw parts_ok_def by blast
    have sub: "set (fst c) \<subseteq> set nodes" using v(2) c by (auto simp: all_def)
    have nx: "connected nodes edges (gid n) (gid x)" using n(2) x by blast
    have "y \<in> set (fst c) \<longleftrightarrow> gid y \<in> gid ` set (fst c)"
      by (rule inj_on_image_mem_iff [OF inj y sub, symmetric])
    also have "\<dots> \<longleftrightarrow> connected nodes edges (gid n) (gid y)" using n(2) by blast
    also have "\<dots> \<longleftrightarrow> connected nodes edges (gid x) (gid y)"
      using nx connected_sym [OF nx] n(1) by (meson imageI rtranclp_trans)
    finally show ?thesis .
  qed
  have "set all = set nodes" using sub v(2) by blast
  moreover have "distinct all" using v(3) by (simp add: distinct_map)
  ultimately show ?thesis using mem unfolding all_def by blast
qed

theorem components_partition_the_graph_witness:
  "distinct (concat (map fst (raw_components (fst small_graph) (snd small_graph)))) \<and>
   length (raw_components (fst small_graph) (snd small_graph)) = 2"
proof -
  have "distinct (map gid (fst small_graph))" "length (raw_components (fst small_graph) (snd small_graph)) = 2"
    by code_simp+
  with components_partition_the_graph [of "fst small_graph" "snd small_graph"] show ?thesis by simp
qed

end
