(* ===== verification/McpTools.thy ===== *)
theory McpTools
  imports JsPrelude
begin

text \<open>
  The settings of MCP tools in the desktop app, \<^verbatim>\<open>app/electron/mcp/MCPToolStateStore.ts\<close>:
  the store of tool states with its file, the names of tools, the validation of arguments
  and the summary of a change. The file is the configuration it was last written with; a
  missing or unreadable file is the empty one. A \<open>Date\<close> is its milliseconds. The two tick
  marks of the summary stand for their characters.
\<close>

section \<open>Tool states\<close>

record tool_state =
  enabled :: bool
  lastUsed :: "int option"
  usageCount :: "int option"
  inputSchema :: "json option"
  description :: "string option"

type_synonym server_tools = "(string, tool_state) dict"

type_synonym tools_config = "(string, server_tools) dict"

record tool_info =
  ti_name :: string
  ti_schema :: "json option"
  ti_description :: "string option"

text \<open>The store, and its file; \<open>writable\<close>: writing the file works (an error is only logged).\<close>

record tool_store =
  config :: tools_config
  disk :: tools_config
  writable :: bool

definition server_of :: "tools_config \<Rightarrow> string \<Rightarrow> server_tools" where
  "server_of c sv = (case dict_get c sv of None \<Rightarrow> [] | Some ts \<Rightarrow> ts)"

definition tool_of :: "tools_config \<Rightarrow> string \<Rightarrow> string \<Rightarrow> tool_state option" where
  "tool_of c sv t = dict_get (server_of c sv) t"

section \<open>Operations of the store\<close>

text \<open>\<open>loadConfig\<close>: \<open>None\<close> stands for any error on the way.\<close>

definition loadConfig :: "tools_config option \<Rightarrow> tool_store \<Rightarrow> tool_store" where
  [state_defs]: "loadConfig content s = s\<lparr>config := (case content of None \<Rightarrow> [] | Some c \<Rightarrow> c)\<rparr>"

definition saveConfig :: "tool_store \<Rightarrow> tool_store" where
  [state_defs]: "saveConfig s = (if writable s then s\<lparr>disk := config s\<rparr> else s)"

definition isToolEnabled :: "string \<Rightarrow> string \<Rightarrow> tool_store \<Rightarrow> bool" where
  "isToolEnabled sv t s =
    (case dict_get (config s) sv of
       None \<Rightarrow> True
     | Some ts \<Rightarrow> (case dict_get ts t of None \<Rightarrow> True | Some st \<Rightarrow> enabled st))"

definition default_tool :: tool_state where
  "default_tool = \<lparr>enabled = True, lastUsed = None, usageCount = Some 0, inputSchema = None, description = None\<rparr>"

text \<open>The entry of a tool, made if it is missing, changed by a function.\<close>

definition ensure_server :: "string \<Rightarrow> tools_config \<Rightarrow> tools_config" where
  "ensure_server sv c = (if dict_has c sv then c else dict_set sv [] c)"

definition ensure_tool :: "string \<Rightarrow> string \<Rightarrow> tools_config \<Rightarrow> tools_config" where
  "ensure_tool sv t c =
    (let c1 = ensure_server sv c
     in if dict_has (server_of c1 sv) t then c1 else dict_set sv (dict_set t default_tool (server_of c1 sv)) c1)"

definition modify_tool :: "string \<Rightarrow> string \<Rightarrow> (tool_state \<Rightarrow> tool_state) \<Rightarrow> tools_config \<Rightarrow> tools_config" where
  "modify_tool sv t f c =
    (let c1 = ensure_tool sv t c; ts = server_of c1 sv
     in dict_set sv (dict_set t (f (the (dict_get ts t))) ts) c1)"

definition setToolEnabled :: "string \<Rightarrow> string \<Rightarrow> bool \<Rightarrow> tool_store \<Rightarrow> tool_store" where
  [state_defs]: "setToolEnabled sv t b s =
    saveConfig (s\<lparr>config := modify_tool sv t (\<lambda>st. st\<lparr>enabled := b\<rparr>) (config s)\<rparr>)"

definition getDisabledTools :: "string \<Rightarrow> tool_store \<Rightarrow> string list" where
  "getDisabledTools sv s = map fst (filter (\<lambda>(_, st). \<not> enabled st) (server_of (config s) sv))"

definition getEnabledTools :: "string \<Rightarrow> tool_store \<Rightarrow> string list" where
  "getEnabledTools sv s = map fst (filter (\<lambda>(_, st). enabled st) (server_of (config s) sv))"

definition recordToolUsage :: "int \<Rightarrow> string \<Rightarrow> string \<Rightarrow> tool_store \<Rightarrow> tool_store" where
  [state_defs]: "recordToolUsage clock sv t s =
    saveConfig (s\<lparr>config := modify_tool sv t (\<lambda>st. st\<lparr>lastUsed := Some clock,
      usageCount := Some ((case usageCount st of None \<Rightarrow> 0 | Some n \<Rightarrow> n) + 1)\<rparr>) (config s)\<rparr>)"

definition setConfig :: "tools_config \<Rightarrow> tool_store \<Rightarrow> tool_store" where
  [state_defs]: "setConfig c s = saveConfig (s\<lparr>config := c\<rparr>)"

definition resetConfig :: "tool_store \<Rightarrow> tool_store" where
  [state_defs]: "resetConfig s = saveConfig (s\<lparr>config := []\<rparr>)"

definition replaceConfig :: "tools_config \<Rightarrow> tool_store \<Rightarrow> tool_store" where
  [state_defs]: "replaceConfig c s = saveConfig (s\<lparr>config := c\<rparr>)"

definition getToolStats :: "string \<Rightarrow> string \<Rightarrow> tool_store \<Rightarrow> tool_state option" where
  "getToolStats sv t s = tool_of (config s) sv t"

text \<open>One tool of \<open>initializeToolsConfig\<close>; the flag is \<open>hasChanges\<close>. Two JSON values have the
  same text exactly when they are equal.\<close>

definition schema_or_null :: "json option \<Rightarrow> json" where
  "schema_or_null v = jor v JNull"

definition init_tool :: "tool_info \<Rightarrow> server_tools \<times> bool \<Rightarrow> server_tools \<times> bool" where
  "init_tool ti sb =
    (let (ts, changed) = sb; t = ti_name ti; sch = schema_or_null (ti_schema ti); d = or_else (ti_description ti) []
     in case dict_get ts t of
          None \<Rightarrow> (dict_set t \<lparr>enabled = True, lastUsed = None, usageCount = Some 0,
                     inputSchema = Some sch, description = Some d\<rparr> ts, True)
        | Some st \<Rightarrow>
            let schema_differs = (schema_or_null (inputSchema st) \<noteq> sch);
                st1 = (if schema_differs then st\<lparr>inputSchema := Some sch\<rparr> else st);
                text_differs = (or_else (description st1) [] \<noteq> d);
                st2 = (if text_differs then st1\<lparr>description := Some d\<rparr> else st1)
            in (dict_set t st2 ts, changed \<or> schema_differs \<or> text_differs))"

definition initializeToolsConfig :: "string \<Rightarrow> tool_info list \<Rightarrow> tool_store \<Rightarrow> tool_store" where
  [state_defs]: "initializeToolsConfig sv infos s =
    (let c1 = ensure_server sv (config s);
         (ts, hasChanges) = fold init_tool infos (server_of c1 sv, False);
         s1 = s\<lparr>config := dict_set sv ts c1\<rparr>
     in if hasChanges then saveConfig s1 else s1)"

definition replaced_tool :: "tool_state option \<Rightarrow> tool_info \<Rightarrow> tool_state" where
  "replaced_tool old ti =
    \<lparr>enabled = (case old of None \<Rightarrow> True | Some st \<Rightarrow> enabled st), lastUsed = None,
     usageCount = Some (case Option.bind old usageCount of None \<Rightarrow> 0 | Some n \<Rightarrow> n),
     inputSchema = Some (schema_or_null (ti_schema ti)), description = Some (or_else (ti_description ti) [])\<rparr>"

definition replaced_server :: "tools_config \<Rightarrow> string \<Rightarrow> tool_info list \<Rightarrow> server_tools" where
  "replaced_server old sv infos =
    fold (\<lambda>ti. dict_set (ti_name ti) (replaced_tool (tool_of old sv (ti_name ti)) ti)) infos []"

definition replaceToolsConfig :: "(string, tool_info list) dict \<Rightarrow> tool_store \<Rightarrow> tool_store" where
  [state_defs]: "replaceToolsConfig byServer s =
    saveConfig (s\<lparr>config := fold (\<lambda>p. dict_set (fst p) (replaced_server (config s) (fst p) (snd p))) byServer []\<rparr>)"

section \<open>Names\<close>

definition parseServerNameToolName :: "string \<Rightarrow> string \<times> string" where
  "parseServerNameToolName full =
    (let parts = js_split ''__'' full
     in if 2 \<le> length parts then (parts ! 0, js_join ''__'' (drop 1 parts)) else (''default'', full))"

record client_tool =
  ct_name :: string
  ct_schema :: "json option"
  ct_inputSchema :: "json option"
  ct_description :: "string option"

definition client_info :: "client_tool \<Rightarrow> tool_info" where
  "client_info c = \<lparr>ti_name = snd (parseServerNameToolName (ct_name c)),
     ti_schema = Some (if jtruthy (ct_schema c) then the (ct_schema c) else jor (ct_inputSchema c) JNull),
     ti_description = Some (or_else (ct_description c) [])\<rparr>"

definition group_tool :: "client_tool \<Rightarrow> (string, tool_info list) dict \<Rightarrow> (string, tool_info list) dict" where
  "group_tool c d =
    (let sv = fst (parseServerNameToolName (ct_name c));
         old = (case dict_get d sv of None \<Rightarrow> [] | Some xs \<Rightarrow> xs)
     in dict_set sv (old @ [client_info c]) d)"

definition initConfigFromClientTools :: "client_tool list \<Rightarrow> tool_store \<Rightarrow> tool_store" where
  [state_defs]: "initConfigFromClientTools tools s =
    (if tools = [] then replaceConfig [] s
     else replaceToolsConfig (fold group_tool tools []) s)"

section \<open>Validation of arguments\<close>

text \<open>\<open>SchemaError\<close>: something was thrown and caught.\<close>

datatype validation = Valid | Invalid string | SchemaError

fun check_required :: "(string, json) dict \<Rightarrow> json list \<Rightarrow> validation" where
  "check_required args [] = Valid"
| "check_required args (r # rs) =
     (if dict_get args (json_str r) = None \<or> dict_get args (json_str r) = Some JNull
      then Invalid (''Required parameter '' @ [CHR 0x27] @ json_str r @ [CHR 0x27] @ '' is missing'')
      else check_required args rs)"

definition should_be :: "string \<Rightarrow> string \<Rightarrow> json \<Rightarrow> validation" where
  "should_be name what v = Invalid (''Parameter '' @ [CHR 0x27] @ name @ [CHR 0x27] @ '' should be '' @ what @
     '', got '' @ js_typeof v)"

definition check_type :: "string \<Rightarrow> json option \<Rightarrow> json \<Rightarrow> validation" where
  "check_type name ty v =
    (if ty = Some (JStr ''string'') \<and> js_typeof v \<noteq> ''string'' then should_be name ''a string'' v
     else if ty = Some (JStr ''number'') \<and> js_typeof v \<noteq> ''number'' then should_be name ''a number'' v
     else if ty = Some (JStr ''boolean'') \<and> js_typeof v \<noteq> ''boolean'' then should_be name ''a boolean'' v
     else if ty = Some (JStr ''array'') \<and> \<not> is_array v then should_be name ''an array'' v
     else if ty = Some (JStr ''object'') \<and> (js_typeof v \<noteq> ''object'' \<or> is_array v \<or> v = JNull)
     then should_be name ''an object'' v
     else Valid)"

fun check_properties :: "(string, json) dict \<Rightarrow> (string \<times> json) list \<Rightarrow> validation" where
  "check_properties args [] = Valid"
| "check_properties args ((name, sch) # ps) =
     (case dict_get args name of
        None \<Rightarrow> check_properties args ps
      | Some v \<Rightarrow> (case jprop sch ''type'' of
          Inl e \<Rightarrow> SchemaError
        | Inr ty \<Rightarrow> (case check_type name ty v of Valid \<Rightarrow> check_properties args ps | bad \<Rightarrow> bad)))"

text \<open>\<open>Object.entries\<close>\<close>

definition object_entries :: "json \<Rightarrow> (string \<times> json) list" where
  "object_entries j = (case j of JObj fs \<Rightarrow> fs
     | JArr xs \<Rightarrow> map (\<lambda>(i, x). (int_str (int i), x)) (enumerate 0 xs)
     | JStr s \<Rightarrow> map (\<lambda>(i, c). (int_str (int i), JStr [c])) (enumerate 0 s)
     | _ \<Rightarrow> [])"

definition field_of :: "json \<Rightarrow> string \<Rightarrow> json option" where
  "field_of j k = (case jprop j k of Inl e \<Rightarrow> None | Inr v \<Rightarrow> v)"

definition validateToolArgs :: "json option \<Rightarrow> (string, json) dict \<Rightarrow> validation" where
  "validateToolArgs schema args =
    (if \<not> jtruthy schema then Valid
     else let sch = the schema;
              req = (case field_of sch ''required'' of Some (JArr rs) \<Rightarrow> check_required args rs | _ \<Rightarrow> Valid)
          in case req of
               Valid \<Rightarrow> if jtruthy (field_of sch ''properties'')
                        then check_properties args (object_entries (the (field_of sch ''properties''))) else Valid
             | bad \<Rightarrow> bad)"

section \<open>Summary of changes\<close>

record changes =
  enabledTools :: "string list"
  disabledTools :: "string list"
  addedTools :: "string list"
  removedTools :: "string list"

definition flag_change :: "bool \<Rightarrow> string \<Rightarrow> changes \<Rightarrow> changes" where
  "flag_change b name ch = (if b then ch\<lparr>enabledTools := enabledTools ch @ [name]\<rparr>
     else ch\<lparr>disabledTools := disabledTools ch @ [name]\<rparr>)"

definition tool_change :: "string \<Rightarrow> tool_state option \<Rightarrow> tool_state option \<Rightarrow> changes \<Rightarrow> changes" where
  "tool_change name cur new ch =
    (case (cur, new) of
       (None, Some n) \<Rightarrow> flag_change (enabled n) name (ch\<lparr>addedTools := addedTools ch @ [name]\<rparr>)
     | (Some c, None) \<Rightarrow> ch\<lparr>removedTools := removedTools ch @ [name]\<rparr>
     | (Some c, Some n) \<Rightarrow> if enabled c \<noteq> enabled n then flag_change (enabled n) name ch else ch
     | (None, None) \<Rightarrow> ch)"

definition pairs_of :: "tools_config \<Rightarrow> tools_config \<Rightarrow> (string \<times> string) list" where
  "pairs_of cur new =
    concat (map (\<lambda>sv. map (\<lambda>t. (sv, t)) (set_of (dict_keys (server_of cur sv) @ dict_keys (server_of new sv))))
      (set_of (dict_keys cur @ dict_keys new)))"

definition collect_changes :: "tools_config \<Rightarrow> tools_config \<Rightarrow> changes" where
  "collect_changes cur new =
    fold (\<lambda>(sv, t). tool_change (t @ '' ('' @ sv @ '')'') (tool_of cur sv t) (tool_of new sv t)) (pairs_of cur new)
      \<lparr>enabledTools = [], disabledTools = [], addedTools = [], removedTools = []\<rparr>"

definition tick :: char where "tick = CHR 0xA4"
definition cross :: char where "cross = CHR 0xA5"

definition summarizeMcpToolStateChanges :: "tools_config \<Rightarrow> tools_config \<Rightarrow> nat \<times> string" where
  "summarizeMcpToolStateChanges cur new =
    (let ch = collect_changes cur new;
         part = (\<lambda>mark verb xs. if xs = [] then []
           else [mark # verb @ int_str (int (length xs)) @ ''): '' @ js_join '', '' xs]);
         summaryParts = part tick '' ENABLE ('' (enabledTools ch) @ part cross '' DISABLE ('' (disabledTools ch)
     in (length (enabledTools ch) + length (disabledTools ch) + length (addedTools ch) + length (removedTools ch),
         js_join [CHR 0x0A, CHR 0x0A] summaryParts))"

text \<open>\<open>showToolsConfigConfirmationDialog\<close>: \<open>answer\<close> is the button that the dialog returns; it is
  asked only when there is a change.\<close>

definition confirm_changes :: "int \<Rightarrow> tools_config \<Rightarrow> tools_config \<Rightarrow> bool" where
  "confirm_changes answer cur new =
    (if fst (summarizeMcpToolStateChanges cur new) = 0 then True else answer = 0)"

section \<open>Lookups\<close>

lemma server_of_set [simp]: "server_of (dict_set sv ts c) sv' = (if sv' = sv then ts else server_of c sv')"
  by (simp add: server_of_def)

lemma tool_of_set: "tool_of (dict_set sv ts c) sv' t = (if sv' = sv then dict_get ts t else tool_of c sv' t)"
  by (simp add: tool_of_def)

lemma server_of_missing: "\<not> dict_has c sv \<Longrightarrow> server_of c sv = []"
  by (simp add: server_of_def dict_has_def)

lemma tool_of_ensure_server [simp]: "tool_of (ensure_server sv c) sv' t = tool_of c sv' t"
  "server_of (ensure_server sv c) sv' = server_of c sv'"
  by (simp_all add: ensure_server_def tool_of_def server_of_missing)

lemma tool_of_ensure_tool:
  "tool_of (ensure_tool sv t c) sv' t' =
    (if sv' = sv \<and> t' = t \<and> tool_of c sv t = None then Some default_tool else tool_of c sv' t')"
  by (auto simp: ensure_tool_def Let_def tool_of_def dict_has_def)

lemma tool_of_modify:
  "tool_of (modify_tool sv t f c) sv' t' =
    (if sv' = sv \<and> t' = t then Some (f (case tool_of c sv t of None \<Rightarrow> default_tool | Some st \<Rightarrow> st))
     else tool_of c sv' t')"
  using tool_of_ensure_tool [of sv t c]
  by (auto simp: modify_tool_def Let_def tool_of_def split: option.split)

lemma enabled_tool_of:
  "isToolEnabled sv t s = (case tool_of (config s) sv t of None \<Rightarrow> True | Some st \<Rightarrow> enabled st)"
  by (simp add: isToolEnabled_def tool_of_def server_of_def split: option.split)

lemma save_simps [simp]: "config (saveConfig s) = config s" "writable (saveConfig s) = writable s"
  by (simp_all add: saveConfig_def)

text \<open>Setting the flag of a tool, known or not, changes the answer for that tool and for no
  other, and keeps its usage count.\<close>

theorem setToolEnabled_only_that_tool:
  "isToolEnabled sv' t' (setToolEnabled sv t b s) = (if sv' = sv \<and> t' = t then b else isToolEnabled sv' t' s) \<and>
   Option.bind (getToolStats sv t s) usageCount \<in>
     {None, Option.bind (getToolStats sv t (setToolEnabled sv t b s)) usageCount}"
  by (auto simp: enabled_tool_of setToolEnabled_def tool_of_modify getToolStats_def split: option.split)

section \<open>Names of tools\<close>

lemma split_first_no_earlier: "split_first sep s = Some (a, b) \<Longrightarrow> sep \<noteq> [] \<Longrightarrow> \<not> sublist sep a"
proof (induction sep s arbitrary: a rule: split_first.induct)
  case (2 sep c s)
  show ?case
  proof (cases "prefix sep (c # s)")
    case True
    with 2 show ?thesis by auto
  next
    case False
    with "2.prems" obtain a' where a: "a = c # a'" "split_first sep s = Some (a', b)"
      by (auto simp: starts_with_def split: if_splits)
    have "s = a' @ sep @ b" using split_first_Some [OF a(2)] "2.prems"(2) by blast
    then have "\<not> prefix sep (c # a')" using False by (metis append_Cons prefix_append)
    with 2(1) [OF False a(2) "2.prems"(2)] a(1) show ?thesis by (simp add: sublist_Cons_right)
  qed
qed auto

text \<open>The name of a tool is cut at its first double underscore and nothing is lost: the
  two parts with the underscores between them are the name again. A name without one belongs
  to the server called default.\<close>

theorem tool_name_parts:
  "let (sv, t) = parseServerNameToolName full
   in if sublist ''__'' full then full = sv @ ''__'' @ t \<and> \<not> sublist ''__'' sv
      else sv = ''default'' \<and> t = full"
proof (cases "split_first ''__'' full")
  case None
  then have "\<not> sublist ''__'' full" by (simp add: split_first_None)
  then show ?thesis by (simp add: parseServerNameToolName_def js_split_no_sep)
next
  case (Some ab)
  obtain a b where ab: "ab = (a, b)" by (cases ab)
  have f: "full = a @ ''__'' @ b" using split_first_Some Some ab by blast
  have sp: "js_split ''__'' full = a # js_split ''__'' b" using Some ab by (simp add: js_split.simps [of _ full])
  have "sublist ''__'' full" using Some by (metis option.distinct(1) split_first_None)
  moreover have "2 \<le> length (js_split ''__'' full)"
    using js_split_nonempty [of "''__''" b] sp by (cases "js_split ''__'' b") auto
  moreover have "\<not> sublist ''__'' a" using split_first_no_earlier Some ab by blast
  ultimately show ?thesis using f sp by (simp add: parseServerNameToolName_def Let_def js_join_split)
qed

section \<open>Replacing the configuration\<close>

lemma replaced_fold:
  "dict_get (fold (\<lambda>ti. dict_set (ti_name ti) (replaced_tool (old (ti_name ti)) ti)) infos d) t =
    (if t \<in> ti_name ` set infos
     then Some (replaced_tool (old t) (last (filter (\<lambda>ti. ti_name ti = t) infos))) else dict_get d t)"
proof (induction infos arbitrary: d)
  case (Cons ti infos)
  show ?case
  proof (cases "t \<in> ti_name ` set infos")
    case True
    then have "filter (\<lambda>ti. ti_name ti = t) infos \<noteq> []" by (auto simp: filter_empty_conv)
    with Cons True show ?thesis by simp
  next
    case False
    then have "filter (\<lambda>ti. ti_name ti = t) infos = []" by (auto simp: filter_empty_conv)
    with Cons False show ?thesis by auto
  qed
qed simp

lemma replaced_server_get:
  "dict_get (replaced_server old sv infos) t =
    (if t \<in> ti_name ` set infos
     then Some (replaced_tool (tool_of old sv t) (last (filter (\<lambda>ti. ti_name ti = t) infos))) else None)"
  using replaced_fold [of "tool_of old sv" infos "[]" t] by (simp add: replaced_server_def)

lemma replace_tool_of:
  assumes "dict_wf byServer"
  shows "tool_of (config (replaceToolsConfig byServer s)) sv t =
    (case dict_get byServer sv of None \<Rightarrow> None
     | Some infos \<Rightarrow> dict_get (replaced_server (config s) sv infos) t)"
proof -
  let ?f = "\<lambda>p. replaced_server (config s) (fst p) (snd p)"
  let ?c = "fold (\<lambda>p. dict_set (fst p) (?f p)) byServer []"
  have c: "config (replaceToolsConfig byServer s) = ?c" by (simp add: replaceToolsConfig_def)
  show ?thesis
  proof (cases "dict_get byServer sv")
    case None
    then have "sv \<notin> fst ` set byServer" by (simp add: dict_get_def map_of_eq_None_iff)
    then have "dict_get ?c sv = None" using dict.get_fold_set_notin [of sv fst byServer ?f "[]"] by simp
    with None show ?thesis by (simp add: c tool_of_def server_of_def)
  next
    case (Some infos)
    then have "(sv, infos) \<in> set byServer" using assms by (simp add: dict_get_iff)
    then have "dict_get ?c sv = Some (?f (sv, infos))"
      using dict.get_fold_set_in [of fst byServer "(sv, infos)" ?f "[]"] assms by (simp add: dict_wf_def)
    with Some show ?thesis by (simp add: c tool_of_def server_of_def)
  qed
qed

text \<open>Replacing the configuration by the tools that the servers offer keeps the choice of
  the user and the usage count of every tool that is still offered. A tool that is not offered
  this time is forgotten: it counts as enabled, and when it comes back a tool the user had
  disabled is enabled again.\<close>

theorem replace_keeps_choices_of_offered_tools:
  assumes "dict_wf byServer"
  shows "if \<exists>infos. dict_get byServer sv = Some infos \<and> t \<in> ti_name ` set infos
    then isToolEnabled sv t (replaceToolsConfig byServer s) = isToolEnabled sv t s \<and>
         (\<forall>st n. getToolStats sv t s = Some st \<longrightarrow> usageCount st = Some n \<longrightarrow>
            map_option usageCount (getToolStats sv t (replaceToolsConfig byServer s)) = Some (Some n))
    else getToolStats sv t (replaceToolsConfig byServer s) = None \<and>
         (\<forall>later. dict_wf later \<longrightarrow> isToolEnabled sv t (replaceToolsConfig later (replaceToolsConfig byServer s)))"
proof (cases "\<exists>infos. dict_get byServer sv = Some infos \<and> t \<in> ti_name ` set infos")
  case True
  then show ?thesis
    using assms by (auto simp: enabled_tool_of getToolStats_def replace_tool_of replaced_server_get replaced_tool_def
        split: option.split)
next
  case False
  then have n: "tool_of (config (replaceToolsConfig byServer s)) sv t = None"
    using assms by (auto simp: replace_tool_of replaced_server_get split: option.split)
  then have "isToolEnabled sv t (replaceToolsConfig later (replaceToolsConfig byServer s))" if "dict_wf later" for later
    using that by (auto simp: enabled_tool_of replace_tool_of replaced_server_get replaced_tool_def split: option.split)
  with n show ?thesis unfolding if_not_P [OF False] getToolStats_def by blast
qed

definition helm :: tool_info where
  "helm = \<lparr>ti_name = ''helm'', ti_schema = None, ti_description = None\<rparr>"

theorem replace_keeps_choices_of_offered_tools_witness:
  "let s = setToolEnabled ''srv'' ''helm'' False \<lparr>config = [], disk = [], writable = True\<rparr>
   in \<not> isToolEnabled ''srv'' ''helm'' (replaceToolsConfig [(''srv'', [helm])] s) \<and>
      isToolEnabled ''srv'' ''helm'' (replaceToolsConfig [(''srv'', [helm])] (replaceToolsConfig [] s))"
proof -
  let ?s = "setToolEnabled ''srv'' ''helm'' False \<lparr>config = [], disk = [], writable = True\<rparr>"
  have wf: "dict_wf [(''srv'', [helm])]" "dict_wf ([] :: (string, tool_info list) dict)" by (simp_all add: dict_wf_def)
  have "\<not> isToolEnabled ''srv'' ''helm'' ?s" by code_simp
  with replace_keeps_choices_of_offered_tools [OF wf(1), of "''srv''" "''helm''" ?s]
    replace_keeps_choices_of_offered_tools [OF wf(2), of "''srv''" "''helm''" ?s] wf
  show ?thesis by (simp add: Let_def dict_get_def helm_def)
qed

section \<open>Memory and file\<close>

datatype store_op =
    OpEnable string string bool
  | OpUse int string string
  | OpSet tools_config
  | OpReset
  | OpInit string "tool_info list"
  | OpReplace "(string, tool_info list) dict"
  | OpClient "client_tool list"

fun store_step :: "tool_store \<Rightarrow> store_op \<Rightarrow> tool_store" where
  "store_step s (OpEnable sv t b) = setToolEnabled sv t b s"
| "store_step s (OpUse clock sv t) = recordToolUsage clock sv t s"
| "store_step s (OpSet c) = setConfig c s"
| "store_step s OpReset = resetConfig s"
| "store_step s (OpInit sv infos) = initializeToolsConfig sv infos s"
| "store_step s (OpReplace d) = replaceToolsConfig d s"
| "store_step s (OpClient ts) = initConfigFromClientTools ts s"

definition saved :: "tool_store \<Rightarrow> bool" where
  [inv_defs]: "saved s \<longleftrightarrow> writable s \<longrightarrow> tool_of (disk s) = tool_of (config s)"

lemma save_saved [simp]: "saved (saveConfig s)"
  by (simp add: saved_def saveConfig_def)

lemma init_tool_unchanged:
  "\<not> snd (fold init_tool infos (ts, b)) \<Longrightarrow>
   \<not> b \<and> dict_get (fst (fold init_tool infos (ts, b))) = dict_get ts"
proof (induction infos arbitrary: ts b)
  case (Cons ti infos)
  obtain ts1 b1 where r: "init_tool ti (ts, b) = (ts1, b1)" by (cases "init_tool ti (ts, b)")
  have "\<not> snd (fold init_tool infos (ts1, b1))" using Cons.prems r by simp
  from Cons.IH [OF this] have IH: "\<not> b1" "dict_get (fst (fold init_tool infos (ts1, b1))) = dict_get ts1"
    by blast+
  have "\<not> b \<and> dict_get ts1 = dict_get ts"
    using IH(1) r by (auto simp: init_tool_def Let_def fun_eq_iff split: option.splits if_splits)
  with IH r show ?case by simp
qed simp

lemma initialize_saved:
  assumes "saved s"
  shows "saved (initializeToolsConfig sv infos s)"
proof -
  let ?c = "ensure_server sv (config s)"
  obtain ts b where r: "fold init_tool infos (server_of ?c sv, False) = (ts, b)"
    by (cases "fold init_tool infos (server_of ?c sv, False)")
  show ?thesis
  proof (cases b)
    case True
    with r show ?thesis by (simp add: initializeToolsConfig_def Let_def)
  next
    case False
    then have "dict_get ts = dict_get (server_of (config s) sv)"
      using init_tool_unchanged [of infos "server_of ?c sv" False] r by simp
    then have "tool_of (dict_set sv ts ?c) = tool_of (config s)"
      by (auto simp: fun_eq_iff tool_of_set) (simp add: tool_of_def)
    with False r assms show ?thesis by (simp add: initializeToolsConfig_def Let_def saved_def)
  qed
qed

lemma store_step_saved: "saved s \<Longrightarrow> saved (store_step s e)"
  by (cases e) (simp_all add: setToolEnabled_def recordToolUsage_def setConfig_def resetConfig_def
      initialize_saved replaceToolsConfig_def initConfigFromClientTools_def replaceConfig_def)

interpretation tool_stores: reducer store_step saved
  by unfold_locales (rule store_step_saved)

lemma step_writable: "writable (store_step s e) = writable s"
  by (cases e) (simp_all add: setToolEnabled_def recordToolUsage_def setConfig_def resetConfig_def
      initializeToolsConfig_def replaceToolsConfig_def initConfigFromClientTools_def replaceConfig_def Let_def
      split: prod.split)

lemma run_writable: "writable (foldl store_step s es) = writable s"
  by (induction es arbitrary: s) (simp_all add: step_writable)

text \<open>Nothing is lost when the app is closed. As long as the file can be written, the state
  of every tool is on disk after every operation, also when an operation decides that nothing
  has to be saved: loading the file again gives the same answers.\<close>

theorem reload_gives_same_tools:
  assumes "writable s" and "tool_of (disk s) = tool_of (config s)"
  shows "let r = foldl store_step s es in getToolStats sv t (loadConfig (Some (disk r)) r) = getToolStats sv t r"
proof -
  have "saved s" using assms(2) by (simp add: saved_def)
  from tool_stores.run_inv [OF this, of es] assms(1) run_writable [of s es]
  show ?thesis by (simp add: saved_def loadConfig_def getToolStats_def Let_def)
qed

theorem reload_gives_same_tools_witness:
  "let r = foldl store_step \<lparr>config = [], disk = [], writable = True\<rparr>
       [OpInit ''srv'' [helm], OpEnable ''srv'' ''helm'' False, OpInit ''srv'' [helm]]
   in \<not> isToolEnabled ''srv'' ''helm'' (loadConfig (Some (disk r)) r)"
proof -
  let ?es = "[OpInit ''srv'' [helm], OpEnable ''srv'' ''helm'' False, OpInit ''srv'' [helm]]"
  let ?r = "foldl store_step \<lparr>config = [], disk = [], writable = True\<rparr> ?es"
  have "getToolStats ''srv'' ''helm'' (loadConfig (Some (disk ?r)) ?r) = getToolStats ''srv'' ''helm'' ?r"
    using reload_gives_same_tools [of "\<lparr>config = [], disk = [], writable = True\<rparr>" ?es "''srv''" "''helm''"]
    by (simp add: Let_def)
  moreover have "map_option enabled (getToolStats ''srv'' ''helm'' ?r) = Some False" by code_simp
  ultimately show ?thesis
    by (auto simp: enabled_tool_of getToolStats_def Let_def simp del: foldl.simps)
qed

section \<open>What validation promises\<close>

lemma check_required_Valid:
  "check_required args rs = Valid \<longleftrightarrow>
    (\<forall>r \<in> set rs. \<exists>v. dict_get args (json_str r) = Some v \<and> v \<noteq> JNull)"
  by (induction rs) auto

text \<open>The JSON values of a declared type; a type outside the five is not checked.\<close>

definition has_type :: "json option \<Rightarrow> json \<Rightarrow> bool" where
  "has_type ty v =
    (if ty = Some (JStr ''string'') then (\<exists>s. v = JStr s)
     else if ty = Some (JStr ''number'') then (\<exists>n. v = JNum n)
     else if ty = Some (JStr ''boolean'') then (\<exists>b. v = JBool b)
     else if ty = Some (JStr ''array'') then (\<exists>xs. v = JArr xs)
     else if ty = Some (JStr ''object'') then (\<exists>fs. v = JObj fs)
     else True)"

lemma should_be_not_Valid [simp]: "should_be name what v \<noteq> Valid"
  by (simp add: should_be_def)

lemma check_type_Valid: "check_type name ty v = Valid \<longleftrightarrow> has_type ty v"
proof -
  consider "ty = Some (JStr ''string'')" | "ty = Some (JStr ''number'')" | "ty = Some (JStr ''boolean'')"
    | "ty = Some (JStr ''array'')" | "ty = Some (JStr ''object'')"
    | "ty \<noteq> Some (JStr ''string'')" "ty \<noteq> Some (JStr ''number'')" "ty \<noteq> Some (JStr ''boolean'')"
      "ty \<noteq> Some (JStr ''array'')" "ty \<noteq> Some (JStr ''object'')"
    by blast
  then show ?thesis
  proof cases
    case 5
    then show ?thesis by (cases v) (simp_all add: check_type_def has_type_def js_typeof_def is_array_def)
  qed (simp_all add: check_type_def has_type_def typeof_simps(1-4))
qed

definition argument_ok :: "(string, json) dict \<Rightarrow> string \<times> json \<Rightarrow> bool" where
  "argument_ok args p = (\<forall>v. dict_get args (fst p) = Some v \<longrightarrow>
     snd p \<noteq> JNull \<and> has_type (field_of (snd p) ''type'') v)"

lemma check_properties_Valid:
  "check_properties args ps = Valid \<longleftrightarrow> (\<forall>p \<in> set ps. argument_ok args p)"
proof (induction ps)
  case (Cons p ps)
  obtain name sch where p: "p = (name, sch)" by (cases p)
  have "check_properties args ((name, sch) # ps) = Valid \<longleftrightarrow>
    argument_ok args (name, sch) \<and> check_properties args ps = Valid"
  proof (cases "dict_get args name")
    case None
    then show ?thesis by (simp add: argument_ok_def)
  next
    case (Some v)
    show ?thesis
    proof (cases "sch = JNull")
      case True
      with Some show ?thesis by (simp add: argument_ok_def jprop_def)
    next
      case False
      then have j: "jprop sch ''type'' = Inr (field_of sch ''type'')"
        by (cases sch) (simp_all add: jprop_def field_of_def)
      have "argument_ok args (name, sch) \<longleftrightarrow> check_type name (field_of sch ''type'') v = Valid"
        using Some False by (simp add: argument_ok_def check_type_Valid)
      with Some j show ?thesis
        by (cases "check_type name (field_of sch ''type'') v") simp_all
    qed
  qed
  with Cons p show ?case by simp
qed simp

text \<open>For a schema that is an object with a list of required names and an object of
  properties, arguments are valid exactly when every required one is there and not null, and
  every argument that a property declares has the declared type.\<close>

theorem validateToolArgs_iff:
  "validateToolArgs (Some (JObj [(''required'', JArr rs), (''properties'', JObj ps)])) args = Valid \<longleftrightarrow>
    (\<forall>r \<in> set rs. \<exists>v. dict_get args (json_str r) = Some v \<and> v \<noteq> JNull) \<and>
    (\<forall>p \<in> set ps. \<forall>v. dict_get args (fst p) = Some v \<longrightarrow>
       snd p \<noteq> JNull \<and> has_type (field_of (snd p) ''type'') v)"
  unfolding check_required_Valid [symmetric] argument_ok_def [symmetric] check_properties_Valid [symmetric]
  by (simp add: validateToolArgs_def field_of_def jprop_def jtruthy_def object_entries_def Let_def
      split: validation.split)

theorem validateToolArgs_iff_witness:
  "validateToolArgs (Some (JObj [(''required'', JArr [JStr ''p'']),
      (''properties'', JObj [(''p'', JObj [(''type'', JStr ''string'')])])])) [(''p'', JNum 3)] \<noteq> Valid"
  unfolding validateToolArgs_iff by (simp add: dict_get_def has_type_def field_of_def jprop_def)

section \<open>What the summary counts\<close>

definition change_count :: "changes \<Rightarrow> nat" where
  "change_count ch = length (enabledTools ch) + length (disabledTools ch) + length (addedTools ch) + length (removedTools ch)"

definition weight :: "tool_state option \<Rightarrow> tool_state option \<Rightarrow> nat" where
  "weight cur new = (case (cur, new) of (None, None) \<Rightarrow> 0 | (None, Some n) \<Rightarrow> 2 | (Some c, None) \<Rightarrow> 1
     | (Some c, Some n) \<Rightarrow> if enabled c = enabled n then 0 else 1)"

lemma tool_change_count: "change_count (tool_change name cur new ch) = change_count ch + weight cur new"
  by (auto simp: tool_change_def weight_def change_count_def flag_change_def split: option.split)

lemma fold_change_count:
  "change_count (fold (\<lambda>(sv, t). tool_change (f sv t) (tool_of cur sv t) (tool_of new sv t)) ps ch) =
    change_count ch + sum_list (map (\<lambda>(sv, t). weight (tool_of cur sv t) (tool_of new sv t)) ps)"
  by (induction ps arbitrary: ch) (auto simp: tool_change_count)

lemma set_dict_keys: "set (dict_keys d) = {k. dict_has d k}"
  by (auto simp: dict_has_keys)

lemma has_server_tool: "dict_has (server_of c sv) t \<longleftrightarrow> tool_of c sv t \<noteq> None"
  by (simp add: tool_of_def dict_has_def)

lemma has_server: "tool_of c sv t \<noteq> None \<Longrightarrow> dict_has c sv"
  by (auto simp: tool_of_def server_of_def dict_has_def split: option.splits)

lemma pairs_of_iff: "(sv, t) \<in> set (pairs_of cur new) \<longleftrightarrow> tool_of cur sv t \<noteq> None \<or> tool_of new sv t \<noteq> None"
proof -
  have "(sv, t) \<in> set (pairs_of cur new) \<longleftrightarrow> (dict_has cur sv \<or> dict_has new sv) \<and>
      (dict_has (server_of cur sv) t \<or> dict_has (server_of new sv) t)"
    by (auto simp: pairs_of_def set_dict_keys)
  then show ?thesis using has_server unfolding has_server_tool by blast
qed

lemma total_changes:
  "fst (summarizeMcpToolStateChanges cur new) =
    sum_list (map (\<lambda>(sv, t). weight (tool_of cur sv t) (tool_of new sv t)) (pairs_of cur new))"
proof -
  have "fst (summarizeMcpToolStateChanges cur new) = change_count (collect_changes cur new)"
    by (simp add: summarizeMcpToolStateChanges_def change_count_def Let_def)
  then show ?thesis
    unfolding collect_changes_def fold_change_count by (simp add: change_count_def)
qed

text \<open>The user is asked to confirm exactly when something changes: without a question the
  two configurations have the same tools with the same flags, and a question answered with
  anything but Apply (number 0) refuses the change.\<close>

theorem confirmation_guards_changes:
  "confirm_changes answer cur new \<longleftrightarrow>
    answer = 0 \<or> (\<forall>sv t. map_option enabled (tool_of cur sv t) = map_option enabled (tool_of new sv t))"
proof -
  have w: "weight a b = 0 \<longleftrightarrow> map_option enabled a = map_option enabled b" for a b
    by (cases a; cases b) (simp_all add: weight_def)
  have "fst (summarizeMcpToolStateChanges cur new) = 0 \<longleftrightarrow>
    (\<forall>sv t. (sv, t) \<in> set (pairs_of cur new) \<longrightarrow> map_option enabled (tool_of cur sv t) = map_option enabled (tool_of new sv t))"
    by (auto simp: total_changes w)
  also have "\<dots> \<longleftrightarrow> (\<forall>sv t. map_option enabled (tool_of cur sv t) = map_option enabled (tool_of new sv t))"
    using pairs_of_iff [of _ _ cur new] by (metis option.map_disc_iff)
  finally have z: "fst (summarizeMcpToolStateChanges cur new) = 0 \<longleftrightarrow>
    (\<forall>sv t. map_option enabled (tool_of cur sv t) = map_option enabled (tool_of new sv t))" .
  show ?thesis unfolding confirm_changes_def z by auto
qed

text \<open>The dialog of a change that only removes tools counts them, but its text is empty: it
  names no removed tool. An added tool is counted twice, once more for its flag.\<close>

theorem removed_tools_are_not_named:
  "summarizeMcpToolStateChanges [(sv, [(t, st)])] [] = (1, []) \<and>
   fst (summarizeMcpToolStateChanges [] [(sv, [(t, st)])]) = 2"
  by (simp add: summarizeMcpToolStateChanges_def collect_changes_def pairs_of_def set_of_def dict_keys_def
      server_of_def tool_of_def dict_get_def tool_change_def flag_change_def Let_def)

end
