(* ===== verification/Preferences.thy ===== *)
theory Preferences
  imports JsPrelude
begin

text \<open>
  The preferences the user interface keeps in the local storage of the browser:
  the keyboard shortcuts (\<^verbatim>\<open>frontend/src/redux/shortcutsSlice.ts\<close>), the sidebar
  (\<^verbatim>\<open>frontend/src/components/Sidebar/sidebarSlice.ts\<close>), the namespace filter and the search
  (\<^verbatim>\<open>frontend/src/redux/filterSlice.ts\<close>, \<^verbatim>\<open>frontend/src/lib/storage.ts\<close>).

  A stored text is represented by what \<open>JSON.parse\<close> makes of it: \<open>Some j\<close> for the value
  \<open>j\<close>, \<open>None\<close> for a text that \<open>JSON.parse\<close> rejects. \<open>JSON.stringify\<close> of a value is thus the
  value. An empty text is treated by all the code below like an absent one and is
  represented as absent. Writing to the storage is taken to succeed.
\<close>

type_synonym storage = "(string, json option) dict"

section \<open>Keyboard shortcuts\<close>

datatype shortcut_category = Navigation | Search | General

text \<open>The key read from the storage is not checked by the code: it can be any JSON value, or
  be missing.\<close>

record shortcut_config =
  shortcut_id :: string
  shortcut_name :: string
  description :: string
  skey :: "json option"
  defaultKey :: string
  category :: shortcut_category

definition shortcut :: "string \<Rightarrow> string \<Rightarrow> string \<Rightarrow> string \<Rightarrow> shortcut_category \<Rightarrow> string \<times> shortcut_config" where
  "shortcut i n d k c = (i, \<lparr>shortcut_id = i, shortcut_name = n, description = d,
     skey = Some (JStr k), defaultKey = k, category = c\<rparr>)"

definition DEFAULT_SHORTCUTS :: "(string, shortcut_config) dict" where
  "DEFAULT_SHORTCUTS =
    [shortcut ''GLOBAL_SEARCH'' ''Global Search'' ''Open the global search dialog'' ''/'' Search,
     shortcut ''CLUSTER_CHOOSER'' ''Cluster Chooser'' ''Open the cluster chooser popup''
       ''ctrl+shift+l'' Navigation,
     shortcut ''TABLE_COLUMN_FILTERS'' ''Toggle Table Filters'' ''Toggle column filters in tables''
       ''alt+shift+t'' General,
     shortcut ''LOG_VIEWER_SEARCH'' ''Log Viewer Search'' ''Toggle search in log viewer''
       ''ctrl+shift+f'' Search,
     shortcut ''CLUSTER_DOCTOR_SCAN'' ''Run Cluster Scan''
       ''Start a Cluster Doctor scan of the current cluster'' ''ctrl+shift+d'' Navigation,
     shortcut ''CLUSTER_DOCTOR_FINDINGS'' ''Latest Findings''
       ''Open the most recent scan's findings'' ''ctrl+shift+k'' Navigation]"

text \<open>One turn of the loop over the parsed value: \<open>parsed[id].key\<close> throws on \<open>null\<close>, and the
  whole load then falls back to the defaults.\<close>

fun merge_stored ::
  "(string \<times> json) list \<Rightarrow> (string, shortcut_config) dict \<Rightarrow> js_error + (string, shortcut_config) dict" where
  "merge_stored [] merged = Inr merged"
| "merge_stored ((i, v) # rest) merged =
    (case dict_get merged i of
       None \<Rightarrow> merge_stored rest merged
     | Some c \<Rightarrow> (case jprop v ''key'' of
         Inl e \<Rightarrow> Inl e
       | Inr k \<Rightarrow> merge_stored rest (dict_set i (c\<lparr>skey := k\<rparr>) merged)))"

text \<open>\<open>for (const id in parsed)\<close>: the indices of an array or of a text are the names of no
  shortcut, other values have nothing to iterate over.\<close>

definition for_in :: "json \<Rightarrow> (string \<times> json) list" where
  "for_in j = (case j of JObj fs \<Rightarrow> fs | _ \<Rightarrow> [])"

definition loadStoredShortcuts :: "storage \<Rightarrow> (string, shortcut_config) dict" where
  "loadStoredShortcuts st =
    (case dict_get st ''keyboardShortcuts'' of
       None \<Rightarrow> DEFAULT_SHORTCUTS
     | Some None \<Rightarrow> DEFAULT_SHORTCUTS
     | Some (Some parsed) \<Rightarrow>
         (case merge_stored (for_in parsed) DEFAULT_SHORTCUTS of
            Inl e \<Rightarrow> DEFAULT_SHORTCUTS | Inr merged \<Rightarrow> merged))"

record shortcuts_state =
  shortcuts :: "(string, shortcut_config) dict"
  isShortcutsDialogOpen :: bool
  sstorage :: storage

text \<open>\<open>JSON.stringify\<close> leaves a key out that is \<open>undefined\<close>.\<close>

definition to_store :: "(string, shortcut_config) dict \<Rightarrow> json" where
  "to_store scs = JObj (map (\<lambda>(i, c). (i, JObj (case skey c of None \<Rightarrow> [] | Some k \<Rightarrow> [(''key'', k)]))) scs)"

definition setShortcut :: "string \<Rightarrow> string \<Rightarrow> shortcuts_state \<Rightarrow> shortcuts_state" where
  [state_defs]: "setShortcut i k s =
    (case dict_get (shortcuts s) i of
       None \<Rightarrow> s
     | Some c \<Rightarrow> (let scs = dict_set i (c\<lparr>skey := Some (JStr k)\<rparr>) (shortcuts s)
         in s\<lparr>shortcuts := scs,
              sstorage := dict_set ''keyboardShortcuts'' (Some (to_store scs)) (sstorage s)\<rparr>))"

definition resetShortcut :: "string \<Rightarrow> shortcuts_state \<Rightarrow> shortcuts_state" where
  [state_defs]: "resetShortcut i s =
    (case dict_get (shortcuts s) i of
       None \<Rightarrow> s
     | Some c \<Rightarrow> (let scs = dict_set i (c\<lparr>skey := Some (JStr (defaultKey c))\<rparr>) (shortcuts s)
         in s\<lparr>shortcuts := scs,
              sstorage := dict_set ''keyboardShortcuts'' (Some (to_store scs)) (sstorage s)\<rparr>))"

definition resetAllShortcuts :: "shortcuts_state \<Rightarrow> shortcuts_state" where
  [state_defs]: "resetAllShortcuts s =
    s\<lparr>shortcuts := DEFAULT_SHORTCUTS, sstorage := dict_delete ''keyboardShortcuts'' (sstorage s)\<rparr>"

definition setShortcutsDialogOpen :: "bool \<Rightarrow> shortcuts_state \<Rightarrow> shortcuts_state" where
  [state_defs]: "setShortcutsDialogOpen b s = s\<lparr>isShortcutsDialogOpen := b\<rparr>"

definition initial_shortcuts :: "storage \<Rightarrow> shortcuts_state" where
  "initial_shortcuts st = \<lparr>shortcuts = loadStoredShortcuts st, isShortcutsDialogOpen = False, sstorage = st\<rparr>"

datatype shortcut_action = Set_Shortcut string string | Reset_Shortcut string
  | Reset_All | Set_Dialog bool

definition shortcuts_step :: "shortcuts_state \<Rightarrow> shortcut_action \<Rightarrow> shortcuts_state" where
  "shortcuts_step s a = (case a of Set_Shortcut i k \<Rightarrow> setShortcut i k s
     | Reset_Shortcut i \<Rightarrow> resetShortcut i s | Reset_All \<Rightarrow> resetAllShortcuts s
     | Set_Dialog b \<Rightarrow> setShortcutsDialogOpen b s)"

subsection \<open>What is stored is what is loaded\<close>

text \<open>The entries are the default ones up to the key.\<close>

definition only_keys_differ :: "(string, shortcut_config) dict \<Rightarrow> bool" where
  "only_keys_differ scs \<longleftrightarrow>
     map (\<lambda>(i, c). (i, c\<lparr>skey := None\<rparr>)) scs = map (\<lambda>(i, c). (i, c\<lparr>skey := None\<rparr>)) DEFAULT_SHORTCUTS"

definition shortcuts_stored :: "shortcuts_state \<Rightarrow> bool" where
  [inv_defs]: "shortcuts_stored s \<longleftrightarrow>
     only_keys_differ (shortcuts s) \<and> shortcuts s = loadStoredShortcuts (sstorage s)"

lemma map_fst_entries: "map fst (map (\<lambda>(i, c). (i, f c)) d) = map fst d"
  by (induction d) auto

lemma default_wf: "dict_wf DEFAULT_SHORTCUTS"
  by (simp add: dict_wf_def DEFAULT_SHORTCUTS_def shortcut_def)

lemma only_keys_default [simp]: "only_keys_differ DEFAULT_SHORTCUTS"
  by (simp add: only_keys_differ_def)

lemma only_keys_fst:
  assumes "only_keys_differ scs"
  shows "map fst scs = map fst DEFAULT_SHORTCUTS"
proof -
  have "map fst (map (\<lambda>(i, c). (i, c\<lparr>skey := None\<rparr>)) scs) =
      map fst (map (\<lambda>(i, c). (i, c\<lparr>skey := None\<rparr>)) DEFAULT_SHORTCUTS)"
    using assms unfolding only_keys_differ_def by (rule arg_cong [where f = "map fst"])
  then show ?thesis unfolding map_fst_entries .
qed

lemma only_keys_wf: "only_keys_differ scs \<Longrightarrow> dict_wf scs"
  using default_wf by (simp add: dict_wf_def only_keys_fst [of scs])

lemma map_dict_set:
  assumes "dict_get d i = Some c" and "dict_wf d" and "f c' = f c"
  shows "map (\<lambda>(i, c). (i, f c)) (dict_set i c' d) = map (\<lambda>(i, c). (i, f c)) d"
  using assms
proof (induction d)
  case Nil
  then show ?case by (simp add: dict_get_def)
next
  case (Cons x d)
  obtain j b where x: "x = (j, b)" by (cases x)
  show ?case
  proof (cases "j = i")
    case True
    with Cons.prems x show ?thesis by (simp add: dict_set_def dict_get_def)
  next
    case False
    with Cons x show ?thesis by (simp add: dict_set_def dict_get_def dict_wf_def)
  qed
qed

lemma only_keys_set:
  assumes "only_keys_differ scs" and "dict_get scs i = Some c"
  shows "only_keys_differ (dict_set i (c\<lparr>skey := k\<rparr>) scs)"
  using assms map_dict_set [of scs i c "\<lambda>c. c\<lparr>skey := None\<rparr>" "c\<lparr>skey := k\<rparr>"]
  by (simp add: only_keys_wf) (simp add: only_keys_differ_def)

lemma only_keys_merge:
  "only_keys_differ scs \<Longrightarrow> merge_stored fs scs = Inr scs' \<Longrightarrow> only_keys_differ scs'"
  by (induction fs scs rule: merge_stored.induct)
    (auto split: option.splits sum.splits intro: only_keys_set)

lemma only_keys_load: "only_keys_differ (loadStoredShortcuts st)"
  by (auto simp: loadStoredShortcuts_def split: option.splits sum.splits
      intro: only_keys_merge [OF only_keys_default])

definition encode_key :: "string \<times> shortcut_config \<Rightarrow> string \<times> json" where
  "encode_key p = (fst p, JObj (case skey (snd p) of None \<Rightarrow> [] | Some k \<Rightarrow> [(''key'', k)]))"

lemma to_store_encode: "to_store scs = JObj (map encode_key scs)"
  by (simp add: to_store_def encode_key_def [abs_def] split_def)

lemma jprop_encode: "jprop (snd (encode_key p)) ''key'' = Inr (skey (snd p))"
  by (simp add: encode_key_def jprop_def split: option.split)

lemma dict_get_mid: "i \<notin> fst ` set pre \<Longrightarrow> dict_get (pre @ (i, d) # ds) i = Some d"
  by (simp add: dict_get_def map_add_def map_of_eq_None_iff [THEN iffD2])

lemma dict_set_mid: "i \<notin> fst ` set pre \<Longrightarrow> dict_set i c (pre @ (i, d) # ds) = pre @ (i, c) # ds"
  by (induction pre) (auto simp: dict_set_def)

lemma restore_key:
  assumes "(c :: shortcut_config)\<lparr>skey := None\<rparr> = d\<lparr>skey := None\<rparr>"
  shows "d\<lparr>skey := skey c\<rparr> = c"
  using assms by (cases c, cases d) simp

lemma merge_encoded:
  assumes "map (\<lambda>(i, c). (i, c\<lparr>skey := None\<rparr>)) scs = map (\<lambda>(i, c). (i, c\<lparr>skey := None\<rparr>)) ds"
    and "distinct (map fst (pre @ ds))"
  shows "merge_stored (map encode_key scs) (pre @ ds) = Inr (pre @ scs)"
  using assms
proof (induction scs arbitrary: pre ds)
  case Nil
  then show ?case by simp
next
  case (Cons p scs)
  obtain i c where p: "p = (i, c)" by (cases p)
  with Cons.prems obtain d ds' where ds: "ds = (i, d) # ds'"
    and eq: "c\<lparr>skey := None\<rparr> = d\<lparr>skey := None\<rparr>"
    and rest: "map (\<lambda>(i, c). (i, c\<lparr>skey := None\<rparr>)) scs = map (\<lambda>(i, c). (i, c\<lparr>skey := None\<rparr>)) ds'"
    by (cases ds) auto
  have i: "i \<notin> fst ` set pre" using Cons.prems ds by auto
  have "merge_stored (map encode_key (p # scs)) (pre @ ds) =
      merge_stored (map encode_key scs) ((pre @ [(i, c)]) @ ds')"
    using i ds p jprop_encode [of p]
    by (simp add: dict_get_mid dict_set_mid restore_key [OF eq] encode_key_def)
  also have "\<dots> = Inr ((pre @ [(i, c)]) @ scs)"
    by (rule Cons.IH [OF rest]) (use Cons.prems ds in auto)
  finally show ?case using p by simp
qed

lemma load_stored:
  assumes "only_keys_differ scs" and "dict_get st ''keyboardShortcuts'' = Some (Some (to_store scs))"
  shows "loadStoredShortcuts st = scs"
proof -
  have "merge_stored (map encode_key scs) ([] @ DEFAULT_SHORTCUTS) = Inr ([] @ scs)"
    by (rule merge_encoded) (use assms(1) default_wf in \<open>simp_all add: only_keys_differ_def dict_wf_def\<close>)
  with assms(2) show ?thesis by (simp add: loadStoredShortcuts_def to_store_encode for_in_def)
qed

lemma load_stored_set:
  assumes "only_keys_differ scs" and "dict_get scs i = Some c"
  shows "loadStoredShortcuts (dict_set ''keyboardShortcuts''
    (Some (to_store (dict_set i (c\<lparr>skey := k\<rparr>) scs))) st) = dict_set i (c\<lparr>skey := k\<rparr>) scs"
  using assms by (intro load_stored only_keys_set) simp_all

lemma shortcuts_step_stored: "shortcuts_stored s \<Longrightarrow> shortcuts_stored (shortcuts_step s a)"
  by (cases a) (auto simp: shortcuts_step_def shortcuts_stored_def state_defs load_stored_set only_keys_set
      loadStoredShortcuts_def [of "dict_delete _ _"] Let_def split: option.splits)

interpretation shortcut_prefs: reducer shortcuts_step shortcuts_stored
  by unfold_locales (rule shortcuts_step_stored)

text \<open>Remapped shortcuts survive a restart. Whatever the storage held when the program
  started and whatever sequence of shortcut actions the user performed since, loading the
  storage again gives exactly the shortcuts of the running program.\<close>

theorem shortcuts_survive_restart:
  fixes acts :: "shortcut_action list" and st :: storage
  defines "s \<equiv> foldl shortcuts_step (initial_shortcuts st) acts"
  shows "shortcuts (initial_shortcuts (sstorage s)) = shortcuts s"
proof -
  have "shortcuts_stored (initial_shortcuts st)"
    by (simp add: shortcuts_stored_def initial_shortcuts_def only_keys_load)
  then have "shortcuts_stored s" unfolding s_def by (rule shortcut_prefs.run_inv)
  then show ?thesis by (simp add: shortcuts_stored_def initial_shortcuts_def)
qed

text \<open>No stored text can add, remove or redescribe a shortcut, only change its key; and
  after a shortcut is reset, its key is the default one while the others are as before.\<close>

theorem shortcuts_only_change_keys:
  fixes acts :: "shortcut_action list" and st :: storage
  defines "s \<equiv> foldl shortcuts_step (initial_shortcuts st) acts"
  shows "dict_keys (shortcuts s) = dict_keys DEFAULT_SHORTCUTS \<and>
    map_option (\<lambda>c. c\<lparr>skey := None\<rparr>) (dict_get (shortcuts s) i) =
      map_option (\<lambda>c. c\<lparr>skey := None\<rparr>) (dict_get DEFAULT_SHORTCUTS i) \<and>
    dict_get (shortcuts (resetShortcut i s)) j =
      (if j = i then map_option (\<lambda>c. c\<lparr>skey := Some (JStr (defaultKey c))\<rparr>) (dict_get DEFAULT_SHORTCUTS i)
       else dict_get (shortcuts s) j)"
proof (intro conjI)
  have "shortcuts_stored (initial_shortcuts st)"
    by (simp add: shortcuts_stored_def initial_shortcuts_def only_keys_load)
  then have "shortcuts_stored s" unfolding s_def by (rule shortcut_prefs.run_inv)
  then have keys: "only_keys_differ (shortcuts s)" unfolding shortcuts_stored_def by blast
  then show "dict_keys (shortcuts s) = dict_keys DEFAULT_SHORTCUTS"
    by (simp add: dict_keys_def only_keys_fst [of "shortcuts s"])
  have strip: "map_option (\<lambda>c. c\<lparr>skey := None\<rparr>) (map_of d i) = map_of (map (\<lambda>(i, c). (i, c\<lparr>skey := None\<rparr>)) d) i"
    for d :: "(string, shortcut_config) dict" and i
    by (simp add: map_of_map)
  show eq: "map_option (\<lambda>c. c\<lparr>skey := None\<rparr>) (dict_get (shortcuts s) i) =
      map_option (\<lambda>c. c\<lparr>skey := None\<rparr>) (dict_get DEFAULT_SHORTCUTS i)" for i
    unfolding dict_get_def strip using keys by (simp add: only_keys_differ_def)
  show "dict_get (shortcuts (resetShortcut i s)) j =
      (if j = i then map_option (\<lambda>c. c\<lparr>skey := Some (JStr (defaultKey c))\<rparr>) (dict_get DEFAULT_SHORTCUTS i)
       else dict_get (shortcuts s) j)"
  proof (cases "dict_get (shortcuts s) i")
    case None
    with eq [of i] show ?thesis by (simp add: resetShortcut_def)
  next
    case (Some c)
    with eq [of i] obtain d where d: "dict_get DEFAULT_SHORTCUTS i = Some d"
      "c\<lparr>skey := None\<rparr> = d\<lparr>skey := None\<rparr>"
      by (cases "dict_get DEFAULT_SHORTCUTS i") auto
    then have "c\<lparr>skey := Some (JStr (defaultKey c))\<rparr> = d\<lparr>skey := Some (JStr (defaultKey d))\<rparr>"
      by (cases c, cases d) simp
    with Some d(1) show ?thesis by (simp add: resetShortcut_def Let_def)
  qed
qed

section \<open>The sidebar\<close>

datatype entry_type = Link | Subheader

text \<open>React nodes, icons and styles are values of an arbitrary type.\<close>

record 'n sidebar_entry =
  entry_name :: string
  subtitle :: "'n option"
  entry_label :: string
  parent :: "string option"
  entry_url :: "string option"
  useClusterURL :: "bool option"
  icon :: "'n option"
  entry_sidebar :: "string option"
  entryType :: "entry_type option"
  sx :: "'n option"

record 'n sidebar_state =
  selected_item :: "string option"
  selected_sidebar :: "string option"
  isVisible :: bool
  isSidebarOpen :: bool
  isSidebarOpenUserSelected :: "bool option"
  entries :: "(string, 'n sidebar_entry) dict"
  filters :: "('n sidebar_entry \<Rightarrow> 'n sidebar_entry option) list"
  homeFilters :: "('n sidebar_entry \<Rightarrow> 'n sidebar_entry option) list"
  sb_storage :: storage

text \<open>The build-time setting \<open>REACT_APP_K8SENSE_SIDEBAR_DEFAULT_OPEN\<close> and the width of the
  window are given from outside.\<close>

definition stored_choice :: "storage \<Rightarrow> bool option" where
  "stored_choice st = (case dict_get st ''sidebar'' of
     Some (Some (JObj fs)) \<Rightarrow> (case map_of fs ''shrink'' of Some (JBool b) \<Rightarrow> Some (\<not> b) | _ \<Rightarrow> None)
   | _ \<Rightarrow> None)"

definition setInitialSidebarOpen :: "string option \<Rightarrow> int option \<Rightarrow> storage \<Rightarrow> bool \<times> bool option" where
  "setInitialSidebarOpen env innerWidth st =
    ((case stored_choice st of
        Some b \<Rightarrow> b
      | None \<Rightarrow> (case env of
          Some e \<Rightarrow> e = ''true'' \<or> e = ''1''
        | None \<Rightarrow> (case innerWidth of Some w \<Rightarrow> (if w \<noteq> 0 then 960 < w else True) | None \<Rightarrow> True))),
     None)"

definition initial_sidebar :: "string option \<Rightarrow> int option \<Rightarrow> storage \<Rightarrow> 'n sidebar_state" where
  "initial_sidebar env w st =
    \<lparr>selected_item = None, selected_sidebar = None, isVisible = False,
     isSidebarOpen = fst (setInitialSidebarOpen env w st),
     isSidebarOpenUserSelected = snd (setInitialSidebarOpen env w st),
     entries = [], filters = [], homeFilters = [], sb_storage = st\<rparr>"

definition setSidebarSelected :: "string option \<Rightarrow> string option \<Rightarrow> 'n sidebar_state \<Rightarrow> 'n sidebar_state" where
  [state_defs]: "setSidebarSelected item sb s =
    s\<lparr>selected_item := item, selected_sidebar := sb, isVisible := truthy item\<rparr>"

definition setSidebarVisible :: "bool \<Rightarrow> 'n sidebar_state \<Rightarrow> 'n sidebar_state" where
  [state_defs]: "setSidebarVisible b s = s\<lparr>isVisible := b\<rparr>"

definition setSidebarItem :: "'n sidebar_entry \<Rightarrow> 'n sidebar_state \<Rightarrow> 'n sidebar_state" where
  [state_defs]: "setSidebarItem e s = s\<lparr>entries := dict_set (entry_name e) e (entries s)\<rparr>"

definition setSidebarItemFilter ::
  "('n sidebar_entry \<Rightarrow> 'n sidebar_entry option) \<Rightarrow> 'n sidebar_state \<Rightarrow> 'n sidebar_state" where
  [state_defs]: "setSidebarItemFilter f s = s\<lparr>filters := filters s @ [f]\<rparr>"

definition setHomeSidebarItemFilter ::
  "('n sidebar_entry \<Rightarrow> 'n sidebar_entry option) \<Rightarrow> 'n sidebar_state \<Rightarrow> 'n sidebar_state" where
  [state_defs]: "setHomeSidebarItemFilter f s = s\<lparr>homeFilters := homeFilters s @ [f]\<rparr>"

definition setWhetherSidebarOpen :: "bool \<Rightarrow> 'n sidebar_state \<Rightarrow> 'n sidebar_state" where
  [state_defs]: "setWhetherSidebarOpen b s =
    s\<lparr>sb_storage := dict_set ''sidebar'' (Some (JObj [(''shrink'', JBool (\<not> b))])) (sb_storage s),
      isSidebarOpen := b, isSidebarOpenUserSelected := Some b\<rparr>"

datatype 'n sidebar_action = Select "string option" "string option" | Visible bool
  | Item "'n sidebar_entry" | Item_Filter "'n sidebar_entry \<Rightarrow> 'n sidebar_entry option"
  | Home_Filter "'n sidebar_entry \<Rightarrow> 'n sidebar_entry option" | Open bool

definition sidebar_step :: "'n sidebar_state \<Rightarrow> 'n sidebar_action \<Rightarrow> 'n sidebar_state" where
  "sidebar_step s a = (case a of Select i sb \<Rightarrow> setSidebarSelected i sb s
     | Visible b \<Rightarrow> setSidebarVisible b s | Item e \<Rightarrow> setSidebarItem e s
     | Item_Filter f \<Rightarrow> setSidebarItemFilter f s | Home_Filter f \<Rightarrow> setHomeSidebarItemFilter f s
     | Open b \<Rightarrow> setWhetherSidebarOpen b s)"

text \<open>The choice in the storage is the user's last one; the entries are kept under their
  own names.\<close>

definition sidebar_ok :: "'n sidebar_state \<Rightarrow> bool" where
  [inv_defs]: "sidebar_ok s \<longleftrightarrow>
     (\<forall>b. isSidebarOpenUserSelected s = Some b \<longrightarrow>
        isSidebarOpen s = b \<and> stored_choice (sb_storage s) = Some b) \<and>
     (\<forall>n e. dict_get (entries s) n = Some e \<longrightarrow> entry_name e = n)"

lemma stored_choice_set [simp]:
  "stored_choice (dict_set ''sidebar'' (Some (JObj [(''shrink'', JBool (\<not> b))])) st) = Some b"
  by (simp add: stored_choice_def)

interpretation sidebar_prefs: reducer sidebar_step sidebar_ok
  by unfold_locales (auto simp: sidebar_step_def sidebar_ok_def state_defs
      split: sidebar_action.splits if_splits)

text \<open>Once the user has opened or closed the sidebar, the next start of the program shows
  it the same way, whatever the build-time default and the width of the window then are.\<close>

theorem sidebar_choice_survives_restart:
  assumes "isSidebarOpenUserSelected (foldl sidebar_step (initial_sidebar env w st) acts) = Some b"
  shows "isSidebarOpen (initial_sidebar env' w'
      (sb_storage (foldl sidebar_step (initial_sidebar env w st) (acts :: 'n sidebar_action list)))) = b"
proof -
  have "sidebar_ok (initial_sidebar env w st :: 'n sidebar_state)"
    by (simp add: sidebar_ok_def initial_sidebar_def setInitialSidebarOpen_def)
  from sidebar_prefs.run_inv [OF this, of acts] assms show ?thesis
    by (simp add: sidebar_ok_def initial_sidebar_def setInitialSidebarOpen_def)
qed

theorem sidebar_choice_survives_restart_witness:
  "isSidebarOpen (initial_sidebar (Some ''true'') (Some 2000)
     (sb_storage (foldl sidebar_step (initial_sidebar None None []) [Open False, Visible True :: nat sidebar_action]))) = False"
  by (rule sidebar_choice_survives_restart)
    (simp add: sidebar_step_def setWhetherSidebarOpen_def setSidebarVisible_def)

section \<open>The namespace filter\<close>

text \<open>\<open>typeof ns === 'string' ? ns.trim() : ''\<close>, then the empty ones dropped.\<close>

definition sanitize :: "json list \<Rightarrow> string list" where
  "sanitize xs = filter (\<lambda>n. n \<noteq> []) (map (\<lambda>x. case x of JStr s \<Rightarrow> js_trim s | _ \<Rightarrow> []) xs)"

definition namespace_key :: "string \<Rightarrow> string" where
  "namespace_key c = ''headlamp-selected-namespace_'' @ c"

text \<open>\<open>cluster || getCluster()\<close>: the cluster of the address bar is given from outside.\<close>

definition active_cluster :: "string option \<Rightarrow> string option \<Rightarrow> string" where
  "active_cluster c cur = (if truthy c then the c else or_else cur [])"

definition getSavedNamespaces :: "string option \<Rightarrow> string option \<Rightarrow> storage \<Rightarrow> string list" where
  "getSavedNamespaces c cur st =
    (if active_cluster c cur = [] then []
     else case dict_get st (namespace_key (active_cluster c cur)) of
            Some (Some (JArr xs)) \<Rightarrow> set_of (sanitize xs)
          | _ \<Rightarrow> [])"

definition saveNamespaces :: "string list \<Rightarrow> string option \<Rightarrow> string option \<Rightarrow> storage \<Rightarrow> storage" where
  "saveNamespaces nss c cur st =
    (if active_cluster c cur = [] then st
     else dict_set (namespace_key (active_cluster c cur))
       (Some (JArr (map JStr (set_of (sanitize (map JStr nss)))))) st)"

record filter_state =
  namespaces :: "string list"
  f_storage :: storage

definition initial_filter :: "string option \<Rightarrow> storage \<Rightarrow> filter_state" where
  "initial_filter cur st = \<lparr>namespaces = set_of (getSavedNamespaces None cur st), f_storage = st\<rparr>"

definition setNamespaceFilter :: "string option \<Rightarrow> json list \<Rightarrow> filter_state \<Rightarrow> filter_state" where
  [state_defs]: "setNamespaceFilter cur xs s =
    (let nss = set_of (sanitize xs)
     in s\<lparr>namespaces := nss, f_storage := saveNamespaces nss None cur (f_storage s)\<rparr>)"

definition resetFilter :: "string option \<Rightarrow> filter_state \<Rightarrow> filter_state" where
  [state_defs]: "resetFilter cur s = s\<lparr>namespaces := [], f_storage := saveNamespaces [] None cur (f_storage s)\<rparr>"

text \<open>Each action happens while some cluster is shown, or none.\<close>

datatype filter_action = Set_Namespaces "json list" | Reset_Filter

definition filter_step :: "string option \<Rightarrow> filter_state \<Rightarrow> filter_action \<Rightarrow> filter_state" where
  "filter_step cur s a = (case a of Set_Namespaces xs \<Rightarrow> setNamespaceFilter cur xs s
     | Reset_Filter \<Rightarrow> resetFilter cur s)"

lemma hd_trim_end: "xs \<noteq> [] \<Longrightarrow> \<not> is_space (hd xs) \<Longrightarrow> trim_end xs \<noteq> [] \<and> hd (trim_end xs) = hd xs"
proof -
  assume "xs \<noteq> []" and hd: "\<not> is_space (hd xs)"
  then obtain x ys where xs: "xs = x # ys" by (cases xs) auto
  have "dropWhile is_space (rev ys @ [x]) = dropWhile is_space (rev ys) @ [x]"
    using hd xs by (induction "rev ys" rule: rev_induct) (auto simp: dropWhile_append)
  then show ?thesis by (simp add: trim_end_def xs)
qed

lemma js_trim_idem [simp]: "js_trim (js_trim s) = js_trim s"
proof -
  define t where "t = trim_start s"
  have t: "t = [] \<or> \<not> is_space (hd t)"
    unfolding t_def trim_start_def using hd_dropWhile [of is_space s] by (cases "dropWhile is_space s") auto
  have "trim_start (trim_end t) = trim_end t"
    unfolding trim_start_def
    by (rule dropWhile_idle, cases "t = []") (use t hd_trim_end [of t] in \<open>auto simp: trim_end_def [of "[]"]\<close>)
  moreover have "trim_end (trim_end t) = trim_end t"
    by (simp add: trim_end_def)
  ultimately show ?thesis by (simp add: js_trim_def t_def)
qed

definition clean :: "string list \<Rightarrow> bool" where
  [inv_defs]: "clean nss \<longleftrightarrow> distinct nss \<and> (\<forall>n \<in> set nss. n \<noteq> [] \<and> js_trim n = n)"

lemma clean_sanitize: "clean (set_of (sanitize xs))"
  by (auto simp: clean_def sanitize_def split: json.splits)

lemma sanitize_clean: "clean nss \<Longrightarrow> sanitize (map JStr nss) = nss"
  by (induction nss) (auto simp: clean_def sanitize_def)

lemma set_of_distinct [simp]: "distinct xs \<Longrightarrow> set_of xs = xs"
  by (simp add: set_of_def distinct_remdups_id)

lemma saved_namespaces:
  "clean nss \<Longrightarrow> active_cluster c cur \<noteq> [] \<Longrightarrow>
   getSavedNamespaces c cur (saveNamespaces nss c cur st) = nss"
  by (simp add: getSavedNamespaces_def saveNamespaces_def sanitize_clean) (simp add: clean_def sanitize_clean)

lemma saved_other_cluster:
  "active_cluster c cur \<noteq> active_cluster c' cur' \<Longrightarrow>
   getSavedNamespaces c cur (saveNamespaces nss c' cur' st) = getSavedNamespaces c cur st"
  by (simp add: getSavedNamespaces_def saveNamespaces_def namespace_key_def)

text \<open>The namespaces selected last in a cluster are what the next start in that cluster
  selects: trimmed, without empty names, each once. The selections kept for the other
  clusters are untouched.\<close>

theorem namespaces_survive_restart:
  assumes "cur = Some c" and "c \<noteq> []"
  shows "namespaces (initial_filter cur (f_storage (filter_step cur s a))) = namespaces (filter_step cur s a) \<and>
    clean (namespaces (filter_step cur s a)) \<and>
    (\<forall>d cur'. d \<noteq> [] \<longrightarrow> d \<noteq> c \<longrightarrow>
       getSavedNamespaces (Some d) cur' (f_storage (filter_step cur s a)) =
       getSavedNamespaces (Some d) cur' (f_storage s))"
proof (intro conjI allI impI)
  have act: "active_cluster None cur = c" using assms by (simp add: active_cluster_def)
  have nil: "clean []" by (simp add: clean_def)
  show cl: "clean (namespaces (filter_step cur s a))"
    by (cases a) (simp_all add: filter_step_def state_defs Let_def clean_sanitize nil)
  have stor: "f_storage (filter_step cur s a) =
      saveNamespaces (namespaces (filter_step cur s a)) None cur (f_storage s)"
    by (cases a) (simp_all add: filter_step_def state_defs Let_def)
  have "getSavedNamespaces None cur (f_storage (filter_step cur s a)) = namespaces (filter_step cur s a)"
    unfolding stor by (rule saved_namespaces [OF cl]) (use act assms(2) in simp)
  then show "namespaces (initial_filter cur (f_storage (filter_step cur s a))) = namespaces (filter_step cur s a)"
    using cl by (simp only: initial_filter_def filter_state.simps clean_def set_of_distinct)
  fix d cur'
  assume "d \<noteq> []" and "d \<noteq> c"
  then have "active_cluster (Some d) cur' \<noteq> active_cluster None cur"
    using act by (simp add: active_cluster_def)
  then show "getSavedNamespaces (Some d) cur' (f_storage (filter_step cur s a)) =
      getSavedNamespaces (Some d) cur' (f_storage s)"
    unfolding stor by (rule saved_other_cluster)
qed

theorem namespaces_survive_restart_witness:
  "namespaces (initial_filter (Some ''prod'') (f_storage (filter_step (Some ''prod'')
      (initial_filter (Some ''prod'') []) (Set_Namespaces [JStr '' web '', JStr ''web'', JNum 3]))))
   = namespaces (filter_step (Some ''prod'') (initial_filter (Some ''prod'') [])
       (Set_Namespaces [JStr '' web '', JStr ''web'', JNum 3]))"
  using namespaces_survive_restart [of "Some ''prod''" "''prod''"] by simp

section \<open>The search\<close>

text \<open>What the search reads of an object, and the object itself for JSONPath. The function
  \<open>JSONPath\<close> of the package jsonpath-plus is the parameter \<open>jp\<close>: it throws or returns the
  list of values found.\<close>

record filter_item =
  uid :: string
  item_namespace :: "string option"
  item_name :: string
  labels :: "(string, string) dict"
  raw :: json

text \<open>The texts that one JSONPath criterion contributes.\<close>

definition value_texts :: "json \<Rightarrow> string list" where
  "value_texts v = (case v of
     JStr s \<Rightarrow> if s \<noteq> [] then [to_lower s] else []
   | JNum n \<Rightarrow> [to_lower (int_str n)]
   | JArr xs \<Rightarrow> concat (map (\<lambda>x. case x of JStr s \<Rightarrow> if s \<noteq> [] then [to_lower s] else [] | _ \<Rightarrow> []) xs)
   | _ \<Rightarrow> [])"

definition criteria_texts :: "(string \<Rightarrow> json \<Rightarrow> js_error + json list) \<Rightarrow> json \<Rightarrow> string list option \<Rightarrow> string list" where
  "criteria_texts jp item criteria =
    concat (map (\<lambda>p. case jp (CHR ''$'' # p) item of Inl e \<Rightarrow> [] | Inr vs \<Rightarrow> concat (map value_texts vs))
      (case criteria of None \<Rightarrow> [] | Some ps \<Rightarrow> ps))"

text \<open>\<open>!!xs.find(x => x.includes(t))\<close>: finding the empty text counts as not finding.\<close>

definition found_in :: "string list \<Rightarrow> string \<Rightarrow> bool" where
  "found_in xs t = (case find (\<lambda>x. str_includes x t) xs of None \<Rightarrow> False | Some x \<Rightarrow> x \<noteq> [])"

definition filterGeneric ::
  "(string \<Rightarrow> json \<Rightarrow> js_error + json list) \<Rightarrow> json \<Rightarrow> string option \<Rightarrow> string list option \<Rightarrow> bool" where
  "filterGeneric jp item search criteria =
    (if truthy search then found_in (criteria_texts jp item criteria) (to_lower (the search)) else True)"

definition item_texts :: "filter_item \<Rightarrow> string list" where
  "item_texts item =
    [to_lower (uid item), if truthy (item_namespace item) then to_lower (the (item_namespace item)) else [],
     to_lower (item_name item)] @
    map to_lower (dict_keys (labels item)) @ map to_lower (dict_values (labels item))"

definition filterResource ::
  "(string \<Rightarrow> json \<Rightarrow> js_error + json list) \<Rightarrow> filter_item \<Rightarrow> filter_state \<Rightarrow> string option
    \<Rightarrow> string list option \<Rightarrow> bool" where
  "filterResource jp item flt search criteria =
    (if truthy (item_namespace item) \<and> namespaces flt \<noteq> [] \<and>
        the (item_namespace item) \<notin> set (namespaces flt) then False
     else if truthy search then
       found_in (item_texts item) (to_lower (the search)) \<or> filterGeneric jp (raw item) search criteria
     else True)"

lemma to_lower_length [simp]: "length (to_lower s) = length s"
  by (simp add: to_lower_def)

lemma to_lower_Nil [simp]: "to_lower s = [] \<longleftrightarrow> s = []"
  by (simp add: to_lower_def)

lemma to_lower_append: "to_lower (a @ b) = to_lower a @ to_lower b"
  by (simp add: to_lower_def)

lemma to_lower_sublist: "sublist a b \<Longrightarrow> sublist (to_lower a) (to_lower b)"
  unfolding sublist_def to_lower_def by (metis map_append)

lemma lower_char_idem: "lower_char (lower_char c) = lower_char c"
  by (auto simp: lower_char_def is_upper_def)

lemma to_lower_idem [simp]: "to_lower (to_lower s) = to_lower s"
  by (simp add: to_lower_def lower_char_idem)

lemma found_in_iff: "t \<noteq> [] \<Longrightarrow> found_in xs t \<longleftrightarrow> (\<exists>x \<in> set xs. sublist t x)"
  by (induction xs) (auto simp: found_in_def str_includes_sublist)

lemma found_in_narrower: "sublist t u \<Longrightarrow> t \<noteq> [] \<Longrightarrow> found_in xs u \<Longrightarrow> found_in xs t"
  by (cases "u = []") (auto simp: found_in_iff intro: sublist_order.order.trans)

text \<open>Typing more never shows more: what is shown for a search text is shown for every
  part of that text. The case of the letters typed does not matter.\<close>

theorem longer_search_shows_less:
  assumes "filterResource jp item flt (Some t) criteria" and "sublist (to_lower s) (to_lower t)"
  shows "filterResource jp item flt (Some s) criteria"
proof (cases "s = []")
  case True
  with assms(1) show ?thesis by (auto simp: filterResource_def split: if_splits)
next
  case False
  then have "t \<noteq> []" using assms(2) by (auto simp: to_lower_def)
  then show ?thesis
    using assms False found_in_narrower [OF assms(2)]
    by (auto simp: filterResource_def filterGeneric_def split: if_splits)
qed

theorem longer_search_shows_less_witness:
  "filterResource (\<lambda>p j. Inr []) \<lparr>uid = ''u1'', item_namespace = None, item_name = ''web-1'',
      labels = [(''app'', ''Shop'')], raw = JNull\<rparr> (initial_filter None []) (Some ''ho'') None"
  by (rule longer_search_shows_less [where t = "''SHOP''"]) code_simp+

text \<open>An object outside the selected namespaces is never shown, whatever is searched; an
  object without a namespace is shown exactly as if no namespace were selected; and without
  a search every object of a selected namespace is shown.\<close>

theorem namespace_filter_spec:
  fixes nss :: "string list" and item :: filter_item
  defines "selected \<equiv> nss = [] \<or> (case item_namespace item of None \<Rightarrow> True | Some n \<Rightarrow> n = [] \<or> n \<in> set nss)"
  shows "(filterResource jp item \<lparr>namespaces = nss, f_storage = st\<rparr> search criteria \<longleftrightarrow>
      selected \<and> filterResource jp item \<lparr>namespaces = [], f_storage = st\<rparr> search criteria) \<and>
    (filterResource jp item \<lparr>namespaces = nss, f_storage = st\<rparr> None criteria \<longleftrightarrow> selected)"
  by (auto simp: filterResource_def truthy_def selected_def split: option.splits)

end
