(* ===== verification/Projects.thy ===== *)
theory Projects
  imports Graph
begin

text \<open>
  Projects: \<^verbatim>\<open>frontend/src/redux/projectsSlice.ts\<close> (what plugins register),
  \<^verbatim>\<open>frontend/src/components/project/projectUtils.ts\<close> (health, the resources of a project and
  the conversion of a project name to a namespace name), \<^verbatim>\<open>apiResourceId\<close> of
  \<^verbatim>\<open>frontend/src/lib/k8s/api/v2/ApiResource.tsx\<close> and \<open>isValidNamespaceFormat\<close> of
  \<^verbatim>\<open>frontend/src/lib/k8s/namespace.ts\<close>.
\<close>

section \<open>API resources\<close>

record api_resource =
  apiVersion :: string
  groupName :: "string option"
  version :: string
  pluralName :: string
  singularName :: string
  api_kind :: string
  isNamespaced :: bool

definition apiResourceId :: "api_resource \<Rightarrow> string" where
  "apiResourceId r = (case groupName r of None \<Rightarrow> [] | Some g \<Rightarrow> g) @ apiVersion r @ pluralName r"

definition namespaced :: "string \<Rightarrow> string option \<Rightarrow> string \<Rightarrow> string \<Rightarrow> string \<Rightarrow> string \<Rightarrow> api_resource" where
  "namespaced av g v p s k = \<lparr>apiVersion = av, groupName = g, version = v, pluralName = p,
     singularName = s, api_kind = k, isNamespaced = True\<rparr>"

definition defaultApiResources :: "api_resource list" where
  "defaultApiResources =
    [namespaced ''v1'' None ''v1'' ''configmaps'' ''configmap'' ''ConfigMap'',
     namespaced ''v1'' None ''v1'' ''endpoints'' ''endpoints'' ''Endpoints'',
     namespaced ''discovery.k8s.io/v1'' (Some ''discovery.k8s.io'') ''v1'' ''endpointslices''
       ''endpointSlice'' ''EndpointSlice'',
     namespaced ''v1'' None ''v1'' ''persistentvolumeclaims'' ''persistentvolumeclaim''
       ''PersistentVolumeClaim'',
     namespaced ''v1'' None ''v1'' ''secrets'' ''secret'' ''Secret'',
     namespaced ''v1'' None ''v1'' ''services'' ''service'' ''Service'',
     namespaced ''apps/v1'' (Some ''apps'') ''v1'' ''statefulsets'' ''statefulset'' ''StatefulSet'',
     namespaced ''apps/v1'' (Some ''apps'') ''v1'' ''replicasets'' ''replicaset'' ''ReplicaSet'',
     namespaced ''apps/v1'' (Some ''apps'') ''v1'' ''deployments'' ''deployment'' ''Deployment'',
     namespaced ''apps/v1'' (Some ''apps'') ''v1'' ''daemonsets'' ''daemonset'' ''DaemonSet'',
     namespaced ''batch/v1'' (Some ''batch'') ''v1'' ''jobs'' ''job'' ''Job'',
     namespaced ''batch/v1'' (Some ''batch'') ''v1'' ''cronjobs'' ''cronjob'' ''CronJob'',
     namespaced ''networking.k8s.io/v1'' (Some ''networking.k8s.io'') ''v1'' ''ingresses''
       ''ingress'' ''Ingress'',
     namespaced ''networking.k8s.io/v1'' (Some ''networking.k8s.io'') ''v1'' ''networkpolicies''
       ''networkpolicy'' ''NetworkPolicy'',
     namespaced ''autoscaling/v2'' (Some ''autoscaling'') ''v2'' ''horizontalpodautoscalers''
       ''horizontalpodautoscaler'' ''HorizontalPodAutoscaler'',
     namespaced ''rbac.authorization.k8s.io/v1'' (Some ''rbac.authorization.k8s.io'') ''v1''
       ''roles'' ''role'' ''Role'',
     namespaced ''rbac.authorization.k8s.io/v1'' (Some ''rbac.authorization.k8s.io'') ''v1''
       ''rolebindings'' ''rolebinding'' ''RoleBinding'',
     namespaced ''v1'' None ''v1'' ''resourcequotas'' ''resourcequota'' ''ResourceQuota'',
     namespaced ''v1'' None ''v1'' ''limitranges'' ''limitrange'' ''LimitRange'']"

text \<open>The table has no resource twice, and every one lives in a namespace.\<close>

lemma default_resources_distinct:
  "distinct (map apiResourceId defaultApiResources)" "list_all isNamespaced defaultApiResources"
  by code_simp+

section \<open>What plugins register\<close>

record project_definition =
  pd_id :: string
  pd_namespaces :: "string list"
  pd_clusters :: "string list"

text \<open>A registered extension: its id and the rest of it (components, icons, predicates) as a
  value of an arbitrary type.\<close>

record 'x extension =
  ext_id :: string
  ext_body :: 'x

record 'x projects_state =
  customCreateProject :: "(string, 'x extension) dict"
  overviewSections :: "(string, 'x extension) dict"
  detailsTabs :: "(string, 'x extension) dict"
  projectDeleteButton :: "'x option"
  headerActions :: "(string, 'x extension) dict"
  apiResources :: "api_resource list"

definition initial_projects :: "'x projects_state" where
  "initial_projects = \<lparr>customCreateProject = [], overviewSections = [], detailsTabs = [],
     projectDeleteButton = None, headerActions = [], apiResources = []\<rparr>"

definition addCustomCreateProject :: "'x extension \<Rightarrow> 'x projects_state \<Rightarrow> 'x projects_state" where
  [state_defs]: "addCustomCreateProject x s =
    s\<lparr>customCreateProject := dict_set (ext_id x) x (customCreateProject s)\<rparr>"

definition addDetailsTab :: "'x extension \<Rightarrow> 'x projects_state \<Rightarrow> 'x projects_state" where
  [state_defs]: "addDetailsTab x s = s\<lparr>detailsTabs := dict_set (ext_id x) x (detailsTabs s)\<rparr>"

definition addOverviewSection :: "'x extension \<Rightarrow> 'x projects_state \<Rightarrow> 'x projects_state" where
  [state_defs]: "addOverviewSection x s = s\<lparr>overviewSections := dict_set (ext_id x) x (overviewSections s)\<rparr>"

definition setProjectDeleteButton :: "'x \<Rightarrow> 'x projects_state \<Rightarrow> 'x projects_state" where
  [state_defs]: "setProjectDeleteButton b s = s\<lparr>projectDeleteButton := Some b\<rparr>"

definition addHeaderAction :: "'x extension \<Rightarrow> 'x projects_state \<Rightarrow> 'x projects_state" where
  [state_defs]: "addHeaderAction x s = s\<lparr>headerActions := dict_set (ext_id x) x (headerActions s)\<rparr>"

definition addProjectApiResource :: "api_resource \<Rightarrow> 'x projects_state \<Rightarrow> 'x projects_state" where
  [state_defs]: "addProjectApiResource r s =
    (if list_ex (\<lambda>q. apiResourceId q = apiResourceId r) (apiResources s) then s
     else s\<lparr>apiResources := apiResources s @ [r]\<rparr>)"

datatype 'x project_action = Add_Create "'x extension" | Add_Tab "'x extension"
  | Add_Section "'x extension" | Set_Delete 'x | Add_Header "'x extension" | Add_Resource api_resource

definition projects_step :: "'x projects_state \<Rightarrow> 'x project_action \<Rightarrow> 'x projects_state" where
  "projects_step s a = (case a of Add_Create x \<Rightarrow> addCustomCreateProject x s
     | Add_Tab x \<Rightarrow> addDetailsTab x s | Add_Section x \<Rightarrow> addOverviewSection x s
     | Set_Delete b \<Rightarrow> setProjectDeleteButton b s | Add_Header x \<Rightarrow> addHeaderAction x s
     | Add_Resource r \<Rightarrow> addProjectApiResource r s)"

definition own_ids :: "(string, 'x extension) dict \<Rightarrow> bool" where
  [inv_defs]: "own_ids d \<longleftrightarrow> dict_wf d \<and> (\<forall>i x. dict_get d i = Some x \<longrightarrow> ext_id x = i)"

lemma own_ids_set [simp]: "own_ids d \<Longrightarrow> own_ids (dict_set (ext_id x) x d)"
  by (simp add: own_ids_def)

lemma own_ids_Nil [simp]: "own_ids []"
  by (simp add: own_ids_def)

definition projects_ok :: "'x projects_state \<Rightarrow> bool" where
  [inv_defs]: "projects_ok s \<longleftrightarrow> own_ids (customCreateProject s) \<and> own_ids (overviewSections s) \<and>
     own_ids (detailsTabs s) \<and> own_ids (headerActions s) \<and> distinct (map apiResourceId (apiResources s))"

interpretation project_registry: reducer projects_step projects_ok
  by unfold_locales (auto simp: projects_step_def projects_ok_def state_defs list_ex_iff
      split: project_action.splits)

lemma resource_registered:
  "r \<in> set (apiResources s) \<Longrightarrow> r \<in> set (apiResources (foldl projects_step s acts))"
  by (induction acts arbitrary: s)
    (auto simp: projects_step_def state_defs split: project_action.splits)

text \<open>Whatever plugins register and in whatever order, every extension is kept under its
  own id, and no API resource is fetched twice: the resources have distinct ids, one that is
  registered stays, and registering it again changes nothing.\<close>

theorem registered_resources_are_distinct:
  fixes acts :: "'x project_action list"
  defines "s \<equiv> foldl projects_step initial_projects acts"
  shows "projects_ok s \<and>
    distinct (map apiResourceId (apiResources s)) \<and>
    (\<exists>q \<in> set (apiResources (addProjectApiResource r s)). apiResourceId q = apiResourceId r) \<and>
    addProjectApiResource r (addProjectApiResource r s) = addProjectApiResource r s \<and>
    set (apiResources s) \<subseteq> set (apiResources (projects_step s a))"
proof (intro conjI)
  show ok: "projects_ok s" unfolding s_def
    by (rule project_registry.run_inv) (simp add: projects_ok_def initial_projects_def)
  then show "distinct (map apiResourceId (apiResources s))" by (simp add: projects_ok_def)
  show "\<exists>q \<in> set (apiResources (addProjectApiResource r s)). apiResourceId q = apiResourceId r"
    by (auto simp: addProjectApiResource_def list_ex_iff)
  show "addProjectApiResource r (addProjectApiResource r s) = addProjectApiResource r s"
    by (auto simp: addProjectApiResource_def list_ex_iff)
  show "set (apiResources s) \<subseteq> set (apiResources (projects_step s a))"
    using resource_registered [of _ s "[a]"] by auto
qed

section \<open>Health\<close>

definition getHealthIcon :: "int \<Rightarrow> int \<Rightarrow> int \<Rightarrow> string" where
  "getHealthIcon healthy unhealthy warning =
    (if healthy + unhealthy + warning = 0 then ''mdi:help-circle''
     else if 0 < unhealthy then ''mdi:alert-circle''
     else if 0 < warning then ''mdi:alert'' else ''mdi:check-circle'')"

definition getResourcesByKind :: "kube_ref list \<Rightarrow> string \<Rightarrow> kube_ref list" where
  "getResourcesByKind rs k = filter (\<lambda>r. k_kind r = k) rs"

text \<open>\<open>_.countBy\<close>: one entry for each value that occurs.\<close>

definition count_one :: "graph_status \<Rightarrow> (graph_status, nat) dict \<Rightarrow> (graph_status, nat) dict" where
  "count_one k d = dict_set k (case dict_get d k of None \<Rightarrow> 1 | Some n \<Rightarrow> Suc n) d"

definition getResourcesHealth :: "kube_ref list \<Rightarrow> (graph_status, nat) dict" where
  "getResourcesHealth rs = fold (\<lambda>r. count_one (getStatus r)) rs []"

definition health_count :: "graph_status \<Rightarrow> (graph_status, nat) dict \<Rightarrow> nat" where
  "health_count k d = (case dict_get d k of None \<Rightarrow> 0 | Some n \<Rightarrow> n)"

lemma health_count_one: "health_count k (count_one j d) = (if k = j then Suc (health_count k d) else health_count k d)"
  by (simp add: health_count_def count_one_def split: option.split)

lemma health_counts:
  "health_count k (fold (\<lambda>r. count_one (getStatus r)) rs d) =
   health_count k d + length (filter (\<lambda>r. getStatus r = k) rs)"
  by (induction rs arbitrary: d) (simp_all add: health_count_one)

lemma health_icons:
  "getHealthIcon (int a) (int b) (int c) = ''mdi:alert-circle'' \<longleftrightarrow> 0 < b"
  "getHealthIcon (int a) (int b) (int c) = ''mdi:check-circle'' \<longleftrightarrow> 0 < a + b + c \<and> \<not> 0 < b \<and> \<not> 0 < c"
  by (auto simp: getHealthIcon_def)

text \<open>The counts of a project's health are the numbers of its resources in each status and
  add up to all of them; the icon is the alert exactly when some resource is in error, and
  the check mark exactly when there are resources and all are in success.\<close>

theorem project_health:
  fixes rs :: "kube_ref list"
  defines "h \<equiv> \<lambda>k. health_count k (getResourcesHealth rs)"
    and "icon \<equiv> getHealthIcon (int (health_count StSuccess (getResourcesHealth rs)))
           (int (health_count StError (getResourcesHealth rs)))
           (int (health_count StWarning (getResourcesHealth rs)))"
  shows "h k = length (filter (\<lambda>r. getStatus r = k) rs) \<and>
    h StSuccess + h StError + h StWarning = length rs \<and>
    (icon = ''mdi:alert-circle'' \<longleftrightarrow> (\<exists>r \<in> set rs. getStatus r = StError)) \<and>
    (icon = ''mdi:check-circle'' \<longleftrightarrow> rs \<noteq> [] \<and> (\<forall>r \<in> set rs. getStatus r = StSuccess))"
proof (intro conjI)
  have h: "health_count k (getResourcesHealth rs) = length (filter (\<lambda>r. getStatus r = k) rs)" for k
    by (simp add: getResourcesHealth_def health_counts) (simp add: health_count_def)
  then show "h k = length (filter (\<lambda>r. getStatus r = k) rs)" by (simp add: h_def)
  have sum: "length (filter (\<lambda>r. getStatus r = StSuccess) rs) + length (filter (\<lambda>r. getStatus r = StError) rs) +
      length (filter (\<lambda>r. getStatus r = StWarning) rs) = length rs"
  proof (induction rs)
    case (Cons r rs)
    then show ?case by (cases "getStatus r") simp_all
  qed simp
  then show "h StSuccess + h StError + h StWarning = length rs" by (simp add: h_def h)
  have zero: "0 < length (filter (\<lambda>r. getStatus r = k) rs) \<longleftrightarrow> (\<exists>r \<in> set rs. getStatus r = k)" for k
    by (auto simp: filter_empty_conv)
  show "icon = ''mdi:alert-circle'' \<longleftrightarrow> (\<exists>r \<in> set rs. getStatus r = StError)"
    unfolding icon_def health_icons h zero ..
  have only: "(\<forall>r \<in> set rs. getStatus r = StSuccess) \<longleftrightarrow>
      \<not> (\<exists>r \<in> set rs. getStatus r = StError) \<and> \<not> (\<exists>r \<in> set rs. getStatus r = StWarning)"
    by (metis graph_status.distinct graph_status.exhaust)
  show "icon = ''mdi:check-circle'' \<longleftrightarrow> rs \<noteq> [] \<and> (\<forall>r \<in> set rs. getStatus r = StSuccess)"
    unfolding icon_def health_icons h only zero using sum by (simp add: add.commute add.left_commute)
qed

section \<open>Names of namespaces\<close>

definition alnum :: "char \<Rightarrow> bool" where
  "alnum c = (is_lower c \<or> is_digit c)"

definition dash :: char where "dash = CHR ''-''"

text \<open>\<open>s.replace(/[p]+/g, c)\<close>: every run of characters of the class becomes one \<open>c\<close>.\<close>

function replace_runs :: "(char \<Rightarrow> bool) \<Rightarrow> char \<Rightarrow> string \<Rightarrow> string" where
  "replace_runs p c [] = []"
| "replace_runs p c (x # s) =
     (if p x then c # replace_runs p c (dropWhile p s) else x # replace_runs p c s)"
  by pat_completeness auto
termination
  by (relation "measure (\<lambda>(p, c, s). length s)")
    (auto simp: length_dropWhile_le less_Suc_eq_le)

definition trim_dashes :: "string \<Rightarrow> string" where
  "trim_dashes s = rev (dropWhile (\<lambda>c. c = dash) (rev (dropWhile (\<lambda>c. c = dash) s)))"

text \<open>The name before it is cut to 63 characters.\<close>

definition dashed_name :: "string \<Rightarrow> string" where
  "dashed_name s =
    trim_dashes (replace_runs (\<lambda>c. c = dash) dash
      (map (\<lambda>c. if alnum c \<or> c = dash then c else dash)
        (replace_runs is_space dash (to_lower s))))"

text \<open>The expression \<^verbatim>\<open>^[a-z0-9]([-a-z0-9]*[a-z0-9])?$\<close>.\<close>

definition isValidNamespaceFormat :: "string \<Rightarrow> bool" where
  "isValidNamespaceFormat s =
    (\<not> 63 < length s \<and>
     (case s of [] \<Rightarrow> False
      | c # r \<Rightarrow> alnum c \<and> (r = [] \<or> (\<forall>x \<in> set (butlast r). alnum x \<or> x = dash) \<and> alnum (last r))))"

definition toKubernetesName :: "string \<Rightarrow> string" where
  "toKubernetesName s =
    (let converted = take 63 (dashed_name s)
     in if isValidNamespaceFormat converted then converted else [])"

lemma alnum_dash [simp]: "\<not> alnum dash"
  by code_simp

lemma alnum_not_space: "alnum c \<Longrightarrow> \<not> is_space c"
  by (auto simp: alnum_def is_lower_def is_digit_def is_space_def)

lemma valid_format_iff:
  "isValidNamespaceFormat s \<longleftrightarrow> s \<noteq> [] \<and> length s \<le> 63 \<and> (\<forall>c \<in> set s. alnum c \<or> c = dash) \<and>
     hd s \<noteq> dash \<and> last s \<noteq> dash"
proof (cases s)
  case (Cons c r)
  show ?thesis
  proof (cases r rule: rev_cases)
    case Nil
    with Cons show ?thesis by (auto simp: isValidNamespaceFormat_def)
  next
    case (snoc q d)
    with Cons show ?thesis by (auto simp: isValidNamespaceFormat_def)
  qed
qed (simp add: isValidNamespaceFormat_def)

lemma in_dropWhile: "\<not> p c \<Longrightarrow> c \<in> set (dropWhile p s) \<longleftrightarrow> c \<in> set s"
  by (induction s) auto

lemma in_replace_runs:
  "\<not> p c \<Longrightarrow> c \<noteq> d \<Longrightarrow> c \<in> set (replace_runs p d s) \<longleftrightarrow> c \<in> set s"
  by (induction p d s rule: replace_runs.induct) (auto simp: in_dropWhile)

lemma in_trim_dashes: "c \<noteq> dash \<Longrightarrow> c \<in> set (trim_dashes s) \<longleftrightarrow> c \<in> set s"
  by (simp add: trim_dashes_def in_dropWhile)

lemma in_dashed_name:
  assumes "alnum c"
  shows "c \<in> set (dashed_name s) \<longleftrightarrow> c \<in> set (to_lower s)"
proof -
  have "c \<noteq> dash" using assms by auto
  moreover have "\<not> is_space c" using assms by (rule alnum_not_space)
  ultimately show ?thesis using assms
    by (auto simp: dashed_name_def in_trim_dashes in_replace_runs image_iff)
qed

lemma set_trim_dashes: "set (trim_dashes s) \<subseteq> set s"
  by (auto simp: trim_dashes_def dest!: set_dropWhileD)

lemma set_replace_runs: "set (replace_runs p d s) \<subseteq> insert d (set s)"
  by (induction p d s rule: replace_runs.induct) (auto dest: set_dropWhileD)

lemma dashed_name_chars: "c \<in> set (dashed_name s) \<Longrightarrow> alnum c \<or> c = dash"
  using set_trim_dashes set_replace_runs
  by (fastforce simp: dashed_name_def)

lemma trim_dashes_ends:
  assumes "trim_dashes s \<noteq> []"
  shows "hd (trim_dashes s) \<noteq> dash" and "last (trim_dashes s) \<noteq> dash"
proof -
  define t where "t = dropWhile (\<lambda>c. c = dash) s"
  have td: "trim_dashes s = rev (dropWhile (\<lambda>c. c = dash) (rev t))"
    by (simp add: trim_dashes_def t_def)
  with assms have ne: "dropWhile (\<lambda>c. c = dash) (rev t) \<noteq> []" by auto
  from hd_dropWhile [OF ne] show "last (trim_dashes s) \<noteq> dash"
    by (simp add: td last_rev)
  have "t \<noteq> []" using ne by auto
  then have "hd t \<noteq> dash" unfolding t_def by (rule hd_dropWhile)
  moreover obtain u where "rev t = u @ dropWhile (\<lambda>c. c = dash) (rev t)"
    by (metis takeWhile_dropWhile_id)
  then have "t = rev (dropWhile (\<lambda>c. c = dash) (rev t)) @ rev u"
    by (metis rev_append rev_rev_ident)
  ultimately show "hd (trim_dashes s) \<noteq> dash"
    using ne unfolding td by (metis hd_append2 rev_is_Nil_conv)
qed

lemma dashed_name_ends:
  "dashed_name s \<noteq> [] \<Longrightarrow> hd (dashed_name s) \<noteq> dash \<and> last (dashed_name s) \<noteq> dash"
  unfolding dashed_name_def using trim_dashes_ends by blast

lemma dashed_name_Nil: "dashed_name s = [] \<longleftrightarrow> (\<forall>c \<in> set (to_lower s). \<not> alnum c)"
proof
  assume "dashed_name s = []"
  then show "\<forall>c \<in> set (to_lower s). \<not> alnum c" using in_dashed_name [of _ s] by auto
next
  assume none: "\<forall>c \<in> set (to_lower s). \<not> alnum c"
  show "dashed_name s = []"
  proof (rule ccontr)
    assume ne: "dashed_name s \<noteq> []"
    then have "hd (dashed_name s) \<in> set (dashed_name s)" by simp
    with dashed_name_ends [OF ne] dashed_name_chars have "alnum (hd (dashed_name s))" by blast
    with none in_dashed_name [of "hd (dashed_name s)" s] ne show False by auto
  qed
qed

text \<open>What a project name becomes is empty or a valid namespace name. It is empty exactly
  when the name has no ASCII letter or digit, or when the name with dashes is longer than
  63 characters and has a dash at place 63: the dashes are trimmed before the text is cut, so
  the cut may end in one.\<close>

theorem toKubernetesName_spec:
  "(toKubernetesName s = [] \<longleftrightarrow>
     (\<forall>c \<in> set (to_lower s). \<not> alnum c) \<or> (63 < length (dashed_name s) \<and> dashed_name s ! 62 = dash)) \<and>
   (toKubernetesName s \<noteq> [] \<longrightarrow> isValidNamespaceFormat (toKubernetesName s) \<and>
     toKubernetesName s = take 63 (dashed_name s))"
proof (rule conjI)
  define t where "t = dashed_name s"
  have valid: "isValidNamespaceFormat (take 63 t) \<longleftrightarrow> t \<noteq> [] \<and> \<not> (63 < length t \<and> t ! 62 = dash)"
  proof (cases "t = []")
    case True
    then show ?thesis by (simp add: valid_format_iff)
  next
    case False
    have chars: "\<forall>c \<in> set (take 63 t). alnum c \<or> c = dash"
      using dashed_name_chars [of _ s] set_take_subset [of 63 t] by (auto simp: t_def)
    have hd: "hd (take 63 t) \<noteq> dash" and lst: "last t \<noteq> dash"
      using False dashed_name_ends [of s] by (simp_all add: t_def)
    have "last (take 63 t) = (if 63 < length t then t ! 62 else last t)"
      using False by (auto simp: last_conv_nth)
    with False chars hd lst show ?thesis by (auto simp: valid_format_iff)
  qed
  then show "toKubernetesName s = [] \<longleftrightarrow>
      (\<forall>c \<in> set (to_lower s). \<not> alnum c) \<or> (63 < length (dashed_name s) \<and> dashed_name s ! 62 = dash)"
    by (auto simp: toKubernetesName_def Let_def dashed_name_Nil [symmetric] t_def)
  show "toKubernetesName s \<noteq> [] \<longrightarrow> isValidNamespaceFormat (toKubernetesName s) \<and>
      toKubernetesName s = take 63 (dashed_name s)"
    by (auto simp: toKubernetesName_def Let_def)
qed

definition cut_name :: string where
  "cut_name = replicate 62 CHR ''a'' @ ''-b''"

lemma cut_name_dashed: "dashed_name cut_name = cut_name"
  by code_simp

theorem toKubernetesName_spec_witness: "toKubernetesName cut_name = []"
proof -
  have "63 < length cut_name" "cut_name ! 62 = dash" by code_simp+
  then show ?thesis using toKubernetesName_spec [of cut_name] by (simp add: cut_name_dashed)
qed

text \<open>A valid name without two adjacent dashes is a fixed point.\<close>

fun double_dash :: "string \<Rightarrow> bool" where
  "double_dash (a # b # s) = (a = dash \<and> b = dash \<or> double_dash (b # s))"
| "double_dash s = False"

lemma double_dash_drop: "double_dash (dropWhile p s) \<Longrightarrow> double_dash s"
  by (induction s rule: double_dash.induct) (auto split: if_splits)

lemma double_dash_append: "double_dash (a @ b) \<longleftrightarrow> double_dash a \<or> double_dash b \<or>
    (a \<noteq> [] \<and> b \<noteq> [] \<and> last a = dash \<and> hd b = dash)"
proof (cases b)
  case (Cons x b')
  then show ?thesis by (induction a rule: double_dash.induct) auto
qed simp

lemma double_dash_take: "double_dash (take n s) \<Longrightarrow> double_dash s"
  using double_dash_append [of "take n s" "drop n s"] by simp

lemma double_dash_rev [simp]: "double_dash (rev s) \<longleftrightarrow> double_dash s"
proof (induction s rule: double_dash.induct)
  case (1 a b s)
  then show ?case by (auto simp: double_dash_append)
qed auto

lemma dropWhile_hd: "dropWhile p s \<noteq> [] \<Longrightarrow> \<not> p (hd (dropWhile p s))"
  by (rule hd_dropWhile)

lemma no_double_runs: "\<not> double_dash (replace_runs (\<lambda>c. c = dash) dash s)"
proof (induction "\<lambda>c. c = dash" dash s rule: replace_runs.induct)
  case (2 x s)
  have start: "u \<noteq> [] \<Longrightarrow> hd u \<noteq> dash \<Longrightarrow> \<not> double_dash v \<Longrightarrow>
      v = replace_runs (\<lambda>c. c = dash) dash u \<Longrightarrow> \<not> double_dash (dash # v)" for u v
    by (cases u; cases v) auto
  show ?case
  proof (cases "x = dash")
    case True
    then show ?thesis
      using 2(1) start [of "dropWhile (\<lambda>c. c = dash) s"] dropWhile_hd [of "\<lambda>c. c = dash" s]
      by (cases "dropWhile (\<lambda>c. c = dash) s = []") (auto simp del: dropWhile_eq_Nil_conv)
  next
    case False
    then show ?thesis using 2(2)
      by (cases "replace_runs (\<lambda>c. c = dash) dash s") auto
  qed
qed simp

lemma dashed_no_double: "\<not> double_dash (dashed_name s)"
proof -
  have "double_dash (trim_dashes t) \<Longrightarrow> double_dash t" for t
    by (auto simp: trim_dashes_def dest!: double_dash_drop)
  then show ?thesis unfolding dashed_name_def using no_double_runs by blast
qed

lemma replace_runs_idle: "\<forall>c \<in> set s. \<not> p c \<Longrightarrow> replace_runs p d s = s"
  by (induction s) auto

lemma replace_dashes_idle: "\<not> double_dash s \<Longrightarrow> replace_runs (\<lambda>c. c = dash) dash s = s"
proof (induction s rule: double_dash.induct)
  case (1 a b s)
  then show ?case by (cases "a = dash") auto
qed auto

lemma alnum_lower: "alnum c \<or> c = dash \<Longrightarrow> lower_char c = c"
proof -
  have "lower_char dash = dash" by code_simp
  then show "alnum c \<or> c = dash \<Longrightarrow> lower_char c = c"
    by (auto simp: lower_char_def alnum_def is_lower_def is_digit_def is_upper_def)
qed

lemma trim_dashes_idle: "s = [] \<or> hd s \<noteq> dash \<and> last s \<noteq> dash \<Longrightarrow> trim_dashes s = s"
  by (auto simp: trim_dashes_def dropWhile_idle hd_rev)

lemma dashed_name_valid:
  assumes "isValidNamespaceFormat s" and "\<not> double_dash s"
  shows "dashed_name s = s"
proof -
  from assms(1) have chars: "\<forall>c \<in> set s. alnum c \<or> c = dash" and ends: "s \<noteq> []" "hd s \<noteq> dash" "last s \<noteq> dash"
    by (simp_all add: valid_format_iff)
  have "\<not> is_space dash" by code_simp
  then have "\<forall>c \<in> set s. \<not> is_space c" using chars alnum_not_space by blast
  then have "replace_runs is_space dash s = s" by (rule replace_runs_idle)
  moreover have "to_lower s = s" using chars by (simp add: to_lower_def alnum_lower map_idI)
  moreover have "map (\<lambda>c. if alnum c \<or> c = dash then c else dash) s = s" using chars by (simp add: map_idI)
  ultimately show ?thesis using assms(2) ends
    by (simp add: dashed_name_def replace_dashes_idle trim_dashes_idle)
qed

definition failed_pod :: kube_ref where
  "failed_pod = \<lparr>k_kind = ''Pod'', k_core = True, k_namespace = Some ''web'', k_phase = Some ''Failed'',
     k_conditions = [], k_readyReplicas = None, k_numberReady = None, k_replicas = None,
     k_currentNumberScheduled = None, k_desiredNumberScheduled = None\<rparr>"

lemma failed_pod_status: "getStatus failed_pod = StError"
  by code_simp

theorem project_health_witness:
  "getHealthIcon (int (health_count StSuccess (getResourcesHealth [failed_pod])))
     (int (health_count StError (getResourcesHealth [failed_pod])))
     (int (health_count StWarning (getResourcesHealth [failed_pod]))) = ''mdi:alert-circle''"
proof -
  have "getHealthIcon (int (health_count StSuccess (getResourcesHealth [failed_pod])))
     (int (health_count StError (getResourcesHealth [failed_pod])))
     (int (health_count StWarning (getResourcesHealth [failed_pod]))) = ''mdi:alert-circle'' \<longleftrightarrow>
     (\<exists>r \<in> set [failed_pod]. getStatus r = StError)"
    using project_health [of StError "[failed_pod]"] by (elim conjE)
  then show ?thesis by (simp add: failed_pod_status)
qed

text \<open>Converting twice is converting once, and a valid namespace name without adjacent
  dashes is kept as it is.\<close>

theorem toKubernetesName_fixed:
  "toKubernetesName (toKubernetesName s) = toKubernetesName s \<and>
   (isValidNamespaceFormat t \<and> \<not> double_dash t \<longrightarrow> toKubernetesName t = t)"
proof (rule conjI)
  have keep: "toKubernetesName t = t" if "isValidNamespaceFormat t" "\<not> double_dash t" for t
    using that dashed_name_valid [OF that] by (auto simp: toKubernetesName_def valid_format_iff Let_def)
  then show "isValidNamespaceFormat t \<and> \<not> double_dash t \<longrightarrow> toKubernetesName t = t" by blast
  have "\<not> double_dash (take 63 (dashed_name s))" using dashed_no_double double_dash_take by blast
  moreover have "toKubernetesName [] = []" by code_simp
  ultimately show "toKubernetesName (toKubernetesName s) = toKubernetesName s"
    using keep [of "take 63 (dashed_name s)"] by (auto simp: toKubernetesName_def [of s] Let_def)
qed

theorem toKubernetesName_fixed_witness: "toKubernetesName ''my-app-2'' = ''my-app-2''"
proof -
  have "isValidNamespaceFormat ''my-app-2''" "\<not> double_dash ''my-app-2''" by code_simp+
  then show ?thesis using toKubernetesName_fixed [of "[]" "''my-app-2''"] by blast
qed

end
