(* ===== verification/NodePath.thy ===== *)
theory NodePath
  imports JsPrelude
begin

text \<open>
  What the module \<^verbatim>\<open>path\<close> of node does to POSIX paths, for the components of the desktop
  application that check or build paths.
\<close>

section \<open>Paths\<close>

text \<open>\<open>path.normalize\<close>, \<open>path.join\<close> and \<open>path.resolve\<close> on POSIX paths.\<close>

definition path_segment :: "bool \<Rightarrow> string \<Rightarrow> string list \<Rightarrow> string list" where
  "path_segment absolute seg stack =
    (if seg = [] \<or> seg = ''.'' then stack
     else if seg = ''..''
     then (if stack \<noteq> [] \<and> last stack \<noteq> ''..'' then butlast stack
           else if absolute then stack else stack @ [''..''])
     else stack @ [seg])"

definition path_segments :: "bool \<Rightarrow> string \<Rightarrow> string list" where
  "path_segments absolute s = fold (path_segment absolute) (js_split ''/'' s) []"

definition is_absolute :: "string \<Rightarrow> bool" where
  "is_absolute s = prefix ''/'' s"

definition path_normalize :: "string \<Rightarrow> string" where
  "path_normalize s =
    (let body = js_join ''/'' (path_segments (is_absolute s) s);
         body' = (if body = [] \<and> \<not> is_absolute s then ''.'' else body);
         body'' = (if body' \<noteq> [] \<and> suffix ''/'' s then body' @ ''/'' else body')
     in if is_absolute s then ''/'' @ body'' else body'')"

definition path_join :: "string \<Rightarrow> string \<Rightarrow> string" where
  "path_join a b = path_normalize (js_join ''/'' (filter (\<lambda>x. x \<noteq> []) [a, b]))"

definition path_resolve :: "string \<Rightarrow> string \<Rightarrow> string" where
  "path_resolve cwd p =
    ''/'' @ js_join ''/'' (path_segments True (if is_absolute p then p else cwd @ ''/'' @ p))"

end
