(* ===== verification/RunCommand.thy ===== *)
theory RunCommand
  imports NodePath
begin

text \<open>
  Local commands run on behalf of plugins by the desktop app,
  \<^verbatim>\<open>app/electron/runCmd.ts\<close>: validation of the request, permission secrets, consent of the
  user, the process that is spawned, and the check of script paths. What node's \<open>path\<close> does to
  POSIX paths is modelled; the file system, the answers of the user, the directories and the
  random secrets are given from outside. A secret \<open>k / 2^32\<close> is represented by its numerator
  \<open>k\<close>. The settings file is reduced to its field \<open>confirmedCommands\<close>, the only one read or
  written here.
\<close>

section \<open>Validation of a request\<close>

text \<open>What the renderer process sends is any JSON value, or nothing. A field that is missing is
  \<open>undefined\<close>; \<open>undefined\<close> in a template is its name.\<close>

definition field :: "json \<Rightarrow> string \<Rightarrow> json option" where
  "field j k = (case j of JObj fs \<Rightarrow> map_of fs k | _ \<Rightarrow> None)"

definition text_of :: "json option \<Rightarrow> string" where
  "text_of v = (case v of None \<Rightarrow> ''undefined'' | Some j \<Rightarrow> json_str j)"

definition type_of :: "json option \<Rightarrow> string" where
  "type_of v = (case v of None \<Rightarrow> ''undefined'' | Some j \<Rightarrow> js_typeof j)"

text \<open>\<open>Object.entries\<close>\<close>

definition entries_of :: "json \<Rightarrow> (string \<times> json) list" where
  "entries_of j = (case j of JObj fs \<Rightarrow> fs
     | JArr xs \<Rightarrow> zip (map (\<lambda>n. int_str (int n)) [0..<length xs]) xs | _ \<Rightarrow> [])"

definition valid_commands :: "string list" where
  "valid_commands = [''minikube'', ''az'', ''scriptjs'', ''gh'']"

definition quote_char :: char where "quote_char = CHR 0x22"

definition json_list :: "string list \<Rightarrow> string" where
  "json_list xs = ''['' @ js_join '','' (map (\<lambda>x. quote_char # x @ [quote_char]) xs) @ '']''"

fun check_secrets :: "(string \<times> json) list \<Rightarrow> (bool \<times> string) option" where
  "check_secrets [] = None"
| "check_secrets ((k, v) # es) =
     (if js_typeof v \<noteq> ''number''
      then Some (False, ''Invalid permission secret for '' @ k @ '': '' @ js_typeof v)
      else check_secrets es)"

definition validateCommandData :: "json option \<Rightarrow> bool \<times> string" where
  "validateCommandData ev =
    (if \<not> jtruthy ev \<or> type_of ev \<noteq> ''object''
     then (False, ''Invalid eventData data received: '' @ text_of ev)
     else let e = the ev; command = field e ''command''; args = field e ''args'';
              options = field e ''options''; secs = field e ''permissionSecrets''
       in if type_of command \<noteq> ''string'' \<or> \<not> jtruthy command
          then (False, ''Invalid eventData.command: '' @ text_of command)
          else if \<not> (case args of None \<Rightarrow> False | Some a \<Rightarrow> is_array a)
          then (False, ''Invalid eventData.args: '' @ text_of args)
          else if type_of options \<noteq> ''object'' \<or> options = Some JNull
          then (False, ''Invalid eventData.options: '' @ text_of options)
          else if type_of secs \<noteq> ''object'' \<or> secs = Some JNull
          then (False, ''Invalid permission secrets, it is not an object: '' @ type_of secs)
          else (case check_secrets (entries_of (the secs)) of
              Some err \<Rightarrow> err
            | None \<Rightarrow>
                if text_of command \<in> set valid_commands then (True, [])
                else (False, ''Invalid command: '' @ text_of command @
                  '', only valid commands are: '' @ json_list valid_commands)))"

text \<open>A validated request.\<close>

record command_data =
  command :: string
  args :: "json list"
  options :: json
  permissionSecrets :: json

definition command_data_of :: "json \<Rightarrow> command_data" where
  "command_data_of e =
    \<lparr>command = text_of (field e ''command''),
     args = (case field e ''args'' of Some (JArr xs) \<Rightarrow> xs | _ \<Rightarrow> []),
     options = the (field e ''options''), permissionSecrets = the (field e ''permissionSecrets'')\<rparr>"

section \<open>Permission secrets\<close>

text \<open>\<^verbatim>\<open>s.replace(/plugins[\\/]/, 'plugins/')\<close>: the first match only.\<close>

definition backslash :: char where "backslash = CHR 0x5C"

fun plugins_slash :: "string \<Rightarrow> string" where
  "plugins_slash [] = []"
| "plugins_slash (c # s) =
     (if prefix (''plugins'' @ [backslash]) (c # s) \<or> prefix ''plugins/'' (c # s)
      then ''plugins/'' @ drop 8 (c # s) else c # plugins_slash s)"

text \<open>\<open>args[0]?.replace(...)\<close>: nothing on \<open>null\<close> and \<open>undefined\<close>, an exception on anything else
  that is not a text.\<close>

definition permission_name :: "command_data \<Rightarrow> js_error + string" where
  "permission_name d =
    (if command d = ''scriptjs''
     then (case args d of
         [] \<Rightarrow> Inr (''runCmd-scriptjs-undefined'')
       | JNull # _ \<Rightarrow> Inr (''runCmd-scriptjs-undefined'')
       | JStr s # _ \<Rightarrow> Inr (''runCmd-scriptjs-'' @ plugins_slash s)
       | _ \<Rightarrow> Inl TypeError)
     else Inr (''runCmd-'' @ command d))"

definition checkPermissionSecret :: "command_data \<Rightarrow> (string, nat) dict \<Rightarrow> js_error + bool \<times> string" where
  "checkPermissionSecret d secrets =
    (case permission_name d of
       Inl e \<Rightarrow> Inl e
     | Inr n \<Rightarrow>
         (case dict_get secrets n of
            None \<Rightarrow> Inr (False, ''No permission secret found for command: '' @ n @ '', cannot run command'')
          | Some k \<Rightarrow>
              if field (permissionSecrets d) n = Some (JNum (int k)) then Inr (True, [])
              else Inr (False, ''No permission secret found for command: '' @ n @ '', cannot run command'')))"

section \<open>Consent\<close>

text \<open>The key is the command with its first argument.\<close>

definition consent_key :: "command_data \<Rightarrow> string" where
  "consent_key d = command d @ (case args d of [] \<Rightarrow> [] | a # _ \<Rightarrow> '' '' @ json_str a)"

record spawned =
  sp_program :: string
  sp_args :: "string list"
  sp_options :: "(string \<times> json) list"
  sp_run_script :: bool

text \<open>The state: the saved consents, the dialogs shown so far, the processes spawned so far, the
  secrets and how often they were handed out since the main frame loaded.\<close>

record cmd_world =
  confirmedCommands :: "(string, json) dict option"
  asked :: "string list"
  processes :: "spawned list"
  secretsSent :: bool
  handouts :: nat

text \<open>What is given from outside: the user's answer to each dialog, the files that exist, the
  directories, the executable of the app, and the secrets.\<close>

record cmd_env =
  allows :: "string \<Rightarrow> bool"
  exists :: "string \<Rightarrow> bool"
  user_plugins :: string
  dev_plugins :: string
  resources_path :: string
  exec_path :: string
  secrets :: "(string, nat) dict"
  development :: bool

definition checkCommandConsent :: "cmd_env \<Rightarrow> command_data \<Rightarrow> cmd_world \<Rightarrow> bool \<times> cmd_world" where
  "checkCommandConsent env d w =
    (let key = consent_key d;
         saved = (case confirmedCommands w of None \<Rightarrow> None | Some cs \<Rightarrow> dict_get cs key)
     in if saved = Some (JBool False) then (False, w)
        else if saved = None
        then (True, w\<lparr>asked := asked w @ [key],
                confirmedCommands := Some (dict_set key (JBool (allows env key))
                  (case confirmedCommands w of None \<Rightarrow> [] | Some cs \<Rightarrow> cs))\<rparr>)
        else (True, w))"

section \<open>Running a command\<close>

definition getPluginsScriptPath :: "cmd_env \<Rightarrow> string \<Rightarrow> string" where
  "getPluginsScriptPath env s =
    (if exists env (path_join (user_plugins env) s) then path_join (user_plugins env) s
     else if exists env (path_join (dev_plugins env) s) then path_join (dev_plugins env) s
     else if exists env (path_join (path_join (resources_path env) ''.plugins'') s)
     then path_join (path_join (resources_path env) ''.plugins'') s
     else path_join (dev_plugins env) s)"

text \<open>\<open>{...options, shell: false, env: ...}\<close>; the environment is the app's own one, with
  \<open>K8SENSE_RUN_SCRIPT\<close> set for scripts. \<open>spawn\<close> throws on an argument that is no text.\<close>

definition spawn_options :: "json \<Rightarrow> (string \<times> json) list" where
  "spawn_options j = dict_delete ''env'' (dict_set ''shell'' (JBool False) (entries_of j))"

definition string_args :: "json list \<Rightarrow> string list option" where
  "string_args as = (if list_all (\<lambda>a. js_typeof a = ''string'') as then Some (map json_str as) else None)"

definition spawn_command :: "cmd_env \<Rightarrow> command_data \<Rightarrow> cmd_world \<Rightarrow> cmd_world" where
  "spawn_command env d w =
    (let script = (command d = ''scriptjs'')
     in case string_args (args d) of
          None \<Rightarrow> w
        | Some as \<Rightarrow> w\<lparr>processes := processes w @
            [\<lparr>sp_program = (if script then exec_path env else command d),
              sp_args = (if script then getPluginsScriptPath env (hd as) # tl as else as),
              sp_options = spawn_options (options d), sp_run_script = script\<rparr>]\<rparr>)"

text \<open>An exception leaves the state as it is at that point; no other code runs after it.\<close>

definition handleRunCommand :: "cmd_env \<Rightarrow> bool \<Rightarrow> json option \<Rightarrow> cmd_world \<Rightarrow> cmd_world" where
  [state_defs]: "handleRunCommand env has_window ev w =
    (if \<not> has_window then w
     else if \<not> fst (validateCommandData ev) then w
     else let d = command_data_of (the ev)
          in case checkPermissionSecret d (secrets env) of
               Inl e \<Rightarrow> w
             | Inr (ok, msg) \<Rightarrow>
                 if \<not> ok then w
                 else (case checkCommandConsent env d w of
                         (allowed, w') \<Rightarrow> if allowed then spawn_command env d w' else w'))"

section \<open>Consents of plugins\<close>

definition minikube_commands :: "string list" where
  "minikube_commands =
    [''minikube start'', ''minikube stop'', ''minikube delete'', ''minikube status'',
     ''minikube service'', ''minikube logs'', ''minikube addons'', ''minikube ssh'',
     ''scriptjs headlamp_minikubeprerelease/manage-minikube.js'',
     ''scriptjs headlamp_minikube/manage-minikube.js'',
     ''scriptjs minikube/manage-minikube.js'']"

definition ai_commands :: "string list" where
  "ai_commands = [''gh auth'', ''az account'', ''az cognitiveservices'']"

text \<open>The last matching plugin decides, as the second assignment would overwrite the first.\<close>

definition consented_on_install :: "cmd_env \<Rightarrow> string \<Rightarrow> string list" where
  "consented_on_install env n =
    (if n = ''headlamp_ai-assistant'' \<or> n = ''headlamp_ai-assistantprerelease'' \<or>
        (development env \<and> n = ''ai-assistant'') then ai_commands
     else if n = ''headlamp_minikube'' \<or> n = ''headlamp_minikubeprerelease'' \<or>
        (development env \<and> n = ''minikube'') then minikube_commands
     else [])"

definition addRunCmdConsent :: "cmd_env \<Rightarrow> string \<Rightarrow> cmd_world \<Rightarrow> cmd_world" where
  [state_defs]: "addRunCmdConsent env n w =
    w\<lparr>confirmedCommands := Some (fold (\<lambda>c cs. if jtruthy (dict_get cs c) then cs else dict_set c (JBool True) cs)
       (consented_on_install env n) (case confirmedCommands w of None \<Rightarrow> [] | Some cs \<Rightarrow> cs))\<rparr>"

definition consented_of_package :: "string \<Rightarrow> string list" where
  "consented_of_package n =
    (if n = ''@headlamp-k8s/ai-assistant'' \<or> n = ''@headlamp-k8s/ai-assistantprerelease'' then ai_commands
     else if n = ''@headlamp-k8s/minikubeprerelease'' \<or> n = ''@headlamp-k8s/minikube'' then minikube_commands
     else [])"

definition removeRunCmdConsent :: "string \<Rightarrow> cmd_world \<Rightarrow> cmd_world" where
  [state_defs]: "removeRunCmdConsent n w =
    (case confirmedCommands w of None \<Rightarrow> w
     | Some cs \<Rightarrow> w\<lparr>confirmedCommands := Some (fold dict_delete (consented_of_package n) cs)\<rparr>)"

section \<open>Handing out the secrets\<close>

definition secret_names :: "string list" where
  "secret_names =
    [''runCmd-minikube'', ''runCmd-scriptjs-minikube/manage-minikube.js'',
     ''runCmd-scriptjs-headlamp_minikube/manage-minikube.js'',
     ''runCmd-scriptjs-headlamp_minikubeprerelease/manage-minikube.js'', ''runCmd-gh'', ''runCmd-az'']"

definition giveSecrets :: "cmd_world \<Rightarrow> cmd_world" where
  [state_defs]: "giveSecrets w = (if secretsSent w then w else w\<lparr>secretsSent := True, handouts := Suc (handouts w)\<rparr>)"

text \<open>The count of hand-outs starts anew when the main frame has loaded.\<close>

definition frame_loaded :: "bool \<Rightarrow> cmd_world \<Rightarrow> cmd_world" where
  [state_defs]: "frame_loaded isMainFrame w = (if isMainFrame then w\<lparr>secretsSent := False, handouts := 0\<rparr> else w)"

datatype cmd_event = Run_Command "json option" | Request_Secrets | Frame_Loaded bool
  | Plugin_Installed string | Plugin_Removed string

definition cmd_step :: "cmd_env \<Rightarrow> cmd_world \<Rightarrow> cmd_event \<Rightarrow> cmd_world" where
  "cmd_step env w e = (case e of
     Run_Command ev \<Rightarrow> handleRunCommand env True ev w
   | Request_Secrets \<Rightarrow> giveSecrets w
   | Frame_Loaded b \<Rightarrow> frame_loaded b w
   | Plugin_Installed n \<Rightarrow> addRunCmdConsent env n w
   | Plugin_Removed n \<Rightarrow> removeRunCmdConsent n w)"

section \<open>Scripts\<close>

text \<open>\<open>runScript\<close>: whether the script is imported. The paths are resolved against the
  working directory.\<close>

definition runScript :: "cmd_env \<Rightarrow> string \<Rightarrow> string \<Rightarrow> bool" where
  "runScript env cwd p =
    (let script = path_resolve cwd p
     in prefix (path_resolve cwd (dev_plugins env)) script \<or>
        prefix (path_resolve cwd (user_plugins env)) script \<or>
        prefix (path_resolve cwd (path_join (resources_path env) ''.plugins'')) script)"

section \<open>What can be spawned\<close>

definition script_names :: "string list" where
  "script_names = [''minikube/manage-minikube.js'', ''headlamp_minikube/manage-minikube.js'',
     ''headlamp_minikubeprerelease/manage-minikube.js'']"

definition plugin_dirs :: "cmd_env \<Rightarrow> string list" where
  "plugin_dirs env = [user_plugins env, dev_plugins env, path_join (resources_path env) ''.plugins'']"

definition safe_process :: "cmd_env \<Rightarrow> spawned \<Rightarrow> bool" where
  "safe_process env p \<longleftrightarrow>
     dict_get (sp_options p) ''shell'' = Some (JBool False) \<and>
     (if sp_run_script p
      then sp_program p = exec_path env \<and>
           (\<exists>dir \<in> set (plugin_dirs env). \<exists>s \<in> set script_names. \<exists>rest. sp_args p = path_join dir s # rest)
      else sp_program p \<in> {''minikube'', ''az'', ''gh''})"

lemma getPluginsScriptPath_dir: "\<exists>dir \<in> set (plugin_dirs env). getPluginsScriptPath env s = path_join dir s"
  by (auto simp: getPluginsScriptPath_def plugin_dirs_def)

lemma plugins_slash_id: "\<not> sublist ''plugins/'' (plugins_slash s) \<Longrightarrow> plugins_slash s = s"
proof (induction s)
  case (Cons c s)
  show ?case
  proof (cases "prefix (''plugins'' @ [backslash]) (c # s) \<or> prefix ''plugins/'' (c # s)")
    case True
    then have "plugins_slash (c # s) = ''plugins/'' @ drop 8 (c # s)" by simp
    then have "sublist ''plugins/'' (plugins_slash (c # s))" by (simp add: sublist_appendI [of "''plugins/''" "[]", simplified])
    with Cons.prems show ?thesis by contradiction
  next
    case False
    then have eq: "plugins_slash (c # s) = c # plugins_slash s"
      by (simp only: plugins_slash.simps if_False)
    with Cons.prems have "\<not> sublist ''plugins/'' (plugins_slash s)" by (auto simp: sublist_Cons_right)
    with Cons.IH eq show ?thesis by simp
  qed
qed simp

lemma script_permission:
  assumes "''runCmd-scriptjs-'' @ plugins_slash s \<in> set secret_names"
  shows "s \<in> set script_names"
proof -
  have "plugins_slash s \<in> set script_names"
    using assms by (auto simp: secret_names_def script_names_def)
  moreover have "\<forall>t \<in> set script_names. \<not> str_includes t ''plugins/''"
    by code_simp
  ultimately show ?thesis using plugins_slash_id [of s] by (auto simp: str_includes_sublist)
qed

lemma check_secrets_Some: "check_secrets es = Some r \<Longrightarrow> \<not> fst r"
  by (induction es rule: check_secrets.induct) (auto split: if_splits)

lemma validated_command:
  assumes "fst (validateCommandData (Some e))"
  shows "command (command_data_of e) \<in> set valid_commands"
  using assms by (auto simp: validateCommandData_def Let_def command_data_of_def
      dest: check_secrets_Some split: if_splits option.splits)

text \<open>A request that gets past the checks of its form and of its secret.\<close>

definition authorized :: "cmd_env \<Rightarrow> json option \<Rightarrow> bool" where
  "authorized env ev \<longleftrightarrow> fst (validateCommandData ev) \<and>
     (\<exists>msg. checkPermissionSecret (command_data_of (the ev)) (secrets env) = Inr (True, msg))"

lemma handle_unauthorized: "\<not> authorized env ev \<Longrightarrow> handleRunCommand env b ev w = w"
  by (auto simp: handleRunCommand_def authorized_def Let_def split: sum.split prod.split)

lemma handle_authorized:
  "authorized env ev \<Longrightarrow> handleRunCommand env True ev w =
    (let d = command_data_of (the ev); c = checkCommandConsent env d w
     in if fst c then spawn_command env d (snd c) else snd c)"
  by (auto simp: handleRunCommand_def authorized_def Let_def split: sum.split prod.split)

lemma consent_frame [simp]:
  "processes (snd (checkCommandConsent env d w)) = processes w"
  by (simp add: checkCommandConsent_def Let_def)

lemma validated_Some: "fst (validateCommandData ev) \<Longrightarrow> \<exists>e. ev = Some e"
  by (cases ev) (simp_all add: validateCommandData_def jtruthy_def)

lemma authorized_script:
  assumes "authorized env ev" and "command (command_data_of (the ev)) = ''scriptjs''"
    and "dict_keys (secrets env) = secret_names"
  shows "\<exists>s rest. args (command_data_of (the ev)) = JStr s # rest \<and> s \<in> set script_names"
proof -
  let ?d = "command_data_of (the ev)"
  have "x \<in> set secret_names" if "dict_get (secrets env) x = Some k" for x k
    using that dict_has_keys [of "secrets env" x] assms(3) by (simp add: dict_has_def)
  with assms(1) obtain n where n: "permission_name ?d = Inr n" "n \<in> set secret_names"
    by (auto simp: authorized_def checkPermissionSecret_def split: sum.splits option.splits if_splits)
  have "''runCmd-scriptjs-undefined'' \<notin> set secret_names" by code_simp
  with n assms(2) obtain s rest where "args ?d = JStr s # rest" "n = ''runCmd-scriptjs-'' @ plugins_slash s"
    by (auto simp: permission_name_def split: list.splits json.splits)
  with n(2) script_permission show ?thesis by auto
qed

lemma spawn_safe:
  assumes "authorized env ev" and "dict_keys (secrets env) = secret_names"
    and "list_all (safe_process env) (processes w)"
  shows "list_all (safe_process env) (processes (spawn_command env (command_data_of (the ev)) w))"
proof (cases "string_args (args (command_data_of (the ev)))")
  case None
  with assms(3) show ?thesis by (simp add: spawn_command_def)
next
  case (Some as)
  let ?d = "command_data_of (the ev)"
  have shell: "dict_get (spawn_options (options ?d)) ''shell'' = Some (JBool False)"
    by (simp add: spawn_options_def)
  have valid: "command ?d \<in> set valid_commands"
    using assms(1) validated_command validated_Some [of ev] by (auto simp: authorized_def)
  show ?thesis
  proof (cases "command ?d = ''scriptjs''")
    case True
    from authorized_script [OF assms(1) True assms(2)] obtain s rest
      where s: "args ?d = JStr s # rest" "s \<in> set script_names" by blast
    with Some have "hd as = s" by (auto simp: string_args_def split: if_splits)
    then show ?thesis
      using Some True shell s(2) assms(3) getPluginsScriptPath_dir [of env s]
      by (auto simp: spawn_command_def safe_process_def)
  next
    case False
    with Some shell valid assms(3) show ?thesis
      by (auto simp: spawn_command_def safe_process_def valid_commands_def)
  qed
qed

definition processes_safe :: "cmd_env \<Rightarrow> cmd_world \<Rightarrow> bool" where
  [inv_defs]: "processes_safe env w \<longleftrightarrow>
     (dict_keys (secrets env) = secret_names \<longrightarrow> list_all (safe_process env) (processes w))"

lemma cmd_step_processes:
  "processes (cmd_step env w e) =
    (case e of Run_Command ev \<Rightarrow> processes (handleRunCommand env True ev w) | _ \<Rightarrow> processes w)"
  by (simp add: cmd_step_def giveSecrets_def frame_loaded_def addRunCmdConsent_def removeRunCmdConsent_def
      split: cmd_event.split option.split)

interpretation safe_commands: reducer "cmd_step env" "processes_safe env" for env
proof unfold_locales
  fix w e
  assume inv: "processes_safe env w"
  show "processes_safe env (cmd_step env w e)"
  proof (cases e)
    case (Run_Command ev)
    show ?thesis
    proof (cases "authorized env ev")
      case True
      with inv Run_Command show ?thesis
        by (auto simp: processes_safe_def cmd_step_processes handle_authorized Let_def intro: spawn_safe)
    next
      case False
      with inv Run_Command show ?thesis by (simp add: cmd_step_def handle_unauthorized)
    qed
  qed (use inv in \<open>simp_all add: processes_safe_def cmd_step_processes\<close>)
qed

text \<open>C3: Whatever the renderer sends, and whatever plugins are installed and removed in between,
  the app only ever spawns \<open>minikube\<close>, \<open>az\<close> and \<open>gh\<close>, or itself with one of the three known
  scripts in a plugin directory, and never through a shell.\<close>

theorem only_known_programs_run:
  assumes "dict_keys (secrets env) = secret_names" and "processes w = []"
  shows "list_all (safe_process env) (processes (foldl (cmd_step env) w es))"
proof -
  have "processes_safe env w" using assms(2) by (simp add: processes_safe_def)
  from safe_commands.run_inv [OF this, of es] assms(1) show ?thesis by (simp add: processes_safe_def)
qed

definition sample_env :: "bool \<Rightarrow> cmd_env" where
  "sample_env answer = \<lparr>allows = (\<lambda>k. answer), exists = (\<lambda>p. True), user_plugins = ''/home/u/user-plugins'',
     dev_plugins = ''/home/u/plugins'', resources_path = ''/opt/app'', exec_path = ''/opt/app/app'',
     secrets = zip secret_names [1, 2, 3, 4, 5, 6], development = False\<rparr>"

definition start_world :: cmd_world where
  "start_world = \<lparr>confirmedCommands = None, asked = [], processes = [], secretsSent = False, handouts = 0\<rparr>"

definition delete_request :: json where
  "delete_request = JObj [(''id'', JStr ''1''), (''command'', JStr ''minikube''),
     (''args'', JArr [JStr ''delete'']), (''options'', JObj [(''shell'', JBool True)]),
     (''permissionSecrets'', JObj [(''runCmd-minikube'', JNum 1)])]"

theorem only_known_programs_run_witness:
  "list_all (safe_process (sample_env True))
     (processes (foldl (cmd_step (sample_env True)) start_world [Request_Secrets, Run_Command (Some delete_request)]))"
  by (rule only_known_programs_run) code_simp+

section \<open>Consent of the user\<close>

text \<open>The answer to the dialog does not decide about the call in which it is given: whatever
  the user answers, the same processes are spawned. (In particular a command that the user
  refuses is still run this one time; the refusal is only saved for the next calls.)\<close>

theorem first_refusal_still_runs:
  "processes (handleRunCommand (env\<lparr>allows := f\<rparr>) b ev w) =
   processes (handleRunCommand (env\<lparr>allows := g\<rparr>) b ev w)"
proof -
  have path: "getPluginsScriptPath (env\<lparr>allows := h\<rparr>) s = getPluginsScriptPath env s" for h s
    by (simp add: getPluginsScriptPath_def)
  have spawn: "processes (spawn_command (env\<lparr>allows := h\<rparr>) d v) = processes v @
      (case string_args (args d) of None \<Rightarrow> [] | Some as \<Rightarrow>
        [\<lparr>sp_program = (if command d = ''scriptjs'' then exec_path env else command d),
          sp_args = (if command d = ''scriptjs'' then getPluginsScriptPath env (hd as) # tl as else as),
          sp_options = spawn_options (options d), sp_run_script = (command d = ''scriptjs'')\<rparr>])" for h d v
    by (simp add: spawn_command_def path split: option.split)
  have consent: "fst (checkCommandConsent (env\<lparr>allows := h\<rparr>) d v) =
      ((case confirmedCommands v of None \<Rightarrow> None | Some cs \<Rightarrow> dict_get cs (consent_key d)) \<noteq> Some (JBool False))" for h d v
    by (simp add: checkCommandConsent_def Let_def)
  have auth: "authorized (env\<lparr>allows := h\<rparr>) ev = authorized env ev" for h
    by (simp add: authorized_def)
  show ?thesis
  proof (cases "b \<and> authorized env ev")
    case True
    then show ?thesis by (simp add: handle_authorized auth Let_def consent spawn)
  next
    case False
    then have "handleRunCommand (env\<lparr>allows := h\<rparr>) b ev w = w" for h
      using handle_unauthorized [of "env\<lparr>allows := h\<rparr>" ev b w] auth
      by (cases "authorized env ev") (simp_all add: handleRunCommand_def)
    then show ?thesis by simp
  qed
qed

lemma first_refusal_example:
  "map sp_args (processes (handleRunCommand (sample_env False) True (Some delete_request) start_world)) = [[''delete'']]"
  "map_option (\<lambda>cs. dict_get cs ''minikube delete'')
     (confirmedCommands (handleRunCommand (sample_env False) True (Some delete_request) start_world)) = Some (Some (JBool False))"
  by code_simp+

text \<open>The saved decision about a key, and whether an event is an authorized request for it.\<close>

definition decision :: "cmd_world \<Rightarrow> string \<Rightarrow> json option" where
  "decision w k = (case confirmedCommands w of None \<Rightarrow> None | Some cs \<Rightarrow> dict_get cs k)"

definition requests_key :: "string \<Rightarrow> cmd_event \<Rightarrow> bool" where
  "requests_key k e = (case e of
     Run_Command (Some j) \<Rightarrow> consent_key (command_data_of j) = k | _ \<Rightarrow> False)"

definition changes_plugins :: "cmd_event \<Rightarrow> bool" where
  "changes_plugins e = (case e of Plugin_Installed n \<Rightarrow> True | Plugin_Removed n \<Rightarrow> True | _ \<Rightarrow> False)"

lemma decision_spawn [simp]: "decision (spawn_command env d w) k = decision w k"
proof -
  have "confirmedCommands (spawn_command env d w) = confirmedCommands w"
    by (cases "string_args (args d)") (simp_all add: spawn_command_def Let_def)
  then show ?thesis by (simp add: decision_def)
qed

lemma decision_consent:
  "decision (snd (checkCommandConsent env d w)) k =
    (if k = consent_key d \<and> decision w k = None then Some (JBool (allows env k)) else decision w k)"
  by (auto simp: checkCommandConsent_def decision_def Let_def split: option.splits)

lemma decision_kept:
  assumes "\<not> changes_plugins e" and "decision w k = Some d"
  shows "decision (cmd_step env w e) k = Some d"
proof (cases e)
  case (Run_Command ev)
  then show ?thesis using assms(2)
    by (cases "authorized env ev")
      (simp_all add: cmd_step_def handle_authorized handle_unauthorized Let_def decision_consent)
qed (use assms in \<open>simp_all add: changes_plugins_def cmd_step_def giveSecrets_def frame_loaded_def decision_def\<close>)

lemma denied_step:
  assumes "decision w k = Some (JBool False)" and "requests_key k e"
  shows "cmd_step env w e = w"
proof -
  obtain j where e: "e = Run_Command (Some j)" and k: "consent_key (command_data_of j) = k"
    using assms(2) by (auto simp: requests_key_def split: cmd_event.splits option.splits)
  have "checkCommandConsent env (command_data_of j) w = (False, w)"
    using assms(1) k by (simp add: checkCommandConsent_def decision_def Let_def)
  with e show ?thesis
    by (cases "authorized env (Some j)")
      (simp_all add: cmd_step_def handle_authorized handle_unauthorized Let_def)
qed

text \<open>C37: A command that the user has refused is not run again and the user is not asked again,
  as long as no plugin is installed or removed: requests for it have no effect at all on what
  happens.\<close>

theorem refused_command_has_no_effect:
  assumes "decision w k = Some (JBool False)" and "list_all (\<lambda>e. \<not> changes_plugins e) es"
  shows "foldl (cmd_step env) w es = foldl (cmd_step env) w (filter (\<lambda>e. \<not> requests_key k e) es)"
  using assms
proof (induction es arbitrary: w)
  case (Cons e es)
  have "decision (cmd_step env w e) k = Some (JBool False)"
    using Cons.prems by (intro decision_kept) simp_all
  moreover have "requests_key k e \<Longrightarrow> cmd_step env w e = w"
    using Cons.prems(1) by (rule denied_step)
  ultimately show ?case using Cons by auto
qed simp

theorem refused_command_has_no_effect_witness:
  "foldl (cmd_step (sample_env True))
     (start_world\<lparr>confirmedCommands := Some [(''minikube delete'', JBool False)]\<rparr>)
     [Run_Command (Some delete_request), Request_Secrets]
   = foldl (cmd_step (sample_env True))
     (start_world\<lparr>confirmedCommands := Some [(''minikube delete'', JBool False)]\<rparr>)
     (filter (\<lambda>e. \<not> requests_key ''minikube delete'' e) [Run_Command (Some delete_request), Request_Secrets])"
  by (rule refused_command_has_no_effect) code_simp+

section \<open>Secrets\<close>

definition handed_once :: "cmd_world \<Rightarrow> bool" where
  [inv_defs]: "handed_once w \<longleftrightarrow> handouts w \<le> (if secretsSent w then 1 else 0)"

lemma handle_frame:
  "handouts (handleRunCommand env b ev w) = handouts w \<and> secretsSent (handleRunCommand env b ev w) = secretsSent w"
  by (auto simp: handleRunCommand_def checkCommandConsent_def spawn_command_def Let_def
      split: sum.split prod.split option.split)

interpretation secret_handouts: reducer "cmd_step env" handed_once for env
  by unfold_locales (auto simp: handed_once_def cmd_step_def handle_frame giveSecrets_def frame_loaded_def
      addRunCmdConsent_def removeRunCmdConsent_def split: cmd_event.split option.split)

text \<open>Between two loads of the main frame the permission secrets are handed out at most once;
  and a request that does not carry the secret of its command changes nothing: nothing is
  spawned, nobody is asked, nothing is saved.\<close>

theorem secrets_guard_commands:
  "handouts (foldl (cmd_step env) start_world es) \<le> 1 \<and>
   (permission_name (command_data_of j) = Inr n \<and>
    \<not> (\<exists>k. dict_get (secrets env) n = Some k \<and> field (permissionSecrets (command_data_of j)) n = Some (JNum (int k))) \<longrightarrow>
    handleRunCommand env b (Some j) w = w)"
proof (intro conjI impI)
  have "handed_once start_world" by (simp add: handed_once_def start_world_def)
  then show "handouts (foldl (cmd_step env) start_world es) \<le> 1"
    using secret_handouts.run_inv [of start_world env es] by (auto simp: handed_once_def split: if_splits)
  assume "permission_name (command_data_of j) = Inr n \<and>
    \<not> (\<exists>k. dict_get (secrets env) n = Some k \<and> field (permissionSecrets (command_data_of j)) n = Some (JNum (int k)))"
  then have "\<not> authorized env (Some j)"
    by (auto simp: authorized_def checkPermissionSecret_def split: option.splits)
  then show "handleRunCommand env b (Some j) w = w" by (rule handle_unauthorized)
qed

theorem secrets_guard_commands_witness:
  "handleRunCommand (sample_env True) True
     (Some (JObj [(''command'', JStr ''minikube''), (''permissionSecrets'', JObj [(''runCmd-minikube'', JNum 9)])]))
     start_world = start_world"
proof -
  let ?j = "JObj [(''command'', JStr ''minikube''), (''permissionSecrets'', JObj [(''runCmd-minikube'', JNum 9)])]"
  have "permission_name (command_data_of ?j) = Inr ''runCmd-minikube''"
    "dict_get (secrets (sample_env True)) ''runCmd-minikube'' = Some 1"
    "field (permissionSecrets (command_data_of ?j)) ''runCmd-minikube'' = Some (JNum 9)"
    by code_simp+
  with secrets_guard_commands [of "sample_env True" "[]" ?j "''runCmd-minikube''" True start_world]
  show ?thesis by simp
qed

section \<open>Plugins and consent\<close>

lemma jtruthy_None [simp]: "\<not> jtruthy None"
  by (simp add: jtruthy_def)

lemma fold_grant:
  "dict_get (fold (\<lambda>c cs. if jtruthy (dict_get cs c) then cs else dict_set c (JBool True) cs) ks cs) k =
    (if k \<in> set ks \<and> \<not> jtruthy (dict_get cs k) then Some (JBool True) else dict_get cs k)"
  by (induction ks arbitrary: cs) (auto simp: jtruthy_def)

lemma fold_dict_delete: "dict_get (fold dict_delete ks cs) k = (if k \<in> set ks then None else dict_get cs k)"
  by (induction ks arbitrary: cs) auto

lemma decision_install:
  "decision (addRunCmdConsent env n w) k =
    (if k \<in> set (consented_on_install env n) \<and> \<not> jtruthy (decision w k) then Some (JBool True) else decision w k)"
  by (cases "confirmedCommands w") (auto simp: decision_def addRunCmdConsent_def fold_grant)

lemma decision_remove:
  "decision (removeRunCmdConsent n w) k = (if k \<in> set (consented_of_package n) then None else decision w k)"
  by (simp add: decision_def removeRunCmdConsent_def fold_dict_delete split: option.split)

text \<open>Installing a plugin allows its listed commands, also those that the user had refused
  before; removing its package forgets the decisions about them, also the refusals, so that the
  user is asked again. The decisions about all other commands are untouched by both.\<close>

theorem plugin_consents:
  "decision (addRunCmdConsent env n w) k =
     (if k \<in> set (consented_on_install env n) \<and> \<not> jtruthy (decision w k) then Some (JBool True)
      else decision w k) \<and>
   decision (removeRunCmdConsent m w) k = (if k \<in> set (consented_of_package m) then None else decision w k) \<and>
   (consent_key d \<in> set (consented_of_package m) \<longrightarrow>
      asked (snd (checkCommandConsent env d (removeRunCmdConsent m w))) = asked w @ [consent_key d]) \<and>
   (consent_key d \<in> set (consented_on_install env n) \<and> jtruthy (decision (addRunCmdConsent env n w) (consent_key d)) \<longrightarrow>
      checkCommandConsent env d (addRunCmdConsent env n w) = (True, addRunCmdConsent env n w))"
proof (intro conjI impI)
  assume "consent_key d \<in> set (consented_of_package m)"
  then have "decision (removeRunCmdConsent m w) (consent_key d) = None" by (simp add: decision_remove)
  moreover have "asked (removeRunCmdConsent m w) = asked w"
    by (simp add: removeRunCmdConsent_def split: option.split)
  ultimately show "asked (snd (checkCommandConsent env d (removeRunCmdConsent m w))) = asked w @ [consent_key d]"
    by (simp add: checkCommandConsent_def decision_def Let_def)
next
  assume "consent_key d \<in> set (consented_on_install env n) \<and>
    jtruthy (decision (addRunCmdConsent env n w) (consent_key d))"
  then show "checkCommandConsent env d (addRunCmdConsent env n w) = (True, addRunCmdConsent env n w)"
    by (auto simp: checkCommandConsent_def decision_def [symmetric] Let_def jtruthy_def)
qed (simp_all add: decision_install decision_remove)

theorem plugin_consents_witness:
  "checkCommandConsent (sample_env False)
     \<lparr>command = ''minikube'', args = [JStr ''delete''], options = JNull, permissionSecrets = JNull\<rparr>
     (addRunCmdConsent (sample_env False) ''headlamp_minikube''
        (start_world\<lparr>confirmedCommands := Some [(''minikube delete'', JBool False)]\<rparr>))
   = (True, addRunCmdConsent (sample_env False) ''headlamp_minikube''
        (start_world\<lparr>confirmedCommands := Some [(''minikube delete'', JBool False)]\<rparr>))"
proof -
  let ?d = "\<lparr>command = ''minikube'', args = [JStr ''delete''], options = JNull, permissionSecrets = JNull\<rparr>"
  let ?w = "start_world\<lparr>confirmedCommands := Some [(''minikube delete'', JBool False)]\<rparr>"
  have "consent_key ?d \<in> set (consented_on_install (sample_env False) ''headlamp_minikube'')"
    "jtruthy (decision (addRunCmdConsent (sample_env False) ''headlamp_minikube'' ?w) (consent_key ?d))"
    by code_simp+
  then show ?thesis
    using plugin_consents [of "sample_env False" "''headlamp_minikube''" ?w "[]" "[]" ?d] by blast
qed

text \<open>A script is only run when its resolved path starts with the path of a plugin directory.
  Leaving the directory with \<open>..\<close> is noticed, but a sibling directory whose name merely
  continues the name of a plugin directory is accepted: the check compares texts, not path
  segments.\<close>

theorem script_check_accepts_siblings:
  "runScript (sample_env True) ''/'' ''/home/u/plugins/minikube/manage-minikube.js'' \<and>
   runScript (sample_env True) ''/home/u'' ''plugins/a/../b/./x.js'' \<and>
   \<not> runScript (sample_env True) ''/'' ''/home/u/plugins/../evil.js'' \<and>
   \<not> runScript (sample_env True) ''/'' ''/home/u/other/x.js'' \<and>
   runScript (sample_env True) ''/'' ''/home/u/plugins-evil/x.js'' \<and>
   runScript (sample_env True) ''/'' ''/home/u/plugins/../plugins2/x.js''"
  by code_simp

end
