(* ===== verification/Rollback.thy ===== *)
theory Rollback
  imports Urls
begin

text \<open>
  Revision history and rollback of workloads: \<^verbatim>\<open>frontend/src/lib/k8s/deployment.ts\<close>,
  \<^verbatim>\<open>daemonSet.ts\<close>, \<^verbatim>\<open>statefulSet.ts\<close>, \<^verbatim>\<open>rollback.ts\<close>, \<^verbatim>\<open>controllerRevision.ts\<close>, and
  the dialog that uses them, \<^verbatim>\<open>frontend/src/components/common/Resource/RollbackDialog.tsx\<close>.
  The answers of the API server (the lists of replica sets and controller revisions, the
  result of the patch) are given from outside: \<open>Inl\<close> an error message, \<open>Inr\<close> the answer.
  The interface between the three classes and the dialog is the locale \<open>rollbackable\<close>.
\<close>

section \<open>Data\<close>

record revision_info =
  revision :: int
  createdAt :: string
  images :: "string list"
  isCurrent :: bool
  podTemplate :: "json option"

record rollback_result =
  success :: bool
  result_message :: string
  previousRevision :: "int option"
  dryRunResult :: "json option"

record replica_set =
  rs_owners :: "(string \<times> string) list option"
  rs_revision :: "string option"
  rs_created :: "string option"
  rs_template :: json

record controller_revision =
  cr_owners :: "string list option"
  cr_revision :: "int option"
  cr_created :: "string option"
  cr_template :: "json option"

text \<open>What is read of the workload itself; \<open>wl_revision\<close> is the annotation
  \<open>deployment.kubernetes.io/revision\<close>.\<close>

record workload =
  wl_uid :: string
  wl_namespace :: string
  wl_name :: string
  wl_version :: "string option"
  wl_paused :: bool
  wl_revision :: "string option"
  wl_generation :: "int option"
  wl_observed :: "int option"
  wl_labels :: "(string, string) dict option"

text \<open>The history cache of the object, and the patches it has sent: address and new template.\<close>

record rb_state =
  revisionHistoryCache :: "(string option \<times> revision_info list) option"
  patches :: "(string \<times> json) list"

section \<open>Shared steps\<close>

text \<open>\<open>xs.sort((a, b) => b.revision - a.revision)\<close> on the entries with their revisions.\<close>

definition newest_first :: "(int \<times> 'r) list \<Rightarrow> (int \<times> 'r) list" where
  "newest_first xs = js_sort (\<lambda>a b. num_sub (Some (fst b)) (Some (fst a))) xs"

text \<open>The revision asked for, or the previous one: the second in the sorted list.\<close>

definition find_target :: "(int \<times> 'r) list \<Rightarrow> int option \<Rightarrow> string + int \<times> 'r" where
  "find_target es toRevision =
    (case toRevision of
       Some n \<Rightarrow>
         if 0 < n
         then (case find (\<lambda>e. fst e = n) es of
                 None \<Rightarrow> Inl (''Revision '' @ int_str n @ '' not found in history'')
               | Some e \<Rightarrow> if fst e = fst (hd es) then Inl ''Cannot rollback to current revision'' else Inr e)
         else if length es < 2 then Inl ''No previous revision available to rollback to''
         else Inr (es ! 1)
     | None \<Rightarrow> if length es < 2 then Inl ''No previous revision available to rollback to''
         else Inr (es ! 1))"

text \<open>\<open>delete template.metadata.labels[key]\<close> when it is there and truthy.\<close>

fun on_field :: "string \<Rightarrow> (json \<Rightarrow> json) \<Rightarrow> json \<Rightarrow> json" where
  "on_field k f (JObj fs) = JObj (map (\<lambda>(n, v). (n, if n = k then f v else v)) fs)"
| "on_field k f j = j"

fun delete_field :: "string \<Rightarrow> json \<Rightarrow> json" where
  "delete_field k (JObj fs) = (if jtruthy (map_of fs k) then JObj (filter (\<lambda>(n, v). n \<noteq> k) fs) else JObj fs)"
| "delete_field k j = j"

definition clean_template :: "string \<Rightarrow> json \<Rightarrow> json" where
  "clean_template hash t = on_field ''metadata'' (on_field ''labels'' (delete_field hash)) t"

definition failure :: "string \<Rightarrow> rollback_result" where
  "failure m = \<lparr>success = False, result_message = m, previousRevision = None, dryRunResult = None\<rparr>"

text \<open>The address of the patch, the patch and its result. \<open>answer\<close> is what the server says.\<close>

definition patch_url :: "workload \<Rightarrow> string \<Rightarrow> bool \<Rightarrow> string" where
  "patch_url wl plural dryRun =
    getApiRoot ''apps'' ''v1'' @ ''/namespaces/'' @ wl_namespace wl @ ''/'' @ plural @ ''/'' @ wl_name wl @
      (if dryRun then ''?dryRun=All'' else [])"

definition send_patch ::
  "workload \<Rightarrow> string \<Rightarrow> bool \<Rightarrow> int \<Rightarrow> json \<Rightarrow> string + json \<Rightarrow> rb_state \<Rightarrow> rollback_result \<times> rb_state" where
  "send_patch wl plural dryRun n template answer s =
    (let s' = s\<lparr>patches := patches s @ [(patch_url wl plural dryRun, template)]\<rparr>
     in case answer of
          Inl e \<Rightarrow> (failure (''Failed to rollback: '' @ e), s')
        | Inr r \<Rightarrow>
            (\<lparr>success = True,
              result_message = (if dryRun then ''Dry-run: would rollback to revision '' @ int_str n
                         else ''Rolled back to revision '' @ int_str n),
              previousRevision = Some n, dryRunResult = (if dryRun then Some r else None)\<rparr>,
             if dryRun then s' else s'\<lparr>revisionHistoryCache := None\<rparr>))"

text \<open>The images of a template's containers.\<close>

definition jget :: "string \<Rightarrow> json option \<Rightarrow> json option" where
  "jget k j = (case j of Some (JObj fs) \<Rightarrow> map_of fs k | _ \<Rightarrow> None)"

definition images_of :: "json option \<Rightarrow> string list" where
  "images_of t =
    (case jget ''containers'' (jget ''spec'' t) of
       Some (JArr cs) \<Rightarrow> map (\<lambda>c. case jget ''image'' (Some c) of Some (JStr i) \<Rightarrow> i | _ \<Rightarrow> []) cs
     | _ \<Rightarrow> [])"

text \<open>\<open>getRevisionHistory\<close>: the cached list while the version of the object is the same.\<close>

definition cached_history ::
  "workload \<Rightarrow> string + revision_info list \<Rightarrow> rb_state \<Rightarrow> (string + revision_info list) \<times> rb_state" where
  "cached_history wl fresh s =
    (case revisionHistoryCache s of
       Some (v, h) \<Rightarrow> if v = wl_version wl then (Inr h, s)
         else (case fresh of Inl e \<Rightarrow> (Inl e, s)
               | Inr h' \<Rightarrow> (Inr h', s\<lparr>revisionHistoryCache := Some (wl_version wl, h')\<rparr>))
     | None \<Rightarrow> (case fresh of Inl e \<Rightarrow> (Inl e, s)
               | Inr h' \<Rightarrow> (Inr h', s\<lparr>revisionHistoryCache := Some (wl_version wl, h')\<rparr>)))"

section \<open>Deployments\<close>

definition getOwnedReplicaSets :: "workload \<Rightarrow> string + replica_set list \<Rightarrow> string + replica_set list" where
  "getOwnedReplicaSets wl listed =
    map_sum id (filter (\<lambda>rs. case rs_owners rs of None \<Rightarrow> False
       | Some os \<Rightarrow> list_ex (\<lambda>(k, u). k = ''Deployment'' \<and> u = wl_uid wl) os)) listed"

definition deployment_currentRevision :: "workload \<Rightarrow> string" where
  "deployment_currentRevision wl = or_else (wl_revision wl) ''0''"

definition rs_entries :: "replica_set list \<Rightarrow> (int \<times> replica_set) list" where
  "rs_entries rss = List.map_filter (\<lambda>rs. case parse_int10 (or_else (rs_revision rs) ''0'') of
     Some n \<Rightarrow> if 0 < n then Some (n, rs) else None | None \<Rightarrow> None) rss"

definition deployment_rollback ::
  "workload \<Rightarrow> string + replica_set list \<Rightarrow> string + json \<Rightarrow> int option \<Rightarrow> bool \<Rightarrow> rb_state
    \<Rightarrow> rollback_result \<times> rb_state" where
  "deployment_rollback wl listed answer toRevision dryRun s =
    (if wl_paused wl then (failure ''Cannot rollback a paused deployment'', s)
     else case getOwnedReplicaSets wl listed of
            Inl e \<Rightarrow> (failure (''Failed to rollback: '' @ e), s)
          | Inr owned \<Rightarrow>
              (case find_target (newest_first (rs_entries owned)) toRevision of
                 Inl m \<Rightarrow> (failure m, s)
               | Inr (n, rs) \<Rightarrow>
                   send_patch wl ''deployments'' dryRun n
                     (clean_template ''pod-template-hash'' (rs_template rs)) answer s))"

definition deployment_info :: "workload \<Rightarrow> int \<times> replica_set \<Rightarrow> revision_info" where
  "deployment_info wl e = (let (n, rs) = e in
    \<lparr>revision = n, createdAt = or_else (rs_created rs) [], images = images_of (Some (rs_template rs)),
     isCurrent = (int_str n = deployment_currentRevision wl), podTemplate = Some (rs_template rs)\<rparr>)"

definition deployment_history ::
  "workload \<Rightarrow> string + replica_set list \<Rightarrow> rb_state \<Rightarrow> (string + revision_info list) \<times> rb_state" where
  "deployment_history wl listed s =
    cached_history wl (map_sum id (\<lambda>owned. map (deployment_info wl) (newest_first (rs_entries owned)))
      (getOwnedReplicaSets wl listed)) s"

section \<open>Daemon sets and stateful sets\<close>

text \<open>The two classes have the same code up to the plural name in the address.\<close>

definition controller_currentRevision :: "workload \<Rightarrow> string" where
  "controller_currentRevision wl = (case wl_observed wl of Some n \<Rightarrow> int_str n
     | None \<Rightarrow> (case wl_generation wl of Some n \<Rightarrow> int_str n | None \<Rightarrow> []))"

definition label_selector :: "workload \<Rightarrow> string option" where
  "label_selector wl = map_option (\<lambda>ls. js_join '','' (map (\<lambda>(k, v). k @ ''='' @ v) ls)) (wl_labels wl)"

definition getOwnedControllerRevisions ::
  "workload \<Rightarrow> string + controller_revision list \<Rightarrow> string + controller_revision list" where
  "getOwnedControllerRevisions wl listed =
    map_sum id (filter (\<lambda>r. list_ex (\<lambda>u. u = wl_uid wl) (case cr_owners r of None \<Rightarrow> [] | Some os \<Rightarrow> os))) listed"

definition cr_entries :: "controller_revision list \<Rightarrow> (int \<times> controller_revision) list" where
  "cr_entries rs = List.map_filter (\<lambda>r. case cr_revision r of
     Some n \<Rightarrow> if 0 < n then Some (n, r) else None | None \<Rightarrow> None) rs"

definition controller_rollback ::
  "string \<Rightarrow> workload \<Rightarrow> string + controller_revision list \<Rightarrow> string + json \<Rightarrow> int option \<Rightarrow> bool \<Rightarrow> rb_state
    \<Rightarrow> rollback_result \<times> rb_state" where
  "controller_rollback plural wl listed answer toRevision dryRun s =
    (case getOwnedControllerRevisions wl listed of
       Inl e \<Rightarrow> (failure (''Failed to rollback: '' @ e), s)
     | Inr owned \<Rightarrow>
         (case find_target (newest_first (cr_entries owned)) toRevision of
            Inl m \<Rightarrow> (failure m, s)
          | Inr (n, r) \<Rightarrow>
              if \<not> jtruthy (cr_template r)
              then (failure ''Target revision does not contain a valid pod template'', s)
              else send_patch wl plural dryRun n
                (clean_template ''controller-revision-hash'' (the (cr_template r))) answer s))"

definition daemonSet_rollback where
  "daemonSet_rollback = controller_rollback ''daemonsets''"

definition statefulSet_rollback where
  "statefulSet_rollback = controller_rollback ''statefulsets''"

definition controller_info :: "int \<Rightarrow> int \<times> controller_revision \<Rightarrow> revision_info" where
  "controller_info highest e = (let (n, r) = e in
    \<lparr>revision = n, createdAt = or_else (cr_created r) [], images = images_of (cr_template r),
     isCurrent = (n = highest), podTemplate = cr_template r\<rparr>)"

definition controller_history ::
  "workload \<Rightarrow> string + controller_revision list \<Rightarrow> rb_state \<Rightarrow> (string + revision_info list) \<times> rb_state" where
  "controller_history wl listed s =
    cached_history wl (map_sum id (\<lambda>owned.
        let es = newest_first (cr_entries owned);
            highest = (if es \<noteq> [] then fst (hd es) else 0)
        in map (controller_info highest) es)
      (getOwnedControllerRevisions wl listed)) s"

definition statefulSet_history where
  "statefulSet_history = controller_history"

definition statefulSet_ownedRevisions where
  "statefulSet_ownedRevisions = getOwnedControllerRevisions"

section \<open>Facts on sorting and targets\<close>

lemma newest_first_key: "newest_first xs = sort_key (\<lambda>e. - fst e) xs"
  unfolding newest_first_def by (rule js_sort_key) (simp add: num_sub_def)

lemma newest_first_sorted: "sorted_wrt (\<lambda>a b. fst b \<le> fst a) (newest_first xs)"
proof -
  have "sorted (map (\<lambda>e. - fst e) (newest_first xs))" by (simp add: newest_first_key)
  then show ?thesis by (simp add: sorted_wrt_map)
qed

lemma newest_first_set [simp]: "set (newest_first xs) = set xs"
  by (simp add: newest_first_key)

lemma length_newest_first [simp]: "length (newest_first xs) = length xs"
  by (simp add: newest_first_key)

lemma find_in_set: "find P xs = Some x \<Longrightarrow> x \<in> set xs \<and> P x"
  by (auto simp: find_Some_iff)

text \<open>A target is an entry that is older than the newest one, and the one asked for.\<close>

lemma find_target_Inr:
  assumes "find_target es to = Inr e"
  shows "e \<in> set es" and "case to of Some n \<Rightarrow> 0 < n \<longrightarrow> fst e = n \<and> n \<noteq> fst (hd es) | None \<Rightarrow> True"
    and "(case to of Some n \<Rightarrow> \<not> 0 < n | None \<Rightarrow> True) \<Longrightarrow> 2 \<le> length es \<and> e = es ! 1"
  using assms by (auto simp: find_target_def dest: find_in_set split: option.splits if_splits)

lemma find_target_found:
  assumes "n \<in> fst ` set es" and "0 < n" and "n \<noteq> fst (hd es)"
  shows "\<exists>e. find_target es (Some n) = Inr e \<and> e \<in> set es \<and> fst e = n"
proof -
  from assms(1) obtain e where "find (\<lambda>e. fst e = n) es = Some e"
    by (cases "find (\<lambda>e. fst e = n) es") (auto simp: find_None_iff)
  moreover then have "e \<in> set es" "fst e = n" by (auto simp: find_Some_iff)
  ultimately show ?thesis using assms(2,3) by (simp add: find_target_def)
qed

section \<open>The dialog\<close>

text \<open>The state of the dialog. \<open>d_effect\<close> is the run of the loading effect that is still active,
  \<open>d_pending\<close> the previews under way: their number and the revision they are about, and whether
  the dialog was open when they started. \<open>d_shows\<close> is the revision whose preview is shown, and
  \<open>d_confirmed\<close> the revisions handed to \<open>onConfirm\<close>.\<close>

record dialog =
  d_open :: bool
  d_effect :: "nat option"
  d_next :: nat
  d_revisions :: "revision_info list"
  d_selected :: "int option"
  d_loading :: bool
  d_error :: "string option"
  d_request :: nat
  d_previewLoading :: bool
  d_previewOpen :: bool
  d_previewData :: "json option"
  d_previewError :: "string option"
  d_pending :: "(nat \<times> int \<times> bool) list"
  d_shows :: "int option"
  d_confirmed :: "int option list"

definition closed_dialog :: dialog where
  "closed_dialog = \<lparr>d_open = False, d_effect = None, d_next = 0, d_revisions = [], d_selected = None,
     d_loading = False, d_error = None, d_request = 0, d_previewLoading = False, d_previewOpen = False,
     d_previewData = None, d_previewError = None, d_pending = [], d_shows = None, d_confirmed = []\<rparr>"

definition clear_preview :: "dialog \<Rightarrow> dialog" where
  [state_defs]: "clear_preview d = d\<lparr>d_previewData := None, d_previewError := None, d_previewOpen := False, d_shows := None\<rparr>"

text \<open>Setting the selected revision runs the effect that clears the preview.\<close>

definition setSelected :: "int option \<Rightarrow> dialog \<Rightarrow> dialog" where
  [state_defs]: "setSelected n d = (if d_selected d = n then d else clear_preview (d\<lparr>d_selected := n\<rparr>))"

definition set_open :: "bool \<Rightarrow> dialog \<Rightarrow> dialog" where
  [state_defs]: "set_open b d =
    (if b then clear_preview (setSelected None (d\<lparr>d_open := True, d_effect := Some (d_next d),
       d_next := Suc (d_next d), d_loading := True, d_error := None\<rparr>))
     else clear_preview (d\<lparr>d_open := False, d_effect := None\<rparr>))"

definition noncurrent :: "revision_info list \<Rightarrow> revision_info list" where
  "noncurrent h = filter (\<lambda>r. \<not> isCurrent r) h"

definition history_loaded :: "nat \<Rightarrow> string + revision_info list \<Rightarrow> dialog \<Rightarrow> dialog" where
  [state_defs]: "history_loaded k res d =
    (if d_effect d \<noteq> Some k then d
     else case res of
       Inl e \<Rightarrow> d\<lparr>d_error := Some e, d_loading := False\<rparr>
     | Inr h \<Rightarrow> (let d1 = d\<lparr>d_revisions := h\<rparr>;
                     d2 = (if noncurrent h \<noteq> [] then setSelected (Some (revision (hd (noncurrent h)))) d1 else d1)
                 in d2\<lparr>d_loading := False\<rparr>))"

definition click_revision :: "revision_info \<Rightarrow> dialog \<Rightarrow> dialog" where
  [state_defs]: "click_revision r d = (if isCurrent r then d else setSelected (Some (revision r)) d)"

definition buttons_enabled :: "dialog \<Rightarrow> bool" where
  "buttons_enabled d \<longleftrightarrow> noncurrent (d_revisions d) \<noteq> [] \<and> d_selected d \<noteq> None \<and>
     \<not> d_loading d \<and> \<not> d_previewLoading d"

definition handlePreview :: "dialog \<Rightarrow> dialog" where
  [state_defs]: "handlePreview d =
    (case d_selected d of None \<Rightarrow> d
     | Some n \<Rightarrow> d\<lparr>d_request := Suc (d_request d), d_previewLoading := True, d_previewError := None,
         d_previewData := None, d_shows := None, d_pending := d_pending d @ [(Suc (d_request d), n, d_open d)]\<rparr>)"

definition preview_answered :: "nat \<times> int \<times> bool \<Rightarrow> rollback_result \<Rightarrow> dialog \<Rightarrow> dialog" where
  [state_defs]: "preview_answered p res d =
    (let (k, n, wasOpen) = p;
         d1 = (if k \<noteq> d_request d \<or> \<not> wasOpen then d
               else if success res \<and> jtruthy (dryRunResult res)
               then d\<lparr>d_previewData := dryRunResult res, d_previewOpen := True, d_shows := Some n\<rparr>
               else if \<not> success res then d\<lparr>d_previewError := Some (result_message res)\<rparr>
               else d\<lparr>d_previewError := Some ''Preview data not available''\<rparr>);
         d2 = (if k = d_request d1 then d1\<lparr>d_previewLoading := False\<rparr> else d1)
     in d2\<lparr>d_pending := removeAll p (d_pending d2)\<rparr>)"

text \<open>The button's \<open>onConfirm\<close> starts the action and closes the dialog.\<close>

definition handleConfirm :: "dialog \<Rightarrow> dialog" where
  [state_defs]: "handleConfirm d =
    set_open False (d\<lparr>d_request := Suc (d_request d), d_confirmed := d_confirmed d @ [d_selected d]\<rparr>)"

text \<open>What can happen to the dialog while the server's answer to a history request is \<open>h\<close>: a
  promise settles once, a list is only clickable when it is shown, a button only when it is
  enabled.\<close>

inductive dialog_trans :: "revision_info list \<Rightarrow> dialog \<Rightarrow> dialog \<Rightarrow> bool" for h where
  opened: "dialog_trans h d (set_open True d)"
| closed: "dialog_trans h d (set_open False d)"
| loaded: "d_loading d \<Longrightarrow> dialog_trans h d (history_loaded k (Inr h) d)"
| failed: "d_loading d \<Longrightarrow> dialog_trans h d (history_loaded k (Inl e) d)"
| clicked: "\<not> d_loading d \<Longrightarrow> d_error d = None \<Longrightarrow> r \<in> set (d_revisions d) \<Longrightarrow>
    dialog_trans h d (click_revision r d)"
| previewed: "buttons_enabled d \<Longrightarrow> dialog_trans h d (handlePreview d)"
| answered: "p \<in> set (d_pending d) \<Longrightarrow> dialog_trans h d (preview_answered p res d)"
| confirmed: "buttons_enabled d \<Longrightarrow> dialog_trans h d (handleConfirm d)"

text \<open>What is selected is a revision of the history that is offered, and so is all that was
  confirmed.\<close>

definition offered :: "revision_info list \<Rightarrow> int option \<Rightarrow> bool" where
  "offered h n \<longleftrightarrow> (case n of None \<Rightarrow> True | Some k \<Rightarrow> \<exists>r \<in> set h. \<not> isCurrent r \<and> revision r = k)"

definition dialog_inv :: "revision_info list \<Rightarrow> dialog \<Rightarrow> bool" where
  [inv_defs]: "dialog_inv h d \<longleftrightarrow> offered h (d_selected d) \<and>
     (d_revisions d = [] \<or> d_revisions d = h) \<and> (\<forall>n \<in> set (d_confirmed d). n \<noteq> None \<and> offered h n)"

lemma offered_None [simp]: "offered h None"
  by (simp add: offered_def)

lemma offered_first: "noncurrent h \<noteq> [] \<Longrightarrow> offered h (Some (revision (hd (noncurrent h))))"
  using hd_in_set [of "noncurrent h"] by (auto simp: offered_def noncurrent_def)

lemma clear_preview_frame [simp]:
  "d_selected (clear_preview d) = d_selected d" "d_revisions (clear_preview d) = d_revisions d"
  "d_confirmed (clear_preview d) = d_confirmed d"
  by (simp_all add: clear_preview_def)

lemma setSelected_frame [simp]:
  "d_selected (setSelected n d) = n" "d_revisions (setSelected n d) = d_revisions d"
  "d_confirmed (setSelected n d) = d_confirmed d"
  by (simp_all add: setSelected_def)

lemma set_open_frame [simp]:
  "d_selected (set_open b d) = (if b then None else d_selected d)" "d_revisions (set_open b d) = d_revisions d"
  "d_confirmed (set_open b d) = d_confirmed d"
  by (simp_all add: set_open_def)

lemma preview_frame [simp]:
  "d_selected (preview_answered p res d) = d_selected d"
  "d_revisions (preview_answered p res d) = d_revisions d"
  "d_confirmed (preview_answered p res d) = d_confirmed d"
  "d_selected (handlePreview d) = d_selected d" "d_revisions (handlePreview d) = d_revisions d"
  "d_confirmed (handlePreview d) = d_confirmed d"
  by (simp_all add: preview_answered_def handlePreview_def Let_def split: option.split prod.split)

lemma dialog_trans_inv: "dialog_trans h d d' \<Longrightarrow> dialog_inv h d \<Longrightarrow> dialog_inv h d'"
proof (induction rule: dialog_trans.induct)
  case (loaded d k)
  then show ?case by (auto simp: dialog_inv_def history_loaded_def Let_def offered_first)
next
  case (clicked d r)
  then show ?case by (auto simp: dialog_inv_def click_revision_def offered_def)
next
  case (confirmed d)
  then show ?case by (auto simp: dialog_inv_def handleConfirm_def buttons_enabled_def)
qed (auto simp: dialog_inv_def history_loaded_def)

interpretation rollback_dialog: machine "\<lambda>d. d = closed_dialog" "dialog_trans h" "dialog_inv h" for h
proof unfold_locales
  fix d d'
  show "d = closed_dialog \<Longrightarrow> dialog_inv h d" by (simp add: dialog_inv_def closed_dialog_def)
  show "dialog_inv h d \<Longrightarrow> dialog_trans h d d' \<Longrightarrow> dialog_inv h d'" by (rule dialog_trans_inv)
qed

section \<open>The interface of a rollbackable workload\<close>

text \<open>
  What the dialog relies on: the history it shows and the rollback it asks for. \<open>roll s n dry\<close>
  is the result of a rollback and the patches it sent. In a steady state, where the server
  takes the patch, every revision offered as not current can be rolled back to, the current
  one is refused without sending anything, and a rollback without a target goes to the first
  revision that is not current. Whatever the state, a rollback sends at most one patch, and
  exactly one when it succeeds.
\<close>

locale rollbackable =
  fixes history :: "'s \<Rightarrow> revision_info list"
    and roll :: "'s \<Rightarrow> int option \<Rightarrow> bool \<Rightarrow> rollback_result \<times> (string \<times> json) list"
    and steady :: "'s \<Rightarrow> bool"
  assumes newest_on_top: "sorted_wrt (\<lambda>a b. revision b \<le> revision a) (history s)"
    and offered_accepted: "steady s \<Longrightarrow> r \<in> set (history s) \<Longrightarrow> \<not> isCurrent r \<Longrightarrow>
      success (fst (roll s (Some (revision r)) dry)) \<and>
      previousRevision (fst (roll s (Some (revision r)) dry)) = Some (revision r)"
    and current_refused: "steady s \<Longrightarrow> r \<in> set (history s) \<Longrightarrow> isCurrent r \<Longrightarrow>
      \<not> success (fst (roll s (Some (revision r)) dry)) \<and> snd (roll s (Some (revision r)) dry) = []"
    and previous_first: "steady s \<Longrightarrow> noncurrent (history s) \<noteq> [] \<Longrightarrow>
      roll s None dry = roll s (Some (revision (hd (noncurrent (history s))))) dry"
    and one_patch: "length (snd (roll s n dry)) \<le> 1 \<and>
      (success (fst (roll s n dry)) \<longrightarrow> length (snd (roll s n dry)) = 1)"
begin

lemma offered_succeeds:
  "steady s \<Longrightarrow> offered (history s) (Some n) \<Longrightarrow>
   success (fst (roll s (Some n) dry)) \<and> previousRevision (fst (roll s (Some n) dry)) = Some n \<and>
   length (snd (roll s (Some n) dry)) = 1"
  using offered_accepted one_patch by (auto simp: offered_def)

text \<open>Whatever the user does in the dialog, what is confirmed is a rollback that works.\<close>

lemma confirmed_succeeds:
  assumes "steady s" and "(dialog_trans (history s))\<^sup>*\<^sup>* closed_dialog d" and "m \<in> set (d_confirmed d)"
  shows "\<exists>n. m = Some n \<and> success (fst (roll s (Some n) False)) \<and>
    previousRevision (fst (roll s (Some n) False)) = Some n"
proof -
  have "dialog_inv (history s) d" using rollback_dialog.reachable_inv [OF refl assms(2)] .
  with assms(3) obtain n where "m = Some n" "offered (history s) (Some n)"
    by (auto simp: dialog_inv_def)
  with offered_succeeds [OF assms(1)] show ?thesis by blast
qed

text \<open>The revision selected at first is where a rollback without a target goes.\<close>

lemma preselected_is_previous:
  assumes "steady s" and "noncurrent (history s) \<noteq> []"
  shows "roll s None dry = roll s (d_selected (history_loaded k (Inr (history s))
    (d\<lparr>d_effect := Some k\<rparr>))) dry"
  using assms previous_first by (simp add: history_loaded_def Let_def)

end

subsection \<open>Provided by deployments\<close>

definition no_cache :: rb_state where
  "no_cache = \<lparr>revisionHistoryCache = None, patches = []\<rparr>"

definition shown :: "(string + revision_info list) \<times> rb_state \<Rightarrow> revision_info list" where
  "shown r = (case fst r of Inl e \<Rightarrow> [] | Inr h \<Rightarrow> h)"

definition outcome :: "rollback_result \<times> rb_state \<Rightarrow> rollback_result \<times> (string \<times> json) list" where
  "outcome r = (fst r, patches (snd r))"

text \<open>A deployment with the replica sets of its namespace and the server's answer to the patch.\<close>

record deployment_view =
  dv_workload :: workload
  dv_listed :: "replica_set list"
  dv_answer :: "string + json"

definition dv_entries :: "deployment_view \<Rightarrow> (int \<times> replica_set) list" where
  "dv_entries v = newest_first (rs_entries (filter (\<lambda>rs. case rs_owners rs of None \<Rightarrow> False
     | Some os \<Rightarrow> list_ex (\<lambda>(k, u). k = ''Deployment'' \<and> u = wl_uid (dv_workload v)) os) (dv_listed v)))"

definition dv_history :: "deployment_view \<Rightarrow> revision_info list" where
  "dv_history v = shown (deployment_history (dv_workload v) (Inr (dv_listed v)) no_cache)"

definition dv_roll :: "deployment_view \<Rightarrow> int option \<Rightarrow> bool \<Rightarrow> rollback_result \<times> (string \<times> json) list" where
  "dv_roll v n dry = outcome (deployment_rollback (dv_workload v) (Inr (dv_listed v)) (dv_answer v) n dry no_cache)"

definition dv_steady :: "deployment_view \<Rightarrow> bool" where
  "dv_steady v \<longleftrightarrow> \<not> wl_paused (dv_workload v) \<and> (\<exists>j. dv_answer v = Inr j) \<and>
     distinct (map fst (dv_entries v)) \<and>
     (dv_entries v \<noteq> [] \<longrightarrow> wl_revision (dv_workload v) = Some (int_str (fst (hd (dv_entries v)))))"

lemma dv_history_entries: "dv_history v = map (deployment_info (dv_workload v)) (dv_entries v)"
  by (simp add: dv_history_def deployment_history_def cached_history_def getOwnedReplicaSets_def
      dv_entries_def shown_def no_cache_def)

lemma dv_roll_target:
  "dv_roll v n dry = (if wl_paused (dv_workload v) then (failure ''Cannot rollback a paused deployment'', [])
    else case find_target (dv_entries v) n of
      Inl m \<Rightarrow> (failure m, [])
    | Inr (k, rs) \<Rightarrow> outcome (send_patch (dv_workload v) ''deployments'' dry k
        (clean_template ''pod-template-hash'' (rs_template rs)) (dv_answer v) no_cache))"
  by (simp add: dv_roll_def deployment_rollback_def getOwnedReplicaSets_def dv_entries_def outcome_def
      no_cache_def split: sum.split prod.split)

lemma rs_entries_pos: "(n, rs) \<in> set (rs_entries rss) \<Longrightarrow> 0 < n"
  by (auto simp: rs_entries_def map_filter_def split: option.splits if_splits)

lemma int_str_inj: "0 < a \<Longrightarrow> 0 < b \<Longrightarrow> int_str a = int_str b \<longleftrightarrow> a = b"
proof -
  have "digits_of (nat a) = digits_of (nat b) \<Longrightarrow> nat a = nat b" by (metis dec_val_digits_of)
  then show "0 < a \<Longrightarrow> 0 < b \<Longrightarrow> int_str a = int_str b \<longleftrightarrow> a = b" by (auto simp: int_str_def)
qed

lemma int_str_nonempty [simp]: "int_str n \<noteq> []"
  by (simp add: int_str_def)

lemma send_patch_outcome:
  "outcome (send_patch wl p dry k t answer no_cache) =
    (case answer of Inl e \<Rightarrow> (failure (''Failed to rollback: '' @ e), [(patch_url wl p dry, t)])
     | Inr j \<Rightarrow> (\<lparr>success = True,
          result_message = (if dry then ''Dry-run: would rollback to revision '' @ int_str k
                     else ''Rolled back to revision '' @ int_str k),
          previousRevision = Some k, dryRunResult = (if dry then Some j else None)\<rparr>, [(patch_url wl p dry, t)]))"
  by (simp add: send_patch_def outcome_def no_cache_def split: sum.split)

text \<open>The first entry with another revision than the newest is the second one, and it is what
  asking for its revision and asking for none find.\<close>

lemma previous_target:
  assumes "distinct (map fst es)" and "filter (\<lambda>e. fst e \<noteq> fst (hd es)) es \<noteq> []"
    and "\<forall>e \<in> set es. 0 < fst e"
  shows "find_target es None = Inr (hd (filter (\<lambda>e. fst e \<noteq> fst (hd es)) es)) \<and>
    find_target es (Some (fst (hd (filter (\<lambda>e. fst e \<noteq> fst (hd es)) es)))) =
      Inr (hd (filter (\<lambda>e. fst e \<noteq> fst (hd es)) es))"
proof (cases es)
  case Nil
  with assms(2) show ?thesis by simp
next
  case (Cons x ys)
  with assms(2) obtain y zs where ys: "ys = y # zs" by (cases ys) auto
  with Cons assms(1,3) show ?thesis by (auto simp: find_target_def)
qed

lemma noncurrent_map:
  "noncurrent (map f es) = map f (filter (\<lambda>e. \<not> isCurrent (f e)) es)"
  by (induction es) (auto simp: noncurrent_def)

text \<open>What the three classes share: sorted entries, a target among them, and an attempt to patch.
  It gives the interface of the dialog.\<close>

locale target_rollback =
  fixes entries :: "'s \<Rightarrow> (int \<times> 'r) list"
    and info :: "'s \<Rightarrow> int \<times> 'r \<Rightarrow> revision_info"
    and roll :: "'s \<Rightarrow> int option \<Rightarrow> bool \<Rightarrow> rollback_result \<times> (string \<times> json) list"
    and attempt :: "'s \<Rightarrow> int \<times> 'r \<Rightarrow> bool \<Rightarrow> rollback_result \<times> (string \<times> json) list"
    and blocked :: "'s \<Rightarrow> bool"
    and steady :: "'s \<Rightarrow> bool"
  assumes entries_sorted: "sorted_wrt (\<lambda>a b. fst b \<le> fst a) (entries s)"
    and entries_pos: "e \<in> set (entries s) \<Longrightarrow> 0 < fst e"
    and info_revision: "revision (info s e) = fst e"
    and roll_target: "\<not> blocked s \<Longrightarrow> roll s n dry =
      (case find_target (entries s) n of Inl m \<Rightarrow> (failure m, []) | Inr e \<Rightarrow> attempt s e dry)"
    and roll_blocked: "blocked s \<Longrightarrow> \<exists>m. roll s n dry = (failure m, [])"
    and attempt_patch: "length (snd (attempt s e dry)) \<le> 1 \<and>
      (success (fst (attempt s e dry)) \<longrightarrow> length (snd (attempt s e dry)) = 1)"
    and steady_entries: "steady s \<Longrightarrow> \<not> blocked s \<and> distinct (map fst (entries s))"
    and steady_current: "steady s \<Longrightarrow> e \<in> set (entries s) \<Longrightarrow>
      isCurrent (info s e) \<longleftrightarrow> fst e = fst (hd (entries s))"
    and steady_attempt: "steady s \<Longrightarrow> e \<in> set (entries s) \<Longrightarrow>
      success (fst (attempt s e dry)) \<and> previousRevision (fst (attempt s e dry)) = Some (fst e)"
begin

lemma find_entry:
  assumes "steady s" and "e \<in> set (entries s)"
  shows "find_target (entries s) (Some (fst e)) =
    (if fst e = fst (hd (entries s)) then Inl ''Cannot rollback to current revision'' else Inr e)"
proof -
  have "find (\<lambda>x. fst x = fst e) (entries s) = Some e"
  proof (cases "find (\<lambda>x. fst x = fst e) (entries s)")
    case None
    then have "\<not> (\<exists>x. x \<in> set (entries s) \<and> fst x = fst e)" by (simp only: find_None_iff not_False_eq_True)
    with assms(2) show ?thesis by blast
  next
    case (Some x)
    then have "x \<in> set (entries s)" "fst x = fst e" by (auto dest: find_in_set)
    with assms steady_entries have "x = e" by (auto simp: distinct_map dest: inj_onD)
    with Some show ?thesis by simp
  qed
  with assms(2) entries_pos show ?thesis by (simp add: find_target_def)
qed

lemma steady_noncurrent:
  "steady s \<Longrightarrow> noncurrent (map (info s) (entries s)) =
    map (info s) (filter (\<lambda>e. fst e \<noteq> fst (hd (entries s))) (entries s))"
  unfolding noncurrent_map by (rule arg_cong [where f = "map (info s)"]) (simp add: steady_current cong: filter_cong)

end

sublocale target_rollback \<subseteq> rollbackable "\<lambda>s. map (info s) (entries s)" roll steady
proof unfold_locales
  fix s n dry and r :: revision_info
  show "sorted_wrt (\<lambda>a b. revision b \<le> revision a) (map (info s) (entries s))"
    using entries_sorted by (simp add: sorted_wrt_map info_revision)
  show "length (snd (roll s n dry)) \<le> 1 \<and> (success (fst (roll s n dry)) \<longrightarrow> length (snd (roll s n dry)) = 1)"
  proof (cases "blocked s")
    case True
    then show ?thesis using roll_blocked [of s n dry] by (auto simp: failure_def)
  next
    case False
    then show ?thesis using attempt_patch
      by (cases "find_target (entries s) n") (simp_all add: roll_target failure_def)
  qed
  assume st: "steady s"
  then have nb: "\<not> blocked s" using steady_entries by blast
  { assume "r \<in> set (map (info s) (entries s))" and cur: "\<not> isCurrent r"
    then obtain e where e: "e \<in> set (entries s)" "r = info s e" by auto
    with st cur have "fst e \<noteq> fst (hd (entries s))" by (simp add: steady_current)
    with st e nb show "success (fst (roll s (Some (revision r)) dry)) \<and>
        previousRevision (fst (roll s (Some (revision r)) dry)) = Some (revision r)"
      by (simp add: roll_target info_revision find_entry steady_attempt) }
  { assume "r \<in> set (map (info s) (entries s))" and cur: "isCurrent r"
    then obtain e where e: "e \<in> set (entries s)" "r = info s e" by auto
    with st cur have "fst e = fst (hd (entries s))" by (simp add: steady_current)
    with st e nb show "\<not> success (fst (roll s (Some (revision r)) dry)) \<and> snd (roll s (Some (revision r)) dry) = []"
      using find_entry [OF st e(1)] by (simp add: roll_target info_revision failure_def) }
  assume ne: "noncurrent (map (info s) (entries s)) \<noteq> []"
  let ?f = "filter (\<lambda>e. fst e \<noteq> fst (hd (entries s))) (entries s)"
  from ne have f: "?f \<noteq> []" unfolding steady_noncurrent [OF st] by simp
  have "find_target (entries s) None = find_target (entries s) (Some (fst (hd ?f)))"
    using previous_target [OF _ f] st steady_entries entries_pos by simp
  moreover have "revision (hd (noncurrent (map (info s) (entries s)))) = fst (hd ?f)"
    unfolding steady_noncurrent [OF st] using f by (simp add: hd_map info_revision)
  ultimately show "roll s None dry = roll s (Some (revision (hd (noncurrent (map (info s) (entries s)))))) dry"
    using nb by (simp add: roll_target)
qed

interpretation deployments: target_rollback dv_entries "\<lambda>v. deployment_info (dv_workload v)" dv_roll
  "\<lambda>v e dry. outcome (send_patch (dv_workload v) ''deployments'' dry (fst e)
     (clean_template ''pod-template-hash'' (rs_template (snd e))) (dv_answer v) no_cache)"
  "\<lambda>v. wl_paused (dv_workload v)" dv_steady
proof unfold_locales
  fix v n dry and e :: "int \<times> replica_set"
  show "sorted_wrt (\<lambda>a b. fst b \<le> fst a) (dv_entries v)"
    unfolding dv_entries_def by (rule newest_first_sorted)
  show "revision (deployment_info (dv_workload v) e) = fst e"
    by (simp add: deployment_info_def split: prod.split)
  show "\<not> wl_paused (dv_workload v) \<Longrightarrow> dv_roll v n dry = (case find_target (dv_entries v) n of
      Inl m \<Rightarrow> (failure m, [])
    | Inr e \<Rightarrow> outcome (send_patch (dv_workload v) ''deployments'' dry (fst e)
        (clean_template ''pod-template-hash'' (rs_template (snd e))) (dv_answer v) no_cache))"
    by (simp add: dv_roll_target split: sum.split prod.split)
  show "wl_paused (dv_workload v) \<Longrightarrow> \<exists>m. dv_roll v n dry = (failure m, [])"
    by (auto simp: dv_roll_target)
  show pos: "e \<in> set (dv_entries v) \<Longrightarrow> 0 < fst e" for e
    by (cases e) (auto simp: dv_entries_def dest: rs_entries_pos)
  show "dv_steady v \<Longrightarrow> \<not> wl_paused (dv_workload v) \<and> distinct (map fst (dv_entries v))"
    by (simp add: dv_steady_def)
  assume st: "dv_steady v" and e: "e \<in> set (dv_entries v)"
  then have ne: "dv_entries v \<noteq> []" by auto
  then have "hd (dv_entries v) \<in> set (dv_entries v)" by simp
  then have "0 < fst (hd (dv_entries v))" by (rule pos)
  moreover from st ne have "deployment_currentRevision (dv_workload v) = int_str (fst (hd (dv_entries v)))"
    by (simp add: dv_steady_def deployment_currentRevision_def)
  ultimately show "isCurrent (deployment_info (dv_workload v) e) \<longleftrightarrow> fst e = fst (hd (dv_entries v))"
    using pos [OF e] by (cases e) (simp add: deployment_info_def int_str_inj)
qed (auto simp: send_patch_outcome failure_def dv_steady_def split: sum.split)

subsection \<open>Provided by daemon sets and stateful sets\<close>

record controller_view =
  cv_plural :: string
  cv_workload :: workload
  cv_listed :: "controller_revision list"
  cv_answer :: "string + json"

definition cv_entries :: "controller_view \<Rightarrow> (int \<times> controller_revision) list" where
  "cv_entries v = newest_first (cr_entries (filter
     (\<lambda>r. list_ex (\<lambda>u. u = wl_uid (cv_workload v)) (case cr_owners r of None \<Rightarrow> [] | Some os \<Rightarrow> os)) (cv_listed v)))"

definition cv_highest :: "controller_view \<Rightarrow> int" where
  "cv_highest v = (if cv_entries v \<noteq> [] then fst (hd (cv_entries v)) else 0)"

definition cv_history :: "controller_view \<Rightarrow> revision_info list" where
  "cv_history v = shown (controller_history (cv_workload v) (Inr (cv_listed v)) no_cache)"

definition cv_roll :: "controller_view \<Rightarrow> int option \<Rightarrow> bool \<Rightarrow> rollback_result \<times> (string \<times> json) list" where
  "cv_roll v n dry =
    outcome (controller_rollback (cv_plural v) (cv_workload v) (Inr (cv_listed v)) (cv_answer v) n dry no_cache)"

definition cv_attempt :: "controller_view \<Rightarrow> int \<times> controller_revision \<Rightarrow> bool \<Rightarrow> rollback_result \<times> (string \<times> json) list" where
  "cv_attempt v e dry =
    (if \<not> jtruthy (cr_template (snd e)) then (failure ''Target revision does not contain a valid pod template'', [])
     else outcome (send_patch (cv_workload v) (cv_plural v) dry (fst e)
        (clean_template ''controller-revision-hash'' (the (cr_template (snd e)))) (cv_answer v) no_cache))"

definition cv_steady :: "controller_view \<Rightarrow> bool" where
  "cv_steady v \<longleftrightarrow> (\<exists>j. cv_answer v = Inr j) \<and> distinct (map fst (cv_entries v)) \<and>
     (\<forall>e \<in> set (cv_entries v). jtruthy (cr_template (snd e)))"

lemma cv_history_entries: "cv_history v = map (controller_info (cv_highest v)) (cv_entries v)"
  by (simp add: cv_history_def controller_history_def cached_history_def getOwnedControllerRevisions_def
      cv_entries_def cv_highest_def shown_def no_cache_def Let_def)

lemma cv_roll_target:
  "cv_roll v n dry = (case find_target (cv_entries v) n of Inl m \<Rightarrow> (failure m, []) | Inr e \<Rightarrow> cv_attempt v e dry)"
  by (simp add: cv_roll_def controller_rollback_def getOwnedControllerRevisions_def cv_entries_def outcome_def
      cv_attempt_def no_cache_def split: sum.split prod.split)

lemma cr_entries_pos: "(n, r) \<in> set (cr_entries rs) \<Longrightarrow> 0 < n"
  by (auto simp: cr_entries_def map_filter_def split: option.splits if_splits)

interpretation controllers: target_rollback cv_entries "\<lambda>v. controller_info (cv_highest v)" cv_roll
  cv_attempt "\<lambda>v. False" cv_steady
proof unfold_locales
  fix v n dry and e :: "int \<times> controller_revision"
  show "sorted_wrt (\<lambda>a b. fst b \<le> fst a) (cv_entries v)"
    unfolding cv_entries_def by (rule newest_first_sorted)
  show "revision (controller_info (cv_highest v) e) = fst e"
    by (simp add: controller_info_def split: prod.split)
  show "cv_roll v n dry = (case find_target (cv_entries v) n of Inl m \<Rightarrow> (failure m, []) | Inr e \<Rightarrow> cv_attempt v e dry)"
    by (rule cv_roll_target)
  show "e \<in> set (cv_entries v) \<Longrightarrow> 0 < fst e"
    by (cases e) (auto simp: cv_entries_def dest: cr_entries_pos)
  show "cv_steady v \<Longrightarrow> \<not> False \<and> distinct (map fst (cv_entries v))"
    by (simp add: cv_steady_def)
  show "e \<in> set (cv_entries v) \<Longrightarrow>
      isCurrent (controller_info (cv_highest v) e) \<longleftrightarrow> fst e = fst (hd (cv_entries v))"
    by (auto simp: controller_info_def cv_highest_def split: prod.split)
qed (auto simp: cv_attempt_def send_patch_outcome failure_def cv_steady_def split: sum.split)

section \<open>Properties\<close>

text \<open>The replica set that a rollback goes to, and what it must never send: the hash label of the
  old pods.\<close>

definition label_of :: "string \<Rightarrow> json \<Rightarrow> json option" where
  "label_of k t = jget k (jget ''labels'' (jget ''metadata'' (Some t)))"

lemma jget_on_field: "jget k (Some (on_field k f t)) = map_option f (jget k (Some t))"
proof (cases t)
  case (JObj fs)
  have "map_of (map (\<lambda>(n, v). (n, if n = k then f v else v)) fs) k = map_option f (map_of fs k)"
    by (induction fs) auto
  with JObj show ?thesis by (simp add: jget_def)
qed (simp_all add: jget_def)

lemma jget_on_other: "j \<noteq> k \<Longrightarrow> jget j (Some (on_field k f t)) = jget j (Some t)"
proof (cases t)
  case (JObj fs)
  assume "j \<noteq> k"
  then have "map_of (map (\<lambda>(n, v). (n, if n = k then f v else v)) fs) j = map_of fs j"
    by (induction fs) auto
  with JObj show ?thesis by (simp add: jget_def)
qed (simp_all add: jget_def)

lemma map_of_filter_other: "map_of (filter (\<lambda>(n, v). n \<noteq> k) fs) j = (if j = k then None else map_of fs j)"
  by (induction fs) auto

lemma jget_delete: "jget j (Some (delete_field k t)) =
    (if j = k \<and> jtruthy (jget k (Some t)) then None else jget j (Some t))"
  by (cases t) (simp_all add: jget_def map_of_filter_other)

lemma jget_map: "jget k (map_option (on_field j f) t) = (if k = j then map_option f (jget k t) else jget k t)"
  by (cases t) (simp_all add: jget_on_field jget_on_other jget_def [of _ None])

lemma clean_label: "label_of j (clean_template h t) =
    (if j = h \<and> jtruthy (label_of h t) then None else label_of j t)"
proof -
  have "label_of j (clean_template h t) =
      jget j (map_option (delete_field h) (jget ''labels'' (jget ''metadata'' (Some t))))"
    by (simp add: label_of_def clean_template_def jget_on_field jget_map)
  then show ?thesis
    by (cases "jget ''labels'' (jget ''metadata'' (Some t))") (simp_all add: label_of_def jget_delete jget_def [of _ None])
qed

text \<open>A successful rollback of a deployment sent exactly one patch, and nothing else: it
  replaces the template by the one of an owned replica set whose revision is the one asked
  for, or is not above the newest when none was asked for; the hash label is not sent while
  all other labels are; and unless it was a dry run the next history is read afresh.\<close>

theorem deployment_rollback_spec:
  assumes "deployment_rollback wl listed answer to dry s = (res, s')" and "success res"
  shows "\<exists>owned n rs. getOwnedReplicaSets wl listed = Inr owned \<and> (n, rs) \<in> set (rs_entries owned) \<and>
    previousRevision res = Some n \<and> \<not> wl_paused wl \<and>
    (case to of Some k \<Rightarrow> (if 0 < k then n = k \<and> n \<noteq> fst (hd (newest_first (rs_entries owned)))
                            else (n, rs) = newest_first (rs_entries owned) ! 1)
     | None \<Rightarrow> (n, rs) = newest_first (rs_entries owned) ! 1) \<and>
    patches s' = patches s @ [(patch_url wl ''deployments'' dry,
      clean_template ''pod-template-hash'' (rs_template rs))] \<and>
    (\<forall>l. label_of l (clean_template ''pod-template-hash'' (rs_template rs)) =
      (if l = ''pod-template-hash'' \<and> jtruthy (label_of l (rs_template rs)) then None
       else label_of l (rs_template rs))) \<and>
    revisionHistoryCache s' = (if dry then revisionHistoryCache s else None)"
proof -
  have np: "\<not> wl_paused wl" using assms by (auto simp: deployment_rollback_def failure_def)
  obtain owned where o: "getOwnedReplicaSets wl listed = Inr owned"
    using assms np by (cases "getOwnedReplicaSets wl listed") (auto simp: deployment_rollback_def failure_def)
  obtain n rs where t: "find_target (newest_first (rs_entries owned)) to = Inr (n, rs)"
    using assms np o
    by (cases "find_target (newest_first (rs_entries owned)) to") (auto simp: deployment_rollback_def failure_def)
  have sp: "send_patch wl ''deployments'' dry n (clean_template ''pod-template-hash'' (rs_template rs)) answer s = (res, s')"
    using assms np o t by (simp add: deployment_rollback_def)
  obtain j where "answer = Inr j"
    using sp assms(2) by (cases answer) (auto simp: send_patch_def failure_def)
  with sp have "previousRevision res = Some n" "patches s' = patches s @ [(patch_url wl ''deployments'' dry,
      clean_template ''pod-template-hash'' (rs_template rs))]"
    "revisionHistoryCache s' = (if dry then revisionHistoryCache s else None)"
    by (auto simp: send_patch_def Let_def)
  moreover have "(n, rs) \<in> set (rs_entries owned)"
    using find_target_Inr(1) [OF t] by simp
  moreover have "case to of Some k \<Rightarrow> (if 0 < k then n = k \<and> n \<noteq> fst (hd (newest_first (rs_entries owned)))
        else (n, rs) = newest_first (rs_entries owned) ! 1)
     | None \<Rightarrow> (n, rs) = newest_first (rs_entries owned) ! 1"
    using find_target_Inr(2,3) [OF t] by (auto split: option.split)
  moreover have "\<forall>l. label_of l (clean_template ''pod-template-hash'' (rs_template rs)) =
      (if l = ''pod-template-hash'' \<and> jtruthy (label_of l (rs_template rs)) then None
       else label_of l (rs_template rs))"
    by (simp add: clean_label)
  ultimately show ?thesis using np o
    by (intro exI [of _ owned] exI [of _ n] exI [of _ rs] conjI) assumption+
qed

definition a_template :: "string \<Rightarrow> json" where
  "a_template i = JObj [(''metadata'', JObj [(''labels'', JObj [(''app'', JStr ''web''), (''pod-template-hash'', JStr ''abc'')])]),
     (''spec'', JObj [(''containers'', JArr [JObj [(''image'', JStr i)]])])]"

definition a_workload :: workload where
  "a_workload = \<lparr>wl_uid = ''u'', wl_namespace = ''shop'', wl_name = ''web'', wl_version = Some ''7'', wl_paused = False,
     wl_revision = Some ''12'', wl_generation = None, wl_observed = None, wl_labels = None\<rparr>"

definition some_sets :: "replica_set list" where
  "some_sets = map (\<lambda>(r, i). \<lparr>rs_owners = Some [(''Deployment'', ''u'')], rs_revision = Some r, rs_created = None,
     rs_template = a_template i\<rparr>) [(''9'', ''web:1''), (''12'', ''web:3''), (''10'', ''web:2'')]"

definition a_deployment :: deployment_view where
  "a_deployment = \<lparr>dv_workload = a_workload, dv_listed = some_sets, dv_answer = Inr JNull\<rparr>"

theorem deployment_rollback_spec_witness:
  "\<exists>rs :: replica_set. snd (deployment_rollback a_workload (Inr some_sets) (Inr JNull) None False no_cache) =
     no_cache\<lparr>patches := [(''/apis/apps/v1/namespaces/shop/deployments/web'',
        clean_template ''pod-template-hash'' (rs_template rs))]\<rparr> \<and> rs_revision rs = Some ''10''"
proof -
  obtain res s' where r: "deployment_rollback a_workload (Inr some_sets) (Inr JNull) None False no_cache = (res, s')"
    by (cases "deployment_rollback a_workload (Inr some_sets) (Inr JNull) None False no_cache")
  have "success (fst (deployment_rollback a_workload (Inr some_sets) (Inr JNull) None False no_cache))"
    by code_simp
  then have "success res" by (simp add: r)
  from deployment_rollback_spec [OF r this] obtain owned n rs where
    o: "getOwnedReplicaSets a_workload (Inr some_sets) = Inr owned"
    and n: "(n, rs) = newest_first (rs_entries owned) ! 1"
    and p: "patches s' = patches no_cache @ [(patch_url a_workload ''deployments'' False,
      clean_template ''pod-template-hash'' (rs_template rs))]"
    and c: "revisionHistoryCache s' = None" by auto
  have "getOwnedReplicaSets a_workload (Inr some_sets) = Inr some_sets" by code_simp
  with o have "owned = some_sets" by simp
  have "map_option rs_revision (Some (snd (newest_first (rs_entries some_sets) ! 1))) = Some (Some ''10'')" by code_simp
  then have "rs_revision rs = Some ''10''" using n \<open>owned = some_sets\<close> by (metis option.map(2) option.inject snd_conv)
  moreover have "patch_url a_workload ''deployments'' False = ''/apis/apps/v1/namespaces/shop/deployments/web''"
    by code_simp
  moreover have "s' = no_cache\<lparr>patches := [(patch_url a_workload ''deployments'' False,
      clean_template ''pod-template-hash'' (rs_template rs))]\<rparr>"
    using p c by (cases s') (simp add: no_cache_def)
  ultimately show ?thesis using r by (intro exI [of _ rs]) simp
qed

text \<open>C12: Whatever the user does in the dialog of a deployment, what gets confirmed is a revision
  to which the rollback succeeds: as long as the annotation of the deployment names its newest
  replica set, it is not paused and the server takes the patch. The same holds for daemon sets
  and stateful sets whose revisions have templates.\<close>

theorem dialog_confirms_working_rollbacks:
  "(dv_steady v \<and> (dialog_trans (dv_history v))\<^sup>*\<^sup>* closed_dialog d \<and> m \<in> set (d_confirmed d) \<longrightarrow>
     (\<exists>n. m = Some n \<and> success (fst (dv_roll v (Some n) False)) \<and>
        previousRevision (fst (dv_roll v (Some n) False)) = Some n)) \<and>
   (cv_steady w \<and> (dialog_trans (cv_history w))\<^sup>*\<^sup>* closed_dialog d \<and> m \<in> set (d_confirmed d) \<longrightarrow>
     (\<exists>n. m = Some n \<and> success (fst (cv_roll w (Some n) False)) \<and>
        previousRevision (fst (cv_roll w (Some n) False)) = Some n))"
  unfolding dv_history_entries cv_history_entries
  using deployments.confirmed_succeeds controllers.confirmed_succeeds by blast

lemma a_deployment_steady: "dv_steady a_deployment"
proof -
  have "\<not> wl_paused (dv_workload a_deployment)" "dv_answer a_deployment = Inr JNull"
    "distinct (map fst (dv_entries a_deployment))"
    "wl_revision (dv_workload a_deployment) = Some (int_str (fst (hd (dv_entries a_deployment))))"
    by code_simp+
  then show ?thesis by (simp add: dv_steady_def)
qed

definition confirmed_dialog :: dialog where
  "confirmed_dialog = handleConfirm (history_loaded 0 (Inr (dv_history a_deployment)) (set_open True closed_dialog))"

lemma confirmed_dialog_reachable: "(dialog_trans (dv_history a_deployment))\<^sup>*\<^sup>* closed_dialog confirmed_dialog"
proof -
  let ?o = "set_open True closed_dialog"
  let ?l = "history_loaded 0 (Inr (dv_history a_deployment)) ?o"
  have "dialog_trans (dv_history a_deployment) closed_dialog ?o" by (rule opened)
  moreover have "d_loading ?o" by code_simp
  then have "dialog_trans (dv_history a_deployment) ?o ?l" by (rule loaded)
  moreover have "buttons_enabled ?l" by code_simp
  then have "dialog_trans (dv_history a_deployment) ?l confirmed_dialog"
    unfolding confirmed_dialog_def by (rule confirmed)
  ultimately show ?thesis by (meson rtranclp.rtrancl_into_rtrancl rtranclp.rtrancl_refl)
qed

theorem dialog_confirms_working_rollbacks_witness:
  "success (fst (dv_roll a_deployment (Some 10) False))"
proof -
  have "Some 10 \<in> set (d_confirmed confirmed_dialog)" by code_simp
  with dialog_confirms_working_rollbacks [of a_deployment confirmed_dialog "Some 10"]
    a_deployment_steady confirmed_dialog_reachable
  show ?thesis by blast
qed

text \<open>In a steady state the revision that the dialog preselects is where a rollback without a
  target goes; the revisions are shown newest first; and the current one is refused without
  sending anything.\<close>

theorem preselection_is_the_previous_revision:
  assumes "dv_steady v"
  shows "sorted_wrt (\<lambda>a b. revision b \<le> revision a) (dv_history v) \<and>
    (\<forall>r \<in> set (dv_history v). isCurrent r \<longrightarrow> snd (dv_roll v (Some (revision r)) dry) = []) \<and>
    (noncurrent (dv_history v) \<noteq> [] \<longrightarrow>
      dv_roll v None dry = dv_roll v (d_selected (history_loaded k (Inr (dv_history v)) (d\<lparr>d_effect := Some k\<rparr>))) dry)"
  unfolding dv_history_entries
  using assms deployments.newest_on_top deployments.current_refused deployments.preselected_is_previous by blast

theorem preselection_is_the_previous_revision_witness:
  "map revision (dv_history a_deployment) = [12, 10, 9] \<and>
   dv_roll a_deployment None True = dv_roll a_deployment (Some 10) True"
proof -
  have "noncurrent (dv_history a_deployment) \<noteq> []"
    "d_selected (history_loaded 0 (Inr (dv_history a_deployment)) (closed_dialog\<lparr>d_effect := Some 0\<rparr>)) = Some 10"
    "map revision (dv_history a_deployment) = [12, 10, 9]"
    by code_simp+
  with preselection_is_the_previous_revision [OF a_deployment_steady, of True 0 closed_dialog]
  show ?thesis by simp
qed

text \<open>A preview under way is not dropped when another revision is selected or when the dialog
  is closed: the preview window can show one revision while another one is selected, and it can
  open after the dialog was closed.\<close>

theorem preview_of_another_revision:
  "\<exists>d d'. (dialog_trans (dv_history a_deployment))\<^sup>*\<^sup>* closed_dialog d \<and>
    d_previewOpen d \<and> d_shows d = Some 10 \<and> d_selected d = Some 9 \<and>
    (dialog_trans (dv_history a_deployment))\<^sup>*\<^sup>* closed_dialog d' \<and> d_previewOpen d' \<and> \<not> d_open d'"
proof -
  let ?h = "dv_history a_deployment"
  let ?ok = "\<lparr>success = True, result_message = [], previousRevision = Some 10, dryRunResult = Some (JBool True)\<rparr>"
  let ?l = "history_loaded 0 (Inr ?h) (set_open True closed_dialog)"
  let ?p = "handlePreview ?l"
  let ?c = "click_revision (last ?h) ?p"
  have "d_loading (set_open True closed_dialog)" by code_simp
  then have l: "(dialog_trans ?h)\<^sup>*\<^sup>* closed_dialog ?l"
    using opened [of ?h closed_dialog] loaded [of "set_open True closed_dialog" ?h 0] by auto
  have "buttons_enabled ?l" by code_simp
  with l have p: "(dialog_trans ?h)\<^sup>*\<^sup>* closed_dialog ?p" using previewed by (meson rtranclp.rtrancl_into_rtrancl)
  have "\<not> d_loading ?p" "d_error ?p = None" "list_ex (\<lambda>r. r = last ?h) (d_revisions ?p)" by code_simp+
  then have "dialog_trans ?h ?p ?c" by (intro clicked) (auto simp: list_ex_iff)
  with p have c: "(dialog_trans ?h)\<^sup>*\<^sup>* closed_dialog ?c" by (rule rtranclp.rtrancl_into_rtrancl)
  have "list_ex (\<lambda>q. q = (1, 10, True)) (d_pending ?c)" by code_simp
  then have "dialog_trans ?h ?c (preview_answered (1, 10, True) ?ok ?c)"
    by (intro answered) (auto simp: list_ex_iff)
  with c have one: "(dialog_trans ?h)\<^sup>*\<^sup>* closed_dialog (preview_answered (1, 10, True) ?ok ?c)"
    by (rule rtranclp.rtrancl_into_rtrancl)
  let ?x = "set_open False ?p"
  have x: "(dialog_trans ?h)\<^sup>*\<^sup>* closed_dialog ?x" using p closed by (meson rtranclp.rtrancl_into_rtrancl)
  have "list_ex (\<lambda>q. q = (1, 10, True)) (d_pending ?x)" by code_simp
  then have "dialog_trans ?h ?x (preview_answered (1, 10, True) ?ok ?x)"
    by (intro answered) (auto simp: list_ex_iff)
  with x have two: "(dialog_trans ?h)\<^sup>*\<^sup>* closed_dialog (preview_answered (1, 10, True) ?ok ?x)"
    by (rule rtranclp.rtrancl_into_rtrancl)
  have "d_previewOpen (preview_answered (1, 10, True) ?ok ?c)" "d_shows (preview_answered (1, 10, True) ?ok ?c) = Some 10"
    "d_selected (preview_answered (1, 10, True) ?ok ?c) = Some 9"
    "d_previewOpen (preview_answered (1, 10, True) ?ok ?x)" "\<not> d_open (preview_answered (1, 10, True) ?ok ?x)"
    by code_simp+
  with one two show ?thesis by blast
qed

end
