(* ===== verification/Stateless.thy ===== *)
theory Stateless
  imports JsPrelude
begin

text \<open>
  The kubeconfigs that a user keeps in the browser (stateless clusters),
  \<^verbatim>\<open>frontend/src/stateless/\<close>: the store in IndexedDB, looking a cluster up by name, renaming
  and deleting a context, replacing a kubeconfig, the comparison of configurations and the
  user's id.

  The store is the list of its rows in the order of their keys, which is the order a cursor
  visits them in. A transaction runs to its end before the next one on the same store, so each
  operation is a function on the rows. Reading a row means base 64 decoding and the package
  js-yaml, writing means the converse: the parameters \<open>load\<close> and \<open>dump\<close>, with \<open>load\<close> being
  \<open>None\<close> on a text on which decoding, parsing or reading the contexts throws. The exception
  is then thrown in the handler of a cursor event, where nothing catches it: the promise of the
  operation is never settled.
\<close>

section \<open>Kubeconfigs\<close>

record kcontext =
  cx_name :: string
  cx_cluster :: string
  cx_user :: string
  cx_clusterID :: "string option"
  cx_source :: "string option"
  cx_extensions :: "(string \<times> string option) list option"

record kubeconfig =
  kc_contexts :: "kcontext list"
  kc_clusters :: "(string \<times> json) list option"
  kc_users :: "(string \<times> json) list option"
  kc_current :: "string option"

text \<open>The custom name in the extension \<open>headlamp_info\<close> of a context.\<close>

definition custom_name :: "kcontext \<Rightarrow> string option" where
  "custom_name c = (case cx_extensions c of None \<Rightarrow> None
     | Some es \<Rightarrow> (case find (\<lambda>e. fst e = ''headlamp_info'') es of None \<Rightarrow> None | Some e \<Rightarrow> snd e))"

definition context_matches :: "string \<Rightarrow> kcontext \<Rightarrow> bool" where
  "context_matches n c \<longleftrightarrow> cx_name c = n \<or> custom_name c = Some n"

text \<open>The pair of \<open>matchingKubeconfig\<close> and \<open>matchingContext\<close>.\<close>

definition findMatchingContexts ::
  "string \<Rightarrow> kubeconfig \<Rightarrow> string option \<Rightarrow> kcontext option \<times> kcontext option" where
  "findMatchingContexts n k clusterID =
    (if truthy clusterID
     then (let c = find (\<lambda>c. cx_clusterID c = clusterID) (kc_contexts k)
           in if Option.bind c cx_source = Some ''kubeconfig'' then (c, None) else (None, None))
     else (find (\<lambda>c. cx_name c = n) (kc_contexts k), find (context_matches n) (kc_contexts k)))"

definition is_match :: "string \<Rightarrow> string option \<Rightarrow> kubeconfig \<Rightarrow> bool" where
  "is_match n cid k \<longleftrightarrow> fst (findMatchingContexts n k cid) \<noteq> None \<or> snd (findMatchingContexts n k cid) \<noteq> None"

section \<open>The store\<close>

record 't kc_store =
  rows :: "(nat \<times> 't) list"
  next_key :: nat

datatype 'a settled = Resolved 'a | Rejected_With string | Never

definition storeStatelessClusterKubeconfig :: "'t \<Rightarrow> 't kc_store \<Rightarrow> 't kc_store" where
  [state_defs]: "storeStatelessClusterKubeconfig t s =
    s\<lparr>rows := rows s @ [(next_key s, t)], next_key := Suc (next_key s)\<rparr>"

definition getStatelessClusterKubeConfigs :: "'t kc_store \<Rightarrow> 't list" where
  "getStatelessClusterKubeConfigs s = map snd (rows s)"

fun find_row :: "('t \<Rightarrow> kubeconfig option) \<Rightarrow> string \<Rightarrow> string option \<Rightarrow> (nat \<times> 't) list \<Rightarrow> 't option settled" where
  "find_row load n cid [] = Resolved None"
| "find_row load n cid ((i, t) # rs) =
     (case load t of
        None \<Rightarrow> Never
      | Some k \<Rightarrow> if is_match n cid k then Resolved (Some t) else find_row load n cid rs)"

definition findKubeconfigByClusterName ::
  "('t \<Rightarrow> kubeconfig option) \<Rightarrow> string \<Rightarrow> string option \<Rightarrow> 't kc_store \<Rightarrow> 't option settled" where
  "findKubeconfigByClusterName load n cid s = find_row load n cid (rows s)"

section \<open>Deleting a context\<close>

definition match_name :: "kcontext option \<times> kcontext option \<Rightarrow> string option" where
  "match_name m = (case snd m of Some c \<Rightarrow> Some (cx_name c) | None \<Rightarrow> map_option cx_name (fst m))"

definition remaining_refs :: "kcontext list \<Rightarrow> string list" where
  "remaining_refs cs = concat (map (\<lambda>c. (if cx_cluster c \<noteq> [] then [cx_cluster c] else []) @
     (if cx_user c \<noteq> [] then [cx_user c] else [])) cs)"

definition remove_context :: "string option \<Rightarrow> kubeconfig \<Rightarrow> kubeconfig" where
  "remove_context n k =
    (let cs = filter (\<lambda>c. Some (cx_name c) \<noteq> n) (kc_contexts k);
         k1 = k\<lparr>kc_contexts := cs\<rparr>;
         k2 = (if kc_current k = n
               then k1\<lparr>kc_current := (if cs \<noteq> [] \<and> cx_name (hd cs) \<noteq> [] then Some (cx_name (hd cs)) else None)\<rparr>
               else k1);
         refs = remaining_refs cs
     in k2\<lparr>kc_clusters := map_option (filter (\<lambda>c. fst c \<in> set refs)) (kc_clusters k2),
           kc_users := map_option (filter (\<lambda>u. fst u \<in> set refs)) (kc_users k2)\<rparr>)"

fun delete_in_rows ::
  "('t \<Rightarrow> kubeconfig option) \<Rightarrow> (kubeconfig \<Rightarrow> 't) \<Rightarrow> string \<Rightarrow> string option \<Rightarrow> (nat \<times> 't) list
    \<Rightarrow> 't option settled \<times> (nat \<times> 't) list" where
  "delete_in_rows load dump n cid [] = (Resolved None, [])"
| "delete_in_rows load dump n cid ((i, t) # rs) =
     (case load t of
        None \<Rightarrow> (Never, (i, t) # rs)
      | Some k \<Rightarrow>
          if is_match n cid k
          then (let k' = remove_context (match_name (findMatchingContexts n k cid)) k
                in (Resolved (Some t), if kc_contexts k' = [] then rs else (i, dump k') # rs))
          else (case delete_in_rows load dump n cid rs of (r, rs') \<Rightarrow> (r, (i, t) # rs')))"

definition deleteClusterKubeconfig ::
  "('t \<Rightarrow> kubeconfig option) \<Rightarrow> (kubeconfig \<Rightarrow> 't) \<Rightarrow> string \<Rightarrow> string option \<Rightarrow> 't kc_store
    \<Rightarrow> 't option settled \<times> 't kc_store" where
  [state_defs]: "deleteClusterKubeconfig load dump n cid s =
    (case delete_in_rows load dump n cid (rows s) of (r, rs) \<Rightarrow> (r, s\<lparr>rows := rs\<rparr>))"

section \<open>Renaming a cluster\<close>

text \<open>The extension \<open>headlamp_info\<close> of the context gets the new custom name.\<close>

fun set_custom :: "string \<Rightarrow> (string \<times> string option) list \<Rightarrow> (string \<times> string option) list" where
  "set_custom n [] = [(''headlamp_info'', Some n)]"
| "set_custom n (e # es) = (if fst e = ''headlamp_info'' then (fst e, Some n) # es else e # set_custom n es)"

definition rename_context :: "string \<Rightarrow> kcontext \<Rightarrow> kcontext" where
  "rename_context new c =
    c\<lparr>cx_extensions := Some (set_custom new (case cx_extensions c of None \<Rightarrow> [] | Some es \<Rightarrow> es))\<rparr>"

text \<open>The context found is the same object in the parsed kubeconfig: the first that matches.\<close>

fun rename_first :: "(kcontext \<Rightarrow> bool) \<Rightarrow> string \<Rightarrow> kcontext list \<Rightarrow> kcontext list" where
  "rename_first P new [] = []"
| "rename_first P new (c # cs) = (if P c then rename_context new c # cs else c # rename_first P new cs)"

fun rename_in_rows ::
  "('t \<Rightarrow> kubeconfig option) \<Rightarrow> (kubeconfig \<Rightarrow> 't) \<Rightarrow> string \<Rightarrow> string \<Rightarrow> (nat \<times> 't) list
    \<Rightarrow> unit settled \<times> (nat \<times> 't) list" where
  "rename_in_rows load dump new n [] = (Rejected_With (''Cluster with name '' @ n @ '' not found''), [])"
| "rename_in_rows load dump new n ((i, t) # rs) =
     (case load t of
        None \<Rightarrow> (Never, (i, t) # rs)
      | Some k \<Rightarrow>
          if is_match n None k
          then (Resolved (), (i, dump (k\<lparr>kc_contexts := rename_first (context_matches n) new (kc_contexts k)\<rparr>)) # rs)
          else (case rename_in_rows load dump new n rs of (r, rs') \<Rightarrow> (r, (i, t) # rs')))"

definition updateStatelessClusterKubeconfig ::
  "('t \<Rightarrow> kubeconfig option) \<Rightarrow> (kubeconfig \<Rightarrow> 't) \<Rightarrow> string \<Rightarrow> string \<Rightarrow> 't kc_store
    \<Rightarrow> unit settled \<times> 't kc_store" where
  [state_defs]: "updateStatelessClusterKubeconfig load dump new n s =
    (case rename_in_rows load dump new n (rows s) of (r, rs) \<Rightarrow> (r, s\<lparr>rows := rs\<rparr>))"

section \<open>Replacing a kubeconfig\<close>

definition findAndReplaceKubeconfig ::
  "('t \<Rightarrow> kubeconfig option) \<Rightarrow> (kubeconfig \<Rightarrow> 't) \<Rightarrow> string \<Rightarrow> 't \<Rightarrow> bool \<Rightarrow> 't kc_store
    \<Rightarrow> unit settled \<times> 't kc_store" where
  [state_defs]: "findAndReplaceKubeconfig load dump n t create s =
    (case findKubeconfigByClusterName load n None s of
       Never \<Rightarrow> (Never, s)
     | Rejected_With e \<Rightarrow> (Rejected_With e, s)
     | Resolved (Some old) \<Rightarrow>
         (case deleteClusterKubeconfig load dump n None s of
            (Never, s') \<Rightarrow> (Never, s')
          | (_, s') \<Rightarrow> (Resolved (), storeStatelessClusterKubeconfig t s'))
     | Resolved None \<Rightarrow>
         if create then (Resolved (), storeStatelessClusterKubeconfig t s)
         else (Rejected_With (''No existing kubeconfig found for cluster '' @ n @ '' and create is false''), s))"

section \<open>Comparing configurations\<close>

text \<open>A cluster is its fields; \<open>_.omit(c, ['useToken'])\<close> drops one of them.\<close>

type_synonym cluster_config = "(string, (string, json) dict) dict"

definition same_cluster :: "(string, json) dict \<Rightarrow> (string, json) dict \<Rightarrow> bool" where
  "same_cluster a b \<longleftrightarrow> list_all (\<lambda>k. dict_get (dict_delete ''useToken'' a) k = dict_get (dict_delete ''useToken'' b) k)
     (dict_keys a @ dict_keys b)"

definition isEqualClusterConfigs :: "cluster_config option \<Rightarrow> cluster_config option \<Rightarrow> bool" where
  "isEqualClusterConfigs cur new =
    (case (cur, new) of
       (Some c, Some d) \<Rightarrow>
         if length (dict_keys c) \<noteq> length (dict_keys d) then True
         else list_ex (\<lambda>k. case dict_get d k of None \<Rightarrow> True
           | Some b \<Rightarrow> \<not> same_cluster (the (dict_get c k)) b) (dict_keys c)
     | _ \<Rightarrow> True)"

text \<open>The clusters of a parsed response by their names, and merged into the current ones.\<close>

definition toStatelessConfigState :: "(string \<times> (string, json) dict) list option \<Rightarrow> cluster_config" where
  "toStatelessConfigState parsed =
    (case parsed of None \<Rightarrow> [] | Some cs \<Rightarrow> fold (\<lambda>(n, c). dict_set n c) cs [])"

definition mergeStatelessConfigState ::
  "cluster_config option \<Rightarrow> (string \<times> (string, json) dict) list option \<Rightarrow> cluster_config" where
  "mergeStatelessConfigState cur parsed =
    fold (\<lambda>(n, c). dict_set n c) (toStatelessConfigState parsed) (case cur of None \<Rightarrow> [] | Some c \<Rightarrow> c)"

text \<open>\<open>fetchStatelessClusterKubeConfigs\<close>: the new stateless clusters of the redux store.
  \<open>answer\<close> is what the backend makes of the kubeconfigs, \<open>None\<close> when the request fails.\<close>

definition fetchStatelessClusterKubeConfigs ::
  "('t list \<Rightarrow> (string \<times> (string, json) dict) list option option) \<Rightarrow> 't kc_store
    \<Rightarrow> cluster_config option \<Rightarrow> cluster_config option" where
  "fetchStatelessClusterKubeConfigs answer s cur =
    (let config = getStatelessClusterKubeConfigs s
     in if config = [] then (if cur \<noteq> None \<and> cur \<noteq> Some [] then Some [] else cur)
        else case answer config of
          None \<Rightarrow> cur
        | Some parsed \<Rightarrow>
            (let nextState = toStatelessConfigState parsed
             in if isEqualClusterConfigs cur (Some nextState) then Some nextState else cur))"

section \<open>The user's id\<close>

text \<open>The random bytes are given; each is two hexadecimal digits.\<close>

definition hex_digit :: "nat \<Rightarrow> char" where
  "hex_digit n = (if n < 10 then char_of (48 + n) else char_of (87 + n))"

definition byte_hex :: "nat \<Rightarrow> string" where
  "byte_hex b = [hex_digit (b div 16), hex_digit (b mod 16)]"

definition generateSecureToken :: "nat list \<Rightarrow> nat \<Rightarrow> string" where
  "generateSecureToken bytes len = take len (concat (map byte_hex (take len bytes)))"

definition getUserIdFromLocalStorage :: "nat list \<Rightarrow> string option \<Rightarrow> string \<times> string option" where
  "getUserIdFromLocalStorage bytes stored =
    (if truthy stored then (the stored, stored)
     else (let t = generateSecureToken bytes 16 in (t, if t \<noteq> [] then Some t else stored)))"

section \<open>Consistency of what is stored\<close>

text \<open>Every reference of a context is defined, and the current context exists.\<close>

definition has_entry :: "(string \<times> json) list option \<Rightarrow> string \<Rightarrow> bool" where
  "has_entry es n = (case es of None \<Rightarrow> False | Some xs \<Rightarrow> n \<in> fst ` set xs)"

definition kc_ok :: "kubeconfig \<Rightarrow> bool" where
  [inv_defs]: "kc_ok k \<longleftrightarrow> kc_contexts k \<noteq> [] \<and>
     (\<forall>c \<in> set (kc_contexts k). (cx_cluster c \<noteq> [] \<longrightarrow> has_entry (kc_clusters k) (cx_cluster c)) \<and>
        (cx_user c \<noteq> [] \<longrightarrow> has_entry (kc_users k) (cx_user c))) \<and>
     (\<forall>n. kc_current k = Some n \<longrightarrow> n \<in> cx_name ` set (kc_contexts k))"

definition codec :: "('t \<Rightarrow> kubeconfig option) \<Rightarrow> (kubeconfig \<Rightarrow> 't) \<Rightarrow> bool" where
  "codec load dump \<longleftrightarrow> (\<forall>k. load (dump k) = Some k)"

definition row_ok :: "('t \<Rightarrow> kubeconfig option) \<Rightarrow> nat \<times> 't \<Rightarrow> bool" where
  "row_ok load r \<longleftrightarrow> (case load (snd r) of None \<Rightarrow> False | Some k \<Rightarrow> kc_ok k)"

definition store_ok :: "('t \<Rightarrow> kubeconfig option) \<Rightarrow> 't kc_store \<Rightarrow> bool" where
  [inv_defs]: "store_ok load s \<longleftrightarrow> (\<forall>r \<in> set (rows s). row_ok load r \<and> fst r < next_key s) \<and>
     distinct (map fst (rows s))"

lemma row_ok_Some: "row_ok load r \<Longrightarrow> \<exists>k. load (snd r) = Some k \<and> kc_ok k"
  by (simp add: row_ok_def split: option.splits)

lemma subseq_subset: "subseq xs ys \<Longrightarrow> set xs \<subseteq> set ys"
  by (induction rule: list_emb.induct) auto

lemma subseq_keeps_distinct: "subseq xs ys \<Longrightarrow> distinct ys \<Longrightarrow> distinct xs"
  by (induction rule: list_emb.induct) (auto dest: subseq_subset)

text \<open>The entries with a name, in their order.\<close>

definition entries_named :: "(string \<times> json) list option \<Rightarrow> string \<Rightarrow> (string \<times> json) list" where
  "entries_named es n = (case es of None \<Rightarrow> [] | Some xs \<Rightarrow> filter (\<lambda>e. fst e = n) xs)"

definition context_ref :: "kcontext \<Rightarrow> string \<times> string \<times> string" where
  "context_ref c = (cx_name c, cx_cluster c, cx_user c)"

text \<open>What may become of a stored kubeconfig: contexts are only lost, and never all of them; the
  contexts that are left find the same entries for their cluster and their user as before;
  and a current context that is not there was not there before either.\<close>

definition descends :: "kubeconfig \<Rightarrow> kubeconfig \<Rightarrow> bool" where
  "descends k0 k \<longleftrightarrow>
     subseq (map context_ref (kc_contexts k)) (map context_ref (kc_contexts k0)) \<and>
     (kc_contexts k = [] \<longrightarrow> kc_contexts k0 = []) \<and>
     (\<forall>(n, cl, us) \<in> set (map context_ref (kc_contexts k)).
        (cl \<noteq> [] \<longrightarrow> entries_named (kc_clusters k) cl = entries_named (kc_clusters k0) cl) \<and>
        (us \<noteq> [] \<longrightarrow> entries_named (kc_users k) us = entries_named (kc_users k0) us)) \<and>
     (\<forall>n. kc_current k = Some n \<longrightarrow> n \<notin> cx_name ` set (kc_contexts k) \<longrightarrow>
        kc_current k0 = Some n \<and> n \<notin> cx_name ` set (kc_contexts k0))"

text \<open>A text that cannot be read stays as it is.\<close>

definition descends_text :: "('t \<Rightarrow> kubeconfig option) \<Rightarrow> 't \<Rightarrow> 't \<Rightarrow> bool" where
  "descends_text load t0 t \<longleftrightarrow>
     (case load t0 of None \<Rightarrow> t = t0 | Some k0 \<Rightarrow> (\<exists>k. load t = Some k \<and> descends k0 k))"

lemma descends_refl [simp]: "descends k k"
  by (auto simp: descends_def)

lemma names_of_refs: "cx_name ` set cs = fst ` set (map context_ref cs)"
  by (force simp: context_ref_def)

lemma entries_named_filter:
  "n \<in> R \<Longrightarrow> entries_named (map_option (filter (\<lambda>c. fst c \<in> R)) es) n = entries_named es n"
  by (cases es) (auto simp: entries_named_def intro: filter_cong)

lemma remaining_refs_iff:
  "n \<in> set (remaining_refs cs) \<longleftrightarrow> n \<noteq> [] \<and> (\<exists>c \<in> set cs. cx_cluster c = n \<or> cx_user c = n)"
  by (auto simp: remaining_refs_def)

lemma remove_context_simps [simp]:
  "kc_contexts (remove_context n k) = filter (\<lambda>c. Some (cx_name c) \<noteq> n) (kc_contexts k)"
  by (simp add: remove_context_def Let_def)

lemma remove_context_descends:
  assumes d: "descends k0 k" and ne: "kc_contexts (remove_context n k) \<noteq> []"
  shows "descends k0 (remove_context n k)"
proof -
  let ?cs = "filter (\<lambda>c. Some (cx_name c) \<noteq> n) (kc_contexts k)" and ?k = "remove_context n k"
  have cl: "kc_clusters ?k = map_option (filter (\<lambda>c. fst c \<in> set (remaining_refs ?cs))) (kc_clusters k)"
    and us: "kc_users ?k = map_option (filter (\<lambda>c. fst c \<in> set (remaining_refs ?cs))) (kc_users k)"
    by (simp_all add: remove_context_def Let_def)
  have ne': "?cs \<noteq> []" using ne by simp
  have cur: "kc_current ?k =
      (if kc_current k = n then (if cx_name (hd ?cs) \<noteq> [] then Some (cx_name (hd ?cs)) else None) else kc_current k)"
    using ne' by (simp add: remove_context_def Let_def)
  have "subseq (map context_ref ?cs) (map context_ref (kc_contexts k))"
    by (intro subseq_map subseq_filter_left)
  with d have sub: "subseq (map context_ref ?cs) (map context_ref (kc_contexts k0))"
    unfolding descends_def using subseq_order.trans by blast
  have ent: "(c1 \<noteq> [] \<longrightarrow> entries_named (kc_clusters ?k) c1 = entries_named (kc_clusters k0) c1) \<and>
      (u1 \<noteq> [] \<longrightarrow> entries_named (kc_users ?k) u1 = entries_named (kc_users k0) u1)"
    if "(m, c1, u1) \<in> set (map context_ref ?cs)" for m c1 u1
  proof -
    from that obtain c where c: "c \<in> set ?cs" "context_ref c = (m, c1, u1)" by auto
    then have "c1 \<noteq> [] \<longrightarrow> c1 \<in> set (remaining_refs ?cs)" "u1 \<noteq> [] \<longrightarrow> u1 \<in> set (remaining_refs ?cs)"
      by (auto simp: remaining_refs_iff context_ref_def)
    moreover have "(m, c1, u1) \<in> set (map context_ref (kc_contexts k))" using that by auto
    ultimately show ?thesis
      using d unfolding cl us descends_def by (auto simp: entries_named_filter)
  qed
  have "case x of (m, cl, us) \<Rightarrow>
        (cl \<noteq> [] \<longrightarrow> entries_named (kc_clusters ?k) cl = entries_named (kc_clusters k0) cl) \<and>
        (us \<noteq> [] \<longrightarrow> entries_named (kc_users ?k) us = entries_named (kc_users k0) us)"
    if "x \<in> set (map context_ref ?cs)" for x
  proof -
    obtain m c1 u1 where x: "x = (m, c1, u1)" by (rule prod_cases3)
    show ?thesis using ent [of m c1 u1] that unfolding x prod.case .
  qed
  moreover have "kc_current k0 = Some m \<and> m \<notin> cx_name ` set (kc_contexts k0)"
    if m: "kc_current ?k = Some m" "m \<notin> cx_name ` set ?cs" for m
  proof -
    have "hd ?cs \<in> set ?cs" using ne' by (rule hd_in_set)
    then have other: "kc_current k \<noteq> n" using m unfolding cur by (auto split: if_splits)
    with m have "kc_current k = Some m" unfolding cur by simp
    moreover have "m \<notin> cx_name ` set (kc_contexts k)" using m(2) other \<open>kc_current k = Some m\<close> by auto
    ultimately show ?thesis using d unfolding descends_def by blast
  qed
  ultimately show ?thesis using sub ne' unfolding descends_def remove_context_simps by blast
qed

lemma rename_first_frame [simp]:
  "map context_ref (rename_first P new cs) = map context_ref cs"
  "rename_first P new cs = [] \<longleftrightarrow> cs = []"
  by (induction cs) (auto simp: rename_context_def context_ref_def)

lemma rename_descends:
  "descends k0 k \<Longrightarrow> descends k0 (k\<lparr>kc_contexts := rename_first P new (kc_contexts k)\<rparr>)"
  by (simp add: descends_def names_of_refs)

text \<open>What deletion and renaming make of the rows.\<close>

lemma delete_rows_shape:
  assumes "delete_in_rows load dump n cid rs = (x, rs')"
  shows "subseq (map fst rs') (map fst rs) \<and>
    (\<forall>r \<in> set rs'. r \<in> set rs \<or> (\<exists>t k m. (fst r, t) \<in> set rs \<and> load t = Some k \<and>
       snd r = dump (remove_context m k) \<and> kc_contexts (remove_context m k) \<noteq> []))"
  using assms
proof (induction load dump n cid rs arbitrary: x rs' rule: delete_in_rows.induct)
  case (2 load dump n cid i t rs)
  show ?case
  proof (cases "load t")
    case None
    with 2 show ?thesis by auto
  next
    case (Some k)
    show ?thesis
    proof (cases "is_match n cid k")
      case True
      let ?k = "remove_context (match_name (findMatchingContexts n k cid)) k"
      have rs': "rs' = (if kc_contexts ?k = [] then rs else (i, dump ?k) # rs)"
        using 2(2) Some True by (simp add: Let_def)
      show ?thesis
      proof (cases "kc_contexts ?k = []")
        case False
        with rs' have "rs' = (i, dump ?k) # rs" by simp
        moreover have "\<exists>t' k' m. (i, t') \<in> set ((i, t) # rs) \<and> load t' = Some k' \<and>
            dump ?k = dump (remove_context m k') \<and> kc_contexts (remove_context m k') \<noteq> []"
          using Some False by (intro exI [of _ t] exI [of _ k] exI [of _ "match_name (findMatchingContexts n k cid)"]) simp
        ultimately show ?thesis by auto
      qed (use rs' in auto)
    next
      case False
      obtain y rs'' where d: "delete_in_rows load dump n cid rs = (y, rs'')" by fastforce
      then have "rs' = (i, t) # rs''" using 2(2) Some False by simp
      with 2(1) [OF Some False d] show ?thesis by auto
    qed
  qed
qed auto

lemma rename_rows_shape:
  assumes "rename_in_rows load dump new n rs = (x, rs')"
  shows "map fst rs' = map fst rs \<and>
    (\<forall>r \<in> set rs'. r \<in> set rs \<or> (\<exists>t k P. (fst r, t) \<in> set rs \<and> load t = Some k \<and>
       snd r = dump (k\<lparr>kc_contexts := rename_first P new (kc_contexts k)\<rparr>)))"
  using assms
proof (induction load dump new n rs arbitrary: x rs' rule: rename_in_rows.induct)
  case (2 load dump new n i t rs)
  show ?case
  proof (cases "load t")
    case None
    with 2 show ?thesis by auto
  next
    case (Some k)
    show ?thesis
    proof (cases "is_match n None k")
      case True
      then have "rs' = (i, dump (k\<lparr>kc_contexts := rename_first (context_matches n) new (kc_contexts k)\<rparr>)) # rs"
        using 2(2) Some by simp
      with Some show ?thesis by auto
    next
      case False
      obtain y rs'' where d: "rename_in_rows load dump new n rs = (y, rs'')" by fastforce
      then have "rs' = (i, t) # rs''" using 2(2) Some False by simp
      with 2(1) [OF Some False d] show ?thesis by auto
    qed
  qed
qed auto

text \<open>The operations on the store, and the texts they put into it.\<close>

datatype 't kc_op = Op_Store 't | Op_Delete string "string option" | Op_Rename string string
  | Op_Replace string 't bool

definition kc_step :: "('t \<Rightarrow> kubeconfig option) \<Rightarrow> (kubeconfig \<Rightarrow> 't) \<Rightarrow> 't kc_store \<Rightarrow> 't kc_op \<Rightarrow> 't kc_store" where
  "kc_step load dump s p = (case p of
     Op_Store t \<Rightarrow> storeStatelessClusterKubeconfig t s
   | Op_Delete n cid \<Rightarrow> snd (deleteClusterKubeconfig load dump n cid s)
   | Op_Rename new n \<Rightarrow> snd (updateStatelessClusterKubeconfig load dump new n s)
   | Op_Replace n t b \<Rightarrow> snd (findAndReplaceKubeconfig load dump n t b s))"

fun op_texts :: "'t kc_op \<Rightarrow> 't set" where
  "op_texts (Op_Store t) = {t}"
| "op_texts (Op_Replace n t b) = {t}"
| "op_texts _ = {}"

text \<open>Every row descends from a text that was stored; keys are used once.\<close>

definition descended :: "('t \<Rightarrow> kubeconfig option) \<Rightarrow> 't set \<Rightarrow> 't kc_store \<Rightarrow> bool" where
  [inv_defs]: "descended load T s \<longleftrightarrow>
     (\<forall>r \<in> set (rows s). (\<exists>t0 \<in> T. descends_text load t0 (snd r)) \<and> fst r < next_key s) \<and>
     distinct (map fst (rows s))"

lemma descended_more: "descended load T s \<Longrightarrow> T \<subseteq> U \<Longrightarrow> descended load U s"
  unfolding descended_def by blast

lemma store_descended: "descended load T s \<Longrightarrow> t \<in> T \<Longrightarrow> descended load T (storeStatelessClusterKubeconfig t s)"
proof -
  assume d: "descended load T s" and t: "t \<in> T"
  have "descends_text load t t" by (simp add: descends_text_def split: option.split)
  with d t show ?thesis
    by (auto simp: descended_def storeStatelessClusterKubeconfig_def less_SucI)
qed

text \<open>A row that is written again comes from a readable one.\<close>

lemma rewritten_descends:
  assumes "codec load dump" and "\<exists>t0 \<in> T. descends_text load t0 t" and "load t = Some k"
    and "\<And>k0. descends k0 k \<Longrightarrow> descends k0 k'"
  shows "\<exists>t0 \<in> T. descends_text load t0 (dump k')"
proof -
  from assms(2,3) obtain t0 where t0: "t0 \<in> T" "descends_text load t0 t" by blast
  with assms(1,3,4) have "descends_text load t0 (dump k')"
    by (auto simp: descends_text_def codec_def split: option.splits)
  with t0(1) show ?thesis ..
qed

lemma rows_descended:
  assumes "descended load T s" and "subseq (map fst rs') (map fst (rows s))"
    and "\<And>r. r \<in> set rs' \<Longrightarrow> \<exists>t0 \<in> T. descends_text load t0 (snd r)"
  shows "descended load T (s\<lparr>rows := rs'\<rparr>)"
proof -
  have "set (map fst rs') \<subseteq> set (map fst (rows s))" using assms(2) by (rule subseq_subset)
  then have "fst r < next_key s" if "r \<in> set rs'" for r
    using that assms(1) by (fastforce simp: descended_def)
  moreover have "distinct (map fst rs')"
    using assms(1,2) unfolding descended_def by (blast intro: subseq_keeps_distinct)
  ultimately show ?thesis using assms(3) by (simp add: descended_def)
qed

lemma delete_descended:
  assumes "codec load dump" and "descended load T s"
  shows "descended load T (snd (deleteClusterKubeconfig load dump n cid s))"
proof -
  obtain x rs where d: "delete_in_rows load dump n cid (rows s) = (x, rs)" by fastforce
  note shape = delete_rows_shape [OF d]
  have old: "\<exists>t0 \<in> T. descends_text load t0 t" if "(i, t) \<in> set (rows s)" for i t
    using assms(2) that by (force simp: descended_def)
  have "\<exists>t0 \<in> T. descends_text load t0 (snd r)" if "r \<in> set rs" for r
  proof -
    from shape that consider "r \<in> set (rows s)"
      | t k m where "(fst r, t) \<in> set (rows s)" "load t = Some k" "snd r = dump (remove_context m k)"
          "kc_contexts (remove_context m k) \<noteq> []" by blast
    then show ?thesis
    proof cases
      case (2 t k m)
      show ?thesis unfolding 2(3)
        by (rule rewritten_descends [OF assms(1) old [OF 2(1)] 2(2)]) (rule remove_context_descends [OF _ 2(4)])
    qed (use old [of "fst r" "snd r"] in simp)
  qed
  with shape show ?thesis
    using rows_descended [OF assms(2)] by (simp add: deleteClusterKubeconfig_def d)
qed

lemma rename_descended:
  assumes "codec load dump" and "descended load T s"
  shows "descended load T (snd (updateStatelessClusterKubeconfig load dump new n s))"
proof -
  obtain x rs where d: "rename_in_rows load dump new n (rows s) = (x, rs)" by fastforce
  note shape = rename_rows_shape [OF d]
  have old: "\<exists>t0 \<in> T. descends_text load t0 t" if "(i, t) \<in> set (rows s)" for i t
    using assms(2) that by (force simp: descended_def)
  have "\<exists>t0 \<in> T. descends_text load t0 (snd r)" if "r \<in> set rs" for r
  proof -
    from shape that consider "r \<in> set (rows s)"
      | t k P where "(fst r, t) \<in> set (rows s)" "load t = Some k"
          "snd r = dump (k\<lparr>kc_contexts := rename_first P new (kc_contexts k)\<rparr>)" by blast
    then show ?thesis
    proof cases
      case (2 t k P)
      show ?thesis unfolding 2(3)
        by (rule rewritten_descends [OF assms(1) old [OF 2(1)] 2(2)]) (rule rename_descends)
    qed (use old [of "fst r" "snd r"] in simp)
  qed
  with shape show ?thesis
    using rows_descended [OF assms(2)] by (simp add: updateStatelessClusterKubeconfig_def d)
qed

lemma kc_step_descended:
  assumes "codec load dump" and "descended load T s"
  shows "descended load (op_texts p \<union> T) (kc_step load dump s p)"
proof -
  have s: "descended load (op_texts p \<union> T) s" using assms(2) by (rule descended_more) blast
  show ?thesis
  proof (cases p)
    case (Op_Replace n t b)
    then have t: "t \<in> op_texts p \<union> T" by simp
    note stored = store_descended [OF s t] store_descended [OF delete_descended [OF assms(1) s] t, of n None]
      delete_descended [OF assms(1) s, of n None]
    show ?thesis
      using stored s unfolding Op_Replace
      by (auto simp: kc_step_def findAndReplaceKubeconfig_def split: settled.split option.split prod.split)
  qed (use s assms(1) in \<open>auto simp: kc_step_def intro: store_descended delete_descended rename_descended\<close>)
qed

interpretation kubeconfigs: reducer "\<lambda>(T, s) p. (op_texts p \<union> T, kc_step load dump s p)"
  "\<lambda>(T, s). codec load dump \<longrightarrow> descended load T s" for load :: "'t \<Rightarrow> kubeconfig option" and dump
  by unfold_locales (auto simp: kc_step_descended)

lemma steps_with_texts:
  "foldl (\<lambda>(T, s) p. (op_texts p \<union> T, kc_step load dump s p)) (T, s) ps =
     (\<Union> (op_texts ` set ps) \<union> T, foldl (kc_step load dump) s ps)"
  by (induction ps arbitrary: T s) auto

lemma reachable_descended:
  assumes "codec load dump"
  shows "descended load (\<Union> (op_texts ` set ps)) (foldl (kc_step load dump) \<lparr>rows = [], next_key = 0\<rparr> ps)"
  using kubeconfigs.run_inv [of load dump "({}, \<lparr>rows = [], next_key = 0\<rparr>)" ps] assms
  by (simp add: steps_with_texts descended_def)

lemma find_row_answers: "\<forall>r \<in> set rs. load (snd r) \<noteq> None \<Longrightarrow> find_row load n cid rs \<noteq> Never"
  by (induction load n cid rs rule: find_row.induct) (auto split: if_splits)

lemma has_entry_named: "has_entry es n \<longleftrightarrow> entries_named es n \<noteq> []"
  by (cases es) (auto simp: has_entry_def entries_named_def filter_empty_conv)

lemma descends_ok:
  assumes "descends k0 k" and "kc_ok k0"
  shows "kc_ok k"
proof -
  have "set (map context_ref (kc_contexts k)) \<subseteq> set (map context_ref (kc_contexts k0))"
    using assms(1) unfolding descends_def by (blast dest: subseq_subset)
  then have old: "\<exists>c0 \<in> set (kc_contexts k0). context_ref c0 = context_ref c" if "c \<in> set (kc_contexts k)" for c
    using that by (metis (no_types, lifting) imageE image_eqI list.set_map subsetD)
  have "(cx_cluster c \<noteq> [] \<longrightarrow> has_entry (kc_clusters k) (cx_cluster c)) \<and>
      (cx_user c \<noteq> [] \<longrightarrow> has_entry (kc_users k) (cx_user c))" if c: "c \<in> set (kc_contexts k)" for c
  proof -
    have "(cx_name c, cx_cluster c, cx_user c) \<in> set (map context_ref (kc_contexts k))"
      using c by (auto simp: context_ref_def)
    moreover from old [OF c] obtain c0 where "c0 \<in> set (kc_contexts k0)" "cx_cluster c0 = cx_cluster c" "cx_user c0 = cx_user c"
      by (auto simp: context_ref_def)
    ultimately show ?thesis
      using assms unfolding descends_def kc_ok_def has_entry_named by fastforce
  qed
  moreover have "n \<in> cx_name ` set (kc_contexts k)" if "kc_current k = Some n" for n
    using that assms unfolding descends_def kc_ok_def by blast
  ultimately show ?thesis using assms unfolding kc_ok_def descends_def by blast
qed

text \<open>C25: Whatever texts are stored and whatever is done to them, readable or not, consistent or not:
  keys stay distinct and every row descends from a stored text. It has some of its contexts,
  never none of them; renaming and deleting leave every remaining context with the same entries
  for its cluster and its user, and the current context only points to nothing where it did
  before; a text that cannot be read stays as it is. When all stored texts are readable, every
  lookup answers; when all are consistent, all rows are.\<close>

theorem stored_kubeconfigs_keep_their_entries:
  assumes "codec load dump"
  defines "s ps \<equiv> foldl (kc_step load dump) \<lparr>rows = [], next_key = 0\<rparr> ps"
  defines "stored ps \<equiv> \<Union> (op_texts ` set ps)"
  shows "distinct (map fst (rows (s ps))) \<and>
    (\<forall>(i, t) \<in> set (rows (s ps)). \<exists>t0 \<in> stored ps. descends_text load t0 t) \<and>
    ((\<forall>t \<in> stored ps. load t \<noteq> None) \<longrightarrow> findKubeconfigByClusterName load n cid (s ps) \<noteq> Never) \<and>
    ((\<forall>t \<in> stored ps. row_ok load (0, t)) \<longrightarrow> store_ok load (s ps))"
proof -
  have d: "descended load (stored ps) (s ps)"
    unfolding s_def stored_def by (rule reachable_descended [OF assms(1)])
  then have rows: "\<exists>t0 \<in> stored ps. descends_text load t0 (snd r)" if "r \<in> set (rows (s ps))" for r
    using that by (simp add: descended_def)
  have "findKubeconfigByClusterName load n cid (s ps) \<noteq> Never" if "\<forall>t \<in> stored ps. load t \<noteq> None"
  proof -
    have "load (snd r) \<noteq> None" if "r \<in> set (rows (s ps))" for r
      using rows [OF that] \<open>\<forall>t \<in> stored ps. load t \<noteq> None\<close> by (auto simp: descends_text_def split: option.splits)
    then show ?thesis by (simp add: findKubeconfigByClusterName_def find_row_answers)
  qed
  moreover have "store_ok load (s ps)" if "\<forall>t \<in> stored ps. row_ok load (0, t)"
  proof -
    have "row_ok load r" if "r \<in> set (rows (s ps))" for r
    proof -
      from rows [OF that] obtain t0 where "t0 \<in> stored ps" "descends_text load t0 (snd r)" ..
      with \<open>\<forall>t \<in> stored ps. row_ok load (0, t)\<close> show ?thesis
        by (auto simp: row_ok_def descends_text_def intro: descends_ok split: option.splits)
    qed
    with d show ?thesis by (simp add: store_ok_def descended_def)
  qed
  ultimately show ?thesis using d rows by (auto simp: descended_def)
qed

text \<open>Where the first row that matches is.\<close>

definition readable_miss :: "('t \<Rightarrow> kubeconfig option) \<Rightarrow> string \<Rightarrow> string option \<Rightarrow> nat \<times> 't \<Rightarrow> bool" where
  "readable_miss load n cid r \<longleftrightarrow> (\<exists>k. load (snd r) = Some k \<and> \<not> is_match n cid k)"

lemma miss_prefix:
  assumes "\<forall>r \<in> set pre. readable_miss load n cid r"
  shows "find_row load n cid (pre @ rs) = find_row load n cid rs"
    "delete_in_rows load dump n cid (pre @ rs) = (case delete_in_rows load dump n cid rs of (x, rs') \<Rightarrow> (x, pre @ rs'))"
  using assms by (induction pre) (auto simp: readable_miss_def split: prod.split)

lemma miss_prefix_rename:
  "\<forall>r \<in> set pre. readable_miss load n None r \<Longrightarrow>
   rename_in_rows load dump new n (pre @ rs) = (case rename_in_rows load dump new n rs of (x, rs') \<Rightarrow> (x, pre @ rs'))"
  by (induction pre) (auto simp: readable_miss_def split: prod.split)

lemma rows_cases:
  obtains (none) "\<forall>r \<in> set rs. readable_miss load n cid r"
  | (unreadable) pre i t post where "rs = pre @ (i, t) # post" "\<forall>r \<in> set pre. readable_miss load n cid r" "load t = None"
  | (match) pre i t post k where "rs = pre @ (i, t) # post" "\<forall>r \<in> set pre. readable_miss load n cid r"
      "load t = Some k" "is_match n cid k"
proof -
  show thesis
  proof (cases "\<exists>r \<in> set rs. \<not> readable_miss load n cid r")
    case True
    then obtain pre r post where r: "rs = pre @ r # post" "\<not> readable_miss load n cid r"
      "\<forall>y \<in> set pre. readable_miss load n cid y" by (auto dest!: split_list_first_prop)
    show thesis
    proof (cases "load (snd r)")
      case None
      with r show thesis by (intro unreadable [of pre "fst r" "snd r" post]) auto
    next
      case (Some k)
      with r(2) have "is_match n cid k" by (simp add: readable_miss_def)
      with r Some show thesis by (intro match [of pre "fst r" "snd r" post k]) auto
    qed
  qed (use none in blast)
qed

text \<open>One kubeconfig that cannot be read, stored before the one searched for, makes every
  operation that searches for a cluster hang: the lookup, the deletion, the renaming and the
  replacement never settle their promises and change nothing.\<close>

theorem unreadable_row_blocks:
  assumes "rows s = pre @ (i, t) # post" and "\<forall>r \<in> set pre. readable_miss load n None r" and "load t = None"
  shows "findKubeconfigByClusterName load n None s = Never \<and>
    deleteClusterKubeconfig load dump n None s = (Never, s) \<and>
    updateStatelessClusterKubeconfig load dump new n s = (Never, s) \<and>
    findAndReplaceKubeconfig load dump n u create s = (Never, s)"
  using assms by (simp add: findKubeconfigByClusterName_def deleteClusterKubeconfig_def
      updateStatelessClusterKubeconfig_def findAndReplaceKubeconfig_def miss_prefix miss_prefix_rename)

definition example_kubeconfig :: kubeconfig where
  "example_kubeconfig = \<lparr>kc_contexts = [\<lparr>cx_name = ''dev'', cx_cluster = ''c'', cx_user = ''u'', cx_clusterID = None,
      cx_source = None, cx_extensions = None\<rparr>, \<lparr>cx_name = ''prod'', cx_cluster = ''c'', cx_user = ''v'',
      cx_clusterID = None, cx_source = None, cx_extensions = None\<rparr>],
    kc_clusters = Some [(''c'', JNull)], kc_users = Some [(''u'', JNull), (''v'', JNull)], kc_current = Some ''dev''\<rparr>"

lemma unreadable_row_blocks_witness:
  "findKubeconfigByClusterName (\<lambda>t. if t then Some example_kubeconfig else None) ''dev'' None
     \<lparr>rows = [(0, False), (1, True)], next_key = 2\<rparr> = Never"
  using unreadable_row_blocks [of "\<lparr>rows = [(0, False), (1, True)], next_key = 2\<rparr>" "[]" 0 False "[(1, True)]"
      "\<lambda>t. if t then Some example_kubeconfig else None" "''dev''"] by simp

text \<open>The contexts of the store with the rows they are in.\<close>

definition contexts_of :: "('t \<Rightarrow> kubeconfig option) \<Rightarrow> (nat \<times> 't) list \<Rightarrow> (nat \<times> kcontext) list" where
  "contexts_of load rs = concat (map (\<lambda>(i, t). case load t of None \<Rightarrow> [] | Some k \<Rightarrow> map (Pair i) (kc_contexts k)) rs)"

lemma contexts_of_simps [simp]:
  "contexts_of load [] = []"
  "contexts_of load (rs @ rs') = contexts_of load rs @ contexts_of load rs'"
  "contexts_of load ((i, t) # rs) = (case load t of None \<Rightarrow> [] | Some k \<Rightarrow> map (Pair i) (kc_contexts k)) @ contexts_of load rs"
  by (simp_all add: contexts_of_def)

lemma contexts_of_key: "(i, c) \<in> set (contexts_of load rs) \<Longrightarrow> i \<in> fst ` set rs"
  by (auto simp: contexts_of_def rev_image_eqI split: option.splits)

lemma contexts_of_other [simp]:
  "i \<notin> fst ` set rs \<Longrightarrow> filter (\<lambda>(j, c). j = i \<longrightarrow> P c) (contexts_of load rs) = contexts_of load rs"
  by (auto simp: filter_id_conv dest: contexts_of_key)

lemma filter_Pair [simp]: "filter (\<lambda>(j, c). j = i \<longrightarrow> P c) (map (Pair i) cs) = map (Pair i) (filter P cs)"
  by (induction cs) auto

lemma is_match_name: "is_match n cid k \<Longrightarrow> \<exists>m. match_name (findMatchingContexts n k cid) = Some m"
  by (auto simp: is_match_def match_name_def split: option.split)

text \<open>Deleting a cluster either finds no kubeconfig with it and changes nothing, or takes
  exactly the contexts with the name of the match out of the first row that matches; every other
  context of every row stays.\<close>

theorem delete_removes_the_context:
  assumes "codec load dump" and "store_ok load s" and "deleteClusterKubeconfig load dump n cid s = (x, s')"
  shows "(x = Resolved None \<and> s' = s \<and> (\<forall>r \<in> set (rows s). readable_miss load n cid r)) \<or>
    (\<exists>i t k m. x = Resolved (Some t) \<and> (i, t) \<in> set (rows s) \<and> load t = Some k \<and>
       match_name (findMatchingContexts n k cid) = Some m \<and>
       contexts_of load (rows s') = filter (\<lambda>(j, c). j = i \<longrightarrow> cx_name c \<noteq> m) (contexts_of load (rows s)))"
proof (cases "rows s" load n cid rule: rows_cases)
  case none
  then have "delete_in_rows load dump n cid (rows s) = (Resolved None, rows s)"
    using miss_prefix(2) [of "rows s" load n cid dump "[]"] by simp
  with none assms(3) show ?thesis by (auto simp: deleteClusterKubeconfig_def)
next
  case (unreadable pre i t post)
  with assms(2) show ?thesis by (auto simp: store_ok_def row_ok_def)
next
  case (match pre i t post k)
  obtain m where m: "match_name (findMatchingContexts n k cid) = Some m" using is_match_name match(4) by blast
  have "rows s' = pre @ (let k' = remove_context (Some m) k in if kc_contexts k' = [] then [] else [(i, dump k')]) @ post"
    and x: "x = Resolved (Some t)"
    using assms(3) match m by (auto simp: deleteClusterKubeconfig_def miss_prefix Let_def)
  moreover have "i \<notin> fst ` set pre" "i \<notin> fst ` set post" using assms(2) match(1) by (auto simp: store_ok_def)
  ultimately have "contexts_of load (rows s') = filter (\<lambda>(j, c). j = i \<longrightarrow> cx_name c \<noteq> m) (contexts_of load (rows s))"
    using match assms(1) by (auto simp: Let_def codec_def filter_empty_conv)
  with x m match show ?thesis by auto
qed

text \<open>A codec for the witnesses: the texts are the kubeconfigs.\<close>

lemma codec_Some [simp]: "codec Some (\<lambda>k. k)"
  by (simp add: codec_def)

definition example_store :: "kubeconfig kc_store" where
  "example_store = \<lparr>rows = [(0, example_kubeconfig)], next_key = 1\<rparr>"

lemma example_kubeconfig_ok: "kc_ok example_kubeconfig"
  by (simp add: kc_ok_def example_kubeconfig_def has_entry_def)

lemma example_store_ok [simp]: "store_ok Some example_store"
  by (simp add: store_ok_def example_store_def row_ok_def example_kubeconfig_ok)

text \<open>A context whose user has no entry, as dropping a file stores it, beside an unreadable text:
  deleting the other context of the row keeps it as it is.\<close>

definition partial_kubeconfig :: kubeconfig where
  "partial_kubeconfig =
    \<lparr>kc_contexts = [\<lparr>cx_name = ''dev'', cx_cluster = ''a'', cx_user = ''u'', cx_clusterID = None, cx_source = None, cx_extensions = None\<rparr>,
       \<lparr>cx_name = ''prod'', cx_cluster = ''b'', cx_user = ''nobody'', cx_clusterID = None, cx_source = None, cx_extensions = None\<rparr>],
     kc_clusters = Some [(''a'', JNull), (''b'', JNull)], kc_users = Some [(''u'', JNull)], kc_current = Some ''dev''\<rparr>"

theorem stored_kubeconfigs_keep_their_entries_witness:
  "\<exists>k. descends partial_kubeconfig k \<and> map cx_name (kc_contexts k) = [''prod''] \<and>
     kc_clusters k = Some [(''b'', JNull)] \<and> kc_users k = Some []"
proof -
  let ?ps = "[Op_Store (Some partial_kubeconfig), Op_Delete ''dev'' None]"
  let ?s = "foldl (kc_step (\<lambda>t. t) Some) \<lparr>rows = [], next_key = 0\<rparr> ?ps"
  have c: "codec (\<lambda>t. t) Some" by (simp add: codec_def)
  have m: "is_match ''dev'' None partial_kubeconfig"
    "match_name (findMatchingContexts ''dev'' partial_kubeconfig None) = Some ''dev''"
    "kc_contexts (remove_context (Some ''dev'') partial_kubeconfig) \<noteq> []" by code_simp+
  have r: "rows ?s = [(0, Some (remove_context (Some ''dev'') partial_kubeconfig))]"
    using m(3) by (simp add: kc_step_def storeStatelessClusterKubeconfig_def deleteClusterKubeconfig_def m(1,2) Let_def
        del: remove_context_simps)
  have texts: "\<Union> (op_texts ` set ?ps) = {Some partial_kubeconfig}" by simp
  let ?k = "remove_context (Some ''dev'') partial_kubeconfig"
  have row: "(0, Some ?k) \<in> set (rows ?s)" unfolding r by simp
  have "\<forall>(i, t) \<in> set (rows ?s). \<exists>t0 \<in> \<Union> (op_texts ` set ?ps). descends_text (\<lambda>t. t) t0 t"
    by (rule stored_kubeconfigs_keep_their_entries [OF c, where ps = ?ps, THEN conjunct2, THEN conjunct1])
  from bspec [OF this row] have "descends_text (\<lambda>t. t) (Some partial_kubeconfig) (Some ?k)"
    unfolding texts by simp
  then have d: "descends partial_kubeconfig ?k"
    unfolding descends_text_def option.case option.inject by simp
  have "map cx_name (kc_contexts ?k) = [''prod'']" "kc_clusters ?k = Some [(''b'', JNull)]" "kc_users ?k = Some []"
    by code_simp+
  with d show ?thesis by (intro exI [of _ ?k] conjI)
qed

lemma delete_removes_the_context_witness:
  "(let (x, s') = deleteClusterKubeconfig Some (\<lambda>k. k) ''dev'' None example_store in
    (x = Resolved None \<and> s' = example_store \<and> (\<forall>r \<in> set (rows example_store). readable_miss Some ''dev'' None r)) \<or>
    (\<exists>i t k m. x = Resolved (Some t) \<and> (i, t) \<in> set (rows example_store) \<and> Some t = Some k \<and>
       match_name (findMatchingContexts ''dev'' k None) = Some m \<and>
       contexts_of Some (rows s') = filter (\<lambda>(j, c). j = i \<longrightarrow> cx_name c \<noteq> m) (contexts_of Some (rows example_store))))"
  using delete_removes_the_context [OF codec_Some example_store_ok, of "''dev''" None]
  by (cases "deleteClusterKubeconfig Some (\<lambda>k. k) ''dev'' None example_store") simp

section \<open>Renaming\<close>

lemma custom_name_rename [simp]: "custom_name (rename_context new c) = Some new"
proof -
  have "\<exists>e. find (\<lambda>e. fst e = ''headlamp_info'') (set_custom new es) = Some e \<and> snd e = Some new" for es
    by (induction es) auto
  from this [of "case cx_extensions c of None \<Rightarrow> [] | Some es \<Rightarrow> es"] show ?thesis
    by (auto simp: custom_name_def rename_context_def)
qed

lemma rename_matches:
  "find P cs \<noteq> None \<Longrightarrow> find (context_matches new) (rename_first P new cs) \<noteq> None"
  by (induction cs) (auto simp: context_matches_def split: if_splits)

lemma is_match_None: "is_match n None k \<longleftrightarrow> find (context_matches n) (kc_contexts k) \<noteq> None"
  by (auto simp: is_match_def findMatchingContexts_def find_None_iff find_Some_iff context_matches_def)

lemma names_rename: "map (\<lambda>c. (i, cx_name c)) (rename_first P new cs) = map (\<lambda>c. (i, cx_name c)) cs"
  by (induction cs) (auto simp: rename_context_def)

text \<open>Giving a cluster a new custom name is rejected, without a change, exactly when no
  kubeconfig knows the old name. Otherwise the cluster is found under the new name, and no
  context of the store loses or changes its own name.\<close>

theorem renamed_cluster_is_found:
  assumes "codec load dump" and "store_ok load s" and "updateStatelessClusterKubeconfig load dump new n s = (x, s')"
  shows "if findKubeconfigByClusterName load n None s = Resolved None
    then x = Rejected_With (''Cluster with name '' @ n @ '' not found'') \<and> s' = s
    else x = Resolved () \<and> (\<exists>t. findKubeconfigByClusterName load new None s' = Resolved (Some t)) \<and>
      map (\<lambda>(i, c). (i, cx_name c)) (contexts_of load (rows s')) =
      map (\<lambda>(i, c). (i, cx_name c)) (contexts_of load (rows s))"
proof (cases "rows s" load n "None :: string option" rule: rows_cases)
  case none
  then show ?thesis
    using assms(3) miss_prefix(1) [of "rows s" load n None "[]"]
      miss_prefix_rename [of "rows s" load n dump new "[]"]
    by (simp add: updateStatelessClusterKubeconfig_def findKubeconfigByClusterName_def)
next
  case (unreadable pre i t post)
  with assms(2) show ?thesis by (auto simp: store_ok_def row_ok_def)
next
  case (match pre i t post k)
  let ?k = "k\<lparr>kc_contexts := rename_first (context_matches n) new (kc_contexts k)\<rparr>"
  have s': "rows s' = pre @ (i, dump ?k) # post" and x: "x = Resolved ()"
    using assms(3) match by (auto simp: updateStatelessClusterKubeconfig_def miss_prefix_rename)
  have f: "findKubeconfigByClusterName load n None s = Resolved (Some t)"
    using match by (simp add: findKubeconfigByClusterName_def miss_prefix)
  have l: "load (dump ?k) = Some ?k" using assms(1) by (simp add: codec_def)
  have m: "is_match new None ?k" using match(4) rename_matches by (simp add: is_match_None)
  have "\<exists>t. find_row load new None (rs @ (i, dump ?k) # post) = Resolved (Some t)"
    if "\<forall>r \<in> set rs. load (snd r) \<noteq> None" for rs
    using that by (induction rs) (auto simp: l m)
  moreover have "\<forall>r \<in> set pre. load (snd r) \<noteq> None" using match(2) by (auto simp: readable_miss_def)
  ultimately have "\<exists>t. findKubeconfigByClusterName load new None s' = Resolved (Some t)"
    by (simp add: findKubeconfigByClusterName_def s')
  then show ?thesis using x f match(1,3) by (simp add: s' l names_rename comp_def)
qed

lemma renamed_cluster_is_found_witness:
  "\<exists>t. findKubeconfigByClusterName Some ''mine'' None
     (snd (updateStatelessClusterKubeconfig Some (\<lambda>k. k) ''mine'' ''dev'' example_store)) = Resolved (Some t)"
proof -
  have "findKubeconfigByClusterName Some ''dev'' None example_store \<noteq> Resolved None"
    by (simp add: findKubeconfigByClusterName_def example_store_def is_match_def findMatchingContexts_def
        example_kubeconfig_def)
  then show ?thesis
    using renamed_cluster_is_found [OF codec_Some example_store_ok, of "''mine''" "''dev''"]
    by (cases "updateStatelessClusterKubeconfig Some (\<lambda>k. k) ''mine'' ''dev'' example_store") simp
qed

section \<open>Refreshing the list of clusters\<close>

lemma not_isEqual:
  assumes "\<not> isEqualClusterConfigs cur (Some d)" and "dict_wf d" and "\<forall>c. cur = Some c \<longrightarrow> dict_wf c"
  shows "\<exists>c. cur = Some c \<and> set (dict_keys c) = set (dict_keys d) \<and>
    (\<forall>k a b. dict_get c k = Some a \<longrightarrow> dict_get d k = Some b \<longrightarrow> same_cluster a b)"
proof -
  obtain c where c: "cur = Some c" using assms(1) by (cases cur) (auto simp: isEqualClusterConfigs_def)
  have l: "length (dict_keys c) = length (dict_keys d)"
    and e: "\<forall>k \<in> set (dict_keys c). \<exists>b. dict_get d k = Some b \<and> same_cluster (the (dict_get c k)) b"
    using assms(1) c by (auto simp: isEqualClusterConfigs_def list_ex_iff split: if_splits option.splits)
  have "set (dict_keys c) \<subseteq> set (dict_keys d)" using e by (auto simp: dict_has_keys [symmetric] dict_has_def)
  moreover have "distinct (dict_keys c)" "distinct (dict_keys d)" using assms c by (auto simp: dict_wf_def dict_keys_def)
  ultimately have "set (dict_keys c) = set (dict_keys d)" using l
    by (metis List.finite_set card_subset_eq distinct_card)
  moreover have "same_cluster a b" if "dict_get c k = Some a" "dict_get d k = Some b" for k a b
  proof -
    have "k \<in> set (dict_keys c)" using that(1) by (simp add: dict_has_keys [symmetric] dict_has_def)
    with e that show ?thesis by fastforce
  qed
  ultimately show ?thesis using c by blast
qed

lemma isEqual_refl: "dict_wf d \<Longrightarrow> \<not> isEqualClusterConfigs (Some d) (Some d)"
  by (auto simp: isEqualClusterConfigs_def list_ex_iff same_cluster_def list_all_iff dict_has_keys [symmetric]
      dict_has_def split: option.splits)

lemma toStatelessConfigState_wf [simp]: "dict_wf (toStatelessConfigState parsed)"
proof -
  have "dict_wf (fold (\<lambda>(n, c). dict_set n c) cs m)" if "dict_wf m" for cs :: "(string \<times> (string, json) dict) list" and m
    using that by (induction cs arbitrary: m) (auto simp: split_beta)
  from this [of "[]"] show ?thesis by (simp add: toStatelessConfigState_def dict_wf_def split: option.split)
qed

text \<open>A refresh whose request succeeds leaves the redux store with exactly the clusters that
  the backend parsed out of the stored kubeconfigs, up to the field useToken, and a second
  refresh with the same answer changes nothing; isEqualClusterConfigs answers true when the
  configurations differ, against its name.\<close>

theorem refresh_shows_parsed_clusters:
  fixes answer :: "'t list \<Rightarrow> (string \<times> (string, json) dict) list option option"
  assumes "rows s \<noteq> []" and "answer (getStatelessClusterKubeConfigs s) = Some parsed"
    and "\<forall>c. cur = Some c \<longrightarrow> dict_wf c"
  shows "(\<exists>c. fetchStatelessClusterKubeConfigs answer s cur = Some c \<and>
      set (dict_keys c) = set (dict_keys (toStatelessConfigState parsed)) \<and>
      (\<forall>k a b. dict_get c k = Some a \<longrightarrow> dict_get (toStatelessConfigState parsed) k = Some b \<longrightarrow> same_cluster a b)) \<and>
    fetchStatelessClusterKubeConfigs answer s (fetchStatelessClusterKubeConfigs answer s cur) =
    fetchStatelessClusterKubeConfigs answer s cur"
proof -
  let ?d = "toStatelessConfigState parsed"
  have f: "fetchStatelessClusterKubeConfigs answer s x =
      (if isEqualClusterConfigs x (Some ?d) then Some ?d else x)" for x
    using assms(1,2) by (simp add: fetchStatelessClusterKubeConfigs_def Let_def getStatelessClusterKubeConfigs_def)
  have "same_cluster a a" for a by (simp add: same_cluster_def list_all_iff)
  then show ?thesis
    using not_isEqual [of cur ?d] assms(3) by (cases "isEqualClusterConfigs cur (Some ?d)") (auto simp: f isEqual_refl)
qed

lemma refresh_shows_parsed_clusters_witness:
  "\<exists>c. fetchStatelessClusterKubeConfigs (\<lambda>_. Some (Some [(''dev'', [])])) example_store None = Some c \<and>
    set (dict_keys c) = {''dev''}"
proof -
  have "\<exists>c. fetchStatelessClusterKubeConfigs (\<lambda>_. Some (Some [(''dev'', [])])) example_store None = Some c \<and>
      set (dict_keys c) = set (dict_keys (toStatelessConfigState (Some [(''dev'', [])])))"
    using refresh_shows_parsed_clusters [of example_store "\<lambda>_. Some (Some [(''dev'', [])])" "Some [(''dev'', [])]" None]
    by (auto simp: example_store_def)
  then show ?thesis by (simp add: toStatelessConfigState_def dict_keys_def dict_set_def)
qed

section \<open>The user's id is a short token that stays\<close>

lemma length_byte_hex [simp]: "length (byte_hex b) = 2"
  by (simp add: byte_hex_def)

lemma length_hex: "length (concat (map byte_hex bs)) = 2 * length bs"
  by (induction bs) auto

lemma hex_chars: "b < 256 \<Longrightarrow> c \<in> set (byte_hex b) \<Longrightarrow> hex_val c \<noteq> None"
proof -
  assume b: "b < 256" "c \<in> set (byte_hex b)"
  have "hex_val (hex_digit n) \<noteq> None" if "n < 16" for n
    using that by (auto simp: hex_digit_def hex_val_def is_digit_def)
  moreover have "\<exists>n < 16. c = hex_digit n"
    using b by (auto simp: byte_hex_def intro: exI [of _ "b div 16"] exI [of _ "b mod 16"])
  ultimately show "hex_val c \<noteq> None" by blast
qed

text \<open>The user's id has 16 hexadecimal digits, is the same at every later start, and is made of
  the first 8 of the 16 random bytes only: cutting the text to the length drops the other half of
  the randomness.\<close>

theorem user_id_is_half_the_random_bytes:
  assumes "length bytes = 16" and "\<forall>b \<in> set bytes. b < 256" and "\<not> truthy stored"
    and "getUserIdFromLocalStorage bytes stored = (uid, stored')"
  shows "length uid = 16 \<and> (\<forall>c \<in> set uid. hex_val c \<noteq> None) \<and> uid = concat (map byte_hex (take 8 bytes)) \<and>
    getUserIdFromLocalStorage later stored' = (uid, stored')"
proof -
  have g: "generateSecureToken bytes 16 = take 16 (concat (map byte_hex bytes))"
    using assms(1) by (simp add: generateSecureToken_def)
  have u: "uid = take 16 (concat (map byte_hex bytes))" and s: "stored' = (if uid \<noteq> [] then Some uid else stored)"
    using assms(3,4) unfolding getUserIdFromLocalStorage_def g Let_def by (auto simp del: take_eq_Nil)
  have "concat (map byte_hex bytes) = concat (map byte_hex (take 8 bytes)) @ concat (map byte_hex (drop 8 bytes))"
    by (metis append_take_drop_id concat_append map_append)
  moreover have "length (concat (map byte_hex (take 8 bytes))) = 16" using assms(1) by (simp add: length_hex)
  ultimately have h: "uid = concat (map byte_hex (take 8 bytes))" "length uid = 16" using u by simp_all
  moreover have "\<forall>c \<in> set uid. hex_val c \<noteq> None"
  proof
    fix c assume "c \<in> set uid"
    then obtain b where "b \<in> set (take 8 bytes)" "c \<in> set (byte_hex b)" by (auto simp: h(1))
    with assms(2) show "hex_val c \<noteq> None" by (meson hex_chars in_set_takeD)
  qed
  moreover have "stored' = Some uid" "uid \<noteq> []" using s h(2) by auto
  ultimately show ?thesis by (simp add: getUserIdFromLocalStorage_def)
qed

lemma user_id_is_half_the_random_bytes_witness:
  "length (fst (getUserIdFromLocalStorage (replicate 16 255) None)) = 16"
  using user_id_is_half_the_random_bytes [of "replicate 16 255" None] 
  by (cases "getUserIdFromLocalStorage (replicate 16 255) None") simp

end
