(* ===== verification/FileSystem.thy ===== *)
theory FileSystem
  imports NodePath
begin

text \<open>
  The file system as the desktop application sees it through \<^verbatim>\<open>fs\<close>: a dictionary from
  absolute, normalised paths (lists of segments) to directories and files. A file is its text,
  or the value of its text when that is JSON. The calls are functions on the dictionary; the
  ones that throw have a sum as result. \<open>readdirSync\<close> lists in the order of the dictionary.
\<close>

type_synonym path = "string list"

datatype content = Json json | Raw string

datatype node = Dir | File content

type_synonym files = "(path, node) dict"

definition exists_path :: "files \<Rightarrow> path \<Rightarrow> bool" where
  "exists_path fs p \<longleftrightarrow> p = [] \<or> dict_has fs p"

definition is_dir :: "files \<Rightarrow> path \<Rightarrow> bool" where
  "is_dir fs p \<longleftrightarrow> p = [] \<or> dict_get fs p = Some Dir"

text \<open>\<open>path.join\<close> of an absolute path and a text, and the text of a path.\<close>

definition join_path :: "path \<Rightarrow> string \<Rightarrow> path" where
  "join_path base s = fold (path_segment True) (js_split ''/'' s) base"

definition path_text :: "path \<Rightarrow> string" where
  "path_text p = concat (map (\<lambda>seg. ''/'' @ seg) p)"

text \<open>\<open>mkdirSync(p, { recursive: true })\<close>\<close>

fun make_dirs :: "path list \<Rightarrow> files \<Rightarrow> string + files" where
  "make_dirs [] fs = Inr fs"
| "make_dirs (p # ps) fs =
     (if is_dir fs p then make_dirs ps fs
      else if exists_path fs p then Inl ''ENOTDIR''
      else make_dirs ps (dict_set p Dir fs))"

definition mkdir_p :: "path \<Rightarrow> files \<Rightarrow> string + files" where
  "mkdir_p p fs = make_dirs (prefixes p) fs"

definition write_file :: "path \<Rightarrow> content \<Rightarrow> files \<Rightarrow> string + files" where
  "write_file p c fs =
    (if is_dir fs p then Inl ''EISDIR''
     else if \<not> is_dir fs (butlast p) then Inl ''ENOENT''
     else Inr (dict_set p (File c) fs))"

definition read_file :: "path \<Rightarrow> files \<Rightarrow> string + content" where
  "read_file p fs = (case dict_get fs p of Some (File c) \<Rightarrow> Inr c | Some Dir \<Rightarrow> Inl ''EISDIR'' | None \<Rightarrow> Inl ''ENOENT'')"

text \<open>\<open>rmSync(p, { recursive: true, force: true })\<close>; without the options it throws on a directory.\<close>

definition rm_tree :: "path \<Rightarrow> files \<Rightarrow> files" where
  "rm_tree p fs = filter (\<lambda>e. \<not> prefix p (fst e)) fs"

definition rm_file :: "path \<Rightarrow> files \<Rightarrow> string + files" where
  "rm_file p fs = (if is_dir fs p then Inl ''ERR_FS_EISDIR'' else if exists_path fs p then Inr (dict_delete p fs) else Inl ''ENOENT'')"

definition copy_file :: "path \<Rightarrow> path \<Rightarrow> files \<Rightarrow> string + files" where
  "copy_file p q fs = (case read_file p fs of Inl e \<Rightarrow> Inl e | Inr c \<Rightarrow> write_file q c fs)"

definition entries_in :: "path \<Rightarrow> files \<Rightarrow> (string \<times> node) list" where
  "entries_in p fs = map (\<lambda>e. (last (fst e), snd e)) (filter (\<lambda>e. fst e \<noteq> [] \<and> butlast (fst e) = p) fs)"

text \<open>\<open>cpSync(p, q, { recursive: true, force: true })\<close>: files replace files, directories are
  merged, and a file and a directory in each other's place are an error.\<close>

fun copy_entries :: "path \<Rightarrow> path \<Rightarrow> (path \<times> node) list \<Rightarrow> files \<Rightarrow> string + files" where
  "copy_entries p q [] fs = Inr fs"
| "copy_entries p q ((r, n) # es) fs =
     (let target = q @ drop (length p) r
      in case dict_get fs target of
           Some m \<Rightarrow> if (m = Dir) = (n = Dir) then copy_entries p q es (dict_set target n fs) else Inl ''ERR_FS_CP''
         | None \<Rightarrow> copy_entries p q es (dict_set target n fs))"

definition cp_tree :: "path \<Rightarrow> path \<Rightarrow> files \<Rightarrow> string + files" where
  "cp_tree p q fs =
    (if exists_path fs p then copy_entries p q (filter (\<lambda>e. prefix p (fst e)) fs) fs else Inl ''ENOENT'')"

section \<open>What the calls leave alone\<close>

definition same_outside :: "(path \<Rightarrow> bool) \<Rightarrow> files \<Rightarrow> files \<Rightarrow> bool" where
  "same_outside A fs fs' \<longleftrightarrow> (\<forall>p. \<not> A p \<longrightarrow> dict_get fs' p = dict_get fs p)"

lemma same_outside_refl [simp]: "same_outside A fs fs"
  by (simp add: same_outside_def)

lemma same_outside_trans: "same_outside A f g \<Longrightarrow> same_outside A g h \<Longrightarrow> same_outside A f h"
  by (simp add: same_outside_def)

lemma same_outside_set [intro]: "A p \<Longrightarrow> same_outside A fs (dict_set p n fs)"
  by (auto simp: same_outside_def)

lemma dict_get_rm_tree [simp]: "dict_get (rm_tree p fs) q = (if prefix p q then None else dict_get fs q)"
  by (induction fs) (auto simp: rm_tree_def dict_get_def)

lemma rm_tree_outside: "(\<And>q. prefix p q \<Longrightarrow> A q) \<Longrightarrow> same_outside A fs (rm_tree p fs)"
  by (auto simp: same_outside_def)

lemma write_file_get: "write_file p c fs = Inr fs' \<Longrightarrow> dict_get fs' q = (if q = p then Some (File c) else dict_get fs q)"
  by (auto simp: write_file_def split: if_splits)

lemma write_file_outside: "write_file p c fs = Inr fs' \<Longrightarrow> A p \<Longrightarrow> same_outside A fs fs'"
  by (auto simp: same_outside_def write_file_get)

lemma rm_file_outside: "rm_file p fs = Inr fs' \<Longrightarrow> A p \<Longrightarrow> same_outside A fs fs'"
  by (auto simp: same_outside_def rm_file_def split: if_splits)

lemma copy_file_outside: "copy_file p q fs = Inr fs' \<Longrightarrow> A q \<Longrightarrow> same_outside A fs fs'"
  by (auto simp: copy_file_def dest: write_file_outside split: sum.splits)

lemma make_dirs_outside:
  "make_dirs ps fs = Inr fs' \<Longrightarrow> (\<And>p. p \<in> set ps \<Longrightarrow> is_dir fs p \<or> A p) \<Longrightarrow> same_outside A fs fs'"
proof (induction ps fs rule: make_dirs.induct)
  case (2 p ps fs)
  show ?case
  proof (cases "is_dir fs p")
    case True
    with 2 show ?thesis by simp
  next
    case False
    then have e: "\<not> exists_path fs p" "make_dirs ps (dict_set p Dir fs) = Inr fs'" "A p"
      using 2 by (auto split: if_splits)
    have "is_dir (dict_set p Dir fs) q \<or> A q" if "q \<in> set ps" for q
      using 2(4) [of q] that e(3) by (auto simp: is_dir_def)
    with 2(2) False e have "same_outside A (dict_set p Dir fs) fs'" by simp
    then show ?thesis using e(3) same_outside_trans by blast
  qed
qed simp

lemma mkdir_p_outside:
  assumes "mkdir_p p fs = Inr fs'" and "\<And>q. prefix q p \<Longrightarrow> is_dir fs q \<or> A q"
  shows "same_outside A fs fs'"
  using assms make_dirs_outside [of "prefixes p" fs fs' A] by (simp add: mkdir_p_def)

lemma make_dirs_dirs: "make_dirs ps fs = Inr fs' \<Longrightarrow> (\<forall>p. is_dir fs p \<longrightarrow> is_dir fs' p) \<and> (\<forall>p \<in> set ps. is_dir fs' p)"
  by (induction ps fs rule: make_dirs.induct) (force simp: is_dir_def split: if_splits)+

lemma mkdir_p_dirs: "mkdir_p p fs = Inr fs' \<Longrightarrow> (\<forall>q. is_dir fs q \<longrightarrow> is_dir fs' q) \<and> (\<forall>q. prefix q p \<longrightarrow> is_dir fs' q)"
  using make_dirs_dirs [of "prefixes p" fs fs'] by (simp add: mkdir_p_def)

lemma copy_entries_Cons:
  "copy_entries p q (e # es) fs = Inr fs' \<Longrightarrow>
   copy_entries p q es (dict_set (q @ drop (length p) (fst e)) (snd e) fs) = Inr fs'"
  by (cases e) (auto simp: Let_def split: option.splits if_splits)

lemma copy_entries_outside:
  "copy_entries p q es fs = Inr fs' \<Longrightarrow> (\<And>r. prefix q r \<Longrightarrow> A r) \<Longrightarrow> same_outside A fs fs'"
proof (induction es arbitrary: fs)
  case (Cons e es)
  have "same_outside A fs (dict_set (q @ drop (length p) (fst e)) (snd e) fs)" using Cons.prems(2) by auto
  moreover have "same_outside A (dict_set (q @ drop (length p) (fst e)) (snd e) fs) fs'"
    using Cons.IH [OF copy_entries_Cons [OF Cons.prems(1)] Cons.prems(2)] .
  ultimately show ?case by (rule same_outside_trans)
qed simp

lemma cp_tree_outside: "cp_tree p q fs = Inr fs' \<Longrightarrow> (\<And>r. prefix q r \<Longrightarrow> A r) \<Longrightarrow> same_outside A fs fs'"
  by (auto simp: cp_tree_def dest: copy_entries_outside split: if_splits)

text \<open>What a copy puts where nothing was.\<close>

lemma copy_entries_get:
  assumes "copy_entries p q es fs = Inr fs'" and "\<forall>e \<in> set es. prefix p (fst e)" and "distinct (map fst es)"
  shows "dict_get fs' (q @ r) = (case map_of es (p @ r) of Some n \<Rightarrow> Some n | None \<Rightarrow> dict_get fs (q @ r))"
  using assms
proof (induction es arbitrary: fs)
  case (Cons e es)
  obtain u where u: "fst e = p @ u" using Cons.prems(2) by (auto elim: prefixE)
  have "copy_entries p q es (dict_set (q @ u) (snd e) fs) = Inr fs'"
    using copy_entries_Cons [OF Cons.prems(1)] u by simp
  then have "dict_get fs' (q @ r) =
      (case map_of es (p @ r) of Some n \<Rightarrow> Some n | None \<Rightarrow> dict_get (dict_set (q @ u) (snd e) fs) (q @ r))"
    using Cons.IH Cons.prems(2,3) by simp
  moreover have "map_of es (p @ u) = None" using Cons.prems(3) u by (simp add: map_of_eq_None_iff)
  ultimately show ?case by (cases e) (use u in \<open>auto split: option.split\<close>)
qed simp

lemma map_of_filter_key: "map_of (filter (\<lambda>e. P (fst e)) d) k = (if P k then map_of d k else None)"
  by (induction d) auto

lemma cp_tree_get:
  assumes "cp_tree p q fs = Inr fs'" and "dict_wf fs"
  shows "dict_get fs' (q @ r) = (case dict_get fs (p @ r) of Some n \<Rightarrow> Some n | None \<Rightarrow> dict_get fs (q @ r))"
proof -
  let ?es = "filter (\<lambda>e. prefix p (fst e)) fs"
  have "copy_entries p q ?es fs = Inr fs'" using assms(1) by (simp add: cp_tree_def split: if_split_asm)
  moreover have "distinct (map fst ?es)" using assms(2) unfolding dict_wf_def by (rule distinct_map_filter)
  moreover have "map_of ?es (p @ r) = dict_get fs (p @ r)" by (subst map_of_filter_key) (simp add: dict_get_def)
  moreover have "\<forall>e \<in> set ?es. prefix p (fst e)" by simp
  ultimately show ?thesis using copy_entries_get [of p q ?es fs fs' r] by metis
qed

end
