(* ===== verification/Effects.thy ===== *)
theory Effects
  imports JsPrelude
begin

text \<open>
  Code with effects and exceptions: a function of the state that gives the exception or the
  value, and the state afterwards, which an exception does not undo. The locale states what
  makes a relation between the state before and after a contract of composed code: it is
  reflexive and transitive. Its lemmas then build the contract of a routine from those of the
  calls it is made of.
\<close>

type_synonym ('s, 'e, 'a) eff = "'s \<Rightarrow> ('e + 'a) \<times> 's"

named_theorems eff_defs \<open>the combinators of code with effects\<close>

definition give :: "'a \<Rightarrow> ('s, 'e, 'a) eff" where
  [eff_defs]: "give x s = (Inr x, s)"

definition throw_error :: "'e \<Rightarrow> ('s, 'e, 'a) eff" where
  [eff_defs]: "throw_error e s = (Inl e, s)"

definition lift_sum :: "'e + 'a \<Rightarrow> ('s, 'e, 'a) eff" where
  [eff_defs]: "lift_sum r s = (r, s)"

definition change :: "('s \<Rightarrow> 's) \<Rightarrow> ('s, 'e, unit) eff" where
  [eff_defs]: "change f s = (Inr (), f s)"

definition chain :: "('s, 'e, 'a) eff \<Rightarrow> ('a \<Rightarrow> ('s, 'e, 'b) eff) \<Rightarrow> ('s, 'e, 'b) eff" where
  [eff_defs]: "chain m f s = (case m s of (Inl e, s') \<Rightarrow> (Inl e, s') | (Inr x, s') \<Rightarrow> f x s')"

text \<open>\<open>try { m } catch (e) { h e }\<close>\<close>

definition handling :: "('s, 'e, 'a) eff \<Rightarrow> ('e \<Rightarrow> ('s, 'e, 'a) eff) \<Rightarrow> ('s, 'e, 'a) eff" where
  [eff_defs]: "handling m h s = (case m s of (Inl e, s') \<Rightarrow> h e s' | (Inr x, s') \<Rightarrow> (Inr x, s'))"

definition observe :: "('s \<Rightarrow> ('s, 'e, 'a) eff) \<Rightarrow> ('s, 'e, 'a) eff" where
  [eff_defs]: "observe f s = f s s"

definition demand :: "bool \<Rightarrow> 'e \<Rightarrow> ('s, 'e, unit) eff" where
  [eff_defs]: "demand c e s = (if c then Inr () else Inl e, s)"

fun for_each :: "('x \<Rightarrow> ('s, 'e, unit) eff) \<Rightarrow> 'x list \<Rightarrow> ('s, 'e, unit) eff" where
  "for_each f [] = give ()"
| "for_each f (x # xs) = chain (f x) (\<lambda>_. for_each f xs)"

section \<open>Results of composed code\<close>

lemma chain_Inr:
  "chain m f s = (Inr y, t) \<longleftrightarrow> (\<exists>x u. m s = (Inr x, u) \<and> f x u = (Inr y, t))"
  by (auto simp: chain_def split: prod.splits sum.splits)

lemma chain_Inl:
  "chain m f s = (Inl e, t) \<longleftrightarrow> m s = (Inl e, t) \<or> (\<exists>x u. m s = (Inr x, u) \<and> f x u = (Inl e, t))"
  by (auto simp: chain_def split: prod.splits sum.splits)

lemma chain_eq: "m s = (Inr x, u) \<Longrightarrow> chain m f s = f x u" "m s = (Inl e, u) \<Longrightarrow> chain m f s = (Inl e, u)"
  by (simp_all add: chain_def)

lemma demand_Inr [simp]: "demand c e s = (Inr x, t) \<longleftrightarrow> c \<and> t = s"
  by (auto simp: demand_def)

lemma give_Inr [simp]: "give x s = (Inr y, t) \<longleftrightarrow> y = x \<and> t = s"
  by (auto simp: give_def)

lemma change_Inr [simp]: "change f s = (Inr x, t) \<longleftrightarrow> t = f s"
  by (auto simp: change_def)

lemma throw_Inr [simp]: "throw_error e s \<noteq> (Inr x, t)"
  by (simp add: throw_error_def)

lemma lift_Inr [simp]: "lift_sum r s = (Inr x, t) \<longleftrightarrow> r = Inr x \<and> t = s"
  by (auto simp: lift_sum_def)

section \<open>Contracts of composed code\<close>

definition within :: "('s \<Rightarrow> 's \<Rightarrow> bool) \<Rightarrow> ('s, 'e, 'a) eff \<Rightarrow> bool" where
  "within R m \<longleftrightarrow> (\<forall>s. R s (snd (m s)))"

lemma withinD: "within R m \<Longrightarrow> m s = (r, t) \<Longrightarrow> R s t"
  unfolding within_def by (metis snd_conv)

lemma withinI: "(\<And>s r t. m s = (r, t) \<Longrightarrow> R s t) \<Longrightarrow> within R m"
  unfolding within_def by (metis prod.collapse)

locale effect_contract =
  fixes R :: "'s \<Rightarrow> 's \<Rightarrow> bool"
  assumes same: "R s s" and compose: "R s t \<Longrightarrow> R t u \<Longrightarrow> R s u"
begin

lemma give_within: "within R (give x)"
  and throw_within: "within R (throw_error e)"
  and lift_within: "within R (lift_sum r)"
  and demand_within: "within R (demand c e)"
  by (simp_all add: within_def give_def throw_error_def lift_sum_def demand_def same)

lemma change_within: "(\<And>s. R s (f s)) \<Longrightarrow> within R (change f)"
  by (simp add: within_def change_def)

lemma chain_within:
  assumes "within R m" and "\<And>x. within R (f x)"
  shows "within R (chain m f)"
proof (rule withinI)
  fix s r t assume "chain m f s = (r, t)"
  then consider (one) r' where "m s = (r', t)" | (two) x u where "m s = (Inr x, u)" "f x u = (r, t)"
    by (auto simp: chain_def split: prod.splits sum.splits)
  then show "R s t"
    using assms by cases (blast dest: withinD compose)+
qed

lemma handling_within:
  assumes "within R m" and "\<And>e. within R (h e)"
  shows "within R (handling m h)"
proof (rule withinI)
  fix s r t assume "handling m h s = (r, t)"
  then consider (one) "m s = (r, t)" | (two) e u where "m s = (Inl e, u)" "h e u = (r, t)"
    by (auto simp: handling_def split: prod.splits sum.splits)
  then show "R s t"
    using assms by cases (blast dest: withinD compose)+
qed

lemma observe_within: "(\<And>s. within R (f s)) \<Longrightarrow> within R (observe f)"
  by (simp add: within_def observe_def)

lemma if_within: "within R m \<Longrightarrow> within R n \<Longrightarrow> within R (if c then m else n)"
  by simp

lemma for_each_within: "(\<And>x. x \<in> set xs \<Longrightarrow> within R (f x)) \<Longrightarrow> within R (for_each f xs)"
  by (induction xs) (auto intro: give_within chain_within)

end

end
