(* ===== verification/PluginManager.thy ===== *)
theory PluginManager
  imports FileSystem Effects
begin

text \<open>
  Installing, updating, listing and removing plugins in the desktop app,
  \<^verbatim>\<open>app/electron/plugin-management.ts\<close>. The world is the file system, the progress messages, the
  variable PATH and the number of times the cancellation of the download has been looked at. The
  network, the hash, unpacking, the comparison of versions and the platform are given from
  outside; the paths are POSIX paths. Errors are their messages; an error that the engine raises
  by itself is \<open>TypeError\<close>, and one of the file system its code. A copy of a directory can fail
  for lack of space: the parameter \<open>copy_fails\<close>.
\<close>

section \<open>The world and its surroundings\<close>

record plugin_data =
  pd_name :: json
  pd_title :: "json option"
  pd_version :: json
  pd_folder :: string
  pd_url :: "json option"
  pd_repo :: "json option"
  pd_author :: "json option"
  pd_hub_version :: "json option"

datatype progress = Progress string string | Listed "plugin_data list"

record pm_world =
  disk :: files
  progress_log :: "progress list"
  clock :: nat
  path_var :: "string option"

datatype response = Fetch_Error | Response nat "string option"

text \<open>The answer of Artifact Hub: its fields have their documented types, \<open>data\<close> may be missing.\<close>

record hub_answer =
  ha_name :: string
  ha_display_name :: string
  ha_version :: string
  ha_repo :: string
  ha_alias :: string
  ha_data :: "(string \<times> string) list option"

datatype hub_response = Hub_Error | Hub_Status nat | Hub_Answer hub_answer

record pm_env =
  fetch_file :: "string \<Rightarrow> response"
  fetch_hub :: "string \<Rightarrow> hub_response"
  sha256 :: "string \<Rightarrow> string"
  untar :: "nat \<Rightarrow> string \<Rightarrow> (path \<times> content) list option"
  semver_satisfies :: "string \<Rightarrow> string option \<Rightarrow> bool"
  semver_lte :: "string \<Rightarrow> json option \<Rightarrow> string + bool"
  abort_at :: "nat option"
  reports :: bool
  platform :: string
  arch_name :: string
  under_test :: bool
  temp_dir :: path
  work_dir :: path
  copy_fails :: bool

type_synonym 'a pm = "(pm_world, string, 'a) eff"

text \<open>The progress callback, when there is one, and looking at the signal.\<close>

definition progress :: "pm_env \<Rightarrow> progress \<Rightarrow> unit pm" where
  "progress env m = change (\<lambda>w. if reports env then w\<lparr>progress_log := progress_log w @ [m]\<rparr> else w)"

definition check_signal :: "pm_env \<Rightarrow> string \<Rightarrow> unit pm" where
  "check_signal env msg = observe (\<lambda>w. chain (change (\<lambda>w. w\<lparr>clock := Suc (clock w)\<rparr>))
     (\<lambda>_. demand (case abort_at env of None \<Rightarrow> True | Some k \<Rightarrow> clock w < k) msg))"

definition on_disk :: "(files \<Rightarrow> string + files) \<Rightarrow> unit pm" where
  "on_disk f w = (case f (disk w) of Inl e \<Rightarrow> (Inl e, w) | Inr fs \<Rightarrow> (Inr (), w\<lparr>disk := fs\<rparr>))"

definition from_disk :: "(files \<Rightarrow> string + 'a) \<Rightarrow> 'a pm" where
  "from_disk f w = (f (disk w), w)"

text \<open>The \<open>catch\<close> of the entry points: report to the callback, or rethrow.\<close>

definition reporting :: "pm_env \<Rightarrow> 'a \<Rightarrow> 'a pm \<Rightarrow> 'a pm" where
  "reporting env d m = handling m (\<lambda>e. if reports env
     then chain (progress env (Progress ''error'' e)) (\<lambda>_. give d) else throw_error e)"

section \<open>Annotations\<close>

text \<open>The nested object that the annotations are turned into.\<close>

datatype ann = Leaf string | Node "(string \<times> ann) list"

fun ann_prop :: "ann \<Rightarrow> string \<Rightarrow> ann option" where
  "ann_prop (Leaf s) k = None"
| "ann_prop (Node d) k = dict_get d k"

definition ann_truthy :: "ann option \<Rightarrow> bool" where
  "ann_truthy v = (case v of None \<Rightarrow> False | Some (Leaf s) \<Rightarrow> s \<noteq> [] | Some (Node d) \<Rightarrow> True)"

text \<open>\<open>Object.values\<close>\<close>

fun ann_values :: "ann option \<Rightarrow> string + ann list" where
  "ann_values None = Inl ''TypeError''"
| "ann_values (Some (Leaf s)) = Inr (map (\<lambda>c. Leaf [c]) s)"
| "ann_values (Some (Node d)) = Inr (dict_values d)"

text \<open>The walk along the parts of one key. A property of a text cannot be assigned in strict
  mode.\<close>

fun ann_assign :: "string list \<Rightarrow> string \<Rightarrow> (string \<times> ann) list \<Rightarrow> string + (string \<times> ann) list" where
  "ann_assign [] v d = Inr d"
| "ann_assign [p] v d = Inr (dict_set p (Leaf v) d)"
| "ann_assign (p # q # ps) v d =
     (case (if ann_truthy (dict_get d p) then dict_get d p else Some (Node [])) of
        Some (Node e) \<Rightarrow> (case ann_assign (q # ps) v e of Inl x \<Rightarrow> Inl x | Inr e' \<Rightarrow> Inr (dict_set p (Node e') d))
      | _ \<Rightarrow> Inl ''TypeError'')"

fun convert_from :: "(string \<times> string) list \<Rightarrow> (string \<times> ann) list \<Rightarrow> string + (string \<times> ann) list" where
  "convert_from [] d = Inr d"
| "convert_from ((k, v) # as) d =
     (case ann_assign (js_split ''/'' k) v d of Inl e \<Rightarrow> Inl e | Inr d' \<Rightarrow> convert_from as d')"

definition convertAnnotations :: "(string \<times> string) list \<Rightarrow> string + ann" where
  "convertAnnotations as = map_sum id Node (convert_from as [])"

text \<open>\<open>s.startsWith(t)\<close> where \<open>s\<close> may be anything.\<close>

definition ann_starts :: "ann option \<Rightarrow> string \<Rightarrow> string + bool" where
  "ann_starts v t = (case v of Some (Leaf s) \<Rightarrow> Inr (prefix t s) | _ \<Rightarrow> Inl ''TypeError'')"

definition ann_text :: "ann option \<Rightarrow> string" where
  "ann_text v = (case v of None \<Rightarrow> ''undefined'' | Some (Leaf s) \<Rightarrow> s | Some (Node d) \<Rightarrow> ''[object Object]'')"

definition backslash_text :: string where
  "backslash_text = [CHR 0x5C]"

fun reject_path :: "string \<Rightarrow> ann option \<Rightarrow> string option" where
  "reject_path what (Some (Leaf s)) =
     (if prefix ''..'' s \<or> prefix ''/'' s \<or> prefix backslash_text s
      then Some (''Invalid extra file '' @ what @ '' path, '' @ s) else None)"
| "reject_path what v = Some ''TypeError''"

definition reject_value :: "ann \<Rightarrow> string option" where
  "reject_value v =
    (case reject_path ''output'' (ann_prop v ''output'') of
       Some e \<Rightarrow> Some e
     | None \<Rightarrow> reject_path ''input'' (ann_prop v ''input''))"

fun first_error :: "('x \<Rightarrow> string option) \<Rightarrow> 'x list \<Rightarrow> string option" where
  "first_error f [] = None"
| "first_error f (x # xs) = (case f x of Some e \<Rightarrow> Some e | None \<Rightarrow> first_error f xs)"

definition reject_output :: "ann \<Rightarrow> string option" where
  "reject_output f = (case ann_values (ann_prop f ''output'') of Inl e \<Rightarrow> Some e | Inr vs \<Rightarrow> first_error reject_value vs)"

definition minikube_url :: string where
  "minikube_url = ''https://github.com/kubernetes/minikube/releases/download/''"

definition vfkit_url :: string where
  "vfkit_url = ''https://github.com/crc-org/vfkit/releases/download/''"

fun reject_url :: "bool \<Rightarrow> ann option \<Rightarrow> string option" where
  "reject_url tested (Some (Leaf s)) =
     (if tested \<and> str_includes s ''localhost'' \<or> prefix minikube_url s \<or> prefix vfkit_url s
      then None else Some (''Invalid URL, '' @ s))"
| "reject_url tested None = Some (if tested then ''TypeError'' else ''Invalid URL, undefined'')"
| "reject_url tested (Some (Node d)) = Some ''TypeError''"

definition getExtraFiles :: "bool \<Rightarrow> (string \<times> string) list \<Rightarrow> string + ann option" where
  "getExtraFiles tested as =
    (case convertAnnotations as of
       Inl e \<Rightarrow> Inl e
     | Inr c \<Rightarrow>
         (let extra = Option.bind (Option.bind (ann_prop c ''headlamp'') (\<lambda>h. ann_prop h ''plugin''))
                (\<lambda>p. ann_prop p ''extra-files'')
          in if \<not> ann_truthy extra then Inr None
             else case ann_values extra of
               Inl e \<Rightarrow> Inl e
             | Inr fs \<Rightarrow>
                 (case first_error reject_output fs of
                    Some e \<Rightarrow> Inl e
                  | None \<Rightarrow>
                      (case first_error (\<lambda>f. reject_url tested (ann_prop f ''url'')) fs of
                         Some e \<Rightarrow> Inl e
                       | None \<Rightarrow> Inr extra))))"

section \<open>Metadata\<close>

record plugin_pkg =
  pk_name :: string
  pk_display_name :: string
  pk_repo :: string
  pk_alias :: string
  pk_version :: string
  pk_archiveURL :: "string option"
  pk_checksum :: "string option"
  pk_compat :: "string option"
  pk_extraFiles :: "ann option"

definition hub_prefix :: string where
  "hub_prefix = ''https://artifacthub.io/packages/headlamp/''"

definition api_url :: "string \<Rightarrow> string" where
  "api_url u = ''https://artifacthub.io/api/v1/packages/headlamp/'' @ drop (length hub_prefix) u"

definition pkg_of :: "pm_env \<Rightarrow> hub_answer \<Rightarrow> string + plugin_pkg" where
  "pkg_of env a = (case ha_data a of
     None \<Rightarrow> Inl ''TypeError''
   | Some d \<Rightarrow> (case getExtraFiles (under_test env) d of
       Inl e \<Rightarrow> Inl e
     | Inr x \<Rightarrow> Inr \<lparr>pk_name = ha_name a, pk_display_name = ha_display_name a, pk_repo = ha_repo a,
         pk_alias = ha_alias a, pk_version = ha_version a,
         pk_archiveURL = dict_get d ''headlamp/plugin/archive-url'',
         pk_checksum = dict_get d ''headlamp/plugin/archive-checksum'',
         pk_compat = dict_get d ''headlamp/plugin/version-compat'', pk_extraFiles = x\<rparr>))"

text \<open>How many of the keys of the extra files there are, in the message.\<close>

definition ann_size :: "ann option \<Rightarrow> nat" where
  "ann_size v = (case v of None \<Rightarrow> 0 | Some (Leaf s) \<Rightarrow> length s | Some (Node d) \<Rightarrow> length d)"

definition nat_text :: "nat \<Rightarrow> string" where
  "nat_text n = digits_of n"

definition fetchPluginInfo :: "pm_env \<Rightarrow> string \<Rightarrow> plugin_pkg pm" where
  "fetchPluginInfo env u = handling
    (chain (demand (prefix hub_prefix u) ''Invalid URL. Please provide a valid URL from ArtifactHub.'') (\<lambda>_.
     chain (progress env (Progress ''info'' ''Fetching Plugin Metadata'')) (\<lambda>_.
     chain (check_signal env ''This operation was aborted'') (\<lambda>_.
     (case fetch_hub env (api_url u) of
        Hub_Error \<Rightarrow> throw_error ''fetch failed''
      | Hub_Status n \<Rightarrow> throw_error (''HTTP error! status: '' @ nat_text n)
      | Hub_Answer a \<Rightarrow>
          chain (lift_sum (pkg_of env a)) (\<lambda>k.
          chain (if pk_extraFiles k = None then give ()
                 else progress env (Progress ''info'' (''Found '' @ nat_text (ann_size (pk_extraFiles k)) @
                   '' platform-specific extra files''))) (\<lambda>_. give k))))))
    ) (\<lambda>e. chain (progress env (Progress ''error'' e)) (\<lambda>_. throw_error e))"

section \<open>Checks\<close>

definition validatePluginName :: "string \<Rightarrow> bool" where
  "validatePluginName n \<longleftrightarrow> \<not> (CHR ''/'' \<in> set n \<or> CHR 0x5C \<in> set n \<or> str_includes n ''..'')"

text \<open>The part \<open>.*\<close> of a regular expression does not match line ends.\<close>

definition one_line :: "string \<Rightarrow> bool" where
  "one_line s \<longleftrightarrow> list_all (\<lambda>c. c \<noteq> CHR 0x0A \<and> c \<noteq> CHR 0x0D) s"

text \<open>\<open>^host[^/]+/[^/]+/(kind|kind)/.*$\<close>\<close>

definition repo_url :: "string \<Rightarrow> string list list \<Rightarrow> string \<Rightarrow> bool" where
  "repo_url host kinds s \<longleftrightarrow> prefix host s \<and>
    (case js_split ''/'' (drop (length host) s) of
       owner # repo # rest \<Rightarrow> owner \<noteq> [] \<and> repo \<noteq> [] \<and>
         list_ex (\<lambda>ks. prefix ks rest \<and> length ks < length rest \<and> list_all one_line (drop (length ks) rest)) kinds
     | _ \<Rightarrow> False)"

definition slash_rest :: "string \<Rightarrow> bool" where
  "slash_rest t \<longleftrightarrow> t \<noteq> [] \<and> hd t = CHR ''/'' \<and> one_line (tl t)"

definition local_url :: "string \<Rightarrow> bool" where
  "local_url s = list_ex (\<lambda>h. prefix h s \<and>
     (case drop (length h) s of
        c # u \<Rightarrow> if c = CHR '':'' then takeWhile is_digit u \<noteq> [] \<and> slash_rest (dropWhile is_digit u) else slash_rest (c # u)
      | [] \<Rightarrow> False)) [''http://localhost'', ''https://localhost'']"

definition trusted_url :: "string \<Rightarrow> bool" where
  "trusted_url u \<longleftrightarrow>
     repo_url ''https://github.com/'' [[''releases''], [''archive'']] u \<or>
     repo_url ''https://bitbucket.org/'' [[''downloads''], [''get'']] u \<or>
     repo_url ''https://gitlab.com/'' [[''-'', ''archive''], [''releases'']] u \<or>
     prefix ''https://github.com/yolossn/headlamp-plugins/'' u"

definition validateArchiveURL :: "pm_env \<Rightarrow> ann option \<Rightarrow> string + bool" where
  "validateArchiveURL env u = (case u of
     Some (Leaf s) \<Rightarrow> Inr (trusted_url s \<or> under_test env \<and> local_url s)
   | _ \<Rightarrow> Inl ''TypeError'')"

definition remove_first :: "string \<Rightarrow> string \<Rightarrow> string" where
  "remove_first t s = (case split_first t s of None \<Rightarrow> s | Some (a, b) \<Rightarrow> a @ b)"

definition plain_checksum :: "string \<Rightarrow> string" where
  "plain_checksum c = (if prefix ''sha256:'' c \<or> prefix ''SHA256:'' c
     then remove_first ''SHA256:'' (remove_first ''sha256:'' c) else c)"

definition isTarGz :: "string \<Rightarrow> bool" where
  "isTarGz u \<longleftrightarrow> suffix ''.tar.gz'' u \<or> suffix ''.tgz'' u \<or> suffix ''.tar'' u \<or>
     str_includes u ''.tar.gz?'' \<or> str_includes u ''.tgz?'' \<or> str_includes u ''.tar?''"

definition base_name :: "string \<Rightarrow> string" where
  "base_name s = (case filter (\<lambda>x. x \<noteq> []) (js_split ''/'' s) of [] \<Rightarrow> [] | xs \<Rightarrow> last xs)"

definition bad_file_name :: "string \<Rightarrow> bool" where
  "bad_file_name n \<longleftrightarrow> str_includes n ''..'' \<or> prefix ''/'' n \<or> prefix backslash_text n \<or>
     n = [] \<or> n = ''.'' \<or> n = ''..''"

section \<open>Downloads\<close>

definition extract_all :: "path \<Rightarrow> (path \<times> content) list \<Rightarrow> unit pm" where
  "extract_all folder = for_each (\<lambda>(p, c).
     chain (on_disk (mkdir_p (folder @ butlast p))) (\<lambda>_. on_disk (write_file (folder @ p) c)))"

definition save_archive :: "pm_env \<Rightarrow> string \<Rightarrow> string \<Rightarrow> path \<Rightarrow> nat \<Rightarrow> unit pm" where
  "save_archive env u body folder strip =
    (if isTarGz u
     then chain (progress env (Progress ''info'' ''Extracting plugin'')) (\<lambda>_.
          chain (case untar env strip body of None \<Rightarrow> throw_error ''TAR_BAD_ARCHIVE'' | Some es \<Rightarrow> extract_all folder es) (\<lambda>_.
          chain (check_signal env ''Download cancelled'') (\<lambda>_.
          progress env (Progress ''info'' ''Plugin extracted''))))
     else (let n = base_name (hd (js_split ''?'' u)); out = join_path folder n in
          chain (demand (\<not> bad_file_name n) ''Invalid file name in archive URL'') (\<lambda>_.
          chain (demand (folder \<noteq> [] \<and> strict_prefix folder out) ''Attempted path traversal in file name'') (\<lambda>_.
          chain (progress env (Progress ''info'' (''Saving file to '' @ path_text out))) (\<lambda>_.
          chain (on_disk (write_file out (Raw body))) (\<lambda>_.
          progress env (Progress ''info'' ''File downloaded'')))))))"

definition downloadAndExtractSingleArchive :: "pm_env \<Rightarrow> ann option \<Rightarrow> ann option \<Rightarrow> path \<Rightarrow> nat \<Rightarrow> unit pm" where
  "downloadAndExtractSingleArchive env url checksum folder strip =
    (let u = ann_text url; c = ann_text checksum in
     chain (lift_sum (validateArchiveURL env url)) (\<lambda>good.
     chain (demand good (''Invalid plugin/archive-url:'' @ u)) (\<lambda>_.
     chain (demand (u \<noteq> [] \<and> ann_truthy checksum) ''Invalid plugin metadata. Please check the plugin details.'') (\<lambda>_.
     chain (lift_sum (ann_starts checksum ''sha256:'')) (\<lambda>_.
     chain (check_signal env ''Download cancelled'') (\<lambda>_.
     chain (check_signal env ''Failed to fetch archive. Please check the URL and your network connection.'') (\<lambda>_.
     (case fetch_file env u of
        Fetch_Error \<Rightarrow> throw_error ''Failed to fetch archive. Please check the URL and your network connection.''
      | Response status body \<Rightarrow>
          chain (demand (200 \<le> status \<and> status \<le> 299) (''Failed to download file. Status code: '' @ nat_text status)) (\<lambda>_.
          chain (check_signal env ''Download cancelled'') (\<lambda>_.
          chain (demand (body \<noteq> None) ''Download empty'') (\<lambda>_.
          chain (check_signal env ''This operation was aborted'') (\<lambda>_.
          chain (demand (sha256 env (the body) = plain_checksum c) ''Checksum mismatch.'') (\<lambda>_.
          chain (check_signal env ''Download cancelled'') (\<lambda>_.
          save_archive env u (the body) folder strip))))))))))))))"

section \<open>Extra files\<close>

definition current_arch :: "pm_env \<Rightarrow> string" where
  "current_arch env = platform env @ ''/'' @ arch_name env"

fun matching_files :: "string \<Rightarrow> ann list \<Rightarrow> string + ann list" where
  "matching_files a [] = Inr []"
| "matching_files a (f # fs) =
     (case ann_prop f ''arch'' of
        Some (Leaf s) \<Rightarrow> (case matching_files a fs of Inl e \<Rightarrow> Inl e
          | Inr gs \<Rightarrow> Inr (if to_lower s = to_lower a then f # gs else gs))
      | _ \<Rightarrow> Inl ''TypeError'')"

definition getMatchingExtraFiles :: "pm_env \<Rightarrow> ann option \<Rightarrow> string + ann list" where
  "getMatchingExtraFiles env extra =
    (case ann_values (if ann_truthy extra then extra else Some (Node [])) of
       Inl e \<Rightarrow> Inl e | Inr fs \<Rightarrow> matching_files (current_arch env) fs)"

text \<open>\<open>path.join\<close> with a second argument that may be anything.\<close>

definition join_ann :: "path \<Rightarrow> ann option \<Rightarrow> string + path" where
  "join_ann base v = (case v of Some (Leaf s) \<Rightarrow> Inr (join_path base s) | _ \<Rightarrow> Inl ''TypeError'')"

definition add_exe :: "path \<Rightarrow> path" where
  "add_exe p = (if p = [] then [''.exe''] else butlast p @ [last p @ ''.exe''])"

definition output_path :: "pm_env \<Rightarrow> path \<Rightarrow> ann option \<Rightarrow> string + path" where
  "output_path env bin v = (case join_ann bin v of
     Inl e \<Rightarrow> Inl e
   | Inr p \<Rightarrow> Inr (if platform env = ''win32'' \<and> \<not> suffix ''.js'' (ann_text v) then add_exe p else p))"

definition same_text :: "ann option \<Rightarrow> ann option \<Rightarrow> bool" where
  "same_text a b = (case (a, b) of (Some (Leaf s), Some (Leaf t)) \<Rightarrow> s = t | _ \<Rightarrow> False)"

definition move_file :: "pm_env \<Rightarrow> path \<Rightarrow> path \<Rightarrow> unit pm" where
  "move_file env source target =
    chain (on_disk (copy_file source target)) (\<lambda>_.
    chain (on_disk (rm_file source)) (\<lambda>_.
    chain (from_disk (\<lambda>fs. Inr (entries_in (butlast source) fs = []))) (\<lambda>emptied.
    chain (if emptied then on_disk (rm_file (butlast source)) else give ()) (\<lambda>_.
    progress env (Progress ''info'' (''Moved platform-specific file to '' @ path_text target))))))"

definition move_output :: "pm_env \<Rightarrow> path \<Rightarrow> ann \<Rightarrow> unit pm" where
  "move_output env bin v =
    (let out = ann_prop v ''output''; inp = ann_prop v ''input'' in
     if \<not> ann_truthy out \<or> \<not> ann_truthy inp \<or> same_text inp out then give ()
     else chain (lift_sum (output_path env bin out)) (\<lambda>target.
          chain (lift_sum (join_ann bin inp)) (\<lambda>source.
          if source = target then give () else move_file env source target)))"

definition download_one :: "pm_env \<Rightarrow> path \<Rightarrow> ann \<Rightarrow> unit pm" where
  "download_one env bin f =
    (let url = ann_prop f ''url'' in
     chain (check_signal env ''Download cancelled'') (\<lambda>_.
     chain (if reports env
            then chain (lift_sum (ann_starts url [])) (\<lambda>_.
                 progress env (Progress ''info'' (''Downloading platform-specific file for '' @ ann_text (ann_prop f ''arch'') @
                   '': '' @ base_name (ann_text url))))
            else give ()) (\<lambda>_.
     chain (handling (downloadAndExtractSingleArchive env url (ann_prop f ''checksum'') bin 0)
              (\<lambda>e. if reports env
                   then progress env (Progress ''error'' (''Failed to download extra file '' @ ann_text url @ '': '' @ e))
                   else throw_error e)) (\<lambda>_.
     chain (lift_sum (ann_values (ann_prop f ''output''))) (\<lambda>vs. for_each (move_output env bin) vs)))))"

definition downloadExtraFiles :: "pm_env \<Rightarrow> ann option \<Rightarrow> path \<Rightarrow> unit pm" where
  "downloadExtraFiles env extra folder =
    (if \<not> ann_truthy extra \<or> ann_size extra = 0 then give ()
     else chain (lift_sum (getMatchingExtraFiles env extra)) (\<lambda>fs.
       if fs = [] then progress env (Progress ''info'' (''No extra files found for platform '' @ current_arch env))
       else chain (on_disk (mkdir_p (folder @ [''bin'']))) (\<lambda>_.
            chain (for_each (download_one env (folder @ [''bin''])) fs) (\<lambda>_.
            progress env (Progress ''info'' (''Downloaded '' @ nat_text (length fs) @ '' extra files for '' @ current_arch env))))))"

section \<open>Fetching a plugin into the temporary folder\<close>

definition parse_json :: "path \<Rightarrow> files \<Rightarrow> string + json" where
  "parse_json p fs = (case read_file p fs of Inl e \<Rightarrow> Inl e | Inr (Raw t) \<Rightarrow> Inl ''SyntaxError'' | Inr (Json j) \<Rightarrow> Inr j)"

definition hub_entry :: "plugin_pkg \<Rightarrow> json" where
  "hub_entry k = JObj [(''name'', JStr (pk_name k)), (''title'', JStr (pk_display_name k)),
     (''url'', JStr (hub_prefix @ pk_repo k @ ''/'' @ pk_name k)), (''version'', JStr (pk_version k)),
     (''repoName'', JStr (pk_repo k)), (''author'', JStr (pk_alias k))]"

definition with_metadata :: "plugin_pkg \<Rightarrow> json \<Rightarrow> string + json" where
  "with_metadata k j = (case j of
     JObj fs \<Rightarrow> Inr (JObj (dict_set ''isManagedByHeadlampPlugin'' (JBool True) (dict_set ''artifacthub'' (hub_entry k) fs)))
   | JArr xs \<Rightarrow> Inr (JArr xs)
   | _ \<Rightarrow> Inl ''TypeError'')"

text \<open>\<open>mkdirSync\<close> gives the first directory that it made: none for the names \<open>''\<close> and \<open>.\<close>, whose
  folder is the temporary directory itself. The folder is then the empty text, which unpacking
  resolves to the working directory, and before \<open>/package.json\<close> to the root.\<close>

definition temp_folder :: "pm_env \<Rightarrow> string \<Rightarrow> path option" where
  "temp_folder env n = (if join_path (temp_dir env) n = temp_dir env then None else Some (join_path (temp_dir env) n))"

definition unpack_dir :: "pm_env \<Rightarrow> path option \<Rightarrow> path" where
  "unpack_dir env t = (case t of None \<Rightarrow> work_dir env | Some p \<Rightarrow> p)"

definition package_file :: "path option \<Rightarrow> path" where
  "package_file t = (case t of None \<Rightarrow> [''package.json''] | Some p \<Rightarrow> p @ [''package.json''])"

definition check_compat :: "pm_env \<Rightarrow> plugin_pkg \<Rightarrow> string \<Rightarrow> unit pm" where
  "check_compat env k hv =
    (if hv = [] then give ()
     else chain (progress env (Progress ''info'' ''Checking compatibility with Headlamp version'')) (\<lambda>_.
          if semver_satisfies env hv (pk_compat k)
          then progress env (Progress ''info'' ''Headlamp version is compatible'')
          else throw_error ''Headlamp version is not compatible with the plugin''))"

definition downloadExtractArchive :: "pm_env \<Rightarrow> plugin_pkg \<Rightarrow> string \<Rightarrow> (string \<times> path option) pm" where
  "downloadExtractArchive env k hv =
    chain (check_signal env ''Download cancelled'') (\<lambda>_.
    chain (demand (validatePluginName (pk_name k)) ''Invalid plugin name'') (\<lambda>_.
    chain (check_compat env k hv) (\<lambda>_.
    chain (check_signal env ''Download cancelled'') (\<lambda>_.
    (let t = temp_folder env (pk_name k) in
     chain (on_disk (mkdir_p (case t of None \<Rightarrow> temp_dir env | Some p \<Rightarrow> p))) (\<lambda>_.
     chain (progress env (Progress ''info'' ''Downloading main plugin archive'')) (\<lambda>_.
     chain (downloadAndExtractSingleArchive env (map_option Leaf (pk_archiveURL k)) (map_option Leaf (pk_checksum k))
              (unpack_dir env t) 1) (\<lambda>_.
     chain (downloadExtraFiles env (pk_extraFiles k) (unpack_dir env t)) (\<lambda>_.
     chain (from_disk (parse_json (package_file t))) (\<lambda>j.
     chain (lift_sum (with_metadata k j)) (\<lambda>j'.
     chain (on_disk (write_file (package_file t) (Json j'))) (\<lambda>_. give (pk_name k, t)))))))))))))"

section \<open>Listing\<close>

definition checkValidPluginFolder :: "files \<Rightarrow> path \<Rightarrow> string + bool" where
  "checkValidPluginFolder fs p =
    (if \<not> exists_path fs p then Inr False
     else if \<not> exists_path fs (p @ [''main.js'']) \<or> \<not> exists_path fs (p @ [''package.json'']) then Inr False
     else case parse_json (p @ [''package.json'']) fs of
       Inl e \<Rightarrow> Inl e
     | Inr j \<Rightarrow> (case jprop j ''isManagedByHeadlampPlugin'' of Inl e \<Rightarrow> Inl ''TypeError'' | Inr v \<Rightarrow> Inr (jtruthy v)))"

text \<open>\<open>v ? v.k : null\<close> where \<open>v\<close> is not \<open>null\<close> or \<open>undefined\<close>.\<close>

definition hub_field :: "json \<Rightarrow> string \<Rightarrow> json option" where
  "hub_field a k = (if jtruthy (Some a) then (case jprop a k of Inl _ \<Rightarrow> None | Inr v \<Rightarrow> v) else Some JNull)"

definition plugin_row :: "string \<Rightarrow> json \<Rightarrow> string + plugin_data" where
  "plugin_row folder j =
    (case (jprop j ''name'', jprop j ''version'', jprop j ''artifacthub'') of
       (Inr n, Inr v, Inr (Some a)) \<Rightarrow>
         (case jprop a ''title'' of
            Inl e \<Rightarrow> Inl ''TypeError''
          | Inr t \<Rightarrow> Inr \<lparr>pd_name = jor n (JStr folder), pd_title = t, pd_version = jor v JNull, pd_folder = folder,
              pd_url = hub_field a ''url'', pd_repo = hub_field a ''repoName'', pd_author = hub_field a ''author'',
              pd_hub_version = hub_field a ''version''\<rparr>)
     | _ \<Rightarrow> Inl ''TypeError'')"

fun plugin_rows :: "files \<Rightarrow> path \<Rightarrow> string list \<Rightarrow> string + plugin_data list" where
  "plugin_rows fs folder [] = Inr []"
| "plugin_rows fs folder (n # ns) =
     (case checkValidPluginFolder fs (folder @ [n]) of
        Inl e \<Rightarrow> Inl e
      | Inr False \<Rightarrow> plugin_rows fs folder ns
      | Inr True \<Rightarrow>
          (case parse_json (folder @ [n, ''package.json'']) fs of
             Inl e \<Rightarrow> Inl e
           | Inr j \<Rightarrow>
               (case plugin_row n j of
                  Inl e \<Rightarrow> Inl e
                | Inr d \<Rightarrow> (case plugin_rows fs folder ns of Inl e \<Rightarrow> Inl e | Inr ds \<Rightarrow> Inr (d # ds)))))"

definition list_plugins :: "path \<Rightarrow> files \<Rightarrow> string + plugin_data list" where
  "list_plugins folder fs =
    (if \<not> is_dir fs folder then Inl (if exists_path fs folder then ''ENOTDIR'' else ''ENOENT'')
     else plugin_rows fs folder (map fst (filter (\<lambda>e. snd e = Dir) (entries_in folder fs))))"

definition pm_list :: "pm_env \<Rightarrow> path \<Rightarrow> plugin_data list option pm" where
  "pm_list env folder = reporting env None
    (chain (from_disk (list_plugins folder)) (\<lambda>ds.
     if reports env then chain (progress env (Listed ds)) (\<lambda>_. give None) else give (Some ds)))"

section \<open>Installing, updating and removing\<close>

definition moveDirs :: "pm_env \<Rightarrow> path option \<Rightarrow> path \<Rightarrow> unit pm" where
  "moveDirs env t target = (case t of
     None \<Rightarrow> throw_error ''ENOENT''
   | Some p \<Rightarrow>
       if copy_fails env then throw_error ''ENOSPC''
       else chain (on_disk (cp_tree p target)) (\<lambda>_. on_disk (\<lambda>fs. Inr (rm_tree p fs))))"

definition validPluginBinFolder :: "string \<Rightarrow> bool" where
  "validPluginBinFolder n \<longleftrightarrow> n = ''headlamp_minikube'' \<or> n = ''headlamp_minikubeprerelease''"

definition addToPath :: "pm_env \<Rightarrow> string list \<Rightarrow> pm_world \<Rightarrow> pm_world" where
  "addToPath env dirs w =
    (if dirs = [] then w
     else w\<lparr>path_var := Some (js_join (if platform env = ''win32'' then '';'' else '':'')
       (dirs @ [case path_var w of None \<Rightarrow> [] | Some p \<Rightarrow> p]))\<rparr>)"

definition getPluginBinDirectories :: "files \<Rightarrow> path \<Rightarrow> path list" where
  "getPluginBinDirectories fs dir =
    (if \<not> is_dir fs dir then []
     else filter (exists_path fs) (map (\<lambda>e. dir @ [fst e, ''bin''])
       (filter (\<lambda>e. snd e = Dir \<and> validPluginBinFolder (fst e)) (entries_in dir fs))))"

definition installFromPluginPkg :: "pm_env \<Rightarrow> plugin_pkg \<Rightarrow> path \<Rightarrow> string \<Rightarrow> unit pm" where
  "installFromPluginPkg env k dest hv = reporting env ()
    (chain (downloadExtractArchive env k hv) (\<lambda>(n, t).
     chain (on_disk (mkdir_p dest)) (\<lambda>_.
     chain (moveDirs env t (join_path dest (base_name n))) (\<lambda>_.
     chain (progress env (Progress ''success'' ''Plugin Installed'')) (\<lambda>_.
     if validPluginBinFolder (base_name n)
     then change (addToPath env [path_text (join_path dest (base_name n) @ [''bin''])])
     else give ())))))"

definition install :: "pm_env \<Rightarrow> string \<Rightarrow> path \<Rightarrow> string \<Rightarrow> unit pm" where
  "install env url dest hv =
    chain (reporting env None (chain (fetchPluginInfo env url) (\<lambda>k. give (Some k)))) (\<lambda>info.
    case info of None \<Rightarrow> give () | Some k \<Rightarrow> installFromPluginPkg env k dest hv)"

definition find_plugin :: "json \<Rightarrow> path \<Rightarrow> files \<Rightarrow> string + plugin_data" where
  "find_plugin n dest fs = (case list_plugins dest fs of
     Inl e \<Rightarrow> Inl e
   | Inr ds \<Rightarrow> (case find (\<lambda>d. pd_name d = n) ds of None \<Rightarrow> Inl ''Plugin not found'' | Some d \<Rightarrow> Inr d))"

definition fetch_installed :: "pm_env \<Rightarrow> json option \<Rightarrow> plugin_pkg pm" where
  "fetch_installed env u = (case u of
     Some (JStr s) \<Rightarrow> fetchPluginInfo env s
   | _ \<Rightarrow> chain (progress env (Progress ''error'' ''TypeError'')) (\<lambda>_. throw_error ''TypeError''))"

definition installed_version :: "json \<Rightarrow> string + json option" where
  "installed_version j = (case jprop j ''artifacthub'' of
     Inr (Some a) \<Rightarrow> (case jprop a ''version'' of Inl e \<Rightarrow> Inl ''TypeError'' | Inr v \<Rightarrow> Inr v)
   | _ \<Rightarrow> Inl ''TypeError'')"

definition pm_update :: "pm_env \<Rightarrow> string \<Rightarrow> path \<Rightarrow> string \<Rightarrow> unit pm" where
  "pm_update env n dest hv = reporting env ()
    (chain (from_disk (find_plugin (JStr n) dest)) (\<lambda>d.
     let dir = dest @ [pd_folder d] in
     chain (from_disk (parse_json (dir @ [''package.json'']))) (\<lambda>j.
     chain (fetch_installed env (pd_url d)) (\<lambda>k.
     chain (lift_sum (installed_version j)) (\<lambda>v.
     chain (lift_sum (semver_lte env (pk_version k) v)) (\<lambda>old.
     chain (demand (\<not> old) ''No updates available'') (\<lambda>_.
     chain (downloadExtractArchive env k hv) (\<lambda>(_, t).
     chain (on_disk (mkdir_p dest)) (\<lambda>_.
     chain (on_disk (\<lambda>fs. Inr (rm_tree dir fs))) (\<lambda>_.
     chain (on_disk (mkdir_p dir)) (\<lambda>_.
     chain (moveDirs env t dir) (\<lambda>_.
     progress env (Progress ''success'' ''Plugin Updated'')))))))))))))"

definition uninstall :: "pm_env \<Rightarrow> string \<Rightarrow> path \<Rightarrow> unit pm" where
  "uninstall env n dest = reporting env ()
    (chain (from_disk (find_plugin (JStr n) dest)) (\<lambda>d.
     let dir = dest @ [pd_folder d] in
     chain (from_disk (\<lambda>fs. checkValidPluginFolder fs dir)) (\<lambda>good.
     chain (demand good ''Invalid plugin folder'') (\<lambda>_.
     chain (from_disk (\<lambda>fs. Inr (exists_path fs dir))) (\<lambda>there.
     chain (if there then on_disk (\<lambda>fs. Inr (rm_tree dir fs)) else throw_error ''Plugin not found'') (\<lambda>_.
     progress env (Progress ''success'' ''Plugin Uninstalled'')))))))"

section \<open>Where a download writes\<close>

lemma progress_disk [simp]: "disk (snd (progress env m w)) = disk w"
  by (simp add: progress_def change_def)

lemma check_signal_disk [simp]: "disk (snd (check_signal env m w)) = disk w"
  by (simp add: check_signal_def observe_def chain_def change_def demand_def)

abbreviation disk_frame :: "(path \<Rightarrow> bool) \<Rightarrow> pm_world \<Rightarrow> pm_world \<Rightarrow> bool" where
  "disk_frame A w w' \<equiv> same_outside A (disk w) (disk w')"

interpretation frame: effect_contract "disk_frame A" for A
  by unfold_locales (auto intro: same_outside_trans)

named_theorems frames \<open>frame rules of the plugin manager\<close>

lemmas [frames] = frame.give_within frame.throw_within frame.lift_within frame.demand_within
  frame.chain_within frame.handling_within frame.if_within frame.for_each_within

lemma progress_frame [frames]: "within (disk_frame A) (progress env m)"
  and check_signal_frame [frames]: "within (disk_frame A) (check_signal env e)"
  and from_disk_frame [frames]: "within (disk_frame A) (from_disk f)"
  by (simp_all add: within_def from_disk_def)

lemma on_disk_frame: "(\<And>fs fs'. f fs = Inr fs' \<Longrightarrow> same_outside A fs fs') \<Longrightarrow> within (disk_frame A) (on_disk f)"
  by (auto simp: within_def on_disk_def split: sum.split)

lemma write_frame [frames]: "A p \<Longrightarrow> within (disk_frame A) (on_disk (write_file p c))"
  and copy_frame [frames]: "A q \<Longrightarrow> within (disk_frame A) (on_disk (copy_file p q))"
  and rm_frame [frames]: "A p \<Longrightarrow> within (disk_frame A) (on_disk (rm_file p))"
  by (auto intro!: on_disk_frame intro: write_file_outside copy_file_outside rm_file_outside)

lemma mkdir_frame [frames]: "(\<And>q. prefix q p \<Longrightarrow> A q) \<Longrightarrow> within (disk_frame A) (on_disk (mkdir_p p))"
  by (auto intro!: on_disk_frame intro: mkdir_p_outside)

lemma rm_tree_frame [frames]: "(\<And>q. prefix p q \<Longrightarrow> A q) \<Longrightarrow> within (disk_frame A) (on_disk (\<lambda>fs. Inr (rm_tree p fs)))"
  by (auto intro!: on_disk_frame intro: rm_tree_outside)

lemma cp_tree_frame [frames]: "(\<And>r. prefix q r \<Longrightarrow> A r) \<Longrightarrow> within (disk_frame A) (on_disk (cp_tree p q))"
  by (auto intro!: on_disk_frame intro: cp_tree_outside)

text \<open>The paths above and below a directory.\<close>

definition around :: "path \<Rightarrow> path \<Rightarrow> bool" where
  "around t p \<longleftrightarrow> prefix t p \<or> prefix p t"

lemma around_below [simp]: "around t (t @ p)"
  by (simp add: around_def)

lemma around_prefix: "prefix q (t @ p) \<Longrightarrow> around t q"
  unfolding around_def by (meson prefix_same_cases prefixI)

lemma around_butlast: "prefix t p \<Longrightarrow> around t (butlast p)"
proof -
  assume "prefix t p"
  then obtain r where "p = t @ r" by (auto elim: prefixE)
  moreover have "prefix (butlast (t @ r)) (t @ r)" by (simp add: prefixeq_butlast)
  ultimately show ?thesis using around_prefix by blast
qed

lemma path_segment_stays: "seg \<noteq> ''..'' \<Longrightarrow> prefix stack (path_segment True seg stack)"
  by (simp add: path_segment_def)

lemma fold_segments_stay: "''..'' \<notin> set segs \<Longrightarrow> prefix stack (fold (path_segment True) segs stack)"
proof (induction segs arbitrary: stack)
  case (Cons seg segs)
  have "prefix stack (path_segment True seg stack)" using Cons.prems by (intro path_segment_stays) auto
  moreover have "prefix (path_segment True seg stack) (fold (path_segment True) segs (path_segment True seg stack))"
    using Cons by simp
  ultimately show ?case by simp
qed simp

lemma join_path_stays: "''..'' \<notin> set (js_split ''/'' s) \<Longrightarrow> prefix base (join_path base s)"
  by (simp add: join_path_def fold_segments_stay)

text \<open>A name without slashes is one segment.\<close>

lemma join_path_name:
  assumes "CHR ''/'' \<notin> set n" and "n \<noteq> []" and "n \<noteq> ''.''" and "n \<noteq> ''..''"
  shows "join_path base n = base @ [n]"
proof -
  have "split_first ''/'' n = None" using assms(1) by (rule split_first_char_None)
  then have "js_split ''/'' n = [n]" by (subst js_split.simps) simp
  with assms show ?thesis by (simp add: join_path_def path_segment_def)
qed

lemma base_name_name:
  assumes "CHR ''/'' \<notin> set n"
  shows "base_name n = n"
proof -
  have "split_first ''/'' n = None" using assms by (rule split_first_char_None)
  then have "js_split ''/'' n = [n]" by (subst js_split.simps) simp
  then show ?thesis by (simp add: base_name_def)
qed

definition real_name :: "string \<Rightarrow> bool" where
  "real_name n \<longleftrightarrow> validatePluginName n \<and> n \<noteq> [] \<and> n \<noteq> ''.''"

lemma real_name_segment:
  assumes "real_name n"
  shows "join_path base n = base @ [n]" and "base_name n = n" and "temp_folder env n = Some (temp_dir env @ [n])"
proof -
  have n: "CHR ''/'' \<notin> set n" "n \<noteq> ''..''" "n \<noteq> []" "n \<noteq> ''.''"
    using assms by (auto simp: real_name_def validatePluginName_def)
  show j: "join_path base n = base @ [n]" for base using n by (intro join_path_name)
  show "base_name n = n" using n(1) by (rule base_name_name)
  show "temp_folder env n = Some (temp_dir env @ [n])" by (simp add: temp_folder_def j)
qed

text \<open>Extra files whose inputs and outputs have no segment \<open>..\<close>.\<close>

definition tame :: "ann option \<Rightarrow> bool" where
  "tame v = (case v of Some (Leaf s) \<Rightarrow> ''..'' \<notin> set (js_split ''/'' s) | _ \<Rightarrow> True)"

definition tame_file :: "ann \<Rightarrow> bool" where
  "tame_file f \<longleftrightarrow> (\<forall>vs. ann_values (ann_prop f ''output'') = Inr vs \<longrightarrow>
     (\<forall>v \<in> set vs. tame (ann_prop v ''output'') \<and> tame (ann_prop v ''input'')))"

definition tame_files :: "pm_env \<Rightarrow> ann option \<Rightarrow> bool" where
  "tame_files env x \<longleftrightarrow> (\<forall>fs. getMatchingExtraFiles env x = Inr fs \<longrightarrow> (\<forall>f \<in> set fs. tame_file f))"

lemma join_ann_stays: "tame v \<Longrightarrow> join_ann base v = Inr p \<Longrightarrow> prefix base p"
  by (auto simp: tame_def join_ann_def join_path_stays split: option.splits ann.splits)

lemma add_exe_stays:
  assumes "prefix (t @ [b]) p"
  shows "prefix t (add_exe p)"
proof -
  obtain r where "p = t @ b # r" using assms by (auto elim: prefixE)
  then have "butlast p = t @ butlast (b # r)" "p \<noteq> []" by (simp_all add: butlast_append)
  then show ?thesis by (simp add: add_exe_def)
qed

lemma output_path_stays: "tame v \<Longrightarrow> output_path env (t @ [b]) v = Inr p \<Longrightarrow> prefix t p"
  unfolding output_path_def
  by (auto dest!: join_ann_stays intro: add_exe_stays prefix_order.trans [of t "t @ [b]"] split: sum.splits if_splits)

lemma lift_chain_frame:
  "(\<And>x. r = Inr x \<Longrightarrow> within (disk_frame A) (f x)) \<Longrightarrow> within (disk_frame A) (chain (lift_sum r) f)"
  by (cases r) (auto simp: within_def chain_def lift_sum_def)

lemma move_output_frame:
  assumes "tame (ann_prop v ''output'')" and "tame (ann_prop v ''input'')"
  shows "within (disk_frame (around t)) (move_output env (t @ [b]) v)"
proof -
  have out: "around t p" if "output_path env (t @ [b]) (ann_prop v ''output'') = Inr p" for p
    using output_path_stays [OF assms(1) that] by (simp add: around_def)
  have inp: "around t p \<and> around t (butlast p)" if "join_ann (t @ [b]) (ann_prop v ''input'') = Inr p" for p
  proof -
    have "prefix t p" using join_ann_stays [OF assms(2) that] by (rule append_prefixD)
    then show ?thesis using around_butlast [of t p] by (simp add: around_def)
  qed
  have "within (disk_frame (around t)) (move_file env source target)"
    if "around t target" "around t source" "around t (butlast source)" for source target
    unfolding move_file_def
    by (intro frame.chain_within frame.if_within frame.give_within copy_frame rm_frame from_disk_frame progress_frame that)
  with out inp show ?thesis unfolding move_output_def Let_def
    by (intro frame.if_within frame.give_within lift_chain_frame) blast+
qed

lemma extract_frame: "within (disk_frame (around t)) (extract_all (t @ r) es)"
  unfolding extract_all_def
  by (intro frame.for_each_within) (auto intro!: frame.chain_within mkdir_frame write_frame intro: around_prefix)

lemma demand_chain_frame:
  "(c \<Longrightarrow> within (disk_frame A) (f ())) \<Longrightarrow> within (disk_frame A) (chain (demand c m) f)"
  by (auto simp: within_def chain_def demand_def)

lemma save_archive_frame: "within (disk_frame (around t)) (save_archive env u body (t @ r) strip)"
proof -
  have "around t p" if "strict_prefix (t @ r) p" for p
    using that unfolding around_def strict_prefix_def by (meson append_prefixD)
  then show ?thesis unfolding save_archive_def Let_def
    by (intro frame.if_within frame.chain_within demand_chain_frame frames)
      (auto intro: extract_frame frame.throw_within split: option.split)
qed

lemma download_single_frame:
  "within (disk_frame (around t)) (downloadAndExtractSingleArchive env u c (t @ r) n)"
  unfolding downloadAndExtractSingleArchive_def Let_def
  by (auto intro!: frames save_archive_frame split: response.split)

lemma download_one_frame:
  assumes "tame_file f"
  shows "within (disk_frame (around t)) (download_one env (t @ [b]) f)"
  unfolding download_one_def Let_def
  by (intro frame.if_within frame.handling_within lift_chain_frame download_single_frame move_output_frame
      frame.for_each_within check_signal_frame progress_frame frame.give_within frame.throw_within frame.chain_within)
    (use assms in \<open>auto simp: tame_file_def\<close>)

lemma extra_files_frame:
  assumes "tame_files env x"
  shows "within (disk_frame (around t)) (downloadExtraFiles env x t)"
  unfolding downloadExtraFiles_def
  by (intro frames lift_chain_frame download_one_frame)
    (use assms around_prefix in \<open>auto simp: tame_files_def\<close>)

lemma download_frame:
  assumes "real_name (pk_name k)" and "tame_files env (pk_extraFiles k)"
  shows "within (disk_frame (around (temp_dir env @ [pk_name k]))) (downloadExtractArchive env k hv)"
  unfolding downloadExtractArchive_def Let_def check_compat_def
  by (intro frames extra_files_frame download_single_frame [of _ _ _ _ "[]", simplified])
    (use assms in \<open>auto simp: real_name_segment unpack_dir_def package_file_def around_def
      intro: extra_files_frame download_single_frame [of _ _ _ _ "[]", simplified]\<close>)

section \<open>Only verified archives reach the plugins\<close>

definition verified :: "pm_env \<Rightarrow> plugin_pkg \<Rightarrow> string \<Rightarrow> bool" where
  "verified env k hv \<longleftrightarrow> validatePluginName (pk_name k) \<and> (hv = [] \<or> semver_satisfies env hv (pk_compat k)) \<and>
    (\<exists>u c status body. pk_archiveURL k = Some u \<and> pk_checksum k = Some c \<and>
      (trusted_url u \<or> under_test env \<and> local_url u) \<and> fetch_file env u = Response status (Some body) \<and>
      200 \<le> status \<and> status \<le> 299 \<and> sha256 env body = plain_checksum c)"

lemma single_verified:
  assumes "downloadAndExtractSingleArchive env (map_option Leaf u) (map_option Leaf c) folder n w = (Inr x, w')"
  shows "\<exists>u' c' status body. u = Some u' \<and> c = Some c' \<and> (trusted_url u' \<or> under_test env \<and> local_url u') \<and>
    fetch_file env u' = Response status (Some body) \<and> 200 \<le> status \<and> status \<le> 299 \<and> sha256 env body = plain_checksum c'"
  using assms unfolding downloadAndExtractSingleArchive_def Let_def chain_Inr
  by (cases u; cases c)
    (auto simp: chain_Inr validateArchiveURL_def ann_truthy_def ann_text_def split: response.splits)

lemma download_verified:
  assumes "downloadExtractArchive env k hv w = (Inr (n, t), w')"
  shows "n = pk_name k \<and> t = temp_folder env (pk_name k) \<and> verified env k hv"
proof -
  obtain w1 w2 x where s: "downloadAndExtractSingleArchive env (map_option Leaf (pk_archiveURL k))
      (map_option Leaf (pk_checksum k)) (unpack_dir env (temp_folder env (pk_name k))) 1 w1 = (Inr x, w2)"
    and "validatePluginName (pk_name k)" "hv = [] \<or> semver_satisfies env hv (pk_compat k)"
    and "n = pk_name k" "t = temp_folder env (pk_name k)"
    using assms unfolding downloadExtractArchive_def Let_def check_compat_def
    by (auto simp: chain_Inr split: if_splits)
  with single_verified [OF s] show ?thesis by (simp add: verified_def)
qed

lemma reporting_disk: "disk (snd (reporting env d m w)) = disk (snd (m w))"
  by (auto simp: reporting_def handling_def chain_def progress_def change_def give_def throw_error_def split: prod.split sum.split)

lemma moveDirs_frame:
  assumes "\<And>q. prefix target q \<Longrightarrow> A q" and "\<And>p q. t = Some p \<Longrightarrow> prefix p q \<Longrightarrow> A q"
  shows "within (disk_frame A) (moveDirs env t target)"
  using assms unfolding moveDirs_def
  by (cases t) (auto intro!: frame.throw_within frame.if_within frame.chain_within cp_tree_frame rm_tree_frame)

lemma addToPath_disk [simp]: "disk (addToPath env ds w) = disk w"
  by (simp add: addToPath_def)

text \<open>What follows a download: only when it was verified, the rest can change more of the disk.\<close>

lemma after_download_frame:
  assumes "real_name (pk_name k)" and "tame_files env (pk_extraFiles k)"
    and rest: "\<And>n t. within (disk_frame (\<lambda>p. around (temp_dir env @ [pk_name k]) p \<or> B p)) (f (pk_name k, Some (temp_dir env @ [pk_name k])))"
    and run: "chain (downloadExtractArchive env k hv) f w = (r, w')"
    and changed: "dict_get (disk w') p \<noteq> dict_get (disk w) p" "\<not> around (temp_dir env @ [pk_name k]) p"
  shows "verified env k hv \<and> B p"
proof -
  let ?A = "around (temp_dir env @ [pk_name k])"
  obtain x w1 where d: "downloadExtractArchive env k hv w = (x, w1)" by fastforce
  have one: "same_outside ?A (disk w) (disk w1)"
    using withinD [OF download_frame [OF assms(1,2)] d] .
  show ?thesis
  proof (cases x)
    case (Inl e)
    with run d have "w' = w1" by (simp add: chain_def)
    with one changed show ?thesis by (simp add: same_outside_def)
  next
    case (Inr nt)
    obtain n t where nt: "nt = (n, t)" by fastforce
    have v: "n = pk_name k" "t = Some (temp_dir env @ [pk_name k])" "verified env k hv"
      using download_verified [of env k hv w n t w1] d Inr nt real_name_segment(3) [OF assms(1)] by auto
    then have "f (pk_name k, Some (temp_dir env @ [pk_name k])) w1 = (r, w')" using run d Inr nt by (simp add: chain_def)
    then have "same_outside (\<lambda>p. ?A p \<or> B p) (disk w1) (disk w')" by (rule withinD [OF rest])
    then have "B p" using one changed by (auto simp: same_outside_def)
    with v show ?thesis by simp
  qed
qed

lemma invalid_name_changes_nothing:
  assumes "\<not> validatePluginName (pk_name k)"
  shows "disk (snd (chain (downloadExtractArchive env k hv) f w)) = disk w"
  using assms
  by (simp add: downloadExtractArchive_def check_signal_def observe_def change_def demand_def chain_def
      split: prod.split sum.split)

text \<open>C7: Consider a package whose name is neither empty nor \<open>.\<close> and whose extra files have no
  segment \<open>..\<close> in their paths (the code lets both pass, and then writes elsewhere). Outside its
  temporary folder an installation only ever changes the folder of the plugin and the
  directories above it, and only when the main archive came from a trusted address (or a local
  one under test), was answered with a status of 200 to 299, has the checksum of the package,
  and the version of the application is compatible; this holds for failed and cancelled
  installations too. The archives of extra files are not part of this verification.\<close>

theorem install_changes_only_verified:
  assumes "pk_name k \<noteq> []" and "pk_name k \<noteq> ''.''" and "tame_files env (pk_extraFiles k)"
    and "installFromPluginPkg env k dest hv w = (r, w')"
    and "dict_get (disk w') p \<noteq> dict_get (disk w) p" and "\<not> around (temp_dir env @ [pk_name k]) p"
  shows "verified env k hv \<and> around (dest @ [pk_name k]) p"
proof -
  define f where "f = (\<lambda>(n, t). chain (on_disk (mkdir_p dest)) (\<lambda>_.
     chain (moveDirs env t (join_path dest (base_name n))) (\<lambda>_.
     chain (progress env (Progress ''success'' ''Plugin Installed'')) (\<lambda>_.
     if validPluginBinFolder (base_name n)
     then change (addToPath env [path_text (join_path dest (base_name n) @ [''bin''])])
     else give ()))))"
  let ?m = "chain (downloadExtractArchive env k hv) f"
  have "installFromPluginPkg env k dest hv = reporting env () ?m" by (simp add: installFromPluginPkg_def f_def)
  then have d: "disk w' = disk (snd (?m w))" using assms(4) reporting_disk [of env "()" ?m w] by simp
  obtain r1 w1 where m: "?m w = (r1, w1)" by fastforce
  have valid: "validatePluginName (pk_name k)"
    using invalid_name_changes_nothing [of k env hv f w] d assms(5) by fastforce
  then have name: "real_name (pk_name k)" using assms(1,2) by (simp add: real_name_def)
  show ?thesis
  proof (rule after_download_frame [OF name assms(3) _ m])
    show "within (disk_frame (\<lambda>p. around (temp_dir env @ [pk_name k]) p \<or> around (dest @ [pk_name k]) p))
        (f (pk_name k, Some (temp_dir env @ [pk_name k])))"
      unfolding f_def using name
      by (auto simp: real_name_segment around_def intro!: frame.chain_within mkdir_frame moveDirs_frame frame.if_within
          progress_frame frame.change_within frame.give_within)
  qed (use d m assms(5,6) in auto)
qed

lemma fetch_frame: "within (disk_frame A) (fetchPluginInfo env u)"
  unfolding fetchPluginInfo_def
  by (auto intro!: frame.handling_within frame.chain_within frame.demand_within progress_frame check_signal_frame
      frame.throw_within frame.lift_within frame.give_within frame.if_within split: hub_response.split)

lemma fetch_installed_frame: "within (disk_frame A) (fetch_installed env u)"
  unfolding fetch_installed_def
  by (auto intro!: fetch_frame frame.chain_within progress_frame frame.throw_within split: option.split json.split)

text \<open>The package comes from an answer of Artifact Hub.\<close>

definition hub_package :: "pm_env \<Rightarrow> plugin_pkg \<Rightarrow> bool" where
  "hub_package env k \<longleftrightarrow> (\<exists>u a. fetch_hub env u = Hub_Answer a \<and> pkg_of env a = Inr k)"

lemma fetch_hub_package: "fetchPluginInfo env u w = (Inr k, w') \<Longrightarrow> hub_package env k"
  unfolding fetchPluginInfo_def hub_package_def
  by (auto simp: handling_def chain_Inr split: prod.splits sum.splits hub_response.splits)

lemma fetch_installed_package: "fetch_installed env u w = (Inr k, w') \<Longrightarrow> hub_package env k"
  by (auto simp: fetch_installed_def chain_Inr split: option.splits json.splits dest: fetch_hub_package)

lemma chain_cases:
  assumes "chain m f s = (r, t)"
  obtains (fails) e where "m s = (Inl e, t)" "r = Inl e" | (goes_on) x u where "m s = (Inr x, u)" "f x u = (r, t)"
  using assms by (auto simp: chain_def split: prod.splits sum.splits)

lemma find_plugin_in_list:
  "find_plugin n dest fs = Inr d \<Longrightarrow> \<exists>ds. list_plugins dest fs = Inr ds \<and> d \<in> set ds \<and> pd_name d = n"
  by (auto simp: find_plugin_def find_Some_iff split: sum.splits option.splits)

text \<open>Outside the temporary directory an update changes nothing but the folder of an installed
  plugin with the given name and the directories above it, and only after a strictly newer version
  was offered and its archive verified; this holds for failed and cancelled updates too.\<close>

theorem update_changes_only_newer:
  assumes hub: "\<forall>k. hub_package env k \<longrightarrow> real_name (pk_name k) \<and> tame_files env (pk_extraFiles k)"
    and run: "pm_update env n dest hv w = (r, w')"
    and changed: "dict_get (disk w') p \<noteq> dict_get (disk w) p" "\<not> around (temp_dir env) p"
  shows "\<exists>ds d j v k. list_plugins dest (disk w) = Inr ds \<and> d \<in> set ds \<and> pd_name d = JStr n \<and>
    parse_json (dest @ [pd_folder d, ''package.json'']) (disk w) = Inr j \<and> installed_version j = Inr v \<and>
    semver_lte env (pk_version k) v = Inr False \<and> verified env k hv \<and> around (dest @ [pd_folder d]) p"
proof -
  define g where "g = (\<lambda>dir (nt :: string \<times> path option). chain (on_disk (mkdir_p dest)) (\<lambda>_.
     chain (on_disk (\<lambda>fs. Inr (rm_tree dir fs))) (\<lambda>_.
     chain (on_disk (mkdir_p dir)) (\<lambda>_.
     chain (moveDirs env (snd nt) dir) (\<lambda>_.
     progress env (Progress ''success'' ''Plugin Updated''))))))"
  define h where "h = (\<lambda>(d :: plugin_data) j k. chain (lift_sum (installed_version j)) (\<lambda>v.
     chain (lift_sum (semver_lte env (pk_version k) v)) (\<lambda>old.
     chain (demand (\<not> old) ''No updates available'') (\<lambda>_.
     chain (downloadExtractArchive env k hv) (g (dest @ [pd_folder d]))))))"
  define m where "m = chain (from_disk (find_plugin (JStr n) dest)) (\<lambda>d.
     chain (from_disk (parse_json (dest @ [pd_folder d, ''package.json'']))) (\<lambda>j.
     chain (fetch_installed env (pd_url d)) (h d j)))"
  have "pm_update env n dest hv = reporting env () m"
    by (simp add: pm_update_def m_def h_def g_def Let_def case_prod_unfold)
  then have d: "disk w' = disk (snd (m w))" using run reporting_disk [of env "()" m w] by simp
  obtain r1 w1 where m: "m w = (r1, w1)" by fastforce
  have ch: "dict_get (disk w1) p \<noteq> dict_get (disk w) p" using changed(1) d m by simp
  obtain d where f: "find_plugin (JStr n) dest (disk w) = Inr d"
      and m1: "chain (from_disk (parse_json (dest @ [pd_folder d, ''package.json'']))) (\<lambda>j.
        chain (fetch_installed env (pd_url d)) (h d j)) w = (r1, w1)"
    using m ch unfolding m_def by - (erule chain_cases, auto simp: from_disk_def)
  obtain j where j: "parse_json (dest @ [pd_folder d, ''package.json'']) (disk w) = Inr j"
      and m2: "chain (fetch_installed env (pd_url d)) (h d j) w = (r1, w1)"
    using m1 ch by - (erule chain_cases, auto simp: from_disk_def)
  have fr: "dict_get (disk t) p = dict_get (disk w) p" if "fetch_installed env (pd_url d) w = (y, t)" for y t
    using withinD [OF fetch_installed_frame [of "\<lambda>_. False"] that] by (simp add: same_outside_def)
  obtain k w2 where k: "hub_package env k" and w2: "dict_get (disk w2) p = dict_get (disk w) p" and m3: "h d j k w2 = (r1, w1)"
    using m2 ch by - (erule chain_cases, auto dest: fr fetch_installed_package)
  obtain v where v: "installed_version j = Inr v"
      and m4: "chain (lift_sum (semver_lte env (pk_version k) v)) (\<lambda>old. chain (demand (\<not> old) ''No updates available'') (\<lambda>_.
        chain (downloadExtractArchive env k hv) (g (dest @ [pd_folder d])))) w2 = (r1, w1)"
    using m3 ch w2 unfolding h_def by - (erule chain_cases, auto simp: lift_sum_def)
  obtain old where old: "semver_lte env (pk_version k) v = Inr old"
      and m5: "chain (demand (\<not> old) ''No updates available'') (\<lambda>_.
        chain (downloadExtractArchive env k hv) (g (dest @ [pd_folder d]))) w2 = (r1, w1)"
    using m4 ch w2 by - (erule chain_cases, auto simp: lift_sum_def)
  have m6: "chain (downloadExtractArchive env k hv) (g (dest @ [pd_folder d])) w2 = (r1, w1)" and "\<not> old"
    using m5 ch w2 by (cases old; simp add: chain_def demand_def; fail)+
  have nt: "\<not> around (temp_dir env @ [pk_name k]) p"
    using changed(2) around_prefix unfolding around_def by (meson append_prefixD)
  have "verified env k hv \<and> around (dest @ [pd_folder d]) p"
  proof (rule after_download_frame [OF _ _ _ m6])
    show "within (disk_frame (\<lambda>p. around (temp_dir env @ [pk_name k]) p \<or> around (dest @ [pd_folder d]) p))
        (g (dest @ [pd_folder d]) (pk_name k, Some (temp_dir env @ [pk_name k])))"
      unfolding g_def by (auto simp: around_def intro!: frame.chain_within mkdir_frame rm_tree_frame moveDirs_frame progress_frame)
  qed (use hub k nt ch w2 in auto)
  moreover have "semver_lte env (pk_version k) v = Inr False" using old \<open>\<not> old\<close> by simp
  ultimately show ?thesis using find_plugin_in_list [OF f] j v by blast
qed

section \<open>A sample\<close>

text \<open>One plugin on Artifact Hub, whose archive has a program and a \<open>package.json\<close>.\<close>

definition sample_url :: string where
  "sample_url = ''https://github.com/o/r/releases/p.tgz''"

definition sample_answer :: hub_answer where
  "sample_answer = \<lparr>ha_name = ''p'', ha_display_name = ''P'', ha_version = ''2'', ha_repo = ''r'', ha_alias = ''o'',
     ha_data = Some [(''headlamp/plugin/archive-url'', sample_url), (''headlamp/plugin/archive-checksum'', ''sha256:ab'')]\<rparr>"

definition sample_pkg :: plugin_pkg where
  "sample_pkg = \<lparr>pk_name = ''p'', pk_display_name = ''P'', pk_repo = ''r'', pk_alias = ''o'', pk_version = ''2'',
     pk_archiveURL = Some sample_url, pk_checksum = Some ''sha256:ab'', pk_compat = None, pk_extraFiles = None\<rparr>"

definition sample_env :: pm_env where
  "sample_env = \<lparr>fetch_file = (\<lambda>u. if u = sample_url then Response 200 (Some ''body'') else Fetch_Error),
     fetch_hub = (\<lambda>_. Hub_Answer sample_answer), sha256 = (\<lambda>_. ''ab''),
     untar = (\<lambda>_ _. Some [([''main.js''], Raw ''new''), ([''package.json''], Json (JObj [(''name'', JStr ''p'')]))]),
     semver_satisfies = (\<lambda>_ _. True), semver_lte = (\<lambda>_ _. Inr False), abort_at = None, reports = False,
     platform = ''linux'', arch_name = ''x64'', under_test = False, temp_dir = [''tmp'', ''t''], work_dir = [''w''],
     copy_fails = False\<rparr>"

definition empty_world :: pm_world where
  "empty_world = \<lparr>disk = [([''tmp''], Dir)], progress_log = [], clock = 0, path_var = None\<rparr>"

definition installed_world :: pm_world where
  "installed_world = snd (installFromPluginPkg sample_env sample_pkg [''d''] [] empty_world)"

lemma sample_tame: "real_name ''p''" "tame_files sample_env None"
  by code_simp (simp add: tame_files_def getMatchingExtraFiles_def ann_truthy_def dict_values_def)

lemma install_changes_only_verified_witness:
  "verified sample_env sample_pkg [] \<and> around [''d'', ''p''] [''d'', ''p'', ''main.js'']"
proof -
  have "verified sample_env sample_pkg [] \<and> around ([''d''] @ [pk_name sample_pkg]) [''d'', ''p'', ''main.js'']"
  proof (rule install_changes_only_verified)
    show "installFromPluginPkg sample_env sample_pkg [''d''] [] empty_world =
        (fst (installFromPluginPkg sample_env sample_pkg [''d''] [] empty_world), installed_world)"
      by (simp add: installed_world_def)
    show "dict_get (disk installed_world) [''d'', ''p'', ''main.js''] \<noteq> dict_get (disk empty_world) [''d'', ''p'', ''main.js'']"
      by code_simp
    show "\<not> around (temp_dir sample_env @ [pk_name sample_pkg]) [''d'', ''p'', ''main.js'']"
      by (simp add: around_def sample_env_def)
  qed (simp_all add: sample_tame sample_pkg_def)
  then show ?thesis by (simp add: sample_pkg_def)
qed

definition old_world :: pm_world where
  "old_world = empty_world\<lparr>disk := [([''tmp''], Dir), ([''d''], Dir), ([''d'', ''p''], Dir),
     ([''d'', ''p'', ''main.js''], File (Raw ''old'')), ([''d'', ''p'', ''style.css''], File (Raw ''old'')),
     ([''d'', ''p'', ''package.json''], File (Json (JObj [(''name'', JStr ''p''), (''isManagedByHeadlampPlugin'', JBool True),
        (''artifacthub'', JObj [(''url'', JStr (hub_prefix @ ''r/p'')), (''version'', JStr ''1'')])])))]\<rparr>"

lemma sample_hub_package: "hub_package sample_env k \<Longrightarrow> k = sample_pkg"
proof -
  have "pkg_of sample_env sample_answer = Inr sample_pkg" by code_simp
  then show "hub_package sample_env k \<Longrightarrow> k = sample_pkg"
    by (auto simp: hub_package_def sample_env_def)
qed

lemma update_changes_only_newer_witness:
  "\<exists>ds d. list_plugins [''d''] (disk old_world) = Inr ds \<and> d \<in> set ds \<and> pd_name d = JStr ''p''"
proof -
  let ?r = "pm_update sample_env ''p'' [''d''] [] old_world"
  have "\<exists>ds d j v k. list_plugins [''d''] (disk old_world) = Inr ds \<and> d \<in> set ds \<and> pd_name d = JStr ''p'' \<and>
    parse_json ([''d''] @ [pd_folder d, ''package.json'']) (disk old_world) = Inr j \<and> installed_version j = Inr v \<and>
    semver_lte sample_env (pk_version k) v = Inr False \<and> verified sample_env k [] \<and>
    around ([''d''] @ [pd_folder d]) [''d'', ''p'', ''main.js'']"
  proof (rule update_changes_only_newer)
    show "\<forall>k. hub_package sample_env k \<longrightarrow> real_name (pk_name k) \<and> tame_files sample_env (pk_extraFiles k)"
    proof (intro allI impI)
      fix k assume "hub_package sample_env k"
      then have "k = sample_pkg" by (rule sample_hub_package)
      then show "real_name (pk_name k) \<and> tame_files sample_env (pk_extraFiles k)"
        by (simp add: sample_pkg_def sample_tame)
    qed
    show "?r = (fst ?r, snd ?r)" by simp
    show "dict_get (disk (snd ?r)) [''d'', ''p'', ''main.js''] \<noteq> dict_get (disk old_world) [''d'', ''p'', ''main.js'']"
      by code_simp
    show "\<not> around (temp_dir sample_env) [''d'', ''p'', ''main.js'']" by (simp add: around_def sample_env_def)
  qed
  then show ?thesis by blast
qed

section \<open>Uninstalling and listing\<close>

text \<open>Uninstalling a plugin either fails and changes nothing, or removes the folder of one
  installed plugin with that name, and nothing else.\<close>

theorem uninstall_removes_one_folder:
  assumes "\<not> reports env" and "uninstall env n dest w = (r, w')"
  shows "(\<exists>e. r = Inl e) \<and> w' = w \<or>
    r = Inr () \<and> (\<exists>ds d. list_plugins dest (disk w) = Inr ds \<and> d \<in> set ds \<and> pd_name d = JStr n \<and>
      (\<forall>p. dict_get (disk w') p = (if prefix (dest @ [pd_folder d]) p then None else dict_get (disk w) p)))"
proof (cases "find_plugin (JStr n) dest (disk w)")
  case (Inl e)
  with assms show ?thesis
    by (auto simp: uninstall_def reporting_def handling_def chain_def from_disk_def throw_error_def)
next
  case (Inr d)
  with assms find_plugin_in_list [OF Inr] show ?thesis
    by (auto simp: uninstall_def reporting_def handling_def chain_def from_disk_def throw_error_def demand_def on_disk_def
        progress_def change_def Let_def split: sum.splits if_splits prod.splits)
qed

lemma uninstall_removes_one_folder_witness:
  "(let (r, w') = uninstall sample_env ''p'' [''d''] old_world in
    (\<exists>e. r = Inl e) \<and> w' = old_world \<or>
    r = Inr () \<and> (\<exists>ds d. list_plugins [''d''] (disk old_world) = Inr ds \<and> d \<in> set ds \<and> pd_name d = JStr ''p'' \<and>
      (\<forall>p. dict_get (disk w') p = (if prefix ([''d''] @ [pd_folder d]) p then None else dict_get (disk old_world) p))))"
  using uninstall_removes_one_folder [of sample_env "''p''" "[''d'']" old_world]
  by (cases "uninstall sample_env ''p'' [''d''] old_world") (simp add: sample_env_def)

lemma plugin_rows_blocked:
  assumes "n \<in> set ns" and "checkValidPluginFolder fs (folder @ [n]) = Inr True"
    and "parse_json (folder @ [n, ''package.json'']) fs = Inr j" and "jprop j ''artifacthub'' = Inr None"
  shows "\<exists>e. plugin_rows fs folder ns = Inl e"
  using assms
proof (induction ns)
  case (Cons m ns)
  show ?case
  proof (cases "m = n")
    case True
    with Cons.prems show ?thesis
      by (cases "jprop j ''name''"; cases "jprop j ''version''") (auto simp: plugin_row_def)
  next
    case False
    with Cons show ?thesis by (auto split: sum.splits bool.splits)
  qed
qed simp

text \<open>One folder with a package.json that says it is managed but has no entry for Artifact Hub
  breaks the listing, and with it uninstalling and updating of every plugin.\<close>

theorem one_bad_plugin_blocks_all:
  assumes "is_dir (disk w) dest" and "(n, Dir) \<in> set (entries_in dest (disk w))"
    and "checkValidPluginFolder (disk w) (dest @ [n]) = Inr True"
    and "parse_json (dest @ [n, ''package.json'']) (disk w) = Inr j" and "jprop j ''artifacthub'' = Inr None"
    and "\<not> reports env"
  shows "(\<exists>e. list_plugins dest (disk w) = Inl e) \<and>
    (\<forall>m. \<exists>e. uninstall env m dest w = (Inl e, w)) \<and> (\<forall>m hv. \<exists>e. pm_update env m dest hv w = (Inl e, w))"
proof -
  have "n \<in> set (map fst (filter (\<lambda>e. snd e = Dir) (entries_in dest (disk w))))" using assms(2) by force
  then obtain e where "list_plugins dest (disk w) = Inl e"
    using plugin_rows_blocked [OF _ assms(3,4,5)] assms(1) unfolding list_plugins_def by fastforce
  then show ?thesis using assms(6)
    by (simp add: uninstall_def pm_update_def reporting_def handling_def chain_def from_disk_def find_plugin_def throw_error_def)
qed

lemma one_bad_plugin_blocks_all_witness:
  "\<exists>e. uninstall sample_env ''q'' [''d''] (empty_world\<lparr>disk := [([''d''], Dir), ([''d'', ''x''], Dir),
     ([''d'', ''x'', ''main.js''], File (Raw [])),
     ([''d'', ''x'', ''package.json''], File (Json (JObj [(''isManagedByHeadlampPlugin'', JBool True)])))]\<rparr>) =
    (Inl e, empty_world\<lparr>disk := [([''d''], Dir), ([''d'', ''x''], Dir), ([''d'', ''x'', ''main.js''], File (Raw [])),
     ([''d'', ''x'', ''package.json''], File (Json (JObj [(''isManagedByHeadlampPlugin'', JBool True)])))]\<rparr>)"
proof -
  let ?w = "empty_world\<lparr>disk := [([''d''], Dir), ([''d'', ''x''], Dir), ([''d'', ''x'', ''main.js''], File (Raw [])),
     ([''d'', ''x'', ''package.json''], File (Json (JObj [(''isManagedByHeadlampPlugin'', JBool True)])))]\<rparr>"
  have "is_dir (disk ?w) [''d'']" "(''x'', Dir) \<in> set (entries_in [''d''] (disk ?w))"
    "checkValidPluginFolder (disk ?w) ([''d''] @ [''x'']) = Inr True"
    "parse_json ([''d''] @ [''x'', ''package.json'']) (disk ?w) = Inr (JObj [(''isManagedByHeadlampPlugin'', JBool True)])"
    "jprop (JObj [(''isManagedByHeadlampPlugin'', JBool True)]) ''artifacthub'' = Inr None" "\<not> reports sample_env"
    by code_simp+
  from one_bad_plugin_blocks_all [OF this] show ?thesis by blast
qed

section \<open>Installing merges, updating replaces\<close>

lemma mkdir_p_keeps: "mkdir_p d fs = Inr fs' \<Longrightarrow> \<not> prefix p d \<Longrightarrow> dict_get fs' p = dict_get fs p"
  using mkdir_p_outside [of d fs fs' "\<lambda>q. prefix q d"] by (simp add: same_outside_def)

lemma make_dirs_wf: "make_dirs ps fs = Inr fs' \<Longrightarrow> dict_wf fs \<Longrightarrow> dict_wf fs'"
  by (induction ps fs rule: make_dirs.induct) (auto split: if_splits)

lemma rm_tree_wf: "dict_wf fs \<Longrightarrow> dict_wf (rm_tree p fs)"
  by (simp add: dict_wf_def rm_tree_def distinct_map_filter)

text \<open>Installing a plugin over an installed one keeps every file of the old version that the new
  version does not have: the new files are copied over the old folder.\<close>

theorem install_keeps_old_files:
  assumes "real_name (pk_name k)" and "\<not> reports env" and "downloadExtractArchive env k hv w = (Inr nt, w1)"
    and "installFromPluginPkg env k dest hv w = (Inr (), w')" and "dict_wf (disk w1)"
    and "\<not> prefix (temp_dir env) (dest @ [pk_name k] @ p)" and "\<not> prefix (temp_dir env @ [pk_name k] @ p) dest"
  shows "dict_get (disk w') (dest @ [pk_name k] @ p) =
    (case dict_get (disk w1) (temp_dir env @ [pk_name k] @ p) of
       Some x \<Rightarrow> Some x | None \<Rightarrow> dict_get (disk w1) (dest @ [pk_name k] @ p))"
proof -
  let ?t = "temp_dir env @ [pk_name k]" and ?d = "dest @ [pk_name k]"
  have nt: "nt = (pk_name k, Some ?t)"
    using download_verified [of env k hv w "fst nt" "snd nt" w1] assms(3) real_name_segment(3) [OF assms(1)]
    by (cases nt) auto
  have "\<exists>fs1 fs2. mkdir_p dest (disk w1) = Inr fs1 \<and> cp_tree ?t ?d fs1 = Inr fs2 \<and> disk w' = rm_tree ?t fs2"
    using assms(2,3,4) nt real_name_segment(1,2) [OF assms(1)]
    by (auto simp: installFromPluginPkg_def reporting_def handling_def chain_def moveDirs_def on_disk_def throw_error_def
        progress_def change_def give_def split: sum.splits if_splits prod.splits)
  then obtain fs1 fs2 where fs: "mkdir_p dest (disk w1) = Inr fs1" "cp_tree ?t ?d fs1 = Inr fs2" "disk w' = rm_tree ?t fs2"
    by blast
  have "dict_wf fs1" using fs(1) assms(5) make_dirs_wf by (auto simp: mkdir_p_def)
  then have "dict_get fs2 (?d @ p) = (case dict_get fs1 (?t @ p) of Some x \<Rightarrow> Some x | None \<Rightarrow> dict_get fs1 (?d @ p))"
    by (rule cp_tree_get [OF fs(2)])
  moreover have "dict_get fs1 (?t @ p) = dict_get (disk w1) (?t @ p)" "dict_get fs1 (?d @ p) = dict_get (disk w1) (?d @ p)"
    using assms(7) by (auto intro!: mkdir_p_keeps [OF fs(1)] dest: append_prefixD)
  moreover have "\<not> prefix ?t (?d @ p)" using assms(6) append_prefixD by auto
  ultimately show ?thesis by (simp add: fs(3) split: option.split)
qed

lemma install_keeps_old_files_witness:
  "dict_get (disk (snd (installFromPluginPkg sample_env sample_pkg [''d''] [] old_world))) [''d'', ''p'', ''style.css''] =
    Some (File (Raw ''old''))"
proof -
  let ?r = "downloadExtractArchive sample_env sample_pkg [] old_world"
    and ?i = "installFromPluginPkg sample_env sample_pkg [''d''] [] old_world"
  have "dict_get (disk (snd ?i)) ([''d''] @ [pk_name sample_pkg] @ [''style.css'']) =
    (case dict_get (disk (snd ?r)) (temp_dir sample_env @ [pk_name sample_pkg] @ [''style.css'']) of
       Some x \<Rightarrow> Some x | None \<Rightarrow> dict_get (disk (snd ?r)) ([''d''] @ [pk_name sample_pkg] @ [''style.css'']))"
  proof (rule install_keeps_old_files [where nt = "(''p'', Some [''tmp'', ''t'', ''p''])"])
    have "fst ?r = Inr (''p'', Some [''tmp'', ''t'', ''p''])" by code_simp
    then show "?r = (Inr (''p'', Some [''tmp'', ''t'', ''p'']), snd ?r)" by (metis prod.collapse)
    have "fst ?i = Inr ()" by code_simp
    then show "?i = (Inr (), snd ?i)" by (metis prod.collapse)
    show "dict_wf (disk (snd ?r))" by code_simp
  qed (simp_all add: sample_tame sample_pkg_def sample_env_def)
  moreover have "dict_get (disk (snd ?r)) (temp_dir sample_env @ [pk_name sample_pkg] @ [''style.css'']) = None"
    "dict_get (disk (snd ?r)) ([''d''] @ [pk_name sample_pkg] @ [''style.css'']) = Some (File (Raw ''old''))"
    by code_simp+
  ultimately show ?thesis by (simp add: sample_pkg_def)
qed

text \<open>An update removes the installed version before the new one is copied, so that a copy that
  fails leaves an empty folder: the plugin is gone.\<close>

theorem failed_update_loses_plugin:
  "fst (pm_update (sample_env\<lparr>copy_fails := True\<rparr>) ''p'' [''d''] [] old_world) = Inl ''ENOSPC'' \<and>
   (\<exists>d. list_plugins [''d''] (disk old_world) = Inr [d] \<and> pd_name d = JStr ''p'') \<and>
   entries_in [''d'', ''p''] (disk (snd (pm_update (sample_env\<lparr>copy_fails := True\<rparr>) ''p'' [''d''] [] old_world))) = [] \<and>
   list_plugins [''d''] (disk (snd (pm_update (sample_env\<lparr>copy_fails := True\<rparr>) ''p'' [''d''] [] old_world))) = Inr []"
proof -
  have "map_sum id (map pd_name) (list_plugins [''d''] (disk old_world)) = Inr [JStr ''p'']" by code_simp
  then have "\<exists>d. list_plugins [''d''] (disk old_world) = Inr [d] \<and> pd_name d = JStr ''p''"
    by (cases "list_plugins [''d''] (disk old_world)") auto
  moreover have "fst (pm_update (sample_env\<lparr>copy_fails := True\<rparr>) ''p'' [''d''] [] old_world) = Inl ''ENOSPC''" by code_simp
  moreover have "entries_in [''d'', ''p''] (disk (snd (pm_update (sample_env\<lparr>copy_fails := True\<rparr>) ''p'' [''d''] [] old_world))) = []"
    by code_simp
  moreover have "list_plugins [''d''] (disk (snd (pm_update (sample_env\<lparr>copy_fails := True\<rparr>) ''p'' [''d''] [] old_world))) = Inr []"
    by code_simp
  ultimately show ?thesis by blast
qed

section \<open>Extra files can climb out of their folder\<close>

definition minikube_file :: string where
  "minikube_file = minikube_url @ ''f''"

definition climbing_answer :: hub_answer where
  "climbing_answer = sample_answer\<lparr>ha_data := Some [(''headlamp/plugin/archive-url'', sample_url),
     (''headlamp/plugin/archive-checksum'', ''sha256:ab''),
     (''headlamp/plugin/extra-files/0/url'', minikube_file), (''headlamp/plugin/extra-files/0/checksum'', ''sha256:ab''),
     (''headlamp/plugin/extra-files/0/arch'', ''linux/x64''), (''headlamp/plugin/extra-files/0/output/o/input'', ''f''),
     (''headlamp/plugin/extra-files/0/output/o/output'', ''x/../../../../../d/q/main.js'')]\<rparr>"

definition climbing_env :: pm_env where
  "climbing_env = sample_env\<lparr>fetch_hub := (\<lambda>_. Hub_Answer climbing_answer),
     fetch_file := (\<lambda>u. if u = sample_url \<or> u = minikube_file then Response 200 (Some ''body'') else Fetch_Error)\<rparr>"

text \<open>The check of the paths of extra files only looks at their beginnings: a package whose output
  path has \<open>..\<close> further inside passes it, and trying to install the package replaces a file of
  another plugin.\<close>

theorem extra_file_replaces_foreign_file:
  "(let w = old_world\<lparr>disk := disk old_world @ [([''d'', ''q''], Dir), ([''d'', ''q'', ''main.js''], File (Raw ''mine''))]\<rparr>;
        r = install climbing_env (hub_prefix @ ''r/p'') [''d''] [] w
    in dict_get (disk w) [''d'', ''q'', ''main.js''] = Some (File (Raw ''mine'')) \<and>
       dict_get (disk (snd r)) [''d'', ''q'', ''main.js''] = Some (File (Raw ''body'')))"
  by code_simp

definition nested_answer :: hub_answer where
  "nested_answer = sample_answer\<lparr>ha_data := Some [(''headlamp/plugin/archive-url'', sample_url),
     (''headlamp/plugin/archive-checksum'', ''sha256:ab''),
     (''headlamp/plugin/extra-files/0/url'', minikube_file @ ''.tar.gz''), (''headlamp/plugin/extra-files/0/checksum'', ''sha256:ab''),
     (''headlamp/plugin/extra-files/0/arch'', ''linux/x64''), (''headlamp/plugin/extra-files/0/output/o/input'', ''out/f''),
     (''headlamp/plugin/extra-files/0/output/o/output'', ''f'')]\<rparr>"

definition nested_env :: pm_env where
  "nested_env = sample_env\<lparr>fetch_hub := (\<lambda>_. Hub_Answer nested_answer), fetch_file := (\<lambda>u. Response 200 (Some ''body'')),
     untar := (\<lambda>strip _. if strip = 0 then Some [([''out'', ''f''], Raw ''tool'')] else untar sample_env strip ''body'')\<rparr>"

text \<open>A directory that becomes empty when its only file is moved out cannot be removed, since the
  call has no recursive option: the installation of such a package fails, though everything was
  downloaded and moved.\<close>

theorem emptied_folder_fails_installation:
  "fst (install nested_env (hub_prefix @ ''r/p'') [''d''] [] empty_world) = Inl ''ERR_FS_EISDIR'' \<and>
   dict_get (disk (snd (install nested_env (hub_prefix @ ''r/p'') [''d''] [] empty_world))) [''tmp'', ''t'', ''p'', ''bin'', ''f''] =
     Some (File (Raw ''tool'')) \<and>
   \<not> exists_path (disk (snd (install nested_env (hub_prefix @ ''r/p'') [''d''] [] empty_world))) [''d'']"
  by code_simp

section \<open>Annotations become a tree\<close>

fun ann_at :: "ann \<Rightarrow> string list \<Rightarrow> ann option" where
  "ann_at a [] = Some a"
| "ann_at (Leaf s) (p # ps) = None"
| "ann_at (Node d) (p # ps) = (case dict_get d p of None \<Rightarrow> None | Some b \<Rightarrow> ann_at b ps)"

abbreviation leaf_at :: "(string \<times> ann) list \<Rightarrow> string list \<Rightarrow> string \<Rightarrow> bool" where
  "leaf_at d ps s \<equiv> ann_at (Node d) ps = Some (Leaf s)"

lemma leaf_at_Nil [simp]: "\<not> leaf_at d [] s"
  by simp

lemma ann_assign_leaves:
  assumes "ps \<noteq> []" and "\<forall>qs s. leaf_at d qs s \<longrightarrow> \<not> prefix qs ps \<and> \<not> prefix ps qs"
  shows "\<exists>d'. ann_assign ps v d = Inr d' \<and> (\<forall>qs s. leaf_at d' qs s \<longleftrightarrow> (qs = ps \<and> s = v) \<or> leaf_at d qs s)"
  using assms
proof (induction ps v d rule: ann_assign.induct)
  case (2 p v d)
  have "leaf_at (dict_set p (Leaf v) d) qs s \<longleftrightarrow> (qs = [p] \<and> s = v) \<or> leaf_at d qs s" for qs s
  proof (cases qs)
    case (Cons q rest)
    have "\<not> leaf_at d (p # rest') s" for rest' using 2(2) by (metis append_Cons append_Nil prefixI)
    with Cons show ?thesis by (cases rest) auto
  qed simp
  then show ?case by simp
next
  case (3 p q ps v d)
  let ?e = "if ann_truthy (dict_get d p) then dict_get d p else Some (Node [])"
  obtain e where e: "?e = Some (Node e)" and sub: "\<forall>rest s. leaf_at d (p # rest) s \<longleftrightarrow> leaf_at e rest s"
  proof (cases "dict_get d p")
    case None
    then show thesis by (intro that [of "[]"]) (auto simp: ann_truthy_def elim: ann_at.elims split: list.split)
  next
    case (Some a)
    show thesis
    proof (cases a)
      case (Leaf t)
      then have "leaf_at d [p] t" using Some by simp
      with 3(3) show thesis by (metis append_Cons append_Nil prefixI)
    next
      case (Node e')
      with Some show thesis by (intro that [of e']) (auto simp: ann_truthy_def)
    qed
  qed
  have "\<forall>qs s. leaf_at e qs s \<longrightarrow> \<not> prefix qs (q # ps) \<and> \<not> prefix (q # ps) qs"
    using 3(3) sub by (metis Cons_prefix_Cons)
  then obtain e' where e': "ann_assign (q # ps) v e = Inr e'"
      "\<forall>qs s. leaf_at e' qs s \<longleftrightarrow> (qs = q # ps \<and> s = v) \<or> leaf_at e qs s"
    using 3(1) e by auto
  have "leaf_at (dict_set p (Node e') d) qs s \<longleftrightarrow> (qs = p # q # ps \<and> s = v) \<or> leaf_at d qs s" for qs s
    using e'(2) sub by (cases qs) auto
  with e e'(1) show ?case by simp
qed simp

lemma convert_from_leaves:
  assumes "\<forall>(k, v) \<in> set as. \<forall>qs s. leaf_at d qs s \<longrightarrow> \<not> prefix qs (js_split ''/'' k) \<and> \<not> prefix (js_split ''/'' k) qs"
    and "distinct (map fst as)"
    and "\<forall>k \<in> fst ` set as. \<forall>l \<in> fst ` set as. k \<noteq> l \<longrightarrow> \<not> prefix (js_split ''/'' k) (js_split ''/'' l)"
  shows "\<exists>d'. convert_from as d = Inr d' \<and>
    (\<forall>qs s. leaf_at d' qs s \<longleftrightarrow> (\<exists>k. (k, s) \<in> set as \<and> qs = js_split ''/'' k) \<or> leaf_at d qs s)"
  using assms
proof (induction as arbitrary: d)
  case (Cons a as)
  obtain k v where a: "a = (k, v)" by fastforce
  have "js_split ''/'' k \<noteq> []" by (rule js_split_nonempty) simp
  moreover have "\<forall>qs s. leaf_at d qs s \<longrightarrow> \<not> prefix qs (js_split ''/'' k) \<and> \<not> prefix (js_split ''/'' k) qs"
    using bspec [OF Cons.prems(1), of "(k, v)"] a by simp
  ultimately obtain d1 where d1: "ann_assign (js_split ''/'' k) v d = Inr d1"
      "\<forall>qs s. leaf_at d1 qs s \<longleftrightarrow> (qs = js_split ''/'' k \<and> s = v) \<or> leaf_at d qs s"
    using ann_assign_leaves [of "js_split ''/'' k" d v] by blast
  have rest: "distinct (map fst as)"
    "\<forall>k \<in> fst ` set as. \<forall>l \<in> fst ` set as. k \<noteq> l \<longrightarrow> \<not> prefix (js_split ''/'' k) (js_split ''/'' l)"
    using Cons.prems(2,3) by simp_all
  have "k \<notin> fst ` set as" using Cons.prems(2) a by simp
  then have "\<forall>(l, w) \<in> set as. \<forall>qs s. leaf_at d1 qs s \<longrightarrow> \<not> prefix qs (js_split ''/'' l) \<and> \<not> prefix (js_split ''/'' l) qs"
  proof (intro ballI, clarify)
    fix l w qs s assume l: "(l, w) \<in> set as" and leaf: "leaf_at d1 qs s"
    have "k \<noteq> l" "l \<in> fst ` set as" using l \<open>k \<notin> fst ` set as\<close> by force+
    then have "\<not> prefix (js_split ''/'' k) (js_split ''/'' l)" "\<not> prefix (js_split ''/'' l) (js_split ''/'' k)"
      using Cons.prems(3) a by auto
    moreover have "leaf_at d qs s \<longrightarrow> \<not> prefix qs (js_split ''/'' l) \<and> \<not> prefix (js_split ''/'' l) qs"
      using bspec [OF Cons.prems(1), of "(l, w)"] l by simp
    ultimately show "\<not> prefix qs (js_split ''/'' l) \<and> \<not> prefix (js_split ''/'' l) qs"
      using leaf [unfolded d1(2) [rule_format]] by (elim disjE conjE) simp_all
  qed
  then obtain d' where "convert_from as d1 = Inr d'"
      "\<forall>qs s. leaf_at d' qs s \<longleftrightarrow> (\<exists>k. (k, s) \<in> set as \<and> qs = js_split ''/'' k) \<or> leaf_at d1 qs s"
    using Cons.IH [OF _ rest] by blast
  moreover have "(\<exists>l. (l, s) \<in> set (a # as) \<and> qs = js_split ''/'' l) \<or> leaf_at d qs s \<longleftrightarrow>
      (\<exists>l. (l, s) \<in> set as \<and> qs = js_split ''/'' l) \<or> leaf_at d1 qs s" for qs s
    using a d1(2) by auto
  ultimately show ?case using d1(1) a by simp
qed simp

text \<open>When no annotation's path begins with another's, the annotations become a tree with exactly
  their values at their paths, and nothing is lost or added.\<close>

theorem annotations_are_kept:
  assumes "distinct (map fst as)"
    and "\<forall>k \<in> fst ` set as. \<forall>l \<in> fst ` set as. k \<noteq> l \<longrightarrow> \<not> prefix (js_split ''/'' k) (js_split ''/'' l)"
  shows "\<exists>t. convertAnnotations as = Inr t \<and>
    (\<forall>ps v. ann_at t ps = Some (Leaf v) \<longleftrightarrow> (\<exists>k. (k, v) \<in> set as \<and> ps = js_split ''/'' k))"
proof -
  have "\<not> leaf_at [] qs s" for qs s by (cases qs) auto
  then obtain d where "convert_from as [] = Inr d"
      "\<forall>qs s. leaf_at d qs s \<longleftrightarrow> (\<exists>k. (k, s) \<in> set as \<and> qs = js_split ''/'' k)"
    using convert_from_leaves [of as "[]"] assms by fastforce
  then show ?thesis by (simp add: convertAnnotations_def)
qed

lemma annotations_are_kept_witness:
  "\<exists>t. convertAnnotations [(''a/b'', ''1''), (''a/c'', ''2'')] = Inr t \<and> ann_at t [''a'', ''c''] = Some (Leaf ''2'')"
proof -
  have s: "js_split ''/'' ''a/b'' = [''a'', ''b'']" "js_split ''/'' ''a/c'' = [''a'', ''c'']" by code_simp+
  from annotations_are_kept [of "[(''a/b'', ''1''), (''a/c'', ''2'')]"] show ?thesis
    by (auto simp: s)
qed

section \<open>The variable PATH\<close>

lemma js_split_join_end:
  assumes "\<forall>x \<in> set xs. c \<notin> set x"
  shows "js_split [c] (js_join [c] (xs @ [y])) = xs @ js_split [c] y"
  using assms
proof (induction xs)
  case (Cons x xs)
  have "js_join [c] ((x # xs) @ [y]) = x @ [c] @ js_join [c] (xs @ [y])" by (simp add: js_join_Cons)
  then show ?case using Cons by (simp add: js_split.simps [of _ "x @ _"] split_first_char)
qed simp

text \<open>Directories are put before the directories of the variable PATH. When the variable was not
  set, or empty, an empty entry remains at the end, which the system reads as the working
  directory.\<close>

theorem addToPath_entries:
  assumes "dirs \<noteq> []" and "\<forall>d \<in> set dirs. CHR '':'' \<notin> set d" and "platform env \<noteq> ''win32''"
  shows "(\<exists>p. path_var (addToPath env dirs w) = Some p \<and>
      js_split '':'' p = dirs @ js_split '':'' (case path_var w of None \<Rightarrow> [] | Some q \<Rightarrow> q)) \<and>
    (path_var w = None \<longrightarrow> (\<exists>p. path_var (addToPath env dirs w) = Some p \<and> last (js_split '':'' p) = []))"
proof -
  have "js_split '':'' [] = [[]]" by (simp add: js_split.simps)
  then show ?thesis using assms js_split_join_end [OF assms(2)] by (simp add: addToPath_def)
qed

lemma addToPath_entries_witness:
  "\<exists>p. path_var (addToPath sample_env [''/d/p/bin''] empty_world) = Some p \<and> last (js_split '':'' p) = []"
  using addToPath_entries [of "[''/d/p/bin'']" sample_env empty_world]
  by (simp add: sample_env_def empty_world_def)

end
