(* ===== verification/McpSettings.thy ===== *)
theory McpSettings
  imports JsPrelude
begin

text \<open>
  The settings of MCP servers, \<^verbatim>\<open>app/electron/mcp/MCPSettings.ts\<close>: which servers are started with
  which arguments, and the changes that the confirmation dialog lists. The descriptions of changes
  are values instead of texts. The texts put in for placeholders have no dollar sign, which
  \<open>replace\<close> would interpret. \<open>path.resolve\<close> of Windows is given from outside.
\<close>

section \<open>Settings\<close>

record mcp_server =
  ms_name :: string
  ms_command :: string
  ms_args :: "string list option"
  ms_enabled :: bool
  ms_env :: "(string, string) dict option"

record mcp_settings =
  mcp_enabled :: bool
  mcp_servers :: "mcp_server list option"

section \<open>Arguments\<close>

record host =
  home_dir :: string
  app_data :: "string option"
  local_app_data :: "string option"
  on_windows :: bool
  win_resolve :: "string \<Rightarrow> string"
  process_env :: "(string, string) dict"

definition replace_all :: "string \<Rightarrow> string \<Rightarrow> string \<Rightarrow> string" where
  "replace_all old new s = js_join new (js_split old s)"

definition placeholder :: string where
  "placeholder = ''K8SENSE_CURRENT_CLUSTER''"

definition line_end :: "char \<Rightarrow> bool" where
  "line_end c \<longleftrightarrow> c = CHR 0x0A \<or> c = CHR 0x0D"

text \<open>The match of \<open>/type=bind,src=(.+?),dst=(.+)/\<close>.\<close>

fun split_dst :: "string \<Rightarrow> string \<Rightarrow> (string \<times> string) option" where
  "split_dst acc [] = None"
| "split_dst acc (c # cs) =
     (if acc \<noteq> [] \<and> prefix '',dst='' (c # cs) \<and> takeWhile (\<lambda>x. \<not> line_end x) (drop 5 (c # cs)) \<noteq> []
      then Some (rev acc, takeWhile (\<lambda>x. \<not> line_end x) (drop 5 (c # cs)))
      else if line_end c then None
      else split_dst (c # acc) cs)"

fun bind_match :: "string \<Rightarrow> (string \<times> string) option" where
  "bind_match [] = None"
| "bind_match (c # cs) =
     (case (if prefix ''type=bind,src='' (c # cs) then split_dst [] (drop 14 (c # cs)) else None) of
        Some m \<Rightarrow> Some m
      | None \<Rightarrow> bind_match cs)"

definition docker_path :: "host \<Rightarrow> string \<Rightarrow> string" where
  "docker_path h p =
    (if on_windows h
     then (let r = win_resolve h p in
           if 2 \<le> length r \<and> (is_lower (hd r) \<or> is_upper (hd r)) \<and> r ! 1 = CHR '':''
           then ''/'' @ [lower_char (hd r)] @ map (\<lambda>c. if c = CHR 0x5C then CHR ''/'' else c) (drop 2 r)
           else r)
     else p)"

definition expand_arg :: "host \<Rightarrow> string option \<Rightarrow> string \<Rightarrow> string" where
  "expand_arg h cluster arg =
    (let a1 = replace_all placeholder (or_else cluster []) arg;
         a2 = replace_all ''%USERPROFILE%'' (home_dir h) a1;
         a3 = replace_all ''%APPDATA%'' (or_else (app_data h) []) a2;
         a4 = replace_all ''%LOCALAPPDATA%'' (or_else (local_app_data h) []) a3;
         a5 = (if on_windows h then map (\<lambda>c. if c = CHR 0x5C then CHR ''/'' else c) a4 else a4)
     in if str_includes a5 ''type=bind,src=''
        then (case bind_match a5 of
            None \<Rightarrow> a5
          | Some (src, dst) \<Rightarrow> ''type=bind,src='' @ docker_path h src @ '',dst='' @ dst)
        else a5)"

definition expandEnvAndResolvePaths :: "host \<Rightarrow> string list \<Rightarrow> string option \<Rightarrow> string list" where
  "expandEnvAndResolvePaths h args cluster = map (expand_arg h cluster) args"

section \<open>Servers to start\<close>

record server_config =
  sc_command :: string
  sc_args :: "string list"
  sc_env :: "(string, string) dict"

definition args_of :: "mcp_server \<Rightarrow> string list" where
  "args_of s = (case ms_args s of None \<Rightarrow> [] | Some as \<Rightarrow> as)"

definition env_of :: "mcp_server \<Rightarrow> (string, string) dict" where
  "env_of s = (case ms_env s of None \<Rightarrow> [] | Some e \<Rightarrow> e)"

definition server_config_of :: "host \<Rightarrow> string list \<Rightarrow> mcp_server \<Rightarrow> server_config" where
  "server_config_of h clusters s =
    \<lparr>sc_command = ms_command s,
     sc_args = expandEnvAndResolvePaths h (args_of s)
       (case clusters of [] \<Rightarrow> None | c # _ \<Rightarrow> if c = [] then None else Some c),
     sc_env = fold (\<lambda>e. dict_set (fst e) (snd e)) (env_of s) (process_env h)\<rparr>"

definition startable :: "mcp_server \<Rightarrow> bool" where
  "startable s \<longleftrightarrow> ms_enabled s \<and> ms_name s \<noteq> [] \<and> ms_command s \<noteq> []"

definition makeMcpServersFromSettings :: "host \<Rightarrow> mcp_settings option \<Rightarrow> string list \<Rightarrow> (string, server_config) dict" where
  "makeMcpServersFromSettings h m clusters =
    (case m of
       None \<Rightarrow> []
     | Some st \<Rightarrow>
         if \<not> mcp_enabled st then []
         else case mcp_servers st of
           None \<Rightarrow> []
         | Some ss \<Rightarrow> fold (\<lambda>s d. if startable s then dict_set (ms_name s) (server_config_of h clusters s) d else d) ss [])"

text \<open>\<open>None\<close>: reading \<open>servers\<close> of settings without them throws.\<close>

definition hasClusterDependentServers :: "mcp_settings option \<Rightarrow> bool option" where
  "hasClusterDependentServers m =
    (case m of
       None \<Rightarrow> Some False
     | Some st \<Rightarrow> (case mcp_servers st of
         None \<Rightarrow> None
       | Some ss \<Rightarrow> Some (list_ex (\<lambda>s. ms_enabled s \<and> list_ex (\<lambda>a. str_includes a placeholder) (args_of s)) ss)))"

section \<open>Changes\<close>

datatype server_change = Switch_Server bool | Change_Command string string
  | Change_Args "string list" "string list" | Change_Env

datatype settings_change = Switch_Mcp bool | Add_Server string string | Remove_Server string
  | Modify_Server string "server_change list"

definition servers_of :: "mcp_settings option \<Rightarrow> mcp_server list" where
  "servers_of m = (case Option.bind m mcp_servers of None \<Rightarrow> [] | Some ss \<Rightarrow> ss)"

definition switched_on :: "mcp_settings option \<Rightarrow> bool" where
  "switched_on m = (case m of None \<Rightarrow> False | Some st \<Rightarrow> mcp_enabled st)"

text \<open>Two values have the same JSON text exactly when they are equal.\<close>

definition server_changes :: "mcp_server \<Rightarrow> mcp_server \<Rightarrow> server_change list" where
  "server_changes cur new =
    (if ms_enabled cur \<noteq> ms_enabled new then [Switch_Server (ms_enabled new)] else []) @
    (if ms_command cur \<noteq> ms_command new then [Change_Command (ms_command cur) (ms_command new)] else []) @
    (if args_of cur \<noteq> args_of new then [Change_Args (args_of cur) (args_of new)] else []) @
    (if env_of cur \<noteq> env_of new then [Change_Env] else [])"

definition modification :: "mcp_server list \<Rightarrow> mcp_server \<Rightarrow> settings_change list" where
  "modification cur new = (case find (\<lambda>s. ms_name s = ms_name new) cur of
     None \<Rightarrow> []
   | Some s \<Rightarrow> if server_changes s new = [] then [] else [Modify_Server (ms_name new) (server_changes s new)])"

definition settingsChanges :: "mcp_settings option \<Rightarrow> mcp_settings option \<Rightarrow> settings_change list" where
  "settingsChanges cur new =
    (let cs = servers_of cur; ns = servers_of new in
     (if switched_on cur \<noteq> switched_on new then [Switch_Mcp (switched_on new)] else []) @
     concat (map (\<lambda>s. if ms_name s \<in> ms_name ` set cs then [] else [Add_Server (ms_name s) (ms_command s)]) ns) @
     concat (map (\<lambda>s. if ms_name s \<in> ms_name ` set ns then [] else [Remove_Server (ms_name s)]) cs) @
     concat (map (modification cs) ns))"

section \<open>Nothing changes that the dialog does not list\<close>

text \<open>Servers that start alike.\<close>

definition alike :: "mcp_server \<Rightarrow> mcp_server \<Rightarrow> bool" where
  "alike s t \<longleftrightarrow> ms_name s = ms_name t \<and> ms_enabled s = ms_enabled t \<and> ms_command s = ms_command t \<and>
     args_of s = args_of t \<and> env_of s = env_of t"

lemma server_changes_Nil: "ms_name s = ms_name t \<Longrightarrow> server_changes s t = [] \<longleftrightarrow> alike s t"
  by (auto simp: server_changes_def alike_def)

lemma alike_starts:
  "alike s t \<Longrightarrow> startable s = startable t"
  "alike s t \<Longrightarrow> server_config_of h cl s = server_config_of h cl t"
  "alike s t \<Longrightarrow> ms_name s = ms_name t"
  by (simp_all add: alike_def startable_def server_config_of_def)

lemma last_start_None:
  "find (\<lambda>s. startable s \<and> ms_name s = n) (rev ss) = None \<longleftrightarrow> (\<forall>s \<in> set ss. \<not> (startable s \<and> ms_name s = n))"
  by (auto simp: find_None_iff)

lemma last_start_Some:
  "find (\<lambda>s. startable s \<and> ms_name s = n) (rev ss) = Some s \<Longrightarrow> s \<in> set ss \<and> startable s \<and> ms_name s = n"
  by (auto simp: find_Some_iff set_conv_nth rev_nth)

lemma find_name:
  "distinct (map ms_name cs) \<Longrightarrow> s \<in> set cs \<Longrightarrow> find (\<lambda>t. ms_name t = ms_name s) cs = Some s"
  by (induction cs) (auto simp: rev_image_eqI)

lemma make_servers_get:
  "dict_get (fold (\<lambda>s d. if startable s then dict_set (ms_name s) (server_config_of h cl s) d else d) ss d0) n =
   (case find (\<lambda>s. startable s \<and> ms_name s = n) (rev ss) of
      None \<Rightarrow> dict_get d0 n | Some s \<Rightarrow> Some (server_config_of h cl s))"
  by (induction ss rule: rev_induct) auto

text \<open>C39: When the names of the servers in the current settings are distinct, which no code
  enforces, and the confirmation dialog finds no change to list, the new settings start exactly the
  same servers with the same commands, arguments and variables, for every cluster. Without distinct
  names this does not hold (\<open>duplicate_names_hide_a_change\<close>).\<close>

theorem unlisted_settings_start_the_same:
  assumes "distinct (map ms_name (servers_of cur))" and "settingsChanges cur new = []"
  shows "dict_get (makeMcpServersFromSettings h new clusters) n = dict_get (makeMcpServersFromSettings h cur clusters) n"
proof -
  let ?cs = "servers_of cur" and ?ns = "servers_of new"
  have on: "switched_on cur = switched_on new"
    and known: "\<And>s. s \<in> set ?ns \<Longrightarrow> ms_name s \<in> ms_name ` set ?cs"
    and kept: "\<And>s. s \<in> set ?cs \<Longrightarrow> ms_name s \<in> ms_name ` set ?ns"
    and same: "\<And>s. s \<in> set ?ns \<Longrightarrow> modification ?cs s = []"
  proof -
    have "(if switched_on cur \<noteq> switched_on new then [Switch_Mcp (switched_on new)] else []) = []"
      "concat (map (\<lambda>s. if ms_name s \<in> ms_name ` set ?cs then [] else [Add_Server (ms_name s) (ms_command s)]) ?ns) = []"
      "concat (map (\<lambda>s. if ms_name s \<in> ms_name ` set ?ns then [] else [Remove_Server (ms_name s)]) ?cs) = []"
      "concat (map (modification ?cs) ?ns) = []"
      using assms(2) unfolding settingsChanges_def Let_def append_is_Nil_conv by blast+
    note parts = this
    show "switched_on cur = switched_on new" using parts(1) by (simp split: if_split_asm)
    show "ms_name s \<in> ms_name ` set ?cs" if "s \<in> set ?ns" for s
      using parts(2) that unfolding concat_eq_Nil_conv by (auto split: if_split_asm)
    show "ms_name s \<in> ms_name ` set ?ns" if "s \<in> set ?cs" for s
      using parts(3) that unfolding concat_eq_Nil_conv by (auto split: if_split_asm)
    show "modification ?cs s = []" if "s \<in> set ?ns" for s
      using parts(4) that unfolding concat_eq_Nil_conv by simp
  qed
  have new_old: "\<exists>t \<in> set ?cs. alike t s" if "s \<in> set ?ns" for s
  proof -
    obtain t where t: "t \<in> set ?cs" "ms_name t = ms_name s" using known [OF \<open>s \<in> set ?ns\<close>] by auto
    then have "find (\<lambda>u. ms_name u = ms_name s) ?cs = Some t" using find_name [OF assms(1) t(1)] by simp
    with same [OF \<open>s \<in> set ?ns\<close>] t show ?thesis
      by (auto simp: modification_def server_changes_Nil split: if_splits)
  qed
  have uniq: "t = u" if "t \<in> set ?cs" "u \<in> set ?cs" "ms_name t = ms_name u" for t u
    using find_name [OF assms(1) that(1), unfolded that(3)] find_name [OF assms(1) that(2)] by (rule trans [THEN option.inject [THEN iffD1], OF sym])
  have old_new: "\<exists>u \<in> set ?ns. alike t u" if t: "t \<in> set ?cs" for t
  proof -
    obtain u where u: "u \<in> set ?ns" "ms_name u = ms_name t" using kept [OF t] by auto
    obtain v where v: "v \<in> set ?cs" "alike v u" using new_old [OF u(1)] by blast
    have "v = t" using uniq [OF v(1) t] alike_starts(3) [OF v(2)] u(2) by simp
    with u v show ?thesis by blast
  qed
  have g: "dict_get (makeMcpServersFromSettings h m clusters) n = (if switched_on m then
      (case find (\<lambda>s. startable s \<and> ms_name s = n) (rev (servers_of m)) of
         None \<Rightarrow> None | Some s \<Rightarrow> Some (server_config_of h clusters s)) else None)" for m
    by (auto simp: makeMcpServersFromSettings_def switched_on_def servers_of_def make_servers_get split: option.split)
  show ?thesis
  proof (cases "find (\<lambda>s. startable s \<and> ms_name s = n) (rev ?ns)")
    case None
    then have "find (\<lambda>s. startable s \<and> ms_name s = n) (rev ?cs) = None"
      unfolding last_start_None using old_new alike_starts(1,3) by metis
    with None on show ?thesis by (simp add: g)
  next
    case (Some s)
    then have s: "s \<in> set ?ns" "startable s" "ms_name s = n" using last_start_Some by blast+
    obtain t where t: "t \<in> set ?cs" "alike t s" using new_old [OF s(1)] by blast
    have tn: "startable t" "ms_name t = n" using s alike_starts(1,3) [OF t(2)] by simp_all
    obtain u where u: "find (\<lambda>s. startable s \<and> ms_name s = n) (rev ?cs) = Some u"
      using t(1) tn last_start_None [of n ?cs] by fastforce
    have "u = t" using uniq [OF _ t(1)] last_start_Some [OF u] tn(2) by simp
    then show ?thesis using Some u on alike_starts(2) [OF t(2)] by (simp add: g)
  qed
qed

definition sample_host :: host where
  "sample_host = \<lparr>home_dir = ''/home/u'', app_data = None, local_app_data = None, on_windows = False,
     win_resolve = (\<lambda>p. p), process_env = []\<rparr>"

definition sample_server :: mcp_server where
  "sample_server = \<lparr>ms_name = ''s'', ms_command = ''run'', ms_args = None, ms_enabled = True, ms_env = None\<rparr>"

lemma unlisted_settings_start_the_same_witness:
  "dict_get (makeMcpServersFromSettings sample_host
     (Some \<lparr>mcp_enabled = True, mcp_servers = Some [sample_server\<lparr>ms_args := Some []\<rparr>, sample_server]\<rparr>) []) ''s'' =
   dict_get (makeMcpServersFromSettings sample_host (Some \<lparr>mcp_enabled = True, mcp_servers = Some [sample_server]\<rparr>) []) ''s''"
  by (rule unlisted_settings_start_the_same)
    (simp_all add: servers_of_def settingsChanges_def switched_on_def modification_def server_changes_def args_of_def
      env_of_def sample_server_def Let_def)

text \<open>When the current settings have two servers of one name, the second of which is the one that
  starts, the dialog lists nothing when the second is dropped, although another command may start.\<close>

theorem duplicate_names_hide_a_change:
  assumes "startable s" and "startable t" and "ms_name s = ms_name t"
  defines "cur \<equiv> Some \<lparr>mcp_enabled = True, mcp_servers = Some [s, t]\<rparr>"
    and "new \<equiv> Some \<lparr>mcp_enabled = True, mcp_servers = Some [s]\<rparr>"
  shows "settingsChanges cur new = [] \<and>
    dict_get (makeMcpServersFromSettings h cur clusters) (ms_name s) = Some (server_config_of h clusters t) \<and>
    dict_get (makeMcpServersFromSettings h new clusters) (ms_name s) = Some (server_config_of h clusters s)"
  using assms(1-3)
  by (simp add: cur_def new_def settingsChanges_def switched_on_def servers_of_def modification_def server_changes_def
      makeMcpServersFromSettings_def Let_def)

theorem duplicate_names_hide_a_change_witness:
  "settingsChanges (Some \<lparr>mcp_enabled = True, mcp_servers = Some [sample_server, sample_server\<lparr>ms_command := ''other''\<rparr>]\<rparr>)
     (Some \<lparr>mcp_enabled = True, mcp_servers = Some [sample_server]\<rparr>) = []"
  using duplicate_names_hide_a_change [of sample_server "sample_server\<lparr>ms_command := ''other''\<rparr>" sample_host "[]"]
  by (simp add: startable_def sample_server_def)

text \<open>An argument with a bind mount loses everything before the mount: in the usual form
  \<open>--mount=type=bind,src=A,dst=B\<close> the option's own name is cut off.\<close>

theorem bind_argument_loses_its_option:
  "expand_arg sample_host None ''--mount=type=bind,src=/a,dst=/b'' = ''type=bind,src=/a,dst=/b''"
  by code_simp

end
