(* ===== verification/McpClient.thy ===== *)
theory McpClient
  imports McpTools McpSettings
begin

text \<open>
  The client of MCP servers in the desktop app, \<^verbatim>\<open>app/electron/mcp/MCPClient.ts\<close>, as a state
  machine. Calls from the window and the answers of dialogs, servers and tools are events in any
  order; an asynchronous method that waits is a thread, and goes on when its event comes. The
  adapter library is outside: creating a client may throw (the parameter \<open>refuses\<close>), its tools,
  the result of closing it and the results of tools come with the events. Thread and client
  numbers are positions in lists that only grow.
\<close>

section \<open>State\<close>

datatype after_init = Then_Started | Then_Execute string "(string, json) dict" | Then_Reset | Then_Updated
  | Then_Changed "string list option"

datatype thread =
    Loading nat nat
  | Waiting nat after_init
  | Closing nat after_init
  | Asking_Reset
  | Asking_Update mcp_settings
  | Asking_Tools tools_config
  | Invoking string string
  | Cleaning nat

datatype promise = Pending | Fulfilled | Rejected string

datatype answer = Succeeded | Failed string

record connection =
  cn_servers :: "(string, server_config) dict"
  cn_open :: bool

record mcp_client =
  has_window :: bool
  initialized :: bool
  has_store :: bool
  toolState :: tool_store
  clientTools :: "client_tool list"
  client :: "nat option"
  isInitialized :: bool
  initPromise :: "nat option"
  clusters :: "string list"
  currentClusters :: "string list option"
  settings :: "mcp_settings option"
  connections :: "connection list"
  promises :: "promise list"
  threads :: "thread option list"
  invoked :: "(string \<times> (string, json) dict) list"
  answers :: "answer list"

definition answer :: "answer \<Rightarrow> mcp_client \<Rightarrow> mcp_client" where
  [state_defs]: "answer a s = s\<lparr>answers := answers s @ [a]\<rparr>"

definition spawn :: "thread \<Rightarrow> mcp_client \<Rightarrow> mcp_client" where
  [state_defs]: "spawn t s = s\<lparr>threads := threads s @ [Some t]\<rparr>"

definition thread_of :: "mcp_client \<Rightarrow> nat \<Rightarrow> thread option" where
  "thread_of s i = (if i < length (threads s) then threads s ! i else None)"

definition finish :: "nat \<Rightarrow> mcp_client \<Rightarrow> mcp_client" where
  [state_defs]: "finish i s = s\<lparr>threads := (threads s)[i := None]\<rparr>"

section \<open>Running a tool\<close>

definition execute_now :: "string \<Rightarrow> (string, json) dict \<Rightarrow> mcp_client \<Rightarrow> mcp_client" where
  [state_defs]: "execute_now name args s =
    (if client s = None \<or> clientTools s = []
     then answer (Failed ''MCP client not initialized or no tools available'') s
     else (let (sv, t) = parseServerNameToolName name in
       if \<not> isToolEnabled sv t (toolState s)
       then answer (Failed (''Tool '' @ t @ '' from server '' @ sv @ '' is disabled'')) s
       else case find (\<lambda>c. ct_name c = name) (clientTools s) of
         None \<Rightarrow> answer (Failed (''Tool '' @ name @ '' not found'')) s
       | Some c \<Rightarrow>
           (case validateToolArgs (ct_schema c) args of
              Valid \<Rightarrow> spawn (Invoking sv t) (s\<lparr>invoked := invoked s @ [(name, args)]\<rparr>)
            | Invalid e \<Rightarrow> answer (Failed (''Parameter validation failed: '' @ e)) s
            | SchemaError \<Rightarrow> answer (Failed ''Parameter validation failed: Schema validation error'') s)))"

section \<open>Initialization\<close>

text \<open>What follows the wait for the initialization.\<close>

definition continue_ok :: "after_init \<Rightarrow> mcp_client \<Rightarrow> mcp_client" where
  [state_defs]: "continue_ok k s = (case k of
     Then_Started \<Rightarrow> s\<lparr>initialized := True\<rparr>
   | Then_Execute name args \<Rightarrow> execute_now name args s
   | _ \<Rightarrow> answer Succeeded s)"

definition continue_failed :: "after_init \<Rightarrow> string \<Rightarrow> mcp_client \<Rightarrow> mcp_client" where
  [state_defs]: "continue_failed k e s = (case k of
     Then_Changed old \<Rightarrow> answer (Failed e) (s\<lparr>currentClusters := old\<rparr>)
   | _ \<Rightarrow> answer (Failed e) s)"

text \<open>\<open>doInitializeClient\<close> up to its first wait. What it assigns to \<open>initializationPromise\<close> when the
  adapter throws at once is overwritten by its caller.\<close>

definition doInitializeClient :: "host \<Rightarrow> ((string, server_config) dict \<Rightarrow> string option) \<Rightarrow> mcp_client \<Rightarrow> promise \<times> mcp_client" where
  [state_defs]: "doInitializeClient h refuses s =
    (let servers = makeMcpServersFromSettings h (settings s) (clusters s)
     in if servers = [] then (Fulfilled, s\<lparr>isInitialized := True\<rparr>)
        else case refuses servers of
          Some e \<Rightarrow> (Rejected e, s\<lparr>client := None, isInitialized := False, initPromise := None\<rparr>)
        | None \<Rightarrow> (Pending, spawn (Loading (length (promises s)) (length (connections s)))
            (s\<lparr>client := Some (length (connections s)),
               connections := connections s @ [\<lparr>cn_servers = servers, cn_open = True\<rparr>]\<rparr>)))"

definition initializeClient :: "host \<Rightarrow> ((string, server_config) dict \<Rightarrow> string option) \<Rightarrow> after_init \<Rightarrow> mcp_client \<Rightarrow> mcp_client" where
  [state_defs]: "initializeClient h refuses k s =
    (if isInitialized s then continue_ok k s
     else case initPromise s of
       Some p \<Rightarrow> spawn (Waiting p k) s
     | None \<Rightarrow>
         (case doInitializeClient h refuses s of (r, s') \<Rightarrow>
            spawn (Waiting (length (promises s)) k)
              (s'\<lparr>initPromise := Some (length (promises s)), promises := promises s' @ [r]\<rparr>)))"

definition tools_loaded :: "nat \<Rightarrow> client_tool list \<Rightarrow> mcp_client \<Rightarrow> mcp_client" where
  [state_defs]: "tools_loaded p ts s =
    (let s1 = (if has_store s then s\<lparr>toolState := initConfigFromClientTools ts (toolState s)\<rparr> else s)
     in s1\<lparr>clientTools := ts, isInitialized := True, promises := (promises s1)[p := Fulfilled]\<rparr>)"

definition tools_failed :: "nat \<Rightarrow> string \<Rightarrow> mcp_client \<Rightarrow> mcp_client" where
  [state_defs]: "tools_failed p e s =
    s\<lparr>client := None, isInitialized := False, initPromise := None, promises := (promises s)[p := Rejected e]\<rparr>"

definition resumed :: "nat \<Rightarrow> nat \<Rightarrow> after_init \<Rightarrow> mcp_client \<Rightarrow> mcp_client" where
  [state_defs]: "resumed i p k s = (case promises s ! p of
     Pending \<Rightarrow> s
   | Fulfilled \<Rightarrow> continue_ok k (finish i s)
   | Rejected e \<Rightarrow> continue_failed k e (finish i s))"

section \<open>Calls\<close>

text \<open>The store of tool states is made, but its file is not read.\<close>

definition initialize :: "host \<Rightarrow> ((string, server_config) dict \<Rightarrow> string option) \<Rightarrow> mcp_client \<Rightarrow> mcp_client" where
  [state_defs]: "initialize h refuses s =
    (if initialized s then s
     else initializeClient h refuses Then_Started
       (s\<lparr>has_store := True, toolState := (toolState s)\<lparr>config := []\<rparr>\<rparr>))"

definition reset_fields :: "mcp_client \<Rightarrow> mcp_client" where
  [state_defs]: "reset_fields s = s\<lparr>client := None, isInitialized := False, initPromise := None\<rparr>"

text \<open>Closing the client, if there is one, and starting again.\<close>

definition restart :: "host \<Rightarrow> ((string, server_config) dict \<Rightarrow> string option) \<Rightarrow> after_init \<Rightarrow> mcp_client \<Rightarrow> mcp_client" where
  [state_defs]: "restart h refuses k s =
    (case client s of
       None \<Rightarrow> initializeClient h refuses k (reset_fields s)
     | Some c \<Rightarrow> spawn (Closing c k) s)"

definition handleClustersChange ::
  "host \<Rightarrow> ((string, server_config) dict \<Rightarrow> string option) \<Rightarrow> string list option \<Rightarrow> mcp_client \<Rightarrow> mcp_client" where
  [state_defs]: "handleClustersChange h refuses new s =
    (if \<not> initialized s then answer (Failed ''MCPClient: not initialized'') s
     else if currentClusters s = new then answer Succeeded s
     else case hasClusterDependentServers (settings s) of
       None \<Rightarrow> answer (Failed ''TypeError'') (s\<lparr>currentClusters := new\<rparr>)
     | Some False \<Rightarrow> answer Succeeded (s\<lparr>currentClusters := new\<rparr>)
     | Some True \<Rightarrow> restart h refuses (Then_Changed (currentClusters s)) (s\<lparr>currentClusters := new\<rparr>))"

definition mcpClusterChange ::
  "host \<Rightarrow> ((string, server_config) dict \<Rightarrow> string option) \<Rightarrow> string option \<Rightarrow> mcp_client \<Rightarrow> mcp_client" where
  [state_defs]: "mcpClusterChange h refuses c s =
    (case c of None \<Rightarrow> answer Succeeded s | Some n \<Rightarrow> handleClustersChange h refuses (Some [n]) s)"

definition mcpExecuteTool ::
  "host \<Rightarrow> ((string, server_config) dict \<Rightarrow> string option) \<Rightarrow> string \<Rightarrow> (string, json) dict \<Rightarrow> mcp_client \<Rightarrow> mcp_client" where
  [state_defs]: "mcpExecuteTool h refuses name args s =
    (if \<not> has_store s then s else initializeClient h refuses (Then_Execute name args) s)"

definition ask :: "thread \<Rightarrow> mcp_client \<Rightarrow> mcp_client" where
  [state_defs]: "ask t s = (if has_window s then spawn t s else answer (Failed ''Main window not set for MCP client'') s)"

definition current_tools :: "mcp_client \<Rightarrow> tools_config" where
  "current_tools s = (if has_store s then config (toolState s) else [])"

text \<open>The dialog about tools is only shown when the summary has a change.\<close>

definition mcpUpdateToolsConfig :: "tools_config \<Rightarrow> mcp_client \<Rightarrow> mcp_client" where
  [state_defs]: "mcpUpdateToolsConfig c s =
    (if has_window s \<and> fst (summarizeMcpToolStateChanges (current_tools s) c) = 0
     then answer Succeeded (if has_store s then s\<lparr>toolState := setConfig c (toolState s)\<rparr> else s)
     else ask (Asking_Tools c) s)"

definition mcpSetToolEnabled :: "string \<Rightarrow> string \<Rightarrow> bool \<Rightarrow> mcp_client \<Rightarrow> mcp_client" where
  [state_defs]: "mcpSetToolEnabled sv t b s =
    answer Succeeded (if has_store s then s\<lparr>toolState := setToolEnabled sv t b (toolState s)\<rparr> else s)"

definition cleanup :: "mcp_client \<Rightarrow> mcp_client" where
  [state_defs]: "cleanup s =
    (if \<not> initialized s then s
     else (let s1 = s\<lparr>has_window := False, initialized := False\<rparr>
           in case client s1 of
                None \<Rightarrow> (reset_fields s1)\<lparr>clientTools := []\<rparr>
              | Some c \<Rightarrow> spawn (Cleaning c) s1))"

text \<open>The button that was pressed; 0 agrees.\<close>

definition answered ::
  "host \<Rightarrow> ((string, server_config) dict \<Rightarrow> string option) \<Rightarrow> nat \<Rightarrow> int \<Rightarrow> mcp_client \<Rightarrow> mcp_client" where
  [state_defs]: "answered h refuses i button s = (case thread_of s i of
     Some Asking_Reset \<Rightarrow>
       if button \<noteq> 0 then answer (Failed ''User cancelled the operation'') (finish i s)
       else restart h refuses Then_Reset (finish i s)
   | Some (Asking_Update m) \<Rightarrow>
       if button \<noteq> 0 then answer (Failed ''User cancelled the configuration update'') (finish i s)
       else restart h refuses Then_Updated ((finish i s)\<lparr>settings := Some m\<rparr>)
   | Some (Asking_Tools c) \<Rightarrow>
       if button \<noteq> 0 then answer (Failed ''User cancelled the operation'') (finish i s)
       else answer Succeeded (if has_store s then (finish i s)\<lparr>toolState := setConfig c (toolState s)\<rparr> else finish i s)
   | _ \<Rightarrow> s)"

definition close_connection :: "nat \<Rightarrow> mcp_client \<Rightarrow> mcp_client" where
  [state_defs]: "close_connection c s = s\<lparr>connections := (connections s)[c := (connections s ! c)\<lparr>cn_open := False\<rparr>]\<rparr>"

definition closed ::
  "host \<Rightarrow> ((string, server_config) dict \<Rightarrow> string option) \<Rightarrow> nat \<Rightarrow> string option \<Rightarrow> mcp_client \<Rightarrow> mcp_client" where
  [state_defs]: "closed h refuses i failure s = (case thread_of s i of
     Some (Closing c k) \<Rightarrow>
       (let s1 = finish i s in case failure of
          Some e \<Rightarrow> continue_failed k e s1
        | None \<Rightarrow> initializeClient h refuses k (reset_fields (close_connection c s1)))
   | Some (Cleaning c) \<Rightarrow>
       (reset_fields (if failure = None then close_connection c (finish i s) else finish i s))\<lparr>clientTools := []\<rparr>
   | _ \<Rightarrow> s)"

definition tool_done :: "nat \<Rightarrow> int \<Rightarrow> string option \<Rightarrow> mcp_client \<Rightarrow> mcp_client" where
  [state_defs]: "tool_done i now failure s = (case thread_of s i of
     Some (Invoking sv t) \<Rightarrow>
       (case failure of
          Some e \<Rightarrow> answer (Failed e) (finish i s)
        | None \<Rightarrow> answer Succeeded ((finish i s)\<lparr>toolState := recordToolUsage now sv t (toolState s)\<rparr>))
   | _ \<Rightarrow> s)"

section \<open>Events\<close>

datatype mcp_event =
    Call_Initialize | Call_Execute string "(string, json) dict" | Call_Reset | Call_Update mcp_settings
  | Call_Update_Tools tools_config | Call_Set_Enabled string string bool | Call_Cluster "string option"
  | Call_Cleanup | Set_Window bool
  | Answered nat int | Tools_Loaded nat "client_tool list" | Tools_Failed nat string
  | Closed nat "string option" | Tool_Done nat int "string option" | Resume nat

definition mcp_step ::
  "host \<Rightarrow> ((string, server_config) dict \<Rightarrow> string option) \<Rightarrow> mcp_client \<Rightarrow> mcp_event \<Rightarrow> mcp_client" where
  "mcp_step h refuses s e = (case e of
     Call_Initialize \<Rightarrow> initialize h refuses s
   | Call_Execute name args \<Rightarrow> mcpExecuteTool h refuses name args s
   | Call_Reset \<Rightarrow> ask Asking_Reset s
   | Call_Update m \<Rightarrow> ask (Asking_Update m) s
   | Call_Update_Tools c \<Rightarrow> mcpUpdateToolsConfig c s
   | Call_Set_Enabled sv t b \<Rightarrow> mcpSetToolEnabled sv t b s
   | Call_Cluster c \<Rightarrow> mcpClusterChange h refuses c s
   | Call_Cleanup \<Rightarrow> cleanup s
   | Set_Window b \<Rightarrow> s\<lparr>has_window := b\<rparr>
   | Answered i button \<Rightarrow> answered h refuses i button s
   | Tools_Loaded i ts \<Rightarrow> (case thread_of s i of Some (Loading p c) \<Rightarrow> tools_loaded p ts (finish i s) | _ \<Rightarrow> s)
   | Tools_Failed i x \<Rightarrow> (case thread_of s i of Some (Loading p c) \<Rightarrow> tools_failed p x (finish i s) | _ \<Rightarrow> s)
   | Closed i x \<Rightarrow> closed h refuses i x s
   | Tool_Done i now x \<Rightarrow> tool_done i now x s
   | Resume i \<Rightarrow> (case thread_of s i of Some (Waiting p k) \<Rightarrow> resumed i p k s | _ \<Rightarrow> s))"

definition mcp_run ::
  "host \<Rightarrow> ((string, server_config) dict \<Rightarrow> string option) \<Rightarrow> mcp_client \<Rightarrow> mcp_event list \<Rightarrow> mcp_client" where
  "mcp_run h refuses = foldl (mcp_step h refuses)"

text \<open>The application has just been started: the files of tool states and settings are there.\<close>

definition started :: "tools_config \<Rightarrow> mcp_settings option \<Rightarrow> mcp_client" where
  "started file m = \<lparr>has_window = False, initialized = False, has_store = False,
     toolState = \<lparr>config = [], disk = file, writable = True\<rparr>, clientTools = [], client = None, isInitialized = False,
     initPromise = None, clusters = [], currentClusters = None, settings = m, connections = [], promises = [],
     threads = [], invoked = [], answers = []\<rparr>"

section \<open>Which tools run\<close>

lemmas quiet_defs = answer_def spawn_def finish_def continue_failed_def doInitializeClient_def tools_loaded_def
  tools_failed_def reset_fields_def close_connection_def ask_def mcpUpdateToolsConfig_def mcpSetToolEnabled_def
  cleanup_def tool_done_def

lemma execute_now_frame [simp]: "settings (execute_now name args s) = settings s" "clusters (execute_now name args s) = clusters s"
  "connections (execute_now name args s) = connections s"
  by (auto simp: execute_now_def quiet_defs Let_def split: prod.split option.split validation.split)

text \<open>A tool that was allowed to run, given the state in which it was looked up.\<close>

definition may_run :: "mcp_client \<Rightarrow> string \<Rightarrow> (string, json) dict \<Rightarrow> bool" where
  "may_run s name args \<longleftrightarrow> client s \<noteq> None \<and>
    (case parseServerNameToolName name of (sv, t) \<Rightarrow> isToolEnabled sv t (toolState s)) \<and>
    (\<exists>c \<in> set (clientTools s). ct_name c = name \<and> validateToolArgs (ct_schema c) args = Valid)"

definition runs_from :: "mcp_client \<Rightarrow> mcp_client \<Rightarrow> bool" where
  "runs_from s t \<longleftrightarrow> invoked t = invoked s \<or> (\<exists>name args. invoked t = invoked s @ [(name, args)] \<and> may_run s name args)"

lemma execute_now_runs: "runs_from s (execute_now name args s)"
proof (cases "find (\<lambda>c. ct_name c = name) (clientTools s)")
  case (Some c)
  then have c: "c \<in> set (clientTools s)" "ct_name c = name" by (auto simp: find_Some_iff)
  obtain sv t where n: "parseServerNameToolName name = (sv, t)" by fastforce
  show ?thesis
  proof (cases "validateToolArgs (ct_schema c) args")
    case Valid
    with Some c n show ?thesis by (auto simp: execute_now_def runs_from_def may_run_def quiet_defs)
  qed (use Some n in \<open>auto simp: execute_now_def runs_from_def quiet_defs\<close>)
qed (auto simp: execute_now_def runs_from_def quiet_defs Let_def split: prod.split)

lemma continue_ok_runs: "runs_from s (continue_ok k s)"
  using execute_now_runs by (auto simp: continue_ok_def runs_from_def quiet_defs split: after_init.split)

lemma initializeClient_runs: "runs_from s (initializeClient h refuses k s)"
  using continue_ok_runs [of s k]
  by (auto simp: initializeClient_def runs_from_def doInitializeClient_def quiet_defs Let_def split: option.split prod.split)

lemma runs_from_frame:
  assumes "runs_from s' t" and "invoked s' = invoked s" and "\<And>name args. may_run s' name args \<Longrightarrow> may_run s name args"
  shows "runs_from s t"
  using assms by (auto simp: runs_from_def)

lemma may_run_no_client: "client s = None \<Longrightarrow> \<not> may_run s name args"
  by (simp add: may_run_def)

lemma restart_runs: "runs_from s (restart h refuses k s)"
proof (cases "client s")
  case None
  then show ?thesis unfolding restart_def
    by (auto intro!: runs_from_frame [OF initializeClient_runs] dest: may_run_no_client [THEN notE, rotated]
        simp: reset_fields_def)
qed (simp add: restart_def runs_from_def spawn_def)

lemma may_run_finish [simp]: "may_run (finish i s) name args = may_run s name args"
  by (simp add: may_run_def finish_def)

lemma initializeClient_quiet:
  "\<not> isInitialized s \<or> (\<forall>name args. k \<noteq> Then_Execute name args) \<Longrightarrow> invoked (initializeClient h refuses k s) = invoked s"
  by (auto simp: initializeClient_def continue_ok_def doInitializeClient_def quiet_defs Let_def
      split: option.split prod.split after_init.split)

text \<open>C5: Whatever happens, and in whatever order: a tool only runs when a client exists, the tool is
  one that the client offers, it is enabled at that moment, and its arguments fit its schema.\<close>

theorem only_enabled_tools_run:
  assumes "invoked (mcp_step h refuses s e) \<noteq> invoked s"
  shows "\<exists>name args. invoked (mcp_step h refuses s e) = invoked s @ [(name, args)] \<and> client s \<noteq> None \<and>
    (case parseServerNameToolName name of (sv, t) \<Rightarrow> isToolEnabled sv t (toolState s)) \<and>
    (\<exists>c \<in> set (clientTools s). ct_name c = name \<and> validateToolArgs (ct_schema c) args = Valid)"
proof -
  have r: "runs_from s (mcp_step h refuses s e)"
  proof (cases e)
    case Call_Initialize
    then show ?thesis by (simp add: mcp_step_def initialize_def runs_from_def initializeClient_quiet)
  next
    case (Call_Execute name args)
    then show ?thesis using initializeClient_runs by (auto simp: mcp_step_def mcpExecuteTool_def runs_from_def)
  next
    case (Call_Cluster c)
    have "runs_from s (restart h refuses k (s\<lparr>currentClusters := new\<rparr>))" for k new
      by (rule runs_from_frame [OF restart_runs]) (simp_all add: may_run_def)
    with Call_Cluster show ?thesis
      by (auto simp: mcp_step_def mcpClusterChange_def handleClustersChange_def runs_from_def answer_def
          split: option.split bool.split)
  next
    case (Answered i b)
    have "runs_from s (restart h refuses k (finish i s))" "runs_from s (restart h refuses k ((finish i s)\<lparr>settings := m\<rparr>))" for k m
      by (rule runs_from_frame [OF restart_runs]; simp add: may_run_def finish_def)+
    with Answered show ?thesis
      by (auto simp: mcp_step_def answered_def runs_from_def quiet_defs split: option.split thread.split)
  next
    case (Closed i x)
    then show ?thesis
      by (auto simp: mcp_step_def closed_def runs_from_def initializeClient_quiet quiet_defs Let_def
          split: option.split thread.split after_init.split)
  next
    case (Resume i)
    have "runs_from s (continue_ok k (finish i s))" for k
      by (rule runs_from_frame [OF continue_ok_runs]) (simp_all add: may_run_def finish_def)
    with Resume show ?thesis
      by (auto simp: mcp_step_def resumed_def runs_from_def quiet_defs split: option.split thread.split promise.split after_init.split)
  next
    case (Tools_Loaded i ts)
    then show ?thesis
      by (auto simp: mcp_step_def runs_from_def quiet_defs Let_def split: option.split thread.split)
  qed (auto simp: mcp_step_def runs_from_def quiet_defs Let_def split: option.split thread.split)
  with assms show ?thesis by (auto simp: runs_from_def may_run_def)
qed

section \<open>A sample run\<close>

definition sample_settings :: mcp_settings where
  "sample_settings = \<lparr>mcp_enabled = True, mcp_servers = Some [sample_server]\<rparr>"

definition sample_tool :: client_tool where
  "sample_tool = \<lparr>ct_name = ''s__t'', ct_schema = None, ct_inputSchema = None, ct_description = None\<rparr>"

definition accepts :: "(string, server_config) dict \<Rightarrow> string option" where
  "accepts servers = None"

definition ready_client :: mcp_client where
  "ready_client = mcp_run sample_host accepts (started [] (Some sample_settings))
     [Call_Initialize, Tools_Loaded 0 [sample_tool], Resume 1]"

lemma only_enabled_tools_run_witness:
  "invoked (mcp_step sample_host accepts ready_client (Call_Execute ''s__t'' [])) = [(''s__t'', [])] \<and>
   isToolEnabled ''s'' ''t'' (toolState ready_client)"
proof -
  have "invoked (mcp_step sample_host accepts ready_client (Call_Execute ''s__t'' [])) = [(''s__t'', [])]"
    "invoked ready_client = []" "parseServerNameToolName ''s__t'' = (''s'', ''t'')" by code_simp+
  with only_enabled_tools_run [of sample_host accepts ready_client "Call_Execute ''s__t'' []"] show ?thesis by auto
qed

section \<open>Settings need the user\<close>

lemma initializeClient_settings [simp]: "settings (initializeClient h refuses k s) = settings s"
  by (auto simp: initializeClient_def continue_ok_def doInitializeClient_def quiet_defs Let_def
      split: option.split prod.split after_init.split)

lemma restart_settings [simp]: "settings (restart h refuses k s) = settings s"
  by (simp add: restart_def reset_fields_def spawn_def split: option.split)

text \<open>The stored settings of MCP servers only change when the user agrees in the dialog that shows
  the changes, and then to the settings of that dialog.\<close>

theorem settings_need_consent:
  assumes "settings (mcp_step h refuses s e) \<noteq> settings s"
  shows "\<exists>i m. e = Answered i 0 \<and> thread_of s i = Some (Asking_Update m) \<and> settings (mcp_step h refuses s e) = Some m"
proof (cases e)
  case (Answered i b)
  with assms show ?thesis
    by (auto simp: mcp_step_def answered_def quiet_defs split: option.splits thread.splits if_splits)
qed (use assms in \<open>auto simp: mcp_step_def initialize_def mcpExecuteTool_def mcpClusterChange_def handleClustersChange_def
    closed_def resumed_def continue_ok_def quiet_defs Let_def
    split: option.splits thread.splits after_init.splits promise.splits bool.splits if_splits\<close>)

definition asking_client :: mcp_client where
  "asking_client = mcp_run sample_host accepts ready_client
     [Set_Window True, Call_Update (sample_settings\<lparr>mcp_enabled := False\<rparr>)]"

lemma settings_need_consent_witness:
  "\<exists>m. thread_of asking_client 2 = Some (Asking_Update m) \<and>
    settings (mcp_step sample_host accepts asking_client (Answered 2 0)) = Some m"
proof -
  have "map_option mcp_enabled (settings (mcp_step sample_host accepts asking_client (Answered 2 0))) = Some False"
    "map_option mcp_enabled (settings asking_client) = Some True" by code_simp+
  then have "settings (mcp_step sample_host accepts asking_client (Answered 2 0)) \<noteq> settings asking_client" by auto
  from settings_need_consent [OF this] show ?thesis by auto
qed

section \<open>The current cluster never reaches the servers\<close>

definition no_cluster_inv :: "host \<Rightarrow> mcp_client \<Rightarrow> bool" where
  [inv_defs]: "no_cluster_inv h s \<longleftrightarrow> clusters s = [] \<and>
     (\<forall>cn \<in> set (connections s). \<exists>m. cn_servers cn = makeMcpServersFromSettings h m [])"

lemma initializeClient_no_cluster: "no_cluster_inv h s \<Longrightarrow> no_cluster_inv h (initializeClient h refuses k s)"
  by (auto simp: no_cluster_inv_def initializeClient_def continue_ok_def doInitializeClient_def quiet_defs Let_def
      split: option.split prod.split after_init.split)

lemma no_cluster_updates [simp]:
  "no_cluster_inv h (s\<lparr>has_window := x0\<rparr>) = no_cluster_inv h s"
  "no_cluster_inv h (s\<lparr>initialized := x1\<rparr>) = no_cluster_inv h s"
  "no_cluster_inv h (s\<lparr>has_store := x2\<rparr>) = no_cluster_inv h s"
  "no_cluster_inv h (s\<lparr>toolState := x3\<rparr>) = no_cluster_inv h s"
  "no_cluster_inv h (s\<lparr>clientTools := x4\<rparr>) = no_cluster_inv h s"
  "no_cluster_inv h (s\<lparr>client := x5\<rparr>) = no_cluster_inv h s"
  "no_cluster_inv h (s\<lparr>isInitialized := x6\<rparr>) = no_cluster_inv h s"
  "no_cluster_inv h (s\<lparr>initPromise := x7\<rparr>) = no_cluster_inv h s"
  "no_cluster_inv h (s\<lparr>currentClusters := x8\<rparr>) = no_cluster_inv h s"
  "no_cluster_inv h (s\<lparr>settings := x9\<rparr>) = no_cluster_inv h s"
  "no_cluster_inv h (s\<lparr>promises := x10\<rparr>) = no_cluster_inv h s"
  "no_cluster_inv h (s\<lparr>threads := x11\<rparr>) = no_cluster_inv h s"
  "no_cluster_inv h (s\<lparr>invoked := x12\<rparr>) = no_cluster_inv h s"
  "no_cluster_inv h (s\<lparr>answers := x13\<rparr>) = no_cluster_inv h s"
  by (simp_all add: no_cluster_inv_def)

lemma close_connection_no_cluster:
  assumes "no_cluster_inv h s"
  shows "no_cluster_inv h (close_connection c s)"
proof (cases "c < length (connections s)")
  case True
  have "set ((connections s)[c := (connections s ! c)\<lparr>cn_open := False\<rparr>]) \<subseteq>
      insert ((connections s ! c)\<lparr>cn_open := False\<rparr>) (set (connections s))" by (rule set_update_subset_insert)
  moreover have "connections s ! c \<in> set (connections s)" using True by simp
  ultimately show ?thesis using assms by (fastforce simp: no_cluster_inv_def close_connection_def)
qed (use assms in \<open>simp add: no_cluster_inv_def close_connection_def list_update_beyond\<close>)

lemma restart_no_cluster: "no_cluster_inv h s \<Longrightarrow> no_cluster_inv h (restart h refuses k s)"
  by (simp add: restart_def reset_fields_def spawn_def initializeClient_no_cluster split: option.split)

lemma execute_now_no_cluster [simp]: "no_cluster_inv h (execute_now name args s) = no_cluster_inv h s"
  by (simp add: no_cluster_inv_def)

lemma mcp_step_no_cluster: "no_cluster_inv h s \<Longrightarrow> no_cluster_inv h (mcp_step h refuses s e)"
  by (cases e)
    (auto simp: mcp_step_def initialize_def mcpExecuteTool_def mcpClusterChange_def handleClustersChange_def
      answered_def closed_def resumed_def continue_ok_def answer_def spawn_def finish_def continue_failed_def
      tools_loaded_def tools_failed_def reset_fields_def ask_def mcpUpdateToolsConfig_def mcpSetToolEnabled_def
      cleanup_def tool_done_def Let_def
      intro!: initializeClient_no_cluster restart_no_cluster close_connection_no_cluster
      split: option.split thread.split promise.split after_init.split bool.split)

interpretation mcp_servers_run: reducer "mcp_step h refuses" "no_cluster_inv h" for h refuses
  by unfold_locales (rule mcp_step_no_cluster)

text \<open>Every client is created with its servers' arguments expanded for no cluster at all: the
  list of clusters that the placeholder of the current cluster stands for is never filled, also
  not by a restart for a change of the cluster.\<close>

theorem current_cluster_is_never_passed:
  assumes "cn \<in> set (connections (mcp_run h refuses (started file m) es))"
  shows "\<exists>m. cn_servers cn = makeMcpServersFromSettings h m []"
proof -
  have "no_cluster_inv h (started file m)" by (simp add: no_cluster_inv_def started_def)
  then have "no_cluster_inv h (foldl (mcp_step h refuses) (started file m) es)" by (rule mcp_servers_run.run_inv)
  with assms show ?thesis by (simp add: no_cluster_inv_def mcp_run_def)
qed

definition cluster_server :: mcp_server where
  "cluster_server = sample_server\<lparr>ms_args := Some [''--context'', placeholder]\<rparr>"

lemma current_cluster_is_never_passed_witness:
  "(\<exists>m. cn_servers (last (connections (mcp_run sample_host accepts (started [] (Some (sample_settings\<lparr>mcp_servers := Some [cluster_server]\<rparr>)))
      [Call_Initialize, Tools_Loaded 0 [sample_tool], Resume 1, Call_Cluster (Some ''prod''), Closed 2 None]))) =
     makeMcpServersFromSettings sample_host m []) \<and>
   map (sc_args \<circ> snd) (cn_servers (last (connections (mcp_run sample_host accepts
      (started [] (Some (sample_settings\<lparr>mcp_servers := Some [cluster_server]\<rparr>)))
      [Call_Initialize, Tools_Loaded 0 [sample_tool], Resume 1, Call_Cluster (Some ''prod''), Closed 2 None])))) = [[''--context'', []]]"
proof -
  let ?cs = "connections (mcp_run sample_host accepts (started [] (Some (sample_settings\<lparr>mcp_servers := Some [cluster_server]\<rparr>)))
      [Call_Initialize, Tools_Loaded 0 [sample_tool], Resume 1, Call_Cluster (Some ''prod''), Closed 2 None])"
  have "length ?cs = 2" and a: "map (sc_args \<circ> snd) (cn_servers (last ?cs)) = [[''--context'', []]]" by code_simp+
  then have "last ?cs \<in> set ?cs" by (intro last_in_set) auto
  then show ?thesis using current_cluster_is_never_passed a by blast
qed

section \<open>Choices are forgotten at the start\<close>

lemma grouped_wf: "dict_wf d \<Longrightarrow> dict_wf (fold group_tool ts d)"
  by (induction ts arbitrary: d) (simp_all add: group_tool_def Let_def)

lemma everything_enabled:
  assumes "config st = []"
  shows "isToolEnabled sv t (initConfigFromClientTools ts st)"
proof (cases "ts = []")
  case True
  then show ?thesis by (simp add: initConfigFromClientTools_def replaceConfig_def isToolEnabled_def)
next
  case False
  have wf: "dict_wf (fold group_tool ts [])" by (rule grouped_wf) simp
  have "tool_of [] sv t = None" by (simp add: tool_of_def server_of_def)
  then show ?thesis using False assms
    unfolding initConfigFromClientTools_def enabled_tool_of
    by (auto simp: replace_tool_of [OF wf] replaced_server_get replaced_tool_def split: option.split)
qed

lemma saved_after_init: "writable st \<Longrightarrow> disk (initConfigFromClientTools ts st) = config (initConfigFromClientTools ts st)"
  by (simp add: initConfigFromClientTools_def replaceConfig_def replaceToolsConfig_def saveConfig_def)

text \<open>The file with the tools that the user disabled is never read: when the application has started
  and the servers have told their tools, every tool is enabled, whatever the file said, and the file
  has been overwritten with that.\<close>

theorem start_enables_all_tools:
  assumes "makeMcpServersFromSettings h m [] \<noteq> []" and "refuses (makeMcpServersFromSettings h m []) = None"
    and "s = mcp_run h refuses (started file m) [Call_Initialize, Tools_Loaded 0 ts, Resume 1]"
  shows "initialized s \<and> (\<forall>sv t. isToolEnabled sv t (toolState s)) \<and> disk (toolState s) = config (toolState s)"
proof -
  let ?st = "initConfigFromClientTools ts \<lparr>config = [], disk = file, writable = True\<rparr>"
  have "initialized s \<and> toolState s = ?st" using assms
    by (simp add: mcp_run_def mcp_step_def initialize_def started_def initializeClient_def doInitializeClient_def
        thread_of_def tools_loaded_def resumed_def continue_ok_def spawn_def finish_def Let_def)
  then show ?thesis using everything_enabled [of "\<lparr>config = [], disk = file, writable = True\<rparr>"]
      saved_after_init [of "\<lparr>config = [], disk = file, writable = True\<rparr>" ts] by simp
qed

definition disabled_tool :: tool_state where
  "disabled_tool = default_tool\<lparr>enabled := False\<rparr>"

lemma start_enables_all_tools_witness:
  "isToolEnabled ''s'' ''t'' (toolState (mcp_run sample_host accepts
     (started [(''s'', [(''t'', disabled_tool)])] (Some sample_settings)) [Call_Initialize, Tools_Loaded 0 [sample_tool], Resume 1]))"
proof -
  have "makeMcpServersFromSettings sample_host (Some sample_settings) [] \<noteq> []" by code_simp
  moreover have "accepts (makeMcpServersFromSettings sample_host (Some sample_settings) []) = None"
    by (simp add: accepts_def)
  ultimately show ?thesis by (rule start_enables_all_tools [OF _ _ refl, THEN conjunct2, THEN conjunct1, rule_format])
qed

section \<open>Errors of the adapter\<close>

text \<open>When the adapter throws while the client is created, the failed promise is kept: every later
  attempt to initialize fails with the old error and does not ask the adapter again, even if it
  would accept the servers now.\<close>

theorem failed_creation_is_remembered:
  assumes "makeMcpServersFromSettings h m [] \<noteq> []" and "refuses (makeMcpServersFromSettings h m []) = Some e"
    and "s = mcp_run h refuses (started file m) [Call_Initialize, Resume 0]"
    and "t = mcp_run h anything s [Call_Initialize, Resume 1, Call_Execute name args, Resume 2]"
  shows "answers t = [Failed e, Failed e, Failed e] \<and> connections t = [] \<and> \<not> initialized t"
proof -
  let ?s = "(started file m)\<lparr>has_store := True, initPromise := Some 0, promises := [Rejected e],
    threads := [None], answers := [Failed e]\<rparr>"
  have s: "s = ?s" using assms(1,2,3)
    by (simp add: mcp_run_def mcp_step_def initialize_def started_def initializeClient_def doInitializeClient_def
        thread_of_def resumed_def continue_failed_def answer_def spawn_def finish_def Let_def)
  let ?s1 = "?s\<lparr>toolState := (toolState ?s)\<lparr>config := []\<rparr>, threads := [None, Some (Waiting 0 Then_Started)]\<rparr>"
  let ?s2 = "?s1\<lparr>threads := [None, None], answers := [Failed e, Failed e]\<rparr>"
  let ?s3 = "?s2\<lparr>threads := [None, None, Some (Waiting 0 (Then_Execute name args))]\<rparr>"
  have "mcp_step h anything ?s Call_Initialize = ?s1"
    by (simp add: mcp_step_def initialize_def initializeClient_def started_def spawn_def)
  moreover have "mcp_step h anything ?s1 (Resume 1) = ?s2"
    by (simp add: mcp_step_def thread_of_def resumed_def continue_failed_def answer_def finish_def)
  moreover have "mcp_step h anything ?s2 (Call_Execute name args) = ?s3"
    by (simp add: mcp_step_def mcpExecuteTool_def initializeClient_def started_def spawn_def)
  moreover have "mcp_step h anything ?s3 (Resume 2) = ?s3\<lparr>threads := [None, None, None], answers := [Failed e, Failed e, Failed e]\<rparr>"
    by (simp add: mcp_step_def thread_of_def resumed_def continue_failed_def answer_def finish_def numeral_2_eq_2)
  ultimately show ?thesis unfolding assms(4) s mcp_run_def by (simp add: started_def)
qed

lemma failed_creation_is_remembered_witness:
  "answers (mcp_run sample_host accepts (mcp_run sample_host (\<lambda>_. Some ''bad'') (started [] (Some sample_settings))
     [Call_Initialize, Resume 0]) [Call_Initialize, Resume 1, Call_Execute ''s__t'' [], Resume 2]) =
   [Failed ''bad'', Failed ''bad'', Failed ''bad'']"
proof -
  have "makeMcpServersFromSettings sample_host (Some sample_settings) [] \<noteq> []" by code_simp
  from failed_creation_is_remembered [OF this, of "\<lambda>_. Some ''bad''" "''bad''"] show ?thesis by blast
qed

definition overlapping_resets :: "mcp_event list" where
  "overlapping_resets = [Set_Window True, Call_Reset, Answered 2 0, Closed 3 None,
     Call_Reset, Answered 6 0, Closed 7 None, Tools_Failed 4 ''closed'', Tools_Loaded 8 [sample_tool], Resume 9]"

text \<open>Two resets that overlap end in a client that says it is initialized but has no client: the
  late failure of the first one clears the second one's client, whose servers keep running
  with nothing left to close them.\<close>

theorem overlapping_resets_lose_the_client:
  "(let s = mcp_run sample_host accepts ready_client overlapping_resets in
    isInitialized s \<and> client s = None \<and> cn_open (last (connections s)) \<and> last (answers s) = Succeeded \<and>
    last (answers (mcp_step sample_host accepts s (Call_Execute ''s__t'' []))) =
      Failed ''MCP client not initialized or no tools available'')"
  by code_simp

end
