(* ===== verification/PluginLoading.thy ===== *)
theory PluginLoading
  imports RunCommand Effects "HOL-Library.Multiset"
begin

text \<open>
  The loading of plugins in the frontend: \<^verbatim>\<open>frontend/src/plugin/index.ts\<close> (choice among the
  versions of a plugin, settings, retries, execution), \<^verbatim>\<open>runPlugin.ts\<close> (which plugin gets which
  permission secrets, evaluation of its source), \<^verbatim>\<open>pluginsSlice.ts\<close> (the stored settings), the
  component \<^verbatim>\<open>Plugins.tsx\<close> around them, and the settings page that changes the stored settings
  (\<^verbatim>\<open>PluginSettings.tsx\<close>). Evaluating the source of a plugin, the answers of the backend and the
  library that compares versions are given from outside.
\<close>

section \<open>What is known about a plugin\<close>

datatype plugin_type = Development | User | Shipped

text \<open>A component is a function, an element, \<open>null\<close>, or the plain object that an element becomes
  when it is written as JSON.\<close>

datatype component = Component string | Element string | No_Component | Plain_Object

record plugin_info =
  p_name :: string
  folderName :: "string option"
  displayName :: "string option"
  origin :: "string option"
  isEnabled :: "bool option"
  p_type :: "plugin_type option"
  isLoaded :: "bool option"
  overriddenBy :: "plugin_type option"
  isCompatible :: "bool option"
  p_version :: "string option"
  devDependencies :: "(string, string) dict option"
  settingsComponent :: "component option"
  displaySettingsComponentWithSaveButton :: "bool option"
  described :: "(string, json) dict"

definition spread :: "plugin_info \<Rightarrow> plugin_info \<Rightarrow> plugin_info" where
  [state_defs]: "spread a b =
    \<lparr>p_name = p_name b, folderName = pick (folderName a) (folderName b),
     displayName = pick (displayName a) (displayName b), origin = pick (origin a) (origin b),
     isEnabled = pick (isEnabled a) (isEnabled b), p_type = pick (p_type a) (p_type b),
     isLoaded = pick (isLoaded a) (isLoaded b), overriddenBy = pick (overriddenBy a) (overriddenBy b),
     isCompatible = pick (isCompatible a) (isCompatible b), p_version = pick (p_version a) (p_version b),
     devDependencies = pick (devDependencies a) (devDependencies b),
     settingsComponent = pick (settingsComponent a) (settingsComponent b),
     displaySettingsComponentWithSaveButton =
       pick (displaySettingsComponentWithSaveButton a) (displaySettingsComponentWithSaveButton b),
     described = fold (\<lambda>(k, v). dict_set k v) (described b) (described a)\<rparr>"

section \<open>Which version of a plugin is loaded\<close>

definition type_name :: "plugin_type \<Rightarrow> string" where
  "type_name t = (case t of Development \<Rightarrow> ''development'' | User \<Rightarrow> ''user'' | Shipped \<Rightarrow> ''shipped'')"

definition priority :: "plugin_info \<Rightarrow> int" where
  "priority p = (case p_type p of Some Development \<Rightarrow> 0 | Some User \<Rightarrow> 1 | Some Shipped \<Rightarrow> 2 | None \<Rightarrow> 2)"

definition by_priority :: "plugin_info \<Rightarrow> plugin_info \<Rightarrow> js_num" where
  "by_priority a b = Some (priority a - priority b)"

definition may_load :: "plugin_info \<Rightarrow> bool" where
  "may_load p \<longleftrightarrow> isEnabled p \<noteq> Some False"

definition by_name :: "plugin_info list \<Rightarrow> (string, plugin_info list) dict" where
  "by_name ps = fold (\<lambda>p d. dict_set (p_name p)
     ((case dict_get d (p_name p) of None \<Rightarrow> [] | Some existing \<Rightarrow> existing) @ [p]) d) ps []"

text \<open>The first version that may load, by its position, because objects are compared by
  identity.\<close>

fun findIndex :: "('a \<Rightarrow> bool) \<Rightarrow> 'a list \<Rightarrow> nat option" where
  "findIndex P [] = None"
| "findIndex P (x # xs) = (if P x then Some 0 else map_option Suc (findIndex P xs))"

definition loaded_version :: "plugin_info list \<Rightarrow> nat option" where
  "loaded_version sortedVersions = findIndex may_load sortedVersions"

definition mark_version :: "plugin_info list \<Rightarrow> nat \<Rightarrow> plugin_info" where
  "mark_version vs i = (case loaded_version vs of
     None \<Rightarrow> (vs ! i)\<lparr>isLoaded := Some False, overriddenBy := None\<rparr>
   | Some j \<Rightarrow>
       if i = j then (vs ! i)\<lparr>isLoaded := Some True\<rparr>
       else (vs ! i)\<lparr>isLoaded := Some False, overriddenBy := p_type (vs ! j)\<rparr>)"

definition mark_versions :: "plugin_info list \<Rightarrow> plugin_info list" where
  "mark_versions versions = (case versions of
     [v] \<Rightarrow> [v\<lparr>isLoaded := Some (may_load v)\<rparr>]
   | _ \<Rightarrow> let sortedVersions = js_sort by_priority versions
          in map (mark_version sortedVersions) [0..<length sortedVersions])"

definition applyPluginPriority :: "plugin_info list \<Rightarrow> plugin_info list" where
  "applyPluginPriority plugins = concat (map mark_versions (dict_values (by_name plugins)))"

section \<open>Settings and what the backend provides\<close>

definition plugin_key :: "plugin_info \<Rightarrow> string" where
  "plugin_key p = p_name p @ ''@'' @ (case p_type p of None \<Rightarrow> ''unknown'' | Some t \<Rightarrow> type_name t)"

definition version_text :: "plugin_info \<Rightarrow> string" where
  "version_text p = (case p_version p of None \<Rightarrow> ''undefined'' | Some v \<Rightarrow> v)"

definition joined :: "plugin_info list \<Rightarrow> string" where
  "joined ps = js_join [] (map (\<lambda>p. plugin_key p @ version_text p) ps)"

definition same_plugin :: "plugin_info \<Rightarrow> plugin_info \<Rightarrow> bool" where
  "same_plugin p x \<longleftrightarrow> p_name x = p_name p \<and> p_type x = p_type p"

definition merge_setting :: "plugin_info list \<Rightarrow> plugin_info \<Rightarrow> plugin_info" where
  "merge_setting settingsPlugins plugin = (case List.find (same_plugin plugin) settingsPlugins of
     None \<Rightarrow> plugin\<lparr>isEnabled := Some True\<rparr>
   | Some s \<Rightarrow> (spread s plugin)\<lparr>isEnabled := isEnabled s\<rparr>)"

definition updateSettingsPackages :: "plugin_info list \<Rightarrow> plugin_info list \<Rightarrow> plugin_info list" where
  "updateSettingsPackages backendPlugins settingsPlugins =
    (if backendPlugins = [] then []
     else if length backendPlugins = length settingsPlugins \<and> joined backendPlugins = joined settingsPlugins
     then settingsPlugins
     else map (merge_setting settingsPlugins) backendPlugins)"

text \<open>An older choice of sources. \<open>satisfies\<close> stands for \<open>semver.satisfies(semver.coerce(...) || '', range)\<close>.\<close>

definition headlamp_plugin :: string where "headlamp_plugin = ''@kinvolk/headlamp-plugin''"

definition plugin_dependency :: "plugin_info \<Rightarrow> string option" where
  "plugin_dependency p = (case devDependencies p of None \<Rightarrow> None | Some ds \<Rightarrow> dict_get ds headlamp_plugin)"

definition enabledInSettings :: "plugin_info list \<Rightarrow> plugin_info \<Rightarrow> bool" where
  "enabledInSettings settingsPackages p =
    (case List.find (\<lambda>x. p_name x = p_name p) settingsPackages of
       None \<Rightarrow> False | Some s \<Rightarrow> isEnabled s = Some True)"

definition filterSources ::
    "(string option \<Rightarrow> string \<Rightarrow> bool) \<Rightarrow> string list \<Rightarrow> plugin_info list \<Rightarrow> bool \<Rightarrow> string \<Rightarrow>
     plugin_info list option \<Rightarrow> string list \<times> (string, plugin_info) dict" where
  "filterSources satisfies sources packageInfos appMode compatibleVersion settingsPackages =
    (let enabled = filter (\<lambda>(source, p). \<not> appMode \<or>
           (case settingsPackages of None \<Rightarrow> False | Some ss \<Rightarrow> enabledInSettings ss p)) (zip sources packageInfos);
         ok = (\<lambda>(source, p). satisfies (plugin_dependency p) compatibleVersion)
     in (map fst (filter ok enabled),
         fold (\<lambda>(source, p). dict_set (p_name p) p) (filter (\<lambda>x. \<not> ok x) enabled) []))"

section \<open>Fetching the list with retries\<close>

text \<open>\<open>ok k\<close> tells whether the attempt number \<open>k\<close> succeeds. The result is the number of the
  attempt that succeeded, or \<open>None\<close> when the error of the last one is thrown, with the number of
  attempts made and the time slept in milliseconds.\<close>

record retried =
  answered :: "nat option"
  attempts :: nat
  slept :: int

definition retry_wait :: "nat \<Rightarrow> int \<Rightarrow> int" where
  "retry_wait attempt totalSlept = min (50 * 2 ^ attempt) (min 1000 (30000 - totalSlept))"

lemma retry_wait_pos: "t < 30000 \<Longrightarrow> 0 < retry_wait k t"
  by (simp add: retry_wait_def)

lemma retry_decreases: "t < 30000 \<Longrightarrow> nat (30000 - (t + retry_wait k t)) < nat (30000 - t)"
  using retry_wait_pos [of t k] by linarith

function retry_from :: "(nat \<Rightarrow> bool) \<Rightarrow> nat \<Rightarrow> int \<Rightarrow> retried" where
  "retry_from ok attempt totalSlept =
    (if totalSlept < 30000
     then if ok attempt then \<lparr>answered = Some attempt, attempts = Suc attempt, slept = totalSlept\<rparr>
          else retry_from ok (Suc attempt) (totalSlept + retry_wait attempt totalSlept)
     else \<lparr>answered = None, attempts = attempt, slept = totalSlept\<rparr>)"
  by pat_completeness auto
termination
  by (relation "measure (\<lambda>(ok, attempt, totalSlept). nat (30000 - totalSlept))") (use retry_decreases in simp_all)

declare retry_from.simps [simp del]

definition fetchWithRetry :: "(nat \<Rightarrow> bool) \<Rightarrow> retried" where
  "fetchWithRetry ok = retry_from ok 0 0"

section \<open>Which plugin gets which secrets\<close>

text \<open>\<open>s.replace(/w[\\/]/, w + '/')\<close> for a word \<open>w\<close>.\<close>

fun forward_slash :: "string \<Rightarrow> string \<Rightarrow> string" where
  "forward_slash w [] = []"
| "forward_slash w (c # s) =
     (if starts_with (c # s) (w @ ''/'') \<or> starts_with (c # s) (w @ [backslash])
      then w @ ''/'' @ drop (Suc (length w)) (c # s)
      else c # forward_slash w s)"

definition minikube :: string where "minikube = ''@headlamp-k8s/minikube''"
definition ai_assistant :: string where "ai_assistant = ''@headlamp-k8s/ai-assistant''"

definition plugin_paths :: "bool \<Rightarrow> (string, string list) dict" where
  "plugin_paths isDevelopmentMode =
    [(minikube,
      [''plugins/headlamp_minikube'', ''user-plugins/headlamp_minikube'', ''static-plugins/headlamp_minikube'',
       ''plugins/headlamp_minikubeprerelease'', ''user-plugins/headlamp_minikubeprerelease'',
       ''static-plugins/headlamp_minikubeprerelease''] @
      (if isDevelopmentMode then [''plugins/minikube''] else [])),
     (ai_assistant,
      [''plugins/headlamp_ai-assistant'', ''user-plugins/headlamp_ai-assistant'', ''static-plugins/headlamp_ai-assistant'',
       ''plugins/headlamp_ai-assistantprerelease'', ''user-plugins/headlamp_ai-assistantprerelease'',
       ''static-plugins/headlamp_ai-assistantprerelease''] @
      (if isDevelopmentMode then [''plugins/ai-assistant'', ''plugins/ai-assistantprerelease''] else []))]"

definition package_names :: "(string, string list) dict" where
  "package_names =
    [(minikube, [''@headlamp-k8s/minikube'', ''@headlamp-k8s/minikubeprerelease'']),
     (ai_assistant, [''@headlamp-k8s/ai-assistant'', ''@headlamp-k8s/ai-assistantprerelease''])]"

definition identifyPackages :: "string \<Rightarrow> string \<Rightarrow> bool \<Rightarrow> (string, bool) dict" where
  "identifyPackages pluginPath pluginName isDevelopmentMode =
    (let normalized = forward_slash ''user-plugins'' (forward_slash ''static-plugins'' (forward_slash ''plugins'' pluginPath))
     in map (\<lambda>(key, paths).
          (key, normalized \<in> set paths \<and>
                (case dict_get package_names key of None \<Rightarrow> False | Some names \<Rightarrow> pluginName \<in> set names)))
        (plugin_paths isDevelopmentMode))"

text \<open>A granted secret may be \<open>undefined\<close>, when the app did not send it.\<close>

type_synonym grant = "(string, nat option) dict"

definition grant_secret :: "(string, nat) dict \<Rightarrow> string \<Rightarrow> grant \<Rightarrow> grant" where
  [state_defs]: "grant_secret app_secrets n g = dict_set n (dict_get app_secrets n) g"

definition getAllowedPermissions :: "bool \<Rightarrow> string \<Rightarrow> string \<Rightarrow> (string, nat) dict \<Rightarrow> grant" where
  "getAllowedPermissions isDevelopmentMode pluginName pluginPath app_secrets =
    (let isPackage = identifyPackages pluginPath pluginName isDevelopmentMode;
         give_them = fold (grant_secret app_secrets);
         g = (if dict_get isPackage minikube = Some True
              then give_them ([''runCmd-minikube''] @
                     (if isDevelopmentMode then [''runCmd-scriptjs-minikube/manage-minikube.js''] else []) @
                     [''runCmd-scriptjs-headlamp_minikube/manage-minikube.js'',
                      ''runCmd-scriptjs-headlamp_minikubeprerelease/manage-minikube.js'']) []
              else [])
     in if dict_get isPackage ai_assistant = Some True then give_them [''runCmd-gh'', ''runCmd-az''] g else g)"

text \<open>The arguments of a plugin: their names, and the values, which are a function that runs
  commands with the granted secrets, and the path.\<close>

datatype arg_value = Run_With grant | Path_Value string

definition getArgValues :: "bool \<Rightarrow> string \<Rightarrow> string \<Rightarrow> grant \<Rightarrow> string list \<times> arg_value list" where
  "getArgValues isDevelopmentMode pluginName pluginPath allowedPermissions =
    (let isPackage = identifyPackages pluginPath pluginName isDevelopmentMode;
         given = ([''pluginRunCommand'', ''pluginPath''], [Run_With allowedPermissions, Path_Value pluginPath])
     in if dict_get isPackage minikube = Some True then given
        else if dict_get isPackage ai_assistant = Some True then given
        else ([], []))"

record run_info =
  ri_source :: string
  ri_name :: string
  ri_version :: string
  ri_args :: "string list"
  ri_values :: "arg_value list"

definition getInfoForRunningPlugins ::
    "bool \<Rightarrow> (string, nat) dict \<Rightarrow> string \<Rightarrow> string \<Rightarrow> string \<Rightarrow> string \<Rightarrow> run_info option" where
  "getInfoForRunningPlugins isDevelopmentMode app_secrets source pluginPath packageName packageVersion =
    (if pluginPath = [] \<or> packageName = [] \<or> packageVersion = [] then None
     else let allowedPermissions = getAllowedPermissions isDevelopmentMode packageName pluginPath app_secrets;
              argsValues = getArgValues isDevelopmentMode packageName pluginPath allowedPermissions
          in Some \<lparr>ri_source = source @ char_of (10 :: nat) # ''//# sourceURL=//'' @ pluginPath @ ''/dist/main.js'',
                   ri_name = packageName, ri_version = packageVersion,
                   ri_args = fst argsValues, ri_values = snd argsValues\<rparr>)"


section \<open>The stored settings\<close>

text \<open>Written as JSON, a function is left out and an element becomes a plain object.\<close>

definition json_component :: "component option \<Rightarrow> component option" where
  "json_component c = (case c of Some (Component _) \<Rightarrow> None | Some (Element _) \<Rightarrow> Some Plain_Object | _ \<Rightarrow> c)"

definition json_info :: "plugin_info \<Rightarrow> plugin_info" where
  "json_info p = p\<lparr>settingsComponent := json_component (settingsComponent p)\<rparr>"

text \<open>The item \<open>headlampPluginSettings\<close>: missing, not readable as JSON, another value, or a list.\<close>

datatype stored_item = No_Item | No_Json | No_Array | Saved "plugin_info list"

definition loadPluginSettings :: "stored_item \<Rightarrow> plugin_info list" where
  "loadPluginSettings item = (case item of Saved ps \<Rightarrow> ps | _ \<Rightarrow> [])"

record load_world =
  pluginsLoaded :: bool
  pluginSettings :: "plugin_info list"
  storedSettings :: stored_item
  warnings :: "(string, plugin_info) dict list"
  evaluated :: "run_info list"
  loadingErrors :: "(string \<times> string) list"
  windowPlugins :: "(string, bool) dict"
  initializedPlugins :: "string list"
  announced :: "plugin_info list option"
  failureShown :: bool

text \<open>The state when the page has loaded: the store reads the stored settings.\<close>

definition fresh_world :: "stored_item \<Rightarrow> load_world" where
  "fresh_world item =
    \<lparr>pluginsLoaded = False, pluginSettings = loadPluginSettings item, storedSettings = item, warnings = [],
     evaluated = [], loadingErrors = [], windowPlugins = [], initializedPlugins = [], announced = None,
     failureShown = False\<rparr>"

definition setPluginSettings :: "plugin_info list \<Rightarrow> load_world \<Rightarrow> load_world" where
  [state_defs]: "setPluginSettings ps w = w\<lparr>pluginSettings := ps, storedSettings := Saved (map json_info ps)\<rparr>"

definition setPluginSettingsComponent :: "string \<Rightarrow> component \<Rightarrow> bool \<Rightarrow> load_world \<Rightarrow> load_world" where
  [state_defs]: "setPluginSettingsComponent name c displaySaveButton w = w\<lparr>pluginSettings :=
     map (\<lambda>p. if p_name p = name
              then p\<lparr>settingsComponent := Some c, displaySettingsComponentWithSaveButton := Some displaySaveButton\<rparr>
              else p) (pluginSettings w)\<rparr>"

definition reloadPage :: "load_world \<Rightarrow> load_world" where
  [state_defs]: "reloadPage w = fresh_world (storedSettings w)"

section \<open>Loading\<close>

text \<open>Evaluating a source either fails to compile or registers plugins, each with the information
  whether its \<open>initialize\<close> throws, and may itself throw at the end.\<close>

datatype evaluation = Not_Compiled | Evaluated "(string \<times> bool) list" bool

datatype package_answer = Package plugin_info | Missing_Package | Package_Refused

record plugin_metadata =
  m_path :: string
  m_type :: plugin_type
  m_name :: string

record load_env =
  electron :: bool
  dev_mode :: bool
  list_ok :: "nat \<Rightarrow> bool"
  listed :: "plugin_metadata list"
  package_json :: "string \<Rightarrow> package_answer"
  main_js :: "string \<Rightarrow> string option"
  satisfies :: "string option \<Rightarrow> string \<Rightarrow> bool"
  app_secrets :: "(string, nat) dict"
  evaluate :: "string \<Rightarrow> string list \<Rightarrow> evaluation"

datatype load_error = Fetch_Failed | Rejected_Package | Rejected_Source | Undefined_Package | Syntax_Error

type_synonym 'a load = "(load_world, load_error, 'a) eff"

text \<open>\<open>Promise.all\<close>: one rejection rejects all.\<close>

fun all_or_error :: "('a \<Rightarrow> 'e + 'b) \<Rightarrow> 'a list \<Rightarrow> 'e + 'b list" where
  "all_or_error f [] = Inr []"
| "all_or_error f (x # xs) = (case f x of Inl e \<Rightarrow> Inl e | Inr y \<Rightarrow>
     (case all_or_error f xs of Inl e \<Rightarrow> Inl e | Inr ys \<Rightarrow> Inr (y # ys)))"

definition package_info_of :: "load_env \<Rightarrow> plugin_metadata \<Rightarrow> load_error + plugin_info" where
  "package_info_of env m = (case package_json env (m_path m) of
     Package_Refused \<Rightarrow> Inl Rejected_Package
   | Missing_Package \<Rightarrow>
       Inr \<lparr>p_name = last (js_split ''/'' (m_path m)), folderName = Some (m_name m), displayName = None,
         origin = None, isEnabled = None, p_type = Some (m_type m), isLoaded = None, overriddenBy = None,
         isCompatible = None, p_version = Some ''0.0.0'', devDependencies = None, settingsComponent = None,
         displaySettingsComponentWithSaveButton = None,
         described = [(''author'', JStr ''unknown''), (''description'', JStr [])]\<rparr>
   | Package json \<Rightarrow> Inr (json\<lparr>p_type := Some (m_type m), folderName := Some (m_name m)\<rparr>))"

definition source_of :: "load_env \<Rightarrow> plugin_metadata \<Rightarrow> load_error + string" where
  "source_of env m = (case main_js env (m_path m) of None \<Rightarrow> Inl Rejected_Source | Some text \<Rightarrow> Inr text)"

definition compatible_range :: string where "compatible_range = ''>=0.8.0-alpha.3''"

definition with_compatibility :: "load_env \<Rightarrow> plugin_info \<Rightarrow> plugin_info" where
  "with_compatibility env p = p\<lparr>isCompatible := Some (satisfies env (plugin_dependency p) compatible_range)\<rparr>"

definition type_text :: "plugin_info \<Rightarrow> string" where
  "type_text p = (case p_type p of None \<Rightarrow> ''undefined'' | Some t \<Rightarrow> type_name t)"

definition incompatible_plugins :: "load_env \<Rightarrow> plugin_info list \<Rightarrow> (string, plugin_info) dict" where
  "incompatible_plugins env ps = fold (\<lambda>p. dict_set (p_name p @ ''@'' @ type_text p) p)
     (filter (\<lambda>p. \<not> satisfies env (plugin_dependency p) compatible_range) ps) []"

definition to_execute :: "load_env \<Rightarrow> plugin_info \<Rightarrow> bool" where
  "to_execute env p \<longleftrightarrow> isLoaded p = Some True \<and> isCompatible p = Some True \<and>
     \<not> (electron env \<and> isEnabled p = Some False)"

text \<open>The information for running one plugin; an index that was not found makes the access to the
  name of \<open>undefined\<close> throw.\<close>

definition info_of ::
    "load_env \<Rightarrow> plugin_metadata list \<Rightarrow> plugin_info list \<Rightarrow> string list \<Rightarrow> plugin_info \<Rightarrow> load_error + run_info option" where
  "info_of env ms packageInfos sources plugin =
    (case findIndex (same_plugin plugin) packageInfos of
       None \<Rightarrow> Inl Undefined_Package
     | Some i \<Rightarrow> Inr (getInfoForRunningPlugins (dev_mode env) (app_secrets env) (sources ! i) (m_path (ms ! i))
         (p_name (packageInfos ! i)) (case p_version (packageInfos ! i) of None \<Rightarrow> [] | Some v \<Rightarrow> v)))"

definition has_args :: "run_info \<Rightarrow> bool" where
  "has_args i \<longleftrightarrow> 0 < length (ri_args i) \<and> 0 < length (ri_values i)"

definition args_first :: "run_info \<Rightarrow> run_info \<Rightarrow> js_num" where
  "args_first a b = (if has_args a \<and> \<not> has_args b then Some (- 1) else if \<not> has_args a \<and> has_args b then Some 1 else Some 0)"

text \<open>Compiling the source is outside of the \<open>try\<close>, running it inside.\<close>

definition runPlugin :: "load_env \<Rightarrow> run_info \<Rightarrow> unit load" where
  "runPlugin env i = (case evaluate env (ri_source i) (ri_args i) of
     Not_Compiled \<Rightarrow> throw_error Syntax_Error
   | Evaluated registered threw \<Rightarrow> change (\<lambda>w. w\<lparr>evaluated := evaluated w @ [i],
       windowPlugins := fold (\<lambda>(k, v). dict_set k v) registered (windowPlugins w),
       loadingErrors := loadingErrors w @ (if threw then [(ri_name i, ri_version i)] else [])\<rparr>))"

definition initializePlugins :: "load_world \<Rightarrow> load_world" where
  [state_defs]: "initializePlugins w = w\<lparr>initializedPlugins := initializedPlugins w @ dict_keys (windowPlugins w)\<rparr>"

definition afterPluginsRun :: "plugin_info list \<Rightarrow> unit load" where
  "afterPluginsRun ps = change (\<lambda>w. (initializePlugins w)\<lparr>announced := Some ps\<rparr>)"

definition fetchAndExecutePlugins :: "load_env \<Rightarrow> plugin_info list \<Rightarrow> unit load" where
  "fetchAndExecutePlugins env settingsPackages =
    chain (demand (answered (fetchWithRetry (list_ok env)) \<noteq> None) Fetch_Failed) (\<lambda>_.
    chain (lift_sum (all_or_error (package_info_of env) (listed env))) (\<lambda>packageInfos.
    chain (lift_sum (all_or_error (source_of env) (listed env))) (\<lambda>sources.
      let updated = applyPluginPriority (updateSettingsPackages packageInfos settingsPackages);
          incompatible = incompatible_plugins env updated;
          marked = map (with_compatibility env) updated
      in chain (change (setPluginSettings updated)) (\<lambda>_.
         chain (change (\<lambda>w. if incompatible = [] then w else w\<lparr>warnings := warnings w @ [incompatible]\<rparr>)) (\<lambda>_.
         chain (change (setPluginSettings marked)) (\<lambda>_.
         chain (lift_sum (all_or_error (info_of env (listed env) packageInfos sources)
                  (filter (to_execute env) marked))) (\<lambda>infos.
         chain (for_each (runPlugin env) (js_sort args_first (List.map_filter (\<lambda>info. info) infos))) (\<lambda>_.
         afterPluginsRun (filter (\<lambda>p. isLoaded p = Some True) marked)))))))))"

text \<open>The component \<open>Plugins\<close> shows a failure and always ends the loading.\<close>

definition start_plugins :: "load_env \<Rightarrow> load_world \<Rightarrow> load_world" where
  "start_plugins env w = (case fetchAndExecutePlugins env (pluginSettings w) w of
     (Inl e, w') \<Rightarrow> w'\<lparr>failureShown := True, pluginsLoaded := True\<rparr>
   | (Inr _, w') \<Rightarrow> w'\<lparr>pluginsLoaded := True\<rparr>)"

section \<open>The settings page\<close>

text \<open>\<open>name.split(/\/(.+)/)\<close>: the text before the first slash and, when there is any, the text
  after it.\<close>

definition author_and_name :: "string \<Rightarrow> string option \<times> string option" where
  "author_and_name n =
    (if CHR ''@'' \<notin> set n then (None, Some n)
     else (case split_first ''/'' n of
         Some (a, b) \<Rightarrow> if b = [] then (Some n, None) else (Some a, Some b)
       | None \<Rightarrow> (Some n, None)))"

definition page_row :: "plugin_info \<Rightarrow> plugin_info" where
  "page_row p = (let (author, name) = author_and_name (p_name p) in
     p\<lparr>displayName := Some (case name of None \<Rightarrow> p_name p | Some n \<Rightarrow> n),
       origin := (case origin p of Some v \<Rightarrow> Some v
         | None \<Rightarrow> (case author of Some a \<Rightarrow> Some (tl a) | None \<Rightarrow> Some ''Unknown'')),
       isEnabled := (if isLoaded p = Some False then Some False else isEnabled p)\<rparr>)"

text \<open>The rows with the changes of the user, and the rows as they were at each click on delete.\<close>

record page_state =
  pluginChanges :: "plugin_info list"
  before_delete :: "plugin_info list list"

definition open_page :: "plugin_info list \<Rightarrow> page_state" where
  "open_page ps = \<lparr>pluginChanges = map page_row ps, before_delete = []\<rparr>"

definition enableSave :: "plugin_info list \<Rightarrow> page_state \<Rightarrow> bool" where
  "enableSave ps s \<longleftrightarrow> \<not> (length ps = length (pluginChanges s) \<and>
     list_all2 (\<lambda>a b. p_name a = p_name b \<and> p_type a = p_type b \<and> isEnabled a = isEnabled b) ps (pluginChanges s))"

definition switchChangeHandler :: "plugin_info \<Rightarrow> page_state \<Rightarrow> page_state" where
  [state_defs]: "switchChangeHandler plug s =
    (let newEnabledState = (isEnabled plug \<noteq> Some True)
     in s\<lparr>pluginChanges := map (\<lambda>p.
          if p_name p = p_name plug \<and> p_type p = p_type plug then p\<lparr>isEnabled := Some newEnabledState\<rparr>
          else if newEnabledState \<and> p_name p = p_name plug \<and> p_type p \<noteq> p_type plug
          then p\<lparr>isEnabled := Some False\<rparr> else p) (pluginChanges s)\<rparr>)"

definition handleDeleteClick :: "bool \<Rightarrow> plugin_info \<Rightarrow> page_state \<Rightarrow> page_state" where
  [state_defs]: "handleDeleteClick confirmed plugin s =
    (if \<not> confirmed then s
     else s\<lparr>pluginChanges := filter (\<lambda>p. \<not> (p_name p = p_name plugin \<and> p_type p = p_type plugin)) (pluginChanges s),
            before_delete := pluginChanges s # before_delete s\<rparr>)"

text \<open>The deletion that was clicked as the \<open>i\<close>th last one fails: the rows of that moment return.\<close>

definition deletion_failed :: "nat \<Rightarrow> page_state \<Rightarrow> page_state" where
  [state_defs]: "deletion_failed i s =
    (if i < length (before_delete s) then s\<lparr>pluginChanges := before_delete s ! i\<rparr> else s)"

datatype page_event = Switch plugin_info | Delete_Click bool plugin_info | Delete_Failed nat

definition page_step :: "page_state \<Rightarrow> page_event \<Rightarrow> page_state" where
  [state_defs]: "page_step s e = (case e of
     Switch p \<Rightarrow> switchChangeHandler p s
   | Delete_Click c p \<Rightarrow> handleDeleteClick c p s
   | Delete_Failed i \<Rightarrow> deletion_failed i s)"

text \<open>Saving stores the rows and loads the page anew.\<close>

definition save_page :: "page_state \<Rightarrow> load_world \<Rightarrow> load_world" where
  [state_defs]: "save_page s w = reloadPage (setPluginSettings (pluginChanges s) w)"

section \<open>The groups of versions\<close>

lemma dict_wf_by_name_fold: "dict_wf d \<Longrightarrow> dict_wf (fold (\<lambda>p d. dict_set (p_name p)
     ((case dict_get d (p_name p) of None \<Rightarrow> [] | Some existing \<Rightarrow> existing) @ [p]) d) ps d)"
  by (induction ps arbitrary: d) simp_all

lemma get_by_name_fold:
  "dict_get (fold (\<lambda>p d. dict_set (p_name p)
     ((case dict_get d (p_name p) of None \<Rightarrow> [] | Some existing \<Rightarrow> existing) @ [p]) d) ps d) n =
   (if filter (\<lambda>p. p_name p = n) ps = [] then dict_get d n
    else Some ((case dict_get d n of None \<Rightarrow> [] | Some vs \<Rightarrow> vs) @ filter (\<lambda>p. p_name p = n) ps))"
  by (induction ps arbitrary: d) (auto split: option.split)

lemma get_by_name:
  "dict_get (by_name ps) n = (let vs = filter (\<lambda>p. p_name p = n) ps in if vs = [] then None else Some vs)"
proof -
  have "dict_get [] n = (None :: plugin_info list option)" by (simp add: dict_get_def)
  then show ?thesis by (simp add: by_name_def get_by_name_fold Let_def)
qed

lemma wf_by_name: "dict_wf (by_name ps)"
  unfolding by_name_def by (rule dict_wf_by_name_fold) (simp add: dict_wf_def)

definition versions_of :: "plugin_info list \<Rightarrow> string \<Rightarrow> plugin_info list" where
  "versions_of ps n = filter (\<lambda>p. p_name p = n) ps"

lemma by_name_values: "dict_values (by_name ps) = map (versions_of ps) (dict_keys (by_name ps))"
proof -
  have "v = versions_of ps k" if "(k, v) \<in> set (by_name ps)" for k v
    using that dict_get_iff [OF wf_by_name, of ps k v]
    by (simp add: get_by_name versions_of_def Let_def split: if_splits)
  then show ?thesis by (auto simp: dict_values_def dict_keys_def)
qed

lemma names_distinct: "distinct (dict_keys (by_name ps))"
  using wf_by_name [of ps] by (simp add: dict_wf_def dict_keys_def)

lemma names_are: "set (dict_keys (by_name ps)) = p_name ` set ps"
proof -
  have "n \<in> set (dict_keys (by_name ps)) \<longleftrightarrow> versions_of ps n \<noteq> []" for n
    by (simp add: dict_has_keys [symmetric] dict_has_def get_by_name versions_of_def Let_def)
  then show ?thesis by (auto simp: versions_of_def filter_empty_conv)
qed

lemma applied: "applyPluginPriority ps =
    concat (map (\<lambda>n. mark_versions (versions_of ps n)) (dict_keys (by_name ps)))"
  by (simp add: applyPluginPriority_def by_name_values comp_def)

section \<open>Marking the versions of one plugin\<close>

abbreviation loaded :: "plugin_info \<Rightarrow> bool" where
  "loaded p \<equiv> isLoaded p = Some True"

text \<open>What marking leaves alone.\<close>

definition bare :: "plugin_info \<Rightarrow> plugin_info" where
  "bare p = p\<lparr>isLoaded := None, overriddenBy := None\<rparr>"

lemma findIndex_Some: "findIndex P xs = Some i \<Longrightarrow> i < length xs \<and> P (xs ! i) \<and> (\<forall>j < i. \<not> P (xs ! j))"
proof (induction xs arbitrary: i)
  case (Cons x xs)
  then show ?case by (cases i) (auto simp: less_Suc_eq_0_disj split: if_splits)
qed simp

lemma findIndex_None: "findIndex P xs = None \<longleftrightarrow> (\<forall>x \<in> set xs. \<not> P x)"
  by (induction xs) auto

lemma sorted_versions: "js_sort by_priority vs = sort_key priority vs"
  by (rule js_sort_key) (simp add: by_priority_def)

lemma bare_mark: "bare (mark_version vs i) = bare (vs ! i)"
  by (simp add: mark_version_def bare_def split: option.split)

lemma mark_one: "mark_versions [v] = [v\<lparr>isLoaded := Some (may_load v)\<rparr>]"
  by (simp add: mark_versions_def)

lemma mark_many:
  assumes "\<nexists>v. vs = [v]"
  shows "mark_versions vs =
    map (mark_version (sort_key priority vs)) [0..<length (sort_key priority vs)]"
proof (cases vs)
  case (Cons v us)
  with assms show ?thesis
    by (cases us) (simp_all add: mark_versions_def sorted_versions Let_def del: sort_key_simps)
qed (simp add: mark_versions_def sorted_versions)

lemma mset_mark_versions: "mset (map bare (mark_versions vs)) = mset (map bare vs)"
proof (cases "\<exists>v. vs = [v]")
  case True
  then show ?thesis by (auto simp: mark_one bare_def)
next
  case False
  let ?s = "sort_key priority vs"
  have "map bare (mark_versions vs) = map bare (map ((!) ?s) [0..<length ?s])"
    by (simp add: mark_many [OF False] bare_mark)
  then have "map bare (mark_versions vs) = map bare ?s" by (simp only: map_nth)
  then show ?thesis by simp
qed

lemma loaded_mark: "i < length vs \<Longrightarrow> loaded (mark_version vs i) \<longleftrightarrow> findIndex may_load vs = Some i"
  by (auto simp: mark_version_def loaded_version_def split: option.split)

text \<open>The one version that is loaded: the first by priority of those that may load.\<close>

definition best_version :: "plugin_info list \<Rightarrow> plugin_info option" where
  "best_version vs = List.find may_load (sort_key priority vs)"

lemma find_findIndex: "List.find P xs = map_option ((!) xs) (findIndex P xs)"
  by (induction xs) (auto simp: option.map_comp comp_def)

lemma filter_one: "i < n \<Longrightarrow> filter (\<lambda>j. j = i) [0..<n] = [i]"
  by (induction n) (auto simp: less_Suc_eq intro: filter_False)

lemma loaded_of_versions: "filter loaded (mark_versions vs) =
    (case best_version vs of None \<Rightarrow> [] | Some v \<Rightarrow> [v\<lparr>isLoaded := Some True\<rparr>])"
proof (cases "\<exists>v. vs = [v]")
  case True
  then show ?thesis by (auto simp: mark_one best_version_def)
next
  case False
  let ?s = "sort_key priority vs"
  have "filter (loaded \<circ> mark_version ?s) [0..<length ?s] =
        filter (\<lambda>i. findIndex may_load ?s = Some i) [0..<length ?s]"
    by (rule filter_cong) (simp_all add: loaded_mark)
  also have "\<dots> = (case findIndex may_load ?s of None \<Rightarrow> [] | Some i \<Rightarrow> [i])"
  proof (cases "findIndex may_load ?s")
    case (Some i)
    then have "i < length ?s" by (blast dest: findIndex_Some)
    then show ?thesis using Some by (simp add: eq_commute [of i] filter_one)
  qed simp
  finally have "filter loaded (mark_versions vs) =
    map (mark_version ?s) (case findIndex may_load ?s of None \<Rightarrow> [] | Some i \<Rightarrow> [i])"
    by (simp add: mark_many [OF False] filter_map)
  then show ?thesis
    by (simp add: best_version_def find_findIndex mark_version_def loaded_version_def split: option.split)
qed

lemma best_version_Some:
  assumes "best_version vs = Some v"
  shows "v \<in> set vs \<and> may_load v \<and> (\<forall>u \<in> set vs. may_load u \<longrightarrow> priority v \<le> priority u)"
proof -
  let ?s = "sort_key priority vs"
  from assms obtain i where i: "i < length ?s" "v = ?s ! i" "may_load v" "\<forall>j < i. \<not> may_load (?s ! j)"
    by (auto simp: best_version_def find_Some_iff)
  have "priority v \<le> priority u" if u: "u \<in> set ?s" "may_load u" for u
  proof -
    from u obtain j where "j < length ?s" "u = ?s ! j" unfolding in_set_conv_nth by blast
    with i u show ?thesis
      using sorted_nth_mono [OF sorted_sort_key, of i j priority vs] by (cases "j < i") auto
  qed
  moreover have "v \<in> set vs" using i nth_mem [of i ?s] by simp
  ultimately show ?thesis using i by simp
qed

lemma best_version_None: "best_version vs = None \<longleftrightarrow> (\<forall>v \<in> set vs. \<not> may_load v)"
  by (auto simp: best_version_def find_None_iff)

lemma name_mark_versions: "p \<in> set (mark_versions vs) \<Longrightarrow> \<exists>q \<in> set vs. bare p = bare q"
proof -
  assume "p \<in> set (mark_versions vs)"
  then have "bare p \<in> set (map bare (mark_versions vs))" by simp
  also have "\<dots> = set (map bare vs)" by (rule mset_eq_setD [OF mset_mark_versions])
  finally show ?thesis by auto
qed

lemma bare_fields: "bare p = bare q \<Longrightarrow>
    p_name p = p_name q \<and> p_type p = p_type q \<and> isEnabled p = isEnabled q \<and> priority p = priority q \<and>
    p_version p = p_version q \<and> devDependencies p = devDependencies q \<and> isCompatible p = isCompatible q"
  by (cases p; cases q) (simp add: bare_def priority_def)

lemma set_applied: "q \<in> set (applyPluginPriority ps) \<longleftrightarrow> (\<exists>n. n \<in> p_name ` set ps \<and> q \<in> set (mark_versions (versions_of ps n)))"
  by (simp add: applied names_are)

lemma mem_applied:
  assumes "q \<in> set (applyPluginPriority ps)"
  obtains p where "p \<in> set ps" "bare q = bare p" "q \<in> set (mark_versions (versions_of ps (p_name q)))"
proof -
  from assms obtain n where n: "q \<in> set (mark_versions (versions_of ps n))" by (auto simp: set_applied)
  then obtain p where p: "p \<in> set (versions_of ps n)" "bare q = bare p" by (blast dest: name_mark_versions)
  then have "p \<in> set ps" "p_name q = n" using bare_fields [of q p] by (auto simp: versions_of_def)
  with n p that show thesis by blast
qed

lemma distinct_names_concat:
  assumes "distinct ns" and "\<And>n v. v \<in> set (f n) \<Longrightarrow> p_name v = n" and "\<And>n. length (f n) \<le> 1"
  shows "distinct (map p_name (concat (map f ns)))"
  using assms(1)
proof (induction ns)
  case (Cons n ns)
  have "distinct (map p_name (f n))"
    using assms(3) [of n] by (cases "f n") auto
  moreover have "p_name ` set (f n) \<inter> p_name ` (\<Union>m \<in> set ns. set (f m)) = {}"
    using Cons.prems assms(2) by fastforce
  ultimately show ?case using Cons by (simp add: image_Union)
qed simp

lemma loaded_names_distinct: "distinct (map p_name (filter loaded (applyPluginPriority ps)))"
proof -
  let ?f = "\<lambda>n. filter loaded (mark_versions (versions_of ps n))"
  have "p_name v = n" if "v \<in> set (?f n)" for v n
    using that name_mark_versions [of v "versions_of ps n"]
    by (auto simp: versions_of_def dest: bare_fields)
  moreover have "length (?f n) \<le> 1" for n
    by (simp add: loaded_of_versions split: option.split)
  ultimately show ?thesis
    unfolding applied filter_concat map_map comp_def
    by (rule distinct_names_concat [OF names_distinct])
qed

text \<open>The version of a plugin that is loaded.\<close>

lemma loaded_applied:
  "q \<in> set (applyPluginPriority ps) \<and> loaded q \<longleftrightarrow>
   (\<exists>v. best_version (versions_of ps (p_name q)) = Some v \<and> q = v\<lparr>isLoaded := Some True\<rparr>)"
proof
  assume q: "q \<in> set (applyPluginPriority ps) \<and> loaded q"
  then obtain p where "q \<in> set (mark_versions (versions_of ps (p_name q)))" by (auto elim: mem_applied)
  with q have "q \<in> set (filter loaded (mark_versions (versions_of ps (p_name q))))" by simp
  then show "\<exists>v. best_version (versions_of ps (p_name q)) = Some v \<and> q = v\<lparr>isLoaded := Some True\<rparr>"
    by (cases "best_version (versions_of ps (p_name q))") (simp_all add: loaded_of_versions)
next
  assume "\<exists>v. best_version (versions_of ps (p_name q)) = Some v \<and> q = v\<lparr>isLoaded := Some True\<rparr>"
  then obtain v where v: "best_version (versions_of ps (p_name q)) = Some v" "q = v\<lparr>isLoaded := Some True\<rparr>"
    by blast
  then have "q \<in> set (filter loaded (mark_versions (versions_of ps (p_name q))))"
    by (simp add: loaded_of_versions)
  moreover have "p_name q \<in> p_name ` set ps"
    using v best_version_Some [OF v(1)] by (auto simp: versions_of_def)
  ultimately show "q \<in> set (applyPluginPriority ps) \<and> loaded q" by (auto simp: set_applied)
qed

lemma mset_concat_map: "(\<And>n. mset (f n) = mset (g n)) \<Longrightarrow> mset (concat (map f ns)) = mset (concat (map g ns))"
  by (induction ns) simp_all

lemma mset_versions:
  assumes "distinct ns" and "p_name ` set ps \<subseteq> set ns"
  shows "mset (concat (map (versions_of ps) ns)) = mset ps"
  using assms
proof (induction ns arbitrary: ps)
  case (Cons n ns)
  let ?rest = "filter (\<lambda>p. p_name p \<noteq> n) ps"
  have "map (versions_of ps) ns = map (versions_of ?rest) ns"
    using Cons.prems(1) by (auto simp: versions_of_def intro!: filter_cong)
  moreover have "mset (concat (map (versions_of ?rest) ns)) = mset ?rest"
    by (rule Cons.IH) (use Cons.prems in auto)
  ultimately have "mset (concat (map (versions_of ps) (n # ns))) = mset (versions_of ps n) + mset ?rest"
    by (simp only: list.map concat.simps mset_append)
  also have "\<dots> = mset ps"
    by (simp add: versions_of_def flip: multiset_partition)
  finally show ?case .
qed simp

lemma applied_perm: "mset (map bare (applyPluginPriority ps)) = mset (map bare ps)"
proof -
  have "mset (map bare (concat (map (\<lambda>n. mark_versions (versions_of ps n)) ns))) =
        mset (map bare (concat (map (versions_of ps) ns)))" for ns
    unfolding map_concat map_map comp_def by (rule mset_concat_map) (rule mset_mark_versions)
  moreover have "mset (map bare (concat (map (versions_of ps) (dict_keys (by_name ps))))) = mset (map bare ps)"
    using mset_versions [OF names_distinct, of ps ps] unfolding mset_map by (simp only: names_are order_refl)
  ultimately show ?thesis
    by (simp only: applied)
qed

text \<open>C15: Whatever versions of plugins exist, none is lost or changed by the choice among them, at
  most one version of each name is loaded, and a loaded version is enabled; a name with an
  enabled version has a loaded one of the same or of higher priority.\<close>

theorem one_version_is_loaded:
  "mset (map bare (applyPluginPriority ps)) = mset (map bare ps) \<and>
   distinct (map p_name (filter loaded (applyPluginPriority ps))) \<and>
   (\<forall>q \<in> set (applyPluginPriority ps). loaded q \<longrightarrow> may_load q) \<and>
   (\<forall>p \<in> set ps. may_load p \<longrightarrow>
      (\<exists>q \<in> set (applyPluginPriority ps). loaded q \<and> p_name q = p_name p \<and> priority q \<le> priority p))"
proof (intro conjI ballI impI)
  show "mset (map bare (applyPluginPriority ps)) = mset (map bare ps)" by (rule applied_perm)
next
  show "distinct (map p_name (filter loaded (applyPluginPriority ps)))" by (rule loaded_names_distinct)
next
  fix q assume "q \<in> set (applyPluginPriority ps)" "loaded q"
  then obtain v where "best_version (versions_of ps (p_name q)) = Some v" "q = v\<lparr>isLoaded := Some True\<rparr>"
    using loaded_applied [of q ps] by blast
  then show "may_load q" using best_version_Some [of _ v] by (simp add: may_load_def)
next
  fix p assume p: "p \<in> set ps" "may_load p"
  then have "p \<in> set (versions_of ps (p_name p))" by (simp add: versions_of_def)
  with p obtain v where v: "best_version (versions_of ps (p_name p)) = Some v"
    using best_version_None [of "versions_of ps (p_name p)"] by fastforce
  from best_version_Some [OF this] p
  have "p_name v = p_name p" "priority v \<le> priority p" by (auto simp: versions_of_def)
  then show "\<exists>q \<in> set (applyPluginPriority ps). loaded q \<and> p_name q = p_name p \<and> priority q \<le> priority p"
    using loaded_applied [of "v\<lparr>isLoaded := Some True\<rparr>" ps] v
    by (intro bexI [of _ "v\<lparr>isLoaded := Some True\<rparr>"]) (simp_all add: priority_def)
qed

definition sample_plugin :: "string \<Rightarrow> plugin_type \<Rightarrow> plugin_info" where
  "sample_plugin n t =
    \<lparr>p_name = n, folderName = Some n, displayName = None, origin = None, isEnabled = Some True, p_type = Some t,
     isLoaded = None, overriddenBy = None, isCompatible = None, p_version = Some ''1.0.0'',
     devDependencies = Some [(headlamp_plugin, ''^0.13.0'')], settingsComponent = None,
     displaySettingsComponentWithSaveButton = None, described = []\<rparr>"

theorem one_version_is_loaded_witness:
  "\<exists>q \<in> set (applyPluginPriority [sample_plugin ''a'' Shipped, sample_plugin ''b'' User, sample_plugin ''a'' User]).
     loaded q \<and> p_name q = ''a'' \<and> priority q \<le> 1"
proof -
  let ?ps = "[sample_plugin ''a'' Shipped, sample_plugin ''b'' User, sample_plugin ''a'' User]"
  have "sample_plugin ''a'' User \<in> set ?ps" "may_load (sample_plugin ''a'' User)"
    "p_name (sample_plugin ''a'' User) = ''a''" "priority (sample_plugin ''a'' User) = 1"
    by (simp_all add: sample_plugin_def may_load_def priority_def)
  with one_version_is_loaded [of ?ps] show ?thesis by metis
qed

section \<open>What the user chooses on the settings page is loaded\<close>

abbreviation identity :: "plugin_info \<Rightarrow> string \<times> plugin_type option" where
  "identity p \<equiv> (p_name p, p_type p)"

lemma same_plugin_identity: "same_plugin p x \<longleftrightarrow> identity x = identity p"
  by (auto simp: same_plugin_def)

text \<open>A list of rows names every version once and has at most one version of each name switched
  on.\<close>

definition one_choice :: "plugin_info list \<Rightarrow> bool" where
  [inv_defs]: "one_choice rows \<longleftrightarrow> distinct (map identity rows) \<and>
     (\<forall>p \<in> set rows. \<forall>q \<in> set rows. p_name p = p_name q \<and> may_load p \<and> may_load q \<longrightarrow> p_type p = p_type q)"

definition page_ok :: "page_state \<Rightarrow> bool" where
  [inv_defs]: "page_ok s \<longleftrightarrow> one_choice (pluginChanges s) \<and> list_all one_choice (before_delete s)"

lemma one_choice_filter: "one_choice rows \<Longrightarrow> one_choice (filter P rows)"
  by (auto simp: one_choice_def distinct_map_filter)

definition switched :: "plugin_info \<Rightarrow> plugin_info \<Rightarrow> plugin_info" where
  "switched plug p =
    (let on = (isEnabled plug \<noteq> Some True)
     in if p_name p = p_name plug \<and> p_type p = p_type plug then p\<lparr>isEnabled := Some on\<rparr>
        else if on \<and> p_name p = p_name plug \<and> p_type p \<noteq> p_type plug then p\<lparr>isEnabled := Some False\<rparr> else p)"

lemma switch_rows: "switchChangeHandler plug s = s\<lparr>pluginChanges := map (switched plug) (pluginChanges s)\<rparr>"
  by (simp add: switchChangeHandler_def switched_def Let_def)

lemma switched_identity [simp]: "p_name (switched plug p) = p_name p" "p_type (switched plug p) = p_type p"
  by (simp_all add: switched_def Let_def)

lemma switched_on:
  "may_load (switched plug p) \<longleftrightarrow>
    (if p_name p \<noteq> p_name plug then may_load p
     else if isEnabled plug \<noteq> Some True then p_type p = p_type plug
     else p_type p \<noteq> p_type plug \<and> may_load p)"
  by (simp add: switched_def may_load_def Let_def)

lemma one_choice_switch:
  assumes "one_choice rows"
  shows "one_choice (map (switched plug) rows)"
proof -
  have "p_type p = p_type q"
    if p: "p \<in> set rows" "q \<in> set rows" "p_name p = p_name q" and
       on: "may_load (switched plug p)" "may_load (switched plug q)" for p q
  proof (cases "p_name p = p_name plug \<and> isEnabled plug \<noteq> Some True")
    case True
    then have "p_name p = p_name plug" "p_name q = p_name plug" "isEnabled plug \<noteq> Some True"
      using p by simp_all
    then show ?thesis using on unfolding switched_on by simp
  next
    case False
    have "may_load p" "may_load q"
      using False on p(3) unfolding switched_on by presburger+
    then show ?thesis using p assms unfolding one_choice_def by blast
  qed
  then have "\<forall>p \<in> set (map (switched plug) rows). \<forall>q \<in> set (map (switched plug) rows).
      p_name p = p_name q \<and> may_load p \<and> may_load q \<longrightarrow> p_type p = p_type q"
    unfolding set_map ball_simps switched_identity by blast
  moreover have "map identity (map (switched plug) rows) = map identity rows" by simp
  ultimately show ?thesis using assms unfolding one_choice_def by (simp only: simp_thms)
qed

interpretation settings_page: reducer page_step page_ok
proof
  fix s e assume s: "page_ok s"
  show "page_ok (page_step s e)"
  proof (cases e)
    case (Switch p)
    with s show ?thesis by (simp add: page_ok_def page_step_def switch_rows one_choice_switch)
  next
    case (Delete_Click c p)
    with s show ?thesis by (simp add: page_ok_def page_step_def handleDeleteClick_def one_choice_filter)
  next
    case (Delete_Failed i)
    with s show ?thesis by (simp add: page_ok_def page_step_def deletion_failed_def list_all_length)
  qed
qed

lemma applied_identities:
  assumes "distinct (map identity ps)"
  shows "distinct (map identity (applyPluginPriority ps))"
proof -
  have b: "map identity xs = map identity (map bare xs)" for xs by (simp add: bare_def)
  have "mset (map identity (map bare (applyPluginPriority ps))) = mset (map identity (map bare ps))"
    by (simp only: mset_map [of identity] applied_perm)
  then have "mset (map identity (applyPluginPriority ps)) = mset (map identity ps)" by (simp only: b [symmetric])
  then show ?thesis using assms mset_eq_imp_distinct_iff by blast
qed

lemma marked_versions:
  assumes "p \<in> set (mark_versions vs)"
  shows "isLoaded p = Some True \<or> isLoaded p = Some False"
proof (cases "\<exists>v. vs = [v]")
  case True
  with assms show ?thesis by (auto simp: mark_one)
next
  case False
  with assms obtain i where "p = mark_version (sort_key priority vs) i"
    unfolding mark_many [OF False] by auto
  then show ?thesis by (simp add: mark_version_def split: option.split)
qed

lemma open_page_ok:
  assumes "distinct (map identity ps)"
  shows "page_ok (open_page (map (with_compatibility env) (applyPluginPriority ps)))"
proof -
  let ?row = "\<lambda>p. page_row (with_compatibility env p)"
  let ?ps = "applyPluginPriority ps"
  have i: "p_name (?row p) = p_name p" "p_type (?row p) = p_type p" for p
    by (simp_all add: page_row_def with_compatibility_def split: prod.split)
  have l: "loaded p" if "p \<in> set ?ps" "may_load (?row p)" for p
  proof -
    have "isLoaded p \<noteq> Some False"
      using that(2) by (auto simp: page_row_def with_compatibility_def may_load_def split: prod.splits)
    moreover obtain vs where "p \<in> set (mark_versions vs)"
      using \<open>p \<in> set ?ps\<close> by (auto elim: mem_applied)
    then have "isLoaded p = Some True \<or> isLoaded p = Some False" by (rule marked_versions)
    ultimately show ?thesis by simp
  qed
  have "p_type p = p_type q" if "p \<in> set ?ps" "q \<in> set ?ps" "loaded p" "loaded q" "p_name p = p_name q" for p q
    using loaded_applied [of p ps] loaded_applied [of q ps] that by auto
  then have "\<forall>p \<in> set (map ?row ?ps). \<forall>q \<in> set (map ?row ?ps).
      p_name p = p_name q \<and> may_load p \<and> may_load q \<longrightarrow> p_type p = p_type q"
    unfolding set_map ball_simps i using l by blast
  moreover have "map identity (map ?row ?ps) = map identity ?ps" by (simp only: map_map comp_def i)
  ultimately have "one_choice (map ?row ?ps)"
    using applied_identities [OF assms] unfolding one_choice_def by (simp only: simp_thms)
  then show ?thesis by (simp add: page_ok_def open_page_def comp_def)
qed

lemma loaded_may_load: "q \<in> set (applyPluginPriority ps) \<Longrightarrow> loaded q \<Longrightarrow> may_load q"
  using loaded_applied [of q ps] best_version_Some by (fastforce simp: may_load_def)

lemma enabled_has_loaded:
  assumes "p \<in> set ps" "may_load p"
  shows "\<exists>q \<in> set (applyPluginPriority ps). loaded q \<and> p_name q = p_name p \<and> priority q \<le> priority p"
proof -
  from assms have "p \<in> set (versions_of ps (p_name p))" by (simp add: versions_of_def)
  with assms obtain v where v: "best_version (versions_of ps (p_name p)) = Some v"
    using best_version_None [of "versions_of ps (p_name p)"] by fastforce
  from best_version_Some [OF this] assms
  have "p_name v = p_name p" "priority v \<le> priority p" by (auto simp: versions_of_def)
  then show ?thesis
    using loaded_applied [of "v\<lparr>isLoaded := Some True\<rparr>" ps] v
    by (intro bexI [of _ "v\<lparr>isLoaded := Some True\<rparr>"]) (simp_all add: priority_def)
qed

lemma one_choiceD: "one_choice ps \<Longrightarrow> p \<in> set ps \<Longrightarrow> q \<in> set ps \<Longrightarrow> p_name p = p_name q \<Longrightarrow>
    may_load p \<Longrightarrow> may_load q \<Longrightarrow> p_type p = p_type q"
  unfolding one_choice_def by blast

lemma identity_unique: "distinct (map identity ps) \<Longrightarrow> p \<in> set ps \<Longrightarrow> q \<in> set ps \<Longrightarrow>
    p_name p = p_name q \<Longrightarrow> p_type p = p_type q \<Longrightarrow> p = q"
  unfolding distinct_map inj_on_def by blast

lemma one_choice_loaded:
  assumes one: "one_choice ps" and p: "p \<in> set (applyPluginPriority ps)"
  shows "loaded p \<longleftrightarrow> may_load p"
proof
  assume "may_load p"
  obtain p' where p': "p' \<in> set ps" "bare p = bare p'" using p by (auto elim: mem_applied)
  then have "may_load p'" using bare_fields [OF p'(2)] \<open>may_load p\<close> by (simp add: may_load_def)
  with p' obtain q where q: "q \<in> set (applyPluginPriority ps)" "loaded q" "p_name q = p_name p'"
    using enabled_has_loaded by blast
  then have "may_load q" by (blast intro: loaded_may_load)
  obtain q' where q': "q' \<in> set ps" "bare q = bare q'" using q by (auto elim: mem_applied)
  have "may_load q'" using bare_fields [OF q'(2)] \<open>may_load q\<close> by (simp add: may_load_def)
  moreover have "p_name q' = p_name p'" using bare_fields [OF q'(2)] q(3) by simp
  ultimately have "p_type q' = p_type p'"
    using one_choiceD [OF one q'(1) p'(1)] \<open>may_load p'\<close> by blast
  then have "p_name q = p_name p" "p_type q = p_type p"
    using bare_fields [OF q'(2)] bare_fields [OF p'(2)] q(3) by simp_all
  moreover have "distinct (map identity ps)" using one unfolding one_choice_def by blast
  ultimately have "q = p" by (intro identity_unique [OF applied_identities q(1) p])
  with q(2) show "loaded p" by blast
qed (use p in \<open>blast intro: loaded_may_load\<close>)

lemma find_SomeD: "List.find P xs = Some x \<Longrightarrow> x \<in> set xs \<and> P x"
  by (induction xs) (auto split: if_splits)

lemma updated_from_rows:
  assumes one: "one_choice rows" and found: "distinct (map identity found)"
    and known: "identity ` set found \<subseteq> identity ` set rows"
    and upd: "updated = updateSettingsPackages found (map json_info rows)"
  shows "one_choice updated"
    and "p \<in> set updated \<Longrightarrow> \<exists>r \<in> set rows. identity r = identity p \<and> may_load r = may_load p"
proof -
  have j: "p_name (json_info r) = p_name r" "p_type (json_info r) = p_type r" "isEnabled (json_info r) = isEnabled r" for r
    by (simp_all add: json_info_def)
  have m: "identity (merge_setting (map json_info rows) p) = identity p \<and>
      (\<exists>r \<in> set rows. identity r = identity p \<and> may_load r = may_load (merge_setting (map json_info rows) p))"
    if p: "p \<in> set found" for p
  proof (cases "List.find (same_plugin p) (map json_info rows)")
    case None
    have "identity p \<in> identity ` set rows" using known p by blast
    then obtain r where r: "r \<in> set rows" "p_name r = p_name p" "p_type r = p_type p" by auto
    then have "same_plugin p (json_info r)" by (simp add: same_plugin_def j)
    moreover have "\<not> same_plugin p (json_info r)" using None r(1) by (simp add: find_None_iff)
    ultimately show ?thesis by blast
  next
    case (Some s)
    then have "s \<in> json_info ` set rows" "same_plugin p s" using find_SomeD [OF Some] by simp_all
    then obtain r where r: "r \<in> set rows" "s = json_info r" "same_plugin p s" by (elim imageE)
    then have "p_name r = p_name p" "p_type r = p_type p" by (simp_all add: same_plugin_def j)
    moreover have "merge_setting (map json_info rows) p = (spread s p)\<lparr>isEnabled := isEnabled r\<rparr>"
      using r by (simp add: merge_setting_def Some j)
    moreover have "p_type s = p_type p" using r(3) by (simp add: same_plugin_def)
    ultimately have "p_name (merge_setting (map json_info rows) p) = p_name p"
      "p_type (merge_setting (map json_info rows) p) = p_type p"
      "may_load (merge_setting (map json_info rows) p) = may_load r"
      by (simp_all add: spread_def may_load_def pick_def split: option.split)
    with r(1) \<open>p_name r = p_name p\<close> \<open>p_type r = p_type p\<close> show ?thesis by metis
  qed
  have "updated = [] \<or> updated = map json_info rows \<or> updated = map (merge_setting (map json_info rows)) found"
    by (simp add: upd updateSettingsPackages_def)
  then consider (empty) "updated = []" | (same) "updated = map json_info rows"
    | (changed) "updated = map (merge_setting (map json_info rows)) found"
    by (elim disjE)
  then have "distinct (map identity updated) \<and>
      (\<forall>p \<in> set updated. \<exists>r \<in> set rows. identity r = identity p \<and> may_load r = may_load p)"
  proof cases
    case same
    moreover have "map identity (map json_info rows) = map identity rows" by (simp add: j)
    moreover have "may_load (json_info r) = may_load r" for r by (simp add: may_load_def j)
    ultimately have "\<forall>p \<in> set updated. \<exists>r \<in> set rows. identity r = identity p \<and> may_load r = may_load p"
      unfolding same set_map ball_simps j by blast
    moreover have "distinct (map identity updated)"
      using one unfolding same \<open>map identity (map json_info rows) = map identity rows\<close> one_choice_def by blast
    ultimately show ?thesis by blast
  next
    case changed
    have "map identity updated = map identity found"
      unfolding changed map_map by (rule map_cong) (simp_all add: m)
    moreover have "\<forall>p \<in> set updated. \<exists>r \<in> set rows. identity r = identity p \<and> may_load r = may_load p"
      unfolding changed set_map ball_simps using m by metis
    ultimately show ?thesis using found by (simp only: simp_thms)
  qed simp
  then have d: "distinct (map identity updated)"
    and r: "\<And>p. p \<in> set updated \<Longrightarrow> \<exists>r \<in> set rows. identity r = identity p \<and> may_load r = may_load p"
    by blast+
  show "one_choice updated"
    unfolding one_choice_def
  proof (intro conjI ballI impI)
    fix p q assume pq: "p \<in> set updated" "q \<in> set updated" "p_name p = p_name q \<and> may_load p \<and> may_load q"
    from r [OF pq(1)] r [OF pq(2)] obtain p' q' where
      "p' \<in> set rows" "identity p' = identity p" "may_load p'" "q' \<in> set rows" "identity q' = identity q" "may_load q'"
      using pq(3) by blast
    with one_choiceD [OF one, of p' q'] pq(3) show "p_type p = p_type q" by simp
  qed (rule d)
  show "p \<in> set updated \<Longrightarrow> \<exists>r \<in> set rows. identity r = identity p \<and> may_load r = may_load p" by (rule r)
qed

text \<open>C23: What the user switched on the settings page is what the next start loads: after any
  switches and deletions, saving, and loading the page anew, a version that the backend finds is
  loaded exactly when its row was switched on.\<close>

theorem saved_choice_is_loaded:
  assumes "distinct (map identity versions)"
    and "page = foldl page_step (open_page (map (with_compatibility env) (applyPluginPriority versions))) es"
    and "distinct (map identity found)" and "identity ` set found \<subseteq> identity ` set (pluginChanges page)"
    and "p \<in> set (applyPluginPriority (updateSettingsPackages found (pluginSettings (save_page page w))))"
  shows "loaded p \<longleftrightarrow> (\<exists>r \<in> set (pluginChanges page). identity r = identity p \<and> may_load r)"
proof -
  let ?rows = "pluginChanges page"
  let ?updated = "updateSettingsPackages found (map json_info ?rows)"
  have one: "one_choice ?rows"
    using settings_page.run_inv [OF open_page_ok [OF assms(1)]] assms(2) by (simp add: page_ok_def)
  have s: "pluginSettings (save_page page w) = map json_info ?rows"
    by (simp add: save_page_def setPluginSettings_def reloadPage_def fresh_world_def loadPluginSettings_def)
  note u = updated_from_rows [OF one assms(3,4) refl]
  have p: "p \<in> set (applyPluginPriority ?updated)" using assms(5) by (simp add: s)
  obtain p' where p': "p' \<in> set ?updated" "bare p = bare p'" using p by (auto elim: mem_applied)
  obtain r where r: "r \<in> set ?rows" "identity r = identity p'" "may_load r = may_load p'"
    using u(2) [OF p'(1)] by blast
  have same: "identity p' = identity p" "may_load p' = may_load p"
    using bare_fields [OF p'(2)] by (simp_all add: may_load_def)
  have "loaded p \<longleftrightarrow> may_load p" by (rule one_choice_loaded [OF u(1) p])
  also have "\<dots> \<longleftrightarrow> (\<exists>r' \<in> set ?rows. identity r' = identity p \<and> may_load r')"
  proof
    assume "\<exists>r' \<in> set ?rows. identity r' = identity p \<and> may_load r'"
    then obtain r' where r': "r' \<in> set ?rows" "identity r' = identity p" "may_load r'" by (elim bexE conjE)
    have "distinct (map identity ?rows)" using one unfolding one_choice_def by blast
    then have "r' = r" by (rule identity_unique) (use r r' same in simp_all)
    with r' r same show "may_load p" by blast
  next
    assume "may_load p"
    with r same show "\<exists>r' \<in> set ?rows. identity r' = identity p \<and> may_load r'" by metis
  qed
  finally show ?thesis .
qed

text \<open>Two versions of \<open>a\<close> and a plugin \<open>b\<close>, as the first start finds them.\<close>

definition three_plugins :: "plugin_info list" where
  "three_plugins = [sample_plugin ''a'' Development, sample_plugin ''a'' User, sample_plugin ''b'' User]"

theorem saved_choice_is_loaded_witness:
  "let page = foldl page_step (open_page (map (with_compatibility (undefined\<lparr>satisfies := \<lambda>_ _. True\<rparr>))
         (applyPluginPriority three_plugins))) [Switch (sample_plugin ''b'' User)];
       next = applyPluginPriority (updateSettingsPackages three_plugins (pluginSettings (save_page page (fresh_world No_Item))))
   in \<not> loaded (next ! 2) \<and> p_name (next ! 2) = ''b''"
proof -
  let ?env = "undefined\<lparr>satisfies := \<lambda>_ _. True\<rparr> :: load_env"
  let ?page = "foldl page_step (open_page (map (with_compatibility ?env) (applyPluginPriority three_plugins)))
     [Switch (sample_plugin ''b'' User)]"
  let ?next = "applyPluginPriority (updateSettingsPackages three_plugins
     (pluginSettings (save_page ?page (fresh_world No_Item))))"
  have "distinct (map identity three_plugins)" by code_simp
  moreover have "identity ` set three_plugins \<subseteq> identity ` set (pluginChanges ?page)" by code_simp
  ultimately have *: "p \<in> set ?next \<Longrightarrow>
      loaded p \<longleftrightarrow> (\<exists>r \<in> set (pluginChanges ?page). identity r = identity p \<and> may_load r)" for p
    by (intro saved_choice_is_loaded [OF _ refl]) assumption+
  have "?next ! 2 \<in> set ?next" by code_simp
  moreover have "\<not> (\<exists>r \<in> set (pluginChanges ?page). identity r = identity (?next ! 2) \<and> may_load r)"
    "p_name (?next ! 2) = ''b''"
    by code_simp+
  ultimately show ?thesis using * by (simp add: Let_def)
qed

text \<open>Saving the page switches off for good every version that another one overrides: when the
  overriding version is removed later, nothing of that name is loaded, although the page was only
  used to switch another plugin; without that save the user's version would be loaded.\<close>

theorem saving_disables_overridden_versions:
  "let first = applyPluginPriority (updateSettingsPackages three_plugins []);
       page = page_step (open_page first) (Switch (first ! 2));
       saved = pluginSettings (save_page page (fresh_world No_Item));
       left = tl three_plugins
   in map (\<lambda>p. (p_name p, loaded p)) (applyPluginPriority (updateSettingsPackages left first)) =
        [(''a'', True), (''b'', True)] \<and>
      map (\<lambda>p. (p_name p, loaded p)) (applyPluginPriority (updateSettingsPackages left saved)) =
        [(''a'', False), (''b'', False)]"
  by code_simp

section \<open>Retries\<close>

text \<open>The time slept after a number of failures in sequence: five waits that double, then
  seconds, the last one cut off.\<close>

definition slept_after :: "nat \<Rightarrow> int" where
  "slept_after k = (if k \<le> 5 then 50 * (2 ^ k - 1) else min 30000 (1550 + 1000 * (int k - 5)))"

lemma slept_step:
  assumes "k < 34"
  shows "slept_after (Suc k) = slept_after k + retry_wait k (slept_after k)"
proof (cases "k < 5")
  case True
  then have "k = 0 \<or> k = 1 \<or> k = 2 \<or> k = 3 \<or> k = 4" by auto
  then show ?thesis by (elim disjE) (simp_all add: slept_after_def retry_wait_def)
next
  case False
  then have "(2 :: int) ^ 5 \<le> 2 ^ k" by (intro power_increasing) simp_all
  then have "1000 \<le> 50 * (2 :: int) ^ k" by simp
  moreover have "slept_after k = 1550 + 1000 * (int k - 5)"
    using False assms by (cases "k = 5") (simp_all add: slept_after_def)
  moreover have "slept_after (Suc k) = min 30000 (1550 + 1000 * (int k - 4))"
    using False by (simp add: slept_after_def)
  ultimately show ?thesis using False assms by (simp add: retry_wait_def)
qed

lemma slept_below:
  assumes "k < 34"
  shows "slept_after k < 30000"
proof (cases "k \<le> 5")
  case True
  then have "(2 :: int) ^ k \<le> 2 ^ 5" by (intro power_increasing) simp_all
  with True show ?thesis by (simp add: slept_after_def)
qed (use assms in \<open>simp add: slept_after_def\<close>)

lemma slept_ends: "slept_after 0 = 0" "slept_after 34 = 30000"
  by (simp_all add: slept_after_def)

lemma retry_skips:
  assumes "n \<le> 34" and "\<forall>j < n. \<not> ok j" and "k \<le> n"
  shows "retry_from ok k (slept_after k) = retry_from ok n (slept_after n)"
  using assms(3)
proof (induction rule: inc_induct)
  case (step m)
  then have "retry_from ok m (slept_after m) = retry_from ok (Suc m) (slept_after (Suc m))"
    using assms slept_below [of m] slept_step [of m] by (simp add: retry_from.simps [of ok m])
  with step show ?case by simp
qed simp

text \<open>Fetching the list of plugins ends: it answers with the first of 34 attempts that succeeds
  and throws after the 34th, and it never sleeps for more than 30 seconds.\<close>

theorem retries_are_bounded:
  "answered (fetchWithRetry ok) = List.find ok [0..<34] \<and>
   attempts (fetchWithRetry ok) = (case List.find ok [0..<34] of None \<Rightarrow> 34 | Some k \<Rightarrow> Suc k) \<and>
   slept (fetchWithRetry ok) \<le> 30000"
proof (cases "List.find ok [0..<34]")
  case None
  then have "\<forall>j < 34. \<not> ok j" by (auto simp: find_None_iff)
  then have "fetchWithRetry ok = retry_from ok 34 30000"
    using retry_skips [of 34 ok 0] slept_ends by (simp add: fetchWithRetry_def)
  with None show ?thesis by (simp add: retry_from.simps [of ok 34])
next
  case (Some k)
  then have k: "k < 34" "ok k" "\<forall>j < k. \<not> ok j" by (auto simp: find_Some_iff)
  then have "fetchWithRetry ok = retry_from ok k (slept_after k)"
    using retry_skips [of k ok 0] slept_ends by (simp add: fetchWithRetry_def)
  with Some k slept_below [of k] show ?thesis by (simp add: retry_from.simps [of ok k])
qed

section \<open>Secrets\<close>





















section \<open>What is executed\<close>

lemma all_or_error_Inr: "all_or_error f xs = Inr ys \<longleftrightarrow> list_all2 (\<lambda>x y. f x = Inr y) xs ys"
proof (induction xs arbitrary: ys)
  case (Cons x xs)
  show ?case
    by (cases "f x"; cases "all_or_error f xs") (auto simp: list_all2_Cons1 simp flip: Cons)
qed auto

lemma info_of_name:
  "info_of env ms packs srcs plugin = Inr (Some i) \<Longrightarrow> ri_name i = p_name plugin"
  by (auto simp: info_of_def getInfoForRunningPlugins_def Let_def same_plugin_def
      dest!: findIndex_Some split: option.splits if_splits)

lemma infos_names:
  assumes "list_all2 (\<lambda>p y. info_of env ms packs srcs p = Inr y) ps ys" and "distinct (map p_name ps)"
  shows "distinct (map ri_name (List.map_filter (\<lambda>info. info) ys)) \<and>
    (\<forall>i \<in> set (List.map_filter (\<lambda>info. info) ys). \<exists>p \<in> set ps. p_name p = ri_name i)"
  using assms
proof (induction rule: list_all2_induct)
  case (Cons p ps y ys)
  have *: "\<forall>i \<in> set (List.map_filter (\<lambda>info. info) ys). \<exists>q \<in> set ps. p_name q = ri_name i"
    and **: "distinct (map ri_name (List.map_filter (\<lambda>info. info) ys))"
    using Cons by auto
  have notin: "p_name p \<notin> p_name ` set ps" using Cons.prems by simp
  show ?case
  proof (cases y)
    case None
    then show ?thesis using * ** by (auto simp: List.map_filter_simps)
  next
    case (Some i)
    then have "ri_name i = p_name p" using Cons.hyps info_of_name by blast
    moreover have "ri_name i \<notin> ri_name ` set (List.map_filter (\<lambda>info. info) ys)"
    proof
      assume "ri_name i \<in> ri_name ` set (List.map_filter (\<lambda>info. info) ys)"
      then obtain j where "j \<in> set (List.map_filter (\<lambda>info. info) ys)" "ri_name j = p_name p"
        using \<open>ri_name i = p_name p\<close> by auto
      moreover from this(1) * obtain q where "q \<in> set ps" "p_name q = ri_name j" by blast
      ultimately show False using notin by (metis image_eqI)
    qed
    ultimately show ?thesis using Some * ** by (auto simp: List.map_filter_simps)
  qed
qed (simp add: List.map_filter_simps)

lemma infos_from:
  assumes "list_all2 (\<lambda>p y. info_of env ms packs srcs p = Inr y) ps ys"
    and "i \<in> set (List.map_filter (\<lambda>info. info) ys)"
  shows "\<exists>p \<in> set ps. info_of env ms packs srcs p = Inr (Some i)"
  using assms
  by (induction rule: list_all2_induct) (auto simp: List.map_filter_simps split: option.splits)

text \<open>What is evaluated for a plugin of the settings: the source that the backend serves in the
  folder of a listed plugin with the name and the type of that plugin, under the name and the
  version of the package that lies in the same folder.\<close>

definition runs_source :: "load_env \<Rightarrow> plugin_info \<Rightarrow> run_info \<Rightarrow> bool" where
  "runs_source env p i \<longleftrightarrow>
    (\<exists>m \<in> set (listed env). \<exists>code. p_type p = Some (m_type m) \<and> p_name p = ri_name i \<and>
       main_js env (m_path m) = Some code \<and>
       ri_source i = code @ char_of (10 :: nat) # ''//# sourceURL=//'' @ m_path m @ ''/dist/main.js'' \<and>
       (case package_json env (m_path m) of
          Package json \<Rightarrow> p_name json = ri_name i \<and> p_version json = Some (ri_version i)
        | Missing_Package \<Rightarrow> last (js_split ''/'' (m_path m)) = ri_name i \<and> ri_version i = ''0.0.0''
        | Package_Refused \<Rightarrow> False))"

lemma info_of_runs:
  assumes packs: "list_all2 (\<lambda>m y. package_info_of env m = Inr y) (listed env) packs"
    and srcs: "list_all2 (\<lambda>m y. source_of env m = Inr y) (listed env) srcs"
    and run: "info_of env (listed env) packs srcs p = Inr (Some i)"
  shows "runs_source env p i"
proof -
  from run obtain k where k: "findIndex (same_plugin p) packs = Some k"
    and i: "getInfoForRunningPlugins (dev_mode env) (app_secrets env) (srcs ! k) (m_path (listed env ! k))
         (p_name (packs ! k)) (case p_version (packs ! k) of None \<Rightarrow> [] | Some v \<Rightarrow> v) = Some i"
    by (auto simp: info_of_def split: option.splits)
  let ?m = "listed env ! k"
  from findIndex_Some [OF k] have "k < length packs" and same: "same_plugin p (packs ! k)" by auto
  with packs srcs have m: "?m \<in> set (listed env)" "package_info_of env ?m = Inr (packs ! k)" "source_of env ?m = Inr (srcs ! k)"
    by (auto simp: list_all2_conv_all_nth)
  from i have ri: "ri_name i = p_name (packs ! k)" "p_version (packs ! k) = Some (ri_version i)"
    "ri_source i = srcs ! k @ char_of (10 :: nat) # ''//# sourceURL=//'' @ m_path ?m @ ''/dist/main.js''"
    by (auto simp: getInfoForRunningPlugins_def Let_def split: if_splits option.splits)
  have code: "main_js env (m_path ?m) = Some (srcs ! k)"
    using m(3) by (simp add: source_of_def split: option.splits)
  have ty: "p_type (packs ! k) = Some (m_type ?m)"
    and pk: "case package_json env (m_path ?m) of
          Package json \<Rightarrow> p_name json = ri_name i \<and> p_version json = Some (ri_version i)
        | Missing_Package \<Rightarrow> last (js_split ''/'' (m_path ?m)) = ri_name i \<and> ri_version i = ''0.0.0''
        | Package_Refused \<Rightarrow> False"
  proof -
    show "p_type (packs ! k) = Some (m_type ?m)"
      by (cases "package_json env (m_path ?m)") (use m(2) in \<open>auto simp: package_info_of_def dest!: sym [of _ "packs ! k"]\<close>)
    show "case package_json env (m_path ?m) of
          Package json \<Rightarrow> p_name json = ri_name i \<and> p_version json = Some (ri_version i)
        | Missing_Package \<Rightarrow> last (js_split ''/'' (m_path ?m)) = ri_name i \<and> ri_version i = ''0.0.0''
        | Package_Refused \<Rightarrow> False"
      by (cases "package_json env (m_path ?m)")
        (use m(2) ri(1,2) in \<open>auto simp: package_info_of_def dest!: sym [of _ "packs ! k"]\<close>)
  qed
  from same have p: "p_type p = Some (m_type ?m)" "p_name p = ri_name i"
    using ty ri(1) by (simp_all add: same_plugin_def)
  show ?thesis unfolding runs_source_def
    by (intro bexI [OF _ m(1)] exI [of _ "srcs ! k"] conjI) (rule p code ri(3) pk)+
qed

lemma run_prefix:
  "for_each (runPlugin env) is w = (r, w') \<Longrightarrow>
    \<exists>k. evaluated w' = evaluated w @ take k is \<and> pluginSettings w' = pluginSettings w \<and>
        initializedPlugins w' = initializedPlugins w \<and> announced w' = announced w"
proof (induction "is" arbitrary: w)
  case (Cons i "is")
  show ?case
  proof (cases "evaluate env (ri_source i) (ri_args i)")
    case Not_Compiled
    with Cons.prems have "w' = w" by (simp add: chain_def runPlugin_def throw_error_def)
    then show ?thesis by (intro exI [of _ 0]) simp
  next
    case (Evaluated regs threw)
    then obtain v where run: "runPlugin env i w = (Inr (), v)"
      and v: "evaluated v = evaluated w @ [i]" "pluginSettings v = pluginSettings w"
        "initializedPlugins v = initializedPlugins w" "announced v = announced w"
      by (simp add: runPlugin_def change_def)
    have "for_each (runPlugin env) is v = (r, w')"
      using Cons.prems by (simp add: chain_eq(1) [where m = "runPlugin env i", OF run])
    from Cons.IH [OF this] obtain k where "evaluated w' = evaluated v @ take k is"
      "pluginSettings w' = pluginSettings v" "initializedPlugins w' = initializedPlugins v" "announced w' = announced v"
      by blast
    with v show ?thesis by (intro exI [of _ "Suc k"]) simp
  qed
qed (simp add: give_def)

definition args_key :: "run_info \<Rightarrow> int" where
  "args_key i = (if has_args i then 0 else 1)"

lemma args_sort: "js_sort args_first is = sort_key args_key is"
  by (rule js_sort_key) (simp add: args_first_def args_key_def)


text \<open>The versions as they are marked and the plugins to run, when everything could be fetched.\<close>

definition loading_plan :: "load_env \<Rightarrow> plugin_info list \<Rightarrow> load_error + plugin_info list \<times> run_info list" where
  "loading_plan env settings =
    (case all_or_error (package_info_of env) (listed env) of Inl e \<Rightarrow> Inl e | Inr packs \<Rightarrow>
     (case all_or_error (source_of env) (listed env) of Inl e \<Rightarrow> Inl e | Inr srcs \<Rightarrow>
      (let marked = map (with_compatibility env) (applyPluginPriority (updateSettingsPackages packs settings))
       in case all_or_error (info_of env (listed env) packs srcs) (filter (to_execute env) marked) of
            Inl e \<Rightarrow> Inl e
          | Inr infos \<Rightarrow> Inr (marked, js_sort args_first (List.map_filter (\<lambda>info. info) infos)))))"

definition same_progress :: "load_world \<Rightarrow> load_world \<Rightarrow> bool" where
  "same_progress v w \<longleftrightarrow> evaluated v = evaluated w \<and> windowPlugins v = windowPlugins w \<and>
     initializedPlugins v = initializedPlugins w \<and> announced v = announced w"

lemma fetch_follows_plan:
  assumes "answered (fetchWithRetry (list_ok env)) \<noteq> None" and "loading_plan env settings = Inr (marked, is)"
  shows "\<exists>v. same_progress v w \<and> pluginSettings v = marked \<and>
    fetchAndExecutePlugins env settings w =
      chain (for_each (runPlugin env) is) (\<lambda>_. afterPluginsRun (filter loaded marked)) v"
proof -
  obtain packs srcs infos where p: "all_or_error (package_info_of env) (listed env) = Inr packs"
    and s: "all_or_error (source_of env) (listed env) = Inr srcs"
    and m: "marked = map (with_compatibility env) (applyPluginPriority (updateSettingsPackages packs settings))"
    and i: "all_or_error (info_of env (listed env) packs srcs) (filter (to_execute env) marked) = Inr infos"
    and runs: "is = js_sort args_first (List.map_filter (\<lambda>info. info) infos)"
    using assms(2) by (auto simp: loading_plan_def Let_def split: sum.splits)
  let ?updated = "applyPluginPriority (updateSettingsPackages packs settings)"
  let ?warn = "\<lambda>w. if incompatible_plugins env ?updated = [] then w
     else w\<lparr>warnings := warnings w @ [incompatible_plugins env ?updated]\<rparr>"
  let ?v = "setPluginSettings marked (?warn (setPluginSettings ?updated w))"
  have "fetchAndExecutePlugins env settings w =
      chain (for_each (runPlugin env) is) (\<lambda>_. afterPluginsRun (filter loaded marked)) ?v"
    using assms(1) by (simp add: fetchAndExecutePlugins_def Let_def chain_def demand_def lift_sum_def change_def p s i
        runs m [symmetric])
  moreover have "same_progress ?v w \<and> pluginSettings ?v = marked"
    by (simp add: same_progress_def setPluginSettings_def)
  ultimately show ?thesis by blast
qed

lemma fetch_gives_up:
  assumes "fetchAndExecutePlugins env settings w = (r, w')"
    and "answered (fetchWithRetry (list_ok env)) = None \<or> (\<nexists>p. loading_plan env settings = Inr p)"
  shows "same_progress w' w"
proof -
  have "same_progress (setPluginSettings ps w) w \<longleftrightarrow> True" for ps w by (simp add: same_progress_def setPluginSettings_def)
  with assms show ?thesis
    by (auto simp: fetchAndExecutePlugins_def loading_plan_def Let_def chain_def demand_def lift_sum_def change_def
        same_progress_def setPluginSettings_def split: sum.splits if_splits)
qed

lemma fetch_evaluates:
  assumes "fetchAndExecutePlugins env settings w = (r, w')" and "evaluated w = []"
  shows "evaluated w' = [] \<or>
    (\<exists>is k. loading_plan env settings = Inr (pluginSettings w', is) \<and> evaluated w' = take k is)"
proof (cases "answered (fetchWithRetry (list_ok env)) = None \<or> (\<nexists>p. loading_plan env settings = Inr p)")
  case True
  then show ?thesis using fetch_gives_up [OF assms(1)] assms(2) by (simp add: same_progress_def)
next
  case False
  then obtain marked "is" where plan: "loading_plan env settings = Inr (marked, is)" by auto
  have "answered (fetchWithRetry (list_ok env)) \<noteq> None" using False by simp
  from fetch_follows_plan [OF this plan, of w] obtain v where v: "same_progress v w" "pluginSettings v = marked"
    "fetchAndExecutePlugins env settings w =
      chain (for_each (runPlugin env) is) (\<lambda>_. afterPluginsRun (filter loaded marked)) v"
    by blast
  obtain q u where u: "for_each (runPlugin env) is v = (q, u)" by fastforce
  from run_prefix [OF this] obtain k where k: "evaluated u = evaluated v @ take k is" "pluginSettings u = pluginSettings v"
    by blast
  have "evaluated w' = evaluated u \<and> pluginSettings w' = pluginSettings u"
    using v(3) assms(1) u
    by (cases q) (auto simp: chain_def afterPluginsRun_def change_def initializePlugins_def)
  then have "evaluated w' = take k is" "pluginSettings w' = marked"
    using k v(1,2) assms(2) by (simp_all add: same_progress_def)
  with plan show ?thesis by blast
qed

lemma plan_infos:
  assumes "loading_plan env settings = Inr (marked, is)"
  shows "distinct (map ri_name is)" and "sorted (map args_key is)"
    and "i \<in> set is \<Longrightarrow> \<exists>p \<in> set marked. to_execute env p \<and> runs_source env p i \<and>
         satisfies env (plugin_dependency p) compatible_range"
proof -
  obtain packs srcs infos where
    packs: "list_all2 (\<lambda>m y. package_info_of env m = Inr y) (listed env) packs"
    and srcs: "list_all2 (\<lambda>m y. source_of env m = Inr y) (listed env) srcs"
    and m: "marked = map (with_compatibility env) (applyPluginPriority (updateSettingsPackages packs settings))"
    and i: "list_all2 (\<lambda>p y. info_of env (listed env) packs srcs p = Inr y) (filter (to_execute env) marked) infos"
    and runs: "is = sort_key args_key (List.map_filter (\<lambda>info. info) infos)"
    using assms by (auto simp: loading_plan_def Let_def args_sort all_or_error_Inr split: sum.splits)
  let ?go = "\<lambda>p. to_execute env (with_compatibility env p)"
  let ?ps = "applyPluginPriority (updateSettingsPackages packs settings)"
  have "map p_name (filter (to_execute env) marked) = map p_name (filter ?go (filter loaded ?ps))"
    by (auto simp: m filter_map comp_def with_compatibility_def to_execute_def intro!: arg_cong [of _ _ "map _"] filter_cong)
  moreover have "distinct (map p_name (filter ?go (filter loaded ?ps)))"
    by (rule distinct_map_filter) (rule loaded_names_distinct)
  ultimately have "distinct (map p_name (filter (to_execute env) marked))" by metis
  note names = infos_names [OF i this]
  have "distinct (map ri_name (js_sort args_first (List.map_filter (\<lambda>info. info) infos)))"
    using names by simp
  then show "distinct (map ri_name is)" by (simp add: runs args_sort)
  show "sorted (map args_key is)" by (simp add: runs)
  show "\<exists>p \<in> set marked. to_execute env p \<and> runs_source env p i \<and>
      satisfies env (plugin_dependency p) compatible_range" if "i \<in> set is"
  proof -
    from that have "i \<in> set (List.map_filter (\<lambda>info. info) infos)" by (simp add: runs)
    from infos_from [OF i this] obtain p where
      p: "p \<in> set marked" "to_execute env p" "info_of env (listed env) packs srcs p = Inr (Some i)" by auto
    from p(1) m obtain q where "p = with_compatibility env q" by auto
    then have "isCompatible p = Some (satisfies env (plugin_dependency p) compatible_range)"
      by (simp add: with_compatibility_def plugin_dependency_def)
    with p info_of_runs [OF packs srcs p(3)] show ?thesis by (auto simp: to_execute_def)
  qed
qed

text \<open>C16: However loading ends, at most one version of each plugin has been evaluated, those that
  get secrets before all others, so that no other plugin has run yet that could listen in.
  Each of them was chosen: it belongs to a version that the saved settings mark as loaded,
  compatible and, in the app, not switched off, whose declared dependency is in the range the
  application accepts; and what was evaluated is the source served in the folder of the listed
  plugin of this name and this type.\<close>

theorem executed_plugins_were_chosen:
  assumes "fetchAndExecutePlugins env settings w = (r, w')" and "evaluated w = []"
  shows "distinct (map ri_name (evaluated w')) \<and>
    sorted_wrt (\<lambda>a b. ri_args b \<noteq> [] \<and> ri_values b \<noteq> [] \<longrightarrow> ri_args a \<noteq> [] \<and> ri_values a \<noteq> []) (evaluated w') \<and>
    (\<forall>i \<in> set (evaluated w'). \<exists>p \<in> set (pluginSettings w').
       isLoaded p = Some True \<and> isCompatible p = Some True \<and> (electron env \<longrightarrow> isEnabled p \<noteq> Some False) \<and>
       satisfies env (plugin_dependency p) ''>=0.8.0-alpha.3'' \<and> runs_source env p i)"
proof (cases "evaluated w' = []")
  case False
  with fetch_evaluates [OF assms] obtain "is" k where
    p: "loading_plan env settings = Inr (pluginSettings w', is)" and e: "evaluated w' = take k is" by blast
  note plan = plan_infos [OF p]
  have "distinct (take k (map ri_name is))" using plan(1) by (rule distinct_take)
  moreover have "sorted (take k (map args_key is))" using plan(2) by (rule sorted_wrt_take)
  then have "sorted_wrt (\<lambda>a b. ri_args b \<noteq> [] \<and> ri_values b \<noteq> [] \<longrightarrow> ri_args a \<noteq> [] \<and> ri_values a \<noteq> []) (take k is)"
    unfolding take_map sorted_map
    by (rule sorted_wrt_mono_rel [rotated]) (auto simp: args_key_def has_args_def split: if_splits)
  moreover have "\<exists>p \<in> set (pluginSettings w').
       isLoaded p = Some True \<and> isCompatible p = Some True \<and> (electron env \<longrightarrow> isEnabled p \<noteq> Some False) \<and>
       satisfies env (plugin_dependency p) ''>=0.8.0-alpha.3'' \<and> runs_source env p i" if "i \<in> set (take k is)" for i
    using plan(3) [OF in_set_takeD [OF that]] by (auto simp: to_execute_def compatible_range_def)
  ultimately show ?thesis by (simp add: e take_map)
qed simp


text \<open>A backend with the given plugins, each in a folder of its name; the source of a plugin is its
  path, and the plugin \<open>broken\<close> does not compile.\<close>

definition sample_load :: "(string \<times> plugin_type \<times> string) list \<Rightarrow> load_env" where
  "sample_load ps =
    \<lparr>electron = True, dev_mode = False, list_ok = (\<lambda>k. 2 \<le> k),
     listed = map (\<lambda>(n, t, v). \<lparr>m_path = ''plugins/'' @ n, m_type = t, m_name = n\<rparr>) ps,
     package_json = (\<lambda>path. case List.find (\<lambda>(n, t, v). ''plugins/'' @ n = path) ps of
         None \<Rightarrow> Missing_Package
       | Some (n, t, v) \<Rightarrow>
           Package ((sample_plugin n t)\<lparr>isEnabled := None, devDependencies := Some [(headlamp_plugin, v)]\<rparr>)),
     main_js = (\<lambda>path. Some path),
     satisfies = (\<lambda>d range. d = Some ''^0.13.0''),
     app_secrets = [],
     evaluate = (\<lambda>source names. if starts_with source ''plugins/broken'' then Not_Compiled
       else Evaluated [(takeWhile (\<lambda>c. c \<noteq> char_of (10 :: nat)) source, True)] False)\<rparr>"

theorem executed_plugins_were_chosen_witness:
  "map ri_name (evaluated (snd (fetchAndExecutePlugins (sample_load [(''good'', User, ''^0.13.0'')]) [] (fresh_world No_Item)))) =
     [''good''] \<and>
   (\<exists>p \<in> set (pluginSettings (snd (fetchAndExecutePlugins (sample_load [(''good'', User, ''^0.13.0'')]) [] (fresh_world No_Item)))).
      p_name p = ''good'' \<and> isLoaded p = Some True)"
proof -
  let ?env = "sample_load [(''good'', User, ''^0.13.0'')]"
  let ?w = "snd (fetchAndExecutePlugins ?env [] (fresh_world No_Item))"
  have n: "map ri_name (evaluated ?w) = [''good'']" by code_simp
  then obtain i where i: "i \<in> set (evaluated ?w)" "ri_name i = ''good''" by auto
  have e: "evaluated (fresh_world No_Item) = []" by code_simp
  have run: "fetchAndExecutePlugins ?env [] (fresh_world No_Item) =
      (fst (fetchAndExecutePlugins ?env [] (fresh_world No_Item)), ?w)" by simp
  from executed_plugins_were_chosen [OF run e] i(1) obtain p where
    "p \<in> set (pluginSettings ?w)" "isLoaded p = Some True" "runs_source ?env p i" by blast
  then have "\<exists>p \<in> set (pluginSettings ?w). p_name p = ''good'' \<and> isLoaded p = Some True"
    using i(2) by (auto simp: runs_source_def)
  with n show ?thesis by blast
qed

lemma uncompiled_run_fails:
  "i \<in> set is \<Longrightarrow> evaluate env (ri_source i) (ri_args i) = Not_Compiled \<Longrightarrow>
    \<exists>u. for_each (runPlugin env) is v = (Inl Syntax_Error, u)"
proof (induction "is" arbitrary: v)
  case (Cons j "is")
  show ?case
  proof (cases "evaluate env (ri_source j) (ri_args j)")
    case Not_Compiled
    then show ?thesis by (simp add: chain_def runPlugin_def throw_error_def)
  next
    case (Evaluated regs threw)
    with Cons.prems have "i \<in> set is" by auto
    from Cons.IH [OF this Cons.prems(2)] Evaluated show ?thesis by (simp add: chain_def runPlugin_def change_def)
  qed
qed simp

text \<open>One plugin whose source is not valid JavaScript blocks the others: the exception of the
  compiler is not caught, no plugin is initialized, those that were already evaluated neither,
  nothing is announced as loaded, and the user is told that loading failed.\<close>

theorem uncompiled_plugin_blocks_all:
  assumes "answered (fetchWithRetry (list_ok env)) \<noteq> None"
    and "loading_plan env (pluginSettings w) = Inr (marked, is)"
    and "i \<in> set is" and "evaluate env (ri_source i) (ri_args i) = Not_Compiled"
  shows "failureShown (start_plugins env w) \<and>
    initializedPlugins (start_plugins env w) = initializedPlugins w \<and>
    announced (start_plugins env w) = announced w"
proof -
  from fetch_follows_plan [OF assms(1,2), of w] obtain v where v: "same_progress v w"
    "fetchAndExecutePlugins env (pluginSettings w) w =
      chain (for_each (runPlugin env) is) (\<lambda>_. afterPluginsRun (filter loaded marked)) v"
    by blast
  obtain u where u: "for_each (runPlugin env) is v = (Inl Syntax_Error, u)"
    using uncompiled_run_fails [OF assms(3,4), of v] by blast
  with v(2) have "fetchAndExecutePlugins env (pluginSettings w) w = (Inl Syntax_Error, u)"
    by (simp add: chain_def)
  then have "start_plugins env w = u\<lparr>failureShown := True, pluginsLoaded := True\<rparr>"
    by (simp add: start_plugins_def)
  with run_prefix [OF u] v(1) show ?thesis by (auto simp: same_progress_def)
qed

theorem uncompiled_plugin_blocks_all_witness:
  "let env = sample_load [(''good'', User, ''^0.13.0''), (''broken'', User, ''^0.13.0'')]
   in windowPlugins (start_plugins env (fresh_world No_Item)) = [(''plugins/good'', True)] \<and>
      initializedPlugins (start_plugins env (fresh_world No_Item)) = []"
proof -
  let ?env = "sample_load [(''good'', User, ''^0.13.0''), (''broken'', User, ''^0.13.0'')]"
  let ?w = "fresh_world No_Item"
  let ?p = "loading_plan ?env (pluginSettings ?w)"
  let ?is = "case ?p of Inr (m, is) \<Rightarrow> is | _ \<Rightarrow> []"
  have "answered (fetchWithRetry (list_ok ?env)) \<noteq> None" by code_simp
  moreover have "?p = Inr (case ?p of Inr (m, is) \<Rightarrow> m | _ \<Rightarrow> [], ?is)" by code_simp
  moreover have "?is ! 1 \<in> set ?is" by code_simp
  moreover have "evaluate ?env (ri_source (?is ! 1)) (ri_args (?is ! 1)) = Not_Compiled" by code_simp
  ultimately have "initializedPlugins (start_plugins ?env ?w) = initializedPlugins ?w"
    using uncompiled_plugin_blocks_all by blast
  moreover have "initializedPlugins ?w = []" by code_simp
  moreover have "windowPlugins (start_plugins ?env ?w) = [(''plugins/good'', True)]" by code_simp
  ultimately show ?thesis by (simp add: Let_def)
qed

text \<open>A plugin that was built anew for the current version but keeps its version number stays
  disabled as incompatible: when names, types and versions are as stored, the stored package
  is judged, not the one that was just fetched. With a new version number it runs.\<close>

theorem rebuilt_plugin_stays_incompatible:
  "let first = start_plugins (sample_load [(''p'', Development, ''^0.6.0'')]) (fresh_world No_Item);
       rebuilt = sample_load [(''p'', Development, ''^0.13.0'')];
       next = start_plugins rebuilt (reloadPage first)
   in evaluated first = [] \<and> evaluated next = [] \<and> map dict_keys (warnings next) = [[''p@development'']] \<and>
      map ri_name (evaluated (start_plugins rebuilt (fresh_world No_Item))) = [''p'']"
  by code_simp

text \<open>Settings that were stored before versions had a type do not keep a plugin switched off:
  no stored entry matches the version that the backend names, so it counts as new and runs.\<close>

theorem settings_without_type_are_lost:
  assumes "\<forall>s \<in> set settings. p_type s = None" and "found \<noteq> []" and "\<forall>p \<in> set found. p_type p \<noteq> None"
    and "length found = length settings \<longrightarrow> joined found \<noteq> joined settings"
    and "p \<in> set (updateSettingsPackages found settings)"
  shows "isEnabled p = Some True"
proof -
  have "List.find (same_plugin q) settings = None" if "q \<in> set found" for q
    using assms(1,3) that by (fastforce simp: find_None_iff same_plugin_def)
  with assms(2,4,5) show ?thesis
    by (auto simp: updateSettingsPackages_def merge_setting_def split: if_splits)
qed

theorem settings_without_type_are_lost_witness:
  "map isEnabled (updateSettingsPackages [sample_plugin ''a'' User]
     [(sample_plugin ''a'' User)\<lparr>p_type := None, isEnabled := Some False\<rparr>]) = [Some True]"
proof -
  let ?found = "[sample_plugin ''a'' User]"
  let ?old = "[(sample_plugin ''a'' User)\<lparr>p_type := None, isEnabled := Some False\<rparr>]"
  have "length ?found = length ?old \<longrightarrow> joined ?found \<noteq> joined ?old" by code_simp
  then have "isEnabled p = Some True" if "p \<in> set (updateSettingsPackages ?found ?old)" for p
    using settings_without_type_are_lost [of ?old ?found p] that by (simp add: sample_plugin_def)
  moreover have "length (updateSettingsPackages ?found ?old) = 1" by code_simp
  ultimately show ?thesis by (cases "updateSettingsPackages ?found ?old") auto
qed

end
