(* ===== verification/Requests.thy ===== *)
theory Requests
  imports Urls Stateless Effects
begin

text \<open>
  Requests to the backend: \<^verbatim>\<open>v1/clusterRequests.ts\<close> and \<^verbatim>\<open>v2/fetch.ts\<close> (cluster, kubeconfig,
  headers, errors), the clients of API endpoints that try several versions (\<^verbatim>\<open>v1/factories.ts\<close>),
  \<^verbatim>\<open>v1/apply.ts\<close>, \<^verbatim>\<open>v1/scaleApi.ts\<close>, the cluster in the address (\<^verbatim>\<open>lib/cluster.ts\<close>) and the
  calls about clusters of \<^verbatim>\<open>v1/clusterApi.ts\<close>. A request runs to its end before the next one
  starts. The constant \<open>JSON_HEADERS\<close> is one object that several calls pass on, so the model keeps
  it in the state and headers are references. What the server answers is given from outside.
\<close>

section \<open>State and environment\<close>

type_synonym header_dict = "(string, string) dict"

text \<open>A header object: the shared constant, or one of its own.\<close>

datatype header_ref = Json_Headers | Own_Headers header_dict

text \<open>The body of a request: an object of Kubernetes, with the fields that the code reads, or any
  other JSON value.\<close>

record kube_body =
  kb_kind :: string
  kb_apiVersion :: string
  kb_name :: string
  kb_namespace :: "string option"
  kb_resourceVersion :: "string option"
  kb_rest :: json

datatype req_body = No_Body | Kube kube_body | Json_Body json

record http_request =
  rq_url :: string
  rq_method :: string
  rq_body :: req_body
  rq_headers :: header_dict

record http_response =
  rs_status :: nat
  rs_statusText :: string
  rs_reload :: "string option"
  rs_text :: string

text \<open>\<open>fetch\<close> fails, is aborted by the timeout, or answers.\<close>

datatype fetch_result = Network_Error | Abort_Error | Answer http_response

record http_world =
  json_headers :: header_dict
  kubeconfigs :: "string kc_store"
  sent_requests :: "http_request list"
  reloads :: nat
  logged_out :: "string list"

record http_env =
  app_url :: string
  user_id :: string
  backstage :: bool
  backstage_token :: "string option"
  backend_token :: "string option"
  load_kubeconfig :: "string \<Rightarrow> kubeconfig option"
  current_cluster :: "string option"
  server :: "http_request list \<Rightarrow> http_request \<Rightarrow> fetch_result"
  parse_json :: "string \<Rightarrow> json option"

text \<open>An error has a message and perhaps a status; \<open>Stuck\<close> is a promise that never settles.\<close>

datatype http_error = Http_Error string "nat option" | Stuck

type_synonym 'a http = "(http_world, http_error, 'a) eff"

definition find_kubeconfig :: "http_env \<Rightarrow> string \<Rightarrow> string option \<Rightarrow> string option http" where
  "find_kubeconfig env cluster clusterID w =
    (case findKubeconfigByClusterName (load_kubeconfig env) cluster clusterID (kubeconfigs w) of
       Resolved r \<Rightarrow> (Inr r, w)
     | Rejected_With m \<Rightarrow> (Inl (Http_Error m None), w)
     | Never \<Rightarrow> (Inl Stuck, w))"

definition addBackstageAuthHeaders :: "http_env \<Rightarrow> header_dict \<Rightarrow> header_dict" where
  "addBackstageAuthHeaders env h = (case backstage_token env of
     None \<Rightarrow> h | Some t \<Rightarrow> if t = [] then h else dict_set ''X-BACKSTAGE-TOKEN'' t h)"

definition getHeadlampAPIHeaders :: "http_env \<Rightarrow> header_dict" where
  "getHeadlampAPIHeaders env = (case backend_token env of None \<Rightarrow> [] | Some t \<Rightarrow> [(''X-K8SENSE-BACKEND-TOKEN'', t)])"

section \<open>clusterRequests.ts\<close>

record request_params =
  p_method :: "string option"
  p_body :: "req_body option"
  p_headers :: "header_ref option"
  p_cluster :: "string option"
  p_autoLogout :: "bool option"
  p_isJSON :: "bool option"

definition no_params :: request_params where
  "no_params = \<lparr>p_method = None, p_body = None, p_headers = None, p_cluster = None, p_autoLogout = None, p_isJSON = None\<rparr>"

definition spread_params :: "request_params \<Rightarrow> request_params \<Rightarrow> request_params" where
  "spread_params a b =
    \<lparr>p_method = pick (p_method a) (p_method b), p_body = pick (p_body a) (p_body b),
     p_headers = pick (p_headers a) (p_headers b), p_cluster = pick (p_cluster a) (p_cluster b),
     p_autoLogout = pick (p_autoLogout a) (p_autoLogout b), p_isJSON = pick (p_isJSON a) (p_isJSON b)\<rparr>"

text \<open>The value that a request resolves to.\<close>

datatype result_value = Value json | Whole http_response

definition headers_of :: "header_ref \<Rightarrow> http_world \<Rightarrow> header_dict" where
  "headers_of r w = (case r of Json_Headers \<Rightarrow> json_headers w | Own_Headers h \<Rightarrow> h)"

text \<open>\<open>opts.headers[...] = ...\<close> changes the object that the caller passed.\<close>

definition write_headers :: "(header_dict \<Rightarrow> header_dict) \<Rightarrow> header_ref \<Rightarrow> header_ref http" where
  "write_headers f r w = (case r of
     Json_Headers \<Rightarrow> (Inr Json_Headers, w\<lparr>json_headers := f (json_headers w)\<rparr>)
   | Own_Headers h \<Rightarrow> (Inr (Own_Headers (f h)), w))"

definition with_kubeconfig :: "http_env \<Rightarrow> string \<Rightarrow> header_dict \<Rightarrow> header_dict" where
  "with_kubeconfig env k h = dict_set ''X-K8SENSE-USER-ID'' (user_id env) (dict_set ''KUBECONFIG'' k h)"

definition unreachable :: http_response where
  "unreachable = \<lparr>rs_status = 502, rs_statusText = ''Unreachable'', rs_reload = None, rs_text = []\<rparr>"

definition timed_out :: http_response where
  "timed_out = \<lparr>rs_status = 408, rs_statusText = ''Request timed-out'', rs_reload = None, rs_text = []\<rparr>"

definition send :: "http_env \<Rightarrow> http_request \<Rightarrow> fetch_result http" where
  "send env rq w = (Inr (server env (sent_requests w) rq), w\<lparr>sent_requests := sent_requests w @ [rq]\<rparr>)"

definition rs_ok :: "http_response \<Rightarrow> bool" where
  "rs_ok r \<longleftrightarrow> 200 \<le> rs_status r \<and> rs_status r \<le> 299"

definition wants_reload :: "http_response \<Rightarrow> bool" where
  "wants_reload r \<longleftrightarrow> (case rs_reload r of None \<Rightarrow> False | Some h \<Rightarrow> str_includes h ''reload'')"

definition reload_if :: "http_response \<Rightarrow> unit http" where
  "reload_if r = change (\<lambda>w. if wants_reload r then w\<lparr>reloads := Suc (reloads w)\<rparr> else w)"

text \<open>\<open>` - ${json.message}`\<close>, which throws on \<open>null\<close>.\<close>

definition property_text :: "json option \<Rightarrow> string" where
  "property_text v = (case v of None \<Rightarrow> ''undefined'' | Some j \<Rightarrow> json_str j)"

definition error_message :: "http_env \<Rightarrow> bool \<Rightarrow> http_response \<Rightarrow> string" where
  "error_message env isJSON r =
    (if isJSON
     then (case parse_json env (rs_text r) of
         None \<Rightarrow> rs_statusText r
       | Some j \<Rightarrow> (case jprop j ''message'' of
           Inl _ \<Rightarrow> rs_statusText r
         | Inr m \<Rightarrow> rs_statusText r @ '' - '' @ property_text m))
     else if rs_text r = [] then rs_statusText r
     else (case parse_json env (rs_text r) of
         None \<Rightarrow> rs_statusText r @ '' - '' @ rs_text r
       | Some j \<Rightarrow> (case jprop j ''message'' of
           Inl _ \<Rightarrow> rs_statusText r @ '' - '' @ rs_text r
         | Inr m \<Rightarrow> rs_statusText r @ '' - '' @ (if jtruthy m then property_text m else rs_text r))))"

definition json_result :: "http_env \<Rightarrow> http_response \<Rightarrow> http_error + result_value" where
  "json_result env r = (case parse_json env (rs_text r) of
     None \<Rightarrow> Inl (Http_Error ''SyntaxError'' None) | Some j \<Rightarrow> Inr (Value j))"

definition clusterRequest :: "http_env \<Rightarrow> string \<Rightarrow> request_params \<Rightarrow> query_parameters option \<Rightarrow> result_value http" where
  "clusterRequest env path params query =
    (let cluster = or_else (p_cluster params) [];
         autoLogout = (p_autoLogout params \<noteq> Some False);
         isJSON = (p_isJSON params \<noteq> Some False);
         headers = (case p_headers params of None \<Rightarrow> Own_Headers [] | Some h \<Rightarrow> h)
     in chain (if cluster = [] then give headers
          else chain (find_kubeconfig env cluster None) (\<lambda>found.
            case found of None \<Rightarrow> give headers
              | Some k \<Rightarrow> write_headers (with_kubeconfig env k) headers)) (\<lambda>headers.
        let fullPath = (if cluster = [] then path else combinePath (''/clusters/'' @ cluster) path);
            url = combinePath (app_url env) fullPath @ asQuery query
        in chain (observe (\<lambda>w. give (headers_of headers w))) (\<lambda>h.
           chain (send env \<lparr>rq_url = url, rq_method = or_else (p_method params) ''GET'',
                rq_body = (case p_body params of None \<Rightarrow> No_Body | Some b \<Rightarrow> b),
                rq_headers = (if backstage env then addBackstageAuthHeaders env h else h)\<rparr>) (\<lambda>fetched.
           let r = (case fetched of Network_Error \<Rightarrow> unreachable | Abort_Error \<Rightarrow> timed_out | Answer a \<Rightarrow> a)
           in chain (reload_if r) (\<lambda>_.
              if \<not> rs_ok r
              then chain (change (\<lambda>w. if autoLogout \<and> rs_status r = 401 \<and> truthy (dict_get h ''Authorization'')
                                      then w\<lparr>logged_out := logged_out w @ [cluster]\<rparr> else w)) (\<lambda>_.
                   throw_error (Http_Error (error_message env isJSON r) (Some (rs_status r))))
              else if \<not> isJSON then give (Whole r)
              else lift_sum (json_result env r))))))"

definition request :: "http_env \<Rightarrow> string \<Rightarrow> request_params \<Rightarrow> bool \<Rightarrow> bool \<Rightarrow> query_parameters option \<Rightarrow> result_value http" where
  "request env path params autoLogout useCluster query =
    (let cluster = (if useCluster then or_else (current_cluster env) [] else [])
     in clusterRequest env path
          (spread_params (no_params\<lparr>p_cluster := Some cluster, p_autoLogout := Some autoLogout\<rparr>) params) query)"

definition named_or_current :: "http_env \<Rightarrow> string option \<Rightarrow> string" where
  "named_or_current env name = or_else name (or_else (current_cluster env) [])"

definition post :: "http_env \<Rightarrow> string \<Rightarrow> req_body \<Rightarrow> bool \<Rightarrow> request_params \<Rightarrow> result_value http" where
  "post env url body autoLogout options =
    clusterRequest env url (spread_params
      \<lparr>p_method = Some ''POST'', p_body = Some body, p_headers = Some Json_Headers,
       p_cluster = Some (named_or_current env (p_cluster options)), p_autoLogout = Some autoLogout, p_isJSON = None\<rparr>
      (options\<lparr>p_cluster := None\<rparr>)) None"

text \<open>The two patches copy the shared headers as they are at that moment.\<close>

definition patch_as :: "string \<Rightarrow> http_env \<Rightarrow> string \<Rightarrow> req_body \<Rightarrow> bool \<Rightarrow> request_params \<Rightarrow> result_value http" where
  "patch_as contentType env url body autoLogout options =
    observe (\<lambda>w. clusterRequest env url (spread_params
      \<lparr>p_method = Some ''PATCH'', p_body = Some body,
       p_headers = Some (Own_Headers (dict_set ''Content-Type'' contentType (json_headers w))),
       p_cluster = Some (named_or_current env (p_cluster options)), p_autoLogout = Some autoLogout, p_isJSON = None\<rparr>
      (options\<lparr>p_cluster := None\<rparr>)) None)"

definition patch :: "http_env \<Rightarrow> string \<Rightarrow> req_body \<Rightarrow> bool \<Rightarrow> request_params \<Rightarrow> result_value http" where
  "patch = patch_as ''application/merge-patch+json''"

definition jsonPatch :: "http_env \<Rightarrow> string \<Rightarrow> req_body \<Rightarrow> bool \<Rightarrow> request_params \<Rightarrow> result_value http" where
  "jsonPatch = patch_as ''application/json-patch+json''"

definition put :: "http_env \<Rightarrow> string \<Rightarrow> req_body \<Rightarrow> bool \<Rightarrow> request_params \<Rightarrow> result_value http" where
  "put env url body autoLogout options =
    clusterRequest env url (spread_params
      \<lparr>p_method = Some ''PUT'', p_body = Some body, p_headers = Some Json_Headers,
       p_cluster = Some (named_or_current env (p_cluster options)), p_autoLogout = Some autoLogout, p_isJSON = None\<rparr>
      (options\<lparr>p_cluster := None\<rparr>)) None"

definition remove :: "http_env \<Rightarrow> string \<Rightarrow> request_params \<Rightarrow> result_value http" where
  "remove env url options =
    clusterRequest env url (spread_params
      \<lparr>p_method = Some ''DELETE'', p_body = None, p_headers = Some Json_Headers,
       p_cluster = Some (named_or_current env (p_cluster options)), p_autoLogout = None, p_isJSON = None\<rparr>
      (options\<lparr>p_cluster := None\<rparr>)) None"

section \<open>v2/fetch.ts\<close>

text \<open>Here the headers are copied before anything is set.\<close>

definition api_error_message :: "http_env \<Rightarrow> http_response \<Rightarrow> string" where
  "api_error_message env r = (case parse_json env (rs_text r) of
     None \<Rightarrow> ''Unreachable''
   | Some (JStr s) \<Rightarrow> s
   | Some j \<Rightarrow> (case jprop j ''message'' of
       Inl _ \<Rightarrow> ''Unreachable'' | Inr None \<Rightarrow> ''Unreachable'' | Inr (Some JNull) \<Rightarrow> ''Unreachable''
     | Inr (Some m) \<Rightarrow> json_str m))"

definition backendFetch :: "http_env \<Rightarrow> string \<Rightarrow> string \<Rightarrow> req_body \<Rightarrow> header_dict \<Rightarrow> http_response http" where
  "backendFetch env url method body headers =
    chain (send env \<lparr>rq_url = makeUrl (Inr [app_url env, url]) [], rq_method = method, rq_body = body,
                     rq_headers = addBackstageAuthHeaders env headers\<rparr>) (\<lambda>fetched.
    case fetched of
      Network_Error \<Rightarrow> throw_error (Http_Error ''Failed to fetch'' None)
    | Abort_Error \<Rightarrow> throw_error (Http_Error ''Aborted'' None)
    | Answer r \<Rightarrow> chain (reload_if r) (\<lambda>_.
        if rs_ok r then give r else throw_error (Http_Error (api_error_message env r) (Some (rs_status r)))))"

definition clusterFetch :: "http_env \<Rightarrow> string \<Rightarrow> string \<Rightarrow> req_body \<Rightarrow> header_dict \<Rightarrow> string \<Rightarrow> http_response http" where
  "clusterFetch env url method body headers cluster =
    chain (find_kubeconfig env cluster None) (\<lambda>found.
      let h = (case found of None \<Rightarrow> headers | Some k \<Rightarrow> with_kubeconfig env k headers);
          urlParts = (if cluster = [] then [url] else [''clusters'', cluster, url])
      in backendFetch env (makeUrl (Inr urlParts) []) method body h)"

section \<open>factories.ts: clients of API endpoints\<close>

record api_endpoint =
  ep_group :: string
  ep_version :: string
  ep_resource :: string
  ep_namespaced :: bool

definition ep_root :: "api_endpoint \<Rightarrow> string" where
  "ep_root ep = getApiRoot (ep_group ep) (ep_version ep)"

definition ep_url :: "api_endpoint \<Rightarrow> string option \<Rightarrow> string" where
  "ep_url ep namespace =
    (if ep_namespaced ep \<and> truthy namespace
     then ep_root ep @ ''/namespaces/'' @ or_else namespace [] @ ''/'' @ ep_resource ep
     else ep_root ep @ ''/'' @ ep_resource ep)"

definition in_cluster :: "string option \<Rightarrow> request_params" where
  "in_cluster cluster = no_params\<lparr>p_cluster := cluster\<rparr>"

definition ep_post :: "http_env \<Rightarrow> api_endpoint \<Rightarrow> kube_body \<Rightarrow> query_parameters option \<Rightarrow> string option \<Rightarrow> result_value http" where
  "ep_post env ep body query cluster =
    post env (ep_url ep (kb_namespace body) @ asQuery query) (Kube body) True (in_cluster cluster)"

definition ep_put :: "http_env \<Rightarrow> api_endpoint \<Rightarrow> kube_body \<Rightarrow> query_parameters option \<Rightarrow> string option \<Rightarrow> result_value http" where
  "ep_put env ep body query cluster =
    put env (ep_url ep (kb_namespace body) @ ''/'' @ kb_name body @ asQuery query) (Kube body) True (in_cluster cluster)"

definition pretty :: "query_parameters option \<Rightarrow> query_parameters option" where
  "pretty query = Some (dict_set ''pretty'' (PStr ''true'') (case query of None \<Rightarrow> [] | Some q \<Rightarrow> q))"

definition ep_patch :: "http_env \<Rightarrow> api_endpoint \<Rightarrow> json \<Rightarrow> string option \<Rightarrow> string \<Rightarrow> query_parameters option \<Rightarrow> string option \<Rightarrow> result_value http" where
  "ep_patch env ep body namespace name query cluster =
    patch env (ep_url ep namespace @ ''/'' @ name @ asQuery (pretty query)) (Json_Body body) True (in_cluster cluster)"

definition ep_jsonPatch :: "http_env \<Rightarrow> api_endpoint \<Rightarrow> json \<Rightarrow> string option \<Rightarrow> string \<Rightarrow> query_parameters option \<Rightarrow> string option \<Rightarrow> result_value http" where
  "ep_jsonPatch env ep body namespace name query cluster =
    jsonPatch env (ep_url ep namespace @ ''/'' @ name @ asQuery (pretty query)) (Json_Body body) True (in_cluster cluster)"

definition ep_delete :: "http_env \<Rightarrow> api_endpoint \<Rightarrow> string option \<Rightarrow> string \<Rightarrow> query_parameters option \<Rightarrow> string option \<Rightarrow> result_value http" where
  "ep_delete env ep namespace name query cluster =
    remove env (ep_url ep namespace @ ''/'' @ name @ asQuery query) (in_cluster cluster)"

text \<open>Trying one endpoint after the other: an error with status 404 goes on to the next one, any
  other outcome is the outcome. Without endpoints the promise resolves to \<open>undefined\<close>.\<close>

fun repeatFactoryMethod :: "(api_endpoint \<Rightarrow> 'a http) \<Rightarrow> api_endpoint list \<Rightarrow> 'a option http" where
  "repeatFactoryMethod func [] = give None"
| "repeatFactoryMethod func (ep # eps) =
     handling (chain (func ep) (\<lambda>x. give (Some x)))
       (\<lambda>err. case err of
            Http_Error m s \<Rightarrow> if s = Some 404 \<and> eps \<noteq> [] then repeatFactoryMethod func eps else throw_error err
          | Stuck \<Rightarrow> throw_error Stuck)"

section \<open>scaleApi.ts\<close>

definition scale_url :: "api_endpoint \<Rightarrow> string \<Rightarrow> string \<Rightarrow> string" where
  "scale_url ep namespace name =
    ep_root ep @ ''/namespaces/'' @ namespace @ ''/'' @ ep_resource ep @ ''/'' @ name @ ''/scale''"

definition scale_get :: "http_env \<Rightarrow> api_endpoint \<Rightarrow> string \<Rightarrow> string \<Rightarrow> string option \<Rightarrow> result_value http" where
  "scale_get env ep namespace name cluster =
    clusterRequest env (scale_url ep namespace name) (in_cluster (Some (named_or_current env cluster))) None"

definition replicas :: "int \<Rightarrow> json" where
  "replicas n = JObj [(''spec'', JObj [(''replicas'', JNum n)])]"

definition scale_patch :: "http_env \<Rightarrow> api_endpoint \<Rightarrow> int \<Rightarrow> string \<Rightarrow> string \<Rightarrow> string option \<Rightarrow> result_value http" where
  "scale_patch env ep n namespace name cluster =
    patch env (scale_url ep namespace name) (Json_Body (replicas n)) False (in_cluster (Some (named_or_current env cluster)))"

definition scale_put :: "http_env \<Rightarrow> api_endpoint \<Rightarrow> kube_body \<Rightarrow> string option \<Rightarrow> result_value http" where
  "scale_put env ep body cluster =
    put env (scale_url ep (case kb_namespace body of None \<Rightarrow> ''undefined'' | Some n \<Rightarrow> n) (kb_name body)) (Kube body) True
      (in_cluster (Some (named_or_current env cluster)))"

section \<open>The endpoint of a resource, and apply.ts\<close>

text \<open>\<open>const [apiGroup, apiVersion] = s.split('/')\<close>\<close>

definition group_and_version :: "string \<Rightarrow> http_error + string \<times> string" where
  "group_and_version apiVersion =
    (let parts = js_split ''/'' apiVersion;
         g = (case parts of [] \<Rightarrow> [] | a # _ \<Rightarrow> a); v = (case parts of a # b # _ \<Rightarrow> b | _ \<Rightarrow> []);
         (g', v') = (if g \<noteq> [] \<and> v = [] then ([], g) else (g, v))
     in if v' = [] then Inl (Http_Error (''apiVersion has no version string: '' @ apiVersion) None) else Inr (g', v'))"

text \<open>\<open>resources?.find(({ kind }) => kind === ...)\<close>: nothing on \<open>undefined\<close> and \<open>null\<close>; other values
  than lists, and \<open>null\<close> as an element, throw.\<close>

fun find_kind :: "string \<Rightarrow> json list \<Rightarrow> http_error + json option" where
  "find_kind k [] = Inr None"
| "find_kind k (r # rs) = (case jprop r ''kind'' of
     Inl _ \<Rightarrow> Inl (Http_Error ''TypeError'' None)
   | Inr v \<Rightarrow> if v = Some (JStr k) then Inr (Some r) else find_kind k rs)"

definition find_resource :: "string \<Rightarrow> json \<Rightarrow> http_error + json option" where
  "find_resource k apiResult = (case jprop apiResult ''resources'' of
     Inl _ \<Rightarrow> Inl (Http_Error ''TypeError'' None)
   | Inr None \<Rightarrow> Inr None
   | Inr (Some JNull) \<Rightarrow> Inr None
   | Inr (Some (JArr rs)) \<Rightarrow> find_kind k rs
   | Inr (Some _) \<Rightarrow> Inl (Http_Error ''TypeError'' None))"

definition resource_field :: "json \<Rightarrow> string \<Rightarrow> json option" where
  "resource_field r k = (case jprop r k of Inl _ \<Rightarrow> None | Inr v \<Rightarrow> v)"

definition resourceDefToApiFactory :: "http_env \<Rightarrow> kube_body \<Rightarrow> string option \<Rightarrow> api_endpoint http" where
  "resourceDefToApiFactory env def clusterName =
    chain (demand (kb_kind def \<noteq> []) (Http_Error ''Cannot handle unknown resource kind: '' None)) (\<lambda>_.
    chain (demand (kb_apiVersion def \<noteq> []) (Http_Error (''Definition '' @ kb_kind def @ '' has no apiVersion'') None)) (\<lambda>_.
    chain (lift_sum (group_and_version (kb_apiVersion def))) (\<lambda>(apiGroup, apiVersion).
    chain (clusterRequest env
        (''/'' @ (if apiGroup \<noteq> [] then ''apis'' else ''api'') @ ''/'' @ kb_apiVersion def)
        (no_params\<lparr>p_cluster := Some (named_or_current env clusterName), p_autoLogout := Some False\<rparr>) None) (\<lambda>result.
    case result of Whole _ \<Rightarrow> throw_error (Http_Error ''TypeError'' None)
    | Value apiResult \<Rightarrow>
      chain (demand (jtruthy (Some apiResult)) (Http_Error (''Unkown apiVersion: '' @ kb_apiVersion def) None)) (\<lambda>_.
      chain (lift_sum (find_resource (kb_kind def) apiResult)) (\<lambda>resource.
        case resource of
          None \<Rightarrow> throw_error (Http_Error (''Unkown resource kind: '' @ kb_kind def) None)
        | Some r \<Rightarrow> give \<lparr>ep_group = apiGroup, ep_version = apiVersion,
             ep_resource = property_text (resource_field r ''name''),
             ep_namespaced = jtruthy (resource_field r ''namespaced'')\<rparr>))))))"

text \<open>The default namespace: from the settings of the cluster, else from its configuration.\<close>

definition getClusterDefaultNamespace ::
    "(string \<Rightarrow> string option) \<Rightarrow> (string \<Rightarrow> string option) \<Rightarrow> string \<Rightarrow> bool option \<Rightarrow> string" where
  "getClusterDefaultNamespace settings config cluster checkSettings =
    (if cluster = [] then []
     else let d = (if checkSettings \<noteq> Some False then or_else (settings cluster) [] else [])
          in if d = [] then or_else (config cluster) [] else d)"

definition dry_run_query :: "bool \<Rightarrow> query_parameters" where
  "dry_run_query dryRun = (if dryRun then [(''dryRun'', PStr ''All'')] else [])"

definition apply_body :: "(string \<Rightarrow> string) \<Rightarrow> api_endpoint \<Rightarrow> string option \<Rightarrow> kube_body \<Rightarrow> kube_body" where
  "apply_body default_namespace ep cluster body =
    (if \<not> truthy (kb_namespace body) \<and> ep_namespaced ep
     then body\<lparr>kb_namespace := Some
        (if truthy cluster \<and> default_namespace (or_else cluster []) \<noteq> [] then default_namespace (or_else cluster [])
         else ''default'')\<rparr>
     else body)"

definition apply_resource ::
    "http_env \<Rightarrow> (string \<Rightarrow> string) \<Rightarrow> kube_body \<Rightarrow> string option \<Rightarrow> bool \<Rightarrow> result_value http" where
  "apply_resource env default_namespace body clusterName dryRun =
    chain (resourceDefToApiFactory env body clusterName) (\<lambda>ep.
      let cluster = (if truthy clusterName then clusterName else current_cluster env);
          bodyToApply = apply_body default_namespace ep cluster body;
          query = Some (dry_run_query dryRun)
      in handling (ep_post env ep (bodyToApply\<lparr>kb_resourceVersion := None\<rparr>) query cluster)
           (\<lambda>err. case err of
                Stuck \<Rightarrow> throw_error Stuck
              | Http_Error m s \<Rightarrow>
                  if s \<noteq> Some 409 \<and> s \<noteq> Some 403 then throw_error err
                  else ep_put env ep bodyToApply query cluster))"

section \<open>clusterApi.ts\<close>

definition api_headers :: "http_env \<Rightarrow> http_world \<Rightarrow> header_ref" where
  "api_headers env w = Own_Headers (fold (\<lambda>(k, v). dict_set k v) (getHeadlampAPIHeaders env)
     (addBackstageAuthHeaders env (json_headers w)))"

definition own_request :: "http_env \<Rightarrow> string \<Rightarrow> string \<Rightarrow> req_body option \<Rightarrow> result_value http" where
  "own_request env path method body =
    observe (\<lambda>w. request env path
      (no_params\<lparr>p_method := Some method, p_body := body, p_headers := Some (api_headers env w)\<rparr>) False False None)"

definition setCluster :: "http_env \<Rightarrow> string option \<Rightarrow> json \<Rightarrow> result_value http" where
  "setCluster env kubeconfig clusterReq =
    (if truthy kubeconfig
     then chain (change (\<lambda>w. w\<lparr>kubeconfigs := storeStatelessClusterKubeconfig (or_else kubeconfig []) (kubeconfigs w)\<rparr>)) (\<lambda>_.
          own_request env ''/parseKubeConfig'' ''POST''
            (Some (Json_Body (JObj [(''kubeconfigs'', JArr [JStr (or_else kubeconfig [])])]))))
     else own_request env ''/cluster'' ''POST'' (Some (Json_Body clusterReq)))"

definition parseKubeConfig :: "http_env \<Rightarrow> string option \<Rightarrow> result_value http" where
  "parseKubeConfig env kubeconfig =
    (if truthy kubeconfig
     then own_request env ''/parseKubeConfig'' ''POST''
            (Some (Json_Body (JObj [(''kubeconfigs'', JArr [JStr (or_else kubeconfig [])])])))
     else give (Value JNull))"

definition testAuth :: "http_env \<Rightarrow> string \<Rightarrow> string \<Rightarrow> result_value http" where
  "testAuth env cluster namespace =
    post env ''/apis/authorization.k8s.io/v1/selfsubjectrulesreviews''
      (Json_Body (JObj [(''spec'', JObj [(''namespace'', JStr namespace)])])) False
      (in_cluster (if cluster = [] then current_cluster env else Some cluster))"

text \<open>\<open>v?.k\<close>\<close>

definition optional_prop :: "json option \<Rightarrow> string \<Rightarrow> json option" where
  "optional_prop v k = (case v of None \<Rightarrow> None | Some j \<Rightarrow> (case jprop j k of Inl _ \<Rightarrow> None | Inr x \<Rightarrow> x))"

text \<open>A caught error is \<open>undefined\<close>; a promise that never settles stays so.\<close>

definition attempted :: "result_value http \<Rightarrow> json option http" where
  "attempted m = handling (chain m (\<lambda>v. give (case v of Value j \<Rightarrow> Some j | Whole _ \<Rightarrow> None)))
     (\<lambda>err. case err of Stuck \<Rightarrow> throw_error Stuck | Http_Error _ _ \<Rightarrow> give None)"

definition user_review :: "http_env \<Rightarrow> string \<Rightarrow> json http" where
  "user_review env clusterName =
    chain (attempted (post env ''/apis/authentication.k8s.io/v1/selfsubjectreviews''
        (Json_Body (JObj [(''apiVersion'', JStr ''authentication.k8s.io/v1''), (''kind'', JStr ''SelfSubjectReview'')])) False
        (in_cluster (Some clusterName)))) (\<lambda>response.
      case optional_prop (optional_prop response ''status'') ''userInfo'' of
        Some i \<Rightarrow> give (if jtruthy (Some i) then i else JObj [(''username'', JStr clusterName)])
      | None \<Rightarrow> give (JObj [(''username'', JStr clusterName)]))"

definition getClusterUserInfo :: "http_env \<Rightarrow> string \<Rightarrow> json http" where
  "getClusterUserInfo env cluster =
    (let clusterName = (if cluster = [] then or_else (current_cluster env) [] else cluster)
     in if clusterName = [] then give (JObj [(''username'', JStr ''unknown'')])
        else chain (attempted (clusterRequest env ''/me'' (in_cluster (Some clusterName)) None)) (\<lambda>res.
          case optional_prop res ''username'' of
            Some u \<Rightarrow> if jtruthy (Some u)
              then give (JObj ((''username'', u) # (case optional_prop res ''groups'' of None \<Rightarrow> [] | Some g \<Rightarrow> [(''groups'', g)])))
              else user_review env clusterName
          | None \<Rightarrow> user_review env clusterName))"

definition delete_url :: "string \<Rightarrow> bool \<Rightarrow> string option \<Rightarrow> string option \<Rightarrow> string option \<Rightarrow> string" where
  "delete_url cluster removeKubeConfig clusterID kubeconfigOrigin originalName =
    (if truthy clusterID \<and> truthy originalName \<and> removeKubeConfig
     then ''/cluster/'' @ cluster @ ''?removeKubeConfig=true&clusterID='' @ or_else clusterID [] @
          ''&configPath='' @ (case kubeconfigOrigin of None \<Rightarrow> ''undefined'' | Some o' \<Rightarrow> o') @
          ''&originalName='' @ or_else originalName []
     else ''/cluster/'' @ cluster)"

definition deleteCluster ::
    "http_env \<Rightarrow> (kubeconfig \<Rightarrow> string) \<Rightarrow> string \<Rightarrow> bool \<Rightarrow> string option \<Rightarrow> string option \<Rightarrow> string option \<Rightarrow> result_value http" where
  "deleteCluster env dump cluster removeKubeConfig clusterID kubeconfigOrigin originalName =
    chain (if cluster = [] then give None else find_kubeconfig env cluster clusterID) (\<lambda>found.
      case found of
        Some k \<Rightarrow>
          chain (observe (\<lambda>w. case deleteClusterKubeconfig (load_kubeconfig env) dump cluster clusterID (kubeconfigs w) of
              (Resolved _, s) \<Rightarrow> change (\<lambda>w. w\<lparr>kubeconfigs := s, reloads := Suc (reloads w)\<rparr>)
            | (Rejected_With m, s) \<Rightarrow> chain (change (\<lambda>w. w\<lparr>kubeconfigs := s\<rparr>)) (\<lambda>_. throw_error (Http_Error m None))
            | (Never, s) \<Rightarrow> chain (change (\<lambda>w. w\<lparr>kubeconfigs := s\<rparr>)) (\<lambda>_. throw_error Stuck))) (\<lambda>_.
          give (Value (JObj [(''clusters'', JObj [])])))
      | None \<Rightarrow>
          own_request env (delete_url cluster removeKubeConfig clusterID kubeconfigOrigin originalName) ''DELETE'' None)"

definition renameCluster :: "http_env \<Rightarrow> string \<Rightarrow> string \<Rightarrow> string \<Rightarrow> string option \<Rightarrow> result_value http" where
  "renameCluster env cluster newClusterName source clusterID =
    chain (if cluster = [] then give None else find_kubeconfig env cluster clusterID) (\<lambda>found.
      own_request env (''/cluster/'' @ cluster) ''PUT''
        (Some (Json_Body (JObj [(''newClusterName'', JStr newClusterName), (''source'', JStr source),
                                (''stateless'', JBool (found \<noteq> None))]))))"

section \<open>cluster.ts: the clusters in the address\<close>

definition getClusterPrefixedPath :: "string option \<Rightarrow> string" where
  "getClusterPrefixedPath path = (if truthy path
     then ''/c/:cluster'' @ (if hd (or_else path []) = CHR ''/'' then [] else ''/'') @ or_else path []
     else ''/c/:cluster'')"

text \<open>\<open>param\<close> is what the router finds at \<open>:cluster\<close> in the address.\<close>

definition getCluster :: "string option \<Rightarrow> string option" where
  "getCluster param = (if truthy param
     then (if str_includes (or_else param []) ''+'' then Some (hd (js_split ''+'' (or_else param []))) else param)
     else None)"


definition getClusterGroup :: "string list \<Rightarrow> string option \<Rightarrow> string list" where
  "getClusterGroup returnWhenNoClusters param =
    (case getCluster param of None \<Rightarrow> returnWhenNoClusters | Some c \<Rightarrow> js_split ''+'' c)"


section \<open>factories.ts: a stream over several endpoints\<close>

text \<open>Streams are named by the position of their endpoint. \<open>pending\<close> are those whose promise is
  awaited, \<open>live\<close> those that were opened and not cancelled; \<open>streamCancel\<close> is the stream whose
  cancel function the closure holds.\<close>

record stream_state =
  endpointIndex :: nat
  isCancelled :: bool
  streamCancel :: "nat option"
  pending :: "nat list"
  live :: "nat list"
  opened_ever :: "nat list"
  reported :: "nat list"

datatype stream_event = Opened nat | Failed nat nat | Cancel

definition run_stream :: "stream_state \<Rightarrow> stream_state" where
  [state_defs]: "run_stream s = s\<lparr>pending := pending s @ [endpointIndex s], opened_ever := opened_ever s @ [endpointIndex s],
     endpointIndex := Suc (endpointIndex s)\<rparr>"

definition repeatStreamFunc :: stream_state where
  "repeatStreamFunc = run_stream \<lparr>endpointIndex = 0, isCancelled = False, streamCancel = None, pending = [],
     live = [], opened_ever = [], reported = []\<rparr>"

text \<open>An event of \<open>n\<close> endpoints: the promise of a stream resolves to its cancel function; a stream
  reports an error with a status; the caller cancels, which it can only do once the first
  promise has resolved. There is at least one endpoint.\<close>

definition stream_step :: "nat \<Rightarrow> stream_state \<Rightarrow> stream_event \<Rightarrow> stream_state" where
  [state_defs]: "stream_step n s e = (case e of
     Opened i \<Rightarrow> if i \<notin> set (pending s) then s
       else s\<lparr>pending := remove1 i (pending s), live := live s @ [i], streamCancel := Some i\<rparr>
   | Failed i status \<Rightarrow> if i \<notin> set (live s) \<or> isCancelled s then s
       else if status = 404 \<and> endpointIndex s < n then run_stream (s\<lparr>live := removeAll i (live s)\<rparr>)
       else s\<lparr>reported := reported s @ [status]\<rparr>
   | Cancel \<Rightarrow> (case streamCancel s of None \<Rightarrow> s
       | Some i \<Rightarrow> s\<lparr>isCancelled := True, live := removeAll i (live s)\<rparr>))"

section \<open>What a request sends\<close>

text \<open>The kubeconfig that the browser stores for a cluster; no cluster, no kubeconfig.\<close>

definition stored_for :: "http_env \<Rightarrow> http_world \<Rightarrow> string \<Rightarrow> string option settled" where
  "stored_for env w cluster = (if cluster = [] then Resolved None
     else findKubeconfigByClusterName (load_kubeconfig env) cluster None (kubeconfigs w))"

definition request_headers :: "http_env \<Rightarrow> string option \<Rightarrow> header_dict \<Rightarrow> header_dict" where
  "request_headers env found h = (case found of None \<Rightarrow> h | Some k \<Rightarrow> with_kubeconfig env k h)"

definition wire_headers :: "http_env \<Rightarrow> header_dict \<Rightarrow> header_dict" where
  "wire_headers env h = (if backstage env then addBackstageAuthHeaders env h else h)"

definition cluster_url :: "http_env \<Rightarrow> string \<Rightarrow> string \<Rightarrow> query_parameters option \<Rightarrow> string" where
  "cluster_url env cluster path query = combinePath (app_url env)
     (if cluster = [] then path else combinePath (''/clusters/'' @ cluster) path) @ asQuery query"

definition ref_of :: "request_params \<Rightarrow> header_ref" where
  "ref_of params = (case p_headers params of None \<Rightarrow> Own_Headers [] | Some h \<Rightarrow> h)"

text \<open>The one request of \<open>clusterRequest\<close>, and the world after it.\<close>

definition the_request :: "http_env \<Rightarrow> string \<Rightarrow> request_params \<Rightarrow> query_parameters option \<Rightarrow> string option \<Rightarrow> http_world \<Rightarrow> http_request" where
  "the_request env path params query found w =
    \<lparr>rq_url = cluster_url env (or_else (p_cluster params) []) path query, rq_method = or_else (p_method params) ''GET'',
     rq_body = (case p_body params of None \<Rightarrow> No_Body | Some b \<Rightarrow> b),
     rq_headers = wire_headers env (request_headers env found (headers_of (ref_of params) w))\<rparr>"

definition response_of :: "fetch_result \<Rightarrow> http_response" where
  "response_of f = (case f of Network_Error \<Rightarrow> unreachable | Abort_Error \<Rightarrow> timed_out | Answer a \<Rightarrow> a)"

lemma write_headers_result:
  "write_headers f r w = (Inr (case r of Json_Headers \<Rightarrow> Json_Headers | Own_Headers h \<Rightarrow> Own_Headers (f h)),
     (if r = Json_Headers then w\<lparr>json_headers := f (json_headers w)\<rparr> else w))"
  by (cases r) (simp_all add: write_headers_def)

lemma request_unsettled:
  assumes "\<nexists>found. stored_for env w (or_else (p_cluster params) []) = Resolved found"
  shows "\<exists>e. clusterRequest env path params query w = (Inl e, w) \<and> (\<forall>m s. e \<noteq> Http_Error m (Some s))"
  using assms
  by (auto simp: clusterRequest_def Let_def stored_for_def chain_def find_kubeconfig_def split: settled.splits)

lemma request_prepared:
  assumes "stored_for env w cluster = Resolved found"
  shows "\<exists>ref w1.
    (if cluster = [] then give ref0
     else chain (find_kubeconfig env cluster None) (\<lambda>found.
       case found of None \<Rightarrow> give ref0 | Some k \<Rightarrow> write_headers (with_kubeconfig env k) ref0)) w = (Inr ref, w1) \<and>
    headers_of ref w1 = request_headers env found (headers_of ref0 w) \<and>
    w1 = (if ref0 = Json_Headers then w\<lparr>json_headers := request_headers env found (json_headers w)\<rparr> else w)"
proof (cases "cluster = []")
  case True
  with assms show ?thesis by (simp add: stored_for_def give_def request_headers_def)
next
  case False
  with assms have "find_kubeconfig env cluster None w = (Inr found, w)"
    by (simp add: stored_for_def find_kubeconfig_def)
  with False show ?thesis
    by (cases found; cases ref0) (simp_all add: chain_def give_def request_headers_def write_headers_def headers_of_def)
qed

lemma request_result:
  assumes stored: "stored_for env w (or_else (p_cluster params) []) = Resolved found"
    and run: "clusterRequest env path params query w = (r, w')"
  defines "rq \<equiv> the_request env path params query found w"
  defines "rs \<equiv> response_of (server env (sent_requests w) rq)"
  shows "sent_requests w' = sent_requests w @ [rq]"
    and "json_headers w' = (if ref_of params = Json_Headers then request_headers env found (json_headers w) else json_headers w)"
    and "kubeconfigs w' = kubeconfigs w"
    and "dict_get (headers_of (ref_of params) w) ''Authorization'' = None \<Longrightarrow> logged_out w' = logged_out w"
    and "r = (if rs_ok rs then (if p_isJSON params = Some False then Inr (Whole rs) else json_result env rs)
              else Inl (Http_Error (error_message env (p_isJSON params \<noteq> Some False) rs) (Some (rs_status rs))))"
proof -
  let ?h = "request_headers env found (headers_of (ref_of params) w)"
  from request_prepared [OF stored, of "ref_of params"] obtain ref w1 where
    p: "(if or_else (p_cluster params) [] = [] then give (ref_of params)
     else chain (find_kubeconfig env (or_else (p_cluster params) []) None) (\<lambda>found.
       case found of None \<Rightarrow> give (ref_of params) | Some k \<Rightarrow> write_headers (with_kubeconfig env k) (ref_of params))) w = (Inr ref, w1)"
    and h: "headers_of ref w1 = ?h"
    and w1: "w1 = (if ref_of params = Json_Headers then w\<lparr>json_headers := request_headers env found (json_headers w)\<rparr> else w)"
    by blast
  have rq: "rq = \<lparr>rq_url = combinePath (app_url env) (if or_else (p_cluster params) [] = [] then path
         else combinePath (''/clusters/'' @ or_else (p_cluster params) []) path) @ asQuery query,
       rq_method = or_else (p_method params) ''GET'',
       rq_body = (case p_body params of None \<Rightarrow> No_Body | Some b \<Rightarrow> b),
       rq_headers = (if backstage env then addBackstageAuthHeaders env ?h else ?h)\<rparr>"
    by (simp add: rq_def the_request_def cluster_url_def wire_headers_def)
  have same: "sent_requests w1 = sent_requests w" "kubeconfigs w1 = kubeconfigs w" "logged_out w1 = logged_out w"
    by (simp_all add: w1)
  define w2 where "w2 = (let v = w1\<lparr>sent_requests := sent_requests w @ [rq]\<rparr>
    in if wants_reload rs then v\<lparr>reloads := Suc (reloads v)\<rparr> else v)"
  define w3 where "w3 = (if p_autoLogout params \<noteq> Some False \<and> rs_status rs = 401 \<and> truthy (dict_get ?h ''Authorization'')
      then w2\<lparr>logged_out := logged_out w2 @ [or_else (p_cluster params) []]\<rparr> else w2)"
  have "clusterRequest env path params query w =
    chain (observe (\<lambda>w. give (headers_of ref w))) (\<lambda>h.
      chain (send env \<lparr>rq_url = cluster_url env (or_else (p_cluster params) []) path query,
          rq_method = or_else (p_method params) ''GET'',
          rq_body = (case p_body params of None \<Rightarrow> No_Body | Some b \<Rightarrow> b), rq_headers = wire_headers env h\<rparr>) (\<lambda>fetched.
        let r = response_of fetched
        in chain (reload_if r) (\<lambda>_.
          if \<not> rs_ok r
          then chain (change (\<lambda>w. if p_autoLogout params \<noteq> Some False \<and> rs_status r = 401 \<and> truthy (dict_get h ''Authorization'')
                                  then w\<lparr>logged_out := logged_out w @ [or_else (p_cluster params) []]\<rparr> else w)) (\<lambda>_.
               throw_error (Http_Error (error_message env (p_isJSON params \<noteq> Some False) r) (Some (rs_status r))))
          else if \<not> p_isJSON params \<noteq> Some False then give (Whole r) else lift_sum (json_result env r)))) w1"
    unfolding clusterRequest_def Let_def cluster_url_def wire_headers_def response_of_def ref_of_def [symmetric]
    by (rule chain_eq(1)) (rule p)
  also have "\<dots> = (if rs_ok rs then (if p_isJSON params = Some False then (Inr (Whole rs), w2) else (json_result env rs, w2))
      else (Inl (Http_Error (error_message env (p_isJSON params \<noteq> Some False) rs) (Some (rs_status rs))), w3))"
    by (simp add: chain_def observe_def give_def send_def h same rs_def rq_def the_request_def reload_if_def change_def
        throw_error_def lift_sum_def w2_def w3_def Let_def)
  finally have result: "clusterRequest env path params query w = \<dots>" .
  have w2: "sent_requests w2 = sent_requests w @ [rq]" "json_headers w2 = json_headers w1" "kubeconfigs w2 = kubeconfigs w"
    "logged_out w2 = logged_out w"
    by (simp_all add: w2_def same Let_def)
  have w3: "sent_requests w3 = sent_requests w2" "json_headers w3 = json_headers w2" "kubeconfigs w3 = kubeconfigs w2"
    by (simp_all add: w3_def)
  have w': "w' = w2 \<or> w' = w3" using run result by (simp split: if_splits)
  show "sent_requests w' = sent_requests w @ [rq]" using w' w2 w3 by auto
  show "kubeconfigs w' = kubeconfigs w" using w' w2 w3 by auto
  show "json_headers w' = (if ref_of params = Json_Headers then request_headers env found (json_headers w) else json_headers w)"
    using w' w2 w3 w1 by auto
  show "r = (if rs_ok rs then (if p_isJSON params = Some False then Inr (Whole rs) else json_result env rs)
              else Inl (Http_Error (error_message env (p_isJSON params \<noteq> Some False) rs) (Some (rs_status rs))))"
    using run result by (auto split: if_splits)
  show "logged_out w' = logged_out w" if "dict_get (headers_of (ref_of params) w) ''Authorization'' = None"
  proof -
    from that have "\<not> truthy (dict_get ?h ''Authorization'')"
      by (cases found) (simp_all add: request_headers_def with_kubeconfig_def)
    then have "w3 = w2" by (simp add: w3_def)
    with w' w2 show ?thesis by auto
  qed
qed

text \<open>Asking for the user never fails: whatever the server answers, some name is returned.\<close>

lemma attempted_errors: "attempted m w = (Inl e, w') \<Longrightarrow> e = Stuck"
  by (auto simp: attempted_def handling_def chain_def give_def throw_error_def
      split: prod.splits sum.splits http_error.splits)

lemma user_info_never_fails: "getClusterUserInfo env cluster w = (Inl e, w') \<Longrightarrow> e = Stuck"
  by (auto simp: getClusterUserInfo_def user_review_def Let_def chain_Inl give_def
      split: if_splits option.splits dest: attempted_errors)

section \<open>The calls of the API\<close>

datatype api_call = Get string | Post string req_body | Put string req_body | Patch string req_body
  | Json_Patch string req_body | Remove string

definition call_params :: "http_world \<Rightarrow> api_call \<Rightarrow> string \<times> request_params" where
  "call_params w c = (case c of
     Get u \<Rightarrow> (u, no_params)
   | Post u b \<Rightarrow> (u, no_params\<lparr>p_method := Some ''POST'', p_body := Some b, p_headers := Some Json_Headers, p_autoLogout := Some True\<rparr>)
   | Put u b \<Rightarrow> (u, no_params\<lparr>p_method := Some ''PUT'', p_body := Some b, p_headers := Some Json_Headers, p_autoLogout := Some True\<rparr>)
   | Patch u b \<Rightarrow> (u, no_params\<lparr>p_method := Some ''PATCH'', p_body := Some b, p_autoLogout := Some True,
        p_headers := Some (Own_Headers (dict_set ''Content-Type'' ''application/merge-patch+json'' (json_headers w)))\<rparr>)
   | Json_Patch u b \<Rightarrow> (u, no_params\<lparr>p_method := Some ''PATCH'', p_body := Some b, p_autoLogout := Some True,
        p_headers := Some (Own_Headers (dict_set ''Content-Type'' ''application/json-patch+json'' (json_headers w)))\<rparr>)
   | Remove u \<Rightarrow> (u, no_params\<lparr>p_method := Some ''DELETE'', p_headers := Some Json_Headers\<rparr>))"

definition api_call :: "http_env \<Rightarrow> string \<Rightarrow> api_call \<Rightarrow> result_value http" where
  "api_call env cluster c = (case c of
     Get u \<Rightarrow> clusterRequest env u (in_cluster (Some cluster)) None
   | Post u b \<Rightarrow> post env u b True (in_cluster (Some cluster))
   | Put u b \<Rightarrow> put env u b True (in_cluster (Some cluster))
   | Patch u b \<Rightarrow> patch env u b True (in_cluster (Some cluster))
   | Json_Patch u b \<Rightarrow> jsonPatch env u b True (in_cluster (Some cluster))
   | Remove u \<Rightarrow> remove env u (in_cluster (Some cluster)))"

lemma api_call_is_request:
  assumes "cluster \<noteq> []"
  shows "api_call env cluster c w =
    clusterRequest env (fst (call_params w c)) ((snd (call_params w c))\<lparr>p_cluster := Some cluster\<rparr>) None w"
  using assms
  by (cases c) (simp_all add: api_call_def call_params_def post_def put_def patch_def jsonPatch_def patch_as_def
      remove_def in_cluster_def no_params_def spread_params_def pick_def named_or_current_def or_else_def observe_def)

lemma clusterRequest_keeps:
  assumes "clusterRequest env path params query w = (r, w')"
  shows "kubeconfigs w' = kubeconfigs w"
    and "dict_get (headers_of (ref_of params) w) ''Authorization'' = None \<Longrightarrow> logged_out w' = logged_out w"
    and "dict_get (json_headers w) k = v \<Longrightarrow> k \<notin> {''KUBECONFIG'', ''X-K8SENSE-USER-ID''} \<Longrightarrow> dict_get (json_headers w') k = v"
proof -
  consider (stuck) "w' = w" | (sent) found where "stored_for env w (or_else (p_cluster params) []) = Resolved found"
    using request_unsettled [of env w params path query] assms by force
  note c = this
  show "kubeconfigs w' = kubeconfigs w"
    using c by cases (use request_result(3) [OF _ assms] in auto)
  show "logged_out w' = logged_out w" if "dict_get (headers_of (ref_of params) w) ''Authorization'' = None"
    using c by cases (use that request_result(4) [OF _ assms] in auto)
  show "dict_get (json_headers w') k = v" if "dict_get (json_headers w) k = v" "k \<notin> {''KUBECONFIG'', ''X-K8SENSE-USER-ID''}"
    using c
  proof cases
    case (sent found)
    from request_result(2) [OF this assms] that show ?thesis
      by (cases found) (simp_all add: request_headers_def with_kubeconfig_def)
  qed (use that in simp)
qed

definition call_step :: "http_env \<Rightarrow> http_world \<Rightarrow> string \<times> api_call \<Rightarrow> http_world" where
  "call_step env w c = snd (api_call env (fst c) (snd c) w)"

definition calls_in :: "http_env \<Rightarrow> http_world \<Rightarrow> (string \<times> api_call) list \<Rightarrow> http_world" where
  "calls_in env w cs = foldl (call_step env) w (filter (\<lambda>c. fst c \<noteq> []) cs)"

text \<open>No header of a call authorizes anything.\<close>

definition anonymous :: "http_world \<Rightarrow> bool" where
  [inv_defs]: "anonymous w \<longleftrightarrow> dict_get (json_headers w) ''Authorization'' = None \<and> logged_out w = []"

lemma dict_get_Nil [simp]: "dict_get [] k = None"
  by (simp add: dict_get_def)

lemma call_headers_anonymous:
  "dict_get (json_headers w) ''Authorization'' = None \<Longrightarrow>
    dict_get (headers_of (ref_of ((snd (call_params w c))\<lparr>p_cluster := Some cluster\<rparr>)) w) ''Authorization'' = None"
  by (cases c) (simp_all add: call_params_def ref_of_def headers_of_def no_params_def)

lemma api_call_anonymous:
  assumes "cluster \<noteq> []" and "anonymous w"
  shows "anonymous (snd (api_call env cluster c w))"
proof -
  let ?p = "(snd (call_params w c))\<lparr>p_cluster := Some cluster\<rparr>"
  obtain r w' where run: "clusterRequest env (fst (call_params w c)) ?p None w = (r, w')" by fastforce
  from clusterRequest_keeps(2) [OF run call_headers_anonymous] clusterRequest_keeps(3) [OF run] assms(2)
  have "anonymous w'" by (simp add: anonymous_def)
  then show ?thesis by (simp add: api_call_is_request [OF assms(1)] run)
qed

interpretation calls: reducer "\<lambda>w c. if fst c = [] then w else call_step env w c" anonymous for env
  by unfold_locales (simp add: call_step_def api_call_anonymous)

lemma calls_in_foldl: "calls_in env w cs = foldl (\<lambda>w c. if fst c = [] then w else call_step env w c) w cs"
  by (induction cs arbitrary: w) (simp_all add: calls_in_def)

text \<open>The page as it is loaded.\<close>

definition fresh_http :: "string kc_store \<Rightarrow> http_world" where
  "fresh_http s = \<lparr>json_headers = [(''Accept'', ''application/json''), (''Content-Type'', ''application/json'')],
     kubeconfigs = s, sent_requests = [], reloads = 0, logged_out = []\<rparr>"

text \<open>No sequence of calls ever logs the user out: an answer with status 401 is meant to do it,
  but only for a request with a header \<open>Authorization\<close>, which no call sets.\<close>

theorem auth_errors_never_log_out:
  "logged_out (calls_in env (fresh_http s) cs) = []"
proof -
  have "anonymous (fresh_http s)" by (simp add: anonymous_def fresh_http_def dict_get_def)
  then have "anonymous (calls_in env (fresh_http s) cs)"
    unfolding calls_in_foldl by (rule calls.run_inv)
  then show ?thesis by (simp add: anonymous_def)
qed

section \<open>The kubeconfig in the shared headers\<close>

definition without_kubeconfig :: "http_env \<Rightarrow> http_world \<Rightarrow> string \<times> api_call \<Rightarrow> bool" where
  "without_kubeconfig env w c \<longleftrightarrow> fst c \<noteq> [] \<and> stored_for env w (fst c) = Resolved None"

lemma call_keeps_leak:
  assumes "without_kubeconfig env w c" and "dict_get (json_headers w) ''KUBECONFIG'' = Some k"
  shows "\<exists>rq. sent_requests (call_step env w c) = sent_requests w @ [rq] \<and>
      ((\<nexists>u. snd c = Get u) \<longrightarrow> dict_get (rq_headers rq) ''KUBECONFIG'' = Some k) \<and>
      json_headers (call_step env w c) = json_headers w \<and> kubeconfigs (call_step env w c) = kubeconfigs w"
proof -
  let ?p = "(snd (call_params w (snd c)))\<lparr>p_cluster := Some (fst c)\<rparr>"
  have ne: "fst c \<noteq> []" and st: "stored_for env w (or_else (p_cluster ?p) []) = Resolved None"
    using assms(1) by (simp_all add: without_kubeconfig_def or_else_def)
  obtain r w' where run: "clusterRequest env (fst (call_params w (snd c))) ?p None w = (r, w')" by fastforce
  have step: "call_step env w c = w'" by (simp add: call_step_def api_call_is_request [OF ne] run)
  have w: "dict_get (wire_headers env h) ''KUBECONFIG'' = dict_get h ''KUBECONFIG''" for h
    by (simp add: wire_headers_def addBackstageAuthHeaders_def split: option.split)
  have "(\<nexists>u. snd c = Get u) \<Longrightarrow> dict_get (headers_of (ref_of ?p) w) ''KUBECONFIG'' = Some k"
    using assms(2) by (cases "snd c") (simp_all add: call_params_def ref_of_def headers_of_def)
  then show ?thesis
    using request_result(1,2,3) [OF st run]
    by (simp add: step the_request_def w request_headers_def)
qed

lemma leak_stays:
  assumes "list_all (without_kubeconfig env w) cs" and "dict_get (json_headers w) ''KUBECONFIG'' = Some k"
  shows "dict_get (json_headers (foldl (call_step env) w cs)) ''KUBECONFIG'' = Some k \<and>
    kubeconfigs (foldl (call_step env) w cs) = kubeconfigs w"
  using assms
proof (induction cs arbitrary: w)
  case (Cons c cs)
  then obtain rq where j: "json_headers (call_step env w c) = json_headers w" "kubeconfigs (call_step env w c) = kubeconfigs w"
    using call_keeps_leak [of env w c k] by auto
  then have "without_kubeconfig env (call_step env w c) = without_kubeconfig env w"
    by (intro ext) (simp add: without_kubeconfig_def stored_for_def)
  with Cons j show ?case by simp
qed simp

text \<open>C4: The kubeconfig of one cluster reaches the others: it is stored in the header object
  that all writes share. After one post, put or delete to a cluster whose kubeconfig the
  browser stores, and any calls to clusters that have none stored, every write to a cluster
  that has none stored carries the kubeconfig of the first cluster. (A cluster with a stored
  kubeconfig of its own sends its own, and leaves that one behind instead.)\<close>

theorem kubeconfig_leaks_to_other_clusters:
  assumes "c \<noteq> []" and "stored_for env w c = Resolved (Some k)"
    and "list_all (without_kubeconfig env w) (cs @ [(d, last_call)])" and "\<nexists>u. last_call = Get u"
    and "first_call = Post u b \<or> first_call = Put u b \<or> first_call = Remove u"
  shows "dict_get (rq_headers (last (sent_requests
      (foldl (call_step env) w ((c, first_call) # cs @ [(d, last_call)]))))) ''KUBECONFIG'' = Some k"
proof -
  let ?p = "(snd (call_params w first_call))\<lparr>p_cluster := Some c\<rparr>"
  let ?w1 = "call_step env w (c, first_call)"
  have st: "stored_for env w (or_else (p_cluster ?p) []) = Resolved (Some k)"
    using assms(1,2) by (simp add: or_else_def)
  obtain r w' where run: "clusterRequest env (fst (call_params w first_call)) ?p None w = (r, w')" by fastforce
  have step: "?w1 = w'" by (simp add: call_step_def api_call_is_request [OF assms(1)] run)
  have "ref_of ?p = Json_Headers" using assms(5) by (auto simp: call_params_def ref_of_def)
  then have k: "dict_get (json_headers ?w1) ''KUBECONFIG'' = Some k" "kubeconfigs ?w1 = kubeconfigs w"
    using request_result(2,3) [OF st run] by (simp_all add: step request_headers_def with_kubeconfig_def)
  have same: "without_kubeconfig env v = without_kubeconfig env w" if "kubeconfigs v = kubeconfigs w" for v
    using that by (intro ext) (simp add: without_kubeconfig_def stored_for_def)
  let ?w2 = "foldl (call_step env) ?w1 cs"
  have k2: "dict_get (json_headers ?w2) ''KUBECONFIG'' = Some k" "kubeconfigs ?w2 = kubeconfigs w"
    using leak_stays [of env ?w1 cs k] assms(3) k(2) unfolding same [OF k(2)] by (simp_all add: k(1))
  have "without_kubeconfig env ?w2 (d, last_call)" using assms(3) same [OF k2(2)] by simp
  from call_keeps_leak [OF this k2(1)] obtain rq where
    "sent_requests (call_step env ?w2 (d, last_call)) = sent_requests ?w2 @ [rq]" "dict_get (rq_headers rq) ''KUBECONFIG'' = Some k"
    using assms(4) by auto
  then show ?thesis by simp
qed

text \<open>A world with a stored kubeconfig for the cluster \<open>dev\<close> and a server that answers everything.\<close>

definition sample_http :: "nat \<Rightarrow> http_env" where
  "sample_http status = \<lparr>app_url = ''http://h:4466/'', user_id = ''u1'', backstage = False, backstage_token = None,
     backend_token = None,
     load_kubeconfig = (\<lambda>t. Some \<lparr>kc_contexts = [\<lparr>cx_name = ''dev'', cx_cluster = ''dev'', cx_user = ''me'',
        cx_clusterID = None, cx_source = None, cx_extensions = None\<rparr>],
        kc_clusters = None, kc_users = None, kc_current = None\<rparr>),
     current_cluster = None,
     server = (\<lambda>past rq. Answer \<lparr>rs_status = (if rq_method rq = ''POST'' then status else 200), rs_statusText = ''Text'',
        rs_reload = None, rs_text = ''{}''\<rparr>),
     parse_json = (\<lambda>t. if t = ''{}'' then Some (JObj [(''resources'', JArr [JObj [(''kind'', JStr ''Pod''),
        (''name'', JStr ''pods''), (''namespaced'', JBool True)]])]) else None)\<rparr>"

definition sample_http_store :: "string kc_store" where
  "sample_http_store = \<lparr>rows = [(0, ''secret'')], next_key = 1\<rparr>"

theorem kubeconfig_leaks_to_other_clusters_witness:
  "dict_get (rq_headers (last (sent_requests (foldl (call_step (sample_http 200)) (fresh_http sample_http_store)
     [(''dev'', Post ''/a'' No_Body), (''prod'', Get ''/b''), (''prod'', Remove ''/b'')])))) ''KUBECONFIG'' = Some ''secret''"
proof -
  let ?env = "sample_http 200" and ?w = "fresh_http sample_http_store"
  have "stored_for ?env ?w ''dev'' = Resolved (Some ''secret'')" by code_simp
  moreover have "list_all (without_kubeconfig ?env ?w) ([(''prod'', Get ''/b'')] @ [(''prod'', Remove ''/b'')])" by code_simp
  ultimately show ?thesis
    using kubeconfig_leaks_to_other_clusters [of "''dev''" ?env ?w "''secret''" "[(''prod'', Get ''/b'')]" "''prod''" "Remove ''/b''"
        "Post ''/a'' No_Body" "''/a''" No_Body]
    by simp
qed

section \<open>The newer requests carry the kubeconfig of their own cluster\<close>

text \<open>A request of the newer API carries exactly the kubeconfig that is stored for its own
  cluster, and never changes the shared headers; its error has the status of the answer.\<close>

theorem clusterFetch_uses_its_own_kubeconfig:
  assumes "findKubeconfigByClusterName (load_kubeconfig env) cluster None (kubeconfigs w) = Resolved found"
    and "dict_get headers ''KUBECONFIG'' = None"
    and "clusterFetch env url method body headers cluster w = (r, w')"
  shows "\<exists>rq. sent_requests w' = sent_requests w @ [rq] \<and> dict_get (rq_headers rq) ''KUBECONFIG'' = found \<and>
    json_headers w' = json_headers w \<and>
    (\<forall>m s. r = Inl (Http_Error m (Some s)) \<longrightarrow>
       (\<exists>a. server env (sent_requests w) rq = Answer a \<and> rs_status a = s \<and> \<not> rs_ok a))"
proof -
  let ?h = "case found of None \<Rightarrow> headers | Some k \<Rightarrow> with_kubeconfig env k headers"
  let ?rq = "\<lparr>rq_url = makeUrl (Inr [app_url env, makeUrl (Inr (if cluster = [] then [url] else [''clusters'', cluster, url])) []]) [],
     rq_method = method, rq_body = body, rq_headers = addBackstageAuthHeaders env ?h\<rparr>"
  have "dict_get (rq_headers ?rq) ''KUBECONFIG'' = found"
    using assms(2) by (cases found) (simp_all add: addBackstageAuthHeaders_def with_kubeconfig_def split: option.split)
  moreover have f: "find_kubeconfig env cluster None w = (Inr found, w)" using assms(1) by (simp add: find_kubeconfig_def)
  have "clusterFetch env url method body headers cluster w = backendFetch env
      (makeUrl (Inr (if cluster = [] then [url] else [''clusters'', cluster, url])) []) method body ?h w"
    unfolding clusterFetch_def Let_def by (rule chain_eq(1)) (rule f)
  then have run: "backendFetch env (makeUrl (Inr (if cluster = [] then [url] else [''clusters'', cluster, url])) [])
      method body ?h w = (r, w')"
    using assms(3) by simp
  then have "sent_requests w' = sent_requests w @ [?rq]" "json_headers w' = json_headers w"
    by (auto simp: backendFetch_def send_def chain_def reload_if_def change_def throw_error_def give_def
        split: fetch_result.splits if_splits)
  moreover have "\<exists>a. server env (sent_requests w) ?rq = Answer a \<and> rs_status a = s \<and> \<not> rs_ok a"
    if "r = Inl (Http_Error m (Some s))" for m s
    using run that
    by (auto simp: backendFetch_def send_def chain_def reload_if_def change_def throw_error_def give_def
        split: fetch_result.splits if_splits)
  ultimately show ?thesis by blast
qed

theorem clusterFetch_uses_its_own_kubeconfig_witness:
  "\<exists>rq. sent_requests (snd (clusterFetch (sample_http 200) ''/version'' ''GET'' No_Body [] ''dev'' (fresh_http sample_http_store))) = [rq] \<and>
     dict_get (rq_headers rq) ''KUBECONFIG'' = Some ''secret''"
proof -
  let ?env = "sample_http 200" and ?w = "fresh_http sample_http_store"
  let ?run = "clusterFetch ?env ''/version'' ''GET'' No_Body [] ''dev'' ?w"
  have "findKubeconfigByClusterName (load_kubeconfig ?env) ''dev'' None (kubeconfigs ?w) = Resolved (Some ''secret'')" by code_simp
  from clusterFetch_uses_its_own_kubeconfig [OF this, of "[]" "''/version''" "''GET''" No_Body "fst ?run" "snd ?run"]
  obtain rq where "sent_requests (snd ?run) = sent_requests ?w @ [rq]" "dict_get (rq_headers rq) ''KUBECONFIG'' = Some ''secret''"
    by auto
  then show ?thesis by (simp add: fresh_http_def)
qed

section \<open>Outcomes of a request\<close>

text \<open>How a request ends: a failing network is status 502 and a timeout status 408, every answer
  outside of 200 to 299 is an error with its status, and no other outcome has a status.\<close>

theorem request_outcome:
  fixes path :: string and query :: "query_parameters option"
  assumes "stored_for env w (or_else (p_cluster params) []) = Resolved found" and "parse_json env [] = None"
  defines "answer \<equiv> server env (sent_requests w) (the_request env path params query found w)"
  defines "r \<equiv> fst (clusterRequest env path params query w)"
  shows "(answer = Network_Error \<longrightarrow> r = Inl (Http_Error ''Unreachable'' (Some 502))) \<and>
    (answer = Abort_Error \<longrightarrow> r = Inl (Http_Error ''Request timed-out'' (Some 408))) \<and>
    (\<forall>a. answer = Answer a \<longrightarrow> (\<exists>m. r = Inl (Http_Error m (Some (rs_status a)))) = (\<not> rs_ok a)) \<and>
    (\<forall>m s. r = Inl (Http_Error m (Some s)) \<longrightarrow> s < 200 \<or> 299 < s)"
proof -
  obtain w' where run: "clusterRequest env path params query w = (r, w')"
    by (metis r_def prod.collapse)
  define rs where "rs = response_of answer"
  have r: "r = (if rs_ok rs then (if p_isJSON params = Some False then Inr (Whole rs) else json_result env rs)
              else Inl (Http_Error (error_message env (p_isJSON params \<noteq> Some False) rs) (Some (rs_status rs))))"
    unfolding rs_def answer_def by (rule request_result(5) [OF assms(1) run])
  have j: "json_result env rs \<noteq> Inl (Http_Error m (Some s))" for m s
    by (simp add: json_result_def split: option.split)
  have "error_message env b unreachable = ''Unreachable''" "error_message env b timed_out = ''Request timed-out''" for b
    using assms(2) by (simp_all add: error_message_def unreachable_def timed_out_def)
  moreover have "\<not> rs_ok unreachable" "\<not> rs_ok timed_out" "rs_status unreachable = 502" "rs_status timed_out = 408"
    by (simp_all add: rs_ok_def unreachable_def timed_out_def)
  moreover have "(\<exists>m. r = Inl (Http_Error m (Some (rs_status rs)))) = (\<not> rs_ok rs)" using r j by auto
  moreover have "s < 200 \<or> 299 < s" if "r = Inl (Http_Error m (Some s))" for m s
    using that r j by (auto simp: rs_ok_def split: if_splits)
  ultimately show ?thesis using r by (auto simp: rs_def response_of_def)
qed

theorem request_outcome_witness:
  "\<exists>m. fst (clusterRequest (sample_http 500) ''/a'' (no_params\<lparr>p_method := Some ''POST''\<rparr>) None (fresh_http sample_http_store)) =
     Inl (Http_Error m (Some 500))"
proof -
  let ?env = "sample_http 500" and ?w = "fresh_http sample_http_store" and ?p = "no_params\<lparr>p_method := Some ''POST''\<rparr>"
  have "stored_for ?env ?w (or_else (p_cluster ?p) []) = Resolved None" "parse_json ?env [] = None" by code_simp+
  moreover have "server ?env (sent_requests ?w) (the_request ?env ''/a'' ?p None None ?w) =
      Answer \<lparr>rs_status = 500, rs_statusText = ''Text'', rs_reload = None, rs_text = ''{}''\<rparr>"
    by (simp add: sample_http_def the_request_def no_params_def or_else_def)
  ultimately show ?thesis
    using request_outcome [of ?env ?w ?p None "''/a''" None] by (simp add: rs_ok_def)
qed

section \<open>Requests of composed calls\<close>

lemma clusterRequest_sends:
  assumes "clusterRequest env path params query w = (r, w')"
  shows "\<exists>rqs. sent_requests w' = sent_requests w @ rqs \<and> length rqs \<le> 1 \<and>
    (\<forall>rq \<in> set rqs. rq_method rq = or_else (p_method params) ''GET'' \<and>
       rq_body rq = (case p_body params of None \<Rightarrow> No_Body | Some b \<Rightarrow> b) \<and>
       rq_url rq = cluster_url env (or_else (p_cluster params) []) path query) \<and>
    (\<forall>m s. r = Inl (Http_Error m (Some s)) \<longrightarrow>
       (\<exists>rq. rqs = [rq] \<and> rs_status (response_of (server env (sent_requests w) rq)) = s)) \<and>
    (\<forall>x. r = Inr x \<longrightarrow> length rqs = 1)"
proof (cases "\<exists>found. stored_for env w (or_else (p_cluster params) []) = Resolved found")
  case True
  then obtain found where f: "stored_for env w (or_else (p_cluster params) []) = Resolved found" by blast
  let ?rq = "the_request env path params query found w"
  note res = request_result [OF f assms]
  have "rs_status (response_of (server env (sent_requests w) ?rq)) = s" if "r = Inl (Http_Error m (Some s))" for m s
    using res(5) that by (auto simp: json_result_def split: if_splits option.splits)
  then show ?thesis using res(1) by (intro exI [of _ "[?rq]"]) (auto simp: the_request_def)
next
  case False
  then obtain e where "clusterRequest env path params query w = (Inl e, w)" "\<forall>m s. e \<noteq> Http_Error m (Some s)"
    using request_unsettled [of env w params path query] by blast
  with assms show ?thesis by (intro exI [of _ "[]"]) auto
qed

lemma ep_post_request: "ep_post env ep body query cluster w = clusterRequest env (ep_url ep (kb_namespace body) @ asQuery query)
    \<lparr>p_method = Some ''POST'', p_body = Some (Kube body), p_headers = Some Json_Headers,
     p_cluster = Some (named_or_current env cluster), p_autoLogout = Some True, p_isJSON = None\<rparr> None w"
  by (simp add: ep_post_def post_def in_cluster_def no_params_def spread_params_def pick_def)

lemma ep_put_request: "ep_put env ep body query cluster w = clusterRequest env (ep_url ep (kb_namespace body) @ ''/'' @ kb_name body @ asQuery query)
    \<lparr>p_method = Some ''PUT'', p_body = Some (Kube body), p_headers = Some Json_Headers,
     p_cluster = Some (named_or_current env cluster), p_autoLogout = Some True, p_isJSON = None\<rparr> None w"
  by (simp add: ep_put_def put_def in_cluster_def no_params_def spread_params_def pick_def)

lemma ep_delete_request: "ep_delete env ep namespace name query cluster w = clusterRequest env (ep_url ep namespace @ ''/'' @ name @ asQuery query)
    \<lparr>p_method = Some ''DELETE'', p_body = None, p_headers = Some Json_Headers,
     p_cluster = Some (named_or_current env cluster), p_autoLogout = None, p_isJSON = None\<rparr> None w"
  by (simp add: ep_delete_def remove_def in_cluster_def no_params_def spread_params_def pick_def)

lemma endpoint_lookup_sends:
  assumes "resourceDefToApiFactory env def clusterName w = (r, w')"
  shows "\<exists>rqs. sent_requests w' = sent_requests w @ rqs \<and> length rqs \<le> 1 \<and> (\<forall>rq \<in> set rqs. rq_method rq = ''GET'') \<and>
    (\<forall>ep. r = Inr ep \<longrightarrow> length rqs = 1)"
proof -
  let ?req = "\<lambda>g. clusterRequest env (''/'' @ (if g \<noteq> [] then ''apis'' else ''api'') @ ''/'' @ kb_apiVersion def)
        (no_params\<lparr>p_cluster := Some (named_or_current env clusterName), p_autoLogout := Some False\<rparr>) None"
  have "(w' = w \<and> (\<exists>e. r = Inl e)) \<or> (\<exists>g q. ?req g w = (q, w') \<and> (\<forall>ep. r = Inr ep \<longrightarrow> (\<exists>x. q = Inr x)))"
    using assms unfolding resourceDefToApiFactory_def
    by (auto simp: chain_def demand_def lift_sum_def throw_error_def give_def
        split: sum.splits prod.splits result_value.splits if_splits option.splits)
  then show ?thesis
  proof (elim disjE exE conjE)
    fix e assume "w' = w" "r = Inl e"
    then show ?thesis by (intro exI [of _ "[]"]) simp
  next
    fix g q assume q: "?req g w = (q, w')" "\<forall>ep. r = Inr ep \<longrightarrow> (\<exists>x. q = Inr x)"
    from clusterRequest_sends [OF q(1)] obtain rqs where rqs: "sent_requests w' = sent_requests w @ rqs" "length rqs \<le> 1"
      "\<forall>rq \<in> set rqs. rq_method rq = or_else None ''GET''" "\<forall>x. q = Inr x \<longrightarrow> length rqs = 1"
      by (auto simp: no_params_def)
    from rqs(3) have "\<forall>rq \<in> set rqs. rq_method rq = ''GET''" by (simp add: or_else_def)
    with rqs q(2) show ?thesis by metis
  qed
qed

section \<open>Applying a resource\<close>

text \<open>The path of an object below the address of its cluster, as Kubernetes documents it; the
  core group has no leading slash in the source, which joining the paths does not notice.\<close>

definition object_path :: "api_endpoint \<Rightarrow> string option \<Rightarrow> string \<Rightarrow> string" where
  "object_path ep ns rest =
    (if ep_group ep = [] then ''api/'' @ ep_version ep else ''/apis/'' @ ep_group ep @ ''/'' @ ep_version ep) @
    (case ns of Some (x # xs) \<Rightarrow> if ep_namespaced ep then ''/namespaces/'' @ (x # xs) else [] | _ \<Rightarrow> []) @
    ''/'' @ ep_resource ep @ rest"

lemma ep_url_path: "ep_url ep ns @ rest = object_path ep ns rest"
  by (simp add: ep_url_def ep_root_def getApiRoot_def object_path_def or_else_def split: option.split list.split)

lemma dry_run_text: "asQuery (Some (dry_run_query dry)) = (if dry then ''?dryRun=All'' else [])"
  by (cases dry) (simp, code_simp, simp, code_simp)

lemma named_again:
  "named_or_current env (if truthy name then name else current_cluster env) = named_or_current env name"
  by (cases name) (auto simp: named_or_current_def or_else_def split: option.split)

text \<open>A successful lookup has sent one request, and found out which kubeconfig is stored.\<close>

lemma endpoint_found:
  assumes "resourceDefToApiFactory env def clusterName w = (Inr ep, w')"
  obtains g found where "sent_requests w' = sent_requests w @ [g]" and "rq_method g = ''GET''"
    and "rq_url g = cluster_url env (named_or_current env clusterName)
           (''/'' @ (if ep_group ep \<noteq> [] then ''apis'' else ''api'') @ ''/'' @ kb_apiVersion def) None"
    and "stored_for env w' (named_or_current env clusterName) = Resolved found"
proof -
  let ?params = "no_params\<lparr>p_cluster := Some (named_or_current env clusterName), p_autoLogout := Some False\<rparr>"
  let ?path = "''/'' @ (if ep_group ep \<noteq> [] then ''apis'' else ''api'') @ ''/'' @ kb_apiVersion def"
  have c: "or_else (p_cluster ?params) [] = named_or_current env clusterName" by (simp add: or_else_def)
  obtain x where run: "clusterRequest env ?path ?params None w = (Inr x, w')"
    using assms unfolding resourceDefToApiFactory_def
    by (auto simp: chain_def demand_def lift_sum_def throw_error_def give_def
        split: sum.splits prod.splits result_value.splits if_splits option.splits)
  have "\<exists>found. stored_for env w (or_else (p_cluster ?params) []) = Resolved found"
    using request_unsettled [of env w ?params ?path None] run by auto
  then obtain found where st: "stored_for env w (or_else (p_cluster ?params) []) = Resolved found" by blast
  note res = request_result [OF st run]
  show thesis
  proof (rule that [OF res(1)])
    show "stored_for env w' (named_or_current env clusterName) = Resolved found"
      using st unfolding c stored_for_def res(3) .
    have "rq_url (the_request env ?path ?params None found w) =
        cluster_url env (or_else (p_cluster ?params) []) ?path None"
      by (simp only: the_request_def http_request.simps)
    then show "rq_url (the_request env ?path ?params None found w) =
        cluster_url env (named_or_current env clusterName) ?path None"
      unfolding c .
  qed (simp add: the_request_def no_params_def or_else_def)
qed

text \<open>One write of a client, with the answer it gets.\<close>

lemma client_write:
  assumes "stored_for env w cluster = Resolved found"
    and "clusterRequest env path \<lparr>p_method = Some (c # cs), p_body = Some (Kube body), p_headers = Some Json_Headers,
       p_cluster = Some cluster, p_autoLogout = Some True, p_isJSON = None\<rparr> None w = (r, w')"
  obtains p where "sent_requests w' = sent_requests w @ [p]"
    and "rq_method p = c # cs" and "rq_url p = cluster_url env cluster path None" and "rq_body p = Kube body"
    and "stored_for env w' cluster = Resolved found"
    and "r = (let a = response_of (server env (sent_requests w) p) in
           if rs_ok a then json_result env a else Inl (Http_Error (error_message env True a) (Some (rs_status a))))"
proof -
  let ?params = "\<lparr>p_method = Some (c # cs), p_body = Some (Kube body), p_headers = Some Json_Headers,
       p_cluster = Some cluster, p_autoLogout = Some True, p_isJSON = None\<rparr>"
  have st: "stored_for env w (or_else (p_cluster ?params) []) = Resolved found"
    using assms(1) by (simp add: or_else_def)
  note res = request_result [OF st assms(2)]
  have "stored_for env w' cluster = Resolved found"
    using assms(1) unfolding stored_for_def res(3) .
  moreover have "p_isJSON ?params = None" by simp
  ultimately show thesis
    using res(5) by (intro that [OF res(1)]) (simp_all add: the_request_def or_else_def Let_def)
qed

lemma apply_body_namespace:
  "apply_body dn ep cluster body =
     body\<lparr>kb_namespace := (if truthy (kb_namespace body) \<or> \<not> ep_namespaced ep then kb_namespace body
       else Some (if or_else cluster [] = [] \<or> dn (or_else cluster []) = [] then ''default'' else dn (or_else cluster [])))\<rparr>"
  by (auto simp: apply_body_def or_else_def split: option.split)

lemma apply_after_lookup:
  assumes "resourceDefToApiFactory env body clusterName w = (Inr ep, w1)"
  shows "apply_resource env dn body clusterName dryRun w =
    (let cluster = (if truthy clusterName then clusterName else current_cluster env);
         new = apply_body dn ep cluster body
     in handling (ep_post env ep (new\<lparr>kb_resourceVersion := None\<rparr>) (Some (dry_run_query dryRun)) cluster)
       (\<lambda>err. case err of Stuck \<Rightarrow> throw_error Stuck
          | Http_Error m s \<Rightarrow> if s \<noteq> Some 409 \<and> s \<noteq> Some 403 then throw_error err
              else ep_put env ep new (Some (dry_run_query dryRun)) cluster) w1)"
  unfolding apply_resource_def Let_def by (rule chain_eq(1)) (rule assms)

text \<open>A write that \<open>apply\<close> sends: its method, the address of the object or of the collection,
  and the body with a namespace and a resource version.\<close>

definition applied_write ::
    "http_env \<Rightarrow> string \<Rightarrow> api_endpoint \<Rightarrow> kube_body \<Rightarrow> string option \<Rightarrow> string option \<Rightarrow> string \<Rightarrow> string \<Rightarrow> http_request \<Rightarrow> bool" where
  "applied_write env cluster ep body ns version method rest p \<longleftrightarrow>
     rq_method p = method \<and> rq_url p = cluster_url env cluster (object_path ep ns rest) None \<and>
     rq_body p = Kube (body\<lparr>kb_namespace := ns, kb_resourceVersion := version\<rparr>)"

definition answered :: "http_env \<Rightarrow> http_request list \<Rightarrow> http_request \<Rightarrow> nat" where
  "answered env past rq = rs_status (response_of (server env past rq))"

definition reports_failure :: "http_error + 'a \<Rightarrow> nat \<Rightarrow> bool" where
  "reports_failure r status \<longleftrightarrow>
     (status < 200 \<or> 299 < status \<longrightarrow> (\<exists>m. r = Inl (Http_Error m (Some status))))"

lemma json_answer_reports:
  "r = (let a = response_of (server env past p) in
       if rs_ok a then json_result env a else Inl (Http_Error (error_message env True a) (Some (rs_status a)))) \<Longrightarrow>
   reports_failure r (answered env past p)"
  by (auto simp: reports_failure_def answered_def Let_def rs_ok_def)

text \<open>C6: Applying a resource first looks its endpoint up; when that fails, it fails with the
  same error, at most that one \<open>GET\<close> having been sent. When it succeeds, exactly one \<open>POST\<close> to
  the collection is sent, with the body in its namespace and without the resource version.
  When the server answers it with 403 or 409, exactly one \<open>PUT\<close> to the object follows, with
  the resource version of the body; after any other answer nothing follows. A dry run marks
  both writes. An answer to the last write outside of 200 to 299 is an error with its status.\<close>

theorem apply_sends:
  assumes "apply_resource env dn body clusterName dryRun w = (r, w')"
    and "cluster = or_else clusterName (or_else (current_cluster env) [])"
    and "mark = (if dryRun then ''?dryRun=All'' else [])"
  shows "case resourceDefToApiFactory env body clusterName w of
      (Inl e, w1) \<Rightarrow> r = Inl e \<and> w' = w1 \<and> (\<exists>rqs. sent_requests w' = sent_requests w @ rqs \<and>
         length rqs \<le> 1 \<and> (\<forall>rq \<in> set rqs. rq_method rq = ''GET''))
    | (Inr ep, _) \<Rightarrow> \<exists>g p ns.
        rq_method g = ''GET'' \<and> rq_url g = cluster_url env cluster
          ((if ep_group ep = [] then ''/api/'' else ''/apis/'') @ kb_apiVersion body) None \<and>
        ns = (if truthy (kb_namespace body) \<or> \<not> ep_namespaced ep then kb_namespace body
              else Some (if cluster = [] \<or> dn cluster = [] then ''default'' else dn cluster)) \<and>
        applied_write env cluster ep body ns None ''POST'' mark p \<and>
        (if answered env (sent_requests w @ [g]) p \<in> {403, 409}
         then \<exists>u. applied_write env cluster ep body ns (kb_resourceVersion body) ''PUT''
                    (''/'' @ kb_name body @ mark) u \<and>
                sent_requests w' = sent_requests w @ [g, p, u] \<and>
                reports_failure r (answered env (sent_requests w @ [g, p]) u)
         else sent_requests w' = sent_requests w @ [g, p] \<and>
              reports_failure r (answered env (sent_requests w @ [g]) p))"
proof (cases "resourceDefToApiFactory env body clusterName w")
  case (Pair x w1)
  show ?thesis
  proof (cases x)
    case (Inl e)
    with assms(1) Pair have "w' = w1 \<and> r = Inl e" by (simp add: apply_resource_def chain_def)
    moreover from endpoint_lookup_sends [OF Pair] obtain rqs where "sent_requests w1 = sent_requests w @ rqs"
      "length rqs \<le> 1" "\<forall>rq \<in> set rqs. rq_method rq = ''GET''" by blast
    ultimately show ?thesis using Pair Inl by auto
  next
    case (Inr ep)
    have c: "named_or_current env clusterName = cluster" by (simp add: assms(2) named_or_current_def)
    from Pair Inr have look: "resourceDefToApiFactory env body clusterName w = (Inr ep, w1)" by simp
    from endpoint_found [OF look] obtain g found where g: "sent_requests w1 = sent_requests w @ [g]"
      "rq_method g = ''GET''" "rq_url g = cluster_url env cluster
         (''/'' @ (if ep_group ep \<noteq> [] then ''apis'' else ''api'') @ ''/'' @ kb_apiVersion body) None"
      and st: "stored_for env w1 cluster = Resolved found" unfolding c by blast
    let ?name = "if truthy clusterName then clusterName else current_cluster env"
    have name: "or_else ?name [] = cluster" "named_or_current env ?name = cluster"
      using named_again [of env clusterName] c
      by (auto simp: assms(2) or_else_def split: option.split)
    define ns where "ns = (if truthy (kb_namespace body) \<or> \<not> ep_namespaced ep then kb_namespace body
              else Some (if cluster = [] \<or> dn cluster = [] then ''default'' else dn cluster))"
    define new where "new = body\<lparr>kb_namespace := ns\<rparr>"
    have new: "apply_body dn ep ?name body = new"
      unfolding apply_body_namespace name ns_def new_def ..
    let ?query = "Some (dry_run_query dryRun)"
    obtain q w2 where post: "ep_post env ep (new\<lparr>kb_resourceVersion := None\<rparr>) ?query ?name w1 = (q, w2)"
      by fastforce
    have mark: "asQuery ?query = mark" unfolding dry_run_text assms(3) ..
    from client_write [OF st post [unfolded ep_post_request name mark ep_url_path]] obtain p where
      p: "sent_requests w2 = sent_requests w @ [g, p]"
        "applied_write env cluster ep body ns None ''POST'' mark p"
      and st2: "stored_for env w2 cluster = Resolved found"
      and q: "q = (let a = response_of (server env (sent_requests w @ [g]) p) in
           if rs_ok a then json_result env a else Inl (Http_Error (error_message env True a) (Some (rs_status a))))"
      by (auto simp: g(1) new_def applied_write_def)
    let ?a = "response_of (server env (sent_requests w @ [g]) p)"
    have run: "handling (ep_post env ep (new\<lparr>kb_resourceVersion := None\<rparr>) ?query ?name)
       (\<lambda>err. case err of Stuck \<Rightarrow> throw_error Stuck
          | Http_Error m s \<Rightarrow> if s \<noteq> Some 409 \<and> s \<noteq> Some 403 then throw_error err
              else ep_put env ep new ?query ?name) w1 = (r, w')"
      using assms(1) unfolding apply_after_lookup [OF look] Let_def new .
    have url: "rq_url g = cluster_url env cluster
        ((if ep_group ep = [] then ''/api/'' else ''/apis/'') @ kb_apiVersion body) None"
      using g(3) by simp
    have main: "if answered env (sent_requests w @ [g]) p \<in> {403, 409}
         then \<exists>u. applied_write env cluster ep body ns (kb_resourceVersion body) ''PUT''
                    (''/'' @ kb_name body @ mark) u \<and>
                sent_requests w' = sent_requests w @ [g, p, u] \<and>
                reports_failure r (answered env (sent_requests w @ [g, p]) u)
         else sent_requests w' = sent_requests w @ [g, p] \<and>
              reports_failure r (answered env (sent_requests w @ [g]) p)"
    proof (cases "rs_status ?a \<in> {403, 409}")
      case True
      then have "\<not> rs_ok ?a" by (auto simp: rs_ok_def)
      with q True run post have put: "ep_put env ep new ?query ?name w2 = (r, w')"
        by (auto simp: handling_def Let_def)
      from client_write [OF st2 put [unfolded ep_put_request name mark append_assoc ep_url_path]] obtain u where
        u: "sent_requests w' = sent_requests w @ [g, p, u]"
          "applied_write env cluster ep body ns (kb_resourceVersion body) ''PUT'' (''/'' @ kb_name body @ mark) u"
        and r: "r = (let a = response_of (server env (sent_requests w @ [g, p]) u) in
           if rs_ok a then json_result env a else Inl (Http_Error (error_message env True a) (Some (rs_status a))))"
        by (auto simp: p(1) new_def applied_write_def)
      from True u json_answer_reports [OF r] show ?thesis by (auto simp: answered_def)
    next
      case False
      have "w' = w2 \<and> r = q"
        using run post q False
        by (auto simp: handling_def throw_error_def Let_def json_result_def split: if_splits option.splits)
      with False p(1) json_answer_reports [OF q] show ?thesis by (simp add: answered_def)
    qed
    show ?thesis
      unfolding look prod.case sum.case
      by (intro exI [of _ g] exI [of _ p] exI [of _ ns] conjI)
         (rule g(2) url ns_def p(2) main)+
  qed
qed

definition sample_body :: kube_body where
  "sample_body = \<lparr>kb_kind = ''Pod'', kb_apiVersion = ''v1'', kb_name = ''p'', kb_namespace = None,
     kb_resourceVersion = Some ''7'', kb_rest = JObj []\<rparr>"

definition sample_pods :: api_endpoint where
  "sample_pods = \<lparr>ep_group = [], ep_version = ''v1'', ep_resource = ''pods'', ep_namespaced = True\<rparr>"

theorem apply_sends_witness:
  "\<exists>g p u. sent_requests (snd (apply_resource (sample_http 409) (\<lambda>_. []) sample_body (Some ''dev'') True (fresh_http sample_http_store)))
       = [g, p, u] \<and>
     rq_url u = ''http://h:4466/clusters/dev/api/v1/namespaces/default/pods/p?dryRun=All'' \<and>
     rq_body u = Kube (sample_body\<lparr>kb_namespace := Some ''default''\<rparr>)"
proof -
  let ?env = "sample_http 409" and ?w = "fresh_http sample_http_store"
  let ?run = "apply_resource ?env (\<lambda>_. []) sample_body (Some ''dev'') True ?w"
  have c: "''dev'' = or_else (Some ''dev'') (or_else (current_cluster ?env) [])" by (simp add: or_else_def)
  have look: "fst (resourceDefToApiFactory ?env sample_body (Some ''dev'') ?w) = Inr sample_pods" by code_simp
  have run: "apply_resource ?env (\<lambda>_. []) sample_body (Some ''dev'') True ?w = (fst ?run, snd ?run)" by simp
  have answered: "answered ?env past p = 409" if "rq_method p = ''POST''" for past p
    using that by (simp add: answered_def sample_http_def response_of_def)
  have url: "cluster_url ?env ''dev'' (object_path sample_pods (Some ''default'') (''/'' @ kb_name sample_body @ ''?dryRun=All'')) None
      = ''http://h:4466/clusters/dev/api/v1/namespaces/default/pods/p?dryRun=All''" by code_simp
  have ns: "(if truthy (kb_namespace sample_body) \<or> \<not> ep_namespaced sample_pods then kb_namespace sample_body
      else Some (if ''dev'' = [] \<or> (\<lambda>_. []) ''dev'' = [] then ''default'' else (\<lambda>_. []) ''dev'')) = Some ''default''"
    by (simp add: sample_body_def sample_pods_def)
  have body: "sample_body\<lparr>kb_namespace := Some ''default'', kb_resourceVersion := kb_resourceVersion sample_body\<rparr>
      = sample_body\<lparr>kb_namespace := Some ''default''\<rparr>" by simp
  obtain w1 where found: "resourceDefToApiFactory ?env sample_body (Some ''dev'') ?w = (Inr sample_pods, w1)"
    using look by (cases "resourceDefToApiFactory ?env sample_body (Some ''dev'') ?w") simp
  from apply_sends [OF run c refl, unfolded found prod.case sum.case] obtain g p where
    "applied_write ?env ''dev'' sample_pods sample_body (Some ''default'') None ''POST'' ''?dryRun=All'' p"
    and main: "if answered ?env (sent_requests ?w @ [g]) p \<in> {403, 409}
         then \<exists>u. applied_write ?env ''dev'' sample_pods sample_body (Some ''default'') (kb_resourceVersion sample_body) ''PUT''
                    (''/'' @ kb_name sample_body @ ''?dryRun=All'') u \<and>
                sent_requests (snd ?run) = sent_requests ?w @ [g, p, u] \<and>
                reports_failure (fst ?run) (answered ?env (sent_requests ?w @ [g, p]) u)
         else sent_requests (snd ?run) = sent_requests ?w @ [g, p] \<and>
              reports_failure (fst ?run) (answered ?env (sent_requests ?w @ [g]) p)"
    unfolding ns if_True by blast
  then have "answered ?env (sent_requests ?w @ [g]) p \<in> {403, 409}"
    by (simp add: answered applied_write_def)
  from main [unfolded if_P [OF this]] obtain u where
    "applied_write ?env ''dev'' sample_pods sample_body (Some ''default'') (kb_resourceVersion sample_body) ''PUT''
       (''/'' @ kb_name sample_body @ ''?dryRun=All'') u"
    "sent_requests (snd ?run) = sent_requests ?w @ [g, p, u]"
    by blast
  then show ?thesis unfolding applied_write_def url body by (auto simp: fresh_http_def)
qed

section \<open>Several endpoints\<close>

text \<open>A call of one endpoint: it sends at most one request, to the address of that endpoint, and an
  error with a status is the status of the answer.\<close>

locale endpoint_call =
  fixes env :: http_env and func :: "api_endpoint \<Rightarrow> 'a http" and aim :: "api_endpoint \<Rightarrow> string"
  assumes sends: "func ep w = (r, w') \<Longrightarrow>
    \<exists>rqs. sent_requests w' = sent_requests w @ rqs \<and> length rqs \<le> 1 \<and> (\<forall>rq \<in> set rqs. rq_url rq = aim ep) \<and>
      (\<forall>m s. r = Inl (Http_Error m (Some s)) \<longrightarrow>
         (\<exists>rq. rqs = [rq] \<and> rs_status (response_of (server env (sent_requests w) rq)) = s))"
begin

text \<open>The requests go to the endpoints in their order, and every one before the last was answered
  with 404.\<close>

fun falls_back :: "http_request list \<Rightarrow> api_endpoint list \<Rightarrow> http_request list \<Rightarrow> bool" where
  "falls_back past [] rqs = (rqs = [])"
| "falls_back past (ep # eps) [] = True"
| "falls_back past (ep # eps) (rq # rqs) = (rq_url rq = aim ep \<and>
     (rqs = [] \<or> eps \<noteq> [] \<and> rs_status (response_of (server env past rq)) = 404 \<and> falls_back (past @ [rq]) eps rqs))"

lemma falls_back_length: "falls_back past eps rqs \<Longrightarrow> length rqs \<le> length eps"
  by (induction past eps rqs rule: falls_back.induct) auto

lemma falls_back_urls: "falls_back past eps rqs \<Longrightarrow> map rq_url rqs = map aim (take (length rqs) eps)"
  by (induction past eps rqs rule: falls_back.induct) auto

lemma falls_back_missing:
  "falls_back past eps rqs \<Longrightarrow> Suc i < length rqs \<Longrightarrow>
    rs_status (response_of (server env (past @ take i rqs) (rqs ! i))) = 404"
proof (induction past eps rqs arbitrary: i rule: falls_back.induct)
  case (3 past ep eps rq rqs)
  then show ?case by (cases i) (auto simp: less_Suc_eq)
qed auto

lemma repeated:
  assumes "repeatFactoryMethod func eps w = (r, w')"
  shows "\<exists>rqs. sent_requests w' = sent_requests w @ rqs \<and> falls_back (sent_requests w) eps rqs \<and>
    (\<forall>m. r = Inl (Http_Error m (Some 404)) \<longrightarrow> length rqs = length eps)"
  using assms
proof (induction eps arbitrary: w)
  case Nil
  then show ?case by (simp add: give_def)
next
  case (Cons ep eps)
  obtain q w1 where q: "func ep w = (q, w1)" by fastforce
  from sends [OF q] obtain rqs where rqs: "sent_requests w1 = sent_requests w @ rqs" "length rqs \<le> 1" "\<forall>rq \<in> set rqs. rq_url rq = aim ep"
    and error: "\<forall>m s. q = Inl (Http_Error m (Some s)) \<longrightarrow>
         (\<exists>rq. rqs = [rq] \<and> rs_status (response_of (server env (sent_requests w) rq)) = s)"
    by (elim exE conjE) (rule that; assumption)
  show ?case
  proof (cases "(\<exists>m. q = Inl (Http_Error m (Some 404))) \<and> eps \<noteq> []")
    case True
    then obtain m where m: "q = Inl (Http_Error m (Some 404))" and ne: "eps \<noteq> []" by blast
    from error m obtain rq where rq: "rqs = [rq]" "rs_status (response_of (server env (sent_requests w) rq)) = 404" by auto
    have "repeatFactoryMethod func (ep # eps) w = repeatFactoryMethod func eps w1"
      using q m ne by (simp add: handling_def chain_def)
    with Cons.prems have "repeatFactoryMethod func eps w1 = (r, w')" by simp
    from Cons.IH [OF this] obtain more where "sent_requests w' = sent_requests w1 @ more"
      "falls_back (sent_requests w1) eps more" "\<forall>m. r = Inl (Http_Error m (Some 404)) \<longrightarrow> length more = length eps" by blast
    with rqs rq ne show ?thesis by (intro exI [of _ "rq # more"]) auto
  next
    case False
    have "repeatFactoryMethod func (ep # eps) w = ((case q of Inl e \<Rightarrow> Inl e | Inr x \<Rightarrow> Inr (Some x)), w1)"
      using q False by (auto simp: handling_def chain_def throw_error_def give_def split: sum.splits http_error.splits)
    with Cons.prems have r: "r = (case q of Inl e \<Rightarrow> Inl e | Inr x \<Rightarrow> Inr (Some x))" "w' = w1" by auto
    have "falls_back (sent_requests w) (ep # eps) rqs" using rqs by (cases rqs) auto
    moreover have "length rqs = length (ep # eps)" if "r = Inl (Http_Error m (Some 404))" for m
    proof -
      from that r have "q = Inl (Http_Error m (Some 404))" by (auto split: sum.splits)
      with False error show ?thesis by auto
    qed
    ultimately show ?thesis using rqs(1) r(2) by blast
  qed
qed

end

definition delete_aim :: "http_env \<Rightarrow> string option \<Rightarrow> string \<Rightarrow> query_parameters option \<Rightarrow> string option \<Rightarrow> api_endpoint \<Rightarrow> string" where
  "delete_aim env namespace name query cluster ep =
     cluster_url env (named_or_current env cluster) (ep_url ep namespace @ ''/'' @ name @ asQuery query) None"

interpretation delete_calls: endpoint_call env "\<lambda>ep. ep_delete env ep namespace name query cluster"
    "delete_aim env namespace name query cluster" for env namespace name query cluster
proof
  fix ep w r w'
  assume "ep_delete env ep namespace name query cluster w = (r, w')"
  from clusterRequest_sends [OF this [unfolded ep_delete_request]]
  show "\<exists>rqs. sent_requests w' = sent_requests w @ rqs \<and> length rqs \<le> 1 \<and>
      (\<forall>rq \<in> set rqs. rq_url rq = delete_aim env namespace name query cluster ep) \<and>
      (\<forall>m s. r = Inl (Http_Error m (Some s)) \<longrightarrow>
         (\<exists>rq. rqs = [rq] \<and> rs_status (response_of (server env (sent_requests w) rq)) = s))"
    by (elim exE) (rule exI, auto simp: or_else_def delete_aim_def)
qed

text \<open>C28: Deleting an object through an interface of several versions asks the endpoints in their
  order, each at most once, goes on only after an answer with status 404, and itself fails with
  404 only when every endpoint was asked.\<close>

theorem endpoints_are_tried_in_order:
  assumes "repeatFactoryMethod (\<lambda>ep. ep_delete env ep namespace name query cluster) eps w = (r, w')"
  shows "\<exists>rqs. sent_requests w' = sent_requests w @ rqs \<and>
    map rq_url rqs = map (delete_aim env namespace name query cluster) (take (length rqs) eps) \<and> length rqs \<le> length eps \<and>
    (\<forall>i. Suc i < length rqs \<longrightarrow>
       rs_status (response_of (server env (sent_requests w @ take i rqs) (rqs ! i))) = 404) \<and>
    (\<forall>m. r = Inl (Http_Error m (Some 404)) \<longrightarrow> length rqs = length eps)"
proof -
  from delete_calls.repeated [OF assms] obtain rqs where rqs: "sent_requests w' = sent_requests w @ rqs"
    "\<forall>m. r = Inl (Http_Error m (Some 404)) \<longrightarrow> length rqs = length eps"
    and f: "delete_calls.falls_back env namespace name query cluster (sent_requests w) eps rqs" by blast
  from delete_calls.falls_back_length [OF f] delete_calls.falls_back_urls [OF f] delete_calls.falls_back_missing [OF f] rqs
  show ?thesis by blast
qed

definition deployments :: "string \<Rightarrow> api_endpoint" where
  "deployments g = \<lparr>ep_group = g, ep_version = ''v1'', ep_resource = ''deployments'', ep_namespaced = True\<rparr>"

text \<open>A server that only knows the group \<open>apps\<close>.\<close>

definition only_apps :: http_env where
  "only_apps = (sample_http 200)\<lparr>server := (\<lambda>past rq. Answer \<lparr>rs_status = (if str_includes (rq_url rq) ''/apis/apps/'' then 200 else 404),
     rs_statusText = ''Text'', rs_reload = None, rs_text = ''{}''\<rparr>)\<rparr>"

theorem endpoints_are_tried_in_order_witness:
  "\<exists>rqs. sent_requests (snd (repeatFactoryMethod (\<lambda>ep. ep_delete only_apps ep (Some ''n'') ''d'' None None)
       [deployments ''extensions'', deployments ''apps'', deployments ''old''] (fresh_http sample_http_store))) = rqs \<and>
     length rqs = 2 \<and> map rq_url rqs = map (delete_aim only_apps (Some ''n'') ''d'' None None) [deployments ''extensions'', deployments ''apps'']"
proof -
  let ?run = "repeatFactoryMethod (\<lambda>ep. ep_delete only_apps ep (Some ''n'') ''d'' None None)
       [deployments ''extensions'', deployments ''apps'', deployments ''old''] (fresh_http sample_http_store)"
  have "length (sent_requests (snd ?run)) = 2" by code_simp
  moreover have "sent_requests (fresh_http sample_http_store) = []" by (simp add: fresh_http_def)
  ultimately show ?thesis
    using endpoints_are_tried_in_order [of only_apps "Some ''n''" "''d''" None None
        "[deployments ''extensions'', deployments ''apps'', deployments ''old'']" "fresh_http sample_http_store" "fst ?run" "snd ?run"]
    by (auto simp: numeral_2_eq_2)
qed

section \<open>The clusters in the address\<close>




lemma hd_split_char: "c \<notin> set (hd (js_split [c] p))"
proof (cases "c \<in> set p")
  case True
  then obtain ys zs where "p = ys @ c # zs" "c \<notin> set ys" by (blast dest: split_list_first)
  then show ?thesis by (simp add: js_split.simps [of _ "ys @ _"] split_first_char)
next
  case False
  then show ?thesis by (simp add: js_split.simps [of _ p] split_first_char_None)
qed

lemma getCluster_is_first:
  assumes "truthy (Some p)"
  shows "getCluster (Some p) = Some (hd (js_split ''+'' p))"
proof (cases "str_includes p ''+''")
  case False
  then have "js_split ''+'' p = [p]"
    by (intro js_split_no_sep) (simp_all add: str_includes_sublist)
  then show ?thesis using assms False by (simp add: getCluster_def or_else_def)
qed (use assms in \<open>simp add: getCluster_def or_else_def\<close>)



text \<open>The group of clusters of an address never has more than one member, whatever the address:
  the current cluster is cut off before the list is split.\<close>

theorem cluster_group_is_one_cluster:
  "getClusterGroup d param = (case getCluster param of None \<Rightarrow> d | Some c \<Rightarrow> [c])"
proof (cases "getCluster param")
  case (Some c)
  then obtain p where p: "param = Some p" "truthy (Some p)"
    by (auto simp: getCluster_def truthy_def split: if_splits option.splits)
  have "c = hd (js_split ''+'' p)" using Some getCluster_is_first [OF p(2)] p(1) by simp
  then have "CHR ''+'' \<notin> set c" by (simp add: hd_split_char)
  then have "js_split ''+'' c = [c]" using js_split_join [of "[c]" "CHR ''+''"] by simp
  with Some show ?thesis by (simp add: getClusterGroup_def)
qed (simp add: getClusterGroup_def)

section \<open>A stream of several endpoints\<close>

text \<open>The endpoints were opened in their order, at most one stream is awaited or live, and its
  cancel function is the one that the closure holds.\<close>

definition stream_ok :: "nat \<Rightarrow> stream_state \<Rightarrow> bool" where
  [inv_defs]: "stream_ok n s \<longleftrightarrow> opened_ever s = [0..<endpointIndex s] \<and> endpointIndex s \<le> n \<and>
     length (pending s) + length (live s) \<le> 1 \<and> set (live s) \<subseteq> set_option (streamCancel s)"

lemma run_stream_ok:
  assumes "stream_ok n s" "endpointIndex s < n" "pending s = []" "live s = []"
  shows "stream_ok n (run_stream s)"
  using assms by (simp add: stream_ok_def run_stream_def)

interpretation streams: reducer "stream_step n" "stream_ok n" for n
proof
  fix s e assume ok: "stream_ok n s"
  show "stream_ok n (stream_step n s e)"
  proof (cases e)
    case (Opened i)
    show ?thesis
    proof (cases "i \<in> set (pending s)")
      case True
      with ok have "pending s = [i]" "live s = []" by (cases "pending s"; auto simp: stream_ok_def)+
      with ok Opened show ?thesis by (simp add: stream_ok_def stream_step_def)
    qed (use ok Opened in \<open>simp add: stream_step_def\<close>)
  next
    case (Failed i status)
    show ?thesis
    proof (cases "i \<in> set (live s) \<and> \<not> isCancelled s \<and> status = 404 \<and> endpointIndex s < n")
      case True
      with ok have l: "pending s = []" "live s = [i]" by (cases "live s"; auto simp: stream_ok_def)+
      have "stream_ok n (run_stream (s\<lparr>live := []\<rparr>))"
        by (rule run_stream_ok) (use ok True l in \<open>simp_all add: stream_ok_def\<close>)
      with True Failed l show ?thesis by (simp add: stream_step_def)
    next
      case False
      with ok Failed show ?thesis by (auto simp: stream_step_def stream_ok_def)
    qed
  next
    case Cancel
    have l: "length (removeAll i (live s)) \<le> length (live s)" for i by (simp add: removeAll_filter_not_eq)
    show ?thesis
    proof (cases "streamCancel s")
      case (Some i)
      have "length (pending s) + length (removeAll i (live s)) \<le> 1"
        using ok l [of i] unfolding stream_ok_def by linarith
      with ok Cancel Some show ?thesis by (auto simp: stream_step_def stream_ok_def)
    qed (use ok Cancel in \<open>simp add: stream_step_def\<close>)
  qed
qed

definition settled_stream :: "stream_state \<Rightarrow> bool" where
  "settled_stream s \<longleftrightarrow> isCancelled s \<and> pending s = [] \<and> live s = []"

lemma settled_stays: "settled_stream s \<Longrightarrow> foldl (stream_step n) s es = s"
proof (induction es)
  case (Cons e es)
  then have "stream_step n s e = s" by (cases e) (auto simp: settled_stream_def stream_step_def split: option.splits)
  with Cons show ?case by simp
qed simp

text \<open>A stream over several endpoints opens each of them at most once and in order, has at most
  one stream at a time, and after the caller has cancelled it, unless a next stream was just being
  opened, nothing is open and nothing is opened or reported again.\<close>

theorem cancelled_streams_stay_cancelled:
  fixes n :: nat and es :: "stream_event list"
  assumes "0 < n"
  defines "s \<equiv> foldl (stream_step n) repeatStreamFunc es"
  shows "opened_ever s = [0..<endpointIndex s] \<and> endpointIndex s \<le> n \<and> length (live s) \<le> 1 \<and>
    (streamCancel s \<noteq> None \<and> pending s = [] \<longrightarrow>
       (\<forall>later. let t = foldl (stream_step n) s (Cancel # later)
                in live t = [] \<and> pending t = [] \<and> opened_ever t = opened_ever s \<and> reported t = reported s))"
proof -
  have "stream_ok n repeatStreamFunc"
    using assms(1) by (simp add: repeatStreamFunc_def stream_ok_def run_stream_def)
  then have ok: "stream_ok n s" unfolding s_def by (rule streams.run_inv)
  have "live t = [] \<and> pending t = [] \<and> opened_ever t = opened_ever s \<and> reported t = reported s"
    if "streamCancel s \<noteq> None" "pending s = []" and t: "t = foldl (stream_step n) s (Cancel # later)" for later t
  proof -
    from that(1) obtain i where i: "streamCancel s = Some i" by blast
    with ok have "removeAll i (live s) = []" by (auto simp: stream_ok_def filter_empty_conv removeAll_filter_not_eq)
    then have c: "stream_step n s Cancel = s\<lparr>isCancelled := True, live := []\<rparr>" using i by (simp add: stream_step_def)
    have "settled_stream (stream_step n s Cancel)" using that(2) c by (simp add: settled_stream_def)
    from settled_stays [OF this] t have "t = s\<lparr>isCancelled := True, live := []\<rparr>" using c by simp
    then show ?thesis using that(2) by simp
  qed
  then have "streamCancel s \<noteq> None \<and> pending s = [] \<longrightarrow> (\<forall>later. let t = foldl (stream_step n) s (Cancel # later)
      in live t = [] \<and> pending t = [] \<and> opened_ever t = opened_ever s \<and> reported t = reported s)"
    unfolding Let_def by blast
  moreover have "length (live s) \<le> 1" using ok by (simp add: stream_ok_def)
  ultimately show ?thesis using ok unfolding stream_ok_def by blast
qed

theorem cancelled_streams_stay_cancelled_witness:
  "let s = foldl (stream_step 2) repeatStreamFunc [Opened 0, Failed 0 404, Opened 1] in
     live s = [1] \<and> live (foldl (stream_step 2) s [Cancel, Failed 1 500]) = []"
proof -
  let ?s = "foldl (stream_step 2) repeatStreamFunc [Opened 0, Failed 0 404, Opened 1]"
  have s: "live ?s = [1]" "streamCancel ?s \<noteq> None" "pending ?s = []" by code_simp+
  have "(0 :: nat) < 2" by simp
  from cancelled_streams_stay_cancelled [OF this, of "[Opened 0, Failed 0 404, Opened 1]"]
  have "\<forall>later. live (foldl (stream_step 2) ?s (Cancel # later)) = []" using s(2,3) unfolding Let_def by metis
  with s show ?thesis unfolding Let_def by blast
qed

end
