(* ===== verification/LegacySockets.thy ===== *)
theory LegacySockets
  imports Urls Stateless
begin

text \<open>
  The sockets that watch lists and objects when the multiplexer is switched off:
  \<^verbatim>\<open>frontend/src/lib/k8s/api/v2/webSocket.ts\<close>. The two maps of the module, the promises of
  sockets that are being opened and the sockets themselves are one state; an event is a run of the
  effect of \<open>useWebSockets\<close>, its cleanup, a promise that settles, a message, or a connection that
  the server ends. Callbacks are named by numbers.
\<close>

section \<open>Opening a socket\<close>

text \<open>\<open>getAppUrl().replace('http', 'ws')\<close>: the first occurrence only.\<close>

definition getBaseWsUrl :: "string \<Rightarrow> string" where
  "getBaseWsUrl app_url = (case split_first ''http'' app_url of None \<Rightarrow> app_url | Some (a, b) \<Rightarrow> a @ ''ws'' @ b)"

text \<open>\<open>...(moreProtocols ?? [])\<close>: spreading a string gives its characters.\<close>

definition spread_protocols :: "(string + string list) option \<Rightarrow> string list" where
  "spread_protocols p = (case p of None \<Rightarrow> [] | Some (Inl s) \<Rightarrow> map (\<lambda>c. [c]) s | Some (Inr ps) \<Rightarrow> ps)"

text \<open>The address and the protocols of the socket. A failing lookup is logged; one that never
  settles opens no socket.\<close>

definition openWebSocket ::
  "string \<Rightarrow> string \<Rightarrow> string \<Rightarrow> (string + string list) option \<Rightarrow> string \<Rightarrow> 't option settled
    \<Rightarrow> (string \<times> string list) option" where
  "openWebSocket app_url user_id url moreProtocols cluster lookup =
    (let protocols = ''base64.binary.k8s.io'' # spread_protocols moreProtocols;
         address = (\<lambda>path. makeUrl (Inr (getBaseWsUrl app_url # path)) [])
     in if cluster = [] then Some (address [url], protocols)
        else (case lookup of
            Never \<Rightarrow> None
          | Rejected_With _ \<Rightarrow> Some (address [''clusters'', cluster, url], protocols)
          | Resolved None \<Rightarrow> Some (address [''clusters'', cluster, url], protocols)
          | Resolved (Some _) \<Rightarrow> Some (address [''clusters'', cluster, url],
               protocols @ [''base64url.headlamp.authorization.k8s.io.'' @ user_id])))"

section \<open>State\<close>

record ws_request =
  wc_cluster :: string
  wc_url :: string
  wc_onMessage :: nat

datatype ws_entry = Entry_Pending | Entry_Socket nat

record open_call =
  oc_key :: string
  oc_hook :: nat
  oc_callback :: nat

record ws_socket =
  sk_key :: string
  sk_callback :: nat
  sk_open :: bool

record 'm ws_world =
  sockets :: "(string, ws_entry) dict"
  ws_listeners :: "(string, nat list) dict"
  open_calls :: "open_call list"
  opened_sockets :: "ws_socket list"
  mounted :: "(nat \<times> ws_request list) list"
  next_hook :: nat
  deliveries :: "(nat \<times> 'm) list"

definition no_sockets :: "'m ws_world" where
  "no_sockets = \<lparr>sockets = [], ws_listeners = [], open_calls = [], opened_sockets = [], mounted = [],
     next_hook = 0, deliveries = []\<rparr>"

definition connection_key :: "ws_request \<Rightarrow> string" where
  "connection_key r = wc_cluster r @ wc_url r"

definition listeners_of :: "'m ws_world \<Rightarrow> string \<Rightarrow> nat list" where
  "listeners_of s k = (case dict_get (ws_listeners s) k of None \<Rightarrow> [] | Some l \<Rightarrow> l)"

section \<open>useWebSockets\<close>

definition connect :: "nat \<Rightarrow> ws_request \<Rightarrow> 'm ws_world \<Rightarrow> 'm ws_world" where
  [state_defs]: "connect h r s =
    (let k = connection_key r
     in if dict_has (sockets s) k then s
        else s\<lparr>ws_listeners := dict_set k (listeners_of s k @ [wc_onMessage r]) (ws_listeners s),
               sockets := dict_set k Entry_Pending (sockets s),
               open_calls := open_calls s @ [\<lparr>oc_key = k, oc_hook = h, oc_callback = wc_onMessage r\<rparr>]\<rparr>)"

definition close_socket :: "nat \<Rightarrow> 'm ws_world \<Rightarrow> 'm ws_world" where
  [state_defs]: "close_socket i s = s\<lparr>opened_sockets := (opened_sockets s)[i := (opened_sockets s ! i)\<lparr>sk_open := False\<rparr>]\<rparr>"

definition disconnect :: "ws_request \<Rightarrow> 'm ws_world \<Rightarrow> 'm ws_world" where
  [state_defs]: "disconnect r s =
    (let k = connection_key r;
         newListeners = filter (\<lambda>it. it \<noteq> wc_onMessage r) (listeners_of s k);
         s1 = s\<lparr>ws_listeners := dict_set k newListeners (ws_listeners s)\<rparr>
     in if newListeners = []
        then (case dict_get (sockets s1) k of
            None \<Rightarrow> s1
          | Some Entry_Pending \<Rightarrow> s1\<lparr>sockets := dict_delete k (sockets s1)\<rparr>
          | Some (Entry_Socket i) \<Rightarrow> (close_socket i s1)\<lparr>sockets := dict_delete k (sockets s1)\<rparr>)
        else s1)"

definition is_current :: "'m ws_world \<Rightarrow> nat \<Rightarrow> bool" where
  "is_current s h = (h \<in> fst ` set (mounted s))"

text \<open>The promise of \<open>openWebSocket\<close> settles.\<close>

definition socket_opened :: "open_call \<Rightarrow> 'm ws_world \<Rightarrow> 'm ws_world" where
  [state_defs]: "socket_opened c s =
    (let i = length (opened_sockets s)
     in if is_current s (oc_hook c)
        then s\<lparr>opened_sockets := opened_sockets s @ [\<lparr>sk_key = oc_key c, sk_callback = oc_callback c, sk_open = True\<rparr>],
               sockets := dict_set (oc_key c) (Entry_Socket i) (sockets s)\<rparr>
        else s\<lparr>opened_sockets := opened_sockets s @ [\<lparr>sk_key = oc_key c, sk_callback = oc_callback c, sk_open = False\<rparr>],
               sockets := dict_delete (oc_key c) (sockets s)\<rparr>)"

datatype 'm ws_event = Mount bool "ws_request list" | Unmount nat | Connected nat | Not_Connected nat
  | Message nat 'm | Dropped nat

definition drop_nth :: "nat \<Rightarrow> 'a list \<Rightarrow> 'a list" where
  "drop_nth i xs = take i xs @ drop (Suc i) xs"

text \<open>Effects run with a new number each; events about calls and sockets that do not exist do
  nothing. A disabled hook registers nothing and has no cleanup.\<close>

definition ws_step :: "'m ws_world \<Rightarrow> 'm ws_event \<Rightarrow> 'm ws_world" where
  [state_defs]: "ws_step s e = (case e of
     Mount enabled rs \<Rightarrow> if \<not> enabled then s
       else fold (connect (next_hook s)) rs
              (s\<lparr>mounted := mounted s @ [(next_hook s, rs)], next_hook := Suc (next_hook s)\<rparr>)
   | Unmount h \<Rightarrow> (case map_of (mounted s) h of
       None \<Rightarrow> s
     | Some rs \<Rightarrow> fold disconnect rs (s\<lparr>mounted := filter (\<lambda>m. fst m \<noteq> h) (mounted s)\<rparr>))
   | Connected i \<Rightarrow> if i < length (open_calls s)
       then socket_opened (open_calls s ! i) (s\<lparr>open_calls := drop_nth i (open_calls s)\<rparr>) else s
   | Not_Connected i \<Rightarrow> s\<lparr>open_calls := drop_nth i (open_calls s)\<rparr>
   | Message i m \<Rightarrow> if i < length (opened_sockets s) \<and> sk_open (opened_sockets s ! i)
       then s\<lparr>deliveries := deliveries s @ [(sk_callback (opened_sockets s ! i), m)]\<rparr> else s
   | Dropped i \<Rightarrow> if i < length (opened_sockets s) then close_socket i s else s)"

section \<open>Hooks that wait for their sockets\<close>

text \<open>A hook of this environment is not unmounted while it is still connecting, and no two mounted
  hooks have a callback in common.\<close>

definition callbacks_of :: "'m ws_world \<Rightarrow> nat set" where
  "callbacks_of s = (\<Union>m \<in> set (mounted s). wc_onMessage ` set (snd m))"

definition patient :: "'m ws_world \<Rightarrow> 'm ws_event \<Rightarrow> bool" where
  "patient s e = (case e of
     Unmount h \<Rightarrow> \<forall>c \<in> set (open_calls s). oc_hook c \<noteq> h
   | Mount _ rs \<Rightarrow> wc_onMessage ` set rs \<inter> callbacks_of s = {}
   | _ \<Rightarrow> True)"

fun patient_run :: "'m ws_world \<Rightarrow> 'm ws_event list \<Rightarrow> bool" where
  "patient_run s [] = True"
| "patient_run s (e # es) = (patient s e \<and> patient_run (ws_step s e) es)"

text \<open>What holds of the maps and the sockets.\<close>

definition maps_ok :: "'m ws_world \<Rightarrow> bool" where
  [inv_defs]: "maps_ok s \<longleftrightarrow>
     (\<forall>k. dict_has (sockets s) k \<longrightarrow> listeners_of s k \<noteq> []) \<and>
     (\<forall>i < length (opened_sockets s). sk_open (opened_sockets s ! i) \<longrightarrow>
        dict_get (sockets s) (sk_key (opened_sockets s ! i)) = Some (Entry_Socket i)) \<and>
     (\<forall>k i. dict_get (sockets s) k = Some (Entry_Socket i) \<longrightarrow>
        i < length (opened_sockets s) \<and> sk_key (opened_sockets s ! i) = k) \<and>
     (\<forall>c \<in> set (open_calls s). dict_get (sockets s) (oc_key c) = Some Entry_Pending \<and>
        oc_callback c \<in> set (listeners_of s (oc_key c))) \<and>
     distinct (map oc_key (open_calls s))"

text \<open>What connects them to the mounted hooks.\<close>

definition requested :: "(nat \<times> ws_request list) list \<Rightarrow> string \<Rightarrow> nat \<Rightarrow> bool" where
  "requested ms k cb \<longleftrightarrow> (\<exists>m \<in> set ms. \<exists>r \<in> set (snd m). connection_key r = k \<and> wc_onMessage r = cb)"

definition hooks_ok :: "'m ws_world \<Rightarrow> bool" where
  [inv_defs]: "hooks_ok s \<longleftrightarrow>
     (\<forall>k. \<forall>cb \<in> set (listeners_of s k). requested (mounted s) k cb) \<and>
     (\<forall>c \<in> set (open_calls s). \<exists>rs. (oc_hook c, rs) \<in> set (mounted s) \<and> oc_callback c \<in> wc_onMessage ` set rs) \<and>
     distinct (map fst (mounted s)) \<and> (\<forall>m \<in> set (mounted s). fst m < next_hook s) \<and>
     (\<forall>m \<in> set (mounted s). \<forall>n \<in> set (mounted s). fst m \<noteq> fst n \<longrightarrow>
        wc_onMessage ` set (snd m) \<inter> wc_onMessage ` set (snd n) = {})"

lemma maps_okD:
  assumes "maps_ok s"
  shows "dict_has (sockets s) k \<Longrightarrow> listeners_of s k \<noteq> []"
    and "i < length (opened_sockets s) \<Longrightarrow> sk_open (opened_sockets s ! i) \<Longrightarrow>
        dict_get (sockets s) (sk_key (opened_sockets s ! i)) = Some (Entry_Socket i)"
    and "dict_get (sockets s) k = Some (Entry_Socket i) \<Longrightarrow> i < length (opened_sockets s) \<and> sk_key (opened_sockets s ! i) = k"
    and "c \<in> set (open_calls s) \<Longrightarrow> dict_get (sockets s) (oc_key c) = Some Entry_Pending"
    and "c \<in> set (open_calls s) \<Longrightarrow> oc_callback c \<in> set (listeners_of s (oc_key c))"
    and "distinct (map oc_key (open_calls s))"
  using assms unfolding maps_ok_def by blast+

lemma listeners_of_update:
  "listeners_of (s\<lparr>ws_listeners := dict_set k l d\<rparr>) j = (if j = k then l else listeners_of (s\<lparr>ws_listeners := d\<rparr>) j)"
  by (simp add: listeners_of_def)

lemma listeners_of_cong: "ws_listeners s = ws_listeners t \<Longrightarrow> listeners_of s k = listeners_of t k"
  by (simp add: listeners_of_def)

lemma connect_fields:
  "mounted (connect h r s) = mounted s" "next_hook (connect h r s) = next_hook s"
  "opened_sockets (connect h r s) = opened_sockets s" "deliveries (connect h r s) = deliveries s"
  by (simp_all add: connect_def Let_def)

lemma connect_listeners:
  "listeners_of (connect h r s) k = (if k = connection_key r \<and> \<not> dict_has (sockets s) k then listeners_of s k @ [wc_onMessage r] else listeners_of s k)"
  by (simp add: connect_def Let_def listeners_of_def)

lemma connect_sockets:
  "dict_get (sockets (connect h r s)) k = (if k = connection_key r \<and> \<not> dict_has (sockets s) k then Some Entry_Pending else dict_get (sockets s) k)"
  by (auto simp: connect_def Let_def)

lemma connect_calls:
  "open_calls (connect h r s) = open_calls s @ (if dict_has (sockets s) (connection_key r) then []
     else [\<lparr>oc_key = connection_key r, oc_hook = h, oc_callback = wc_onMessage r\<rparr>])"
  by (simp add: connect_def Let_def)

lemma connect_maps_ok:
  assumes ok: "maps_ok s"
  shows "maps_ok (connect h r s)"
proof (cases "dict_has (sockets s) (connection_key r)")
  case True
  then have "connect h r s = s" by (simp add: connect_def Let_def)
  with ok show ?thesis by simp
next
  case False
  let ?k = "connection_key r"
  from False have none: "dict_get (sockets s) ?k = None" by (simp add: dict_has_def)
  have "oc_key c \<noteq> ?k" if "c \<in> set (open_calls s)" for c
    using maps_okD(4) [OF ok that] none by auto
  then have calls: "distinct (map oc_key (open_calls (connect h r s)))"
    using maps_okD(6) [OF ok] False by (force simp: connect_calls)
  show ?thesis
    unfolding maps_ok_def
  proof (intro conjI allI impI ballI calls)
    fix k assume "dict_has (sockets (connect h r s)) k"
    then have "k = ?k \<or> dict_has (sockets s) k" by (auto simp: dict_has_def connect_sockets split: if_splits)
    then show "listeners_of (connect h r s) k \<noteq> []"
      using maps_okD(1) [OF ok] False by (auto simp: connect_listeners)
  next
    fix i assume "i < length (opened_sockets (connect h r s))" "sk_open (opened_sockets (connect h r s) ! i)"
    with maps_okD(2) [OF ok, of i] none
    show "dict_get (sockets (connect h r s)) (sk_key (opened_sockets (connect h r s) ! i)) = Some (Entry_Socket i)"
      by (auto simp: connect_fields connect_sockets)
  next
    fix k i assume "dict_get (sockets (connect h r s)) k = Some (Entry_Socket i)"
    with maps_okD(3) [OF ok, of k i]
    show "i < length (opened_sockets (connect h r s))" "sk_key (opened_sockets (connect h r s) ! i) = k"
      by (auto simp: connect_fields connect_sockets split: if_splits)
  next
    fix c assume "c \<in> set (open_calls (connect h r s))"
    then consider (old) "c \<in> set (open_calls s)" | (new) "c = \<lparr>oc_key = ?k, oc_hook = h, oc_callback = wc_onMessage r\<rparr>"
      by (auto simp: connect_calls split: if_splits)
    note c = this
    show "dict_get (sockets (connect h r s)) (oc_key c) = Some Entry_Pending"
      using c by cases (auto simp: connect_sockets False dest: maps_okD(4) [OF ok])
    show "oc_callback c \<in> set (listeners_of (connect h r s) (oc_key c))"
      using c by cases (auto simp: connect_listeners False dest: maps_okD(5) [OF ok])
  qed
qed

lemma disconnect_fields:
  "mounted (disconnect r s) = mounted s" "next_hook (disconnect r s) = next_hook s"
  "open_calls (disconnect r s) = open_calls s" "deliveries (disconnect r s) = deliveries s"
  "length (opened_sockets (disconnect r s)) = length (opened_sockets s)"
  by (simp_all add: disconnect_def close_socket_def Let_def split: option.split ws_entry.split)

lemma disconnect_listeners:
  "listeners_of (disconnect r s) k = (if k = connection_key r then filter (\<lambda>it. it \<noteq> wc_onMessage r) (listeners_of s k) else listeners_of s k)"
  by (simp add: disconnect_def close_socket_def Let_def listeners_of_def split: option.split ws_entry.split)

lemma disconnect_sockets:
  "dict_get (sockets (disconnect r s)) k =
     (if k = connection_key r \<and> filter (\<lambda>it. it \<noteq> wc_onMessage r) (listeners_of s k) = [] then None else dict_get (sockets s) k)"
  by (simp add: disconnect_def close_socket_def Let_def split: option.split ws_entry.split)

lemma nth_update_self: "i < length xs \<Longrightarrow> xs[j := f (xs ! j)] ! i = (if i = j then f (xs ! i) else xs ! i)"
  by (cases "i = j") simp_all

lemma disconnect_opened:
  assumes "i < length (opened_sockets s)"
  shows "sk_key (opened_sockets (disconnect r s) ! i) = sk_key (opened_sockets s ! i)"
    and "sk_open (opened_sockets (disconnect r s) ! i) \<longleftrightarrow> sk_open (opened_sockets s ! i) \<and>
      \<not> (dict_get (sockets s) (connection_key r) = Some (Entry_Socket i) \<and>
         filter (\<lambda>it. it \<noteq> wc_onMessage r) (listeners_of s (connection_key r)) = [])"
  using assms
  by (auto simp: disconnect_def close_socket_def Let_def nth_update_self split: option.split ws_entry.split)

lemma disconnect_maps_ok:
  assumes ok: "maps_ok s" and apart: "\<forall>c \<in> set (open_calls s). oc_callback c \<noteq> wc_onMessage r"
  shows "maps_ok (disconnect r s)"
  unfolding maps_ok_def disconnect_fields
proof (intro conjI allI impI ballI)
  let ?k = "connection_key r"
  fix k assume "dict_has (sockets (disconnect r s)) k"
  then show "listeners_of (disconnect r s) k \<noteq> []"
    using maps_okD(1) [OF ok, of k] by (auto simp: dict_has_def disconnect_sockets disconnect_listeners split: if_splits)
next
  fix i assume i: "i < length (opened_sockets s)" "sk_open (opened_sockets (disconnect r s) ! i)"
  from i(2) have o: "sk_open (opened_sockets s ! i)" and
    n: "\<not> (dict_get (sockets s) (connection_key r) = Some (Entry_Socket i) \<and>
         filter (\<lambda>it. it \<noteq> wc_onMessage r) (listeners_of s (connection_key r)) = [])"
    unfolding disconnect_opened(2) [OF i(1)] by blast+
  from maps_okD(2) [OF ok i(1) o] n
  show "dict_get (sockets (disconnect r s)) (sk_key (opened_sockets (disconnect r s) ! i)) = Some (Entry_Socket i)"
    unfolding disconnect_opened(1) [OF i(1)] disconnect_sockets by auto
next
  fix k i assume "dict_get (sockets (disconnect r s)) k = Some (Entry_Socket i)"
  then have "dict_get (sockets s) k = Some (Entry_Socket i)" by (simp add: disconnect_sockets split: if_splits)
  from maps_okD(3) [OF ok this]
  show "i < length (opened_sockets s)" "sk_key (opened_sockets (disconnect r s) ! i) = k"
    by (simp_all add: disconnect_opened(1))
next
  fix c assume c: "c \<in> set (open_calls s)"
  then have in_l: "oc_callback c \<in> set (listeners_of s (oc_key c))" and ne: "oc_callback c \<noteq> wc_onMessage r"
    using maps_okD(5) [OF ok] apart by auto
  then show "oc_callback c \<in> set (listeners_of (disconnect r s) (oc_key c))" by (auto simp: disconnect_listeners)
  from in_l ne have "filter (\<lambda>it. it \<noteq> wc_onMessage r) (listeners_of s (oc_key c)) \<noteq> []"
    by (auto simp: filter_empty_conv)
  with maps_okD(4) [OF ok c] show "dict_get (sockets (disconnect r s)) (oc_key c) = Some Entry_Pending"
    by (simp add: disconnect_sockets)
next
  show "distinct (map oc_key (open_calls s))" by (rule maps_okD(6) [OF ok])
qed

lemma hooks_okD:
  assumes "hooks_ok s"
  shows "cb \<in> set (listeners_of s k) \<Longrightarrow> requested (mounted s) k cb"
    and "c \<in> set (open_calls s) \<Longrightarrow> \<exists>rs. (oc_hook c, rs) \<in> set (mounted s) \<and> oc_callback c \<in> wc_onMessage ` set rs"
    and "distinct (map fst (mounted s))" and "m \<in> set (mounted s) \<Longrightarrow> fst m < next_hook s"
    and "m \<in> set (mounted s) \<Longrightarrow> n \<in> set (mounted s) \<Longrightarrow> fst m \<noteq> fst n \<Longrightarrow>
      wc_onMessage ` set (snd m) \<inter> wc_onMessage ` set (snd n) = {}"
  using assms unfolding hooks_ok_def by blast+

lemma hooks_okI:
  assumes "\<And>k cb. cb \<in> set (listeners_of s k) \<Longrightarrow> requested (mounted s) k cb"
    and "\<And>c. c \<in> set (open_calls s) \<Longrightarrow> \<exists>rs. (oc_hook c, rs) \<in> set (mounted s) \<and> oc_callback c \<in> wc_onMessage ` set rs"
    and "distinct (map fst (mounted s))" and "\<And>m. m \<in> set (mounted s) \<Longrightarrow> fst m < next_hook s"
    and "\<And>m n. m \<in> set (mounted s) \<Longrightarrow> n \<in> set (mounted s) \<Longrightarrow> fst m \<noteq> fst n \<Longrightarrow>
      wc_onMessage ` set (snd m) \<inter> wc_onMessage ` set (snd n) = {}"
  shows "hooks_ok s"
  using assms unfolding hooks_ok_def by blast

lemma connect_hooks_ok:
  assumes ok: "hooks_ok s" and m: "(h, rs) \<in> set (mounted s)" "r \<in> set rs"
  shows "hooks_ok (connect h r s)"
proof (rule hooks_okI; unfold connect_fields)
  fix k cb assume "cb \<in> set (listeners_of (connect h r s) k)"
  then show "requested (mounted s) k cb"
    using hooks_okD(1) [OF ok, of cb k] m by (force simp: connect_listeners requested_def split: if_splits)
next
  fix c assume "c \<in> set (open_calls (connect h r s))"
  then show "\<exists>rs. (oc_hook c, rs) \<in> set (mounted s) \<and> oc_callback c \<in> wc_onMessage ` set rs"
    using hooks_okD(2) [OF ok, of c] m by (auto simp: connect_calls split: if_splits)
qed (use hooks_okD(3-5) [OF ok] in blast)+

lemma fold_connect_ok:
  assumes "maps_ok s" "hooks_ok s" "(h, rs) \<in> set (mounted s)" "set xs \<subseteq> set rs"
  shows "maps_ok (fold (connect h) xs s) \<and> hooks_ok (fold (connect h) xs s)"
  using assms
proof (induction xs arbitrary: s)
  case (Cons r xs)
  have "maps_ok (connect h r s)" "hooks_ok (connect h r s)"
    using Cons.prems by (auto intro: connect_maps_ok connect_hooks_ok)
  with Cons show ?case by (simp add: connect_fields)
qed simp

lemma fold_disconnect_fields:
  "mounted (fold disconnect rs s) = mounted s" "next_hook (fold disconnect rs s) = next_hook s"
  "open_calls (fold disconnect rs s) = open_calls s"
  by (induction rs arbitrary: s) (simp_all add: disconnect_fields)

lemma fold_disconnect_listeners:
  "listeners_of (fold disconnect rs s) k =
     filter (\<lambda>cb. \<not> (\<exists>r \<in> set rs. connection_key r = k \<and> wc_onMessage r = cb)) (listeners_of s k)"
  by (induction rs arbitrary: s) (auto simp: disconnect_listeners intro!: filter_cong)

lemma fold_disconnect_maps_ok:
  assumes "maps_ok s" "\<forall>c \<in> set (open_calls s). oc_callback c \<notin> wc_onMessage ` set rs"
  shows "maps_ok (fold disconnect rs s)"
  using assms
proof (induction rs arbitrary: s)
  case (Cons r rs)
  have "maps_ok (disconnect r s)" using Cons.prems by (intro disconnect_maps_ok) auto
  with Cons show ?case by (simp add: disconnect_fields)
qed simp

lemma maps_ok_cong:
  assumes "sockets s = sockets t" "ws_listeners s = ws_listeners t" "opened_sockets s = opened_sockets t"
    "open_calls s = open_calls t"
  shows "maps_ok s = maps_ok t"
  unfolding maps_ok_def assms listeners_of_cong [OF assms(2)] ..

lemma mount_ok:
  assumes ok: "maps_ok s" "hooks_ok s" and fresh: "wc_onMessage ` set rs \<inter> callbacks_of s = {}"
  shows "maps_ok (ws_step s (Mount True rs)) \<and> hooks_ok (ws_step s (Mount True rs))"
proof -
  let ?s = "s\<lparr>mounted := mounted s @ [(next_hook s, rs)], next_hook := Suc (next_hook s)\<rparr>"
  have l: "listeners_of ?s k = listeners_of s k" for k by (rule listeners_of_cong) simp
  have "maps_ok ?s" using ok(1) by (subst maps_ok_cong [of _ s]) simp_all
  moreover have "hooks_ok ?s"
  proof (rule hooks_okI)
    fix k cb assume "cb \<in> set (listeners_of ?s k)"
    then show "requested (mounted ?s) k cb"
      using hooks_okD(1) [OF ok(2), of cb k] by (auto simp: l requested_def)
  next
    fix c assume "c \<in> set (open_calls ?s)"
    then show "\<exists>rs. (oc_hook c, rs) \<in> set (mounted ?s) \<and> oc_callback c \<in> wc_onMessage ` set rs"
      using hooks_okD(2) [OF ok(2), of c] by auto
  next
    show "distinct (map fst (mounted ?s))" using hooks_okD(3) [OF ok(2)] hooks_okD(4) [OF ok(2)] by fastforce
  next
    fix m assume "m \<in> set (mounted ?s)"
    then show "fst m < next_hook ?s" using hooks_okD(4) [OF ok(2), of m] by auto
  next
    fix m n assume mn: "m \<in> set (mounted ?s)" "n \<in> set (mounted ?s)" "fst m \<noteq> fst n"
    have new: "wc_onMessage ` set rs \<inter> wc_onMessage ` set (snd x) = {}" if "x \<in> set (mounted s)" for x
      using fresh that by (auto simp: callbacks_of_def)
    from mn(1,2) consider "m \<in> set (mounted s)" "n \<in> set (mounted s)" | "m \<in> set (mounted s)" "snd n = rs" "fst n = next_hook s"
      | "n \<in> set (mounted s)" "snd m = rs" "fst m = next_hook s" | "fst m = fst n" by auto
    then show "wc_onMessage ` set (snd m) \<inter> wc_onMessage ` set (snd n) = {}"
    proof cases
      case 1
      then show ?thesis by (rule hooks_okD(5) [OF ok(2)]) (rule mn(3))
    next
      case 2
      then show ?thesis using new [of m] by (simp add: Int_commute)
    next
      case 3
      then show ?thesis using new [of n] by simp
    qed (use mn(3) in simp)
  qed
  ultimately show ?thesis
    using fold_connect_ok [of ?s "next_hook s" rs rs] by (simp add: ws_step_def)
qed

lemma unmount_ok:
  assumes ok: "maps_ok s" "hooks_ok s" and quiet: "\<forall>c \<in> set (open_calls s). oc_hook c \<noteq> h"
    and m: "map_of (mounted s) h = Some rs"
  shows "maps_ok (ws_step s (Unmount h)) \<and> hooks_ok (ws_step s (Unmount h))"
proof -
  let ?s = "s\<lparr>mounted := filter (\<lambda>m. fst m \<noteq> h) (mounted s)\<rparr>"
  let ?t = "fold disconnect rs ?s"
  have t: "ws_step s (Unmount h) = ?t" by (simp add: ws_step_def m)
  have hm: "(h, rs) \<in> set (mounted s)" using m by (rule map_of_SomeD)
  have l: "listeners_of ?s k = listeners_of s k" for k by (rule listeners_of_cong) simp
  have "oc_callback c \<notin> wc_onMessage ` set rs" if "c \<in> set (open_calls s)" for c
  proof -
    from hooks_okD(2) [OF ok(2) that] obtain rs' where "(oc_hook c, rs') \<in> set (mounted s)" "oc_callback c \<in> wc_onMessage ` set rs'"
      by blast
    with hooks_okD(5) [OF ok(2) this(1) hm] quiet that show ?thesis by auto
  qed
  moreover have "maps_ok ?s" using ok(1) by (subst maps_ok_cong [of _ s]) simp_all
  ultimately have "maps_ok ?t" by (intro fold_disconnect_maps_ok) simp_all
  moreover have "hooks_ok ?t"
  proof (rule hooks_okI; unfold fold_disconnect_fields)
    fix k cb assume "cb \<in> set (listeners_of ?t k)"
    then have cb: "cb \<in> set (listeners_of s k)" "\<not> (\<exists>r \<in> set rs. connection_key r = k \<and> wc_onMessage r = cb)"
      by (auto simp: fold_disconnect_listeners l)
    from hooks_okD(1) [OF ok(2) cb(1)] obtain n r where n: "n \<in> set (mounted s)" "r \<in> set (snd n)" "connection_key r = k" "wc_onMessage r = cb"
      by (auto simp: requested_def)
    have "fst n \<noteq> h"
    proof
      assume "fst n = h"
      with n(1) hm hooks_okD(3) [OF ok(2)] have "snd n = rs"
        by (metis eq_key_imp_eq_value prod.collapse)
      with n(2-4) cb(2) show False by blast
    qed
    with n show "requested (mounted ?s) k cb" unfolding requested_def by (intro bexI [of _ n]) auto
  next
    fix c assume "c \<in> set (open_calls ?s)"
    with hooks_okD(2) [OF ok(2), of c] quiet
    show "\<exists>rs. (oc_hook c, rs) \<in> set (mounted ?s) \<and> oc_callback c \<in> wc_onMessage ` set rs" by fastforce
  next
    show "distinct (map fst (mounted ?s))" using hooks_okD(3) [OF ok(2)] by (simp add: distinct_map_filter)
  next
    fix m assume "m \<in> set (mounted ?s)"
    then show "fst m < next_hook ?s" using hooks_okD(4) [OF ok(2), of m] by auto
  next
    fix m n assume "m \<in> set (mounted ?s)" "n \<in> set (mounted ?s)" "fst m \<noteq> fst n"
    with hooks_okD(5) [OF ok(2), of m n]
    show "wc_onMessage ` set (snd m) \<inter> wc_onMessage ` set (snd n) = {}" by auto
  qed
  ultimately show ?thesis by (simp add: t)
qed

lemma drop_nth_set: "set (drop_nth i xs) \<subseteq> set xs"
  by (auto simp: drop_nth_def dest: in_set_takeD in_set_dropD)

lemma drop_nth_distinct:
  assumes "distinct (map f xs)"
  shows "distinct (map f (drop_nth i xs))" and "i < length xs \<Longrightarrow> x \<in> set (drop_nth i xs) \<Longrightarrow> f x \<noteq> f (xs ! i)"
proof -
  show "distinct (map f (drop_nth i xs))"
  proof (cases "i < length xs")
    case True
    then have "xs = take i xs @ xs ! i # drop (Suc i) xs" by (rule id_take_nth_drop)
    with assms have "distinct (map f (take i xs @ xs ! i # drop (Suc i) xs))" by simp
    then show ?thesis by (simp add: drop_nth_def)
  qed (use assms in \<open>simp add: drop_nth_def\<close>)
  assume i: "i < length xs" and x: "x \<in> set (drop_nth i xs)"
  from i have "xs = take i xs @ xs ! i # drop (Suc i) xs" by (rule id_take_nth_drop)
  with assms have "distinct (map f (take i xs @ xs ! i # drop (Suc i) xs))" by simp
  then have "f (xs ! i) \<notin> f ` set (drop_nth i xs)" by (auto simp: drop_nth_def)
  with x show "f x \<noteq> f (xs ! i)" by (metis image_eqI)
qed

lemma connected_ok:
  assumes ok: "maps_ok s" "hooks_ok s" and i: "i < length (open_calls s)"
  shows "maps_ok (ws_step s (Connected i)) \<and> hooks_ok (ws_step s (Connected i))"
proof -
  let ?c = "open_calls s ! i" and ?n = "length (opened_sockets s)"
  have c: "?c \<in> set (open_calls s)" using i by simp
  from hooks_okD(2) [OF ok(2) c] have cur: "is_current s (oc_hook ?c)" by (force simp: is_current_def)
  let ?t = "s\<lparr>open_calls := drop_nth i (open_calls s),
      opened_sockets := opened_sockets s @ [\<lparr>sk_key = oc_key ?c, sk_callback = oc_callback ?c, sk_open = True\<rparr>],
      sockets := dict_set (oc_key ?c) (Entry_Socket ?n) (sockets s)\<rparr>"
  have t: "ws_step s (Connected i) = ?t"
    using i cur by (simp add: ws_step_def socket_opened_def Let_def is_current_def)
  have l: "listeners_of ?t k = listeners_of s k" for k by (rule listeners_of_cong) simp
  have pend: "dict_get (sockets s) (oc_key ?c) = Some Entry_Pending" by (rule maps_okD(4) [OF ok(1) c])
  have "maps_ok ?t"
    unfolding maps_ok_def l
  proof (intro conjI allI impI ballI)
    fix k assume "dict_has (sockets ?t) k"
    then have "dict_has (sockets s) k" using pend by (auto simp: dict_has_def split: if_splits)
    then show "listeners_of s k \<noteq> []" by (rule maps_okD(1) [OF ok(1)])
  next
    fix j assume j: "j < length (opened_sockets ?t)" "sk_open (opened_sockets ?t ! j)"
    show "dict_get (sockets ?t) (sk_key (opened_sockets ?t ! j)) = Some (Entry_Socket j)"
    proof (cases "j = ?n")
      case False
      with j have "j < ?n" "sk_open (opened_sockets s ! j)" by (auto simp: nth_append)
      from maps_okD(2) [OF ok(1) this] pend \<open>j < ?n\<close> show ?thesis by (auto simp: nth_append)
    qed simp
  next
    fix k j assume "dict_get (sockets ?t) k = Some (Entry_Socket j)"
    with maps_okD(3) [OF ok(1), of k j]
    show "j < length (opened_sockets ?t)" "sk_key (opened_sockets ?t ! j) = k"
      by (auto simp: nth_append split: if_splits)
  next
    fix d assume "d \<in> set (open_calls ?t)"
    then have d: "d \<in> set (open_calls s)" "oc_key d \<noteq> oc_key ?c"
      using drop_nth_set drop_nth_distinct(2) [OF maps_okD(6) [OF ok(1)] i] by fastforce+
    with maps_okD(4,5) [OF ok(1) d(1)]
    show "dict_get (sockets ?t) (oc_key d) = Some Entry_Pending" "oc_callback d \<in> set (listeners_of s (oc_key d))" by auto
  next
    show "distinct (map oc_key (open_calls ?t))" using drop_nth_distinct(1) [OF maps_okD(6) [OF ok(1)]] by simp
  qed
  moreover have "hooks_ok ?t"
    using hooks_okD [OF ok(2)] drop_nth_set [of i "open_calls s"]
    by (intro hooks_okI) (unfold l, auto)
  ultimately show ?thesis by (simp add: t)
qed

definition calm :: "'m ws_world \<Rightarrow> bool" where
  "calm s \<longleftrightarrow> maps_ok s \<and> hooks_ok s"

lemma closing_ok:
  assumes "maps_ok s" "hooks_ok s"
  shows "maps_ok (close_socket i s) \<and> hooks_ok (close_socket i s)"
proof -
  have l: "listeners_of (close_socket i s) k = listeners_of s k" for k
    by (rule listeners_of_cong) (simp add: close_socket_def)
  have "hooks_ok (close_socket i s)"
    using hooks_okD [OF assms(2)] by (intro hooks_okI) (unfold l, simp_all add: close_socket_def)
  moreover have "maps_ok (close_socket i s)"
    using maps_okD [OF assms(1)] unfolding maps_ok_def l
    by (auto simp: close_socket_def nth_update_self split: if_splits)
  ultimately show ?thesis by blast
qed

lemma ws_step_calm:
  assumes "calm s" "patient s e"
  shows "calm (ws_step s e)"
proof -
  have ok: "maps_ok s" "hooks_ok s" using assms(1) by (simp_all add: calm_def)
  show ?thesis
  proof (cases e)
    case (Mount en rs)
    with assms(2) mount_ok [OF ok, of rs] assms(1) show ?thesis
      by (cases en) (simp_all add: calm_def patient_def ws_step_def)
  next
    case (Unmount h)
    show ?thesis
    proof (cases "map_of (mounted s) h")
      case None
      with Unmount assms(1) show ?thesis by (simp add: ws_step_def)
    next
      case (Some rs)
      with Unmount assms(2) unmount_ok [OF ok _ Some] show ?thesis by (simp add: calm_def patient_def)
    qed
  next
    case (Connected i)
    then show ?thesis
      using connected_ok [OF ok, of i] assms(1) by (cases "i < length (open_calls s)") (simp_all add: calm_def ws_step_def)
  next
    case (Not_Connected i)
    let ?t = "s\<lparr>open_calls := drop_nth i (open_calls s)\<rparr>"
    have l: "listeners_of ?t k = listeners_of s k" for k by (rule listeners_of_cong) simp
    have "maps_ok ?t"
      using maps_okD [OF ok(1)] drop_nth_set [of i "open_calls s"] drop_nth_distinct(1) [OF maps_okD(6) [OF ok(1)], of i]
      unfolding maps_ok_def l by auto
    moreover have "hooks_ok ?t"
      using hooks_okD [OF ok(2)] drop_nth_set [of i "open_calls s"] by (intro hooks_okI) (unfold l, auto)
    ultimately show ?thesis using Not_Connected by (simp add: calm_def ws_step_def)
  next
    case (Message i m)
    let ?t = "s\<lparr>deliveries := deliveries s @ [(sk_callback (opened_sockets s ! i), m)]\<rparr>"
    have l: "listeners_of ?t k = listeners_of s k" for k by (rule listeners_of_cong) simp
    have "maps_ok ?t" using ok(1) by (subst maps_ok_cong [of _ s]) simp_all
    moreover have "hooks_ok ?t" using hooks_okD [OF ok(2)] by (intro hooks_okI) (unfold l, simp_all)
    ultimately show ?thesis using Message assms(1) by (simp add: calm_def ws_step_def)
  next
    case (Dropped i)
    with closing_ok [OF ok, of i] assms(1) show ?thesis by (simp add: calm_def ws_step_def)
  qed
qed

interpretation patient_hooks: reducer "\<lambda>s e. if patient s e then ws_step s e else s" calm
  by unfold_locales (simp add: ws_step_calm)

lemma patient_run_guarded:
  "patient_run s es \<Longrightarrow> foldl ws_step s es = foldl (\<lambda>s e. if patient s e then ws_step s e else s) s es"
  by (induction es arbitrary: s) simp_all

text \<open>C17: When no hook is unmounted while it still connects, there is at most one open socket for
  each cluster and path, and once all hooks are unmounted every socket is closed and nothing is
  registered.\<close>

theorem patient_hooks_leave_nothing:
  fixes es :: "'m ws_event list"
  assumes "patient_run no_sockets es"
  defines "s \<equiv> foldl ws_step no_sockets es"
  shows "(\<forall>i < length (opened_sockets s). \<forall>j < length (opened_sockets s).
      sk_open (opened_sockets s ! i) \<and> sk_open (opened_sockets s ! j) \<and>
      sk_key (opened_sockets s ! i) = sk_key (opened_sockets s ! j) \<longrightarrow> i = j) \<and>
    (mounted s = [] \<longrightarrow> (\<forall>x \<in> set (opened_sockets s). \<not> sk_open x) \<and> (\<forall>k. dict_get (sockets s) k = None \<and> listeners_of s k = []))"
proof -
  have "calm (no_sockets :: 'm ws_world)"
    by (simp add: calm_def maps_ok_def hooks_ok_def no_sockets_def listeners_of_def dict_has_def)
  from patient_hooks.run_inv [OF this, of es] have "calm s"
    unfolding s_def patient_run_guarded [OF assms(1)] .
  then have ok: "maps_ok s" "hooks_ok s" by (simp_all add: calm_def)
  have one: "i = j" if "i < length (opened_sockets s)" "j < length (opened_sockets s)" "sk_open (opened_sockets s ! i)"
      "sk_open (opened_sockets s ! j)" "sk_key (opened_sockets s ! i) = sk_key (opened_sockets s ! j)" for i j
  proof -
    from maps_okD(2) [OF ok(1) that(1,3)] have "dict_get (sockets s) (sk_key (opened_sockets s ! j)) = Some (Entry_Socket i)"
      unfolding that(5) .
    then have "Some (Entry_Socket j) = Some (Entry_Socket i)" unfolding maps_okD(2) [OF ok(1) that(2,4)] .
    then show ?thesis by simp
  qed
  have none: "listeners_of s k = []" if "mounted s = []" for k
  proof -
    have "cb \<notin> set (listeners_of s k)" for cb
      using hooks_okD(1) [OF ok(2), of cb k] that by (auto simp: requested_def)
    then show ?thesis by (cases "listeners_of s k") auto
  qed
  have gone: "dict_get (sockets s) k = None \<and> listeners_of s k = []" if "mounted s = []" for k
    using maps_okD(1) [OF ok(1), of k] none [OF that, of k] by (cases "dict_get (sockets s) k") (auto simp: dict_has_def)
  have closed: "\<not> sk_open x" if "mounted s = []" and "x \<in> set (opened_sockets s)" for x
  proof
    assume "sk_open x"
    with that(2) obtain i where "i < length (opened_sockets s)" "sk_open (opened_sockets s ! i)" by (auto simp: in_set_conv_nth)
    from maps_okD(2) [OF ok(1) this] gone [OF that(1), of "sk_key (opened_sockets s ! i)"] show False by simp
  qed
  show ?thesis
  proof (intro conjI allI impI ballI)
    fix i j assume "i < length (opened_sockets s)" "j < length (opened_sockets s)"
      "sk_open (opened_sockets s ! i) \<and> sk_open (opened_sockets s ! j) \<and> sk_key (opened_sockets s ! i) = sk_key (opened_sockets s ! j)"
    then show "i = j" by (elim conjE) (rule one)
  next
    fix k assume "mounted s = []"
    then show "dict_get (sockets s) k = None" "listeners_of s k = []"
      by (rule gone [THEN conjunct1], rule gone [THEN conjunct2])
  qed (rule closed)
qed

definition watch :: "nat \<Rightarrow> ws_request" where
  "watch cb = \<lparr>wc_cluster = ''prod'', wc_url = ''/api/v1/pods?watch=1'', wc_onMessage = cb\<rparr>"

theorem patient_hooks_leave_nothing_witness:
  "let es = [Mount True [watch 1], Connected 0, Mount True [watch 2], Message 0 ''m'', Unmount 0, Unmount 1];
       s = foldl ws_step (no_sockets :: string ws_world) es
   in length (opened_sockets s) = 1 \<and> (\<forall>x \<in> set (opened_sockets s). \<not> sk_open x) \<and> deliveries s = [(1, ''m'')]"
proof -
  let ?es = "[Mount True [watch 1], Connected 0, Mount True [watch 2], Message 0 ''m'', Unmount 0, Unmount 1]"
  let ?s = "foldl ws_step (no_sockets :: string ws_world) ?es"
  have "patient_run (no_sockets :: string ws_world) ?es" by code_simp
  moreover have "mounted ?s = [] \<and> length (opened_sockets ?s) = 1 \<and> deliveries ?s = [(1, ''m'')]" by code_simp
  ultimately show ?thesis using patient_hooks_leave_nothing [of ?es] unfolding Let_def by blast
qed

section \<open>Hooks that share a connection\<close>

text \<open>No event of such a run mounts a hook.\<close>

definition no_mount :: "'m ws_event \<Rightarrow> bool" where
  "no_mount e = (case e of Mount _ _ \<Rightarrow> False | _ \<Rightarrow> True)"

definition quiet :: "'m ws_world \<Rightarrow> bool" where
  "quiet s \<longleftrightarrow> open_calls s = [] \<and> (\<forall>x \<in> set (opened_sockets s). \<not> sk_open x)"

lemma quiet_disconnect: "quiet s \<Longrightarrow> quiet (fold disconnect rs s) \<and> deliveries (fold disconnect rs s) = deliveries s"
proof (induction rs arbitrary: s)
  case (Cons r rs)
  have "\<not> sk_open (opened_sockets (disconnect r s) ! i)" if "i < length (opened_sockets s)" for i
    using Cons.prems that disconnect_opened(2) [OF that] by (simp add: quiet_def)
  then have "quiet (disconnect r s)"
    using Cons.prems by (auto simp: quiet_def disconnect_fields in_set_conv_nth)
  with Cons.IH show ?case by (simp add: disconnect_fields)
qed simp

lemma quiet_ws_step:
  assumes "quiet s" "no_mount e"
  shows "quiet (ws_step s e) \<and> deliveries (ws_step s e) = deliveries s"
proof (cases e)
  case (Unmount h)
  have "quiet (s\<lparr>mounted := m\<rparr>)" for m using assms(1) by (simp add: quiet_def)
  from quiet_disconnect [OF this] Unmount assms(1) show ?thesis
    by (simp add: ws_step_def split: option.split)
next
  case (Dropped i)
  have "\<not> sk_open (opened_sockets (close_socket i s) ! j)" if "j < length (opened_sockets s)" for j
    using assms(1) that by (simp add: quiet_def close_socket_def nth_update_self)
  then have "quiet (close_socket i s)"
    using assms(1) by (auto simp: quiet_def close_socket_def in_set_conv_nth)
  with Dropped assms(1) show ?thesis by (simp add: ws_step_def close_socket_def)
next
  case (Message i m)
  then show ?thesis using assms(1) by (auto simp: ws_step_def quiet_def)
qed (use assms in \<open>auto simp: ws_step_def quiet_def no_mount_def drop_nth_def\<close>)

lemma quiet_run: "quiet s \<Longrightarrow> list_all no_mount es \<Longrightarrow> quiet (foldl ws_step s es) \<and> deliveries (foldl ws_step s es) = deliveries s"
  by (induction es arbitrary: s) (auto dest: quiet_ws_step)

text \<open>C29: A hook that joins a connection of another hook stops getting updates when that hook is
  unmounted: the socket is closed although the second hook is still mounted, and nothing is
  delivered until another hook mounts.\<close>

theorem joined_connection_ends_with_the_first_hook:
  fixes r q :: ws_request and m :: 'm and later :: "'m ws_event list"
  assumes "connection_key r = connection_key q" and "wc_onMessage q \<noteq> wc_onMessage r" and "list_all no_mount later"
  defines "s \<equiv> foldl ws_step no_sockets [Mount True [r], Connected 0, Mount True [q], Message 0 m, Unmount 0]"
  shows "deliveries s = [(wc_onMessage r, m)] \<and> is_current s 1 \<and>
    deliveries (foldl ws_step s later) = deliveries s \<and> (\<forall>x \<in> set (opened_sockets (foldl ws_step s later)). \<not> sk_open x)"
proof -
  have "s = \<lparr>sockets = [], ws_listeners = [(connection_key r, [])], open_calls = [],
      opened_sockets = [\<lparr>sk_key = connection_key r, sk_callback = wc_onMessage r, sk_open = False\<rparr>],
      mounted = [(1, [q])], next_hook = 2, deliveries = [(wc_onMessage r, m)]\<rparr>"
    using assms(1) [symmetric] assms(2)
    by (simp add: s_def ws_step_def no_sockets_def connect_def socket_opened_def disconnect_def close_socket_def Let_def
        is_current_def drop_nth_def listeners_of_def dict_has_def dict_get_def dict_set_def dict_delete_def AList.delete_eq)
  then have "deliveries s = [(wc_onMessage r, m)]" "is_current s 1" "quiet s"
    by (simp_all add: is_current_def quiet_def)
  with quiet_run [OF this(3) assms(3)] show ?thesis by (simp add: quiet_def)
qed

theorem joined_connection_ends_with_the_first_hook_witness:
  "deliveries (foldl ws_step (no_sockets :: string ws_world)
     [Mount True [watch 1], Connected 0, Mount True [watch 2], Message 0 ''a'', Unmount 0, Message 0 ''b'']) = [(1, ''a'')]"
proof -
  have "connection_key (watch 1) = connection_key (watch 2)" "wc_onMessage (watch 2) \<noteq> wc_onMessage (watch 1)"
    "list_all no_mount [Message 0 ''b'']" by (simp_all add: watch_def connection_key_def no_mount_def)
  from joined_connection_ends_with_the_first_hook [OF this, of "''a''"] show ?thesis by (simp add: watch_def)
qed

text \<open>A hook that is unmounted while it connects, followed by two hooks on the same connection,
  leaves a socket that is never closed: after all hooks are gone it is open and still delivers.\<close>

theorem impatient_unmount_leaks_a_socket:
  fixes a b c :: ws_request and m :: 'm
  assumes "connection_key a = connection_key b" and "connection_key b = connection_key c"
    and "wc_onMessage b \<noteq> wc_onMessage c" and "wc_onMessage a \<notin> {wc_onMessage b, wc_onMessage c}"
  defines "s \<equiv> foldl ws_step no_sockets [Mount True [a], Unmount 0, Mount True [b], Connected 0, Mount True [c],
      Connected 0, Connected 0, Unmount 1, Unmount 2]"
  shows "mounted s = [] \<and> open_calls s = [] \<and> sockets s = [] \<and> map sk_open (opened_sockets s) = [False, True, False] \<and>
    deliveries (ws_step s (Message 1 m)) = [(wc_onMessage b, m)]"
proof -
  have "s = \<lparr>sockets = [], ws_listeners = [(connection_key a, [])], open_calls = [],
      opened_sockets = [\<lparr>sk_key = connection_key a, sk_callback = wc_onMessage a, sk_open = False\<rparr>,
        \<lparr>sk_key = connection_key a, sk_callback = wc_onMessage b, sk_open = True\<rparr>,
        \<lparr>sk_key = connection_key a, sk_callback = wc_onMessage c, sk_open = False\<rparr>],
      mounted = [], next_hook = 3, deliveries = []\<rparr>"
    using assms(1,2) [symmetric] assms(3,4)
    by (simp add: s_def ws_step_def no_sockets_def connect_def socket_opened_def disconnect_def close_socket_def Let_def
        is_current_def drop_nth_def listeners_of_def dict_has_def dict_get_def dict_set_def dict_delete_def AList.delete_eq)
  then show ?thesis by (simp add: ws_step_def)
qed

theorem impatient_unmount_leaks_a_socket_witness:
  "map sk_open (opened_sockets (foldl ws_step (no_sockets :: string ws_world) [Mount True [watch 1], Unmount 0,
     Mount True [watch 2], Connected 0, Mount True [watch 3], Connected 0, Connected 0, Unmount 1, Unmount 2])) = [False, True, False]"
proof -
  have "connection_key (watch i) = connection_key (watch j)" "wc_onMessage (watch i) = i" for i j
    by (simp_all add: watch_def connection_key_def)
  note k = this
  have c: "wc_onMessage (watch 2) \<noteq> wc_onMessage (watch 3)" "wc_onMessage (watch 1) \<notin> {wc_onMessage (watch 2), wc_onMessage (watch 3)}"
    by (simp_all add: k(2))
  from impatient_unmount_leaks_a_socket [where m = "''x''", OF k(1) k(1) c] show ?thesis by (elim conjE)
qed

end
