(* ===== verification/Discovery.thy ===== *)
theory Discovery
  imports Effects
begin

text \<open>
  Discovery of the resources of clusters: \<^verbatim>\<open>frontend/src/lib/k8s/api/v2/apiDiscovery.tsx\<close>. The
  bodies that clusters answer are any JSON values, and what the code does with values of an
  unexpected shape is part of the model. The map of results is the state; a failing request is
  \<open>None\<close>. Answers that are awaited together arrive in an order that is given from outside.
\<close>

section \<open>Resources\<close>

record api_resource =
  ar_apiVersion :: string
  ar_version :: string
  ar_groupName :: "json option"
  ar_pluralName :: json
  ar_singularName :: json
  ar_kind :: string
  ar_isNamespaced :: bool

type_synonym result_map = "(string, api_resource) dict"

type_synonym 'a discovery = "(result_map, js_error, 'a) eff"

text \<open>\<open>v?.k\<close>\<close>

definition safe_prop :: "json option \<Rightarrow> string \<Rightarrow> json option" where
  "safe_prop v k = (case v of None \<Rightarrow> None | Some j \<Rightarrow> (case jprop j k of Inl _ \<Rightarrow> None | Inr x \<Rightarrow> x))"

text \<open>\<open>verbs.includes('list')\<close>: of an array, of a string, and no function of anything else.\<close>

definition includes_list :: "json \<Rightarrow> js_error + bool" where
  "includes_list v = (case v of JArr xs \<Rightarrow> Inr (JStr ''list'' \<in> set xs) | JStr s \<Rightarrow> Inr (str_includes s ''list'')
     | _ \<Rightarrow> Inl TypeError)"

text \<open>\<open>kind.endsWith('List')\<close>\<close>

definition kind_name :: "json \<Rightarrow> js_error + string" where
  "kind_name v = (case v of JStr s \<Rightarrow> Inr s | _ \<Rightarrow> Inl TypeError)"

definition api_version_of :: "json option \<Rightarrow> string \<Rightarrow> string" where
  "api_version_of groupName version =
     (case groupName of Some g \<Rightarrow> if jtruthy (Some g) then json_str g @ ''/'' @ version else version | None \<Rightarrow> version)"

definition resource_key :: "api_resource \<Rightarrow> string" where
  "resource_key r = ar_apiVersion r @ json_str (ar_pluralName r)"

definition is_list :: "json option \<Rightarrow> js_error + bool" where
  "is_list verbs = (if jtruthy verbs then includes_list (the verbs) else Inr False)"

definition bind_sum :: "'e + 'a \<Rightarrow> ('a \<Rightarrow> 'e + 'b) \<Rightarrow> 'e + 'b" where
  "bind_sum m f = (case m of Inl e \<Rightarrow> Inl e | Inr x \<Rightarrow> f x)"

text \<open>The common end of both readers: a resource is skipped without list verb, name or kind, or
  when its kind ends in \<open>List\<close>.\<close>

definition make_resource ::
  "json option \<Rightarrow> string \<Rightarrow> json option \<Rightarrow> json option \<Rightarrow> json option \<Rightarrow> bool \<Rightarrow> js_error + api_resource option" where
  "make_resource groupName version name singular kind namespaced =
     (if \<not> jtruthy name \<or> \<not> jtruthy kind then Inr None
      else bind_sum (kind_name (the kind)) (\<lambda>k.
        if ends_with k ''List'' then Inr None
        else Inr (Some \<lparr>ar_apiVersion = api_version_of groupName version, ar_version = version, ar_groupName = groupName,
               ar_pluralName = the name, ar_singularName = jor singular (JStr []), ar_kind = k,
               ar_isNamespaced = namespaced\<rparr>)))"

definition aggregated_resource :: "json option \<Rightarrow> string \<Rightarrow> json \<Rightarrow> js_error + api_resource option" where
  "aggregated_resource groupName version resource =
    bind_sum (jprop resource ''verbs'') (\<lambda>verbs.
    bind_sum (is_list verbs) (\<lambda>ok.
      if \<not> ok then Inr None
      else make_resource groupName version (safe_prop (Some resource) ''resource'')
             (safe_prop (Some resource) ''singularResource'')
             (safe_prop (safe_prop (Some resource) ''responseKind'') ''kind'')
             (safe_prop (Some resource) ''scope'' = Some (JStr ''Namespaced''))))"

definition legacy_resource :: "json option \<Rightarrow> string \<Rightarrow> json \<Rightarrow> js_error + api_resource option" where
  "legacy_resource groupName version resource =
    bind_sum (jprop resource ''verbs'') (\<lambda>verbs.
    bind_sum (is_list verbs) (\<lambda>ok.
      if \<not> ok then Inr None
      else make_resource groupName version (safe_prop (Some resource) ''name'')
             (safe_prop (Some resource) ''singularName'')
             (safe_prop (Some resource) ''kind'')
             (jtruthy (safe_prop (Some resource) ''namespaced''))))"

section \<open>Reading the answers\<close>

definition add_resource :: "js_error + api_resource option \<Rightarrow> unit discovery" where
  "add_resource r = (case r of
     Inl e \<Rightarrow> throw_error e
   | Inr None \<Rightarrow> give ()
   | Inr (Some x) \<Rightarrow> change (dict_set (resource_key x) x))"

text \<open>\<open>item.versions[0]\<close> when \<open>item.versions.length > 0\<close>: the first element of an array, the first
  character of a string. Objects that imitate an array are not considered.\<close>

definition first_version :: "json option \<Rightarrow> json option" where
  "first_version versions = (case versions of
     Some (JArr (v # _)) \<Rightarrow> Some v | Some (JStr (c # _)) \<Rightarrow> Some (JStr [c]) | _ \<Rightarrow> None)"

text \<open>\<open>(resources || []).forEach\<close>\<close>

definition elements :: "json option \<Rightarrow> js_error + json list" where
  "elements v = (if \<not> jtruthy v then Inr [] else case v of Some (JArr xs) \<Rightarrow> Inr xs | _ \<Rightarrow> Inl TypeError)"

definition process_item :: "json \<Rightarrow> unit discovery" where
  "process_item item =
    chain (lift_sum (jprop item ''metadata'')) (\<lambda>metadata.
      let groupName = safe_prop metadata ''name'';
          versionEntry = first_version (safe_prop (Some item) ''versions'')
      in case safe_prop versionEntry ''version'' of
           Some (JStr version) \<Rightarrow>
             chain (lift_sum (elements (safe_prop versionEntry ''resources''))) (\<lambda>resources.
               for_each (\<lambda>r. add_resource (aggregated_resource groupName version r)) resources)
         | _ \<Rightarrow> give ())"

definition processAggregatedDiscoveryItems :: "json list \<Rightarrow> unit discovery" where
  "processAggregatedDiscoveryItems items = for_each process_item items"

definition processLegacyApiResourceList :: "json list \<Rightarrow> json option \<Rightarrow> string \<Rightarrow> unit discovery" where
  "processLegacyApiResourceList resources groupName version =
     for_each (\<lambda>r. add_resource (legacy_resource groupName version r)) resources"

section \<open>Discovery\<close>

record discovery_env =
  fetch_json :: "string \<Rightarrow> string \<Rightarrow> bool \<Rightarrow> json option"
  arrival :: "json list \<Rightarrow> json list"

definition array_at :: "json option \<Rightarrow> string \<Rightarrow> json list option" where
  "array_at v k = (case safe_prop v k of Some (JArr xs) \<Rightarrow> Some xs | _ \<Rightarrow> None)"

text \<open>One of the two aggregated answers; the result says whether it was usable.\<close>

definition aggregated_part :: "discovery_env \<Rightarrow> string \<Rightarrow> string \<Rightarrow> bool discovery" where
  "aggregated_part env cluster path =
    (case array_at (fetch_json env cluster path True) ''items'' of
       None \<Rightarrow> give False
     | Some items \<Rightarrow> chain (processAggregatedDiscoveryItems items) (\<lambda>_. give True))"

definition fetchLegacyOrLogFailure :: "discovery_env \<Rightarrow> string \<Rightarrow> string \<Rightarrow> json option" where
  "fetchLegacyOrLogFailure env cluster path =
    (case fetch_json env cluster path False of Some (JObj fs) \<Rightarrow> Some (JObj fs) | _ \<Rightarrow> None)"

definition swallow :: "unit discovery \<Rightarrow> unit discovery" where
  "swallow m = handling m (\<lambda>_. give ())"

definition legacy_list :: "discovery_env \<Rightarrow> string \<Rightarrow> string \<Rightarrow> json option \<Rightarrow> string \<Rightarrow> unit discovery" where
  "legacy_list env cluster path groupName version =
    (case array_at (fetch_json env cluster path False) ''resources'' of
       None \<Rightarrow> give ()
     | Some rs \<Rightarrow> processLegacyApiResourceList rs groupName version)"

definition core_version :: "discovery_env \<Rightarrow> string \<Rightarrow> json \<Rightarrow> unit discovery" where
  "core_version env cluster v = swallow (case v of
     JStr s \<Rightarrow> if s \<noteq> [] then legacy_list env cluster (''/api/'' @ s) None s else give ()
   | _ \<Rightarrow> give ())"

definition group_version :: "json \<Rightarrow> json option" where
  "group_version g =
    (let preferred = safe_prop (safe_prop (Some g) ''preferredVersion'') ''version'';
         first = safe_prop (first_version (safe_prop (Some g) ''versions'')) ''version''
     in if \<not> jtruthy preferred \<and> jtruthy first then first else preferred)"

definition api_group :: "discovery_env \<Rightarrow> string \<Rightarrow> json \<Rightarrow> unit discovery" where
  "api_group env cluster g = swallow (case (safe_prop (Some g) ''name'', group_version g) of
     (Some (JStr name), Some (JStr version)) \<Rightarrow>
       if name \<noteq> [] \<and> version \<noteq> []
       then legacy_list env cluster (''/apis/'' @ name @ ''/'' @ version) (Some (JStr name)) version
       else give ()
   | _ \<Rightarrow> give ())"

definition legacy_discovery :: "discovery_env \<Rightarrow> string \<Rightarrow> unit discovery" where
  "legacy_discovery env cluster =
    chain (case array_at (fetchLegacyOrLogFailure env cluster ''/api'') ''versions'' of
        None \<Rightarrow> give () | Some vs \<Rightarrow> for_each (core_version env cluster) (arrival env vs)) (\<lambda>_.
      case array_at (fetchLegacyOrLogFailure env cluster ''/apis'') ''groups'' of
        None \<Rightarrow> give () | Some gs \<Rightarrow> for_each (api_group env cluster) (arrival env gs))"

definition discover_cluster :: "discovery_env \<Rightarrow> string \<Rightarrow> unit discovery" where
  "discover_cluster env cluster =
    chain (handling
        (chain (aggregated_part env cluster ''/api'') (\<lambda>apiOk.
         chain (aggregated_part env cluster ''/apis'') (\<lambda>apisOk. give (\<not> apiOk \<or> \<not> apisOk))))
        (\<lambda>_. give True)) (\<lambda>useFallback.
      if useFallback then swallow (legacy_discovery env cluster) else give ())"

definition apiDiscovery :: "discovery_env \<Rightarrow> string list \<Rightarrow> api_resource list discovery" where
  "apiDiscovery env clusters =
    chain (for_each (discover_cluster env) clusters) (\<lambda>_. observe (\<lambda>m. give (dict_values m)))"

definition apiResourceId :: "api_resource \<Rightarrow> string" where
  "apiResourceId r = (case ar_groupName r of None \<Rightarrow> [] | Some JNull \<Rightarrow> [] | Some g \<Rightarrow> json_str g) @ resource_key r"

section \<open>Failures stay in their cluster\<close>

lemma never_fails_swallow: "fst (swallow m s) = Inr ()"
  by (simp add: swallow_def handling_def give_def split: prod.split sum.split)

lemma discover_cluster_succeeds: "fst (discover_cluster env c m) = Inr ()"
proof -
  have "\<exists>b m'. handling (chain (aggregated_part env c ''/api'') (\<lambda>a. chain (aggregated_part env c ''/apis'') (\<lambda>b. give (\<not> a \<or> \<not> b))))
      (\<lambda>_. give True) m = (Inr b, m')"
    by (auto simp: handling_def give_def split: prod.split sum.split)
  then obtain b m' where b: "handling (chain (aggregated_part env c ''/api'') (\<lambda>a. chain (aggregated_part env c ''/apis'') (\<lambda>b. give (\<not> a \<or> \<not> b))))
      (\<lambda>_. give True) m = (Inr b, m')" by blast
  have "discover_cluster env c m = (if b then swallow (legacy_discovery env c) else give ()) m'"
    unfolding discover_cluster_def by (rule chain_eq(1)) (rule b)
  then show ?thesis by (simp add: never_fails_swallow give_def)
qed

lemma for_each_succeeds: "(\<And>x m. fst (f x m) = Inr ()) \<Longrightarrow> fst (for_each f xs m) = Inr ()"
proof (induction xs arbitrary: m)
  case (Cons x xs)
  obtain r m' where "f x m = (r, m')" by fastforce
  moreover have "r = Inr ()" using Cons.prems [of x m] calculation by simp
  ultimately show ?case using Cons by (simp add: chain_def)
qed (simp add: give_def)

lemma for_each_append: "for_each f (xs @ ys) = chain (for_each f xs) (\<lambda>_. for_each f ys)"
proof (induction xs)
  case Nil
  show ?case by (rule ext) (simp add: chain_def give_def)
next
  case (Cons x xs)
  then show ?case by (auto simp: chain_def fun_eq_iff split: prod.split sum.split)
qed

lemma silent_cluster:
  assumes "\<forall>path agg. fetch_json env c path agg = None"
  shows "discover_cluster env c m = (Inr (), m)"
  using assms
  by (simp add: discover_cluster_def aggregated_part_def legacy_discovery_def fetchLegacyOrLogFailure_def array_at_def
      safe_prop_def swallow_def handling_def chain_def give_def)

text \<open>C38: Discovery always gives a list, whatever the clusters answer, and a cluster that answers
  nothing has no effect on what the others contribute.\<close>

theorem discovery_survives_failing_clusters:
  "(\<exists>xs. fst (apiDiscovery env clusters m) = Inr xs) \<and>
   ((\<forall>path agg. fetch_json env c path agg = None) \<longrightarrow>
      apiDiscovery env (before @ c # after) m = apiDiscovery env (before @ after) m)"
proof
  obtain r m' where run: "for_each (discover_cluster env) clusters m = (r, m')" by fastforce
  with for_each_succeeds [of "discover_cluster env" clusters m] have "r = Inr ()"
    by (simp add: discover_cluster_succeeds)
  with run show "\<exists>xs. fst (apiDiscovery env clusters m) = Inr xs"
    by (simp add: apiDiscovery_def chain_def observe_def give_def)
  show "(\<forall>path agg. fetch_json env c path agg = None) \<longrightarrow>
      apiDiscovery env (before @ c # after) m = apiDiscovery env (before @ after) m"
  proof
    assume "\<forall>path agg. fetch_json env c path agg = None"
    then have "for_each (discover_cluster env) (before @ c # after) m = for_each (discover_cluster env) (before @ after) m"
      by (simp add: for_each_append chain_def silent_cluster split: prod.split sum.split)
    then show "apiDiscovery env (before @ c # after) m = apiDiscovery env (before @ after) m"
      by (simp add: apiDiscovery_def chain_def)
  qed
qed

text \<open>One cluster with pods, one that is down.\<close>

definition pods_json :: json where
  "pods_json = JObj [(''verbs'', JArr [JStr ''list'', JStr ''get'']), (''resource'', JStr ''pods''), (''name'', JStr ''pods''),
     (''responseKind'', JObj [(''kind'', JStr ''Pod'')]), (''kind'', JStr ''Pod''), (''scope'', JStr ''Namespaced'')]"

definition sample_discovery :: discovery_env where
  "sample_discovery = \<lparr>fetch_json = (\<lambda>c path agg. if c = ''up'' \<and> agg then Some (JObj [(''items'',
       if path = ''/apis'' then JArr [] else JArr [JObj [(''metadata'', JObj []), (''versions'', JArr [JObj [(''version'', JStr ''v1''),
         (''resources'', JArr [pods_json, JObj [(''verbs'', JArr [JStr ''create'']), (''resource'', JStr ''bindings'')]])]])]])]) else None),
     arrival = (\<lambda>xs. xs)\<rparr>"

theorem discovery_survives_failing_clusters_witness:
  "apiDiscovery sample_discovery [''down'', ''up''] [] = apiDiscovery sample_discovery [''up''] []"
  using discovery_survives_failing_clusters [of sample_discovery "[]" "[]" "''down''" "[]" "[''up'']"]
  by (simp add: sample_discovery_def)

section \<open>What is discovered\<close>

inductive sub_json :: "json \<Rightarrow> json \<Rightarrow> bool" where
  self: "sub_json j j"
| element: "sub_json j x \<Longrightarrow> x \<in> set xs \<Longrightarrow> sub_json j (JArr xs)"
| field: "sub_json j x \<Longrightarrow> (k, x) \<in> set fs \<Longrightarrow> sub_json j (JObj fs)"

lemma sub_json_trans: "sub_json b c \<Longrightarrow> sub_json a b \<Longrightarrow> sub_json a c"
  by (induction rule: sub_json.induct) (auto intro: sub_json.intros)

lemma safe_prop_sub: "safe_prop (Some j) k = Some v \<Longrightarrow> sub_json v j"
  by (cases j) (auto simp: safe_prop_def jprop_def intro: sub_json.field sub_json.self dest: map_of_SomeD)

lemma array_at_sub: "array_at (Some j) k = Some xs \<Longrightarrow> x \<in> set xs \<Longrightarrow> sub_json x j"
  using safe_prop_sub [of j k "JArr xs"]
  by (auto simp: array_at_def split: option.splits json.splits intro: sub_json_trans sub_json.element sub_json.self)

text \<open>A resource that the cluster offers: its entry occurs in an answer, has the list verb and a
  kind that is no list.\<close>

definition offered :: "discovery_env \<Rightarrow> string \<Rightarrow> api_resource \<Rightarrow> bool" where
  "offered env c x \<longleftrightarrow> ar_kind x \<noteq> [] \<and> \<not> ends_with (ar_kind x) ''List'' \<and>
     ar_apiVersion x = api_version_of (ar_groupName x) (ar_version x) \<and>
     (\<exists>path agg body r. fetch_json env c path agg = Some body \<and> sub_json r body \<and>
        is_list (safe_prop (Some r) ''verbs'') = Inr True \<and>
        safe_prop (Some r) (if agg then ''resource'' else ''name'') = Some (ar_pluralName x))"

lemma make_resource_Some:
  assumes "make_resource g v name s kind n = Inr (Some x)"
  shows "ar_kind x \<noteq> [] \<and> \<not> ends_with (ar_kind x) ''List'' \<and> ar_apiVersion x = api_version_of (ar_groupName x) (ar_version x) \<and>
    name = Some (ar_pluralName x)"
  using assms
  by (cases name; cases kind)
    (auto simp: make_resource_def bind_sum_def kind_name_def jtruthy_def split: if_splits json.splits)

lemma verbs_prop: "jprop r ''verbs'' = Inr v \<Longrightarrow> safe_prop (Some r) ''verbs'' = v"
  by (simp add: safe_prop_def)

lemma aggregated_offered:
  assumes "fetch_json env c path True = Some body" "sub_json r body" "aggregated_resource g v r = Inr (Some x)"
  shows "offered env c x"
proof -
  from assms(3) obtain verbs where v: "jprop r ''verbs'' = Inr verbs" "is_list verbs = Inr True"
    and m: "make_resource g v (safe_prop (Some r) ''resource'') (safe_prop (Some r) ''singularResource'')
       (safe_prop (safe_prop (Some r) ''responseKind'') ''kind'') (safe_prop (Some r) ''scope'' = Some (JStr ''Namespaced'')) = Inr (Some x)"
    unfolding aggregated_resource_def bind_sum_def by (auto split: sum.splits if_splits)
  note f = make_resource_Some [OF m]
  show ?thesis
    unfolding offered_def
    by (intro conjI exI [of _ path] exI [of _ True] exI [of _ body] exI [of _ r])
      (use f v(2) verbs_prop [OF v(1)] assms(1,2) in simp_all)
qed

lemma legacy_offered:
  assumes "fetch_json env c path False = Some body" "sub_json r body" "legacy_resource g v r = Inr (Some x)"
  shows "offered env c x"
proof -
  from assms(3) obtain verbs where v: "jprop r ''verbs'' = Inr verbs" "is_list verbs = Inr True"
    and m: "make_resource g v (safe_prop (Some r) ''name'') (safe_prop (Some r) ''singularName'')
       (safe_prop (Some r) ''kind'') (jtruthy (safe_prop (Some r) ''namespaced'')) = Inr (Some x)"
    unfolding legacy_resource_def bind_sum_def by (auto split: sum.splits if_splits)
  note f = make_resource_Some [OF m]
  show ?thesis
    unfolding offered_def
    by (intro conjI exI [of _ path] exI [of _ False] exI [of _ body] exI [of _ r])
      (use f v(2) verbs_prop [OF v(1)] assms(1,2) in simp_all)
qed

text \<open>The contract of all parts: new entries are offered and stand under their key.\<close>

definition grows :: "(api_resource \<Rightarrow> bool) \<Rightarrow> result_map \<Rightarrow> result_map \<Rightarrow> bool" where
  "grows P m m' \<longleftrightarrow> (dict_wf m \<longrightarrow> dict_wf m') \<and>
     (\<forall>k x. (k, x) \<in> set m' \<longrightarrow> (k, x) \<in> set m \<or> k = resource_key x \<and> P x)"

interpretation growing: effect_contract "grows P" for P
  by unfold_locales (auto simp: grows_def)

lemma dict_set_entries: "(j, y) \<in> set (dict_set k v d) \<Longrightarrow> (j, y) \<in> set d \<or> j = k \<and> y = v"
  unfolding dict_set_def by (induction d) (auto split: if_splits)

lemma add_resource_grows: "(\<And>x. r = Inr (Some x) \<Longrightarrow> P x) \<Longrightarrow> within (grows P) (add_resource r)"
  unfolding add_resource_def
  by (cases r) (auto intro!: growing.give_within growing.throw_within growing.change_within simp: grows_def
      dest: dict_set_entries split: option.split)

lemma swallow_grows: "within (grows P) m \<Longrightarrow> within (grows P) (swallow m)"
  unfolding swallow_def by (intro growing.handling_within growing.give_within)

lemma aggregated_part_grows: "within (grows (offered env c)) (aggregated_part env c path)"
proof (cases "array_at (fetch_json env c path True) ''items''")
  case None
  then show ?thesis by (simp add: aggregated_part_def growing.give_within)
next
  case (Some items)
  then obtain body where body: "fetch_json env c path True = Some body" by (auto simp: array_at_def safe_prop_def split: option.splits)
  have item: "within (grows (offered env c)) (process_item item)" if "item \<in> set items" for item
  proof -
    have i: "sub_json item body" by (rule array_at_sub [OF Some [unfolded body] that])
    have res: "offered env c x" if v: "first_version (safe_prop (Some item) ''versions'') = Some entry"
      and e: "elements (safe_prop (Some entry) ''resources'') = Inr rs" and r: "r \<in> set rs"
      and x: "aggregated_resource g ver r = Inr (Some x)" for entry rs r g ver x
    proof -
      from e r have "safe_prop (Some entry) ''resources'' = Some (JArr rs)"
        by (auto simp: elements_def split: if_splits option.splits json.splits)
      with r have "sub_json r entry" by (blast intro: sub_json_trans safe_prop_sub sub_json.element sub_json.self)
      moreover from v have "\<exists>xs. safe_prop (Some item) ''versions'' = Some (JArr xs) \<and> entry \<in> set xs \<or> (\<exists>c. entry = JStr c)"
        by (auto simp: first_version_def split: option.splits json.splits list.splits)
      moreover have "entry \<noteq> JStr s" for s using \<open>safe_prop (Some entry) ''resources'' = _\<close> by (auto simp: safe_prop_def jprop_def)
      ultimately have "sub_json r item" by (blast intro: sub_json_trans safe_prop_sub sub_json.element sub_json.self)
      with i have "sub_json r body" by (blast intro: sub_json_trans)
      from aggregated_offered [OF body this x] show ?thesis .
    qed
    show ?thesis
      unfolding process_item_def Let_def
    proof (intro growing.chain_within growing.lift_within)
      fix md
      let ?v = "first_version (safe_prop (Some item) ''versions'')"
      show "within (grows (offered env c)) (case safe_prop ?v ''version'' of
           Some (JStr version) \<Rightarrow> chain (lift_sum (elements (safe_prop ?v ''resources''))) (\<lambda>resources.
               for_each (\<lambda>r. add_resource (aggregated_resource (safe_prop md ''name'') version r)) resources)
         | _ \<Rightarrow> give ())"
      proof (cases ?v)
        case (Some entry)
        have "within (grows (offered env c)) (chain (lift_sum (elements (safe_prop ?v ''resources''))) (\<lambda>resources.
               for_each (\<lambda>r. add_resource (aggregated_resource (safe_prop md ''name'') version r)) resources))" for version
        proof (cases "elements (safe_prop ?v ''resources'')")
          case (Inr rs)
          have "within (grows (offered env c)) (for_each (\<lambda>r. add_resource (aggregated_resource (safe_prop md ''name'') version r)) rs)"
            using res [OF Some, of rs] Inr Some by (intro growing.for_each_within add_resource_grows) auto
          then show ?thesis by (simp add: within_def chain_def lift_sum_def Inr)
        qed (simp add: within_def chain_def lift_sum_def growing.same)
        then show ?thesis by (auto intro: growing.give_within split: option.split json.split)
      qed (simp add: safe_prop_def growing.give_within)
    qed
  qed
  then show ?thesis
    unfolding aggregated_part_def Some processAggregatedDiscoveryItems_def option.case
    by (intro growing.chain_within growing.for_each_within growing.give_within)
qed

lemma legacy_list_grows: "within (grows (offered env c)) (legacy_list env c path g v)"
proof (cases "array_at (fetch_json env c path False) ''resources''")
  case None
  then show ?thesis by (simp add: legacy_list_def growing.give_within)
next
  case (Some rs)
  then obtain body where body: "fetch_json env c path False = Some body" by (auto simp: array_at_def safe_prop_def split: option.splits)
  have "offered env c x" if "r \<in> set rs" "legacy_resource g v r = Inr (Some x)" for r x
    by (rule legacy_offered [OF body array_at_sub [OF Some [unfolded body] that(1)] that(2)])
  then show ?thesis
    unfolding legacy_list_def Some processLegacyApiResourceList_def option.case
    by (intro growing.for_each_within add_resource_grows) blast
qed

lemma discover_cluster_grows: "within (grows (offered env c)) (discover_cluster env c)"
proof -
  have core: "within (grows (offered env c)) (core_version env c v)" for v
    unfolding core_version_def
    by (rule swallow_grows) (auto intro: growing.give_within legacy_list_grows split: json.split)
  have "within (grows (offered env c)) (api_group env c g)" for g
    unfolding api_group_def
    by (rule swallow_grows) (auto intro: growing.give_within legacy_list_grows split: option.split json.split)
  with core have "within (grows (offered env c)) (legacy_discovery env c)"
    unfolding legacy_discovery_def
    by (intro growing.chain_within) (auto intro: growing.give_within growing.for_each_within split: option.split)
  then show ?thesis
    unfolding discover_cluster_def
    by (intro growing.chain_within growing.handling_within growing.give_within growing.if_within swallow_grows aggregated_part_grows)
qed

text \<open>C18: Every discovered resource is offered by one of the clusters: its entry occurs in an answer
  of that cluster, supports listing, and is not itself a list; and no two results have the same
  version and name.\<close>

theorem discovered_resources_are_offered:
  assumes "fst (apiDiscovery env clusters []) = Inr xs"
  shows "distinct (map resource_key xs) \<and> (\<forall>x \<in> set xs. \<exists>c \<in> set clusters. offered env c x)"
proof -
  obtain r m where run: "for_each (discover_cluster env) clusters [] = (r, m)" by fastforce
  with for_each_succeeds [of "discover_cluster env" clusters "[]"] have "r = Inr ()"
    by (simp add: discover_cluster_succeeds)
  with run assms have xs: "xs = map snd m" by (simp add: apiDiscovery_def chain_def observe_def give_def dict_values_def)
  have weaken: "within (grows P) f \<Longrightarrow> (\<And>x. P x \<Longrightarrow> Q x) \<Longrightarrow> within (grows Q) f" for P Q and f :: "unit discovery"
    unfolding within_def grows_def by blast
  have "within (grows (\<lambda>x. \<exists>c \<in> set clusters. offered env c x)) (discover_cluster env c)" if "c \<in> set clusters" for c
    by (rule weaken [OF discover_cluster_grows]) (use that in blast)
  then have "within (grows (\<lambda>x. \<exists>c \<in> set clusters. offered env c x)) (for_each (discover_cluster env) clusters)"
    by (rule growing.for_each_within)
  from withinD [OF this run] have g: "dict_wf m" "\<forall>k x. (k, x) \<in> set m \<longrightarrow> k = resource_key x \<and> (\<exists>c \<in> set clusters. offered env c x)"
    by (auto simp: grows_def)
  have keys: "map resource_key (map snd m) = map fst m" using g(2) by (auto simp: comp_def)
  have "distinct (map resource_key xs)" using g(1) unfolding xs dict_wf_def keys .
  then show ?thesis using g(2) xs by auto
qed

theorem discovered_resources_are_offered_witness:
  "\<exists>x. fst (apiDiscovery sample_discovery [''up''] []) = Inr [x] \<and> ar_kind x = ''Pod'' \<and> offered sample_discovery ''up'' x"
proof -
  let ?x = "\<lparr>ar_apiVersion = ''v1'', ar_version = ''v1'', ar_groupName = None, ar_pluralName = JStr ''pods'',
    ar_singularName = JStr [], ar_kind = ''Pod'', ar_isNamespaced = True\<rparr>"
  have "fst (apiDiscovery sample_discovery [''up''] []) = Inr [?x]" by code_simp
  with discovered_resources_are_offered [OF this] show ?thesis by auto
qed

section \<open>Aggregated discovery\<close>

text \<open>What a well-formed item lists, written without the map of results.\<close>

fun all_or_none :: "(js_error + 'a option) list \<Rightarrow> 'a list option" where
  "all_or_none [] = Some []"
| "all_or_none (Inl e # rs) = None"
| "all_or_none (Inr None # rs) = all_or_none rs"
| "all_or_none (Inr (Some x) # rs) = map_option ((#) x) (all_or_none rs)"

definition item_listing :: "json \<Rightarrow> api_resource list option" where
  "item_listing item =
    (case jprop item ''metadata'' of Inl _ \<Rightarrow> None
     | Inr md \<Rightarrow> (case first_version (safe_prop (Some item) ''versions'') of None \<Rightarrow> Some []
         | Some entry \<Rightarrow> (case safe_prop (Some entry) ''version'' of
             Some (JStr version) \<Rightarrow> (case elements (safe_prop (Some entry) ''resources'') of Inl _ \<Rightarrow> None
               | Inr rs \<Rightarrow> all_or_none (map (aggregated_resource (safe_prop md ''name'') version) rs))
           | _ \<Rightarrow> Some [])))"

definition listing :: "json list \<Rightarrow> api_resource list option" where
  "listing items = map_option concat (those (map item_listing items))"

definition add_all :: "api_resource list \<Rightarrow> result_map \<Rightarrow> result_map" where
  "add_all xs m = fold (\<lambda>x. dict_set (resource_key x) x) xs m"

lemma add_all_append: "add_all (xs @ ys) m = add_all ys (add_all xs m)"
  by (simp add: add_all_def)

lemma resources_added:
  "all_or_none (map f rs) = Some xs \<Longrightarrow> for_each (\<lambda>r. add_resource (f r)) rs m = (Inr (), add_all xs m)"
proof (induction rs arbitrary: xs m)
  case (Cons r rs)
  show ?case
  proof (cases "f r")
    case (Inr o')
    with Cons show ?thesis
      by (cases o') (auto simp: add_resource_def chain_def change_def give_def add_all_def)
  qed (use Cons.prems in simp)
qed (simp add: give_def add_all_def)

lemma item_added:
  assumes "item_listing item = Some xs"
  shows "process_item item m = (Inr (), add_all xs m)"
proof -
  from assms obtain md where md: "jprop item ''metadata'' = Inr md" by (auto simp: item_listing_def split: sum.splits)
  let ?v = "first_version (safe_prop (Some item) ''versions'')"
  have unread: "process_item item m = (Inr (), m)" if "\<nexists>s. safe_prop ?v ''version'' = Some (JStr s)"
    using that by (auto simp: process_item_def md chain_def lift_sum_def give_def Let_def split: option.split json.split)
  show ?thesis
  proof (cases "\<exists>entry s. ?v = Some entry \<and> safe_prop (Some entry) ''version'' = Some (JStr s)")
    case False
    have none: "\<nexists>s. safe_prop ?v ''version'' = Some (JStr s)" using False by (cases ?v) (auto simp: safe_prop_def)
    have "xs = []" using assms False by (auto simp: item_listing_def md split: option.splits json.splits)
    then have "add_all xs m = m" by (simp add: add_all_def)
    with unread [OF none] show ?thesis by metis
  next
    case True
    then obtain entry s where e: "?v = Some entry" "safe_prop (Some entry) ''version'' = Some (JStr s)" by blast
    with assms obtain rs where rs: "elements (safe_prop (Some entry) ''resources'') = Inr rs"
      "all_or_none (map (aggregated_resource (safe_prop md ''name'') s) rs) = Some xs"
      by (auto simp: item_listing_def md split: sum.splits)
    from resources_added [OF rs(2)] show ?thesis
      by (simp add: process_item_def md e rs(1) chain_def lift_sum_def)
  qed
qed

lemma items_added:
  "listing items = Some xs \<Longrightarrow> processAggregatedDiscoveryItems items m = (Inr (), add_all xs m)"
proof (induction items arbitrary: xs m)
  case Nil
  then show ?case by (simp add: listing_def processAggregatedDiscoveryItems_def give_def add_all_def)
next
  case (Cons item items)
  then obtain ys zs where l: "item_listing item = Some ys" "listing items = Some zs" "xs = ys @ zs"
    by (auto simp: listing_def split: option.splits)
  from Cons.IH [OF l(2)] item_added [OF l(1)] show ?case
    by (simp add: processAggregatedDiscoveryItems_def chain_def l(3) add_all_append)
qed

text \<open>The same in terms of the documents alone. The fields of a document, with an empty text or list
  for a field that is missing:\<close>

definition given_field :: "json \<Rightarrow> string \<Rightarrow> json option" where
  "given_field j k = (case j of JObj fs \<Rightarrow> map_of fs k | _ \<Rightarrow> None)"

definition given_text :: "json \<Rightarrow> string \<Rightarrow> string" where
  "given_text j k = (case given_field j k of Some (JStr s) \<Rightarrow> s | _ \<Rightarrow> [])"

definition given_items :: "json \<Rightarrow> string \<Rightarrow> json list" where
  "given_items j k = (case given_field j k of Some (JArr xs) \<Rightarrow> xs | _ \<Rightarrow> [])"

definition given_object :: "json \<Rightarrow> string \<Rightarrow> json" where
  "given_object j k = (case given_field j k of Some (JObj fs) \<Rightarrow> JObj fs | _ \<Rightarrow> JObj [])"

text \<open>Well-formed documents: every field that is read is missing or has its documented type.\<close>

definition an_object :: "json \<Rightarrow> bool" where
  "an_object j = (case j of JObj _ \<Rightarrow> True | _ \<Rightarrow> False)"

definition text_or_missing :: "json \<Rightarrow> string \<Rightarrow> bool" where
  "text_or_missing j k = (case given_field j k of None \<Rightarrow> True | Some (JStr _) \<Rightarrow> True | _ \<Rightarrow> False)"

definition items_or_missing :: "json \<Rightarrow> string \<Rightarrow> bool" where
  "items_or_missing j k = (case given_field j k of None \<Rightarrow> True | Some (JArr _) \<Rightarrow> True | _ \<Rightarrow> False)"

definition object_or_missing :: "json \<Rightarrow> string \<Rightarrow> bool" where
  "object_or_missing j k = (case given_field j k of None \<Rightarrow> True | Some (JObj _) \<Rightarrow> True | _ \<Rightarrow> False)"

definition resource_document :: "json \<Rightarrow> bool" where
  "resource_document r \<longleftrightarrow> an_object r \<and> items_or_missing r ''verbs'' \<and> text_or_missing r ''resource'' \<and>
     text_or_missing r ''singularResource'' \<and> object_or_missing r ''responseKind'' \<and>
     text_or_missing (given_object r ''responseKind'') ''kind''"

definition version_document :: "json \<Rightarrow> bool" where
  "version_document v \<longleftrightarrow> an_object v \<and> (\<exists>s. given_field v ''version'' = Some (JStr s)) \<and> items_or_missing v ''resources'' \<and>
     list_all resource_document (given_items v ''resources'')"

definition group_document :: "json \<Rightarrow> bool" where
  "group_document g \<longleftrightarrow> an_object g \<and> object_or_missing g ''metadata'' \<and>
     text_or_missing (given_object g ''metadata'') ''name'' \<and> items_or_missing g ''versions'' \<and>
     list_all version_document (given_items g ''versions'')"

text \<open>What is to be discovered: the resources of the first version that can be listed, have a name and
  a kind, and whose kind is no \<open>List\<close>.\<close>

definition to_discover :: "json \<Rightarrow> bool" where
  "to_discover r \<longleftrightarrow> JStr ''list'' \<in> set (given_items r ''verbs'') \<and> given_text r ''resource'' \<noteq> [] \<and>
     given_text (given_object r ''responseKind'') ''kind'' \<noteq> [] \<and>
     \<not> suffix ''List'' (given_text (given_object r ''responseKind'') ''kind'')"

definition full_version :: "string \<Rightarrow> string \<Rightarrow> string" where
  "full_version name version = (if name = [] then version else name @ ''/'' @ version)"

definition discovered :: "json \<Rightarrow> json \<Rightarrow> json \<Rightarrow> string \<times> api_resource" where
  "discovered g v r =
    (let name = given_text (given_object g ''metadata'') ''name'';
         version = given_text v ''version'';
         plural = given_text r ''resource''
     in (full_version name version @ plural,
         \<lparr>ar_apiVersion = full_version name version, ar_version = version,
          ar_groupName = given_field (given_object g ''metadata'') ''name'',
          ar_pluralName = JStr plural, ar_singularName = JStr (given_text r ''singularResource''),
          ar_kind = given_text (given_object r ''responseKind'') ''kind'',
          ar_isNamespaced = (given_field r ''scope'' = Some (JStr ''Namespaced''))\<rparr>))"

definition group_lists :: "json \<Rightarrow> (string \<times> api_resource) list" where
  "group_lists g = (case given_items g ''versions'' of [] \<Rightarrow> []
     | v # _ \<Rightarrow> map (discovered g v) [r \<leftarrow> given_items v ''resources''. to_discover r])"

lemma object_field: "an_object j \<Longrightarrow> jprop j k = Inr (given_field j k)"
  by (cases j) (simp_all add: an_object_def given_field_def jprop_def)

lemma object_safe_prop: "an_object j \<Longrightarrow> safe_prop (Some j) k = given_field j k"
  by (simp add: safe_prop_def object_field)

lemma nested_prop:
  "object_or_missing j k \<Longrightarrow> safe_prop (given_field j k) l = given_field (given_object j k) l"
  unfolding object_or_missing_def given_object_def safe_prop_def
  by (auto simp: jprop_def given_field_def split: option.splits json.splits)

lemma text_truthy: "text_or_missing j k \<Longrightarrow> jtruthy (given_field j k) \<longleftrightarrow> given_text j k \<noteq> []"
  unfolding text_or_missing_def given_text_def jtruthy_def by (auto split: option.splits json.splits)

lemma text_field: "text_or_missing j k \<Longrightarrow> given_text j k \<noteq> [] \<Longrightarrow> given_field j k = Some (JStr (given_text j k))"
  unfolding text_or_missing_def given_text_def by (auto split: option.splits json.splits)

lemma text_or_empty: "text_or_missing j k \<Longrightarrow> jor (given_field j k) (JStr []) = JStr (given_text j k)"
  using text_truthy text_field by (auto simp: jor_def)

lemma items_list: "items_or_missing j k \<Longrightarrow> is_list (given_field j k) = Inr (JStr ''list'' \<in> set (given_items j k))"
  unfolding items_or_missing_def given_items_def is_list_def includes_list_def jtruthy_def
  by (auto split: option.splits json.splits)

lemma items_elements: "items_or_missing j k \<Longrightarrow> elements (given_field j k) = Inr (given_items j k)"
  unfolding items_or_missing_def given_items_def elements_def jtruthy_def by (auto split: option.splits json.splits)

lemma items_first: "items_or_missing j k \<Longrightarrow>
    first_version (given_field j k) = (case given_items j k of [] \<Rightarrow> None | v # _ \<Rightarrow> Some v)"
  unfolding items_or_missing_def given_items_def first_version_def
  by (auto split: option.splits json.splits list.splits)

lemma text_version: "text_or_missing j k \<Longrightarrow> api_version_of (given_field j k) version = full_version (given_text j k) version"
  unfolding text_or_missing_def given_text_def api_version_of_def full_version_def jtruthy_def
  by (auto split: option.splits json.splits)

lemma discovered_key: "fst (discovered g v r) = resource_key (snd (discovered g v r))"
  by (simp add: discovered_def resource_key_def Let_def)

lemma resource_read:
  assumes "resource_document r" and "text_or_missing (given_object g ''metadata'') ''name''"
  shows "aggregated_resource (given_field (given_object g ''metadata'') ''name'') (given_text v ''version'') r =
    Inr (if to_discover r then Some (snd (discovered g v r)) else None)"
proof -
  note d = assms(1) [unfolded resource_document_def]
  have r: "an_object r" and verbs: "items_or_missing r ''verbs''" and name: "text_or_missing r ''resource''"
    and singular: "text_or_missing r ''singularResource''" and rk: "object_or_missing r ''responseKind''"
    and kind: "text_or_missing (given_object r ''responseKind'') ''kind''"
    using d by blast+
  let ?k = "given_text (given_object r ''responseKind'') ''kind''"
  show ?thesis
  proof (cases "given_text r ''resource'' = [] \<or> ?k = []")
    case True
    then show ?thesis
      by (auto simp: aggregated_resource_def bind_sum_def object_field [OF r] object_safe_prop [OF r] items_list [OF verbs]
          nested_prop [OF rk] make_resource_def text_truthy [OF name] text_truthy [OF kind] to_discover_def)
  next
    case False
    then have "given_field (given_object r ''responseKind'') ''kind'' = Some (JStr ?k)"
      "given_field r ''resource'' = Some (JStr (given_text r ''resource''))"
      using text_field [OF kind] text_field [OF name] by auto
    with False show ?thesis
      by (simp add: aggregated_resource_def bind_sum_def object_field [OF r] object_safe_prop [OF r] items_list [OF verbs]
          nested_prop [OF rk] make_resource_def jtruthy_def to_discover_def
          kind_name_def ends_with_def discovered_def Let_def text_or_empty [OF singular] text_version [OF assms(2)])
  qed
qed

lemma all_or_none_filter: "(\<And>r. r \<in> set rs \<Longrightarrow> f r = Inr (if P r then Some (h r) else None)) \<Longrightarrow>
    all_or_none (map f rs) = Some (map h (filter P rs))"
  by (induction rs) auto

lemma group_read:
  assumes "group_document g"
  shows "item_listing g = Some (map snd (group_lists g))"
proof -
  have g: "an_object g" and md: "object_or_missing g ''metadata''"
    and name: "text_or_missing (given_object g ''metadata'') ''name''" and vs: "items_or_missing g ''versions''"
    and docs: "list_all version_document (given_items g ''versions'')"
    using assms unfolding group_document_def by blast+
  show ?thesis
  proof (cases "given_items g ''versions''")
    case Nil
    then show ?thesis
      by (simp add: item_listing_def object_field [OF g] object_safe_prop [OF g] items_first [OF vs] group_lists_def)
  next
    case (Cons v rest)
    with docs have v: "version_document v" by simp
    then have o: "an_object v" and rs: "items_or_missing v ''resources''" and ver: "given_field v ''version'' = Some (JStr (given_text v ''version''))"
      unfolding version_document_def given_text_def by auto
    have "all_or_none (map (aggregated_resource (given_field (given_object g ''metadata'') ''name'') (given_text v ''version''))
        (given_items v ''resources'')) = Some (map (\<lambda>r. snd (discovered g v r)) (filter to_discover (given_items v ''resources'')))"
      using v resource_read [OF _ name] unfolding version_document_def list_all_iff by (intro all_or_none_filter) blast
    then show ?thesis
      by (simp add: item_listing_def object_field [OF g] object_safe_prop [OF g] object_safe_prop [OF o] items_first [OF vs]
          Cons ver items_elements [OF rs] nested_prop [OF md] group_lists_def comp_def)
  qed
qed

lemma groups_read: "list_all group_document gs \<Longrightarrow> listing gs = Some (map snd (concat (map group_lists gs)))"
  by (induction gs) (auto simp: listing_def group_read split: option.splits)

lemma group_keys: "(k, x) \<in> set (group_lists g) \<Longrightarrow> k = resource_key x"
  using discovered_key [of g "hd (given_items g ''versions'')"] unfolding group_lists_def
  by (cases "given_items g ''versions''") (auto, metis fst_conv snd_conv)

lemma added_get: "(\<And>k x. (k, x) \<in> set l \<Longrightarrow> k = resource_key x) \<Longrightarrow>
    dict_get (add_all (map snd l) m) k = (case map_of (rev l) k of None \<Rightarrow> dict_get m k | Some x \<Rightarrow> Some x)"
proof (induction l arbitrary: m)
  case (Cons e l)
  then have "resource_key (snd e) = fst e" by (cases e) force
  moreover have "dict_get (add_all (map snd l) m') k = (case map_of (rev l) k of None \<Rightarrow> dict_get m' k | Some x \<Rightarrow> Some x)" for m'
    using Cons by (metis list.set_intros(2))
  ultimately show ?case
    by (cases e) (auto simp: add_all_def map_add_def split: option.split)
qed (simp add: add_all_def)

lemma added_wf: "dict_wf m \<Longrightarrow> dict_wf (add_all xs m)"
  unfolding add_all_def by (induction xs arbitrary: m) (simp_all add: dict.wf_set)

text \<open>C31: When both aggregated answers of a cluster are documents in which every field that is read is
  missing or has its documented type, discovery never asks the cluster anything else and adds exactly
  the resources that these documents list for the first version of each group, with the fields given
  there: those with a list verb, a name and a kind that does not end in \<open>List\<close>. They stand under
  their full version and plural name, where a later one replaces an earlier one.\<close>

theorem aggregated_discovery_spec:
  assumes "fetch_json env c ''/api'' True = Some (JObj api)" and "map_of api ''items'' = Some (JArr core)"
    and "fetch_json env c ''/apis'' True = Some (JObj apis)" and "map_of apis ''items'' = Some (JArr groups)"
    and "list_all group_document (core @ groups)"
  shows "\<exists>m'. discover_cluster env c m = (Inr (), m') \<and> (dict_wf m \<longrightarrow> dict_wf m') \<and>
    (\<forall>k. dict_get m' k =
      (case map_of (rev (concat (map group_lists (core @ groups)))) k of None \<Rightarrow> dict_get m k | Some x \<Rightarrow> Some x))"
proof -
  let ?xs = "map snd (concat (map group_lists core))" and ?ys = "map snd (concat (map group_lists groups))"
  let ?l = "concat (map group_lists (core @ groups))"
  have a: "array_at (fetch_json env c ''/api'' True) ''items'' = Some core"
    "array_at (fetch_json env c ''/apis'' True) ''items'' = Some groups"
    by (simp_all add: assms array_at_def safe_prop_def jprop_def)
  have l: "listing core = Some ?xs" "listing groups = Some ?ys" using groups_read assms(5) by simp_all
  have "aggregated_part env c ''/api'' m = (Inr True, add_all ?xs m)"
    "aggregated_part env c ''/apis'' (add_all ?xs m) = (Inr True, add_all (?xs @ ?ys) m)"
    using items_added [OF l(1)] items_added [OF l(2)] by (simp_all add: aggregated_part_def a chain_def give_def add_all_append)
  then have run: "discover_cluster env c m = (Inr (), add_all (map snd ?l) m)"
    by (simp add: discover_cluster_def handling_def chain_def give_def)
  have keys: "k = resource_key x" if "(k, x) \<in> set ?l" for k x using that group_keys by auto
  show ?thesis
  proof (intro exI conjI allI impI)
    show "discover_cluster env c m = (Inr (), add_all (map snd ?l) m)" by (rule run)
    show "dict_wf (add_all (map snd ?l) m)" if "dict_wf m" using that by (rule added_wf)
    show "dict_get (add_all (map snd ?l) m) k = (case map_of (rev ?l) k of None \<Rightarrow> dict_get m k | Some x \<Rightarrow> Some x)" for k
      using keys by (rule added_get)
  qed
qed

theorem aggregated_discovery_spec_witness:
  "\<exists>m'. discover_cluster sample_discovery ''up'' [] = (Inr (), m') \<and>
     dict_get m' ''v1pods'' = Some \<lparr>ar_apiVersion = ''v1'', ar_version = ''v1'', ar_groupName = None, ar_pluralName = JStr ''pods'',
        ar_singularName = JStr [], ar_kind = ''Pod'', ar_isNamespaced = True\<rparr> \<and>
     dict_get m' ''v1bindings'' = None"
proof -
  let ?core = "[JObj [(''metadata'', JObj []), (''versions'', JArr [JObj [(''version'', JStr ''v1''),
         (''resources'', JArr [pods_json, JObj [(''verbs'', JArr [JStr ''create'']), (''resource'', JStr ''bindings'')]])]])]]"
  have f: "fetch_json sample_discovery ''up'' ''/api'' True = Some (JObj [(''items'', JArr ?core)])"
    "fetch_json sample_discovery ''up'' ''/apis'' True = Some (JObj [(''items'', JArr [])])"
    by (simp_all add: sample_discovery_def)
  have d: "list_all group_document (?core @ [])"
    by (simp add: group_document_def version_document_def resource_document_def an_object_def object_or_missing_def
        items_or_missing_def text_or_missing_def given_object_def given_items_def given_field_def pods_json_def)
  have p: "map_of (rev (concat (map group_lists (?core @ [])))) ''v1pods'' =
      Some \<lparr>ar_apiVersion = ''v1'', ar_version = ''v1'', ar_groupName = None, ar_pluralName = JStr ''pods'',
        ar_singularName = JStr [], ar_kind = ''Pod'', ar_isNamespaced = True\<rparr>"
    "map_of (rev (concat (map group_lists (?core @ [])))) ''v1bindings'' = None"
    by code_simp+
  from aggregated_discovery_spec [OF f(1) _ f(2) _ d, of "[]"] obtain m' where run: "discover_cluster sample_discovery ''up'' [] = (Inr (), m')"
    and g: "\<forall>k. dict_get m' k = (case map_of (rev (concat (map group_lists (?core @ [])))) k of None \<Rightarrow> dict_get [] k | Some x \<Rightarrow> Some x)"
    by auto
  from g have "dict_get m' ''v1pods'' = (case map_of (rev (concat (map group_lists (?core @ [])))) ''v1pods'' of None \<Rightarrow> dict_get [] ''v1pods'' | Some x \<Rightarrow> Some x)"
    "dict_get m' ''v1bindings'' = (case map_of (rev (concat (map group_lists (?core @ [])))) ''v1bindings'' of None \<Rightarrow> dict_get [] ''v1bindings'' | Some x \<Rightarrow> Some x)"
    by blast+
  with run show ?thesis unfolding p by (intro exI [of _ m'] conjI) (simp_all add: dict_get_def)
qed

text \<open>Resources that a group only serves in another version than its first are not discovered:
  the items of an answer are read as if every group had no other version.\<close>

theorem later_versions_are_not_read:
  "process_item (JObj [(''metadata'', md), (''versions'', JArr (v # vs))]) m =
   process_item (JObj [(''metadata'', md), (''versions'', JArr [v])]) m"
  by (simp add: process_item_def safe_prop_def jprop_def first_version_def)

end
