(* ===== verification/KubeObjects.thy ===== *)
theory KubeObjects
  imports Requests
begin

text \<open>
  Objects of the cluster and their classes: \<^verbatim>\<open>frontend/src/lib/k8s/KubeObject.ts\<close> (the client of a
  class, the writes of an object, its questions about permissions), the patches of
  \<^verbatim>\<open>patchUtils.ts\<close> and the classes of custom resources of \<^verbatim>\<open>crd.ts\<close>. The difference of two
  objects is computed by the package \<open>fast-json-patch\<close> and is a parameter.
\<close>

section \<open>Classes and their clients\<close>

text \<open>\<open>apiVersion: string | string[]\<close>\<close>

datatype api_versions = Version string | Versions "string list"

record kube_class =
  cls_kind :: string
  cls_apiName :: string
  cls_apiVersion :: api_versions
  cls_isNamespaced :: bool
  cls_isScalable :: bool

text \<open>A client of one endpoint, perhaps with the scale API, or of several.\<close>

datatype api_client = Single_Client api_endpoint bool | Multiple_Client "api_endpoint list"

definition versions_of :: "api_versions \<Rightarrow> string list" where
  "versions_of v = (case v of Version s \<Rightarrow> [s] | Versions vs \<Rightarrow> vs)"

text \<open>\<open>const [group, version] = v.includes('/') ? v.split('/') : ['', v]\<close>\<close>

definition class_endpoint :: "kube_class \<Rightarrow> string \<Rightarrow> api_endpoint" where
  "class_endpoint c v =
    (let (g, w) = (if str_includes v ''/''
        then (case js_split ''/'' v of a # b # _ \<Rightarrow> (a, b) | _ \<Rightarrow> ([], v)) else ([], v))
     in \<lparr>ep_group = g, ep_version = w, ep_resource = cls_apiName c, ep_namespaced = cls_isNamespaced c\<rparr>)"

definition apiEndpoint :: "kube_class \<Rightarrow> api_client" where
  "apiEndpoint c = (case map (class_endpoint c) (versions_of (cls_apiVersion c)) of
     [ep] \<Rightarrow> Single_Client ep (cls_isNamespaced c \<and> cls_isScalable c)
   | eps \<Rightarrow> Multiple_Client eps)"

definition endpoints_of :: "api_client \<Rightarrow> api_endpoint list" where
  "endpoints_of c = (case c of Single_Client ep _ \<Rightarrow> [ep] | Multiple_Client eps \<Rightarrow> eps)"

definition call_client :: "api_client \<Rightarrow> (api_endpoint \<Rightarrow> 'a http) \<Rightarrow> 'a option http" where
  "call_client c f = (case c of
     Single_Client ep _ \<Rightarrow> chain (f ep) (\<lambda>x. give (Some x))
   | Multiple_Client eps \<Rightarrow> repeatFactoryMethod f eps)"

definition first_api_version :: "kube_class \<Rightarrow> string" where
  "first_api_version c = (case versions_of (cls_apiVersion c) of v # _ \<Rightarrow> v | [] \<Rightarrow> [])"

definition apiGroupName :: "kube_class \<Rightarrow> string option" where
  "apiGroupName c = (if str_includes (first_api_version c) ''/''
     then Some (hd (js_split ''/'' (first_api_version c))) else None)"

record kube_object =
  ob_class :: kube_class
  ob_body :: kube_body
  ob_cluster :: string

text \<open>The constructor.\<close>

definition new_object :: "http_env \<Rightarrow> kube_class \<Rightarrow> kube_body \<Rightarrow> string option \<Rightarrow> kube_object" where
  "new_object env c body cluster = \<lparr>ob_class = c, ob_body = body, ob_cluster = named_or_current env cluster\<rparr>"

definition isClassOf :: "kube_class \<Rightarrow> kube_object \<Rightarrow> bool" where
  "isClassOf c ob \<longleftrightarrow> apiGroupName (ob_class ob) = apiGroupName c \<and> kb_kind (ob_body ob) = cls_kind c"

definition getErrorMessage :: "http_error option \<Rightarrow> string option" where
  "getErrorMessage err = (case err of
     None \<Rightarrow> None
   | Some (Http_Error _ s) \<Rightarrow> Some (if s = Some 404 then ''Error: Not found''
       else if s = Some 403 then ''Error: No permissions'' else ''Error'')
   | Some Stuck \<Rightarrow> None)"

section \<open>Writes of an object\<close>

definition delete_parameters :: "kube_class \<Rightarrow> bool \<Rightarrow> query_parameters" where
  "delete_parameters c force =
    (if cls_kind c = ''Job'' then [(''propagationPolicy'', PStr ''Background'')] else []) @
    (if force then [(''gracePeriodSeconds'', PNum 0)] else [])"

definition delete_object :: "http_env \<Rightarrow> kube_object \<Rightarrow> bool \<Rightarrow> result_value option http" where
  "delete_object env ob force =
    call_client (apiEndpoint (ob_class ob)) (\<lambda>ep.
      ep_delete env ep (kb_namespace (ob_body ob)) (kb_name (ob_body ob))
        (Some (delete_parameters (ob_class ob) force)) (Some (ob_cluster ob)))"

definition update_object :: "http_env \<Rightarrow> kube_object \<Rightarrow> kube_body \<Rightarrow> result_value option http" where
  "update_object env ob data =
    call_client (apiEndpoint (ob_class ob)) (\<lambda>ep. ep_put env ep data (Some []) (Some (ob_cluster ob)))"

text \<open>The static method names no cluster.\<close>

definition put_static :: "http_env \<Rightarrow> kube_class \<Rightarrow> kube_body \<Rightarrow> result_value option http" where
  "put_static env c data = call_client (apiEndpoint c) (\<lambda>ep. ep_put env ep data None None)"

definition patch_object :: "http_env \<Rightarrow> kube_object \<Rightarrow> json \<Rightarrow> result_value option http" where
  "patch_object env ob body =
    call_client (apiEndpoint (ob_class ob)) (\<lambda>ep.
      ep_patch env ep body (kb_namespace (ob_body ob)) (kb_name (ob_body ob)) (Some []) (Some (ob_cluster ob)))"

definition scale_object :: "http_env \<Rightarrow> kube_object \<Rightarrow> int \<Rightarrow> result_value http" where
  "scale_object env ob n = (case apiEndpoint (ob_class ob) of
     Single_Client ep True \<Rightarrow> scale_patch env ep n
       (case kb_namespace (ob_body ob) of None \<Rightarrow> ''undefined'' | Some ns \<Rightarrow> ns) (kb_name (ob_body ob)) (Some (ob_cluster ob))
   | _ \<Rightarrow> throw_error (Http_Error (''This class has no scale API: '' @ cls_kind (ob_class ob)) None))"

section \<open>patchUtils.ts\<close>

record patch_op =
  op_op :: string
  op_path :: string
  op_rest :: "(string, json) dict"

definition isStandardOp :: "patch_op \<Rightarrow> bool" where
  "isStandardOp p \<longleftrightarrow> op_op p \<in> {''add'', ''remove'', ''replace'', ''move'', ''copy'', ''test''}"

definition isServerManagedPath :: "string \<Rightarrow> bool" where
  "isServerManagedPath path \<longleftrightarrow> path = ''/metadata/resourceVersion'' \<or> path = ''/metadata/managedFields'' \<or>
     starts_with path ''/metadata/managedFields/'' \<or> path = ''/metadata/generation'' \<or>
     path = ''/status'' \<or> starts_with path ''/status/''"

definition computePatchOperations :: "(json \<Rightarrow> json \<Rightarrow> patch_op list) \<Rightarrow> json \<Rightarrow> json \<Rightarrow> patch_op list" where
  "computePatchOperations compare original modified =
     filter (\<lambda>p. isStandardOp p \<and> \<not> isServerManagedPath (op_path p)) (compare original modified)"

definition computeRawPatchCount :: "(json \<Rightarrow> json \<Rightarrow> patch_op list) \<Rightarrow> json \<Rightarrow> json \<Rightarrow> nat" where
  "computeRawPatchCount compare original modified =
     length (filter (\<lambda>p. op_path p \<noteq> ''/metadata/managedFields'' \<and>
       \<not> starts_with (op_path p) ''/metadata/managedFields/'') (compare original modified))"

definition normalizeBaselineForPatch :: "json \<Rightarrow> json" where
  "normalizeBaselineForPatch obj = (case obj of
     JObj fs \<Rightarrow> (case dict_get fs ''metadata'' of
       Some (JObj ms) \<Rightarrow> JObj (dict_set ''metadata'' (JObj (dict_delete ''managedFields'' ms)) fs)
     | _ \<Rightarrow> obj)
   | _ \<Rightarrow> obj)"

definition op_json :: "patch_op \<Rightarrow> json" where
  "op_json p = JObj ((''op'', JStr (op_op p)) # (''path'', JStr (op_path p)) # op_rest p)"

datatype patch_outcome = Unchanged | Patched "result_value option"

definition only_managed :: "kube_object \<Rightarrow> nat \<Rightarrow> string" where
  "only_managed ob n = ''No editable changes to apply: all '' @ int_str (int n) @ '' change(s) for '' @ kb_name (ob_body ob) @
     '' were in server-managed fields (status, resourceVersion, managedFields, generation).''"

definition patchUpdate ::
  "http_env \<Rightarrow> (json \<Rightarrow> json \<Rightarrow> patch_op list) \<Rightarrow> kube_object \<Rightarrow> json \<Rightarrow> json \<Rightarrow> patch_outcome http" where
  "patchUpdate env compare ob original modified =
    (let ops = computePatchOperations compare original modified;
         rawCount = computeRawPatchCount compare original modified
     in if ops = []
        then (if 0 < rawCount then throw_error (Http_Error (only_managed ob rawCount) None) else give Unchanged)
        else chain (call_client (apiEndpoint (ob_class ob)) (\<lambda>ep.
          ep_jsonPatch env ep (JArr (map op_json ops)) (kb_namespace (ob_body ob)) (kb_name (ob_body ob))
            (Some []) (Some (ob_cluster ob)))) (\<lambda>r. give (Patched r)))"

section \<open>Permissions\<close>

type_synonym auth_attrs = "(string, string) dict"

definition review :: "http_env \<Rightarrow> auth_attrs \<Rightarrow> string option \<Rightarrow> string \<Rightarrow> result_value http" where
  "review env attrs cluster version =
    post env (''/apis/authorization.k8s.io/'' @ version @ ''/selfsubjectaccessreviews'')
      (Json_Body (JObj [(''kind'', JStr ''SelfSubjectAccessReview''),
         (''apiVersion'', JStr (''authorization.k8s.io/'' @ version)),
         (''spec'', JObj [(''resourceAttributes'', JObj (map (\<lambda>(k, v). (k, JStr v)) attrs))])]))
      False (in_cluster cluster)"

definition fetchAuthorization :: "http_env \<Rightarrow> auth_attrs \<Rightarrow> string option \<Rightarrow> result_value http" where
  "fetchAuthorization env attrs cluster =
    handling (review env attrs cluster ''v1'') (\<lambda>err. case err of
       Http_Error m s \<Rightarrow> if s \<noteq> Some 404 then throw_error err else review env attrs cluster ''v1beta1''
     | Stuck \<Rightarrow> throw_error Stuck)"

definition truthy_result :: "result_value option \<Rightarrow> bool" where
  "truthy_result r = (case r of None \<Rightarrow> False | Some (Value j) \<Rightarrow> jtruthy (Some j) | Some (Whole _) \<Rightarrow> True)"

fun try_versions :: "http_env \<Rightarrow> auth_attrs \<Rightarrow> string option \<Rightarrow> api_endpoint list \<Rightarrow> result_value option http" where
  "try_versions env attrs cluster [] = give None"
| "try_versions env attrs cluster (ep # eps) =
     chain (handling (chain (fetchAuthorization env
           (dict_set ''version'' (ep_version ep) (dict_set ''group'' (ep_group ep) attrs)) cluster) (\<lambda>x. give (Some x)))
         (\<lambda>err. case err of
            Http_Error m s \<Rightarrow> if s \<noteq> Some 404 \<or> eps = [] then throw_error err else give None
          | Stuck \<Rightarrow> throw_error Stuck))
       (\<lambda>authResult. if truthy_result authResult then give authResult else try_versions env attrs cluster eps)"

definition spread_attrs :: "auth_attrs \<Rightarrow> auth_attrs \<Rightarrow> auth_attrs" where
  "spread_attrs a b = fold (\<lambda>(k, v). dict_set k v) b a"

definition class_getAuthorization :: "http_env \<Rightarrow> kube_class \<Rightarrow> string \<Rightarrow> auth_attrs \<Rightarrow> string option \<Rightarrow> result_value option http" where
  "class_getAuthorization env c verb req cluster =
    (let attrs = spread_attrs [(''verb'', verb)] req;
         attrs = (if truthy (dict_get attrs ''resource'') then attrs else dict_set ''resource'' (cls_apiName c) attrs)
     in if truthy (dict_get attrs ''group'') \<and> truthy (dict_get attrs ''version'') \<and> truthy (dict_get attrs ''resource'')
        then chain (fetchAuthorization env attrs cluster) (\<lambda>x. give (Some x))
        else try_versions env attrs cluster (endpoints_of (apiEndpoint c)))"

definition getAuthorization :: "http_env \<Rightarrow> kube_object \<Rightarrow> string \<Rightarrow> auth_attrs \<Rightarrow> result_value option http" where
  "getAuthorization env ob verb req =
    (let attrs = spread_attrs [(''name'', kb_name (ob_body ob)), (''verb'', verb)] req;
         namespace = kb_namespace (ob_body ob);
         attrs = (if \<not> truthy (dict_get attrs ''namespace'') \<and> truthy namespace
                  then dict_set ''namespace'' (or_else namespace []) attrs else attrs);
         parts = js_split ''/'' (kb_apiVersion (ob_body ob));
         g = (case parts of [] \<Rightarrow> [] | a # _ \<Rightarrow> a); v = (case parts of a # b # _ \<Rightarrow> b | _ \<Rightarrow> []);
         (g', v') = (if v = [] then ([], g) else (g, v));
         attrs = (if g' \<noteq> [] then dict_set ''group'' g' attrs else attrs);
         attrs = (if v' \<noteq> [] then dict_set ''version'' v' attrs else attrs)
     in class_getAuthorization env (ob_class ob) verb attrs (Some (ob_cluster ob)))"

section \<open>Classes of custom resources\<close>

record crd_version =
  cv_name :: string
  cv_served :: bool
  cv_storage :: bool

record crd_spec =
  crd_group :: string
  crd_version_field :: "string option"
  crd_versions :: "crd_version list"
  crd_plural :: string
  crd_kind :: string
  crd_scope :: string

text \<open>The loop over the versions: it stops at the first storage version and otherwise remembers the
  first name it sees.\<close>

fun main_version :: "string option \<Rightarrow> crd_version list \<Rightarrow> string option" where
  "main_version version [] = version"
| "main_version version (v # vs) =
     (if cv_storage v then Some (cv_name v)
      else main_version (if truthy version then version else Some (cv_name v)) vs)"

definition getMainAPIGroup :: "crd_spec \<Rightarrow> string \<times> string option \<times> string" where
  "getMainAPIGroup d = (crd_group d,
     (if truthy (crd_version_field d) then crd_version_field d else main_version (crd_version_field d) (crd_versions d)),
     crd_plural d)"

definition group_slash :: "string \<Rightarrow> string \<Rightarrow> string" where
  "group_slash g v = (if g \<noteq> [] then g @ ''/'' @ v else v)"

definition makeCRClass :: "crd_spec \<Rightarrow> kube_class" where
  "makeCRClass d = \<lparr>cls_kind = crd_kind d, cls_apiName = crd_plural d,
     cls_apiVersion = Versions (map (\<lambda>v. group_slash (crd_group d) (cv_name v)) (crd_versions d)),
     cls_isNamespaced = (crd_scope d = ''Namespaced''), cls_isScalable = False\<rparr>"

text \<open>The client of such a class is always one of several endpoints.\<close>

definition crd_client :: "crd_spec \<Rightarrow> api_client" where
  "crd_client d = Multiple_Client (map (\<lambda>v. \<lparr>ep_group = crd_group d, ep_version = cv_name v, ep_resource = crd_plural d,
     ep_namespaced = (crd_scope d = ''Namespaced'')\<rparr>) (crd_versions d))"

definition crd_base_version :: "crd_spec \<Rightarrow> string" where
  "crd_base_version d = (case getMainAPIGroup d of (g, v, _) \<Rightarrow> group_slash g (case v of None \<Rightarrow> ''undefined'' | Some x \<Rightarrow> x))"

section \<open>Calls of a client\<close>

text \<open>A call that also fixes the method and the body of its requests.\<close>

locale object_call = endpoint_call +
  fixes shape :: "http_request \<Rightarrow> bool"
  assumes shaped: "func ep w = (r, w') \<Longrightarrow> sent_requests w' = sent_requests w @ rqs \<Longrightarrow> list_all shape rqs"
begin

lemma repeated_shaped:
  assumes "repeatFactoryMethod func eps w = (r, w')"
  shows "\<exists>rqs. sent_requests w' = sent_requests w @ rqs \<and> list_all shape rqs"
  using assms
proof (induction eps arbitrary: w)
  case Nil
  then show ?case by (simp add: give_def)
next
  case (Cons ep eps)
  obtain q w1 where q: "func ep w = (q, w1)" by fastforce
  from sends [OF q] obtain rqs where rqs: "sent_requests w1 = sent_requests w @ rqs"
    by (elim exE conjE) (rule that; assumption)
  have s: "list_all shape rqs" by (rule shaped [OF q rqs])
  have "w' = w1 \<or> repeatFactoryMethod func eps w1 = (r, w')"
    using Cons.prems q
    by (auto simp: handling_def chain_def throw_error_def give_def split: sum.splits http_error.splits if_splits)
  then show ?case
  proof
    assume "repeatFactoryMethod func eps w1 = (r, w')"
    from Cons.IH [OF this] obtain more where "sent_requests w' = sent_requests w1 @ more" "list_all shape more" by blast
    with rqs s show ?thesis by (intro exI [of _ "rqs @ more"]) simp
  qed (use rqs s in blast)
qed

end

text \<open>The endpoints are asked in their order, the next one only after an answer with 404, with
  requests of the given shape; and 404 is the outcome only after all of them.\<close>

definition tried_in_order ::
  "http_env \<Rightarrow> (api_endpoint \<Rightarrow> string) \<Rightarrow> (http_request \<Rightarrow> bool) \<Rightarrow> api_endpoint list \<Rightarrow> http_request list \<Rightarrow> http_request list \<Rightarrow> bool" where
  "tried_in_order env aim shape eps past rqs \<longleftrightarrow>
     map rq_url rqs = map aim (take (length rqs) eps) \<and> length rqs \<le> length eps \<and>
     (\<forall>i. Suc i < length rqs \<longrightarrow> rs_status (response_of (server env (past @ take i rqs) (rqs ! i))) = 404) \<and>
     list_all shape rqs"

lemma call_client_repeats: "call_client c f = repeatFactoryMethod f (endpoints_of c)"
proof (cases c)
  case (Single_Client ep b)
  then show ?thesis
    by (auto simp: fun_eq_iff call_client_def endpoints_of_def handling_def chain_def throw_error_def give_def
        split: prod.split sum.split http_error.split)
qed (simp add: call_client_def endpoints_of_def)

context object_call
begin

lemma called:
  assumes "call_client c func w = (r, w')"
  shows "\<exists>rqs. sent_requests w' = sent_requests w @ rqs \<and> tried_in_order env aim shape (endpoints_of c) (sent_requests w) rqs \<and>
    (\<forall>m. r = Inl (Http_Error m (Some 404)) \<longrightarrow> length rqs = length (endpoints_of c))"
proof -
  note run = assms [unfolded call_client_repeats]
  from repeated [OF run] obtain rqs where rqs: "sent_requests w' = sent_requests w @ rqs"
    "\<forall>m. r = Inl (Http_Error m (Some 404)) \<longrightarrow> length rqs = length (endpoints_of c)"
    and f: "falls_back (sent_requests w) (endpoints_of c) rqs" by blast
  from repeated_shaped [OF run] rqs(1) have "list_all shape rqs" by auto
  with falls_back_length [OF f] falls_back_urls [OF f] falls_back_missing [OF f] rqs
  show ?thesis unfolding tried_in_order_def by blast
qed

end

text \<open>Every call that is one request is such a call.\<close>

lemma request_call:
  assumes run: "\<And>ep w. func ep w = clusterRequest env (path ep) (params ep w) None w"
    and "\<And>ep w. or_else (p_cluster (params ep w)) [] = c" and "\<And>ep w. or_else (p_method (params ep w)) ''GET'' = m"
    and "\<And>ep w. (case p_body (params ep w) of None \<Rightarrow> No_Body | Some b \<Rightarrow> b) = body"
  shows "object_call env func (\<lambda>ep. cluster_url env c (path ep) None) (\<lambda>rq. rq_method rq = m \<and> rq_body rq = body)"
proof unfold_locales
  fix ep w r w'
  assume f: "func ep w = (r, w')"
  note s = clusterRequest_sends [OF f [unfolded run], unfolded assms(2-4)]
  from s show "\<exists>rqs. sent_requests w' = sent_requests w @ rqs \<and> length rqs \<le> 1 \<and>
      (\<forall>rq \<in> set rqs. rq_url rq = cluster_url env c (path ep) None) \<and>
      (\<forall>m s. r = Inl (Http_Error m (Some s)) \<longrightarrow>
         (\<exists>rq. rqs = [rq] \<and> rs_status (response_of (server env (sent_requests w) rq)) = s))"
    by (elim exE) (rule exI, auto)
  fix rqs assume "sent_requests w' = sent_requests w @ rqs"
  with s show "list_all (\<lambda>rq. rq_method rq = m \<and> rq_body rq = body) rqs"
    by (auto simp: list_all_iff)
qed

text \<open>The parameters of a write in a cluster that is named.\<close>

definition write_params :: "string \<Rightarrow> req_body option \<Rightarrow> header_ref \<Rightarrow> string \<Rightarrow> bool option \<Rightarrow> request_params" where
  "write_params m body h c logout = \<lparr>p_method = Some m, p_body = body, p_headers = Some h, p_cluster = Some c,
     p_autoLogout = logout, p_isJSON = None\<rparr>"

lemma ep_jsonPatch_request: "ep_jsonPatch env ep body namespace name query cluster w =
    clusterRequest env (ep_url ep namespace @ ''/'' @ name @ asQuery (pretty query))
      (write_params ''PATCH'' (Some (Json_Body body))
        (Own_Headers (dict_set ''Content-Type'' ''application/json-patch+json'' (json_headers w)))
        (named_or_current env cluster) (Some True)) None w"
  by (simp add: ep_jsonPatch_def jsonPatch_def patch_as_def observe_def in_cluster_def no_params_def spread_params_def pick_def write_params_def)

lemma ep_patch_request: "ep_patch env ep body namespace name query cluster w =
    clusterRequest env (ep_url ep namespace @ ''/'' @ name @ asQuery (pretty query))
      (write_params ''PATCH'' (Some (Json_Body body))
        (Own_Headers (dict_set ''Content-Type'' ''application/merge-patch+json'' (json_headers w)))
        (named_or_current env cluster) (Some True)) None w"
  by (simp add: ep_patch_def patch_def patch_as_def observe_def in_cluster_def no_params_def spread_params_def pick_def write_params_def)

lemma named_or_named: "c \<noteq> [] \<Longrightarrow> named_or_current env (Some c) = c"
  by (simp add: named_or_current_def)

lemma or_else_named [simp]: "or_else (Some (named_or_current env cluster)) [] = named_or_current env cluster"
  by (cases "named_or_current env cluster = []") simp_all

text \<open>The address of an object in the cluster.\<close>

definition object_url :: "http_env \<Rightarrow> string option \<Rightarrow> string option \<Rightarrow> string \<Rightarrow> query_parameters option \<Rightarrow> api_endpoint \<Rightarrow> string" where
  "object_url env cluster namespace name query ep =
     cluster_url env (named_or_current env cluster) (ep_url ep namespace @ ''/'' @ name @ asQuery query) None"

interpretation deletes: object_call env "\<lambda>ep. ep_delete env ep namespace name query cluster"
    "object_url env cluster namespace name query" "\<lambda>rq. rq_method rq = ''DELETE'' \<and> rq_body rq = No_Body"
  for env namespace name query cluster
  unfolding object_url_def [abs_def] by (rule request_call) (rule ep_delete_request, simp_all)

interpretation updates: object_call env "\<lambda>ep. ep_put env ep data query cluster"
    "object_url env cluster (kb_namespace data) (kb_name data) query" "\<lambda>rq. rq_method rq = ''PUT'' \<and> rq_body rq = Kube data"
  for env data query cluster
  unfolding object_url_def [abs_def] by (rule request_call) (rule ep_put_request, simp_all)

interpretation merges: object_call env "\<lambda>ep. ep_patch env ep body namespace name query cluster"
    "object_url env cluster namespace name (pretty query)" "\<lambda>rq. rq_method rq = ''PATCH'' \<and> rq_body rq = Json_Body body"
  for env body namespace name query cluster
  unfolding object_url_def [abs_def] by (rule request_call) (rule ep_patch_request, simp_all add: write_params_def)

interpretation patches: object_call env "\<lambda>ep. ep_jsonPatch env ep body namespace name query cluster"
    "object_url env cluster namespace name (pretty query)" "\<lambda>rq. rq_method rq = ''PATCH'' \<and> rq_body rq = Json_Body body"
  for env body namespace name query cluster
  unfolding object_url_def [abs_def] by (rule request_call) (rule ep_jsonPatch_request, simp_all add: write_params_def)

section \<open>Writes reach their object only\<close>

text \<open>C26: Deleting an object sends its requests to the path of that object in its own cluster, to the
  endpoints of its class in their order, and goes on only after an answer with status 404.\<close>

theorem delete_reaches_its_object:
  assumes "ob_cluster ob \<noteq> []" and "delete_object env ob force w = (r, w')"
  shows "\<exists>rqs. sent_requests w' = sent_requests w @ rqs \<and>
    tried_in_order env (\<lambda>ep. cluster_url env (ob_cluster ob) (ep_url ep (kb_namespace (ob_body ob)) @ ''/'' @ kb_name (ob_body ob) @
        asQuery (Some (delete_parameters (ob_class ob) force))) None)
      (\<lambda>rq. rq_method rq = ''DELETE'' \<and> rq_body rq = No_Body) (endpoints_of (apiEndpoint (ob_class ob))) (sent_requests w) rqs"
  using deletes.called [OF assms(2) [unfolded delete_object_def]]
  unfolding object_url_def [abs_def] named_or_named [OF assms(1)] by blast

text \<open>The fields that the server manages, with everything below the first two.\<close>

definition server_field :: "string \<Rightarrow> bool" where
  "server_field path \<longleftrightarrow> (\<exists>f \<in> {''/status'', ''/metadata/managedFields''}. path = f \<or> prefix (f @ ''/'') path) \<or>
     path \<in> {''/metadata/resourceVersion'', ''/metadata/generation''}"

lemma managed_is_server_field: "isServerManagedPath path = server_field path"
  by (auto simp: isServerManagedPath_def server_field_def starts_with_def)

text \<open>C8: An edit of an object is sent as one patch without any operation on a field that the server
  manages, to the object in its own cluster; when nothing remains, nothing is sent: an unchanged
  object is returned, an edit of managed fields only is an error.\<close>

theorem patch_sends_no_managed_field:
  assumes "ob_cluster ob \<noteq> []" and "patchUpdate env compare ob original modified w = (r, w')"
  shows "\<exists>rqs ops. sent_requests w' = sent_requests w @ rqs \<and>
    list_all (\<lambda>p. isStandardOp p \<and> \<not> server_field (op_path p)) ops \<and>
    (\<forall>p \<in> set (compare original modified). isStandardOp p \<and> \<not> server_field (op_path p) \<longrightarrow> p \<in> set ops) \<and>
    tried_in_order env (\<lambda>ep. cluster_url env (ob_cluster ob) (ep_url ep (kb_namespace (ob_body ob)) @ ''/'' @ kb_name (ob_body ob) @
        asQuery (pretty (Some []))) None)
      (\<lambda>rq. rq_method rq = ''PATCH'' \<and> rq_body rq = Json_Body (JArr (map op_json ops)))
      (endpoints_of (apiEndpoint (ob_class ob))) (sent_requests w) rqs \<and>
    (ops = [] \<longrightarrow> rqs = [] \<and> (if computeRawPatchCount compare original modified = 0 then r = Inr Unchanged
       else \<exists>m. r = Inl (Http_Error m None)))"
proof -
  let ?ops = "computePatchOperations compare original modified"
  have ops: "list_all (\<lambda>p. isStandardOp p \<and> \<not> server_field (op_path p)) ?ops"
    "\<forall>p \<in> set (compare original modified). isStandardOp p \<and> \<not> server_field (op_path p) \<longrightarrow> p \<in> set ?ops"
    by (auto simp: computePatchOperations_def list_all_iff managed_is_server_field)
  show ?thesis
  proof (cases "?ops = []")
    case True
    then have "w' = w" "if computeRawPatchCount compare original modified = 0 then r = Inr Unchanged else \<exists>m. r = Inl (Http_Error m None)"
      using assms(2) by (auto simp: patchUpdate_def Let_def throw_error_def give_def split: if_splits)
    with True ops show ?thesis
      by (intro exI [of _ "[]"] exI [of _ ?ops]) (simp add: tried_in_order_def)
  next
    case False
    obtain q where "call_client (apiEndpoint (ob_class ob)) (\<lambda>ep.
          ep_jsonPatch env ep (JArr (map op_json ?ops)) (kb_namespace (ob_body ob)) (kb_name (ob_body ob))
            (Some []) (Some (ob_cluster ob))) w = (q, w')"
      using assms(2) False by (auto simp: patchUpdate_def Let_def chain_def give_def split: prod.splits sum.splits)
    from patches.called [OF this] show ?thesis
      unfolding object_url_def [abs_def] named_or_named [OF assms(1)] using ops False by blast
  qed
qed

text \<open>A deployment in a cluster, and a difference that touches its status too.\<close>

definition deployment_class :: kube_class where
  "deployment_class = \<lparr>cls_kind = ''Deployment'', cls_apiName = ''deployments'', cls_apiVersion = Version ''apps/v1'',
     cls_isNamespaced = True, cls_isScalable = True\<rparr>"

definition sample_object :: kube_object where
  "sample_object = \<lparr>ob_class = deployment_class, ob_body = \<lparr>kb_kind = ''Deployment'', kb_apiVersion = ''apps/v1'', kb_name = ''d'',
     kb_namespace = Some ''n'', kb_resourceVersion = Some ''7'', kb_rest = JObj []\<rparr>, ob_cluster = ''prod''\<rparr>"

definition sample_compare :: "json \<Rightarrow> json \<Rightarrow> patch_op list" where
  "sample_compare a b = (if a = b then [] else [\<lparr>op_op = ''replace'', op_path = ''/spec/replicas'', op_rest = [(''value'', b)]\<rparr>,
     \<lparr>op_op = ''remove'', op_path = ''/status/replicas'', op_rest = []\<rparr>])"

theorem delete_reaches_its_object_witness:
  "\<exists>rq. sent_requests (snd (delete_object (sample_http 200) sample_object True (fresh_http sample_http_store))) = [rq] \<and>
     rq_url rq = ''http://h:4466/clusters/prod/apis/apps/v1/namespaces/n/deployments/d?gracePeriodSeconds=0''"
proof -
  let ?run = "delete_object (sample_http 200) sample_object True (fresh_http sample_http_store)"
  have c: "ob_cluster sample_object \<noteq> []" by (simp add: sample_object_def)
  have s: "sent_requests (fresh_http sample_http_store) = []" by (simp add: fresh_http_def)
  have n: "length (sent_requests (snd ?run)) = 1" by code_simp
  have e: "endpoints_of (apiEndpoint (ob_class sample_object)) = [class_endpoint deployment_class ''apps/v1'']" by code_simp
  have u: "cluster_url (sample_http 200) (ob_cluster sample_object) (ep_url (class_endpoint deployment_class ''apps/v1'')
      (kb_namespace (ob_body sample_object)) @ ''/'' @ kb_name (ob_body sample_object) @
      asQuery (Some (delete_parameters (ob_class sample_object) True))) None =
    ''http://h:4466/clusters/prod/apis/apps/v1/namespaces/n/deployments/d?gracePeriodSeconds=0''" by code_simp
  from delete_reaches_its_object [OF c, of "sample_http 200" True "fresh_http sample_http_store" "fst ?run" "snd ?run"] n s e u
  show ?thesis by (auto simp: tried_in_order_def length_Suc_conv)
qed

theorem patch_sends_no_managed_field_witness:
  "\<exists>rq. sent_requests (snd (patchUpdate (sample_http 200) sample_compare sample_object JNull (JNum 3) (fresh_http sample_http_store))) = [rq] \<and>
     rq_method rq = ''PATCH''"
proof -
  let ?run = "patchUpdate (sample_http 200) sample_compare sample_object JNull (JNum 3) (fresh_http sample_http_store)"
  have c: "ob_cluster sample_object \<noteq> []" by (simp add: sample_object_def)
  have s: "sent_requests (fresh_http sample_http_store) = []" by (simp add: fresh_http_def)
  have n: "length (sent_requests (snd ?run)) = 1" by code_simp
  from patch_sends_no_managed_field [OF c, of "sample_http 200" sample_compare JNull "JNum 3" "fresh_http sample_http_store" "fst ?run" "snd ?run"] n s
  show ?thesis by (auto simp: tried_in_order_def length_Suc_conv)
qed

section \<open>Questions about permissions\<close>

definition review_request :: "http_env \<Rightarrow> string option \<Rightarrow> http_request \<Rightarrow> bool" where
  "review_request env cluster rq \<longleftrightarrow> rq_method rq = ''POST'' \<and>
     (\<exists>v \<in> {''v1'', ''v1beta1''}. rq_url rq = cluster_url env (named_or_current env cluster)
        (''/apis/authorization.k8s.io/'' @ v @ ''/selfsubjectaccessreviews'') None)"

lemma review_sends:
  assumes "review env attrs cluster v w = (r, w')" and "v \<in> {''v1'', ''v1beta1''}"
  shows "\<exists>rqs. sent_requests w' = sent_requests w @ rqs \<and> length rqs \<le> 1 \<and> list_all (review_request env cluster) rqs \<and>
    (\<forall>m s. r = Inl (Http_Error m (Some s)) \<longrightarrow> length rqs = 1)"
proof -
  have "review env attrs cluster v w = clusterRequest env (''/apis/authorization.k8s.io/'' @ v @ ''/selfsubjectaccessreviews'')
      (write_params ''POST'' (Some (Json_Body (JObj [(''kind'', JStr ''SelfSubjectAccessReview''),
         (''apiVersion'', JStr (''authorization.k8s.io/'' @ v)),
         (''spec'', JObj [(''resourceAttributes'', JObj (map (\<lambda>(k, v). (k, JStr v)) attrs))])]))) Json_Headers
        (named_or_current env cluster) (Some False)) None w"
    by (simp add: review_def post_def in_cluster_def no_params_def spread_params_def pick_def write_params_def)
  with assms(1) have "clusterRequest env (''/apis/authorization.k8s.io/'' @ v @ ''/selfsubjectaccessreviews'')
      (write_params ''POST'' (Some (Json_Body (JObj [(''kind'', JStr ''SelfSubjectAccessReview''),
         (''apiVersion'', JStr (''authorization.k8s.io/'' @ v)),
         (''spec'', JObj [(''resourceAttributes'', JObj (map (\<lambda>(k, v). (k, JStr v)) attrs))])]))) Json_Headers
        (named_or_current env cluster) (Some False)) None w = (r, w')" by simp
  from clusterRequest_sends [OF this] assms(2) show ?thesis
    by (elim exE) (rule exI, auto simp: write_params_def review_request_def list_all_iff)
qed

lemma fetchAuthorization_sends:
  assumes "fetchAuthorization env attrs cluster w = (r, w')"
  shows "\<exists>rqs. sent_requests w' = sent_requests w @ rqs \<and> length rqs \<le> 2 \<and> list_all (review_request env cluster) rqs \<and>
    (\<forall>m. r = Inl (Http_Error m (Some 404)) \<longrightarrow> length rqs = 2)"
proof -
  obtain q w1 where q: "review env attrs cluster ''v1'' w = (q, w1)" by fastforce
  from review_sends [OF q] obtain as where as: "sent_requests w1 = sent_requests w @ as" "length as \<le> 1"
    "list_all (review_request env cluster) as" "\<forall>m s. q = Inl (Http_Error m (Some s)) \<longrightarrow> length as = 1" by auto
  show ?thesis
  proof (cases "\<exists>m. q = Inl (Http_Error m (Some 404))")
    case True
    then have "review env attrs cluster ''v1beta1'' w1 = (r, w')"
      using assms q by (auto simp: fetchAuthorization_def handling_def)
    from review_sends [OF this] obtain bs where "sent_requests w' = sent_requests w1 @ bs" "length bs \<le> 1"
      "list_all (review_request env cluster) bs" "\<forall>m s. r = Inl (Http_Error m (Some s)) \<longrightarrow> length bs = 1" by auto
    with as True show ?thesis by (intro exI [of _ "as @ bs"]) auto
  next
    case False
    then have "r = q" "w' = w1"
      using assms q by (auto simp: fetchAuthorization_def handling_def throw_error_def split: sum.splits http_error.splits if_splits)
    with as False show ?thesis by (intro exI [of _ as]) auto
  qed
qed

lemma try_versions_sends:
  assumes "try_versions env attrs cluster eps w = (r, w')"
  shows "\<exists>rqs. sent_requests w' = sent_requests w @ rqs \<and> length rqs \<le> 2 * length eps \<and> list_all (review_request env cluster) rqs"
  using assms
proof (induction eps arbitrary: w)
  case Nil
  then show ?case by (simp add: give_def)
next
  case (Cons ep eps)
  let ?attrs = "dict_set ''version'' (ep_version ep) (dict_set ''group'' (ep_group ep) attrs)"
  obtain q w1 where q: "fetchAuthorization env ?attrs cluster w = (q, w1)" by fastforce
  from fetchAuthorization_sends [OF q] obtain as where as: "sent_requests w1 = sent_requests w @ as" "length as \<le> 2"
    "list_all (review_request env cluster) as" by blast
  from Cons.prems q have "w' = w1 \<or> try_versions env attrs cluster eps w1 = (r, w')"
    by (auto simp: handling_def chain_def throw_error_def give_def split: sum.splits http_error.splits if_splits)
  then show ?case
  proof
    assume "try_versions env attrs cluster eps w1 = (r, w')"
    from Cons.IH [OF this] obtain bs where "sent_requests w' = sent_requests w1 @ bs" "length bs \<le> 2 * length eps"
      "list_all (review_request env cluster) bs" by blast
    with as show ?thesis by (intro exI [of _ "as @ bs"]) auto
  qed (use as in force)
qed

text \<open>Asking whether an action on an object is allowed sends at most two reviews for each version
  of its class, all to the cluster of the object, and nothing else.\<close>

theorem permission_reviews_are_bounded:
  assumes "versions_of (cls_apiVersion (ob_class ob)) \<noteq> []" and "getAuthorization env ob verb req w = (r, w')"
  shows "\<exists>rqs. sent_requests w' = sent_requests w @ rqs \<and> list_all (review_request env (Some (ob_cluster ob))) rqs \<and>
    length rqs \<le> 2 * length (versions_of (cls_apiVersion (ob_class ob)))"
proof -
  let ?c = "ob_class ob"
  have "\<exists>attrs. getAuthorization env ob verb req = class_getAuthorization env ?c verb attrs (Some (ob_cluster ob))"
    unfolding getAuthorization_def Let_def case_prod_unfold by (rule exI) (rule refl)
  with assms(2) obtain attrs where "class_getAuthorization env ?c verb attrs (Some (ob_cluster ob)) w = (r, w')" by auto
  then obtain as where "(\<exists>q. fetchAuthorization env as (Some (ob_cluster ob)) w = (q, w')) \<or>
      try_versions env as (Some (ob_cluster ob)) (endpoints_of (apiEndpoint ?c)) w = (r, w')"
    by (auto simp: class_getAuthorization_def Let_def chain_def give_def split: if_splits sum.splits prod.splits)
  moreover have "length (endpoints_of (apiEndpoint ?c)) = length (versions_of (cls_apiVersion ?c))"
    by (auto simp: apiEndpoint_def endpoints_of_def split: list.split)
  moreover have "2 \<le> 2 * length (versions_of (cls_apiVersion ?c))" using assms(1) by (cases "versions_of (cls_apiVersion ?c)") auto
  ultimately show ?thesis
    by (elim disjE exE) (fastforce dest: fetchAuthorization_sends try_versions_sends)+
qed

theorem permission_reviews_are_bounded_witness:
  "length (sent_requests (snd (getAuthorization (sample_http 404) sample_object ''update'' [] (fresh_http sample_http_store)))) = 2"
proof -
  let ?run = "getAuthorization (sample_http 404) sample_object ''update'' [] (fresh_http sample_http_store)"
  have v: "versions_of (cls_apiVersion (ob_class sample_object)) = [''apps/v1'']" by code_simp
  have "length (sent_requests (snd ?run)) \<ge> 2" by code_simp
  moreover have "sent_requests (fresh_http sample_http_store) = []" by (simp add: fresh_http_def)
  ultimately show ?thesis
    using permission_reviews_are_bounded [of sample_object "sample_http 404" "''update''" "[]" "fresh_http sample_http_store" "fst ?run" "snd ?run"] v
    by auto
qed

section \<open>Custom resources\<close>

text \<open>The class of a custom resource stores the versions as text and its client is built from the
  definition directly; reading the text back gives the same endpoints, for groups and versions
  without a slash.\<close>

theorem custom_class_endpoints_roundtrip:
  assumes "CHR ''/'' \<notin> set (crd_group d)" and "\<forall>v \<in> set (crd_versions d). CHR ''/'' \<notin> set (cv_name v)"
  shows "endpoints_of (apiEndpoint (makeCRClass d)) = endpoints_of (crd_client d)"
proof -
  have "class_endpoint (makeCRClass d) (group_slash (crd_group d) (cv_name v)) =
      \<lparr>ep_group = crd_group d, ep_version = cv_name v, ep_resource = crd_plural d, ep_namespaced = (crd_scope d = ''Namespaced'')\<rparr>"
    if v: "v \<in> set (crd_versions d)" for v
  proof (cases "crd_group d = []")
    case True
    have "\<not> str_includes (cv_name v) ''/''"
      using assms(2) v by (auto simp: str_includes_sublist sublist_def)
    with True show ?thesis by (simp add: class_endpoint_def group_slash_def makeCRClass_def)
  next
    case False
    have "js_split ''/'' (js_join ''/'' [crd_group d, cv_name v]) = [crd_group d, cv_name v]"
      using assms v by (intro js_split_join) auto
    moreover have "str_includes (crd_group d @ ''/'' @ cv_name v) ''/''"
      unfolding str_includes_sublist by (rule sublist_appendI)
    ultimately show ?thesis using False by (simp add: class_endpoint_def group_slash_def makeCRClass_def)
  qed
  then have "map (class_endpoint (makeCRClass d)) (versions_of (cls_apiVersion (makeCRClass d))) = endpoints_of (crd_client d)"
    by (simp add: makeCRClass_def versions_of_def crd_client_def endpoints_of_def)
  moreover have "endpoints_of (apiEndpoint c) = map (class_endpoint c) (versions_of (cls_apiVersion c))" for c
    by (auto simp: apiEndpoint_def endpoints_of_def split: list.split)
  ultimately show ?thesis by simp
qed

definition sample_crd :: crd_spec where
  "sample_crd = \<lparr>crd_group = ''example.com'', crd_version_field = None,
     crd_versions = [\<lparr>cv_name = ''v1alpha1'', cv_served = False, cv_storage = False\<rparr>, \<lparr>cv_name = ''v1'', cv_served = True, cv_storage = False\<rparr>],
     crd_plural = ''widgets'', crd_kind = ''Widget'', crd_scope = ''Namespaced''\<rparr>"

theorem custom_class_endpoints_roundtrip_witness:
  "map ep_version (endpoints_of (apiEndpoint (makeCRClass sample_crd))) = [''v1alpha1'', ''v1'']"
proof -
  have "CHR ''/'' \<notin> set (crd_group sample_crd)" "\<forall>v \<in> set (crd_versions sample_crd). CHR ''/'' \<notin> set (cv_name v)"
    by (simp_all add: sample_crd_def)
  from custom_class_endpoints_roundtrip [OF this] show ?thesis
    by (simp add: crd_client_def endpoints_of_def sample_crd_def)
qed

text \<open>The main version of a custom resource is the one its definition names, else its first
  storage version, else its first version, whether that one is served or not.\<close>

theorem main_version_spec:
  assumes "\<forall>v \<in> set (crd_versions d). cv_name v \<noteq> []" and "\<not> truthy (crd_version_field d)"
  shows "getMainAPIGroup d = (crd_group d,
    (case find cv_storage (crd_versions d) of Some v \<Rightarrow> Some (cv_name v)
     | None \<Rightarrow> (case crd_versions d of v # _ \<Rightarrow> Some (cv_name v) | [] \<Rightarrow> crd_version_field d)), crd_plural d)"
proof -
  have kept: "main_version (Some x) vs = (case find cv_storage vs of Some v \<Rightarrow> Some (cv_name v) | None \<Rightarrow> Some x)"
    if "x \<noteq> []" for x vs
    using that by (induction vs) auto
  have "main_version f vs = (case find cv_storage vs of Some v \<Rightarrow> Some (cv_name v)
     | None \<Rightarrow> (case vs of v # _ \<Rightarrow> Some (cv_name v) | [] \<Rightarrow> f))"
    if "\<forall>v \<in> set vs. cv_name v \<noteq> []" "\<not> truthy f" for f vs
    using that by (cases vs) (auto simp: kept split: option.split)
  with assms show ?thesis by (simp add: getMainAPIGroup_def)
qed

theorem main_version_spec_witness:
  "getMainAPIGroup sample_crd = (''example.com'', Some ''v1alpha1'', ''widgets'')"
  using main_version_spec [of sample_crd] by (simp add: sample_crd_def)

end
