(* ===== verification/Activities.thy ===== *)
theory Activities
  imports JsPrelude
begin

text \<open>
  Activities, the screens on top of the application: the reducer of
  \<^verbatim>\<open>frontend/src/components/activity/activitySlice.tsx\<close> and the handlers of \<^verbatim>\<open>Activity.tsx\<close> (the
  taskbar, the overview, shortcuts, changes of the route, clicks inside and outside). The content
  of an activity is a parameter; an activity that was only updated has none.
\<close>

section \<open>State\<close>

record 'c activity =
  ac_id :: string
  ac_content :: "'c option"
  ac_location :: "string option"
  ac_minimized :: "bool option"
  ac_temporary :: "bool option"

text \<open>A partial change; fields that it does not mention stay.\<close>

record change =
  ch_location :: "string option"
  ch_minimized :: "bool option"
  ch_temporary :: "bool option"

record 'c activity_state =
  history :: "string list"
  activities :: "(string, 'c activity) dict"

definition initialState :: "'c activity_state" where
  "initialState = \<lparr>history = [], activities = []\<rparr>"

definition bump :: "string \<Rightarrow> string list \<Rightarrow> string list" where
  "bump x xs = filter (\<lambda>y. y \<noteq> x) xs @ [x]"

section \<open>The reducer\<close>

text \<open>\<open>Object.values(...).forEach\<close> over the activities at the start.\<close>

definition close_temporary :: "'c activity_state \<Rightarrow> 'c activity_state" where
  [state_defs]: "close_temporary s = fold (\<lambda>a s. if ac_temporary a = Some True
      then s\<lparr>activities := dict_delete (ac_id a) (activities s), history := filter (\<lambda>it. it \<noteq> ac_id a) (history s)\<rparr>
      else s) (dict_values (activities s)) s"

definition launchActivity :: "int \<Rightarrow> 'c activity \<Rightarrow> 'c activity_state \<Rightarrow> 'c activity_state" where
  [state_defs]: "launchActivity innerWidth a s =
    (let s1 = (if ac_minimized a \<noteq> Some True then s\<lparr>history := bump (ac_id a) (history s)\<rparr> else s);
         s2 = close_temporary s1;
         s3 = (case dict_get (activities s2) (ac_id a) of
             None \<Rightarrow> s2\<lparr>activities := dict_set (ac_id a) a (activities s2)\<rparr>
           | Some old \<Rightarrow> s2\<lparr>activities := dict_set (ac_id a) (old\<lparr>ac_minimized := Some False\<rparr>) (activities s2)\<rparr>)
     in if innerWidth < 1280
        then (case dict_get (activities s3) (ac_id a) of
            None \<Rightarrow> s3
          | Some b \<Rightarrow> s3\<lparr>activities := dict_set (ac_id a) (b\<lparr>ac_location := Some ''full''\<rparr>) (activities s3)\<rparr>)
        else s3)"

definition close_activity :: "string \<Rightarrow> 'c activity_state \<Rightarrow> 'c activity_state" where
  [state_defs]: "close_activity i s =
    s\<lparr>history := filter (\<lambda>it. it \<noteq> i) (history s), activities := dict_delete i (activities s)\<rparr>"

definition apply_change :: "string \<Rightarrow> change \<Rightarrow> 'c activity option \<Rightarrow> 'c activity" where
  "apply_change i c old =
    (let a = (case old of Some a \<Rightarrow> a
              | None \<Rightarrow> \<lparr>ac_id = i, ac_content = None, ac_location = None, ac_minimized = None, ac_temporary = None\<rparr>)
     in a\<lparr>ac_id := i, ac_location := pick (ac_location a) (ch_location c),
          ac_minimized := pick (ac_minimized a) (ch_minimized c), ac_temporary := pick (ac_temporary a) (ch_temporary c)\<rparr>)"

definition update_activity :: "string \<Rightarrow> change \<Rightarrow> 'c activity_state \<Rightarrow> 'c activity_state" where
  [state_defs]: "update_activity i c s =
    s\<lparr>history := (if ch_minimized c = Some True then filter (\<lambda>it. it \<noteq> i) (history s) else bump i (history s)),
      activities := dict_set i (apply_change i c (dict_get (activities s) i)) (activities s)\<rparr>"

section \<open>The screen\<close>

record 'c screen =
  store :: "'c activity_state"
  overview :: bool
  route :: string

definition no_change :: change where
  "no_change = \<lparr>ch_location = None, ch_minimized = None, ch_temporary = None\<rparr>"

definition last_activity :: "'c activity_state \<Rightarrow> string option" where
  "last_activity s = (if history s = [] then None else Some (last (history s)))"

text \<open>\<open>4 + history.indexOf(id)\<close>\<close>

definition z_index :: "'c activity_state \<Rightarrow> string \<Rightarrow> int" where
  "z_index s i = 4 + (if i \<in> set (history s) then int (length (takeWhile (\<lambda>x. x \<noteq> i) (history s))) else - 1)"

definition update_in :: "string \<Rightarrow> change \<Rightarrow> 'c screen \<Rightarrow> 'c screen" where
  [state_defs]: "update_in i c w = w\<lparr>store := update_activity i c (store w)\<rparr>"

text \<open>The route changes: activities that cover the page are minimized.\<close>

definition route_changed :: "string \<Rightarrow> 'c screen \<Rightarrow> 'c screen" where
  [state_defs]: "route_changed path w = (if route w = path then w
     else (fold (\<lambda>a w. if ac_location a \<noteq> Some ''split-right'' \<and> ac_minimized a \<noteq> Some True
             then update_in (ac_id a) (no_change\<lparr>ch_minimized := Some True\<rparr>) w else w)
           (dict_values (activities (store w))) w)\<lparr>route := path\<rparr>)"

definition taskbar_click :: "string \<Rightarrow> 'c screen \<Rightarrow> 'c screen" where
  [state_defs]: "taskbar_click i w = (case dict_get (activities (store w)) i of
     None \<Rightarrow> w
   | Some a \<Rightarrow> update_in i (no_change\<lparr>ch_minimized :=
       Some (if Some i \<noteq> last_activity (store w) then False else ac_minimized a \<noteq> Some True)\<rparr>) w)"

definition hotkey :: "string \<Rightarrow> 'c screen \<Rightarrow> 'c screen" where
  [state_defs]: "hotkey location w = (case last_activity (store w) of
     None \<Rightarrow> w | Some i \<Rightarrow> if i = [] then w else update_in i (no_change\<lparr>ch_location := Some location\<rparr>) w)"

text \<open>A press of the pointer inside an activity makes it permanent; in the overview it also opens it.\<close>

definition pointer_down :: "string \<Rightarrow> 'c screen \<Rightarrow> 'c screen" where
  [state_defs]: "pointer_down i w = (case dict_get (activities (store w)) i of
     None \<Rightarrow> w
   | Some a \<Rightarrow>
       (let w1 = update_in i (no_change\<lparr>ch_temporary := Some False\<rparr>) w
        in if overview w then update_in i (no_change\<lparr>ch_minimized := Some False\<rparr>) (w1\<lparr>overview := False\<rparr>) else w1))"

text \<open>A press outside of a temporary activity closes it, unless a drawer with details is open.\<close>

definition click_outside :: "bool \<Rightarrow> string \<Rightarrow> 'c screen \<Rightarrow> 'c screen" where
  [state_defs]: "click_outside drawer i w = (case dict_get (activities (store w)) i of
     None \<Rightarrow> w
   | Some a \<Rightarrow> if ac_temporary a = Some True \<and> ac_minimized a \<noteq> Some True \<and> \<not> overview w \<and> \<not> drawer
       then w\<lparr>store := close_activity i (store w)\<rparr> else w)"

definition toggle_overview :: "'c screen \<Rightarrow> 'c screen" where
  [state_defs]: "toggle_overview w = w\<lparr>overview := \<not> overview w\<rparr>"

text \<open>The effect that leaves an overview of nothing.\<close>

definition overview_effect :: "'c screen \<Rightarrow> 'c screen" where
  [state_defs]: "overview_effect w = (if activities (store w) = [] \<and> overview w then w\<lparr>overview := False\<rparr> else w)"

datatype 'c screen_event = Launch int "'c activity" | Close string | Update string change | Reset
  | Route string | Taskbar string | Hotkey string | Pointer_Down string | Click_Outside bool string | Overview

text \<open>One event, with the effect of the render that follows it.\<close>

definition screen_step :: "'c screen \<Rightarrow> 'c screen_event \<Rightarrow> 'c screen" where
  [state_defs]: "screen_step w e = overview_effect (case e of
     Launch width a \<Rightarrow> w\<lparr>store := launchActivity width a (store w)\<rparr>
   | Close i \<Rightarrow> w\<lparr>store := close_activity i (store w)\<rparr>
   | Update i c \<Rightarrow> update_in i c w
   | Reset \<Rightarrow> w\<lparr>store := initialState, overview := False\<rparr>
   | Route path \<Rightarrow> route_changed path w
   | Taskbar i \<Rightarrow> taskbar_click i w
   | Hotkey l \<Rightarrow> hotkey l w
   | Pointer_Down i \<Rightarrow> pointer_down i w
   | Click_Outside d i \<Rightarrow> click_outside d i w
   | Overview \<Rightarrow> toggle_overview w)"

section \<open>The invariant\<close>

text \<open>Every activity stands under its own id, the history names activities without repetition, and at
  most one activity is temporary.\<close>

definition activities_ok :: "'c activity_state \<Rightarrow> bool" where
  [inv_defs]: "activities_ok s \<longleftrightarrow> dict_wf (activities s) \<and> distinct (history s) \<and>
     (\<forall>i \<in> set (history s). dict_has (activities s) i) \<and>
     (\<forall>i a. dict_get (activities s) i = Some a \<longrightarrow> ac_id a = i) \<and>
     (\<forall>i j a b. dict_get (activities s) i = Some a \<and> dict_get (activities s) j = Some b \<and>
        ac_temporary a = Some True \<and> ac_temporary b = Some True \<longrightarrow> i = j)"

lemma activities_okD:
  assumes "activities_ok s"
  shows "dict_wf (activities s)" and "distinct (history s)"
    and "i \<in> set (history s) \<Longrightarrow> dict_has (activities s) i"
    and "dict_get (activities s) i = Some a \<Longrightarrow> ac_id a = i"
    and "dict_get (activities s) i = Some a \<Longrightarrow> dict_get (activities s) j = Some b \<Longrightarrow>
        ac_temporary a = Some True \<Longrightarrow> ac_temporary b = Some True \<Longrightarrow> i = j"
  using assms unfolding activities_ok_def by blast+

lemma activities_okI:
  assumes "dict_wf (activities s)" and "distinct (history s)"
    and "\<And>i. i \<in> set (history s) \<Longrightarrow> dict_has (activities s) i"
    and "\<And>i a. dict_get (activities s) i = Some a \<Longrightarrow> ac_id a = i"
    and "\<And>i j a b. dict_get (activities s) i = Some a \<Longrightarrow> dict_get (activities s) j = Some b \<Longrightarrow>
        ac_temporary a = Some True \<Longrightarrow> ac_temporary b = Some True \<Longrightarrow> i = j"
  shows "activities_ok s"
  using assms unfolding activities_ok_def by blast

lemma bump_simps: "set (bump x xs) = insert x (set xs)" "distinct xs \<Longrightarrow> distinct (bump x xs)" "bump x xs \<noteq> []"
  "last (bump x xs) = x"
  by (auto simp: bump_def)

section \<open>Operations\<close>

definition drop_temporary :: "'c activity list \<Rightarrow> 'c activity_state \<Rightarrow> 'c activity_state" where
  "drop_temporary as s = fold (\<lambda>a s. if ac_temporary a = Some True
      then s\<lparr>activities := dict_delete (ac_id a) (activities s), history := filter (\<lambda>it. it \<noteq> ac_id a) (history s)\<rparr>
      else s) as s"

lemma drop_temporary_spec:
  "dict_get (activities (drop_temporary as s)) i =
     (if \<exists>a \<in> set as. ac_temporary a = Some True \<and> ac_id a = i then None else dict_get (activities s) i)"
  "history (drop_temporary as s) = filter (\<lambda>i. \<not> (\<exists>a \<in> set as. ac_temporary a = Some True \<and> ac_id a = i)) (history s)"
  "dict_wf (activities s) \<Longrightarrow> dict_wf (activities (drop_temporary as s))"
proof -
  show "dict_get (activities (drop_temporary as s)) i =
     (if \<exists>a \<in> set as. ac_temporary a = Some True \<and> ac_id a = i then None else dict_get (activities s) i)"
    by (induction as arbitrary: s) (auto simp: drop_temporary_def)
  show "history (drop_temporary as s) = filter (\<lambda>i. \<not> (\<exists>a \<in> set as. ac_temporary a = Some True \<and> ac_id a = i)) (history s)"
    by (induction as arbitrary: s) (auto simp: drop_temporary_def intro!: filter_cong)
  show "dict_wf (activities s) \<Longrightarrow> dict_wf (activities (drop_temporary as s))"
    by (induction as arbitrary: s) (auto simp: drop_temporary_def)
qed

definition is_temporary :: "'c activity_state \<Rightarrow> string \<Rightarrow> bool" where
  "is_temporary s i \<longleftrightarrow> (\<exists>a. dict_get (activities s) i = Some a \<and> ac_temporary a = Some True)"

text \<open>After the temporary activities are closed, exactly the others remain.\<close>

lemma close_temporary_spec:
  assumes "dict_wf (activities s)" and "\<And>i a. dict_get (activities s) i = Some a \<Longrightarrow> ac_id a = i"
  shows "dict_get (activities (close_temporary s)) i = (if is_temporary s i then None else dict_get (activities s) i)"
    and "history (close_temporary s) = filter (\<lambda>i. \<not> is_temporary s i) (history s)"
    and "dict_wf (activities (close_temporary s))"
proof -
  have t: "(\<exists>a \<in> set (dict_values (activities s)). ac_temporary a = Some True \<and> ac_id a = i) \<longleftrightarrow> is_temporary s i" for i
    using assms(2) by (force simp: is_temporary_def dict_in_values_iff [OF assms(1)])
  have c: "close_temporary s = drop_temporary (dict_values (activities s)) s"
    by (simp add: close_temporary_def drop_temporary_def)
  show "dict_get (activities (close_temporary s)) i = (if is_temporary s i then None else dict_get (activities s) i)"
    "history (close_temporary s) = filter (\<lambda>i. \<not> is_temporary s i) (history s)"
    "dict_wf (activities (close_temporary s))"
    unfolding c drop_temporary_spec(1,2) t by (rule refl, rule refl, rule drop_temporary_spec(3) [OF assms(1)])
qed

text \<open>What a launch does to the history and to each activity.\<close>

definition launched :: "int \<Rightarrow> 'c activity \<Rightarrow> 'c activity option \<Rightarrow> 'c activity" where
  "launched width a old =
    (let b = (case old of None \<Rightarrow> a | Some b \<Rightarrow> if ac_temporary b = Some True then a else b\<lparr>ac_minimized := Some False\<rparr>)
     in if width < 1280 then b\<lparr>ac_location := Some ''full''\<rparr> else b)"

lemma launch_spec:
  assumes ok: "activities_ok s"
  shows "dict_get (activities (launchActivity width a s)) i =
      (if i = ac_id a then Some (launched width a (dict_get (activities s) i))
       else if is_temporary s i then None else dict_get (activities s) i)"
    and "history (launchActivity width a s) = filter (\<lambda>i. \<not> is_temporary s i)
      (if ac_minimized a \<noteq> Some True then bump (ac_id a) (history s) else history s)"
    and "dict_wf (activities (launchActivity width a s))"
proof -
  let ?h = "if ac_minimized a \<noteq> Some True then bump (ac_id a) (history s) else history s"
  let ?s = "s\<lparr>history := ?h\<rparr>"
  have s1: "(if ac_minimized a \<noteq> Some True then s\<lparr>history := bump (ac_id a) (history s)\<rparr> else s) = ?s" by simp
  have t: "is_temporary ?s i = is_temporary s i" for i by (simp add: is_temporary_def)
  note c = close_temporary_spec [of ?s, simplified t]
  have wf: "dict_wf (activities ?s)" "\<And>i a. dict_get (activities ?s) i = Some a \<Longrightarrow> ac_id a = i"
    using activities_okD(1,4) [OF ok] by simp_all
  have old: "(case dict_get (activities (close_temporary ?s)) (ac_id a) of None \<Rightarrow> a | Some b \<Rightarrow> b\<lparr>ac_minimized := Some False\<rparr>) =
      (case dict_get (activities s) (ac_id a) of None \<Rightarrow> a | Some b \<Rightarrow> if ac_temporary b = Some True then a else b\<lparr>ac_minimized := Some False\<rparr>)"
    using c(1) [OF wf] by (auto simp: is_temporary_def split: option.split)
  let ?t = "close_temporary ?s"
  have l: "launchActivity width a s = ?t\<lparr>activities :=
      (let b = (case dict_get (activities ?t) (ac_id a) of None \<Rightarrow> a | Some b \<Rightarrow> b\<lparr>ac_minimized := Some False\<rparr>);
           d = dict_set (ac_id a) b (activities ?t)
       in if width < 1280 then dict_set (ac_id a) (b\<lparr>ac_location := Some ''full''\<rparr>) d else d)\<rparr>"
    unfolding launchActivity_def s1 Let_def by (cases "dict_get (activities ?t) (ac_id a)") simp_all
  show "dict_get (activities (launchActivity width a s)) i =
      (if i = ac_id a then Some (launched width a (dict_get (activities s) i))
       else if is_temporary s i then None else dict_get (activities s) i)"
    unfolding l old using c(1) [OF wf, of i] by (simp add: launched_def Let_def)
  show "history (launchActivity width a s) = filter (\<lambda>i. \<not> is_temporary s i) ?h"
    unfolding l using c(2) [OF wf] by simp
  show "dict_wf (activities (launchActivity width a s))"
    unfolding l using c(3) [OF wf] by (simp add: Let_def)
qed

lemma launch_ok:
  assumes ok: "activities_ok s"
  shows "activities_ok (launchActivity width a s)"
proof (rule activities_okI)
  let ?t = "launchActivity width a s"
  have id: "ac_id (launched width a (dict_get (activities s) (ac_id a))) = ac_id a"
  proof (cases "dict_get (activities s) (ac_id a)")
    case (Some b)
    from activities_okD(4) [OF ok Some] Some show ?thesis by (simp add: launched_def Let_def)
  qed (simp add: launched_def)
  have others: "\<not> ac_temporary b = Some True" if "dict_get (activities ?t) i = Some b" "i \<noteq> ac_id a" for i b
    using that unfolding launch_spec(1) [OF ok] by (auto simp: is_temporary_def split: if_splits)
  show "dict_wf (activities ?t)" by (rule launch_spec(3) [OF ok])
  show "distinct (history ?t)"
    using activities_okD(2) [OF ok] by (simp add: launch_spec(2) [OF ok] bump_simps distinct_filter)
  show "dict_has (activities ?t) i" if "i \<in> set (history ?t)" for i
  proof -
    from that have "\<not> is_temporary s i" "i = ac_id a \<or> i \<in> set (history s)"
      unfolding launch_spec(2) [OF ok] by (auto simp: bump_simps split: if_splits)
    then show ?thesis
      using activities_okD(3) [OF ok, of i] by (auto simp: launch_spec(1) [OF ok] dict_has_def)
  qed
  show "ac_id b = i" if "dict_get (activities ?t) i = Some b" for i b
    using that id activities_okD(4) [OF ok, of i] unfolding launch_spec(1) [OF ok] by (auto split: if_splits)
  show "i = j" if "dict_get (activities ?t) i = Some b" "dict_get (activities ?t) j = Some c"
      "ac_temporary b = Some True" "ac_temporary c = Some True" for i j b c
  proof -
    from others [OF that(1)] that(3) have "i = ac_id a" by blast
    moreover from others [OF that(2)] that(4) have "j = ac_id a" by blast
    ultimately show ?thesis by simp
  qed
qed

lemma close_ok:
  assumes ok: "activities_ok s"
  shows "activities_ok (close_activity i s)"
  by (rule activities_okI)
    (use activities_okD [OF ok] in \<open>auto simp: close_activity_def distinct_filter split: if_splits\<close>)

lemma update_ok:
  assumes ok: "activities_ok s" and c: "ch_temporary c \<noteq> Some True"
  shows "activities_ok (update_activity i c s)"
proof (rule activities_okI)
  let ?t = "update_activity i c s"
  have get: "dict_get (activities ?t) j = (if j = i then Some (apply_change i c (dict_get (activities s) i)) else dict_get (activities s) j)" for j
    by (simp add: update_activity_def)
  have temp: "ac_temporary (apply_change i c (dict_get (activities s) i)) = Some True \<Longrightarrow>
      \<exists>b. dict_get (activities s) i = Some b \<and> ac_temporary b = Some True"
    using c by (auto simp: apply_change_def Let_def pick_def split: option.splits)
  show "dict_wf (activities ?t)" using activities_okD(1) [OF ok] by (simp add: update_activity_def)
  show "distinct (history ?t)"
    using activities_okD(2) [OF ok] by (simp add: update_activity_def bump_simps distinct_filter)
  show "dict_has (activities ?t) j" if "j \<in> set (history ?t)" for j
    using that activities_okD(3) [OF ok, of j] by (auto simp: update_activity_def bump_simps split: if_splits)
  show "ac_id b = j" if "dict_get (activities ?t) j = Some b" for j b
    using that activities_okD(4) [OF ok, of j] by (auto simp: get apply_change_def Let_def split: if_splits)
  show "j = k" if "dict_get (activities ?t) j = Some a" "dict_get (activities ?t) k = Some b"
      "ac_temporary a = Some True" "ac_temporary b = Some True" for j k a b
  proof -
    have "\<exists>x. dict_get (activities s) l = Some x \<and> ac_temporary x = Some True"
      if "dict_get (activities ?t) l = Some y" "ac_temporary y = Some True" for l y
      using that temp by (auto simp: get split: if_splits)
    with that activities_okD(5) [OF ok, of j _ k] show ?thesis by blast
  qed
qed

lemma initial_ok: "activities_ok initialState"
  by (simp add: initialState_def activities_ok_def)

lemma at_most_one:
  assumes "distinct (map f xs)" and "\<And>x y. x \<in> set xs \<Longrightarrow> y \<in> set xs \<Longrightarrow> f x = f y"
  shows "length xs \<le> 1"
proof (cases xs)
  case (Cons x ys)
  with assms(2) [of x] have "set (map f xs) = {f x}" by (fastforce dest: sym)
  with distinct_card [OF assms(1)] show ?thesis by simp
qed simp

definition keeps_permanence :: "'c screen_event \<Rightarrow> bool" where
  "keeps_permanence e = (case e of Update _ c \<Rightarrow> ch_temporary c \<noteq> Some True | _ \<Rightarrow> True)"

lemma fold_update_ok:
  assumes "\<And>a w. activities_ok (store w) \<Longrightarrow> activities_ok (store (f a w))" and "activities_ok (store w)"
  shows "activities_ok (store (fold f as w))"
  using assms(2) by (induction as arbitrary: w) (simp_all add: assms(1))

lemma update_in_ok: "activities_ok (store w) \<Longrightarrow> ch_temporary c \<noteq> Some True \<Longrightarrow> activities_ok (store (update_in i c w))"
  by (simp add: update_in_def update_ok)

lemma screen_step_ok:
  assumes ok: "activities_ok (store w)" and e: "keeps_permanence e"
  shows "activities_ok (store (screen_step w e))"
proof -
  have eff: "activities_ok (store (overview_effect v)) = activities_ok (store v)" for v :: "'c screen"
    by (simp add: overview_effect_def)
  have none: "ch_temporary no_change = None" by (simp add: no_change_def)
  note up = update_in_ok [OF ok]
  show ?thesis
  proof (cases e)
    case (Launch width a)
    then show ?thesis using launch_ok [OF ok] by (simp add: screen_step_def eff)
  next
    case (Close i)
    then show ?thesis using close_ok [OF ok] by (simp add: screen_step_def eff)
  next
    case (Update i c)
    then show ?thesis using up e by (simp add: screen_step_def eff keeps_permanence_def)
  next
    case Reset
    then show ?thesis by (simp add: screen_step_def eff initial_ok)
  next
    case (Route path)
    have "activities_ok (store (fold (\<lambda>a w. if ac_location a \<noteq> Some ''split-right'' \<and> ac_minimized a \<noteq> Some True
             then update_in (ac_id a) (no_change\<lparr>ch_minimized := Some True\<rparr>) w else w) (dict_values (activities (store w))) w))"
      by (rule fold_update_ok [OF _ ok]) (simp add: update_in_ok none)
    with Route ok show ?thesis by (simp add: screen_step_def eff route_changed_def)
  next
    case (Taskbar i)
    then show ?thesis using ok up by (simp add: screen_step_def eff taskbar_click_def none split: option.split)
  next
    case (Hotkey l)
    then show ?thesis using ok up by (simp add: screen_step_def eff hotkey_def none split: option.split)
  next
    case (Pointer_Down i)
    have "activities_ok (store (update_in i (no_change\<lparr>ch_minimized := Some False\<rparr>) ((update_in i (no_change\<lparr>ch_temporary := Some False\<rparr>) w)\<lparr>overview := False\<rparr>)))"
      by (rule update_in_ok) (simp_all add: up none)
    with Pointer_Down ok up show ?thesis by (simp add: screen_step_def eff pointer_down_def Let_def none split: option.split)
  next
    case (Click_Outside d i)
    then show ?thesis using ok close_ok [OF ok] by (simp add: screen_step_def eff click_outside_def split: option.split)
  next
    case Overview
    then show ?thesis using ok by (simp add: screen_step_def eff toggle_overview_def)
  qed
qed

interpretation activity_screen: reducer "\<lambda>w e. if keeps_permanence e then screen_step w e else w" "\<lambda>w. activities_ok (store w)"
  by unfold_locales (simp add: screen_step_ok)

definition empty_screen :: "string \<Rightarrow> 'c screen" where
  "empty_screen path = \<lparr>store = initialState, overview = False, route = path\<rparr>"

lemma permanence_run:
  "list_all keeps_permanence es \<Longrightarrow> foldl screen_step w es = foldl (\<lambda>w e. if keeps_permanence e then screen_step w e else w) w es"
  by (induction es arbitrary: w) simp_all

lemma screen_run_ok:
  fixes es :: "'c screen_event list"
  assumes "list_all keeps_permanence es"
  shows "activities_ok (store (foldl screen_step (empty_screen path) es))"
proof -
  have "activities_ok (store (empty_screen path :: 'c screen))"
    by (simp add: empty_screen_def initial_ok)
  from activity_screen.run_inv [OF this] show ?thesis by (simp add: permanence_run [OF assms])
qed

text \<open>C32: In every state of the screen that launches, clicks, shortcuts and changes of the route reach
  each activity stands under its own id, the history names open activities without repetition, and
  at most one activity is temporary.\<close>

theorem activities_stay_consistent:
  fixes es :: "'c screen_event list" and path :: string
  assumes "list_all keeps_permanence es"
  defines "s \<equiv> store (foldl screen_step (empty_screen path) es)"
  shows "distinct (history s) \<and> set (history s) \<subseteq> set (dict_keys (activities s)) \<and>
    (\<forall>i a. dict_get (activities s) i = Some a \<longrightarrow> ac_id a = i) \<and>
    length (filter (\<lambda>a. ac_temporary a = Some True) (dict_values (activities s))) \<le> 1"
proof -
  have ok: "activities_ok s" unfolding s_def by (rule screen_run_ok [OF assms(1)])
  let ?ts = "filter (\<lambda>x. ac_temporary (snd x) = Some True) (activities s)"
  have "distinct (map fst ?ts)" using activities_okD(1) [OF ok] by (simp add: dict_wf_def distinct_map_filter)
  moreover have "fst x = fst y" if "x \<in> set ?ts" "y \<in> set ?ts" for x y
    using that activities_okD(5) [OF ok, of "fst x" "snd x" "fst y" "snd y"] activities_okD(1) [OF ok]
    by (simp add: dict_get_iff)
  ultimately have "length ?ts \<le> 1" by (rule at_most_one)
  moreover have "length (filter (\<lambda>a. ac_temporary a = Some True) (dict_values (activities s))) = length ?ts"
    by (simp add: dict_values_def filter_map comp_def)
  ultimately show ?thesis
    using activities_okD(2,3,4) [OF ok] by (auto simp: dict_has_keys)
qed

definition details :: "string \<Rightarrow> bool \<Rightarrow> string activity" where
  "details i t = \<lparr>ac_id = i, ac_content = Some ''details'', ac_location = Some ''split-right'', ac_minimized = None, ac_temporary = Some t\<rparr>"

theorem activities_stay_consistent_witness:
  "let s = store (foldl screen_step (empty_screen ''/'') [Launch 1400 (details ''a'' True), Launch 1400 (details ''b'' True),
       Launch 1400 (details ''c'' False), Taskbar ''c'', Pointer_Down ''b''])
   in history s = [] \<and> dict_keys (activities s) = [''c''] \<and> length (filter (\<lambda>a. ac_temporary a = Some True) (dict_values (activities s))) \<le> 1"
proof -
  let ?es = "[Launch 1400 (details ''a'' True), Launch 1400 (details ''b'' True), Launch 1400 (details ''c'' False), Taskbar ''c'', Pointer_Down ''b'']"
  let ?s = "store (foldl screen_step (empty_screen ''/'') ?es)"
  have "list_all keeps_permanence ?es" by (simp add: keeps_permanence_def)
  moreover have "history ?s = [] \<and> dict_keys (activities ?s) = [''c'']" by code_simp
  ultimately show ?thesis using activities_stay_consistent [of ?es "''/''"] unfolding Let_def by blast
qed

section \<open>Bringing to the front\<close>

lemma z_index_last:
  assumes "distinct xs" and "i \<in> set xs"
  shows "length (takeWhile (\<lambda>x. x \<noteq> last xs) xs) = length xs - 1" and "length (takeWhile (\<lambda>x. x \<noteq> i) xs) \<le> length xs - 1"
proof -
  from assms(2) have ne: "xs \<noteq> []" by auto
  then have x: "xs = butlast xs @ [last xs]" by simp
  from assms(1) x have "last xs \<notin> set (butlast xs)" by (metis distinct_butlast not_distinct_conv_prefix append_Nil2 distinct_append disjoint_insert(1) list.set(2))
  then have "takeWhile (\<lambda>x. x \<noteq> last xs) (butlast xs @ [last xs]) = butlast xs"
    by (subst takeWhile_append2) auto
  with x show "length (takeWhile (\<lambda>x. x \<noteq> last xs) xs) = length xs - 1" by (metis length_butlast)
  have "takeWhile (\<lambda>x. x \<noteq> i) xs \<noteq> xs" using assms(2) by (auto simp: takeWhile_eq_all_conv)
  then have "length (takeWhile (\<lambda>x. x \<noteq> i) xs) < length xs"
    by (metis length_takeWhile_le le_neq_implies_less takeWhile_eq_take take_all order_refl)
  then show "length (takeWhile (\<lambda>x. x \<noteq> i) xs) \<le> length xs - 1" by simp
qed

text \<open>A launched activity comes to the front of all others, unless a temporary activity with its
  id is open: then it is taken out of the history and drawn behind every activity in it.\<close>

theorem launch_brings_to_front:
  fixes width :: int
  assumes "activities_ok s" and "ac_minimized a \<noteq> Some True"
  defines "t \<equiv> launchActivity width a s"
  shows "(\<not> is_temporary s (ac_id a) \<longrightarrow> last_activity t = Some (ac_id a) \<and> (\<forall>i \<in> set (history t). z_index t i \<le> z_index t (ac_id a))) \<and>
    (is_temporary s (ac_id a) \<longrightarrow> dict_has (activities t) (ac_id a) \<and> (\<forall>i \<in> set (history t). z_index t (ac_id a) < z_index t i))"
proof -
  have h: "history t = filter (\<lambda>i. \<not> is_temporary s i) (bump (ac_id a) (history s))"
    unfolding t_def launch_spec(2) [OF assms(1)] using assms(2) by simp
  have ok: "activities_ok t" unfolding t_def by (rule launch_ok [OF assms(1)])
  have "last_activity t = Some (ac_id a) \<and> (\<forall>i \<in> set (history t). z_index t i \<le> z_index t (ac_id a))" if "\<not> is_temporary s (ac_id a)"
  proof -
    from that have l: "history t = filter (\<lambda>i. \<not> is_temporary s i) (filter (\<lambda>y. y \<noteq> ac_id a) (history s)) @ [ac_id a]"
      by (simp add: h bump_def)
    then have last: "last (history t) = ac_id a" "ac_id a \<in> set (history t)" "history t \<noteq> []" by simp_all
    have "z_index t i \<le> z_index t (ac_id a)" if "i \<in> set (history t)" for i
      using z_index_last [OF activities_okD(2) [OF ok] that] last that by (simp add: z_index_def)
    with last show ?thesis by (simp add: last_activity_def)
  qed
  moreover have "dict_has (activities t) (ac_id a) \<and> (\<forall>i \<in> set (history t). z_index t (ac_id a) < z_index t i)" if "is_temporary s (ac_id a)"
  proof -
    have "ac_id a \<notin> set (history t)" using that by (simp add: h)
    then show ?thesis
      unfolding t_def launch_spec(1) [OF assms(1)] dict_has_def by (auto simp: z_index_def)
  qed
  ultimately show ?thesis by blast
qed

theorem launch_brings_to_front_witness:
  "z_index (launchActivity 1400 (details ''a'' True) (launchActivity 1400 (details ''a'' True) (initialState\<lparr>activities := [(''b'', details ''b'' False)], history := [''b'']\<rparr>))) ''a''
   < z_index (launchActivity 1400 (details ''a'' True) (launchActivity 1400 (details ''a'' True) (initialState\<lparr>activities := [(''b'', details ''b'' False)], history := [''b'']\<rparr>))) ''b''"
proof -
  let ?s = "launchActivity 1400 (details ''a'' True) (initialState\<lparr>activities := [(''b'', details ''b'' False)], history := [''b'']\<rparr>)"
  have "activities_ok (initialState\<lparr>activities := [(''b'', details ''b'' False)], history := [''b'']\<rparr>)"
    by (simp add: activities_ok_def initialState_def dict_wf_def dict_has_def dict_get_def details_def)
  then have ok: "activities_ok ?s" by (rule launch_ok)
  have "ac_minimized (details ''a'' True) \<noteq> Some True" by (simp add: details_def)
  note front = launch_brings_to_front [OF ok this, of 1400]
  have "dict_get (activities ?s) ''a'' = Some (details ''a'' True)" by code_simp
  then have "is_temporary ?s (ac_id (details ''a'' True))" by (simp add: is_temporary_def details_def)
  moreover have "''b'' \<in> set (history (launchActivity 1400 (details ''a'' True) ?s))" by code_simp
  moreover have "ac_id (details ''a'' True) = ''a''" by (simp add: details_def)
  ultimately show ?thesis using front by (metis (no_types))
qed

end
