(* ===== verification/Terminals.thy ===== *)
theory Terminals
  imports PodStatus "HOL-Library.Word"
begin

text \<open>
  Terminals: the hook \<^verbatim>\<open>frontend/src/lib/k8s/useTerminalStream.ts\<close> that ties a terminal on the screen
  to a stream, the shell of a node (\<^verbatim>\<open>components/node/NodeShellTerminal.tsx\<close>), the debug container of
  a pod (\<^verbatim>\<open>components/pod/PodDebugTerminal.tsx\<close>) and the terminal of a pod with its list of shells
  (\<^verbatim>\<open>components/common/Terminal.tsx\<close>). The widget (xterm) is the record of what is written to it.
  Streams are those of StreamResults, seen from outside: a socket that may open, and \<open>cancel\<close>.
  The text codec, the parser of JSON and the answers of clusters are parameters.
\<close>

section \<open>Messages\<close>

text \<open>The channels of the protocol.\<close>

abbreviation (input) StdIn :: int where "StdIn \<equiv> 0"
abbreviation (input) StdOut :: int where "StdOut \<equiv> 1"
abbreviation (input) ServerError :: int where "ServerError \<equiv> 3"
abbreviation (input) Resize :: int where "Resize \<equiv> 4"

record codec =
  decode :: "8 word list \<Rightarrow> string"
  encode :: "string \<Rightarrow> 8 word list"
  json_of :: "string \<Rightarrow> json option"

text \<open>\<open>new Int8Array(bytes.slice(0, 1))[0]\<close>, which is undefined for an empty message\<close>

definition channel_of :: "8 word list \<Rightarrow> int option" where
  "channel_of xs = (case xs of [] \<Rightarrow> None | b # _ \<Rightarrow> Some (sint b))"

definition frame :: "codec \<Rightarrow> int \<Rightarrow> string \<Rightarrow> 8 word list" where
  "frame c ch data = word_of_int ch # encode c data"

text \<open>\<open>channel < Channel.StdOut || channel > Channel.ServerError\<close>; undefined compares to nothing.\<close>

definition foreign_channel :: "int option \<Rightarrow> bool" where
  "foreign_channel ch = (case ch of None \<Rightarrow> False | Some n \<Rightarrow> n < StdOut \<or> n > ServerError)"

text \<open>\<open>_.isEmpty\<close>\<close>

definition lodash_isEmpty :: "json option \<Rightarrow> bool" where
  "lodash_isEmpty v = (case v of Some (JStr s) \<Rightarrow> s = [] | Some (JArr xs) \<Rightarrow> xs = []
     | Some (JObj fs) \<Rightarrow> fs = [] | _ \<Rightarrow> True)"

text \<open>A text that is no JSON, and \<open>null\<close>, are caught.\<close>

definition isSuccessfulExitError :: "codec \<Rightarrow> int option \<Rightarrow> string \<Rightarrow> bool" where
  "isSuccessfulExitError c ch text = (ch = Some ServerError \<and> (case json_of c text of
     None \<Rightarrow> False
   | Some e \<Rightarrow> (case (jprop e ''metadata'', jprop e ''status'') of
        (Inr m, Inr st) \<Rightarrow> lodash_isEmpty m \<and> st = Some (JStr ''Success'') | _ \<Rightarrow> False)))"

definition isShellNotFoundError :: "codec \<Rightarrow> int option \<Rightarrow> string \<Rightarrow> bool" where
  "isShellNotFoundError c ch text =
    ((ch = Some ServerError \<and> (case json_of c text of
        None \<Rightarrow> False
      | Some e \<Rightarrow> jprop e ''code'' = Inr (Some (JNum 500)) \<and> jprop e ''status'' = Inr (Some (JStr ''Failure'')) \<and>
          jprop e ''reason'' = Inr (Some (JStr ''InternalError'')))) \<or>
     (ch = Some StdOut \<and> str_includes ''The system cannot find the file specified'' text))"

section \<open>The hook\<close>

datatype shown = Clear | Write string

record xterm =
  connected :: bool
  reconnectOnEnter :: bool
  disposed :: bool
  written :: "shown list"
  cols :: int
  rows :: int

record term_stream =
  has_socket :: bool
  socket_open :: bool
  cancelled :: bool
  sent :: "8 word list list"

text \<open>The effect is active from its run to its cleanup; connections are waited for without order.\<close>

record hook =
  xterms :: "xterm list"
  xtermRef :: "nat option"
  streams :: "term_stream list"
  streamRef :: "nat option"
  connecting :: nat
  effect_active :: bool
  resize_handlers :: nat

definition new_xterm :: xterm where
  "new_xterm = \<lparr>connected = False, reconnectOnEnter = False, disposed = False, written = [], cols = 80, rows = 30\<rparr>"

definition new_stream :: term_stream where
  "new_stream = \<lparr>has_socket = False, socket_open = False, cancelled = False, sent = []\<rparr>"

definition hook_start :: hook where
  "hook_start = \<lparr>xterms = [], xtermRef = None, streams = [], streamRef = None, connecting = 0,
     effect_active = False, resize_handlers = 0\<rparr>"

definition change_nth :: "nat \<Rightarrow> ('a \<Rightarrow> 'a) \<Rightarrow> 'a list \<Rightarrow> 'a list" where
  "change_nth i f xs = (if i < length xs then xs[i := f (xs ! i)] else xs)"

definition on_xterm :: "nat \<Rightarrow> (xterm \<Rightarrow> xterm) \<Rightarrow> 'a hook_scheme \<Rightarrow> 'a hook_scheme" where
  "on_xterm i f h = h\<lparr>xterms := change_nth i f (xterms h)\<rparr>"

definition print :: "shown list \<Rightarrow> xterm \<Rightarrow> xterm" where
  "print os x = x\<lparr>written := written x @ os\<rparr>"

text \<open>\<open>stream.cancel\<close>\<close>

definition cancel_stream :: "term_stream \<Rightarrow> term_stream" where
  "cancel_stream s = s\<lparr>cancelled := True, socket_open := (if has_socket s then False else socket_open s)\<rparr>"

definition cancel_current :: "'a hook_scheme \<Rightarrow> 'a hook_scheme" where
  "cancel_current h = (case streamRef h of None \<Rightarrow> h | Some i \<Rightarrow> h\<lparr>streams := change_nth i cancel_stream (streams h)\<rparr>)"

definition dispose_current :: "'a hook_scheme \<Rightarrow> 'a hook_scheme" where
  "dispose_current h = (case xtermRef h of None \<Rightarrow> h | Some i \<Rightarrow> on_xterm i (\<lambda>x. x\<lparr>disposed := True\<rparr>) h)"

definition current_open :: "'a hook_scheme \<Rightarrow> bool" where
  "current_open h = (case streamRef h of None \<Rightarrow> False | Some i \<Rightarrow> i < length (streams h) \<and> socket_open (streams h ! i))"

definition hook_send :: "codec \<Rightarrow> int \<Rightarrow> string \<Rightarrow> 'a hook_scheme \<Rightarrow> 'a hook_scheme" where
  "hook_send c ch data h = (case streamRef h of None \<Rightarrow> h
     | Some i \<Rightarrow> if current_open h then h\<lparr>streams := change_nth i (\<lambda>s. s\<lparr>sent := sent s @ [frame c ch data]\<rparr>) (streams h)\<rparr> else h)"

definition size_text :: "xterm \<Rightarrow> string" where
  "size_text x = ''{\"Width\":'' @ int_str (cols x) @ '',\"Height\":'' @ int_str (rows x) @ ''}''"

text \<open>What a component gives the hook: its handlers may change the component's own state.\<close>

record 'w handlers =
  isSuccessfulExit :: "int option \<Rightarrow> string \<Rightarrow> 'w \<Rightarrow> bool \<times> 'w"
  isShellNotFound :: "int option \<Rightarrow> string \<Rightarrow> bool"
  onConnectionFailed :: "nat \<Rightarrow> 'w \<Rightarrow> 'w"
  onClose :: "'w \<Rightarrow> 'w"

definition hook_onData :: "codec \<Rightarrow> 'a hook_scheme handlers \<Rightarrow> nat \<Rightarrow> 8 word list \<Rightarrow> 'a hook_scheme \<Rightarrow> 'a hook_scheme" where
  "hook_onData c hs i bytes h =
    (let ch = channel_of bytes; text = decode c (tl bytes)
     in if foreign_channel ch then h
        else let h1 = (if connected (xterms h ! i) then h
               else (let h2 = hook_send c Resize (size_text (xterms h ! i)) (on_xterm i (print [Clear]) h)
                     in if ch \<noteq> Some ServerError then on_xterm i (\<lambda>x. x\<lparr>connected := True\<rparr>) h2 else h2));
             (over, h3) = isSuccessfulExit hs ch text h1
        in if over then cancel_current (onClose hs h3)
           else if isShellNotFound hs ch text then onConnectionFailed hs i h3
           else on_xterm i (print [Write text]) h3)"

text \<open>Messages of every stream go to the terminal that is current when they arrive. A stream that was
  cancelled with a socket passes nothing on.\<close>

definition hook_message :: "codec \<Rightarrow> 'a hook_scheme handlers \<Rightarrow> nat \<Rightarrow> 8 word list \<Rightarrow> 'a hook_scheme \<Rightarrow> 'a hook_scheme" where
  "hook_message c hs k bytes h = (case xtermRef h of None \<Rightarrow> h
     | Some i \<Rightarrow> if k < length (streams h) \<and> socket_open (streams h ! k) then hook_onData c hs i bytes h else h)"

definition hook_effect :: "'a hook_scheme \<Rightarrow> 'a hook_scheme" where
  "hook_effect h = (if effect_active h then h
     else (let h1 = (if xtermRef h = None then h else cancel_current (dispose_current h))
           in h1\<lparr>xterms := xterms h1 @ [new_xterm], xtermRef := Some (length (xterms h1)), connecting := connecting h1 + 1,
                effect_active := True, resize_handlers := resize_handlers h1 + 1\<rparr>))"

definition hook_cleanup :: "'a hook_scheme \<Rightarrow> 'a hook_scheme" where
  "hook_cleanup h = (if effect_active h
     then (let h1 = cancel_current (dispose_current h)
           in h1\<lparr>effect_active := False, resize_handlers := resize_handlers h1 - 1\<rparr>) else h)"

text \<open>\<open>connectStream\<close> ends: with a stream, without one, or with an exception nobody handles.\<close>

datatype connection_end = Got_Stream | No_Stream | Rejected

definition writeln :: "string \<Rightarrow> 'a hook_scheme \<Rightarrow> 'a hook_scheme" where
  "writeln text h = (case xtermRef h of None \<Rightarrow> h | Some i \<Rightarrow> on_xterm i (print [Write (text @ [CHR 13, CHR 10])]) h)"

definition hook_connected :: "connection_end \<Rightarrow> string option \<Rightarrow> 'a hook_scheme \<Rightarrow> 'a hook_scheme" where
  "hook_connected e initialMessage h = (if connecting h = 0 then h
     else (let h1 = h\<lparr>connecting := connecting h - 1\<rparr>;
               h2 = (if truthy initialMessage then writeln (the initialMessage) h1 else h1)
           in case e of
             Rejected \<Rightarrow> h1
           | No_Stream \<Rightarrow> h2\<lparr>streamRef := None\<rparr>
           | Got_Stream \<Rightarrow> h2\<lparr>streams := streams h2 @ [new_stream], streamRef := Some (length (streams h2))\<rparr>))"

text \<open>The socket of a stream opens; one that was closed before does not open any more.\<close>

definition socket_opens :: "nat \<Rightarrow> 'a hook_scheme \<Rightarrow> 'a hook_scheme" where
  "socket_opens k h = (if k < length (streams h) \<and> \<not> (cancelled (streams h ! k) \<and> has_socket (streams h ! k))
     then h\<lparr>streams := change_nth k (\<lambda>s. s\<lparr>has_socket := True, socket_open := True\<rparr>) (streams h)\<rparr> else h)"

datatype hook_event = Effect | Cleanup | Connected connection_end "string option" | Opened nat
  | Message nat "8 word list" | Typed string

definition hook_step :: "codec \<Rightarrow> 'a hook_scheme handlers \<Rightarrow> 'a hook_scheme \<Rightarrow> hook_event \<Rightarrow> 'a hook_scheme" where
  "hook_step c hs h e = (case e of
     Effect \<Rightarrow> hook_effect h
   | Cleanup \<Rightarrow> hook_cleanup h
   | Connected r m \<Rightarrow> hook_connected r m h
   | Opened k \<Rightarrow> socket_opens k h
   | Message k bytes \<Rightarrow> hook_message c hs k bytes h
   | Typed data \<Rightarrow> hook_send c StdIn data h)"

section \<open>The shell of a node and the debug container of a pod\<close>

text \<open>What both components keep beside the hook; \<open>exit_timers\<close> counts the pending delayed
  cancellations, \<open>closed\<close> the calls of the caller's \<open>onClose\<close>.\<close>

record shell_world = hook +
  exitSent :: bool
  pendingExit :: bool
  exit_timers :: nat
  closed :: nat
  containerCreated :: bool

definition exit_command :: string where
  "exit_command = ''exit'' @ [CHR 13]"

definition sendExitIfPossible :: "codec \<Rightarrow> shell_world \<Rightarrow> bool \<times> shell_world" where
  "sendExitIfPossible c w =
    (if exitSent w then (True, w)
     else if \<not> current_open w then (False, w)
     else (True, (hook_send c StdIn exit_command w)\<lparr>exitSent := True, pendingExit := False, exit_timers := exit_timers w + 1\<rparr>))"

definition requestShellExit :: "codec \<Rightarrow> shell_world \<Rightarrow> shell_world" where
  "requestShellExit c w =
    (if exitSent w then w
     else let (done, w1) = sendExitIfPossible c w in if done then w1 else w1\<lparr>pendingExit := True\<rparr>)"

definition wrappedOnClose :: "codec \<Rightarrow> shell_world \<Rightarrow> shell_world" where
  "wrappedOnClose c w = (let w1 = requestShellExit c w in w1\<lparr>closed := closed w1 + 1\<rparr>)"

definition shell_connect_failed :: "nat \<Rightarrow> shell_world \<Rightarrow> shell_world" where
  "shell_connect_failed i w = on_xterm i (print [Clear, Write (''Failed to connect'' @ [CHR 0x85, CHR 13, CHR 10])]) w"

definition shell_handlers :: "codec \<Rightarrow> shell_world handlers" where
  "shell_handlers c =
    \<lparr>isSuccessfulExit = (\<lambda>ch text w.
       if isSuccessfulExitError c ch text
       then (True, if pendingExit w \<and> \<not> exitSent w then snd (sendExitIfPossible c w) else w) else (False, w)),
     isShellNotFound = isShellNotFoundError c,
     onConnectionFailed = shell_connect_failed,
     onClose = wrappedOnClose c\<rparr>"

definition exit_timer_fires :: "shell_world \<Rightarrow> shell_world" where
  "exit_timer_fires w = (if exit_timers w = 0 then w else (cancel_current w)\<lparr>exit_timers := exit_timers w - 1\<rparr>)"

datatype shell_event = Hook hook_event | Window_Unload | Exit_Timer | Container_Ready

definition shell_step :: "codec \<Rightarrow> shell_world \<Rightarrow> shell_event \<Rightarrow> shell_world" where
  "shell_step c w e = (case e of
     Hook e \<Rightarrow> hook_step c (shell_handlers c) w e
   | Window_Unload \<Rightarrow> requestShellExit c w
   | Exit_Timer \<Rightarrow> exit_timer_fires w
   | Container_Ready \<Rightarrow> w\<lparr>containerCreated := True\<rparr>)"

text \<open>The debug container's terminal unmounts: the cleanups of its effects run in the order of the
  effects, first the hook's, then that of the component.\<close>

definition debug_cleanup :: "codec \<Rightarrow> shell_world \<Rightarrow> shell_world" where
  "debug_cleanup c w = (if \<not> exitSent w \<and> containerCreated w then snd (sendExitIfPossible c w) else w)"

definition debug_unmount :: "codec \<Rightarrow> shell_world \<Rightarrow> shell_world" where
  "debug_unmount c w = debug_cleanup c (hook_cleanup w)"

definition shell_start :: shell_world where
  "shell_start = hook.extend hook_start (shell_world.fields False False 0 0 False)"

subsection \<open>Opening the shell of a node\<close>

record shell_config =
  linuxImage :: "string option"
  shell_namespace :: "string option"

definition DEFAULT_NODE_SHELL_LINUX_IMAGE :: string where
  "DEFAULT_NODE_SHELL_LINUX_IMAGE = ''docker.io/library/busybox:latest''"

definition DEFAULT_NODE_SHELL_NAMESPACE :: string where
  "DEFAULT_NODE_SHELL_NAMESPACE = ''default''"

definition shellPod :: "string \<Rightarrow> string \<Rightarrow> string \<Rightarrow> string \<Rightarrow> string list \<Rightarrow> json" where
  "shellPod name ns nodeName img cmd = JObj [
     (''kind'', JStr ''Pod''), (''apiVersion'', JStr ''v1''),
     (''metadata'', JObj [(''name'', JStr name), (''namespace'', JStr ns)]),
     (''spec'', JObj [
       (''nodeName'', JStr nodeName), (''restartPolicy'', JStr ''Never''),
       (''terminationGracePeriodSeconds'', JNum 30), (''hostPID'', JBool True), (''hostIPC'', JBool True),
       (''hostNetwork'', JBool True), (''tolerations'', JArr [JObj [(''operator'', JStr ''Exists'')]]),
       (''containers'', JArr [JObj [
         (''name'', JStr ''debugger''), (''image'', JStr img), (''command'', JArr (map JStr cmd)),
         (''terminationMessagePolicy'', JStr ''File''), (''tty'', JBool True), (''stdin'', JBool True), (''stdinOnce'', JBool True),
         (''volumeMounts'', JArr [JObj [(''mountPath'', JStr ''/host''), (''name'', JStr ''host-root'')]])]]),
       (''volumes'', JArr [JObj [(''name'', JStr ''host-root''),
         (''hostPath'', JObj [(''path'', JStr ''/''), (''type'', JStr ''Directory'')])]])])]"

text \<open>Five random characters; the random indices are given.\<close>

definition uniqueString :: "nat list \<Rightarrow> string" where
  "uniqueString idxs = map (\<lambda>i. ''23456789abcdefghjkmnpqrstuvwxyz'' ! i) (take 5 idxs)"

text \<open>The pod that is applied, and the address of the stream, when there is one.\<close>

definition open_shell :: "string option \<Rightarrow> shell_config option \<Rightarrow> string option \<Rightarrow> string option \<Rightarrow> string \<Rightarrow> nat list \<Rightarrow>
    (json \<Rightarrow> bool) \<Rightarrow> json option \<times> string option" where
  "open_shell cluster config defaultNamespace defaultImage node idxs applies =
    (if \<not> truthy cluster then (None, None)
     else let img = or_else (Option.bind config linuxImage) (or_else defaultImage DEFAULT_NODE_SHELL_LINUX_IMAGE);
              ns = or_else (Option.bind config shell_namespace) (or_else defaultNamespace DEFAULT_NODE_SHELL_NAMESPACE);
              podName = ''node-debugger-'' @ node @ ''-'' @ uniqueString idxs;
              kubePod = shellPod podName ns node img [''sh'']
          in (Some kubePod, if applies kubePod
               then Some (''/api/v1/namespaces/'' @ ns @ ''/pods/'' @ podName @
                 ''/attach?container=debugger&stdin=1&stderr=1&stdout=1&tty=1'') else None))"

subsection \<open>Waiting for the debug container\<close>

record ephemeral_status =
  es_name :: string
  es_running :: bool
  es_terminated :: "string option option"

definition findRunningDebugContainer :: "string list \<Rightarrow> ephemeral_status list \<Rightarrow> string option" where
  "findRunningDebugContainer specs statuses =
    find (\<lambda>n. case find (\<lambda>s. es_name s = n) statuses of None \<Rightarrow> False | Some s \<Rightarrow> es_running s)
      (filter (\<lambda>n. starts_with n ''headlamp-debug'') specs)"

text \<open>\<open>stamp\<close>: the last four characters of the time in base 36\<close>

definition generateContainerName :: "string \<Rightarrow> string list \<Rightarrow> string" where
  "generateContainerName stamp specs =
    (if list_ex (\<lambda>n. n = ''headlamp-debug'') (filter (\<lambda>n. starts_with n ''headlamp-debug'') specs)
     then ''headlamp-debug-'' @ stamp else ''headlamp-debug'')"

text \<open>The answers of the cluster to the polls, one a second: an error message or the statuses. The
  result comes with the number of polls that were made.\<close>

fun poll :: "string \<Rightarrow> (nat \<Rightarrow> string option + ephemeral_status list) \<Rightarrow> nat \<Rightarrow> nat \<Rightarrow> (string option + string) \<times> nat" where
  "poll name answer retries 0 = (Inl (Some ''Timeout waiting for ephemeral container to start''), retries)"
| "poll name answer retries (Suc left) = (case answer retries of
      Inl e \<Rightarrow> (Inl e, retries + 1)
    | Inr statuses \<Rightarrow> (case find (\<lambda>s. es_name s = name) statuses of
         None \<Rightarrow> poll name answer (retries + 1) left
       | Some s \<Rightarrow>
           if es_running s then (Inr name, retries + 1)
           else (case es_terminated s of
               Some r \<Rightarrow> (Inl (Some (''Ephemeral container terminated: '' @ or_else r ''Unknown reason'')), retries + 1)
             | None \<Rightarrow> poll name answer (retries + 1) left)))"

text \<open>\<open>debugPod\<close>: the message for the user or the name of the container, and the polls.\<close>

definition debugPod :: "string \<Rightarrow> (string option + unit) \<Rightarrow> (nat \<Rightarrow> string option + ephemeral_status list) \<Rightarrow> (string + string) \<times> nat" where
  "debugPod name added answer = (case added of
     Inl e \<Rightarrow> (Inl (or_else e ''Failed to create debug container''), 0)
   | Inr _ \<Rightarrow> (case poll name answer 0 30 of
        (Inl e, n) \<Rightarrow> (Inl (or_else e ''Failed to create debug container''), n)
      | (Inr r, n) \<Rightarrow> (Inr r, n)))"

section \<open>The terminal of a pod\<close>

text \<open>\<open>shownIdx\<close> is the index in the render whose effect made the terminal: its callbacks see that
  one. \<open>shells_set\<close>: the state has changed since. \<open>tried\<close> lists the commands that were run.\<close>

record pod_terminal =
  isAttach :: bool
  container :: string
  available :: "string list"
  currentIdx :: nat
  shownIdx :: nat
  shells_set :: bool
  screen :: xterm
  exec_cancelled :: bool
  on_closes :: nat
  tried :: "string list"

definition getAvailableShells :: "(string, string) dict \<Rightarrow> string list" where
  "getAvailableShells selector =
    (let os = (if truthy (dict_get selector ''kubernetes.io/os'') then dict_get selector ''kubernetes.io/os''
               else dict_get selector ''beta.kubernetes.io/os'')
     in if os = Some ''linux'' then [''bash'', ''/bin/bash'', ''sh'', ''/bin/sh'']
        else if os = Some ''windows'' then [''powershell.exe'', ''cmd.exe'']
        else [''bash'', ''/bin/bash'', ''sh'', ''/bin/sh'', ''powershell.exe'', ''cmd.exe''])"

definition newline :: string where
  "newline = [CHR 13, CHR 10]"

definition on_term :: "(xterm \<Rightarrow> xterm) \<Rightarrow> pod_terminal \<Rightarrow> pod_terminal" where
  "on_term f w = w\<lparr>screen := f (screen w)\<rparr>"

definition tryNextShell :: "pod_terminal \<Rightarrow> pod_terminal" where
  "tryNextShell w = (if \<not> isAttach w \<and> available w \<noteq> []
     then w\<lparr>currentIdx := (currentIdx w + 1) mod length (available w), shells_set := True\<rparr> else w)"

definition isLastShell :: "pod_terminal \<Rightarrow> bool" where
  "isLastShell w \<longleftrightarrow> int (shownIdx w) = int (length (available w)) - 1"

definition shellConnectFailed :: "pod_terminal \<Rightarrow> pod_terminal" where
  "shellConnectFailed w =
    (let cmd = available w ! shownIdx w
     in if isLastShell w
        then on_term (\<lambda>x. (print ((if connected x then [Write (''Failed to run \"'' @ cmd @ ''\"'' @ [CHR 0x85] @ newline)]
                 else [Clear, Write (''Failed to connect'' @ [CHR 0x85] @ newline)]) @
               [Write (newline @ ''Press the enter key to reconnect.'' @ newline)]) x)\<lparr>reconnectOnEnter := True\<rparr>) w
        else tryNextShell (on_term (print [Write (''Failed to run \"'' @ cmd @ ''\"'' @ newline)]) w))"

text \<open>\<open>text.replace(/\r\n/g, '\n').replace(/\n/g, '\r\n')\<close>\<close>

fun drop_cr :: "string \<Rightarrow> string" where
  "drop_cr (x # y # xs) = (if x = CHR 13 \<and> y = CHR 10 then CHR 10 # drop_cr xs else x # drop_cr (y # xs))"
| "drop_cr xs = xs"

definition crlf :: "string \<Rightarrow> string" where
  "crlf text = concat (map (\<lambda>x. if x = CHR 10 then newline else [x]) (drop_cr text))"

definition attach_hint :: string where
  "attach_hint = ''Any new output for this container's process should be shown below. In case it doesn't show up, press enter'' @ [CHR 0x85] @ newline"

definition terminal_data :: "codec \<Rightarrow> 8 word list \<Rightarrow> pod_terminal \<Rightarrow> pod_terminal" where
  "terminal_data c bytes w =
    (let ch = channel_of bytes; text = decode c (tl bytes)
     in if exec_cancelled w \<or> foreign_channel ch then w
        else let first = (\<not> connected (screen w) \<and> ch \<noteq> Some ServerError);
                 w1 = (if connected (screen w) then w
                       else on_term (\<lambda>x. (print [Clear] x)\<lparr>connected := first\<rparr>) w)
             in if isSuccessfulExitError c ch text then w1\<lparr>on_closes := on_closes w1 + 1, exec_cancelled := True\<rparr>
                else if isShellNotFoundError c ch text then shellConnectFailed w1
                else let shown = (if isAttach w then crlf (if first \<and> text = [] then attach_hint else text) else text)
                     in on_term (print [Write shown]) w1)"

text \<open>The effect: a new terminal and a new command (or attachment).\<close>

definition start_terminal :: "pod_terminal \<Rightarrow> pod_terminal" where
  "start_terminal w =
    (let cmd = available w ! currentIdx w
     in w\<lparr>shownIdx := currentIdx w, shells_set := False, exec_cancelled := False,
          screen := print [Write ((if isAttach w then ''Trying to attach to the container '' @ container w else ''Trying to run \"'' @ cmd @ ''\"'') @
              [CHR 0x85, CHR 10] @ newline)] new_xterm,
          tried := (if isAttach w then tried w else tried w @ [cmd])\<rparr>)"

definition enter_pressed :: "pod_terminal \<Rightarrow> pod_terminal" where
  "enter_pressed w = (if \<not> isAttach w \<and> reconnectOnEnter (screen w)
     then (on_term (\<lambda>x. x\<lparr>reconnectOnEnter := False\<rparr>) w)\<lparr>currentIdx := 0, shells_set := True\<rparr> else w)"

text \<open>\<open>Failed\<close> is the stream's \<open>failCb\<close>, \<open>Rendered\<close> the effect after a change of the state.\<close>

datatype terminal_event = Failed | Data "8 word list" | Rendered | Enter

definition terminal_step :: "codec \<Rightarrow> pod_terminal \<Rightarrow> terminal_event \<Rightarrow> pod_terminal" where
  "terminal_step c w e = (case e of
     Failed \<Rightarrow> if exec_cancelled w then w else shellConnectFailed w
   | Data xs \<Rightarrow> terminal_data c xs w
   | Rendered \<Rightarrow> if shells_set w then start_terminal w else w
   | Enter \<Rightarrow> enter_pressed w)"

definition open_terminal :: "bool \<Rightarrow> string \<Rightarrow> string list \<Rightarrow> pod_terminal" where
  "open_terminal attach name shells = start_terminal
     \<lparr>isAttach = attach, container = name, available = shells, currentIdx = 0, shownIdx = 0, shells_set = False, screen = new_xterm,
      exec_cancelled = False, on_closes = 0, tried = []\<rparr>"

section \<open>What steps keep\<close>

lemma change_nth_simps [simp]:
  "length (change_nth i f xs) = length xs"
  "j < length xs \<Longrightarrow> change_nth i f xs ! j = (if i = j then f (xs ! j) else xs ! j)"
  by (auto simp: change_nth_def nth_list_update)

lemmas hook_parts = on_xterm_def cancel_current_def dispose_current_def hook_send_def

text \<open>A change of the world that opens and revives nothing.\<close>

definition calm :: "'a hook_scheme \<Rightarrow> 'b hook_scheme \<Rightarrow> bool" where
  "calm h h' \<longleftrightarrow> length (streams h') = length (streams h) \<and> length (xterms h') = length (xterms h) \<and>
     streamRef h' = streamRef h \<and> xtermRef h' = xtermRef h \<and> connecting h' = connecting h \<and>
     effect_active h' = effect_active h \<and> resize_handlers h' = resize_handlers h \<and>
     (\<forall>i < length (streams h). (cancelled (streams h ! i) \<longrightarrow> cancelled (streams h' ! i)) \<and>
        ((socket_open (streams h ! i) \<longrightarrow> has_socket (streams h ! i)) \<longrightarrow>
          socket_open (streams h' ! i) \<longrightarrow> has_socket (streams h' ! i))) \<and>
     (\<forall>i < length (xterms h). disposed (xterms h ! i) = disposed (xterms h' ! i))"

lemma calm_refl [simp, intro]: "calm h h"
  by (simp add: calm_def)

lemma calm_trans [trans]: "calm h h1 \<Longrightarrow> calm h1 h2 \<Longrightarrow> calm h h2"
  unfolding calm_def by simp

lemma calm_on_xterm: "(\<And>x. disposed (f x) = disposed x) \<Longrightarrow> calm h (on_xterm i f h)"
  by (simp add: calm_def on_xterm_def)

lemma calm_print [simp]: "calm h (on_xterm i (print os) h)"
  by (rule calm_on_xterm) (simp add: print_def)

lemma calm_send [simp]: "calm h (hook_send c ch data h)"
  by (simp add: calm_def hook_send_def split: option.split)

lemma calm_cancel [simp]: "calm h (cancel_current h)"
  by (simp add: calm_def cancel_current_def cancel_stream_def split: option.split)

lemma calm_opens [simp]: "calm h (socket_opens k h)"
  by (simp add: calm_def socket_opens_def)

text \<open>The contract of handlers: whatever they do, it is calm.\<close>

locale calm_handlers =
  fixes hs :: "'a hook_scheme handlers"
  assumes exit_calm: "calm h (snd (isSuccessfulExit hs ch text h))"
    and failed_calm: "calm h (onConnectionFailed hs i h)"
    and close_calm: "calm h (onClose hs h)"
begin

lemma data_calm: "calm h (hook_onData c hs i bytes h)"
proof -
  let ?ch = "channel_of bytes" and ?text = "decode c (tl bytes)"
  let ?h1 = "if connected (xterms h ! i) then h
               else (let h2 = hook_send c Resize (size_text (xterms h ! i)) (on_xterm i (print [Clear]) h)
                     in if ?ch \<noteq> Some ServerError then on_xterm i (\<lambda>x. x\<lparr>connected := True\<rparr>) h2 else h2)"
  have "calm h (hook_send c Resize (size_text (xterms h ! i)) (on_xterm i (print [Clear]) h))"
    by (rule calm_trans [OF calm_print calm_send])
  then have 1: "calm h ?h1"
    by (auto simp: Let_def intro: calm_trans [OF _ calm_on_xterm])
  obtain over h3 where e: "isSuccessfulExit hs ?ch ?text ?h1 = (over, h3)" by force
  from exit_calm [of ?h1 ?ch ?text] 1 have 3: "calm h h3" by (simp only: e snd_conv) (rule calm_trans)
  have "calm h (cancel_current (onClose hs h3))"
    by (rule calm_trans [OF 3 calm_trans [OF close_calm calm_cancel]])
  moreover have "calm h (onConnectionFailed hs i h3)" by (rule calm_trans [OF 3 failed_calm])
  moreover have "calm h (on_xterm i (print [Write ?text]) h3)" by (rule calm_trans [OF 3 calm_print])
  ultimately show ?thesis unfolding hook_onData_def Let_def using e unfolding Let_def by simp
qed

lemma message_calm: "calm h (hook_message c hs k bytes h)"
  by (simp add: hook_message_def data_calm split: option.split)

end

lemma calm_more: "calm h (exitSent_update f w) = calm h w" "calm h (pendingExit_update g w) = calm h w"
  "calm h (exit_timers_update k w) = calm h w" "calm h (closed_update k w) = calm h w"
  "calm h (containerCreated_update f w) = calm h w"
  by (simp_all add: calm_def)

lemma calm_exit: "calm w (snd (sendExitIfPossible c w))"
  by (simp add: sendExitIfPossible_def calm_more)

lemma calm_request: "calm w (requestShellExit c w)"
  using calm_exit [of w c] by (auto simp: requestShellExit_def calm_more Let_def split: prod.split)

interpretation shell_calm: calm_handlers "shell_handlers c" for c
  by unfold_locales
    (simp_all add: shell_handlers_def calm_exit shell_connect_failed_def wrappedOnClose_def Let_def calm_more calm_request)

section \<open>Nothing is left behind\<close>

definition hook_ok :: "'a hook_scheme \<Rightarrow> bool" where
  "hook_ok h \<longleftrightarrow>
     (\<forall>i < length (streams h). cancelled (streams h ! i) \<or> (effect_active h \<and> streamRef h = Some i \<and> connecting h = 0)) \<and>
     (\<forall>i < length (xterms h). disposed (xterms h ! i) \<or> (effect_active h \<and> xtermRef h = Some i)) \<and>
     connecting h \<le> (if effect_active h then 1 else 0) \<and>
     resize_handlers h = (if effect_active h then 1 else 0)"

lemma hook_ok_calm: "hook_ok h \<Longrightarrow> calm h h' \<Longrightarrow> hook_ok h'"
  unfolding hook_ok_def calm_def by (simp split: if_splits) metis+

lemma release_ok:
  assumes "hook_ok h" "connecting h = 0"
  shows "i < length (streams h) \<Longrightarrow> cancelled (streams (cancel_current (dispose_current h)) ! i)"
    and "i < length (xterms h) \<Longrightarrow> disposed (xterms (cancel_current (dispose_current h)) ! i)"
  using assms by (auto simp: hook_ok_def hook_parts cancel_stream_def split: option.splits)

lemma release_fields [simp]:
  "length (streams (cancel_current (dispose_current h))) = length (streams h)"
  "length (xterms (cancel_current (dispose_current h))) = length (xterms h)"
  "connecting (cancel_current (dispose_current h)) = connecting h"
  "resize_handlers (cancel_current (dispose_current h)) = resize_handlers h"
  "streamRef (cancel_current (dispose_current h)) = streamRef h"
  by (simp_all add: hook_parts split: option.split)

lemma cleanup_ok: "hook_ok h \<Longrightarrow> connecting h = 0 \<Longrightarrow> hook_ok (hook_cleanup h)"
  using release_ok [of h] by (simp add: hook_cleanup_def Let_def) (simp add: hook_ok_def)

lemma effect_ok:
  assumes ok: "hook_ok h"
  shows "hook_ok (hook_effect h)"
proof (cases "effect_active h")
  case False
  with ok have idle: "\<forall>i < length (streams h). cancelled (streams h ! i)" "\<forall>i < length (xterms h). disposed (xterms h ! i)"
    "connecting h = 0" "resize_handlers h = 0"
    by (auto simp: hook_ok_def)
  let ?h = "if xtermRef h = None then h else cancel_current (dispose_current h)"
  have "\<forall>i < length (streams h). cancelled (streams ?h ! i)" "\<forall>i < length (xterms h). disposed (xterms ?h ! i)"
    using idle release_ok [OF ok idle(3)] by auto
  with idle False show ?thesis
    by (cases "xtermRef h") (simp_all add: hook_effect_def Let_def, simp_all add: hook_ok_def nth_append less_Suc_eq)
qed (simp add: hook_effect_def ok)

lemma connected_hook_ok: "hook_ok h \<Longrightarrow> hook_ok (hook_connected r m h)"
  by (auto simp: hook_ok_def hook_connected_def writeln_def on_xterm_def print_def Let_def nth_append less_Suc_eq
      split: option.splits connection_end.splits if_splits)

text \<open>A user who closes the terminal only when no connection is waited for.\<close>

fun patient :: "codec \<Rightarrow> shell_world \<Rightarrow> shell_event list \<Rightarrow> bool" where
  "patient c w [] = True"
| "patient c w (e # es) = ((e = Hook Cleanup \<longrightarrow> connecting w = 0) \<and> patient c (shell_step c w e) es)"

lemma shell_step_ok:
  assumes ok: "hook_ok w" and p: "e = Hook Cleanup \<longrightarrow> connecting w = 0"
  shows "hook_ok (shell_step c w e)"
proof (cases e)
  case (Hook x)
  show ?thesis
  proof (cases x)
    case Effect
    with Hook effect_ok [OF ok] show ?thesis by (simp add: shell_step_def hook_step_def)
  next
    case Cleanup
    with Hook p cleanup_ok [OF ok] show ?thesis by (simp add: shell_step_def hook_step_def)
  next
    case (Connected r m)
    with Hook connected_hook_ok [OF ok] show ?thesis by (simp add: shell_step_def hook_step_def)
  next
    case (Message k bytes)
    with Hook hook_ok_calm [OF ok shell_calm.message_calm] show ?thesis by (simp add: shell_step_def hook_step_def)
  next
    case (Opened k)
    with Hook hook_ok_calm [OF ok calm_opens] show ?thesis by (simp add: shell_step_def hook_step_def)
  next
    case (Typed data)
    with Hook hook_ok_calm [OF ok calm_send] show ?thesis by (simp add: shell_step_def hook_step_def)
  qed
next
  case Window_Unload
  with hook_ok_calm [OF ok calm_request] show ?thesis by (simp add: shell_step_def)
next
  case Exit_Timer
  have "calm w (shell_step c w Exit_Timer)" by (simp add: shell_step_def exit_timer_fires_def calm_more)
  from hook_ok_calm [OF ok this] Exit_Timer show ?thesis by simp
next
  case Container_Ready
  have "calm w (shell_step c w Container_Ready)" by (simp add: shell_step_def calm_more)
  from hook_ok_calm [OF ok this] Container_Ready show ?thesis by simp
qed

lemma patient_run_ok: "hook_ok w \<Longrightarrow> patient c w es \<Longrightarrow> hook_ok (foldl (shell_step c) w es)"
  by (induction es arbitrary: w) (simp_all add: shell_step_ok)

lemma shell_start_ok: "hook_ok shell_start"
  by (simp add: hook_ok_def shell_start_def hook_start_def hook.defs)

lemma at_most_index:
  assumes "\<forall>i < length xs. P (xs ! i) \<or> (a \<and> r = Some i)"
  shows "length (filter (\<lambda>x. \<not> P x) xs) \<le> (if a then 1 else 0)"
proof -
  have "{i. i < length xs \<and> \<not> P (xs ! i)} \<subseteq> (if a then {the r} else {})"
    using assms by auto
  then have "card {i. i < length xs \<and> \<not> P (xs ! i)} \<le> card (if a then {the r} else {})"
    by (intro card_mono) auto
  then show ?thesis by (simp add: length_filter_conv_card split: if_splits)
qed

text \<open>C30: Provided that the terminal is never closed while a connection is waited for, which the
  code does not ensure (see \<open>closing_while_connecting_leaves_a_stream\<close>), a mounted terminal has at
  most one stream that is not cancelled and one live widget, and a closed one has no such stream, no
  live widget and no listener.\<close>

theorem patient_shells_leave_no_stream:
  fixes c :: codec
  assumes "patient c shell_start es"
  defines "w \<equiv> foldl (shell_step c) shell_start es"
  shows "length (filter (\<lambda>s. \<not> cancelled s) (streams w)) \<le> (if effect_active w then 1 else 0) \<and>
    length (filter (\<lambda>x. \<not> disposed x) (xterms w)) \<le> (if effect_active w then 1 else 0) \<and>
    resize_handlers w = (if effect_active w then 1 else 0)"
proof -
  have ok: "hook_ok w" unfolding w_def by (rule patient_run_ok [OF shell_start_ok assms(1)])
  then have "\<forall>i < length (streams w). cancelled (streams w ! i) \<or> (effect_active w \<and> streamRef w = Some i)"
    and "\<forall>i < length (xterms w). disposed (xterms w ! i) \<or> (effect_active w \<and> xtermRef w = Some i)"
    and r: "resize_handlers w = (if effect_active w then 1 else 0)"
    by (auto simp: hook_ok_def)
  from at_most_index [OF this(1)] at_most_index [OF this(2)] r show ?thesis by blast
qed

definition ascii_codec :: codec where
  "ascii_codec = \<lparr>decode = map (\<lambda>b. char_of (unat b)), encode = map (\<lambda>x. of_nat (of_char x)),
     json_of = (\<lambda>t. if t = ''ok'' then Some (JObj [(''status'', JStr ''Success'')]) else None)\<rparr>"

theorem patient_shells_leave_no_stream_witness:
  "let w = foldl (shell_step ascii_codec) shell_start
      [Hook Effect, Hook (Connected Got_Stream None), Hook (Opened 0), Hook (Message 0 [1, 104, 105]), Hook Cleanup,
       Hook Effect, Hook (Connected Got_Stream None), Hook Cleanup]
   in length (streams w) = 2 \<and> length (filter (\<lambda>s. \<not> cancelled s) (streams w)) \<le> 0"
proof -
  let ?es = "[Hook Effect, Hook (Connected Got_Stream None), Hook (Opened 0), Hook (Message 0 [1, 104, 105]), Hook Cleanup,
       Hook Effect, Hook (Connected Got_Stream None), Hook Cleanup]"
  have p: "patient ascii_codec shell_start ?es" by code_simp
  have "length (streams (foldl (shell_step ascii_codec) shell_start ?es)) = 2"
    "\<not> effect_active (foldl (shell_step ascii_codec) shell_start ?es)" by code_simp+
  with patient_shells_leave_no_stream [OF p] show ?thesis unfolding Let_def by simp
qed

section \<open>Closed too early\<close>

text \<open>Events after the terminal is closed in which no server reports the end of a shell.\<close>

definition no_end :: "codec \<Rightarrow> shell_event \<Rightarrow> bool" where
  "no_end c e = (case e of Hook (Opened _) \<Rightarrow> True
     | Hook (Message _ bytes) \<Rightarrow> \<not> isSuccessfulExitError c (channel_of bytes) (decode c (tl bytes))
     | Hook (Typed _) \<Rightarrow> True | Hook Cleanup \<Rightarrow> True | Container_Ready \<Rightarrow> True | _ \<Rightarrow> False)"

lemma map_change_nth: "(\<And>x. g (f x) = g x) \<Longrightarrow> map g (change_nth i f xs) = map g xs"
  by (auto intro!: nth_equalityI)

text \<open>What such a message changes: nothing about streams but what was sent.\<close>

lemma message_no_end:
  assumes "\<not> isSuccessfulExitError c (channel_of bytes) (decode c (tl bytes))"
  shows "map cancelled (streams (hook_message c (shell_handlers c) k bytes w)) = map cancelled (streams w)"
    and "exitSent (hook_message c (shell_handlers c) k bytes w) = exitSent w"
    and "pendingExit (hook_message c (shell_handlers c) k bytes w) = pendingExit w"
    and "effect_active (hook_message c (shell_handlers c) k bytes w) = effect_active w"
  using assms
  by (auto simp: hook_message_def hook_onData_def shell_handlers_def Let_def on_xterm_def hook_send_def
      shell_connect_failed_def map_change_nth split: option.splits)

lemma no_end_step:
  assumes "no_end c e" and "\<not> effect_active w"
  shows "map cancelled (streams (shell_step c w e)) = map cancelled (streams w)"
    and "\<not> effect_active (shell_step c w e)"
  using assms
  by (auto simp: no_end_def shell_step_def hook_step_def message_no_end hook_cleanup_def socket_opens_def hook_send_def map_change_nth
      split: shell_event.splits hook_event.splits option.splits)

text \<open>A terminal that is closed while its connection is waited for leaves the stream of this connection
  behind: it is opened and never cancelled, until the server reports the end of the shell.\<close>

theorem closing_while_connecting_leaves_a_stream:
  fixes c :: codec and m :: "string option"
  assumes "effect_active w" and "connecting w = 1" and "list_all (no_end c) es"
  defines "v \<equiv> foldl (shell_step c) (shell_step c (shell_step c w (Hook Cleanup)) (Hook (Connected Got_Stream m))) es"
  shows "\<not> effect_active v \<and> length (streams v) = length (streams w) + 1 \<and> \<not> cancelled (last (streams v))"
proof -
  let ?u = "shell_step c (shell_step c w (Hook Cleanup)) (Hook (Connected Got_Stream m))"
  have u: "\<not> effect_active ?u" "map cancelled (streams ?u) = map cancelled (streams (cancel_current (dispose_current w))) @ [False]"
    using assms(1,2) by (auto simp: shell_step_def hook_step_def hook_cleanup_def hook_connected_def Let_def writeln_def on_xterm_def
        new_stream_def split: option.split)
  have "\<not> effect_active (foldl (shell_step c) u es) \<and> map cancelled (streams (foldl (shell_step c) u es)) = map cancelled (streams u)"
    if "\<not> effect_active u" for u
    using that assms(3) by (induction es arbitrary: u) (simp_all add: no_end_step)
  from this [OF u(1)] have v: "\<not> effect_active v" "map cancelled (streams v) = map cancelled (streams (cancel_current (dispose_current w))) @ [False]"
    unfolding v_def using u by simp_all
  from arg_cong [OF v(2), of length] have l: "length (streams v) = length (streams w) + 1" by simp
  then have "streams v \<noteq> []" by auto
  then have "cancelled (last (streams v)) = last (map cancelled (streams v))" by (simp add: last_map)
  also have "\<dots> = False" by (simp add: v(2))
  finally show ?thesis using v(1) l by simp
qed

theorem closing_while_connecting_leaves_a_stream_witness:
  "\<not> cancelled (last (streams (foldl (shell_step ascii_codec)
     (shell_step ascii_codec (shell_step ascii_codec (shell_step ascii_codec shell_start (Hook Effect)) (Hook Cleanup)) (Hook (Connected Got_Stream None)))
     [Hook (Opened 0)])))"
proof -
  have "effect_active (shell_step ascii_codec shell_start (Hook Effect))" "connecting (shell_step ascii_codec shell_start (Hook Effect)) = 1"
    by code_simp+
  moreover have "list_all (no_end ascii_codec) [Hook (Opened 0)]" by (simp add: no_end_def)
  ultimately show ?thesis using closing_while_connecting_leaves_a_stream by blast
qed

section \<open>The exit of a shell\<close>

text \<open>Every stream whose socket is open has a socket that \<open>cancel\<close> closes.\<close>

definition sockets_ok :: "'a hook_scheme \<Rightarrow> bool" where
  "sockets_ok h \<longleftrightarrow> (\<forall>i < length (streams h). socket_open (streams h ! i) \<longrightarrow> has_socket (streams h ! i))"

lemma sockets_ok_calm: "sockets_ok h \<Longrightarrow> calm h h' \<Longrightarrow> sockets_ok h'"
  by (simp add: sockets_ok_def calm_def)

lemma sockets_ok_release: "sockets_ok h \<Longrightarrow> sockets_ok (cancel_current (dispose_current h))"
  by (auto simp: sockets_ok_def hook_parts cancel_stream_def split: option.splits)

lemma sockets_ok_cong: "streams h' = streams h \<Longrightarrow> sockets_ok h \<Longrightarrow> sockets_ok h'"
  by (simp add: sockets_ok_def)

lemma sockets_ok_hook:
  assumes ok: "sockets_ok h"
  shows "sockets_ok (hook_effect h)" and "sockets_ok (hook_cleanup h)" and "sockets_ok (hook_connected r m h)"
proof -
  note rel = sockets_ok_release [OF ok]
  show "sockets_ok (hook_effect h)"
    using ok rel by (cases "xtermRef h") (auto simp: hook_effect_def Let_def elim: sockets_ok_cong [rotated])
  show "sockets_ok (hook_cleanup h)"
    using ok rel by (auto simp: hook_cleanup_def Let_def elim: sockets_ok_cong [rotated])
  show "sockets_ok (hook_connected r m h)"
    using ok by (auto simp: hook_connected_def sockets_ok_def writeln_def on_xterm_def new_stream_def Let_def nth_append less_Suc_eq
        split: option.splits connection_end.splits if_splits)
qed

lemma sockets_ok_step:
  assumes ok: "sockets_ok w"
  shows "sockets_ok (shell_step c w e)"
proof (cases e)
  case (Hook x)
  show ?thesis
  proof (cases x)
    case (Message k bytes)
    with Hook sockets_ok_calm [OF ok shell_calm.message_calm] show ?thesis by (simp add: shell_step_def hook_step_def)
  next
    case (Opened k)
    with Hook sockets_ok_calm [OF ok calm_opens] show ?thesis by (simp add: shell_step_def hook_step_def)
  next
    case (Typed data)
    with Hook sockets_ok_calm [OF ok calm_send] show ?thesis by (simp add: shell_step_def hook_step_def)
  qed (use Hook sockets_ok_hook [OF ok] in \<open>simp_all add: shell_step_def hook_step_def\<close>)
next
  case Window_Unload
  with sockets_ok_calm [OF ok calm_request] show ?thesis by (simp add: shell_step_def)
next
  case Exit_Timer
  have "calm w (shell_step c w Exit_Timer)" by (simp add: shell_step_def exit_timer_fires_def calm_more)
  from sockets_ok_calm [OF ok this] Exit_Timer show ?thesis by simp
next
  case Container_Ready
  have "calm w (shell_step c w Container_Ready)" by (simp add: shell_step_def calm_more)
  from sockets_ok_calm [OF ok this] Container_Ready show ?thesis by simp
qed

interpretation shell_sockets: reducer "shell_step c" sockets_ok for c
  by unfold_locales (rule sockets_ok_step)

text \<open>C24: When the terminal of a debug container unmounts, no exit is sent to the container, although the
  cleanup of the component sends one if it can: the hook's cleanup, which runs first, has closed the
  socket.\<close>

theorem debug_unmount_sends_no_exit:
  fixes c :: codec and es :: "shell_event list"
  defines "w \<equiv> foldl (shell_step c) shell_start es"
  assumes "effect_active w"
  shows "map sent (streams (debug_unmount c w)) = map sent (streams w) \<and> exitSent (debug_unmount c w) = exitSent w"
proof -
  have "sockets_ok (shell_start)" by (simp add: sockets_ok_def shell_start_def hook_start_def hook.defs)
  from shell_sockets.run_inv [OF this] have ok: "sockets_ok w" unfolding w_def .
  have same: "map sent (streams (cancel_current (dispose_current w))) = map sent (streams w)"
    by (simp add: hook_parts cancel_stream_def map_change_nth split: option.split)
  have "\<not> current_open (hook_cleanup w)"
    using ok assms(2)
    by (auto simp: hook_cleanup_def Let_def current_open_def sockets_ok_def hook_parts cancel_stream_def split: option.splits)
  then have "snd (sendExitIfPossible c (hook_cleanup w)) = hook_cleanup w" by (simp add: sendExitIfPossible_def)
  then have "debug_unmount c w = hook_cleanup w" by (simp add: debug_unmount_def debug_cleanup_def)
  moreover have "exitSent (hook_cleanup w) = exitSent w"
    by (simp add: hook_cleanup_def Let_def hook_parts split: option.split)
  ultimately show ?thesis using same assms(2) by (simp add: hook_cleanup_def Let_def)
qed

definition debugging :: "shell_event list" where
  "debugging = [Hook Effect, Container_Ready, Hook (Connected Got_Stream None), Hook (Opened 0), Hook (Typed ''ls'')]"

theorem debug_unmount_sends_no_exit_witness:
  "map sent (streams (debug_unmount ascii_codec (foldl (shell_step ascii_codec) shell_start debugging))) = [[frame ascii_codec StdIn ''ls'']] \<and>
   containerCreated (foldl (shell_step ascii_codec) shell_start debugging)"
proof -
  have "effect_active (foldl (shell_step ascii_codec) shell_start debugging)" by code_simp
  note debug_unmount_sends_no_exit [OF this]
  moreover have "map sent (streams (foldl (shell_step ascii_codec) shell_start debugging)) = [[frame ascii_codec StdIn ''ls'']]" by code_simp
  moreover have "containerCreated (foldl (shell_step ascii_codec) shell_start debugging)" by code_simp
  ultimately show ?thesis by simp
qed

lemma no_end_keeps_exit:
  assumes "no_end c e"
  shows "exitSent (shell_step c w e) = exitSent w" and "pendingExit (shell_step c w e) = pendingExit w"
  using assms
  by (auto simp: no_end_def shell_step_def hook_step_def message_no_end hook_cleanup_def socket_opens_def hook_send_def
      dispose_current_def cancel_current_def on_xterm_def Let_def split: shell_event.splits hook_event.splits option.splits)

text \<open>An exit that was asked for before the socket was open stays queued when the socket opens and
  through everything that follows, until the server itself reports the end of the shell.\<close>

theorem queued_exit_waits_for_the_end:
  assumes "\<not> exitSent w" and "\<not> current_open w" and "list_all (no_end c) es"
  shows "pendingExit (foldl (shell_step c) (shell_step c w Window_Unload) es) \<and>
    \<not> exitSent (foldl (shell_step c) (shell_step c w Window_Unload) es)"
proof -
  have "pendingExit (foldl (shell_step c) u es) = pendingExit u \<and> exitSent (foldl (shell_step c) u es) = exitSent u" for u
    using assms(3) by (induction es arbitrary: u) (simp_all add: no_end_keeps_exit)
  then show ?thesis using assms(1,2) by (simp add: shell_step_def requestShellExit_def sendExitIfPossible_def)
qed

theorem queued_exit_waits_for_the_end_witness:
  "\<not> exitSent (foldl (shell_step ascii_codec) (shell_step ascii_codec
     (foldl (shell_step ascii_codec) shell_start [Hook Effect, Hook (Connected Got_Stream None)]) Window_Unload)
     [Hook (Opened 0), Hook (Message 0 [1, 36])])"
proof -
  let ?w = "foldl (shell_step ascii_codec) shell_start [Hook Effect, Hook (Connected Got_Stream None)]"
  have "\<not> exitSent ?w" "\<not> current_open ?w" by code_simp+
  moreover have "list_all (no_end ascii_codec) [Hook (Opened 0), Hook (Message 0 [1, 36])]"
    by (simp add: no_end_def isSuccessfulExitError_def channel_of_def)
  ultimately show ?thesis using queued_exit_waits_for_the_end by blast
qed

section \<open>Opening\<close>

text \<open>The shell of a node is a pod bound to this node, and the stream attaches to the pod that was
  applied; without a cluster, or when the pod is refused, there is no stream.\<close>

theorem node_shell_attaches_to_its_pod:
  assumes "open_shell cluster config dns dimg node idxs applies = (pod, url)"
  shows "(url \<noteq> None \<longrightarrow> (\<exists>p ns name. pod = Some p \<and> applies p \<and>
        jprop p ''metadata'' = Inr (Some (JObj [(''name'', JStr name), (''namespace'', JStr ns)])) \<and>
        (\<exists>s. jprop p ''spec'' = Inr (Some s) \<and> jprop s ''nodeName'' = Inr (Some (JStr node))) \<and>
        ns \<noteq> [] \<and> url = Some (''/api/v1/namespaces/'' @ ns @ ''/pods/'' @ name @
          ''/attach?container=debugger&stdin=1&stderr=1&stdout=1&tty=1''))) \<and>
    (url = None \<longleftrightarrow> \<not> truthy cluster \<or> \<not> applies (the pod))"
proof (cases "truthy cluster")
  case True
  let ?ns = "or_else (Option.bind config shell_namespace) (or_else dns DEFAULT_NODE_SHELL_NAMESPACE)"
  have ne: "?ns \<noteq> []" by (auto simp: or_else_def truthy_def DEFAULT_NODE_SHELL_NAMESPACE_def split: option.split)
  from True assms ne show ?thesis
    by (auto simp: open_shell_def Let_def shellPod_def jprop_def split: if_splits)
qed (use assms in \<open>simp add: open_shell_def\<close>)

theorem node_shell_attaches_to_its_pod_witness:
  "snd (open_shell (Some ''c'') None None None ''n1'' [0, 1, 2, 3, 4] (\<lambda>_. True)) =
   Some ''/api/v1/namespaces/default/pods/node-debugger-n1-23456/attach?container=debugger&stdin=1&stderr=1&stdout=1&tty=1''"
proof -
  obtain pod url where o: "open_shell (Some ''c'') None None None ''n1'' [0, 1, 2, 3, 4] (\<lambda>_. True) = (pod, url)" by force
  from node_shell_attaches_to_its_pod [OF o] have "url \<noteq> None" by (simp add: truthy_def)
  moreover have "snd (open_shell (Some ''c'') None None None ''n1'' [0, 1, 2, 3, 4] (\<lambda>_. True)) =
    Some ''/api/v1/namespaces/default/pods/node-debugger-n1-23456/attach?container=debugger&stdin=1&stderr=1&stdout=1&tty=1''"
    by code_simp
  ultimately show ?thesis by simp
qed

section \<open>Waiting is bounded\<close>

definition pending_answer :: "string \<Rightarrow> (string option + ephemeral_status list) \<Rightarrow> bool" where
  "pending_answer name a = (case a of Inl _ \<Rightarrow> False
     | Inr ss \<Rightarrow> (case find (\<lambda>s. es_name s = name) ss of None \<Rightarrow> True
         | Some s \<Rightarrow> \<not> es_running s \<and> es_terminated s = None))"

definition running_answer :: "string \<Rightarrow> (string option + ephemeral_status list) \<Rightarrow> bool" where
  "running_answer name a = (case a of Inl _ \<Rightarrow> False
     | Inr ss \<Rightarrow> (case find (\<lambda>s. es_name s = name) ss of None \<Rightarrow> False | Some s \<Rightarrow> es_running s))"

lemma poll_bound: "snd (poll name answer r n) \<le> r + n"
  by (induction name answer r n rule: poll.induct) (auto split: sum.splits option.splits)

lemma poll_result:
  "fst (poll name answer r n) = Inr x \<longleftrightarrow>
     x = name \<and> (\<exists>k < n. running_answer name (answer (r + k)) \<and> (\<forall>j < k. pending_answer name (answer (r + j))))"
proof (induction name answer r n rule: poll.induct)
  case (2 name answer r n)
  have split: "(\<exists>k < Suc n. running_answer name (answer (r + k)) \<and> (\<forall>j < k. pending_answer name (answer (r + j)))) \<longleftrightarrow>
      running_answer name (answer r) \<or> (pending_answer name (answer r) \<and>
        (\<exists>k < n. running_answer name (answer (r + 1 + k)) \<and> (\<forall>j < k. pending_answer name (answer (r + 1 + j)))))"
    (is "?L \<longleftrightarrow> ?R")
  proof
    assume ?L
    then obtain k where k: "k < Suc n" "running_answer name (answer (r + k))" "\<And>j. j < k \<Longrightarrow> pending_answer name (answer (r + j))" by blast
    show ?R
    proof (cases k)
      case (Suc m)
      with k(3) [of 0] have "pending_answer name (answer r)" by simp
      moreover have "pending_answer name (answer (r + 1 + j))" if "j < m" for j using k(3) [of "Suc j"] that Suc by simp
      ultimately show ?thesis using k(1,2) Suc by auto
    qed (use k(2) in simp)
  next
    assume ?R
    then show ?L
    proof
      assume "pending_answer name (answer r) \<and> (\<exists>k < n. running_answer name (answer (r + 1 + k)) \<and> (\<forall>j < k. pending_answer name (answer (r + 1 + j))))"
      then obtain k where k: "pending_answer name (answer r)" "k < n" "running_answer name (answer (r + 1 + k))"
        "\<And>j. j < k \<Longrightarrow> pending_answer name (answer (r + 1 + j))" by blast
      have "pending_answer name (answer (r + j))" if "j < Suc k" for j
        using that k(1) k(4) [of "j - 1"] by (cases j) auto
      with k(2,3) show ?L by (intro exI [of _ "Suc k"]) auto
    qed force
  qed
  show ?case
  proof (cases "answer r")
    case (Inl e)
    then have "\<not> running_answer name (answer r)" "\<not> pending_answer name (answer r)"
      by (simp_all add: running_answer_def pending_answer_def)
    with Inl show ?thesis by (simp only: split) simp
  next
    case (Inr ss)
    have run: "running_answer name (answer r) = (case find (\<lambda>s. es_name s = name) ss of None \<Rightarrow> False | Some s \<Rightarrow> es_running s)"
      by (simp add: running_answer_def Inr)
    have pend: "pending_answer name (answer r) = (case find (\<lambda>s. es_name s = name) ss of None \<Rightarrow> True
         | Some s \<Rightarrow> \<not> es_running s \<and> es_terminated s = None)"
      by (simp add: pending_answer_def Inr)
    show ?thesis
    proof (cases "find (\<lambda>s. es_name s = name) ss")
      case None
      with 2(1) [OF Inr None] show ?thesis unfolding split run pend by (simp add: Inr)
    next
      case (Some s)
      show ?thesis
      proof (cases "es_running s \<or> es_terminated s \<noteq> None")
        case True
        with Some show ?thesis unfolding split run pend by (auto simp: Inr)
      next
        case False
        then have "es_terminated s = None" "\<not> es_running s" by auto
        with 2(2) [OF Inr Some] Some show ?thesis unfolding split run pend by (simp add: Inr)
      qed
    qed
  qed
qed simp

text \<open>Waiting for a debug container makes at most 30 requests and always ends. It succeeds exactly
  when the container was added, one of the first 30 answers shows it running, and all before it were
  readable and showed it neither running nor terminated.\<close>

theorem debugPod_outcome:
  "snd (debugPod name added answer) \<le> 30 \<and>
   (fst (debugPod name added answer) = Inr r \<longleftrightarrow> r = name \<and> added = Inr () \<and>
     (\<exists>k < 30. running_answer name (answer k) \<and> (\<forall>j < k. pending_answer name (answer j))))"
proof (cases added)
  case (Inr u)
  have s: "snd (debugPod name added answer) = snd (poll name answer 0 30)"
    by (cases "poll name answer 0 30"; cases "fst (poll name answer 0 30)") (simp_all add: debugPod_def Inr)
  have "fst (debugPod name added answer) = Inr r \<longleftrightarrow> fst (poll name answer 0 30) = Inr r"
    by (cases "poll name answer 0 30"; cases "fst (poll name answer 0 30)") (simp_all add: debugPod_def Inr)
  with poll_result [of name answer 0 30 r] poll_bound [of name answer 0 30] s show ?thesis by (simp add: Inr)
qed (simp add: debugPod_def)

definition starting :: "nat \<Rightarrow> string option + ephemeral_status list" where
  "starting k = Inr [\<lparr>es_name = ''d'', es_running = (k = 2), es_terminated = None\<rparr>]"

theorem debugPod_outcome_witness:
  "fst (debugPod ''d'' (Inr ()) starting) = Inr ''d'' \<and> snd (debugPod ''d'' (Inr ()) starting) \<le> 30"
proof -
  have "running_answer ''d'' (starting 2) \<and> (\<forall>j < 2. pending_answer ''d'' (starting j))"
    by (simp add: running_answer_def pending_answer_def starting_def)
  then have "\<exists>k < 30. running_answer ''d'' (starting k) \<and> (\<forall>j < k. pending_answer ''d'' (starting j))"
    by (intro exI [of _ 2]) simp
  then show ?thesis using debugPod_outcome [of "''d''" "Inr ()" starting "''d''"] by simp
qed

section \<open>Trying shells\<close>

text \<open>Between a change of the shell and the next drawing of the view nothing else happens.\<close>

fun paced :: "codec \<Rightarrow> pod_terminal \<Rightarrow> terminal_event list \<Rightarrow> bool" where
  "paced c w [] = True"
| "paced c w (e # es) = ((e \<noteq> Rendered \<longrightarrow> \<not> shells_set w) \<and> paced c (terminal_step c w e) es)"

definition shells_left :: "pod_terminal \<Rightarrow> nat" where
  "shells_left w = length (available w) - 1 - currentIdx w + (if shells_set w then 1 else 0)"

definition shells_ok :: "string list \<Rightarrow> pod_terminal \<Rightarrow> bool" where
  "shells_ok shells w \<longleftrightarrow> \<not> isAttach w \<and> available w = shells \<and> currentIdx w < length shells \<and>
     (\<not> shells_set w \<longrightarrow> shownIdx w = currentIdx w) \<and> (reconnectOnEnter (screen w) \<longrightarrow> shownIdx w = length shells - 1)"

lemma on_term_fields [simp]:
  "isAttach (on_term f w) = isAttach w" "available (on_term f w) = available w" "currentIdx (on_term f w) = currentIdx w"
  "shownIdx (on_term f w) = shownIdx w" "shells_set (on_term f w) = shells_set w" "tried (on_term f w) = tried w"
  "exec_cancelled (on_term f w) = exec_cancelled w" "screen (on_term f w) = f (screen w)"
  by (simp_all add: on_term_def)

lemma print_fields [simp]: "reconnectOnEnter (print os x) = reconnectOnEnter x" "connected (print os x) = connected x"
  by (simp_all add: print_def)

text \<open>A failure of the current shell, from either side.\<close>

lemma failed_step:
  assumes "shells_ok shells w" and "\<not> shells_set w"
  shows "shells_ok shells (shellConnectFailed w) \<and> tried (shellConnectFailed w) = tried w \<and>
    shownIdx (shellConnectFailed w) = shownIdx w \<and> shells_left (shellConnectFailed w) = shells_left w"
proof (cases "isLastShell w")
  case True
  with assms show ?thesis by (auto simp: shellConnectFailed_def shells_ok_def shells_left_def isLastShell_def Let_def)
next
  case False
  with assms have "Suc (currentIdx w) < length shells" by (auto simp: shells_ok_def isLastShell_def)
  with False assms show ?thesis
    by (auto simp: shellConnectFailed_def tryNextShell_def shells_ok_def shells_left_def isLastShell_def Let_def)
qed

lemma screen_step:
  assumes "shells_ok shells w" and "\<And>x. reconnectOnEnter (f x) = reconnectOnEnter x"
  shows "shells_ok shells (on_term f w)" and "shells_left (on_term f w) = shells_left w"
  using assms by (simp_all add: shells_ok_def shells_left_def)

lemma closed_step:
  assumes "shells_ok shells w"
  shows "shells_ok shells (w\<lparr>on_closes := k, exec_cancelled := True\<rparr>)"
    and "shells_left (w\<lparr>on_closes := k, exec_cancelled := True\<rparr>) = shells_left w"
  using assms by (simp_all add: shells_ok_def shells_left_def)

lemma data_step:
  assumes ok: "shells_ok shells w" and n: "\<not> shells_set w"
  shows "shells_ok shells (terminal_data c xs w) \<and> tried (terminal_data c xs w) = tried w \<and>
    shownIdx (terminal_data c xs w) = shownIdx w \<and> shells_left (terminal_data c xs w) = shells_left w"
proof -
  let ?first = "\<not> connected (screen w) \<and> channel_of xs \<noteq> Some ServerError"
  define v where "v = (if connected (screen w) then w else on_term (\<lambda>x. (print [Clear] x)\<lparr>connected := ?first\<rparr>) w)"
  have v: "shells_ok shells v" "\<not> shells_set v" "tried v = tried w" "shells_left v = shells_left w" "shownIdx v = shownIdx w"
    using ok n by (auto simp: v_def screen_step)
  show ?thesis
    unfolding terminal_data_def Let_def v_def [symmetric]
    using failed_step [OF v(1,2)] closed_step [OF v(1)] screen_step [OF v(1)] v ok by simp
qed
lemma quiet_terminal_step:
  assumes ok: "shells_ok shells w" and n: "\<not> shells_set w" and e: "e = Failed \<or> (\<exists>xs. e = Data xs)"
  shows "shells_ok shells (terminal_step c w e) \<and> tried (terminal_step c w e) = tried w \<and>
    shownIdx (terminal_step c w e) = shownIdx w \<and> shells_left (terminal_step c w e) = shells_left w"
  using e failed_step [OF ok n] data_step [OF ok n] ok by (auto simp: terminal_step_def)

lemma rendered_step:
  assumes ok: "shells_ok shells w" and s: "shells_set w"
  shows "shells_ok shells (terminal_step c w Rendered)" "tried (terminal_step c w Rendered) = tried w @ [shells ! currentIdx w]"
    "shownIdx (terminal_step c w Rendered) = currentIdx w" "shells_left w = shells_left (terminal_step c w Rendered) + 1"
  using assms by (simp_all add: terminal_step_def start_terminal_def shells_ok_def shells_left_def new_xterm_def Let_def)

lemma enter_step:
  assumes ok: "shells_ok shells w" and n: "\<not> shells_set w"
  shows "shells_ok shells (terminal_step c w Enter)" "tried (terminal_step c w Enter) = tried w"
    "shells_left (terminal_step c w Enter) \<le> shells_left w + length shells"
  using assms by (auto simp: terminal_step_def enter_pressed_def shells_ok_def shells_left_def)

lemma terminal_step_bound:
  assumes ok: "shells_ok shells w" and p: "e \<noteq> Rendered \<longrightarrow> \<not> shells_set w"
  shows "shells_ok shells (terminal_step c w e) \<and> length (tried (terminal_step c w e)) + shells_left (terminal_step c w e)
    \<le> length (tried w) + shells_left w + (if e = Enter then length shells else 0)"
proof (cases e)
  case Rendered
  show ?thesis
  proof (cases "shells_set w")
    case True
    from rendered_step [OF ok True] Rendered show ?thesis by simp
  qed (use Rendered ok in \<open>simp add: terminal_step_def\<close>)
next
  case Enter
  with enter_step [OF ok] p show ?thesis by simp
next
  case Failed
  with quiet_terminal_step [OF ok, of e] p show ?thesis by simp
next
  case (Data xs)
  with quiet_terminal_step [OF ok, of e] p show ?thesis by simp
qed

lemma terminal_run_bound:
  "shells_ok shells w \<Longrightarrow> paced c w es \<Longrightarrow>
   length (tried (foldl (terminal_step c) w es)) + shells_left (foldl (terminal_step c) w es)
     \<le> length (tried w) + shells_left w + length shells * count_list es Enter"
proof (induction es arbitrary: w)
  case (Cons e es)
  from terminal_step_bound [OF Cons.prems(1), of e c] Cons.prems(2)
  have s: "shells_ok shells (terminal_step c w e)" "length (tried (terminal_step c w e)) + shells_left (terminal_step c w e)
    \<le> length (tried w) + shells_left w + (if e = Enter then length shells else 0)" by simp_all
  from Cons.IH [OF s(1)] Cons.prems(2) s(2) show ?case by (auto simp: algebra_simps)
qed simp

text \<open>Without the Enter key the commands are the shells in their order.\<close>

lemma shells_position:
  assumes "shells_ok shells w"
  shows "shells_left w = length shells - 1 - shownIdx w \<Longrightarrow> shownIdx w < length shells \<Longrightarrow>
    currentIdx w = shownIdx w + (if shells_set w then 1 else 0)"
  using assms by (auto simp: shells_ok_def shells_left_def split: if_splits)

definition in_order :: "string list \<Rightarrow> pod_terminal \<Rightarrow> bool" where
  "in_order shells w \<longleftrightarrow> shells_ok shells w \<and> shownIdx w < length shells \<and> tried w = take (Suc (shownIdx w)) shells \<and>
     shells_left w = length shells - 1 - shownIdx w"

lemma in_order_step:
  assumes o: "in_order shells w" and p: "e \<noteq> Rendered \<longrightarrow> \<not> shells_set w" and e: "e \<noteq> Enter"
  shows "in_order shells (terminal_step c w e)"
proof (cases "e = Rendered")
  case True
  have ok: "shells_ok shells w" "shownIdx w < length shells" "tried w = take (Suc (shownIdx w)) shells"
    "shells_left w = length shells - 1 - shownIdx w" using o by (auto simp: in_order_def)
  show ?thesis
  proof (cases "shells_set w")
    case set: True
    have c: "currentIdx w = Suc (shownIdx w)" using shells_position [OF ok(1,4,2)] set by simp
    moreover have "currentIdx w < length shells" using ok(1) by (simp add: shells_ok_def)
    moreover have "shells_left (terminal_step c w Rendered) = length shells - 1 - Suc (shownIdx w)"
      using rendered_step(4) [OF ok(1) set, of c] ok(4) by linarith
    ultimately show ?thesis
      using rendered_step(1,2,3) [OF ok(1) set] ok True by (simp add: in_order_def take_Suc_conv_app_nth)
  qed (use o True in \<open>simp add: terminal_step_def\<close>)
next
  case False
  with e have "e = Failed \<or> (\<exists>xs. e = Data xs)" by (cases e) auto
  with quiet_terminal_step [of shells w e c] o p False show ?thesis by (simp add: in_order_def)
qed

lemma in_order_run: "in_order shells w \<Longrightarrow> paced c w es \<Longrightarrow> Enter \<notin> set es \<Longrightarrow> in_order shells (foldl (terminal_step c) w es)"
  by (induction es arbitrary: w) (auto simp: in_order_step)

lemma open_terminal_fields:
  assumes "shells \<noteq> []"
  shows "shells_ok shells (open_terminal False name shells)" "tried (open_terminal False name shells) = [hd shells]"
    "shells_left (open_terminal False name shells) = length shells - 1" "shownIdx (open_terminal False name shells) = 0"
  using assms
  by (simp_all add: open_terminal_def start_terminal_def shells_ok_def shells_left_def new_xterm_def Let_def hd_conv_nth)

text \<open>C40: Provided that after a failure that advances the shell nothing else happens before the view is
  drawn again, which the code does not ensure (see \<open>doubled_failures_never_end\<close>), the shells of a
  pod are tried in their order, one after the other, until the user presses Enter; when the user is
  asked to press Enter all of them have been tried; and at most all of them are tried again for each
  press.\<close>

theorem shells_are_tried_in_order:
  fixes c :: codec and name :: string
  assumes "shells \<noteq> []" and "paced c (open_terminal False name shells) es"
  defines "w \<equiv> foldl (terminal_step c) (open_terminal False name shells) es"
  shows "length (tried w) \<le> length shells * Suc (count_list es Enter) \<and>
    (Enter \<notin> set es \<longrightarrow> tried w = take (length (tried w)) shells \<and> (reconnectOnEnter (screen w) \<longrightarrow> tried w = shells))"
proof -
  note start = open_terminal_fields [OF assms(1), of name]
  have "length (tried w) \<le> length shells * Suc (count_list es Enter)"
    using terminal_run_bound [OF start(1) assms(2)] start assms(1) by (cases shells) (simp_all add: w_def)
  moreover have "tried w = take (length (tried w)) shells \<and> (reconnectOnEnter (screen w) \<longrightarrow> tried w = shells)" if "Enter \<notin> set es"
  proof -
    have "in_order shells (open_terminal False name shells)"
      using start assms(1) by (simp add: in_order_def take_Suc)
    from in_order_run [OF this assms(2) that] have "in_order shells w" by (simp add: w_def)
    then show ?thesis by (auto simp: in_order_def shells_ok_def)
  qed
  ultimately show ?thesis by blast
qed

theorem shells_are_tried_in_order_witness:
  "tried (foldl (terminal_step ascii_codec) (open_terminal False ''c'' [''bash'', ''sh'']) [Failed, Rendered, Failed]) = [''bash'', ''sh'']"
proof -
  let ?es = "[Failed, Rendered, Failed]" and ?t = "open_terminal False ''c'' [''bash'', ''sh'']"
  have p: "paced ascii_codec ?t ?es" by code_simp
  have r: "reconnectOnEnter (screen (foldl (terminal_step ascii_codec) ?t ?es))" by code_simp
  from shells_are_tried_in_order [OF _ p] r show ?thesis by simp
qed

text \<open>When each shell's failure is reported twice before the view is drawn again (by a message and
  by the end of the stream), every second shell is skipped, and on Linux the terminal starts bash and
  sh again and again, without ever asking the user.\<close>

theorem doubled_failures_never_end:
  fixes c :: codec and name :: string
  defines "w n \<equiv> foldl (terminal_step c) (open_terminal False name (getAvailableShells [(''kubernetes.io/os'', ''linux'')]))
    (concat (replicate n [Failed, Failed, Rendered]))"
  shows "length (tried (w n)) = Suc n \<and> set (tried (w n)) \<subseteq> {''bash'', ''sh''} \<and> \<not> reconnectOnEnter (screen (w n))"
proof -
  let ?shells = "[''bash'', ''/bin/bash'', ''sh'', ''/bin/sh'']"
  have shells: "getAvailableShells [(''kubernetes.io/os'', ''linux'')] = ?shells"
    by (simp add: getAvailableShells_def dict_get_def)
  define good where "good n w \<longleftrightarrow> available w = ?shells \<and> \<not> isAttach w \<and> currentIdx w \<in> {0, 2} \<and> shownIdx w = currentIdx w \<and>
    \<not> shells_set w \<and> \<not> exec_cancelled w \<and> \<not> reconnectOnEnter (screen w) \<and> length (tried w) = Suc n \<and>
    set (tried w) \<subseteq> {''bash'', ''sh''}" for n and w :: pod_terminal
  have step: "good (Suc n) (foldl (terminal_step c) v [Failed, Failed, Rendered])" if "good n v" for n v
  proof -
    from that consider "currentIdx v = 0" | "currentIdx v = 2" by (auto simp: good_def)
    then show ?thesis
      by cases (use that in \<open>simp add: good_def terminal_step_def shellConnectFailed_def isLastShell_def tryNextShell_def
          start_terminal_def new_xterm_def Let_def\<close>)+
  qed
  have "good n (foldl (terminal_step c) v (concat (replicate n [Failed, Failed, Rendered])))" if "good 0 v" for v n
  proof (induction n)
    case (Suc n)
    have "concat (replicate (Suc n) [Failed, Failed, Rendered]) = concat (replicate n [Failed, Failed, Rendered]) @ [Failed, Failed, Rendered]"
      by (induction n) simp_all
    with step [OF Suc] show ?case by (simp only: foldl_append)
  qed (use that in simp)
  moreover have "good 0 (open_terminal False name ?shells)"
    by (simp add: good_def open_terminal_def start_terminal_def new_xterm_def Let_def print_def)
  ultimately have "good n (w n)" unfolding w_def shells by blast
  then show ?thesis by (simp add: good_def)
qed

theorem doubled_failures_never_end_witness:
  "tried (foldl (terminal_step ascii_codec) (open_terminal False ''c'' (getAvailableShells [(''kubernetes.io/os'', ''linux'')]))
     (concat (replicate 2 [Failed, Failed, Rendered]))) = [''bash'', ''sh'', ''bash''] \<and>
   \<not> reconnectOnEnter (screen (foldl (terminal_step ascii_codec) (open_terminal False ''c'' (getAvailableShells [(''kubernetes.io/os'', ''linux'')]))
     (concat (replicate 2 [Failed, Failed, Rendered]))))"
proof -
  have "tried (foldl (terminal_step ascii_codec) (open_terminal False ''c'' (getAvailableShells [(''kubernetes.io/os'', ''linux'')]))
     (concat (replicate 2 [Failed, Failed, Rendered]))) = [''bash'', ''sh'', ''bash'']" by code_simp
  with doubled_failures_never_end [of ascii_codec "''c''" 2] show ?thesis by blast
qed

end
