(* ===== verification/MapSources.thy ===== *)
theory MapSources
  imports Graph KubeObjects Discovery
begin

text \<open>
  The sources of the resource map: \<^verbatim>\<open>components/resourceMap/sources/GraphSources.tsx\<close> (the tree of
  sources, their selection, the nodes and edges that they give together), the relations of
  \<^verbatim>\<open>sources/definitions/relations.tsx\<close>, and the sources of custom resources in \<^verbatim>\<open>sources.tsx\<close>. What
  the sources load is given. An object is its JSON and its cluster; reading a property of
  \<open>undefined\<close> throws, and a throw in a relation leaves the map without data.
\<close>

section \<open>The tree of sources\<close>

datatype map_source = Source_Group string "bool option" "map_source list" | Source string "bool option"

fun src_id :: "map_source \<Rightarrow> string" where
  "src_id (Source_Group i _ _) = i"
| "src_id (Source i _) = i"

fun enabled_by_default :: "map_source \<Rightarrow> bool" where
  "enabled_by_default (Source_Group _ b _) = (b \<noteq> Some False)"
| "enabled_by_default (Source _ b) = (b \<noteq> Some False)"

fun getFlatSources :: "map_source list \<Rightarrow> map_source list" where
  "getFlatSources [] = []"
| "getFlatSources (Source_Group i b ss # rest) = getFlatSources ss @ getFlatSources rest"
| "getFlatSources (Source i b # rest) = Source i b # getFlatSources rest"

text \<open>The selection at the start: a group that is off hides its children.\<close>

fun select_default :: "map_source \<Rightarrow> string list \<Rightarrow> string list" where
  "select_default (Source_Group i b ss) sel =
     (if b \<noteq> Some False then fold select_default ss (set_add i sel) else sel)"
| "select_default (Source i b) sel = (if b \<noteq> Some False then set_add i sel else sel)"

definition default_selection :: "map_source list \<Rightarrow> string list" where
  "default_selection ss = fold select_default ss []"

fun isSelected :: "string list \<Rightarrow> map_source \<Rightarrow> bool" where
  "isSelected sel (Source_Group i b ss) = list_all (isSelected sel) ss"
| "isSelected sel (Source i b) = (i \<in> set sel)"

fun deselectAll :: "map_source \<Rightarrow> string list \<Rightarrow> string list" where
  "deselectAll (Source_Group i b ss) sel = fold deselectAll ss sel"
| "deselectAll (Source i b) sel = set_remove i sel"

fun selectAll :: "map_source \<Rightarrow> string list \<Rightarrow> string list" where
  "selectAll (Source_Group i b ss) sel = fold selectAll ss sel"
| "selectAll (Source i b) sel = set_add i sel"

definition toggleSelection :: "map_source \<Rightarrow> string list \<Rightarrow> string list" where
  "toggleSelection s sel = (case s of
     Source i b \<Rightarrow> if i \<in> set sel then set_remove i sel else set_add i sel
   | Source_Group i b ss \<Rightarrow>
       if list_all (isSelected sel) ss then set_remove i (fold deselectAll ss sel) else fold selectAll ss sel)"

section \<open>Nodes and edges of the map\<close>

record map_object =
  mo_cluster :: string
  mo_json :: json

record map_node =
  mn_id :: string
  mn_object :: "map_object option"

record relation =
  fromSource :: string
  toSource :: "string option"
  holds :: "map_node \<Rightarrow> map_node \<Rightarrow> js_error + bool"

record source_data =
  sd_nodes :: "map_node list option"
  sd_edges :: "edge list option"

definition relation_enabled :: "string list \<Rightarrow> relation \<Rightarrow> bool" where
  "relation_enabled sel r \<longleftrightarrow> fromSource r \<in> set sel \<and> (truthy (toSource r) \<longrightarrow> the (toSource r) \<in> set sel)"

fun collect :: "('a \<Rightarrow> js_error + 'b list) \<Rightarrow> 'a list \<Rightarrow> js_error + 'b list" where
  "collect f [] = Inr []"
| "collect f (x # xs) = bind_sum (f x) (\<lambda>ys. bind_sum (collect f xs) (\<lambda>zs. Inr (ys @ zs)))"

definition node_edge :: "map_node \<Rightarrow> map_node \<Rightarrow> edge" where
  "node_edge f t = \<lparr>e_id = mn_id f @ ''-'' @ mn_id t, source = mn_id f, target = mn_id t\<rparr>"

text \<open>The loop over the selected sources: all nodes and edges, and the nodes of each source.\<close>

record loaded =
  all_nodes :: "map_node list"
  all_edges :: "edge list"
  nodesPerSource :: "(string, map_node list) dict"

definition load_source :: "(string, source_data option) dict \<Rightarrow> string \<Rightarrow> loaded \<Rightarrow> loaded" where
  "load_source sourceData i l =
    (case Option.bind (dict_get sourceData i) (\<lambda>d. d) of
       None \<Rightarrow> l
     | Some d \<Rightarrow>
        (let l1 = (case sd_nodes d of None \<Rightarrow> l
               | Some ns \<Rightarrow> l\<lparr>all_nodes := all_nodes l @ dedup_by mn_id ns,
                    nodesPerSource := dict_set i (dedup_by mn_id ns) (nodesPerSource l)\<rparr>)
         in case sd_edges d of None \<Rightarrow> l1 | Some es \<Rightarrow> l1\<lparr>all_edges := all_edges l1 @ dedup_by e_id es\<rparr>))"

definition selectedSourceIds :: "map_source list \<Rightarrow> string list \<Rightarrow> string list" where
  "selectedSourceIds sources sel = map src_id (filter (\<lambda>s. src_id s \<in> set sel) (getFlatSources sources))"

definition load_sources :: "map_source list \<Rightarrow> string list \<Rightarrow> (string, source_data option) dict \<Rightarrow> loaded" where
  "load_sources sources sel sourceData =
    (let l = fold (load_source sourceData) (selectedSourceIds sources sel) \<lparr>all_nodes = [], all_edges = [], nodesPerSource = []\<rparr>
     in l\<lparr>all_nodes := dedup_by mn_id (all_nodes l), all_edges := dedup_by e_id (all_edges l)\<rparr>)"

definition from_nodes :: "loaded \<Rightarrow> relation \<Rightarrow> map_node list" where
  "from_nodes l r = (case dict_get (nodesPerSource l) (fromSource r) of None \<Rightarrow> [] | Some ns \<Rightarrow> ns)"

definition to_nodes :: "loaded \<Rightarrow> relation \<Rightarrow> map_node list" where
  "to_nodes l r = (if truthy (toSource r)
     then (case dict_get (nodesPerSource l) (the (toSource r)) of None \<Rightarrow> [] | Some ns \<Rightarrow> ns) else all_nodes l)"

definition relation_edges :: "loaded \<Rightarrow> relation \<Rightarrow> js_error + edge list" where
  "relation_edges l r =
    collect (\<lambda>f. collect (\<lambda>t. bind_sum (holds r f t) (\<lambda>b. Inr (if b then [node_edge f t] else []))) (to_nodes l r)) (from_nodes l r)"

definition map_data :: "map_source list \<Rightarrow> string list \<Rightarrow> (string, source_data option) dict \<Rightarrow> relation list \<Rightarrow>
    js_error + (map_node list \<times> edge list)" where
  "map_data sources sel sourceData relations =
    (let l = load_sources sources sel sourceData
     in bind_sum (collect (relation_edges l) (filter (relation_enabled sel) relations))
          (\<lambda>es. Inr (all_nodes l, dedup_by e_id (all_edges l @ es))))"

section \<open>Reading objects\<close>

type_synonym js_value = "js_error + json option"

text \<open>\<open>v.k\<close> and \<open>v?.k\<close>\<close>

definition dot :: "js_value \<Rightarrow> string \<Rightarrow> js_value" where
  "dot v k = bind_sum v (\<lambda>x. case x of None \<Rightarrow> Inl TypeError | Some j \<Rightarrow> jprop j k)"

definition qdot :: "js_value \<Rightarrow> string \<Rightarrow> js_value" where
  "qdot v k = bind_sum v (\<lambda>x. case x of None \<Rightarrow> Inr None | Some JNull \<Rightarrow> Inr None | Some j \<Rightarrow> jprop j k)"

text \<open>\<open>===\<close>: two objects that were read from different places are not the same.\<close>

definition same :: "js_value \<Rightarrow> js_value \<Rightarrow> js_error + bool" where
  "same v w = bind_sum v (\<lambda>a. bind_sum w (\<lambda>b. Inr (a = b \<and>
     (case a of Some (JObj _) \<Rightarrow> False | Some (JArr _) \<Rightarrow> False | _ \<Rightarrow> True))))"

definition both :: "js_error + bool \<Rightarrow> js_error + bool \<Rightarrow> js_error + bool" where
  "both p q = bind_sum p (\<lambda>b. if b then q else Inr False)"

definition either :: "js_error + bool \<Rightarrow> js_error + bool \<Rightarrow> js_error + bool" where
  "either p q = bind_sum p (\<lambda>b. if b then Inr True else q)"

fun found :: "(js_value \<Rightarrow> js_error + bool) \<Rightarrow> json list \<Rightarrow> js_error + bool" where
  "found p [] = Inr False"
| "found p (x # xs) = either (p (Inr (Some x))) (found p xs)"

text \<open>Whether \<open>v.find(p)\<close> and \<open>v?.find(p)\<close> find something.\<close>

definition finds :: "js_value \<Rightarrow> (js_value \<Rightarrow> js_error + bool) \<Rightarrow> js_error + bool" where
  "finds v p = bind_sum v (\<lambda>x. case x of Some (JArr xs) \<Rightarrow> found p xs | _ \<Rightarrow> Inl TypeError)"

definition qfinds :: "js_value \<Rightarrow> (js_value \<Rightarrow> js_error + bool) \<Rightarrow> js_error + bool" where
  "qfinds v p = bind_sum v (\<lambda>x. case x of None \<Rightarrow> Inr False | Some JNull \<Rightarrow> Inr False | Some (JArr xs) \<Rightarrow> found p xs
     | _ \<Rightarrow> Inl TypeError)"

definition js_text :: "string \<Rightarrow> js_value" where
  "js_text s = Inr (Some (JStr s))"

definition mo :: "map_object \<Rightarrow> js_value" where
  "mo x = Inr (Some (mo_json x))"

definition mo_meta :: "map_object \<Rightarrow> string \<Rightarrow> js_value" where
  "mo_meta x k = dot (dot (mo x) ''metadata'') k"

definition spec_of :: "map_object \<Rightarrow> js_value" where
  "spec_of x = dot (mo x) ''spec''"

section \<open>Relations\<close>

text \<open>A missing or null selector, and an object without labels, match nothing.\<close>

definition entries_of :: "json \<Rightarrow> (string \<times> json) list" where
  "entries_of j = (case j of JObj fs \<Rightarrow> fs | _ \<Rightarrow> [])"

definition matchesLabels :: "js_value \<Rightarrow> map_object \<Rightarrow> js_error + bool" where
  "matchesLabels matchLabels item =
    bind_sum matchLabels (\<lambda>m. if \<not> jtruthy m then Inr False
      else bind_sum (mo_meta item ''labels'') (\<lambda>ls. if \<not> jtruthy ls then Inr False
        else Inr (list_all (\<lambda>(k, v). jprop (the ls) k = Inr (Some v)) (entries_of (the m)))))"

definition makeKubeSourceId :: "kube_class \<Rightarrow> string" where
  "makeKubeSourceId c = (case apiGroupName c of
     Some g \<Rightarrow> if g \<noteq> [] then g @ ''/'' @ cls_kind c else cls_kind c | None \<Rightarrow> cls_kind c)"

definition kube_object_of :: "map_node \<Rightarrow> js_error + map_object" where
  "kube_object_of n = (case mn_object n of None \<Rightarrow> Inl TypeError | Some x \<Rightarrow> Inr x)"

definition hasSameNamespace :: "map_object \<Rightarrow> map_object \<Rightarrow> js_error + bool" where
  "hasSameNamespace a b =
    bind_sum (qdot (dot (mo a) ''metadata'') ''namespace'') (\<lambda>n. if \<not> jtruthy n then Inr True
      else bind_sum (qdot (dot (mo b) ''metadata'') ''namespace'') (\<lambda>m. if \<not> jtruthy m then Inr True else Inr (n = m)))"

definition makeRelation :: "kube_class \<Rightarrow> kube_class \<Rightarrow> (map_object \<Rightarrow> map_object \<Rightarrow> js_error + bool) \<Rightarrow> relation" where
  "makeRelation from to selector = \<lparr>fromSource = makeKubeSourceId from, toSource = Some (makeKubeSourceId to),
     holds = (\<lambda>f t. bind_sum (kube_object_of f) (\<lambda>a. bind_sum (kube_object_of t) (\<lambda>b.
        bind_sum (hasSameNamespace a b) (\<lambda>ns. if mo_cluster a = mo_cluster b \<and> ns then selector a b else Inr False))))\<rparr>"

definition owned_by :: "map_node \<Rightarrow> map_node \<Rightarrow> js_error + bool" where
  "owned_by f t = bind_sum (kube_object_of f) (\<lambda>a. qfinds (mo_meta a ''ownerReferences'') (\<lambda>owner.
     same (dot owner ''uid'') (case mn_object t of None \<Rightarrow> Inr None | Some b \<Rightarrow> qdot (dot (mo b) ''metadata'') ''uid'')))"

definition makeOwnerRelation :: "kube_class \<Rightarrow> relation" where
  "makeOwnerRelation c = \<lparr>fromSource = makeKubeSourceId c, toSource = None, holds = owned_by\<rparr>"

definition makeOwnerRelationReversed :: "kube_class \<Rightarrow> relation" where
  "makeOwnerRelationReversed c = \<lparr>fromSource = makeKubeSourceId c, toSource = None, holds = (\<lambda>f t. owned_by t f)\<rparr>"

text \<open>The classes that relations name.\<close>

definition builtin :: "string \<Rightarrow> string \<Rightarrow> kube_class" where
  "builtin version kind = \<lparr>cls_kind = kind, cls_apiName = [], cls_apiVersion = Version version, cls_isNamespaced = True, cls_isScalable = False\<rparr>"

definition Pod :: kube_class where "Pod = builtin ''v1'' ''Pod''"
definition Service :: kube_class where "Service = builtin ''v1'' ''Service''"
definition ConfigMap :: kube_class where "ConfigMap = builtin ''v1'' ''ConfigMap''"
definition Secret :: kube_class where "Secret = builtin ''v1'' ''Secret''"
definition ServiceAccount :: kube_class where "ServiceAccount = builtin ''v1'' ''ServiceAccount''"
definition Job :: kube_class where "Job = builtin ''batch/v1'' ''Job''"
definition Deployment :: kube_class where "Deployment = builtin ''apps/v1'' ''Deployment''"
definition StatefulSet :: kube_class where "StatefulSet = builtin ''apps/v1'' ''StatefulSet''"
definition HPA :: kube_class where "HPA = builtin ''autoscaling/v2'' ''HorizontalPodAutoscaler''"
definition RoleBinding :: kube_class where "RoleBinding = builtin ''rbac.authorization.k8s.io/v1'' ''RoleBinding''"
definition Role :: kube_class where "Role = builtin ''rbac.authorization.k8s.io/v1'' ''Role''"
definition gateway_class :: "string \<Rightarrow> kube_class" where
  "gateway_class kind = (builtin [] kind)\<lparr>cls_apiVersion := Versions [''gateway.networking.k8s.io/v1'', ''gateway.networking.k8s.io/v1beta1'']\<rparr>"

text \<open>The name of the object and the names that a specification refers to.\<close>

definition mo_name :: "map_object \<Rightarrow> js_value" where
  "mo_name x = mo_meta x ''name''"

definition uses_volume :: "string \<Rightarrow> string \<Rightarrow> js_value \<Rightarrow> map_object \<Rightarrow> js_error + bool" where
  "uses_volume field key volumes x = qfinds volumes (\<lambda>v. same (qdot (dot v field) key) (mo_name x))"

definition env_uses_secret :: "js_value \<Rightarrow> map_object \<Rightarrow> js_error + bool" where
  "env_uses_secret containers secret = qfinds containers (\<lambda>c. qfinds (dot c ''env'') (\<lambda>e.
     same (mo_name secret) (qdot (qdot (dot e ''valueFrom'') ''secretKeyRef'') ''name'')))"

definition template_spec :: "map_object \<Rightarrow> js_value" where
  "template_spec job = dot (dot (spec_of job) ''template'') ''spec''"

definition configMapUsedInPods :: relation where
  "configMapUsedInPods = makeRelation Pod ConfigMap (\<lambda>pod cm. uses_volume ''configMap'' ''name'' (dot (spec_of pod) ''volumes'') cm)"

definition configMapUsedInJobs :: relation where
  "configMapUsedInJobs = makeRelation Job ConfigMap (\<lambda>job cm.
     qfinds (dot (template_spec job) ''volumes'') (\<lambda>v. same (qdot (qdot v ''configMap'') ''name'') (mo_name cm)))"

definition secretsUsedInPods :: relation where
  "secretsUsedInPods = makeRelation Pod Secret (\<lambda>pod secret.
     either (env_uses_secret (dot (spec_of pod) ''containers'') secret)
       (qfinds (dot (spec_of pod) ''volumes'') (\<lambda>v. qfinds (qdot (dot v ''projected'') ''sources'') (\<lambda>s.
          same (qdot (dot s ''secret'') ''name'') (mo_name secret)))))"

definition secretsUsedInJobs :: relation where
  "secretsUsedInJobs = makeRelation Job Secret (\<lambda>job secret. env_uses_secret (dot (template_spec job) ''containers'') secret)"

definition scale_target :: "kube_class \<Rightarrow> map_object \<Rightarrow> map_object \<Rightarrow> js_error + bool" where
  "scale_target c hpa x =
    (let ref = dot (spec_of hpa) ''scaleTargetRef''
     in both (same (qdot ref ''apiVersion'') (js_text (first_api_version c)))
          (both (same (qdot ref ''kind'') (js_text (cls_kind c))) (same (qdot ref ''name'') (mo_name x))))"

definition hpaToDeployment :: relation where
  "hpaToDeployment = makeRelation HPA Deployment (scale_target Deployment)"

definition hpaToStatefulSet :: relation where
  "hpaToStatefulSet = makeRelation HPA StatefulSet (scale_target StatefulSet)"

definition webhook_service :: "map_object \<Rightarrow> map_object \<Rightarrow> js_error + bool" where
  "webhook_service wc service = finds (dot (mo wc) ''webhooks'') (\<lambda>w.
     same (mo_name service) (qdot (dot (dot w ''clientConfig'') ''service'') ''name''))"

definition vwcToService :: relation where
  "vwcToService = makeRelation (builtin ''admissionregistration.k8s.io/v1'' ''ValidatingWebhookConfiguration'') Service webhook_service"

definition mwcToService :: relation where
  "mwcToService = makeRelation (builtin ''admissionregistration.k8s.io/v1'' ''MutatingWebhookConfiguration'') Service webhook_service"

definition serviceToPods :: relation where
  "serviceToPods = makeRelation Service Pod (\<lambda>service pod. matchesLabels (dot (spec_of service) ''selector'') pod)"

definition endpointsToServices :: relation where
  "endpointsToServices = makeRelation (builtin ''v1'' ''Endpoints'') Service (\<lambda>e s. same (mo_name e) (mo_name s))"

text \<open>\<open>ownerReferences?.find(t => t.kind === 'Service')?.name\<close>\<close>

fun first_service_name :: "json list \<Rightarrow> js_value" where
  "first_service_name [] = Inr None"
| "first_service_name (x # xs) = bind_sum (same (dot (Inr (Some x)) ''kind'') (js_text ''Service''))
     (\<lambda>b. if b then qdot (Inr (Some x)) ''name'' else first_service_name xs)"

definition getOwnerServiceName :: "map_object \<Rightarrow> js_value" where
  "getOwnerServiceName x = bind_sum (mo_meta x ''ownerReferences'') (\<lambda>v. case v of
     None \<Rightarrow> Inr None | Some JNull \<Rightarrow> Inr None | Some (JArr xs) \<Rightarrow> first_service_name xs | _ \<Rightarrow> Inl TypeError)"

definition endpointSlicesToServices :: relation where
  "endpointSlicesToServices = makeRelation (builtin ''discovery.k8s.io/v1'' ''EndpointSlice'') Service
     (\<lambda>e s. same (getOwnerServiceName e) (mo_name s))"

definition Ingress :: kube_class where
  "Ingress = (builtin [] ''Ingress'')\<lparr>cls_apiVersion := Versions [''networking.k8s.io/v1'', ''extensions/v1beta1'']\<rparr>"

definition ingressToService :: relation where
  "ingressToService = makeRelation Ingress Service (\<lambda>ingress service.
     qfinds (qdot (dot (mo ingress) ''spec'') ''rules'') (\<lambda>rule. qfinds (qdot (dot rule ''http'') ''paths'') (\<lambda>path.
        same (mo_name service) (qdot (qdot (qdot path ''backend'') ''service'') ''name''))))"

definition ingressToSecret :: relation where
  "ingressToSecret = makeRelation Ingress Secret (\<lambda>ingress secret.
     qfinds (dot (spec_of ingress) ''tls'') (\<lambda>tls. same (dot tls ''secretName'') (mo_name secret)))"

text \<open>\<open>matchLabels ?? {}\<close>\<close>

definition or_empty :: "js_value \<Rightarrow> js_value" where
  "or_empty v = bind_sum v (\<lambda>x. case x of None \<Rightarrow> Inr (Some (JObj [])) | Some JNull \<Rightarrow> Inr (Some (JObj [])) | Some j \<Rightarrow> Inr (Some j))"

definition networkPolicyToPod :: relation where
  "networkPolicyToPod = makeRelation (builtin ''networking.k8s.io/v1'' ''NetworkPolicy'') Pod
     (\<lambda>np pod. matchesLabels (or_empty (dot (dot (spec_of np) ''podSelector'') ''matchLabels'')) pod)"

definition roleBindingsToRole :: relation where
  "roleBindingsToRole = makeRelation RoleBinding Role (\<lambda>binding role. same (mo_name role) (dot (dot (mo binding) ''roleRef'') ''name''))"

definition roleBindingToServiceAccount :: relation where
  "roleBindingToServiceAccount = makeRelation RoleBinding ServiceAccount (\<lambda>binding sa.
     finds (dot (mo binding) ''subjects'') (\<lambda>subject.
        both (same (dot subject ''kind'') (js_text ''ServiceAccount'')) (same (mo_name sa) (dot subject ''name''))))"

definition runs_as :: "map_object \<Rightarrow> map_object \<Rightarrow> js_error + bool" where
  "runs_as sa workload =
    both (same (bind_sum (qdot (qdot (qdot (dot (mo workload) ''spec'') ''template'') ''spec'') ''serviceAccountName'')
            (\<lambda>n. case n of None \<Rightarrow> js_text ''default'' | Some JNull \<Rightarrow> js_text ''default'' | Some j \<Rightarrow> Inr (Some j))) (mo_name sa))
      (same (mo_meta workload ''namespace'') (mo_meta sa ''namespace''))"

definition serviceAccountToDeployments :: relation where
  "serviceAccountToDeployments = makeRelation ServiceAccount Deployment runs_as"

definition serviceAccountToDaemonSets :: relation where
  "serviceAccountToDaemonSets = makeRelation ServiceAccount (builtin ''apps/v1'' ''DaemonSet'') runs_as"

definition pvcToPods :: relation where
  "pvcToPods = makeRelation (builtin ''v1'' ''PersistentVolumeClaim'') Pod
     (\<lambda>pvc pod. uses_volume ''persistentVolumeClaim'' ''claimName'' (dot (spec_of pod) ''volumes'') pvc)"

definition names_owner :: "map_object \<Rightarrow> map_object \<Rightarrow> js_error + bool" where
  "names_owner job owner = qfinds (mo_meta job ''ownerReferences'') (\<lambda>ref. same (dot ref ''uid'') (mo_meta owner ''uid''))"

definition jobToCronJob :: relation where
  "jobToCronJob = makeRelation Job (builtin ''batch/v1'' ''CronJob'') names_owner"

definition jobToJobSet :: relation where
  "jobToJobSet = makeRelation Job (builtin ''jobset.x-k8s.io/v1alpha2'' ''JobSet'') names_owner"

definition gatewayToGatewayClass :: relation where
  "gatewayToGatewayClass = makeRelation (gateway_class ''Gateway'') (gateway_class ''GatewayClass'')
     (\<lambda>g c. same (qdot (dot (mo g) ''spec'') ''gatewayClassName'') (mo_name c))"

definition httpRouteToGateway :: relation where
  "httpRouteToGateway = makeRelation (gateway_class ''HTTPRoute'') (gateway_class ''Gateway'')
     (\<lambda>r g. qfinds (dot (spec_of r) ''parentRefs'') (\<lambda>ref. same (dot ref ''name'') (mo_name g)))"

definition httpRouteToService :: relation where
  "httpRouteToService = makeRelation (gateway_class ''HTTPRoute'') Service
     (\<lambda>r s. qfinds (dot (spec_of r) ''rules'') (\<lambda>rule. qfinds (dot rule ''backendRefs'') (\<lambda>b. same (dot b ''name'') (mo_name s))))"

definition policy_target :: "map_object \<Rightarrow> map_object \<Rightarrow> js_error + bool" where
  "policy_target policy service =
    (let ref = dot (spec_of policy) ''targetRef''
     in both (same (qdot ref ''name'') (mo_name service)) (same (qdot ref ''kind'') (js_text ''Service'')))"

definition backendTLSPolicyToService :: relation where
  "backendTLSPolicyToService = makeRelation ((builtin [] ''BackendTLSPolicy'')\<lparr>cls_apiVersion :=
      Versions [''gateway.networking.k8s.io/v1'', ''gateway.networking.k8s.io/v1alpha3'']\<rparr>) Service policy_target"

definition backendTrafficPolicyToService :: relation where
  "backendTrafficPolicyToService = makeRelation ((builtin [] ''XBackendTrafficPolicy'')\<lparr>cls_apiVersion :=
      Versions [''gateway.networking.x-k8s.io/v1alpha1'']\<rparr>) Service policy_target"

definition static_relations :: "relation list" where
  "static_relations = [configMapUsedInPods, configMapUsedInJobs, secretsUsedInPods, secretsUsedInJobs,
     hpaToDeployment, hpaToStatefulSet, vwcToService, mwcToService, serviceToPods, endpointsToServices,
     endpointSlicesToServices, ingressToService, ingressToSecret, networkPolicyToPod, roleBindingsToRole,
     roleBindingToServiceAccount, serviceAccountToDeployments, serviceAccountToDaemonSets, pvcToPods,
     makeOwnerRelation Pod, makeOwnerRelation (builtin ''apps/v1'' ''ReplicaSet''), jobToCronJob, jobToJobSet,
     gatewayToGatewayClass, httpRouteToGateway, httpRouteToService, backendTLSPolicyToService,
     backendTrafficPolicyToService]"

text \<open>\<open>useGetAllRelations\<close>\<close>

definition all_relations :: "crd_spec list \<Rightarrow> relation list" where
  "all_relations crds = static_relations @ map (\<lambda>d. makeOwnerRelationReversed (makeCRClass d)) crds"

section \<open>Sources of custom resources\<close>

definition BUILTIN_CRD_KINDS :: "string list" where
  "BUILTIN_CRD_KINDS = [''VerticalPodAutoscaler'', ''Gateway'', ''GatewayClass'', ''HTTPRoute'', ''GRPCRoute'',
     ''ReferenceGrant'', ''BackendTLSPolicy'', ''BackendTrafficPolicy'', ''XBackendTrafficPolicy'']"

definition group_source :: "bool \<Rightarrow> crd_spec \<Rightarrow> (string, map_source list) dict \<Rightarrow> (string, map_source list) dict" where
  "group_source vpaEnabled d groups =
    (if crd_kind d \<in> set BUILTIN_CRD_KINDS \<and> (crd_kind d \<noteq> ''VerticalPodAutoscaler'' \<or> vpaEnabled) then groups
     else let s = Source (''crd-'' @ makeKubeSourceId (makeCRClass d)) None;
              g = fst (getMainAPIGroup d)
          in dict_set g ((case dict_get groups g of None \<Rightarrow> [] | Some ss \<Rightarrow> ss) @ [s]) groups)"

definition generateCRSources :: "crd_spec list \<Rightarrow> bool \<Rightarrow> map_source list" where
  "generateCRSources crds vpaEnabled =
    map (\<lambda>(g, ss). Source_Group (''crd-'' @ g) None ss) (fold (group_source vpaEnabled) crds [])"

section \<open>Helpers\<close>

lemma bind_sum_Inr [simp]: "bind_sum (Inr x) f = f x"
  by (simp add: bind_sum_def)

lemma bind_sum_Inl [simp]: "bind_sum (Inl e) f = Inl e"
  by (simp add: bind_sum_def)

lemma bind_sum_eq_Inr: "bind_sum m f = Inr y \<longleftrightarrow> (\<exists>x. m = Inr x \<and> f x = Inr y)"
  by (cases m) simp_all

text \<open>Removing duplicates keeps one element of every key.\<close>

definition firsts :: "('a \<Rightarrow> string) \<Rightarrow> 'a list \<Rightarrow> (string, 'a) dict" where
  "firsts f xs = fold (\<lambda>x m. if dict_has m (f x) then m else dict_set (f x) x m) xs []"

lemma firsts_snoc: "firsts f (xs @ [x]) = (if dict_has (firsts f xs) (f x) then firsts f xs else dict_set (f x) x (firsts f xs))"
  by (simp add: firsts_def)

lemma firsts_Nil: "firsts f [] = []"
  by (simp add: firsts_def)

lemma firsts_wf: "dict_wf (firsts f xs)"
  by (induction xs rule: rev_induct) (simp_all add: firsts_snoc firsts_Nil dict_wf_def [of "[]"])

lemma firsts_get: "dict_get (firsts f xs) k = Some v \<Longrightarrow> f v = k \<and> v \<in> set xs"
  by (induction xs rule: rev_induct) (auto simp: firsts_snoc firsts_Nil dict_get_def [of "[]"] split: if_splits)

lemma firsts_has: "dict_has (firsts f xs) k \<longleftrightarrow> k \<in> f ` set xs"
  by (induction xs rule: rev_induct) (auto simp: firsts_snoc firsts_Nil dict_has_def dict_get_def [of "[]"])

lemma dedup_by_spec:
  "distinct (map f (dedup_by f xs))" "set (dedup_by f xs) \<subseteq> set xs" "f ` set (dedup_by f xs) = f ` set xs"
proof -
  have d: "dedup_by f xs = dict_values (firsts f xs)" by (simp add: dedup_by_def firsts_def)
  have in_m: "v \<in> set (dedup_by f xs) \<longleftrightarrow> (\<exists>k. dict_get (firsts f xs) k = Some v)" for v
    unfolding d by (rule dict_in_values_iff [OF firsts_wf])
  have "f (snd p) = fst p" if "p \<in> set (firsts f xs)" for p
  proof -
    from that have "dict_get (firsts f xs) (fst p) = Some (snd p)" by (simp add: dict_get_iff [OF firsts_wf])
    then show ?thesis by (rule conjunct1 [OF firsts_get])
  qed
  then have "map f (dedup_by f xs) = map fst (firsts f xs)"
    by (simp add: d dict_values_def)
  then show "distinct (map f (dedup_by f xs))" using firsts_wf [of f xs] by (simp add: dict_wf_def)
  show sub: "set (dedup_by f xs) \<subseteq> set xs" 
  proof
    fix v assume "v \<in> set (dedup_by f xs)"
    then obtain k where "dict_get (firsts f xs) k = Some v" unfolding in_m by (rule exE)
    then show "v \<in> set xs" by (rule conjunct2 [OF firsts_get])
  qed
  show "f ` set (dedup_by f xs) = f ` set xs"
  proof
    show "f ` set xs \<subseteq> f ` set (dedup_by f xs)"
    proof
      fix k assume "k \<in> f ` set xs"
      then obtain v where v: "dict_get (firsts f xs) k = Some v" unfolding firsts_has [symmetric] dict_has_def by auto
      then have "k = f v" by (rule conjunct1 [OF firsts_get, symmetric])
      moreover have "v \<in> set (dedup_by f xs)" unfolding in_m using v by (rule exI)
      ultimately show "k \<in> f ` set (dedup_by f xs)" by (rule image_eqI)
    qed
  next
    show "f ` set (dedup_by f xs) \<subseteq> f ` set xs" by (rule image_mono [OF sub])
  qed
qed

text \<open>An element is the first of its key in a list.\<close>

definition first_of :: "('a \<Rightarrow> string) \<Rightarrow> 'a list \<Rightarrow> 'a \<Rightarrow> bool" where
  "first_of f xs x \<longleftrightarrow> List.find (\<lambda>y. f y = f x) xs = Some x"

lemma find_append:
  "List.find P (xs @ ys) = (case List.find P xs of None \<Rightarrow> List.find P ys | Some x \<Rightarrow> Some x)"
  by (induction xs) simp_all

lemma found_element: "List.find P xs = Some x \<Longrightarrow> P x \<and> x \<in> set xs"
  by (auto simp: find_Some_iff)

lemma firsts_find: "dict_get (firsts f xs) k = List.find (\<lambda>y. f y = k) xs"
proof (induction xs rule: rev_induct)
  case Nil
  show ?case by (simp add: firsts_Nil dict_get_def)
next
  case (snoc x xs)
  then show ?case
    by (auto simp: firsts_snoc find_append dict_has_def split: option.split)
qed

lemma in_dedup_by: "x \<in> set (dedup_by f xs) \<longleftrightarrow> first_of f xs x"
proof -
  have "dedup_by f xs = dict_values (firsts f xs)" by (simp add: dedup_by_def firsts_def)
  then have "x \<in> set (dedup_by f xs) \<longleftrightarrow> (\<exists>k. List.find (\<lambda>y. f y = k) xs = Some x)"
    using dict_in_values_iff [OF firsts_wf [of f xs]] by (simp add: firsts_find)
  also have "\<dots> \<longleftrightarrow> first_of f xs x"
    unfolding first_of_def by (auto dest: found_element)
  finally show ?thesis .
qed

lemma find_dedup_by: "List.find (\<lambda>y. f y = k) (dedup_by f xs) = List.find (\<lambda>y. f y = k) xs"
proof (cases "List.find (\<lambda>y. f y = k) xs")
  case None
  then have "k \<notin> f ` set xs" by (auto simp: find_None_iff)
  then have "k \<notin> f ` set (dedup_by f xs)" unfolding dedup_by_spec(3) .
  then have "List.find (\<lambda>y. f y = k) (dedup_by f xs) = None" by (auto simp: find_None_iff)
  with None show ?thesis by simp
next
  case (Some x)
  then have x: "x \<in> set (dedup_by f xs)" "f x = k"
    using found_element [OF Some] by (simp_all add: in_dedup_by first_of_def)
  then have "List.find (\<lambda>y. f y = k) (dedup_by f xs) \<noteq> None" by (auto simp: find_None_iff)
  then obtain y where y: "List.find (\<lambda>y. f y = k) (dedup_by f xs) = Some y" by blast
  have "inj_on f (set (dedup_by f xs))" using dedup_by_spec(1) [of f xs] by (simp add: distinct_map)
  then have "y = x" using x found_element [OF y] by (simp add: inj_on_def)
  with y Some show ?thesis by simp
qed

lemma find_concat_dedup:
  "List.find (\<lambda>y. f y = k) (concat (map (\<lambda>i. dedup_by f (g i)) ids)) = List.find (\<lambda>y. f y = k) (concat (map g ids))"
proof (induction ids)
  case (Cons i ids)
  then show ?case by (simp only: list.map concat.simps find_append find_dedup_by)
qed simp

lemma collect_Inr:
  "collect f xs = Inr ys \<Longrightarrow> (\<forall>x \<in> set xs. \<exists>zs. f x = Inr zs) \<and> (\<forall>y. y \<in> set ys \<longleftrightarrow> (\<exists>x \<in> set xs. \<exists>zs. f x = Inr zs \<and> y \<in> set zs))"
  by (induction xs arbitrary: ys) (fastforce simp: bind_sum_eq_Inr)+

lemma collect_Inl: "x \<in> set xs \<Longrightarrow> f x = Inl e \<Longrightarrow> \<exists>e. collect f xs = Inl e"
  by (induction xs) (auto simp: bind_sum_def split: sum.split)

lemma edge_if_holds:
  "bind_sum h (\<lambda>b. Inr (if b then [x] else [])) = Inr ys \<longleftrightarrow> (h = Inr True \<and> ys = [x]) \<or> (h = Inr False \<and> ys = [])"
  by (cases h) auto

lemma relation_edges_Inr:
  assumes "relation_edges l r = Inr es"
  shows "e \<in> set es \<longleftrightarrow> (\<exists>f \<in> set (from_nodes l r). \<exists>t \<in> set (to_nodes l r). holds r f t = Inr True \<and> e = node_edge f t)"
proof -
  let ?inner = "\<lambda>f. collect (\<lambda>t. bind_sum (holds r f t) (\<lambda>b. Inr (if b then [node_edge f t] else []))) (to_nodes l r)"
  note outer = collect_Inr [OF assms [unfolded relation_edges_def]]
  have inner: "e \<in> set zs \<longleftrightarrow> (\<exists>t \<in> set (to_nodes l r). holds r f t = Inr True \<and> e = node_edge f t)" if "?inner f = Inr zs" for f zs
  proof -
    from collect_Inr [OF that, THEN conjunct2] have "e \<in> set zs \<longleftrightarrow> (\<exists>t \<in> set (to_nodes l r). \<exists>ys.
      ((holds r f t = Inr True \<and> ys = [node_edge f t]) \<or> (holds r f t = Inr False \<and> ys = [])) \<and> e \<in> set ys)"
      unfolding edge_if_holds by blast
    moreover have "(\<exists>ys. ((A \<and> ys = [x]) \<or> (B \<and> ys = [])) \<and> e \<in> set ys) \<longleftrightarrow> A \<and> e = x" for A B x by auto
    ultimately show ?thesis by simp
  qed
  from outer have "e \<in> set es \<longleftrightarrow> (\<exists>f \<in> set (from_nodes l r). \<exists>zs. ?inner f = Inr zs \<and> e \<in> set zs)" by blast
  also have "\<dots> \<longleftrightarrow> (\<exists>f \<in> set (from_nodes l r). \<exists>t \<in> set (to_nodes l r). holds r f t = Inr True \<and> e = node_edge f t)"
  proof (rule bex_cong [OF refl])
    fix f assume "f \<in> set (from_nodes l r)"
    with outer obtain zs where zs: "?inner f = Inr zs" by blast
    show "(\<exists>zs. ?inner f = Inr zs \<and> e \<in> set zs) \<longleftrightarrow> (\<exists>t \<in> set (to_nodes l r). holds r f t = Inr True \<and> e = node_edge f t)"
      unfolding inner [OF zs, symmetric] by (simp add: zs)
  qed
  finally show ?thesis .
qed

section \<open>Edges\<close>

lemma map_data_Inr:
  assumes "map_data sources sel sourceData relations = Inr (ns, es)"
  obtains rs where "collect (relation_edges (load_sources sources sel sourceData)) (filter (relation_enabled sel) relations) = Inr rs"
    and "es = dedup_by e_id (all_edges (load_sources sources sel sourceData) @ rs)"
    and "ns = all_nodes (load_sources sources sel sourceData)"
  using assms by (auto simp: map_data_def Let_def bind_sum_eq_Inr)

lemma related_edge_iff:
  assumes "collect (relation_edges l) (filter (relation_enabled sel) relations) = Inr rs"
  shows "e \<in> set rs \<longleftrightarrow> (\<exists>r \<in> set relations. relation_enabled sel r \<and>
    (\<exists>f \<in> set (from_nodes l r). \<exists>t \<in> set (to_nodes l r). holds r f t = Inr True \<and> e = node_edge f t))"
proof -
  note c = collect_Inr [OF assms]
  show ?thesis
  proof
    assume "e \<in> set rs"
    with c obtain r zs where "r \<in> set relations" "relation_enabled sel r" "relation_edges l r = Inr zs" "e \<in> set zs" by auto
    with relation_edges_Inr show "\<exists>r \<in> set relations. relation_enabled sel r \<and>
      (\<exists>f \<in> set (from_nodes l r). \<exists>t \<in> set (to_nodes l r). holds r f t = Inr True \<and> e = node_edge f t)" by blast
  next
    assume "\<exists>r \<in> set relations. relation_enabled sel r \<and>
      (\<exists>f \<in> set (from_nodes l r). \<exists>t \<in> set (to_nodes l r). holds r f t = Inr True \<and> e = node_edge f t)"
    then obtain r where r: "r \<in> set relations" "relation_enabled sel r"
      "\<exists>f \<in> set (from_nodes l r). \<exists>t \<in> set (to_nodes l r). holds r f t = Inr True \<and> e = node_edge f t" by blast
    with c obtain zs where "relation_edges l r = Inr zs" by auto
    moreover from relation_edges_Inr [OF this] r(3) have "e \<in> set zs" by blast
    ultimately show "e \<in> set rs" using c r(1,2) by auto
  qed
qed

subsection \<open>What the selected sources give\<close>

fun leaves :: "map_source \<Rightarrow> string list" where
  "leaves (Source_Group i b ss) = concat (map leaves ss)"
| "leaves (Source i b) = [i]"

lemma flat_leaves: "map src_id (getFlatSources ss) = concat (map leaves ss)"
  by (induction ss rule: getFlatSources.induct) simp_all

definition shown_sources :: "map_source list \<Rightarrow> string list \<Rightarrow> string list" where
  "shown_sources sources sel = filter (\<lambda>i. i \<in> set sel) (concat (map leaves sources))"

definition given_nodes :: "(string, source_data option) dict \<Rightarrow> string \<Rightarrow> map_node list" where
  "given_nodes sourceData i = (case dict_get sourceData i of
     Some (Some d) \<Rightarrow> (case sd_nodes d of Some ns \<Rightarrow> ns | None \<Rightarrow> []) | _ \<Rightarrow> [])"

definition given_edges :: "(string, source_data option) dict \<Rightarrow> string \<Rightarrow> edge list" where
  "given_edges sourceData i = (case dict_get sourceData i of
     Some (Some d) \<Rightarrow> (case sd_edges d of Some es \<Rightarrow> es | None \<Rightarrow> []) | _ \<Rightarrow> [])"

lemma selected_shown: "selectedSourceIds sources sel = shown_sources sources sel"
proof -
  have "map src_id (filter (\<lambda>s. src_id s \<in> set sel) ss) = filter (\<lambda>i. i \<in> set sel) (map src_id ss)" for ss
    by (induction ss) simp_all
  then show ?thesis by (simp add: selectedSourceIds_def shown_sources_def flat_leaves)
qed

lemma dedup_by_Nil [simp]: "dedup_by f [] = []"
  by (simp add: dedup_by_def dict_values_def)

definition nodes_at :: "loaded \<Rightarrow> string \<Rightarrow> map_node set" where
  "nodes_at l j = set (case dict_get (nodesPerSource l) j of None \<Rightarrow> [] | Some ns \<Rightarrow> ns)"

definition gives_nodes :: "(string, source_data option) dict \<Rightarrow> string \<Rightarrow> bool" where
  "gives_nodes sd i \<longleftrightarrow> (\<exists>d ns. dict_get sd i = Some (Some d) \<and> sd_nodes d = Some ns)"

lemma load_source_gives:
  "all_nodes (load_source sd i l) = all_nodes l @ dedup_by mn_id (given_nodes sd i)"
  "all_edges (load_source sd i l) = all_edges l @ dedup_by e_id (given_edges sd i)"
  "nodes_at (load_source sd i l) j =
     (if j = i \<and> gives_nodes sd i then set (dedup_by mn_id (given_nodes sd i)) else nodes_at l j)"
  by (auto simp: load_source_def given_nodes_def given_edges_def nodes_at_def gives_nodes_def Let_def split: option.split)

lemma load_fold_gives:
  "all_nodes (fold (load_source sd) ids l) = all_nodes l @ concat (map (\<lambda>i. dedup_by mn_id (given_nodes sd i)) ids)"
  "all_edges (fold (load_source sd) ids l) = all_edges l @ concat (map (\<lambda>i. dedup_by e_id (given_edges sd i)) ids)"
  "nodes_at (fold (load_source sd) ids l) j =
     (if j \<in> set ids \<and> gives_nodes sd j then set (dedup_by mn_id (given_nodes sd j)) else nodes_at l j)"
proof -
  show "all_nodes (fold (load_source sd) ids l) = all_nodes l @ concat (map (\<lambda>i. dedup_by mn_id (given_nodes sd i)) ids)"
    by (induction ids arbitrary: l) (simp_all add: load_source_gives(1))
  show "all_edges (fold (load_source sd) ids l) = all_edges l @ concat (map (\<lambda>i. dedup_by e_id (given_edges sd i)) ids)"
    by (induction ids arbitrary: l) (simp_all add: load_source_gives(2))
  show "nodes_at (fold (load_source sd) ids l) j =
     (if j \<in> set ids \<and> gives_nodes sd j then set (dedup_by mn_id (given_nodes sd j)) else nodes_at l j)"
    by (induction ids arbitrary: l) (auto simp: load_source_gives(3))
qed

text \<open>A node of a source, and a node of the map: of several with one id the first is kept.\<close>

definition node_of :: "(string, source_data option) dict \<Rightarrow> map_source list \<Rightarrow> string list \<Rightarrow> string \<Rightarrow> map_node \<Rightarrow> bool" where
  "node_of sourceData sources sel i n \<longleftrightarrow>
     i \<in> set (shown_sources sources sel) \<and> first_of mn_id (given_nodes sourceData i) n"

definition map_node_of :: "(string, source_data option) dict \<Rightarrow> map_source list \<Rightarrow> string list \<Rightarrow> map_node \<Rightarrow> bool" where
  "map_node_of sourceData sources sel n \<longleftrightarrow>
     first_of mn_id (concat (map (given_nodes sourceData) (shown_sources sources sel))) n"

lemma loaded_nodes:
  "nodes_at (load_sources sources sel sd) i = {n. node_of sd sources sel i n}"
  "set (all_nodes (load_sources sources sel sd)) = {n. map_node_of sd sources sel n}"
  "set (all_edges (load_sources sources sel sd)) =
     {e. first_of e_id (concat (map (given_edges sd) (shown_sources sources sel))) e}"
proof -
  let ?ids = "shown_sources sources sel" and ?l0 = "\<lparr>all_nodes = [], all_edges = [], nodesPerSource = []\<rparr>"
  let ?l = "fold (load_source sd) ?ids ?l0"
  have l: "load_sources sources sel sd =
      ?l\<lparr>all_nodes := dedup_by mn_id (all_nodes ?l), all_edges := dedup_by e_id (all_edges ?l)\<rparr>"
    by (simp add: load_sources_def Let_def selected_shown)
  have "nodes_at (load_sources sources sel sd) i = nodes_at ?l i" by (simp add: l nodes_at_def)
  also have "\<dots> = (if i \<in> set ?ids \<and> gives_nodes sd i then set (dedup_by mn_id (given_nodes sd i)) else {})"
    unfolding load_fold_gives(3) by (simp add: nodes_at_def dict_get_def)
  also have "\<dots> = {n. node_of sd sources sel i n}"
  proof (cases "gives_nodes sd i")
    case False
    then have "given_nodes sd i = []" by (auto simp: given_nodes_def gives_nodes_def split: option.split)
    with False show ?thesis by (simp add: node_of_def first_of_def)
  qed (auto simp: node_of_def in_dedup_by)
  finally show "nodes_at (load_sources sources sel sd) i = {n. node_of sd sources sel i n}" .
  show "set (all_nodes (load_sources sources sel sd)) = {n. map_node_of sd sources sel n}"
    by (auto simp: l load_fold_gives(1) in_dedup_by map_node_of_def first_of_def find_concat_dedup)
  show "set (all_edges (load_sources sources sel sd)) =
     {e. first_of e_id (concat (map (given_edges sd) (shown_sources sources sel))) e}"
    by (auto simp: l load_fold_gives(2) in_dedup_by first_of_def find_concat_dedup)
qed

lemma from_to_nodes:
  "set (from_nodes (load_sources sources sel sd) r) = {n. node_of sd sources sel (fromSource r) n}"
  "set (to_nodes (load_sources sources sel sd) r) =
     (case toSource r of Some (c # cs) \<Rightarrow> {n. node_of sd sources sel (c # cs) n} | _ \<Rightarrow> {n. map_node_of sd sources sel n})"
  using loaded_nodes(1,2) [of sources sel sd, unfolded nodes_at_def]
  by (simp_all add: from_nodes_def to_nodes_def split: option.split list.split)

text \<open>A relation draws an edge from a node of its first source to a node of its second source,
  or to any node of the map when it names no second source.\<close>

definition relates :: "(string, source_data option) dict \<Rightarrow> map_source list \<Rightarrow> string list \<Rightarrow> relation \<Rightarrow> map_node \<Rightarrow> map_node \<Rightarrow> bool" where
  "relates sourceData sources sel r f t \<longleftrightarrow> node_of sourceData sources sel (fromSource r) f \<and>
     (case toSource r of Some (c # cs) \<Rightarrow> node_of sourceData sources sel (c # cs) t
      | _ \<Rightarrow> map_node_of sourceData sources sel t) \<and> holds r f t = Inr True"

lemma relates_iff:
  "relation_enabled sel r \<and> f \<in> set (from_nodes (load_sources sources sel sd) r) \<and>
     t \<in> set (to_nodes (load_sources sources sel sd) r) \<and> holds r f t = Inr True \<longleftrightarrow> relates sd sources sel r f t"
proof -
  have "i \<in> set sel" if "node_of sd sources sel i n" for i n
    using that by (simp add: node_of_def shown_sources_def)
  then show ?thesis
    by (auto simp: relates_def from_to_nodes relation_enabled_def split: option.splits list.splits)
qed

lemma map_edges:
  assumes "map_data sources sel sd relations = Inr (ns, es)"
  obtains rs where "es = dedup_by e_id (all_edges (load_sources sources sel sd) @ rs)"
    and "set ns = {n. map_node_of sd sources sel n}" and "distinct (map mn_id ns)"
    and "\<forall>e. e \<in> set rs \<longleftrightarrow> (\<exists>r \<in> set relations. \<exists>f t. relates sd sources sel r f t \<and>
           e = \<lparr>e_id = mn_id f @ ''-'' @ mn_id t, source = mn_id f, target = mn_id t\<rparr>)"
proof -
  from assms obtain rs where rs: "collect (relation_edges (load_sources sources sel sd)) (filter (relation_enabled sel) relations) = Inr rs"
    and es: "es = dedup_by e_id (all_edges (load_sources sources sel sd) @ rs)"
    and ns: "ns = all_nodes (load_sources sources sel sd)"
    by (rule map_data_Inr)
  have "e \<in> set rs \<longleftrightarrow> (\<exists>r \<in> set relations. \<exists>f t. relates sd sources sel r f t \<and>
           e = \<lparr>e_id = mn_id f @ ''-'' @ mn_id t, source = mn_id f, target = mn_id t\<rparr>)" for e
    unfolding related_edge_iff [OF rs] relates_iff [symmetric] by (auto simp: node_edge_def)
  moreover have "distinct (map mn_id ns)"
    by (simp add: ns load_sources_def Let_def dedup_by_spec(1))
  ultimately show ?thesis using that es ns loaded_nodes(2) by blast
qed

text \<open>C19: The map shows what its sources give and its relations hold for. Its nodes are those of
  the selected sources of the tree, of several with one id the first. Every edge is one that a
  selected source gives, or goes from one node to another that some relation holds for, the
  first a node of the relation's first source and the second one of its second source (of any
  selected source, if it names none). Every edge that a selected source gives first under its
  id is drawn, every pair that is related has an edge with its id, and no edge is drawn twice.\<close>

theorem map_shows_its_relations:
  assumes "map_data sources sel sourceData relations = Inr (ns, es)"
  shows "distinct (map mn_id ns) \<and> distinct (map e_id es) \<and>
    (\<forall>n. n \<in> set ns \<longleftrightarrow>
       first_of mn_id (concat (map (given_nodes sourceData) (shown_sources sources sel))) n) \<and>
    (\<forall>e \<in> set es. (\<exists>i \<in> set (shown_sources sources sel). e \<in> set (given_edges sourceData i)) \<or>
       (\<exists>r \<in> set relations. \<exists>f t. relates sourceData sources sel r f t \<and>
          e = \<lparr>e_id = mn_id f @ ''-'' @ mn_id t, source = mn_id f, target = mn_id t\<rparr>)) \<and>
    (\<forall>e. first_of e_id (concat (map (given_edges sourceData) (shown_sources sources sel))) e \<longrightarrow> e \<in> set es) \<and>
    (\<forall>r \<in> set relations. \<forall>f t. relates sourceData sources sel r f t \<longrightarrow>
       (\<exists>e \<in> set es. e_id e = mn_id f @ ''-'' @ mn_id t))"
proof -
  let ?l = "load_sources sources sel sourceData"
  from assms obtain rs where es: "es = dedup_by e_id (all_edges ?l @ rs)"
    and ns: "set ns = {n. map_node_of sourceData sources sel n}" "distinct (map mn_id ns)"
    and rel: "\<forall>e. e \<in> set rs \<longleftrightarrow> (\<exists>r \<in> set relations. \<exists>f t. relates sourceData sources sel r f t \<and>
           e = \<lparr>e_id = mn_id f @ ''-'' @ mn_id t, source = mn_id f, target = mn_id t\<rparr>)"
    by (rule map_edges)
  note d = dedup_by_spec [of e_id "all_edges ?l @ rs", folded es]
  have given: "\<exists>i \<in> set (shown_sources sources sel). e \<in> set (given_edges sourceData i)" if "e \<in> set (all_edges ?l)" for e
  proof -
    from that have "List.find (\<lambda>y. e_id y = e_id e) (concat (map (given_edges sourceData) (shown_sources sources sel))) = Some e"
      by (simp add: loaded_nodes(3) first_of_def)
    from conjunct2 [OF found_element [OF this]] show ?thesis by auto
  qed
  have "\<exists>e \<in> set es. e_id e = mn_id f @ ''-'' @ mn_id t" if "r \<in> set relations" "relates sourceData sources sel r f t" for r f t
  proof -
    let ?e = "\<lparr>e_id = mn_id f @ ''-'' @ mn_id t, source = mn_id f, target = mn_id t\<rparr>"
    have "?e \<in> set rs" using rel that by blast
    then have "e_id ?e \<in> e_id ` set es" unfolding d(3) by (intro imageI) simp
    then show ?thesis by auto
  qed
  moreover have "e \<in> set es" if "first_of e_id (concat (map (given_edges sourceData) (shown_sources sources sel))) e" for e
  proof -
    have "e \<in> set (all_edges ?l)" using that by (simp add: loaded_nodes(3))
    then have "first_of e_id (all_edges ?l) e"
      by (simp add: load_sources_def Let_def in_dedup_by) (simp add: first_of_def find_dedup_by)
    then have "first_of e_id (all_edges ?l @ rs) e" by (simp add: first_of_def find_append)
    then show ?thesis unfolding es in_dedup_by .
  qed
  moreover have "(\<exists>i \<in> set (shown_sources sources sel). e \<in> set (given_edges sourceData i)) \<or>
      (\<exists>r \<in> set relations. \<exists>f t. relates sourceData sources sel r f t \<and>
          e = \<lparr>e_id = mn_id f @ ''-'' @ mn_id t, source = mn_id f, target = mn_id t\<rparr>)" if "e \<in> set es" for e
    using that d(2) given rel by auto
  ultimately show ?thesis using d(1) ns by (auto simp: map_node_of_def)
qed

definition map_object_of :: "string \<Rightarrow> string \<Rightarrow> string \<Rightarrow> string \<Rightarrow> (string \<times> json) list \<Rightarrow> map_node" where
  "map_object_of cluster uid name ns rest = \<lparr>mn_id = uid, mn_object = Some \<lparr>mo_cluster = cluster, mo_json =
     JObj ((''metadata'', JObj [(''uid'', JStr uid), (''name'', JStr name), (''namespace'', JStr ns),
       (''labels'', JObj [(''app'', JStr ''web'')])]) # rest)\<rparr>\<rparr>"

definition volume_pod :: map_node where
  "volume_pod = map_object_of ''c'' ''p1'' ''web'' ''n''
     [(''spec'', JObj [(''volumes'', JArr [JObj [(''configMap'', JObj [(''name'', JStr ''conf'')])]]), (''containers'', JArr [])])]"

definition small_sources :: "map_source list" where
  "small_sources = [Source ''Pod'' None, Source ''ConfigMap'' None]"

definition small_data :: "(string, source_data option) dict" where
  "small_data = [(''Pod'', Some \<lparr>sd_nodes = Some [volume_pod], sd_edges = None\<rparr>),
     (''ConfigMap'', Some \<lparr>sd_nodes = Some [map_object_of ''c'' ''m1'' ''conf'' ''n'' [], map_object_of ''c'' ''m2'' ''conf'' ''other'' []], sd_edges = None\<rparr>)]"

definition small_map :: "js_error + (map_node list \<times> edge list)" where
  "small_map = map_data small_sources (default_selection small_sources) small_data static_relations"

lemma small_map_edges: "small_map = Inr (all_nodes (load_sources small_sources (default_selection small_sources) small_data),
    [\<lparr>e_id = ''p1-m1'', source = ''p1'', target = ''m1''\<rparr>])"
  by code_simp

theorem map_shows_its_relations_witness:
  "\<exists>ns es. small_map = Inr (ns, es) \<and> distinct (map mn_id ns) \<and>
     es = [\<lparr>e_id = ''p1-m1'', source = ''p1'', target = ''m1''\<rparr>] \<and>
     (\<exists>r \<in> set static_relations. \<exists>f t.
        relates small_data small_sources (default_selection small_sources) r f t \<and> mn_id f = ''p1'' \<and> mn_id t = ''m1'')"
proof -
  let ?e = "\<lparr>e_id = ''p1-m1'', source = ''p1'', target = ''m1''\<rparr>"
  have none: "?e \<notin> set (given_edges small_data i)" for i
    by (simp add: given_edges_def small_data_def dict_get_def split: option.split)
  from map_shows_its_relations [OF small_map_edges [unfolded small_map_def]]
  have "distinct (map mn_id (all_nodes (load_sources small_sources (default_selection small_sources) small_data)))"
    and "(\<exists>i \<in> set (shown_sources small_sources (default_selection small_sources)). ?e \<in> set (given_edges small_data i)) \<or>
       (\<exists>r \<in> set static_relations. \<exists>f t. relates small_data small_sources (default_selection small_sources) r f t \<and>
          ?e = \<lparr>e_id = mn_id f @ ''-'' @ mn_id t, source = mn_id f, target = mn_id t\<rparr>)" by auto
  with none show ?thesis using small_map_edges by fastforce
qed

section \<open>Where relations reach\<close>

definition close_objects :: "map_node \<Rightarrow> map_node \<Rightarrow> bool" where
  "close_objects f t \<longleftrightarrow> (\<exists>a b. mn_object f = Some a \<and> mn_object t = Some b \<and> mo_cluster a = mo_cluster b \<and>
     hasSameNamespace a b = Inr True)"

lemma makeRelation_close: "holds (makeRelation c d p) f t = Inr True \<Longrightarrow> close_objects f t"
  by (auto simp: makeRelation_def close_objects_def bind_sum_eq_Inr kube_object_of_def split: if_splits option.splits)

lemmas relation_defs = configMapUsedInPods_def configMapUsedInJobs_def secretsUsedInPods_def secretsUsedInJobs_def
  hpaToDeployment_def hpaToStatefulSet_def vwcToService_def mwcToService_def serviceToPods_def endpointsToServices_def
  endpointSlicesToServices_def ingressToService_def ingressToSecret_def networkPolicyToPod_def roleBindingsToRole_def
  roleBindingToServiceAccount_def serviceAccountToDeployments_def serviceAccountToDaemonSets_def pvcToPods_def
  jobToCronJob_def jobToJobSet_def gatewayToGatewayClass_def httpRouteToGateway_def httpRouteToService_def
  backendTLSPolicyToService_def backendTrafficPolicyToService_def

lemma relation_kinds:
  assumes "r \<in> set (all_relations crds)"
  shows "(\<exists>c d p. r = makeRelation c d p) \<or> (\<exists>c. r = makeOwnerRelation c) \<or> (\<exists>c. r = makeOwnerRelationReversed c)"
  using assms unfolding all_relations_def static_relations_def relation_defs by auto

text \<open>Where an object says it belongs: the text of a field of its metadata.\<close>

definition metadata_of :: "map_object \<Rightarrow> (string \<times> json) list" where
  "metadata_of x = (case mo_json x of JObj fs \<Rightarrow> (case map_of fs ''metadata'' of Some (JObj ms) \<Rightarrow> ms | _ \<Rightarrow> []) | _ \<Rightarrow> [])"

definition other_namespace :: "map_object \<Rightarrow> map_object \<Rightarrow> bool" where
  "other_namespace a b \<longleftrightarrow> (\<exists>n m. map_of (metadata_of a) ''namespace'' = Some (JStr n) \<and> n \<noteq> [] \<and>
     map_of (metadata_of b) ''namespace'' = Some (JStr m) \<and> m \<noteq> [] \<and> n \<noteq> m)"

definition same_place :: "map_node \<Rightarrow> map_node \<Rightarrow> bool" where
  "same_place f t \<longleftrightarrow> (\<exists>a b. mn_object f = Some a \<and> mn_object t = Some b \<and> mo_cluster a = mo_cluster b \<and>
     \<not> other_namespace a b)"

text \<open>One of the owner references of \<open>f\<close> has the uid of \<open>t\<close>.\<close>

definition lists_owner :: "map_node \<Rightarrow> map_node \<Rightarrow> bool" where
  "lists_owner f t \<longleftrightarrow> (\<exists>a refs ref. mn_object f = Some a \<and>
     map_of (metadata_of a) ''ownerReferences'' = Some (JArr refs) \<and> ref \<in> set refs \<and>
     (case ref of JObj fs \<Rightarrow> map_of fs ''uid'' | _ \<Rightarrow> None) =
     (case mn_object t of None \<Rightarrow> None | Some b \<Rightarrow> map_of (metadata_of b) ''uid''))"

lemma metadata_field:
  "dot (dot (mo x) ''metadata'') k = Inr v \<Longrightarrow> map_of (metadata_of x) k = v"
  "qdot (dot (mo x) ''metadata'') k = Inr v \<Longrightarrow> map_of (metadata_of x) k = v"
  by (auto simp: dot_def qdot_def mo_def metadata_of_def jprop_def bind_sum_eq_Inr split: json.splits option.splits)

lemma hasSameNamespace_other:
  assumes "hasSameNamespace a b = Inr True"
  shows "\<not> other_namespace a b"
proof
  assume "other_namespace a b"
  then obtain n m where nm: "map_of (metadata_of a) ''namespace'' = Some (JStr n)" "n \<noteq> []"
    "map_of (metadata_of b) ''namespace'' = Some (JStr m)" "m \<noteq> []" "n \<noteq> m"
    unfolding other_namespace_def by blast
  from assms obtain x where x: "qdot (dot (mo a) ''metadata'') ''namespace'' = Inr x"
    unfolding hasSameNamespace_def by (auto simp: bind_sum_eq_Inr)
  with nm have "x = Some (JStr n)" using metadata_field(2) by fastforce
  with nm(2) assms x obtain y where y: "qdot (dot (mo b) ''metadata'') ''namespace'' = Inr y"
    and h: "\<not> jtruthy y \<or> x = y"
    unfolding hasSameNamespace_def by (auto simp: bind_sum_eq_Inr jtruthy_def split: if_splits)
  with nm have "y = Some (JStr m)" using metadata_field(2) by fastforce
  with h nm \<open>x = Some (JStr n)\<close> show False by (simp add: jtruthy_def)
qed

lemma close_same_place: "close_objects f t \<Longrightarrow> same_place f t"
  using hasSameNamespace_other by (auto simp: close_objects_def same_place_def)

lemma found_True: "found p xs = Inr True \<Longrightarrow> \<exists>x \<in> set xs. p (Inr (Some x)) = Inr True"
  by (induction xs) (auto simp: either_def bind_sum_eq_Inr split: if_splits)

lemma qfinds_True:
  assumes "qfinds v p = Inr True"
  obtains xs x where "v = Inr (Some (JArr xs))" and "x \<in> set xs" and "p (Inr (Some x)) = Inr True"
proof -
  from assms obtain y where y: "v = Inr y" by (cases v) (simp_all add: qfinds_def)
  with assms obtain xs where xs: "y = Some (JArr xs)" "found p xs = Inr True"
    unfolding qfinds_def by (simp split: option.splits json.splits)
  from found_True [OF xs(2)] obtain x where "x \<in> set xs" "p (Inr (Some x)) = Inr True" ..
  with y xs(1) that show thesis by simp
qed

lemma same_True: "same v w = Inr True \<Longrightarrow> \<exists>u. v = Inr u \<and> w = Inr u"
  by (auto simp: same_def bind_sum_eq_Inr)

lemma owned_lists_owner:
  assumes "owned_by f t = Inr True"
  shows "lists_owner f t"
proof -
  define uid :: js_value where
    "uid = (case mn_object t of None \<Rightarrow> Inr None | Some b \<Rightarrow> qdot (dot (mo b) ''metadata'') ''uid'')"
  obtain a where a: "mn_object f = Some a"
    using assms by (cases "mn_object f") (simp_all add: owned_by_def kube_object_of_def)
  then have "qfinds (mo_meta a ''ownerReferences'') (\<lambda>owner. same (dot owner ''uid'') uid) = Inr True"
    using assms by (simp add: owned_by_def kube_object_of_def uid_def)
  then obtain refs ref where refs: "mo_meta a ''ownerReferences'' = Inr (Some (JArr refs))" "ref \<in> set refs"
    "same (dot (Inr (Some ref)) ''uid'') uid = Inr True" by (rule qfinds_True)
  from same_True [OF refs(3)] obtain u where u: "dot (Inr (Some ref)) ''uid'' = Inr u" "uid = Inr u" by blast
  have "(case ref of JObj fs \<Rightarrow> map_of fs ''uid'' | _ \<Rightarrow> None) = u"
    using u(1) by (cases ref) (simp_all add: dot_def jprop_def)
  moreover have "(case mn_object t of None \<Rightarrow> None | Some b \<Rightarrow> map_of (metadata_of b) ''uid'') = u"
    using u(2) metadata_field(2) unfolding uid_def by (cases "mn_object t") auto
  moreover have "map_of (metadata_of a) ''ownerReferences'' = Some (JArr refs)"
    using refs(1) unfolding mo_meta_def by (rule metadata_field(1))
  ultimately show ?thesis
    unfolding lists_owner_def using a refs(2)
    by (intro exI [of _ a] exI [of _ refs] exI [of _ ref] conjI) (simp_all only:)
qed

lemma relates_nodes:
  assumes "relates sd sources sel r f t"
  shows "\<exists>i \<in> set (shown_sources sources sel). f \<in> set (given_nodes sd i)"
    and "\<exists>i \<in> set (shown_sources sources sel). t \<in> set (given_nodes sd i)"
  using assms
  by (auto simp: relates_def node_of_def map_node_of_def first_of_def dest!: found_element split: option.splits list.splits)

text \<open>C35: An edge of the map that no selected source gives goes from one node that a selected
  source gives to another such node; and these are two objects of one cluster that do not name
  different namespaces, or one lists the uid of the other among its owners.\<close>

theorem relations_stay_in_their_cluster:
  assumes "map_data sources sel sourceData (all_relations crds) = Inr (ns, es)" and "e \<in> set es"
  shows "(\<exists>i \<in> set (shown_sources sources sel). e \<in> set (given_edges sourceData i)) \<or>
    (\<exists>f t. (\<exists>i \<in> set (shown_sources sources sel). f \<in> set (given_nodes sourceData i)) \<and>
       (\<exists>i \<in> set (shown_sources sources sel). t \<in> set (given_nodes sourceData i)) \<and>
       e = \<lparr>e_id = mn_id f @ ''-'' @ mn_id t, source = mn_id f, target = mn_id t\<rparr> \<and>
       (same_place f t \<or> lists_owner f t \<or> lists_owner t f))"
proof -
  let ?l = "load_sources sources sel sourceData"
  from assms(1) obtain rs where es: "es = dedup_by e_id (all_edges ?l @ rs)"
    and rel: "\<forall>e. e \<in> set rs \<longleftrightarrow> (\<exists>r \<in> set (all_relations crds). \<exists>f t. relates sourceData sources sel r f t \<and>
           e = \<lparr>e_id = mn_id f @ ''-'' @ mn_id t, source = mn_id f, target = mn_id t\<rparr>)"
    by (rule map_edges)
  have "e \<in> set (all_edges ?l) \<or> e \<in> set rs"
    using assms(2) dedup_by_spec(2) [of e_id] unfolding es by fastforce
  then show ?thesis
  proof
    assume "e \<in> set (all_edges ?l)"
    then have "List.find (\<lambda>y. e_id y = e_id e) (concat (map (given_edges sourceData) (shown_sources sources sel))) = Some e"
      by (simp add: loaded_nodes(3) first_of_def)
    from conjunct2 [OF found_element [OF this]] show ?thesis by auto
  next
    assume "e \<in> set rs"
    with rel obtain r f t where r: "r \<in> set (all_relations crds)" and h: "relates sourceData sources sel r f t"
      and e: "e = \<lparr>e_id = mn_id f @ ''-'' @ mn_id t, source = mn_id f, target = mn_id t\<rparr>" by blast
    from relation_kinds [OF r] h have "close_objects f t \<or> owned_by f t = Inr True \<or> owned_by t f = Inr True"
      using makeRelation_close by (auto simp: relates_def makeOwnerRelation_def makeOwnerRelationReversed_def)
    then have "same_place f t \<or> lists_owner f t \<or> lists_owner t f"
      using close_same_place owned_lists_owner by blast
    with relates_nodes [OF h] e show ?thesis by blast
  qed
qed

theorem relations_stay_in_their_cluster_witness:
  "\<exists>f t. f \<in> set (given_nodes small_data ''Pod'') \<union> set (given_nodes small_data ''ConfigMap'') \<and>
     \<lparr>e_id = ''p1-m1'', source = ''p1'', target = ''m1''\<rparr> =
       \<lparr>e_id = mn_id f @ ''-'' @ mn_id t, source = mn_id f, target = mn_id t\<rparr> \<and>
     (same_place f t \<or> lists_owner f t \<or> lists_owner t f)"
proof -
  let ?e = "\<lparr>e_id = ''p1-m1'', source = ''p1'', target = ''m1''\<rparr>"
  have m: "map_data small_sources (default_selection small_sources) small_data (all_relations []) =
      Inr (all_nodes (load_sources small_sources (default_selection small_sources) small_data), [?e])"
    using small_map_edges by (simp add: small_map_def all_relations_def)
  have none: "?e \<notin> set (given_edges small_data i)" for i
    by (simp add: given_edges_def small_data_def dict_get_def split: option.split)
  have shown: "shown_sources small_sources (default_selection small_sources) = [''Pod'', ''ConfigMap'']" by code_simp
  from relations_stay_in_their_cluster [OF m, of ?e] none show ?thesis
    unfolding shown by auto
qed

section \<open>Custom resources\<close>

lemma flat_append: "getFlatSources (xs @ ys) = getFlatSources xs @ getFlatSources ys"
  by (induction xs rule: getFlatSources.induct) simp_all

text \<open>Every source of a custom resource, and every group of them, has the prefix in its id.\<close>

fun source_ids :: "map_source \<Rightarrow> string list" where
  "source_ids (Source_Group i b ss) = i # concat (map source_ids ss)"
| "source_ids (Source i b) = [i]"

definition crd_source :: "map_source \<Rightarrow> bool" where
  "crd_source s \<longleftrightarrow> (\<exists>i. s = Source (''crd-'' @ i) None)"

definition crd_groups :: "(string, map_source list) dict \<Rightarrow> bool" where
  "crd_groups groups \<longleftrightarrow> dict_wf groups \<and> (\<forall>g ss. dict_get groups g = Some ss \<longrightarrow> list_all crd_source ss)"

lemma group_source_prefix:
  assumes "crd_groups groups"
  shows "crd_groups (group_source vpa d groups)"
proof -
  have "crd_source (Source (''crd-'' @ makeKubeSourceId (makeCRClass d)) None)"
    unfolding crd_source_def by (rule exI, rule refl)
  then show ?thesis
    using assms by (auto simp: group_source_def crd_groups_def Let_def split: option.split)
qed

lemma crd_groups_fold: "crd_groups groups \<Longrightarrow> crd_groups (fold (group_source vpa) crds groups)"
  by (induction crds arbitrary: groups) (simp_all add: group_source_prefix)

lemma cr_source_ids:
  assumes "s \<in> set (generateCRSources crds vpa)" and "i \<in> set (source_ids s)"
  shows "\<exists>j. i = ''crd-'' @ j"
proof -
  let ?groups = "fold (group_source vpa) crds []"
  have ok: "crd_groups ?groups"
    by (rule crd_groups_fold) (simp add: crd_groups_def dict_wf_def dict_get_def)
  from assms(1) obtain g ss where in_groups: "(g, ss) \<in> set ?groups" and s: "s = Source_Group (''crd-'' @ g) None ss"
    unfolding generateCRSources_def by auto
  have "list_all crd_source ss"
    using ok in_groups by (auto simp: crd_groups_def dict_get_iff)
  then have "\<exists>j. x = ''crd-'' @ j" if "x \<in> set (concat (map source_ids ss))" for x
    using that unfolding list_all_iff crd_source_def by force
  with assms(2) show ?thesis unfolding s by auto
qed

text \<open>The tree of the map: its fixed sources and the group of the custom resources.\<close>

definition map_tree :: "map_source list \<Rightarrow> crd_spec list \<Rightarrow> bool \<Rightarrow> map_source list" where
  "map_tree fixed crds vpa = fixed @ [Source_Group ''customresource'' (Some False) (generateCRSources crds vpa)]"

text \<open>A custom resource whose plain id, its group and kind, is the id of something else in the
  tree: a fixed source (as \<open>Gateway\<close> and \<open>JobSet\<close> are), or by accident one of the prefixed ids.\<close>

definition shares_an_id :: "map_source list \<Rightarrow> crd_spec \<Rightarrow> bool" where
  "shares_an_id fixed d \<longleftrightarrow> makeKubeSourceId (makeCRClass d) \<in> set (concat (map source_ids fixed)) \<union> {''customresource''} \<or>
     starts_with (makeKubeSourceId (makeCRClass d)) ''crd-''"

text \<open>C27: The relations between a custom resource and what it owns draw nothing, unless the plain id
  of the resource is the id of another entry of the tree: as long as only entries of the tree
  are selected, the map is the one that the fixed relations and the relations of those few
  custom resources give. For they ask whether a source with the plain id is selected, but the
  sources of custom resources have ids with the prefix \<open>crd-\<close>.\<close>

theorem custom_resource_relations_need_a_plain_id:
  assumes "set sel \<subseteq> set (concat (map source_ids (map_tree fixed crds vpa)))"
  shows "map_data (map_tree fixed crds vpa) sel sourceData (all_relations crds) =
    map_data (map_tree fixed crds vpa) sel sourceData
      (static_relations @ map (\<lambda>d. \<lparr>fromSource = makeKubeSourceId (makeCRClass d), toSource = None,
         holds = (\<lambda>f t. owned_by t f)\<rparr>) (filter (shares_an_id fixed) crds))"
proof -
  let ?rel = "\<lambda>d. \<lparr>fromSource = makeKubeSourceId (makeCRClass d), toSource = None, holds = (\<lambda>f t. owned_by t f)\<rparr>"
  have off: "\<not> relation_enabled sel (?rel d)" if "\<not> shares_an_id fixed d" for d
  proof
    let ?i = "makeKubeSourceId (makeCRClass d)"
    assume "relation_enabled sel (?rel d)"
    then have "?i \<in> set (concat (map source_ids (map_tree fixed crds vpa)))"
      using assms by (auto simp: relation_enabled_def)
    with that obtain s where "s \<in> set (generateCRSources crds vpa)" "?i \<in> set (source_ids s)"
      by (auto simp: map_tree_def shares_an_id_def)
    then have "\<exists>j. ?i = ''crd-'' @ j" by (rule cr_source_ids)
    with that show False by (auto simp: shares_an_id_def starts_with_def)
  qed
  have "filter (relation_enabled sel) (map ?rel ds) = filter (relation_enabled sel) (map ?rel (filter (shares_an_id fixed) ds))" for ds
    by (induction ds) (auto simp: off)
  then show ?thesis
    by (simp add: map_data_def all_relations_def makeOwnerRelationReversed_def)
qed

definition example_crd :: crd_spec where
  "example_crd = \<lparr>crd_group = ''example.com'', crd_version_field = None, crd_versions = [\<lparr>cv_name = ''v1'', cv_served = True, cv_storage = True\<rparr>],
     crd_plural = ''apps'', crd_kind = ''App'', crd_scope = ''Namespaced''\<rparr>"

definition jobset_crd :: crd_spec where
  "jobset_crd = \<lparr>crd_group = ''jobset.x-k8s.io'', crd_version_field = None, crd_versions = [\<lparr>cv_name = ''v1alpha2'', cv_served = True, cv_storage = True\<rparr>],
     crd_plural = ''jobsets'', crd_kind = ''JobSet'', crd_scope = ''Namespaced''\<rparr>"

text \<open>An app and a job set, and a pod that names both as its owners; job sets have a fixed source.\<close>

definition crd_tree :: "map_source list" where
  "crd_tree = [Source ''Pod'' None, Source ''jobset.x-k8s.io/JobSet'' None]"

definition crd_data :: "(string, source_data option) dict" where
  "crd_data = [(''Pod'', Some \<lparr>sd_nodes = Some [\<lparr>mn_id = ''p1'', mn_object = Some \<lparr>mo_cluster = ''c'', mo_json = JObj [(''metadata'',
       JObj [(''uid'', JStr ''p1''), (''ownerReferences'', JArr [JObj [(''uid'', JStr ''a1'')], JObj [(''uid'', JStr ''j1'')]])])]\<rparr>\<rparr>], sd_edges = None\<rparr>),
     (''jobset.x-k8s.io/JobSet'', Some \<lparr>sd_nodes = Some [map_object_of ''c'' ''j1'' ''job'' ''n'' []], sd_edges = None\<rparr>),
     (''crd-example.com/App'', Some \<lparr>sd_nodes = Some [map_object_of ''c'' ''a1'' ''app'' ''n'' []], sd_edges = None\<rparr>)]"

definition crd_selection :: "string list" where
  "crd_selection = [''jobset.x-k8s.io/JobSet'', ''crd-example.com/App'', ''Pod'']"

text \<open>The owner relation of the app is never asked, that of the job set is.\<close>

theorem custom_resource_relations_need_a_plain_id_witness:
  "map_data (map_tree crd_tree [example_crd, jobset_crd] False) crd_selection crd_data (all_relations [example_crd, jobset_crd]) =
   map_data (map_tree crd_tree [example_crd, jobset_crd] False) crd_selection crd_data
     (static_relations @ [\<lparr>fromSource = ''jobset.x-k8s.io/JobSet'', toSource = None, holds = (\<lambda>f t. owned_by t f)\<rparr>])"
proof -
  have "set crd_selection \<subseteq> set (concat (map source_ids (map_tree crd_tree [example_crd, jobset_crd] False)))" by code_simp
  note eq = custom_resource_relations_need_a_plain_id [OF this, of crd_data]
  have d: "filter (shares_an_id crd_tree) [example_crd, jobset_crd] = [jobset_crd]" by code_simp
  have i: "makeKubeSourceId (makeCRClass jobset_crd) = ''jobset.x-k8s.io/JobSet''" by code_simp
  show ?thesis using eq unfolding d list.map i .
qed

section \<open>Errors and wrong edges\<close>

lemma relation_error:
  assumes "r \<in> set relations" and "relation_enabled sel r"
    and "f \<in> set (from_nodes (load_sources sources sel sourceData) r)" and "t \<in> set (to_nodes (load_sources sources sel sourceData) r)"
    and "holds r f t = Inl e"
  shows "\<exists>e. map_data sources sel sourceData relations = Inl e"
proof -
  let ?l = "load_sources sources sel sourceData"
  let ?inner = "\<lambda>f. collect (\<lambda>t. bind_sum (holds r f t) (\<lambda>b. Inr (if b then [node_edge f t] else []))) (to_nodes ?l r)"
  have "\<exists>e. ?inner f = Inl e" by (rule collect_Inl [OF assms(4)]) (simp add: assms(5))
  then obtain e1 where "?inner f = Inl e1" by blast
  then have "\<exists>e. relation_edges ?l r = Inl e" unfolding relation_edges_def by (rule collect_Inl [OF assms(3)])
  then obtain e2 where "relation_edges ?l r = Inl e2" by blast
  then have "\<exists>e. collect (relation_edges ?l) (filter (relation_enabled sel) relations) = Inl e"
    using assms(1,2) by (intro collect_Inl) auto
  then show ?thesis by (auto simp: map_data_def)
qed

text \<open>C36: One role binding without subjects, which Kubernetes allows, leaves the whole map without data,
  when the sources of role bindings and of service accounts are both selected (they are not
  at the start) and some service account of the same cluster, in the same namespace, is
  shown.\<close>

theorem role_binding_without_subjects_breaks_the_map:
  assumes "''rbac.authorization.k8s.io/RoleBinding'' \<in> set (shown_sources sources sel)"
    and "''ServiceAccount'' \<in> set (shown_sources sources sel)"
    and "first_of mn_id (given_nodes sourceData ''rbac.authorization.k8s.io/RoleBinding'') f"
    and "first_of mn_id (given_nodes sourceData ''ServiceAccount'') t"
    and "mn_object f = Some \<lparr>mo_cluster = c, mo_json = JObj bs\<rparr>" and "map_of bs ''metadata'' = Some (JObj bm)"
    and "mn_object t = Some \<lparr>mo_cluster = c, mo_json = JObj as\<rparr>" and "map_of as ''metadata'' = Some (JObj am)"
    and "map_of bm ''namespace'' = map_of am ''namespace''" and "map_of bs ''subjects'' = None"
  shows "\<exists>e. map_data sources sel sourceData (all_relations crds) = Inl e"
proof (rule relation_error)
  let ?r = roleBindingToServiceAccount
  have r: "fromSource ?r = ''rbac.authorization.k8s.io/RoleBinding''" "toSource ?r = Some ''ServiceAccount''" by code_simp+
  show "?r \<in> set (all_relations crds)" by (simp add: all_relations_def static_relations_def)
  show "relation_enabled sel ?r"
    using assms(1,2) by (simp add: relation_enabled_def r shown_sources_def)
  show "f \<in> set (from_nodes (load_sources sources sel sourceData) ?r)"
    "t \<in> set (to_nodes (load_sources sources sel sourceData) ?r)"
    using assms(1-4) by (simp_all add: from_to_nodes r node_of_def)
  have "hasSameNamespace \<lparr>mo_cluster = c, mo_json = JObj bs\<rparr> \<lparr>mo_cluster = c, mo_json = JObj as\<rparr> = Inr True"
    using assms(6,8,9) by (simp add: hasSameNamespace_def qdot_def dot_def mo_def jprop_def)
  moreover have "finds (dot (mo \<lparr>mo_cluster = c, mo_json = JObj bs\<rparr>) ''subjects'') p = Inl TypeError" for p
    using assms(10) by (simp add: finds_def dot_def mo_def jprop_def)
  ultimately show "holds ?r f t = Inl TypeError"
    using assms(5,7) by (simp add: roleBindingToServiceAccount_def makeRelation_def kube_object_of_def)
qed

definition rbac_sources :: "map_source list" where
  "rbac_sources = [Source_Group ''security'' None
     [Source ''rbac.authorization.k8s.io/RoleBinding'' None, Source ''ServiceAccount'' None]]"

definition rbac_data :: "(string, source_data option) dict" where
  "rbac_data = [(''rbac.authorization.k8s.io/RoleBinding'', Some \<lparr>sd_nodes = Some [map_object_of ''c'' ''b1'' ''nobody'' ''n''
       [(''roleRef'', JObj [(''name'', JStr ''r'')])]], sd_edges = None\<rparr>),
     (''ServiceAccount'', Some \<lparr>sd_nodes = Some [map_object_of ''c'' ''s1'' ''default'' ''n'' []], sd_edges = None\<rparr>)]"

theorem role_binding_without_subjects_breaks_the_map_witness:
  "\<exists>e. map_data rbac_sources (default_selection rbac_sources) rbac_data (all_relations []) = Inl e"
proof -
  let ?f = "map_object_of ''c'' ''b1'' ''nobody'' ''n'' [(''roleRef'', JObj [(''name'', JStr ''r'')])]"
    and ?t = "map_object_of ''c'' ''s1'' ''default'' ''n'' []"
  let ?bm = "[(''uid'', JStr ''b1''), (''name'', JStr ''nobody''), (''namespace'', JStr ''n''), (''labels'', JObj [(''app'', JStr ''web'')])]"
    and ?am = "[(''uid'', JStr ''s1''), (''name'', JStr ''default''), (''namespace'', JStr ''n''), (''labels'', JObj [(''app'', JStr ''web'')])]"
  have "''rbac.authorization.k8s.io/RoleBinding'' \<in> set (shown_sources rbac_sources (default_selection rbac_sources))"
    "''ServiceAccount'' \<in> set (shown_sources rbac_sources (default_selection rbac_sources))"
    "first_of mn_id (given_nodes rbac_data ''rbac.authorization.k8s.io/RoleBinding'') ?f"
    "first_of mn_id (given_nodes rbac_data ''ServiceAccount'') ?t"
    by code_simp+
  then show ?thesis
    by (rule role_binding_without_subjects_breaks_the_map
        [where c = "''c''" and bs = "[(''metadata'', JObj ?bm), (''roleRef'', JObj [(''name'', JStr ''r'')])]"
           and bm = ?bm and as = "[(''metadata'', JObj ?am)]" and am = ?am])
      (simp_all add: map_object_of_def)
qed

text \<open>A network policy that selects pods by expressions alone is linked to every pod with labels in its
  namespace, whatever its expressions say.\<close>

theorem network_policy_edges_ignore_expressions:
  assumes "close_objects f t" and "mn_object f = Some policy" and "mn_object t = Some pod"
    and "dot (dot (spec_of policy) ''podSelector'') ''matchLabels'' = Inr None"
    and "mo_meta pod ''labels'' = Inr (Some (JObj labels))"
  shows "holds networkPolicyToPod f t = Inr True"
  using assms
  by (auto simp: networkPolicyToPod_def makeRelation_def close_objects_def kube_object_of_def matchesLabels_def or_empty_def
      jtruthy_def entries_of_def)

theorem network_policy_edges_ignore_expressions_witness:
  "holds networkPolicyToPod (map_object_of ''c'' ''np'' ''deny'' ''n'' [(''spec'', JObj [(''podSelector'', JObj [(''matchExpressions'',
      JArr [JObj [(''key'', JStr ''app''), (''operator'', JStr ''NotIn''), (''values'', JArr [JStr ''web''])]])])])]) volume_pod = Inr True"
proof -
  let ?f = "map_object_of ''c'' ''np'' ''deny'' ''n'' [(''spec'', JObj [(''podSelector'', JObj [(''matchExpressions'',
      JArr [JObj [(''key'', JStr ''app''), (''operator'', JStr ''NotIn''), (''values'', JArr [JStr ''web''])]])])])]"
  have "close_objects ?f volume_pod"
    by (simp add: close_objects_def volume_pod_def map_object_of_def hasSameNamespace_def qdot_def dot_def mo_def jprop_def jtruthy_def)
  moreover have "mn_object ?f = Some (the (mn_object ?f))" "mn_object volume_pod = Some (the (mn_object volume_pod))"
    by (simp_all add: map_object_of_def volume_pod_def)
  moreover have "dot (dot (spec_of (the (mn_object ?f))) ''podSelector'') ''matchLabels'' = Inr None"
    by (simp add: map_object_of_def spec_of_def dot_def mo_def jprop_def)
  moreover have "mo_meta (the (mn_object volume_pod)) ''labels'' = Inr (Some (JObj [(''app'', JStr ''web'')]))"
    by (simp add: volume_pod_def map_object_of_def mo_meta_def dot_def mo_def jprop_def)
  ultimately show ?thesis by (rule network_policy_edges_ignore_expressions)
qed

section \<open>Choosing sources\<close>

text \<open>The ids of the leaves.\<close>

definition leaf_ids :: "map_source list \<Rightarrow> string list" where
  "leaf_ids ss = map src_id (getFlatSources ss)"

lemma leaf_ids_simps [simp]:
  "leaf_ids [] = []" "leaf_ids (Source_Group i b ss # rest) = leaf_ids ss @ leaf_ids rest"
  "leaf_ids (Source i b # rest) = i # leaf_ids rest"
  by (simp_all add: leaf_ids_def)

lemma leaf_ids_Cons: "leaf_ids (s # rest) = leaf_ids [s] @ leaf_ids rest"
  by (cases s) simp_all

lemma isSelected_leaves: "list_all (isSelected sel) ss \<longleftrightarrow> set (leaf_ids ss) \<subseteq> set sel"
  by (induction ss rule: getFlatSources.induct) auto

lemma set_ops: "set (set_add i sel) = insert i (set sel)" "set (set_remove i sel) = set sel - {i}"
  by (auto simp: set_add_def set_remove_def)

lemma deselectAll_leaves: "set (fold deselectAll ss sel) = set sel - set (leaf_ids ss)"
  by (induction ss arbitrary: sel rule: getFlatSources.induct) (auto simp: set_ops)

lemma selectAll_leaves: "set (fold selectAll ss sel) = set sel \<union> set (leaf_ids ss)"
  by (induction ss arbitrary: sel rule: getFlatSources.induct) (auto simp: set_ops)

text \<open>Toggling a source selects all its leaves, unless all of them are selected, and then deselects them
  all; no other source changes, but the group itself may be dropped from the selection.\<close>

theorem toggle_switches_all_leaves:
  "set (toggleSelection s sel) - {src_id s} =
     (if set (leaf_ids [s]) \<subseteq> set sel then set sel - set (leaf_ids [s]) else set sel \<union> set (leaf_ids [s])) - {src_id s} \<and>
   (s = Source i b \<longrightarrow> (i \<in> set (toggleSelection s sel) \<longleftrightarrow> i \<notin> set sel))"
  by (cases s) (auto simp: toggleSelection_def isSelected_leaves deselectAll_leaves selectAll_leaves set_ops)

theorem toggle_switches_all_leaves_witness:
  "set (toggleSelection (hd rbac_sources) [''ServiceAccount'', ''Pod'']) - {''security''} =
     {''ServiceAccount'', ''Pod'', ''rbac.authorization.k8s.io/RoleBinding''} \<and>
   ''ServiceAccount'' \<notin> set (toggleSelection (Source ''ServiceAccount'' None) [''ServiceAccount''])"
  using toggle_switches_all_leaves [of "hd rbac_sources" "[''ServiceAccount'', ''Pod'']"]
    toggle_switches_all_leaves [of "Source ''ServiceAccount'' None" "[''ServiceAccount'']" "''ServiceAccount''" None]
  by (auto simp: rbac_sources_def)

end
