(* ===== verification/SingleObject.thy ===== *)
theory SingleObject
  imports KubeLists KubeObjects
begin

text \<open>
  One object on the screen: the hook \<^verbatim>\<open>useKubeObject\<close> of \<^verbatim>\<open>frontend/src/lib/k8s/api/v2/hooks.ts\<close>, which
  fetches an object into the cache of queries and changes it there with the events of a watch, and
  the choice of a working endpoint. The cache is a dictionary whose entries have the last data and
  the last error; setting the data of an entry clears its error, as the query library documents.
\<close>

section \<open>State\<close>

record object_query =
  oq_class :: kube_class
  oq_namespace :: "string option"
  oq_name :: string
  oq_cluster :: string
  oq_params :: "(string, string) dict"
  oq_endpoint :: "endpoint option"

record cached_object =
  co_data :: "kube_object option"
  co_error :: "http_error option"

type_synonym object_key = "string \<times> endpoint option \<times> string \<times> string \<times> (string, string) dict"

type_synonym object_cache = "(object_key, cached_object) dict"

definition cleanedUpQueryParams :: "object_query \<Rightarrow> (string, string) dict" where
  "cleanedUpQueryParams q = filter (\<lambda>(_, value). value \<noteq> []) (oq_params q)"

definition kubeObjectQueryKey :: "object_query \<Rightarrow> object_key" where
  "kubeObjectQueryKey q =
    (oq_cluster q, oq_endpoint q, (case oq_namespace q of None \<Rightarrow> [] | Some n \<Rightarrow> n), oq_name q, cleanedUpQueryParams q)"

definition entry :: "object_cache \<Rightarrow> object_query \<Rightarrow> cached_object" where
  "entry c q = (case dict_get c (kubeObjectQueryKey q) of None \<Rightarrow> \<lparr>co_data = None, co_error = None\<rparr> | Some e \<Rightarrow> e)"

section \<open>The hook\<close>

text \<open>The addresses of the object and of its watch, when there is an endpoint.\<close>

definition fetch_url :: "object_query \<Rightarrow> string option" where
  "fetch_url q = map_option (\<lambda>ep. makeUrl (Inr [toUrl ep (oq_namespace q), oq_name q]) (cleanedUpQueryParams q)) (oq_endpoint q)"

definition object_watch_url :: "object_query \<Rightarrow> string option" where
  "object_watch_url q = map_option (\<lambda>ep. makeUrl (Inr [toUrl ep (oq_namespace q)])
     (dict_set ''fieldSelector'' (''metadata.name='' @ oq_name q) (dict_set ''watch'' ''1'' (cleanedUpQueryParams q)))) (oq_endpoint q)"

definition shown_object :: "object_cache \<Rightarrow> object_query \<Rightarrow> kube_object option" where
  "shown_object c q = (if co_error (entry c q) \<noteq> None then None else co_data (entry c q))"

text \<open>The watch runs while there is something to show.\<close>

definition watching :: "object_cache \<Rightarrow> object_query \<Rightarrow> bool" where
  "watching c q \<longleftrightarrow> oq_endpoint q \<noteq> None \<and> shown_object c q \<noteq> None"

definition setQueryData :: "object_query \<Rightarrow> kube_object \<Rightarrow> object_cache \<Rightarrow> object_cache" where
  "setQueryData q ob c = dict_set (kubeObjectQueryKey q) \<lparr>co_data = Some ob, co_error = None\<rparr> c"

text \<open>The request of the query ends: the object knows its cluster.\<close>

definition fetched :: "http_env \<Rightarrow> object_query \<Rightarrow> http_error + kube_body \<Rightarrow> object_cache \<Rightarrow> object_cache" where
  "fetched env q r c = (case r of
     Inr body \<Rightarrow> setQueryData q (new_object env (oq_class q) body (Some (oq_cluster q))) c
   | Inl e \<Rightarrow> dict_set (kubeObjectQueryKey q) ((entry c q)\<lparr>co_error := Some e\<rparr>) c)"

text \<open>An event of the watch; no cluster is given to the new object.\<close>

definition handleMessage :: "http_env \<Rightarrow> object_query \<Rightarrow> update_type \<Rightarrow> kube_body option \<Rightarrow> object_cache \<Rightarrow> object_cache" where
  "handleMessage env q ty body c = (case body of
     None \<Rightarrow> c
   | Some b \<Rightarrow> if ty \<noteq> ADDED then setQueryData q (new_object env (oq_class q) b None) c else c)"

datatype object_event = Fetched "http_error + kube_body" | Watched update_type "kube_body option"

definition object_step :: "http_env \<Rightarrow> object_query \<Rightarrow> object_cache \<Rightarrow> object_event \<Rightarrow> object_cache" where
  "object_step env q c e = (case e of
     Fetched r \<Rightarrow> if oq_endpoint q = None then c else fetched env q r c
   | Watched ty b \<Rightarrow> if watching c q then handleMessage env q ty b c else c)"

section \<open>Endpoints\<close>

definition probe_url :: "endpoint \<Rightarrow> string option \<Rightarrow> string option \<Rightarrow> string" where
  "probe_url ep namespace name =
    (if truthy name then makeUrl (Inr [toUrl ep namespace, the name]) [] else toUrl ep namespace)"

text \<open>\<open>Promise.any\<close>: \<open>answers\<close> are the outcomes of the probes in the order of the endpoints, \<open>order\<close>
  the order in which they arrive.\<close>

definition getWorkingEndpoint :: "endpoint list \<Rightarrow> (nat \<Rightarrow> http_error + unit) \<Rightarrow> nat list \<Rightarrow> http_error option + endpoint" where
  "getWorkingEndpoint endpoints answers order =
    (case find (\<lambda>i. answers i = Inr ()) order of
       Some i \<Rightarrow> Inr (endpoints ! i)
     | None \<Rightarrow> Inl (if endpoints = [] then None else (case answers 0 of Inl e \<Rightarrow> Some e | Inr _ \<Rightarrow> None)))"

text \<open>The endpoint of the hook and its error; with several endpoints they come from a query.\<close>

definition useEndpoints :: "endpoint list \<Rightarrow> (http_error option + endpoint) option \<Rightarrow> endpoint option \<times> http_error option" where
  "useEndpoints endpoints probed =
    (if length endpoints = 1 then (Some (endpoints ! 0), None)
     else if length endpoints > 1
     then (case probed of None \<Rightarrow> (None, None) | Some (Inl e) \<Rightarrow> (None, e) | Some (Inr ep) \<Rightarrow> (Some ep, None))
     else (None, None))"

section \<open>What is shown\<close>

lemma entry_set: "kubeObjectQueryKey p = kubeObjectQueryKey q \<Longrightarrow> entry (dict_set (kubeObjectQueryKey q) e c) p = e"
  "kubeObjectQueryKey p \<noteq> kubeObjectQueryKey q \<Longrightarrow> entry (dict_set (kubeObjectQueryKey q) e c) p = entry c p"
  by (simp_all add: entry_def)

lemma shown_setQueryData: "shown_object (setQueryData q ob c) q = Some ob"
  by (simp add: shown_object_def setQueryData_def entry_set)



text \<open>C9: After an event of its watch the object on the screen belongs to the cluster of the address, whatever
  cluster it was asked from: deleting it then sends the requests to the cluster of the address.\<close>

theorem updated_object_acts_on_the_current_cluster:
  assumes "watching c q" and "ty \<noteq> ADDED" and "current_cluster env = Some cur" and "cur \<noteq> []"
  shows "\<exists>ob. shown_object (object_step env q c (Watched ty (Some b))) q = Some ob \<and> ob_body ob = b \<and> ob_cluster ob = cur \<and>
    (\<forall>force w r w'. delete_object env ob force w = (r, w') \<longrightarrow> (\<exists>rqs. sent_requests w' = sent_requests w @ rqs \<and>
      tried_in_order env (\<lambda>ep. cluster_url env cur (ep_url ep (kb_namespace b) @ ''/'' @ kb_name b @
          asQuery (Some (delete_parameters (oq_class q) force))) None)
        (\<lambda>rq. rq_method rq = ''DELETE'' \<and> rq_body rq = No_Body) (endpoints_of (apiEndpoint (oq_class q))) (sent_requests w) rqs))"
proof -
  let ?ob = "new_object env (oq_class q) b None"
  have shown: "shown_object (object_step env q c (Watched ty (Some b))) q = Some ?ob"
    using assms(1,2) by (simp add: object_step_def handleMessage_def shown_setQueryData)
  have ob: "ob_body ?ob = b" "ob_class ?ob = oq_class q" "ob_cluster ?ob = cur"
    using assms(3,4) by (simp_all add: new_object_def named_or_current_def)
  have "\<exists>rqs. sent_requests w' = sent_requests w @ rqs \<and>
      tried_in_order env (\<lambda>ep. cluster_url env cur (ep_url ep (kb_namespace b) @ ''/'' @ kb_name b @
          asQuery (Some (delete_parameters (oq_class q) force))) None)
        (\<lambda>rq. rq_method rq = ''DELETE'' \<and> rq_body rq = No_Body) (endpoints_of (apiEndpoint (oq_class q))) (sent_requests w) rqs"
    if "delete_object env ?ob force w = (r, w')" for force w r w'
    using deletes.called [OF that [unfolded delete_object_def ob]]
    unfolding object_url_def [abs_def] named_or_named [OF assms(4)] by blast
  with shown ob show ?thesis by blast
qed

definition prod_query :: object_query where
  "prod_query = \<lparr>oq_class = deployment_class, oq_namespace = Some ''n'', oq_name = ''d'', oq_cluster = ''prod'', oq_params = [],
     oq_endpoint = Some (endpoint.make (Some ''apps'') ''v1'' ''deployments'')\<rparr>"


text \<open>The page shows the cluster \<open>test\<close> while the object is one of \<open>prod\<close>.\<close>

definition test_page :: http_env where
  "test_page = (sample_http 200)\<lparr>current_cluster := Some ''test''\<rparr>"

theorem updated_object_acts_on_the_current_cluster_witness:
  "\<exists>ob. shown_object (object_step test_page prod_query (fetched test_page prod_query (Inr (ob_body sample_object)) [])
       (Watched MODIFIED (Some (ob_body sample_object)))) prod_query = Some ob \<and> ob_cluster ob = ''test''"
proof -
  let ?c = "fetched test_page prod_query (Inr (ob_body sample_object)) []"
  have "watching ?c prod_query"
    by (simp add: watching_def fetched_def shown_setQueryData) (simp add: prod_query_def)
  moreover have "current_cluster test_page = Some ''test''" by (simp add: test_page_def)
  ultimately show ?thesis
    using updated_object_acts_on_the_current_cluster [of ?c prod_query MODIFIED test_page "''test''" "ob_body sample_object"] by auto
qed

text \<open>The endpoint that is chosen answered its probe, and answered first of those that did; there is an
  error exactly when every probe failed, and it is that of the first endpoint of the list.\<close>

theorem working_endpoint_answers:
  assumes "endpoints \<noteq> []" and "set order = {..< length endpoints}"
  shows "(\<forall>ep. getWorkingEndpoint endpoints answers order = Inr ep \<longrightarrow>
      (\<exists>i < length endpoints. ep = endpoints ! i \<and> answers i = Inr () \<and>
        (\<exists>before after. order = before @ i # after \<and> (\<forall>j \<in> set before. answers j \<noteq> Inr ())))) \<and>
    (\<forall>e. getWorkingEndpoint endpoints answers order = Inl e \<longleftrightarrow>
      (\<forall>i < length endpoints. answers i \<noteq> Inr ()) \<and> (\<exists>x. answers 0 = Inl x \<and> e = Some x))"
proof (cases "find (\<lambda>i. answers i = Inr ()) order")
  case None
  then have fail: "\<forall>i < length endpoints. answers i \<noteq> Inr ()"
    using assms(2) by (auto simp: find_None_iff)
  with assms(1) obtain x where "answers 0 = Inl x" by (cases "answers 0") auto
  with None fail assms(1) show ?thesis by (auto simp: getWorkingEndpoint_def)
next
  case (Some i)
  then obtain k where k: "k < length order" "answers i = Inr ()" "i = order ! k" "\<forall>j < k. answers (order ! j) \<noteq> Inr ()"
    by (auto simp: find_Some_iff)
  then have i: "i < length endpoints" using assms(2) nth_mem by blast
  have "order = take k order @ i # drop (Suc k) order" using k(1,3) id_take_nth_drop by blast
  moreover have "\<forall>j \<in> set (take k order). answers j \<noteq> Inr ()" using k(1,4) by (auto simp: in_set_conv_nth)
  ultimately have "\<exists>before after. order = before @ i # after \<and> (\<forall>j \<in> set before. answers j \<noteq> Inr ())" by blast
  with Some i k(2) show ?thesis by (auto simp: getWorkingEndpoint_def)
qed

theorem working_endpoint_answers_witness:
  "\<forall>e. getWorkingEndpoint [the (oq_endpoint prod_query), the (oq_endpoint prod_query)] (\<lambda>_. Inl Stuck) [1, 0] = Inl e \<longleftrightarrow> e = Some Stuck"
proof -
  have "set [1, 0] = {..< length [the (oq_endpoint prod_query), the (oq_endpoint prod_query)]}" by auto
  from working_endpoint_answers [OF _ this, of "\<lambda>_. Inl Stuck"] show ?thesis by simp
qed

end
