(* ===== verification/Configuration.thy ===== *)
theory Configuration
  imports Preferences
begin

text \<open>
  The configuration of the application: \<^verbatim>\<open>frontend/src/redux/configSlice.ts\<close> (the settings and the
  clusters), \<^verbatim>\<open>useClustersConf\<close> of \<^verbatim>\<open>lib/k8s/index.ts\<close>, and the helpers that keep choices in the
  browser's storage: \<^verbatim>\<open>recentClusters.ts\<close>, \<^verbatim>\<open>clusterAutoConnect.ts\<close>, \<^verbatim>\<open>tableSettings.ts\<close> and
  \<^verbatim>\<open>tablesRowsPerPage.ts\<close>. As in Preferences, a stored text is what \<open>JSON.parse\<close> makes of it, and
  \<open>None\<close> when it is rejected; the storage itself does not fail. Which time zones exist is given.
\<close>

section \<open>Settings\<close>

definition stored_json :: "storage \<Rightarrow> string \<Rightarrow> json option" where
  "stored_json st k = Option.bind (dict_get st k) (\<lambda>t. t)"

definition isNumberArray :: "json option \<Rightarrow> bool" where
  "isNumberArray v = (case v of Some (JArr xs) \<Rightarrow> xs \<noteq> [] \<and> list_all (\<lambda>x. case x of JNum n \<Rightarrow> 0 < n | _ \<Rightarrow> False) xs | _ \<Rightarrow> False)"

definition isString :: "json option \<Rightarrow> bool" where
  "isString v = (case v of Some (JStr _) \<Rightarrow> True | _ \<Rightarrow> False)"

definition isBoolean :: "json option \<Rightarrow> bool" where
  "isBoolean v = (case v of Some (JBool _) \<Rightarrow> True | _ \<Rightarrow> False)"

record stored_settings =
  st_rows :: "json option"
  st_timezone :: "string option"
  st_alphabetically :: "json option"
  st_evict :: "json option"

definition no_settings :: stored_settings where
  "no_settings = \<lparr>st_rows = None, st_timezone = None, st_alphabetically = None, st_evict = None\<rparr>"

definition loadStoredSettings :: "(string \<Rightarrow> bool) \<Rightarrow> storage \<Rightarrow> stored_settings" where
  "loadStoredSettings isValidTimeZone st = (case stored_json st ''settings'' of
     Some (JObj fs) \<Rightarrow>
       \<lparr>st_rows = (if isNumberArray (map_of fs ''tableRowsPerPageOptions'') then map_of fs ''tableRowsPerPageOptions'' else None),
        st_timezone = (case map_of fs ''timezone'' of Some (JStr z) \<Rightarrow> if isValidTimeZone z then Some z else None | _ \<Rightarrow> None),
        st_alphabetically = (if isBoolean (map_of fs ''sidebarSortAlphabetically'') then map_of fs ''sidebarSortAlphabetically'' else None),
        st_evict = (if isBoolean (map_of fs ''useEvict'') then map_of fs ''useEvict'' else None)\<rparr>
   | _ \<Rightarrow> no_settings)"

definition or_default :: "json option \<Rightarrow> json \<Rightarrow> json" where
  "or_default v d = (case v of None \<Rightarrow> d | Some x \<Rightarrow> x)"

definition defaultTableRowsPerPageOptions :: json where
  "defaultTableRowsPerPageOptions = JArr [JNum 15, JNum 25, JNum 50, JNum 100]"

text \<open>The settings of the initial state.\<close>

definition initial_settings :: "(string \<Rightarrow> bool) \<Rightarrow> string \<Rightarrow> storage \<Rightarrow> (string, json) dict" where
  "initial_settings isValidTimeZone defaultTimezone st =
    (let s = loadStoredSettings isValidTimeZone st
     in [(''tableRowsPerPageOptions'', or_default (st_rows s) defaultTableRowsPerPageOptions),
         (''timezone'', JStr (or_else (st_timezone s) defaultTimezone)),
         (''sidebarSortAlphabetically'', or_default (st_alphabetically s) (JBool False)),
         (''useEvict'', or_default (st_evict s) (JBool True))])"

definition setAppSettings :: "(string, json) dict \<Rightarrow> (string, json) dict \<times> storage \<Rightarrow> (string, json) dict \<times> storage" where
  "setAppSettings change w = (case w of (settings, st) \<Rightarrow>
     (let new = fold (\<lambda>(k, v). dict_set k v) change settings in (new, dict_set ''settings'' (Some (JObj new)) st)))"

section \<open>Clusters\<close>

record 'c config =
  clusters :: "(string, 'c) dict option"
  statelessClusters :: "(string, 'c) dict option"
  allClusters :: "(string, 'c) dict option"
  isDynamicClusterEnabled :: bool
  allowKubeconfigChanges :: bool
  defaultPodDebugImage :: string
  defaultNodeShellImage :: string
  defaultNodeShellNamespace :: string
  defaultLightTheme :: "string option"
  defaultDarkTheme :: "string option"
  forceTheme :: "string option"

record 'c config_payload =
  pl_clusters :: "(string, 'c) dict option"
  pl_dynamic :: "bool option"
  pl_changes :: "bool option"
  pl_debugImage :: "string option"
  pl_shellImage :: "string option"
  pl_shellNamespace :: "string option"
  pl_lightTheme :: "string option"
  pl_darkTheme :: "string option"
  pl_forceTheme :: "string option"

definition given :: "'a option \<Rightarrow> 'a \<Rightarrow> 'a" where
  "given v old = (case v of None \<Rightarrow> old | Some x \<Rightarrow> x)"

definition setConfig :: "'c config_payload \<Rightarrow> 'c config \<Rightarrow> 'c config" where
  "setConfig p s = s\<lparr>clusters := pl_clusters p,
     isDynamicClusterEnabled := given (pl_dynamic p) (isDynamicClusterEnabled s),
     allowKubeconfigChanges := given (pl_changes p) (allowKubeconfigChanges s),
     defaultPodDebugImage := given (pl_debugImage p) (defaultPodDebugImage s),
     defaultNodeShellImage := given (pl_shellImage p) (defaultNodeShellImage s),
     defaultNodeShellNamespace := given (pl_shellNamespace p) (defaultNodeShellNamespace s),
     defaultLightTheme := pl_lightTheme p, defaultDarkTheme := pl_darkTheme p, forceTheme := pl_forceTheme p\<rparr>"

definition setStatelessConfig :: "(string, 'c) dict option \<Rightarrow> 'c config \<Rightarrow> 'c config" where
  "setStatelessConfig cs s = s\<lparr>statelessClusters := cs\<rparr>"

text \<open>\<open>Object.assign(target, source)\<close>\<close>

definition object_assign :: "(string, 'c) dict \<Rightarrow> (string, 'c) dict \<Rightarrow> (string, 'c) dict" where
  "object_assign target src = fold (\<lambda>(k, v). dict_set k v) src target"

definition useClustersConf :: "'c config \<Rightarrow> (string, 'c) dict option" where
  "useClustersConf s = (case clusters s of
     None \<Rightarrow> None
   | Some cs \<Rightarrow> Some (object_assign (object_assign (given (allClusters s) []) cs) (given (statelessClusters s) [])))"

section \<open>Recent and connected clusters\<close>

definition getRecentClusters :: "storage \<Rightarrow> string list" where
  "getRecentClusters st = (case stored_json st ''recent_clusters'' of
     Some (JArr xs) \<Rightarrow> if list_all (\<lambda>x. js_typeof x = ''string'') xs then map json_str xs else []
   | _ \<Rightarrow> [])"

definition setRecentCluster :: "string \<Rightarrow> storage \<Rightarrow> storage" where
  "setRecentCluster name st =
    dict_set ''recent_clusters'' (Some (JArr (map JStr (take 3 (name # filter (\<lambda>n. n \<noteq> name) (getRecentClusters st)))))) st"

definition getAutoConnectClusterNames :: "storage \<Rightarrow> string list \<Rightarrow> string list" where
  "getAutoConnectClusterNames st names = filter (\<lambda>n. n \<in> set (getRecentClusters st)) names"

text \<open>The storage of the session is another one; its array may hold anything.\<close>

definition getSessionConnectedClusters :: "storage \<Rightarrow> json list" where
  "getSessionConnectedClusters session = (case stored_json session ''session_connected_clusters'' of Some (JArr xs) \<Rightarrow> xs | _ \<Rightarrow> [])"

definition addSessionConnectedCluster :: "string \<Rightarrow> storage \<Rightarrow> storage" where
  "addSessionConnectedCluster name session =
    dict_set ''session_connected_clusters'' (Some (JArr (set_add (JStr name) (set_of (getSessionConnectedClusters session))))) session"

record connections =
  local :: storage
  session :: storage
  connectedClusters :: "json list"

definition mount_home :: "string list \<Rightarrow> connections \<Rightarrow> connections" where
  "mount_home names w = w\<lparr>connectedClusters :=
     set_of (map JStr (getAutoConnectClusterNames (local w) names) @ getSessionConnectedClusters (session w))\<rparr>"

definition connect :: "string \<Rightarrow> connections \<Rightarrow> connections" where
  "connect name w = w\<lparr>local := setRecentCluster name (local w), session := addSessionConnectedCluster name (session w),
     connectedClusters := set_add (JStr name) (connectedClusters w)\<rparr>"

datatype connect_event = Mount "string list" | Connect string

definition connect_step :: "connections \<Rightarrow> connect_event \<Rightarrow> connections" where
  "connect_step w e = (case e of Mount names \<Rightarrow> mount_home names w | Connect name \<Rightarrow> connect name w)"

section \<open>Tables\<close>

text \<open>The columns as they are given; an id that is not given is their position.\<close>

record table_column =
  col_id :: "string option"
  col_show :: bool

definition column_json :: "nat \<Rightarrow> table_column \<Rightarrow> json" where
  "column_json i c = JObj [(''id'', JStr (case col_id c of None \<Rightarrow> digits_of i | Some s \<Rightarrow> s)), (''show'', JBool (col_show c))]"

definition storeTableSettings :: "string \<Rightarrow> table_column list \<Rightarrow> storage \<Rightarrow> storage" where
  "storeTableSettings tableId columns st =
    (if tableId = [] then st
     else if columns = [] then dict_delete (''table_settings.'' @ tableId) st
     else dict_set (''table_settings.'' @ tableId) (Some (JArr (map (\<lambda>(i, c). column_json i c) (enumerate 0 columns)))) st)"

definition valid_column :: "json \<Rightarrow> bool" where
  "valid_column e = (e \<noteq> JNull \<and> js_typeof e = ''object'' \<and>
     (case jprop e ''id'' of Inr (Some v) \<Rightarrow> js_typeof v = ''string'' | _ \<Rightarrow> False) \<and>
     (case jprop e ''show'' of Inr (Some v) \<Rightarrow> js_typeof v = ''boolean'' | _ \<Rightarrow> False))"

definition loadTableSettings :: "string \<Rightarrow> storage \<Rightarrow> json list" where
  "loadTableSettings tableId st =
    (if tableId = [] then []
     else (case stored_json st (''table_settings.'' @ tableId) of
        Some (JArr xs) \<Rightarrow> if length (filter valid_column xs) \<noteq> length xs then [] else filter valid_column xs
      | _ \<Rightarrow> []))"

definition minTablesRowsPerPage :: int where "minTablesRowsPerPage = 5"
definition maxTablesRowsPerPage :: int where "maxTablesRowsPerPage = 1000"

text \<open>The bound of safe integers is above that of rows.\<close>

definition parseTablesRowsPerPage :: "string \<Rightarrow> int option" where
  "parseTablesRowsPerPage value =
    (let t = js_trim value
     in if t = [] \<or> \<not> list_all is_digit t then None
        else let n = int (dec_val t)
             in if n < minTablesRowsPerPage \<or> n > maxTablesRowsPerPage then None else Some n)"

text \<open>The storage of texts: this value is not JSON.\<close>

definition getTablesRowsPerPage :: "(string, string) dict \<Rightarrow> int \<Rightarrow> int" where
  "getTablesRowsPerPage st default_rows = (case dict_get st ''tables_rows_per_page'' of
     None \<Rightarrow> default_rows
   | Some t \<Rightarrow> if t = [] then default_rows else given (parseTablesRowsPerPage t) default_rows)"

definition setTablesRowsPerPage :: "int \<Rightarrow> (string, string) dict \<Rightarrow> (string, string) dict" where
  "setTablesRowsPerPage perPage st = dict_set ''tables_rows_per_page'' (int_str perPage) st"

section \<open>Settings survive\<close>

definition settings_valid :: "(string \<Rightarrow> bool) \<Rightarrow> (string, json) dict \<Rightarrow> bool" where
  "settings_valid isValidTimeZone s \<longleftrightarrow> isNumberArray (dict_get s ''tableRowsPerPageOptions'') \<and>
     (\<exists>z. dict_get s ''timezone'' = Some (JStr z) \<and> z \<noteq> [] \<and> isValidTimeZone z) \<and>
     isBoolean (dict_get s ''sidebarSortAlphabetically'') \<and> isBoolean (dict_get s ''useEvict'')"

lemma or_default_valid: "isBoolean (Some (or_default (if isBoolean v then v else None) (JBool b)))"
  "isNumberArray (Some (or_default (if isNumberArray v then v else None) defaultTableRowsPerPageOptions))"
  by (cases v; auto simp: or_default_def isBoolean_def isNumberArray_def defaultTableRowsPerPageOptions_def)+

text \<open>Settings that are valid when they are stored are read again at the next start; whatever is stored,
  the settings at the start are valid, if the default time zone is.\<close>

theorem settings_survive_restart:
  assumes "setAppSettings change (settings, st) = (new, st')"
  shows "(settings_valid tz new \<longrightarrow> (\<forall>k \<in> {''tableRowsPerPageOptions'', ''timezone'', ''sidebarSortAlphabetically'', ''useEvict''}.
      dict_get (initial_settings tz dtz st') k = dict_get new k)) \<and>
    (dtz \<noteq> [] \<and> tz dtz \<longrightarrow> settings_valid tz (initial_settings tz dtz anything))"
proof -
  from assms have "st' = dict_set ''settings'' (Some (JObj new)) st" by (auto simp: setAppSettings_def Let_def)
  then have stored: "stored_json st' ''settings'' = Some (JObj new)" by (simp add: stored_json_def)
  have "dict_get (initial_settings tz dtz st') k = dict_get new k"
    if v: "settings_valid tz new" and "k \<in> {''tableRowsPerPageOptions'', ''timezone'', ''sidebarSortAlphabetically'', ''useEvict''}" for k
  proof -
    from v obtain z rows b c where "dict_get new ''timezone'' = Some (JStr z)" "z \<noteq> []" "tz z"
      "dict_get new ''tableRowsPerPageOptions'' = Some rows" "isNumberArray (Some rows)"
      "dict_get new ''sidebarSortAlphabetically'' = Some b" "isBoolean (Some b)" "dict_get new ''useEvict'' = Some c" "isBoolean (Some c)"
      by (auto simp: settings_valid_def isNumberArray_def isBoolean_def split: option.splits)
    with that(2) stored show ?thesis
      by (auto simp: initial_settings_def loadStoredSettings_def Let_def or_default_def dict_get_def)
  qed
  moreover have "settings_valid tz (initial_settings tz dtz anything)" if d: "dtz \<noteq> [] \<and> tz dtz"
  proof -
    let ?s = "loadStoredSettings tz anything"
    have b: "isBoolean (Some (or_default (st_alphabetically ?s) (JBool False)))" "isBoolean (Some (or_default (st_evict ?s) (JBool True)))"
      "isNumberArray (Some (or_default (st_rows ?s) defaultTableRowsPerPageOptions))"
      by (cases "stored_json anything ''settings''";
          (cases "the (stored_json anything ''settings'')")?;
          simp add: loadStoredSettings_def no_settings_def or_default_valid or_default_valid [of None, simplified])+
    have z: "st_timezone ?s = Some z \<Longrightarrow> tz z" for z
      by (auto simp: loadStoredSettings_def no_settings_def split: option.splits json.splits if_splits)
    have "or_else (st_timezone ?s) dtz \<noteq> [] \<and> tz (or_else (st_timezone ?s) dtz)"
      using d z by (cases "st_timezone ?s") (auto simp: or_else_def)
    with b show ?thesis by (simp add: settings_valid_def initial_settings_def Let_def dict_get_def)
  qed
  ultimately show ?thesis by blast
qed

theorem settings_survive_restart_witness:
  "dict_get (initial_settings (\<lambda>z. z = ''UTC'') ''UTC'' (snd (setAppSettings [(''useEvict'', JBool False)]
      (initial_settings (\<lambda>z. z = ''UTC'') ''UTC'' [], [])))) ''useEvict'' = Some (JBool False)"
proof -
  let ?tz = "\<lambda>z. z = ''UTC''" and ?r = "setAppSettings [(''useEvict'', JBool False)] (initial_settings (\<lambda>z. z = ''UTC'') ''UTC'' [], [])"
  have e: "setAppSettings [(''useEvict'', JBool False)] (initial_settings ?tz ''UTC'' [], []) = (fst ?r, snd ?r)" by simp
  have v: "settings_valid ?tz (fst ?r)"
    by (simp add: setAppSettings_def Let_def settings_valid_def initial_settings_def loadStoredSettings_def no_settings_def
        stored_json_def or_default_def defaultTableRowsPerPageOptions_def isNumberArray_def isBoolean_def dict_get_def dict_set_def)
  have n: "dict_get (fst ?r) ''useEvict'' = Some (JBool False)" by (simp add: setAppSettings_def Let_def)
  from settings_survive_restart [OF e, THEN conjunct1] v n show ?thesis by auto
qed

section \<open>Clusters\<close>

lemma object_assign_get: "distinct (map fst src) \<Longrightarrow> dict_get (object_assign target src) k = (case dict_get src k of None \<Rightarrow> dict_get target k | Some v \<Rightarrow> Some v)"
proof (induction src arbitrary: target)
  case (Cons p src)
  obtain a v where p: "p = (a, v)" by force
  have get: "dict_get ((a, v) # src) k = (if k = a then Some v else dict_get src k)" by (simp add: dict_get_def)
  have none: "dict_get src a = None" using Cons.prems p by (simp add: dict_get_def map_of_eq_None_iff)
  have step: "object_assign target ((a, v) # src) = object_assign (dict_set a v target) src" by (simp add: object_assign_def)
  have "distinct (map fst src)" using Cons.prems by simp
  from Cons.IH [OF this, of "dict_set a v target"] none show ?case
    unfolding p step get by (simp split: option.split)
qed (simp add: object_assign_def dict_get_def)

text \<open>The configuration of a cluster is the stateless one, if there is one, else that of the backend, and
  only then an older one; until the backend has answered there are no clusters at all.\<close>

theorem stateless_clusters_come_first:
  assumes "dict_wf (given (clusters s) [])" and "dict_wf (given (statelessClusters s) [])"
  shows "(useClustersConf s = None \<longleftrightarrow> clusters s = None) \<and>
    (\<forall>conf k. useClustersConf s = Some conf \<longrightarrow> dict_get conf k =
      (case dict_get (given (statelessClusters s) []) k of Some v \<Rightarrow> Some v
       | None \<Rightarrow> (case dict_get (given (clusters s) []) k of Some v \<Rightarrow> Some v | None \<Rightarrow> dict_get (given (allClusters s) []) k)))"
  using assms by (auto simp: useClustersConf_def dict_wf_def object_assign_get given_def split: option.splits)

definition two_sources :: "string config" where
  "two_sources = \<lparr>clusters = Some [(''a'', ''backend'')], statelessClusters = Some [(''a'', ''stateless''), (''b'', ''stateless'')], allClusters = None,
     isDynamicClusterEnabled = False, allowKubeconfigChanges = False, defaultPodDebugImage = [], defaultNodeShellImage = [],
     defaultNodeShellNamespace = [], defaultLightTheme = None, defaultDarkTheme = None, forceTheme = None\<rparr>"

theorem stateless_clusters_come_first_witness:
  "\<exists>conf. useClustersConf two_sources = Some conf \<and> dict_get conf ''a'' = Some ''stateless''"
proof -
  have "dict_wf (given (clusters two_sources) [])" "dict_wf (given (statelessClusters two_sources) [])"
    by (simp_all add: two_sources_def given_def dict_wf_def)
  note first = stateless_clusters_come_first [OF this]
  have "clusters two_sources \<noteq> None" by (simp add: two_sources_def)
  with first obtain conf where "useClustersConf two_sources = Some conf" by blast
  moreover have "dict_get (given (statelessClusters two_sources) []) ''a'' = Some ''stateless''"
    by (simp add: two_sources_def given_def dict_get_def)
  ultimately show ?thesis using first by simp
qed

lemma recent_after_set: "getRecentClusters (setRecentCluster n st) = take 3 (n # filter (\<lambda>m. m \<noteq> n) (getRecentClusters st))"
proof -
  have "getRecentClusters (dict_set ''recent_clusters'' (Some (JArr (map JStr ns))) st) = ns" for ns
    by (simp add: getRecentClusters_def stored_json_def list_all_iff js_typeof_def comp_def)
  then show ?thesis unfolding setRecentCluster_def .
qed

text \<open>The recent clusters are at most three, without repetition if they were so stored, the last one first.\<close>

theorem recent_clusters_bounded:
  assumes "names \<noteq> []"
  shows "length (getRecentClusters (fold setRecentCluster names st)) \<le> 3 \<and>
    hd (getRecentClusters (fold setRecentCluster names st)) = last names \<and>
    (distinct (getRecentClusters st) \<longrightarrow> distinct (getRecentClusters (fold setRecentCluster names st)))"
proof -
  have d: "distinct (getRecentClusters st) \<Longrightarrow> distinct (getRecentClusters (fold setRecentCluster ns st))" for ns
  proof (induction ns rule: rev_induct)
    case (snoc n ns)
    then have "distinct (n # filter (\<lambda>m. m \<noteq> n) (getRecentClusters (fold setRecentCluster ns st)))" by simp
    then have "distinct (take 3 (n # filter (\<lambda>m. m \<noteq> n) (getRecentClusters (fold setRecentCluster ns st))))" by (rule distinct_take)
    then show ?case by (simp only: fold_append comp_apply fold.simps id_apply recent_after_set)
  qed simp
  obtain ns n where "names = ns @ [n]" using assms by (cases names rule: rev_cases) auto
  then show ?thesis using d [of names] by (simp add: recent_after_set)
qed

theorem recent_clusters_bounded_witness:
  "length (getRecentClusters (fold setRecentCluster [''a'', ''b'', ''c'', ''d''] [])) \<le> 3 \<and>
   hd (getRecentClusters (fold setRecentCluster [''a'', ''b'', ''c'', ''d''] [])) = ''d''"
  using recent_clusters_bounded [of "[''a'', ''b'', ''c'', ''d'']" "[]"] by simp

section \<open>Connections\<close>

lemma session_after_add: "set (getSessionConnectedClusters (addSessionConnectedCluster n s)) = insert (JStr n) (set (getSessionConnectedClusters s))"
  by (auto simp: getSessionConnectedClusters_def addSessionConnectedCluster_def stored_json_def)

lemma connect_step_session:
  "set (getSessionConnectedClusters (session w)) \<subseteq> set (getSessionConnectedClusters (session (connect_step w e)))"
  by (cases e) (auto simp: connect_step_def mount_home_def connect_def session_after_add)

definition connections_ok :: "string \<Rightarrow> connections \<Rightarrow> bool" where
  "connections_ok n w \<longleftrightarrow> JStr n \<in> set (getSessionConnectedClusters (session w)) \<and> JStr n \<in> set (connectedClusters w)"

lemma connections_ok_step: "connections_ok n w \<Longrightarrow> connections_ok n (connect_step w e)"
  using connect_step_session [of w e]
  by (cases e) (auto simp: connections_ok_def connect_step_def mount_home_def connect_def)

interpretation stay_connected: reducer connect_step "connections_ok n" for n
  by unfold_locales (rule connections_ok_step)

text \<open>A cluster that was connected on demand stays connected for the session, however often the view is
  mounted again and whatever clusters it lists; mounting itself connects only recent clusters of its
  list beside those.\<close>

theorem connected_clusters_stay_connected:
  assumes "Connect n \<in> set es"
  shows "JStr n \<in> set (connectedClusters (foldl connect_step w es)) \<and>
    set (connectedClusters (connect_step (foldl connect_step w es) (Mount names))) =
      JStr ` (set names \<inter> set (getRecentClusters (local (foldl connect_step w es)))) \<union>
      set (getSessionConnectedClusters (session (foldl connect_step w es)))"
proof -
  from assms obtain xs ys where es: "es = xs @ Connect n # ys" by (meson split_list)
  have "connections_ok n (connect_step (foldl connect_step w xs) (Connect n))"
    by (auto simp: connections_ok_def connect_step_def connect_def session_after_add)
  from stay_connected.run_inv [OF this, of ys] have "connections_ok n (foldl connect_step w es)" by (simp add: es)
  then show ?thesis
    by (auto simp: connections_ok_def connect_step_def mount_home_def getAutoConnectClusterNames_def)
qed

theorem connected_clusters_stay_connected_witness:
  "JStr ''a'' \<in> set (connectedClusters (foldl connect_step \<lparr>local = [], session = [], connectedClusters = []\<rparr>
     [Mount [''a'', ''b''], Connect ''a'', Connect ''b'', Connect ''c'', Connect ''d'', Mount []]))"
  using connected_clusters_stay_connected [of "''a''" "[Mount [''a'', ''b''], Connect ''a'', Connect ''b'', Connect ''c'', Connect ''d'', Mount []]"]
  by simp

section \<open>Tables\<close>

lemma column_json_valid: "valid_column (column_json i c)"
  by (simp add: valid_column_def column_json_def jprop_def js_typeof_def)

text \<open>The columns of a table are read as they were stored, those without an id under their position; an
  empty list forgets them; other tables keep theirs.\<close>

theorem table_settings_roundtrip:
  assumes "i \<noteq> []"
  shows "loadTableSettings i (storeTableSettings i columns st) = map (\<lambda>(k, c). column_json k c) (enumerate 0 columns) \<and>
    (\<forall>j. j \<noteq> i \<longrightarrow> dict_wf st \<longrightarrow> loadTableSettings j (storeTableSettings i columns st) = loadTableSettings j st)"
proof -
  have "filter valid_column (map (\<lambda>(k, c). column_json k c) (enumerate 0 columns)) = map (\<lambda>(k, c). column_json k c) (enumerate 0 columns)"
    by (auto simp: filter_id_conv column_json_valid)
  moreover have "dict_get (dict_delete k st) k = None" for k by (simp add: dict_get_def dict_delete_def delete_conv')
  ultimately show ?thesis
    using assms by (auto simp: loadTableSettings_def storeTableSettings_def stored_json_def)
qed

theorem table_settings_roundtrip_witness:
  "loadTableSettings ''pods'' (storeTableSettings ''pods'' [\<lparr>col_id = Some ''name'', col_show = True\<rparr>, \<lparr>col_id = None, col_show = False\<rparr>] []) =
   [JObj [(''id'', JStr ''name''), (''show'', JBool True)], JObj [(''id'', JStr ''1''), (''show'', JBool False)]]"
proof -
  have "digits_of 1 = ''1''" by code_simp
  then show ?thesis using table_settings_roundtrip [of "''pods''"] by (simp add: column_json_def)
qed

lemma trim_digits: "list_all is_digit t \<Longrightarrow> js_trim t = t"
proof -
  assume t: "list_all is_digit t"
  have "\<not> is_space c" if "is_digit c" for c using that by (auto simp: is_digit_def is_space_def)
  then have s: "trim_start u = u" if "list_all is_digit u" for u using that by (cases u) (simp_all add: trim_start_def)
  have "list_all is_digit (rev t)" using t by (simp add: list_all_iff)
  then have "trim_end t = t" using s [of "rev t"] by (simp add: trim_end_def trim_start_def)
  with s t show "js_trim t = t" by (simp add: js_trim_def)
qed

text \<open>A number of rows from 5 to 1000 is read as it was stored, any other as the default.\<close>

theorem rows_per_page_roundtrip:
  "getTablesRowsPerPage (setTablesRowsPerPage n st) d = (if 5 \<le> n \<and> n \<le> 1000 then n else d)"
proof (cases "n < 0")
  case True
  have "js_trim (CHR ''-'' # ds) \<noteq> [] \<Longrightarrow> \<not> list_all is_digit (js_trim (CHR ''-'' # digits_of m))" for ds m
  proof -
    have "list_all is_digit (rev (digits_of m))" using is_digit_digits_of by (auto simp: list_all_iff)
    then have "dropWhile is_space (rev (CHR ''-'' # digits_of m)) = rev (CHR ''-'' # digits_of m)"
      by (cases "rev (digits_of m)") (auto simp: is_digit_def is_space_def)
    then have "trim_end (CHR ''-'' # digits_of m) = CHR ''-'' # digits_of m" by (simp add: trim_end_def)
    then show ?thesis by (simp add: js_trim_def trim_start_def is_space_def is_digit_def code_unit_def)
  qed
  with True show ?thesis
    by (auto simp: getTablesRowsPerPage_def setTablesRowsPerPage_def int_str_def parseTablesRowsPerPage_def given_def Let_def)
next
  case False
  have "list_all is_digit (digits_of m)" for m using is_digit_digits_of by (auto simp: list_all_iff)
  with False show ?thesis
    by (simp add: getTablesRowsPerPage_def setTablesRowsPerPage_def int_str_def parseTablesRowsPerPage_def given_def Let_def trim_digits
        minTablesRowsPerPage_def maxTablesRowsPerPage_def)
qed

end
