(* ===== verification/Spec2Isabelle.thy ===== *)
theory Spec2Isabelle
  imports Multiplexer KubeLists PodStatus ClusterAction Notifications NodeUpgrade Graph McpTools Preferences Projects RunCommand Rollback Stateless PluginManager McpClient PluginLoading Requests LegacySockets Discovery KubeObjects Activities Terminals MapSources SingleObject Configuration
begin

text \<open>
  K8Sense is a web and desktop application for Kubernetes clusters. Its TypeScript has two
  programs: the frontend (\<^verbatim>\<open>frontend/src\<close>), which talks to the API servers through a backend
  written in Go, and the desktop shell (\<^verbatim>\<open>app/electron\<close>), which runs the frontend in a window and
  offers it plugins, local commands and tools. This library models the parts of both that keep
  state or decide something, and proves what makes them correct. The definitions are translated
  from the code; where the code breaks what it means to do, the theorem states what it does.

  \<^bold>\<open>How the parts interact.\<close> The frontend asks for lists of objects (KubeLists) with addresses
  built by Urls, and keeps them current with watches: over one socket that all clusters share
  (Multiplexer, sharing being optional) or, for older code, over one connection per list
  (StreamResults). The objects feed the views: the status of pods (PodStatus), the progress of node
  upgrades (NodeUpgrade), the map of resources (Graph), projects (Projects), the history of
  workloads (Rollback). Actions on clusters run delayed and can be cancelled (ClusterAction); they
  and the events of clusters make notifications (Notifications). Settings live in the browser's
  storage (Preferences), and so do kubeconfigs of clusters that the backend does not know
  (Stateless). Every request carries the cluster it is for and its kubeconfig (Requests); older
  views watch over sockets of their own (LegacySockets), terminals have streams (Terminals), and what kinds of resources there are is
  asked from the clusters (Discovery). Objects and their classes turn the actions of views into
  requests (KubeObjects). Screens on top of the views are activities (Activities). In the desktop
  shell, plugins are installed and updated (PluginManager), loaded (PluginLoading), may run a few
  local commands with the user's consent (RunCommand), and tools of MCP servers, which the user
  configures (McpSettings), run as far as the user allows (McpClient, McpTools).

  \<^bold>\<open>Shared theories.\<close>
  JsPrelude: numbers with NaN, strings, splitting and joining, dictionaries in insertion order,
  sets, JSON values, stable sorting, and three contracts as locales: \<open>js_map\<close> (a dictionary),
  \<open>reducer\<close> (a function that keeps an invariant along a list of events) and \<open>machine\<close> (a relation
  that keeps it along all runs). Every component with an invariant interprets one of the last two
  on its own steps. JsDate: dates of objects. WatchStore: the contract of a store of
  objects that watch events change, interpreted by KubeLists and by StreamResults. Effects: code
  with effects and exceptions, and the locale \<open>effect_contract\<close>, which derives what composed code
  leaves alone from what its calls leave alone. NodePath and FileSystem: the paths and files of the
  desktop shell.

  \<^bold>\<open>Components\<close>, each with the code it models and what its lemmas show.

  Multiplexer (\<^verbatim>\<open>lib/k8s/api/v2/multiplexer.ts\<close>): the socket manager with its registries of
  listeners, completed paths, delayed unsubscribing and reconnection, as steps of a record. Every
  step keeps the registries consistent; an abandoned subscription has its timer, unless a view was
  cleaned up twice; a view that comes back within the delay keeps its subscription; updates reach
  exactly their listeners; when a socket opens after the loss of the connection, everything
  registered is requested again. Two behaviours on errors are stated as they are.

  Urls (\<^verbatim>\<open>formatUrl.ts\<close>, \<^verbatim>\<open>makeUrl.ts\<close>, \<^verbatim>\<open>queryParameters.ts\<close>): addresses and query strings;
  round trip of queries, no doubled slashes.

  KubeLists (\<^verbatim>\<open>KubeList.ts\<close>, \<^verbatim>\<open>useKubeObjectList.ts\<close>, \<^verbatim>\<open>KubeObjectEndpoint.ts\<close>, \<^verbatim>\<open>retry.ts\<close>): applying
  watch events to a list refines updates of a map of objects; versions grow and events sent again
  are ignored; retries end, because each failure lowers the attempts left.

  StreamResults (\<^verbatim>\<open>v1/streamingApi.ts\<close>): connecting, cancelling and reconnecting of one stream with
  its store of results; one connection at most is alive, and cancelling is final.

  PodStatus (\<^verbatim>\<open>pod.ts\<close>, \<^verbatim>\<open>cluster.ts\<close>): the status line of a pod as the list and as the
  overview compute it, restarts, readiness, the cached status, and the unescaping of logs.

  ClusterAction, Notifications (\<^verbatim>\<open>clusterActionSlice.ts\<close>, \<^verbatim>\<open>notificationsSlice.ts\<close>): the delayed
  action as a state machine with its timers, that cancelling in the grace period prevents the call
  and that every action ends; the store of notifications, bounded and without duplicates.

  NodeUpgrade (\<^verbatim>\<open>upgradeDetection.ts\<close>, \<^verbatim>\<open>upgradeState.ts\<close>): states of nodes from their events.

  Graph (\<^verbatim>\<open>graphFiltering.ts\<close>, \<^verbatim>\<open>graphLookup.ts\<close>, \<^verbatim>\<open>graphGrouping.tsx\<close>, \<^verbatim>\<open>graphModel.tsx\<close>): filtering
  of the resource map as reachability from the matching nodes, and connected components. The walks
  have as fuel one more than the number of nodes; a step of a walk removes a node from those not
  yet seen, and the lemmas show that the fuel is never used up.

  McpTools (\<^verbatim>\<open>MCPToolStateStore.ts\<close>): which tools are enabled, statistics, comparison and merging of
  configurations, checking of arguments; what is saved is read back.

  Preferences (\<^verbatim>\<open>shortcutsSlice.ts\<close>, \<^verbatim>\<open>sidebarSlice.ts\<close>, \<^verbatim>\<open>filterSlice.ts\<close>, \<^verbatim>\<open>storage.ts\<close>): stored
  settings and their round trips; the namespace filter and the search.

  Configuration (\<^verbatim>\<open>configSlice.ts\<close>, \<^verbatim>\<open>recentClusters.ts\<close>, \<^verbatim>\<open>clusterAutoConnect.ts\<close>,
  \<^verbatim>\<open>tableSettings.ts\<close>, \<^verbatim>\<open>tablesRowsPerPage.ts\<close>): settings, clusters, connections on demand and tables;
  what is stored is read again, and connections last for the session.

  Projects (\<^verbatim>\<open>projectsSlice.ts\<close>, \<^verbatim>\<open>projectUtils.ts\<close>, \<^verbatim>\<open>namespace.ts\<close>, \<^verbatim>\<open>ApiResource.tsx\<close>): names,
  health, registered kinds of resources.

  Rollback (\<^verbatim>\<open>deployment.ts\<close>, \<^verbatim>\<open>daemonSet.ts\<close>, \<^verbatim>\<open>statefulSet.ts\<close>, \<^verbatim>\<open>RollbackDialog.tsx\<close>): the
  revisions of workloads, rolling back, and the dialog; the locales state what a workload with
  revisions offers and are interpreted for all three classes. What the dialog can confirm works.

  Stateless (\<^verbatim>\<open>stateless/*.ts\<close>): the store of kubeconfigs, searching, deleting, renaming,
  replacing; no operation adds an entry that a stored text did not have, apart from the new name.
  Which texts are stored is not checked by the code and not assumed here. Base 64 and YAML are a codec given from outside, with
  the hypothesis that reading what was written gives it back.

  PluginManager (\<^verbatim>\<open>plugin-management.ts\<close>): installing, updating, listing and removing as code
  with effects on a file system; only verified archives change the plugins, and only in the folder
  of the plugin, as long as its name is not empty or a dot and its extra files do not leave their
  folder by \<open>..\<close>. The network, the hash, unpacking and the comparison of versions are given from outside.

  RunCommand (\<^verbatim>\<open>runCmd.ts\<close>): validation, secrets, consent, and what is spawned.

  McpSettings, McpClient (\<^verbatim>\<open>MCPSettings.ts\<close>, \<^verbatim>\<open>MCPClient.ts\<close>): reading and expanding the settings
  of the servers, consent to changes, starting and resetting the client, running a tool. Only tools
  that are enabled and confirmed run; starting fails as a value. The client library is given from
  outside.

  PluginLoading (\<^verbatim>\<open>plugin/index.ts\<close>, \<^verbatim>\<open>pluginsSlice.ts\<close>, \<^verbatim>\<open>PluginSettings.tsx\<close>): fetching the plugins,
  choosing one of several versions, compatibility, which run and with which permissions. One
  version of a plugin runs at most, as the user chose, with its own commands only; waiting for the
  backend is bounded.

  Requests (\<^verbatim>\<open>clusterRequests.ts\<close>, \<^verbatim>\<open>factories.ts\<close>, \<^verbatim>\<open>scaleApi.ts\<close>, \<^verbatim>\<open>apply.ts\<close>, \<^verbatim>\<open>clusterApi.ts\<close>,
  \<^verbatim>\<open>fetch.ts\<close>, \<^verbatim>\<open>cluster.ts\<close> and helpers): headers and results of requests, endpoints with several
  versions, applying objects, streams of endpoints. The locale of calls to an endpoint is
  interpreted for deletion; a request on a cluster can carry the kubeconfig of another one, which
  is stated as it is.

  LegacySockets (\<^verbatim>\<open>webSocket.ts\<close>): sockets of hooks without the multiplexer. Hooks that unmount
  after their sockets opened leave nothing behind; a hook that joins a connection loses it with the
  first hook.

  Discovery (\<^verbatim>\<open>apiDiscovery.tsx\<close>): resources of clusters over the aggregated and the older protocol;
  only offered resources are listed, well-formed aggregated answers give exactly what they list for
  the first version of each group, and failing clusters do not disturb the others.

  KubeObjects (\<^verbatim>\<open>KubeObject.ts\<close>, \<^verbatim>\<open>patchUtils.ts\<close>, \<^verbatim>\<open>crd.ts\<close>): clients of classes, writing, patching
  and deleting objects, reviews of permissions, classes of custom resources.

  SingleObject (\<^verbatim>\<open>hooks.ts\<close>): one object that is fetched and kept current by its watch, and the choice
  of an endpoint. After an update the object belongs to the cluster of the address, which is
  followed into the requests of KubeObjects.

  Activities (\<^verbatim>\<open>activitySlice.tsx\<close>, \<^verbatim>\<open>Activity.tsx\<close>): open screens, their order and the temporary one.

  MapSources (\<^verbatim>\<open>GraphSources.tsx\<close>, \<^verbatim>\<open>relations.tsx\<close>, \<^verbatim>\<open>sources.tsx\<close>): the sources of the resource map, their
  selection, and the relations between objects. Which edges are drawn is stated in terms of the
  sources that are shown and of the documents of the objects; three relations miss their purpose.

  Terminals (\<^verbatim>\<open>useTerminalStream.ts\<close>, \<^verbatim>\<open>NodeShellTerminal.tsx\<close>, \<^verbatim>\<open>PodDebugTerminal.tsx\<close>,
  \<^verbatim>\<open>Terminal.tsx\<close>): terminals and their streams, shells of nodes, debug containers, the shells that
  are tried in a pod. What handlers may do is a locale, interpreted for the shells. Four behaviours
  that miss their purpose are stated as they are.

  \<^bold>\<open>Bounds.\<close> Strings are lists of characters of 8 bits, where JavaScript has 16 bit units; messages
  of terminals are lists of bytes at their width, whose first is read with its sign. Numbers are
  integers (or NaN); no other component depends on overflow or rounding. Loops are structural
  recursion, except the walks of Graph and splitting of strings, which has a termination proof;
  polling for a debug container has the 30 rounds of the code as its bound.

  \<^bold>\<open>Not modelled.\<close> The backend (Go). Rendering: React components, themes, icons, translations,
  stories; most lines of the frontend are of this kind, and their meaning is what the libraries of
  widgets draw. The Electron window, menus, tray and inter-process glue of \<^verbatim>\<open>main.ts\<close>, which only calls
  that library. Calls that only pass a request on (API wrappers, Cluster Doctor's pages). Thin
  classes of Kubernetes kinds that only name fields. The layout of the resource map, done by a
  library. Command line tools for plugin authors and release scripts, tests, charts and docs. Of the
  modelled components: console output, metrics, and the failure of opening the browser's databases.
\<close>

end
